(* ===== verification/Prelude.thy ===== *)
theory Prelude
  imports Main "HOL-Library.AList" "HOL-Library.Multiset"
begin

text \<open>
  What every component of the development shares.

  \<^item> \<open>result\<close>: a fallible operation of the code returns \<open>Inl\<close> the exception it throws or
    \<open>Inr\<close> its value.
  \<^item> A JavaScript \<open>Map\<close> keeps the order in which its keys were first inserted. It is an
    association list with distinct keys: \<open>Map.set\<close> is \<^const>\<open>AList.update\<close> (in place when the key is
    there, at the end otherwise), \<open>Map.delete\<close> is \<^const>\<open>AList.delete\<close>, \<open>Map.get\<close> is
    \<^const>\<open>map_of\<close>, \<open>Map.size\<close> is \<^const>\<open>length\<close>.
  \<^item> \<open>Array.prototype.sort\<close> with a comparator is stable. \<open>js_sort\<close> is the stable insertion sort;
    the locale \<open>comparator\<close> states what a comparator must satisfy and proves that the result is
    sorted, a permutation of the input and stable.
  \<^item> \<open>lifecycle\<close>: the interface of a status field that moves along a table of allowed transitions.
  \<^item> \<open>durable_log\<close>: the interface of a log on disk to which records are appended.
\<close>

named_theorems map_simps \<open>rules for insertion-ordered maps\<close>

type_synonym ('e, 'a) result = "'e + 'a"

fun is_ok :: "('e, 'a) result \<Rightarrow> bool" where
  "is_ok (Inl e) = False"
| "is_ok (Inr a) = True"

fun rbind :: "('e, 'a) result \<Rightarrow> ('a \<Rightarrow> ('e, 'b) result) \<Rightarrow> ('e, 'b) result" where
  "rbind (Inl e) f = Inl e"
| "rbind (Inr a) f = f a"

lemma rbind_Inr_iff: "rbind r f = Inr b \<longleftrightarrow> (\<exists>a. r = Inr a \<and> f a = Inr b)"
  by (cases r) auto

section \<open>Insertion-ordered maps\<close>

type_synonym ('k, 'v) jsmap = "('k \<times> 'v) list"

definition keys :: "('k, 'v) jsmap \<Rightarrow> 'k list" where
  "keys m = map fst m"

definition has_key :: "('k, 'v) jsmap \<Rightarrow> 'k \<Rightarrow> bool" where
  "has_key m k \<longleftrightarrow> map_of m k \<noteq> None"

definition wf_map :: "('k, 'v) jsmap \<Rightarrow> bool" where
  "wf_map m \<longleftrightarrow> distinct (keys m)"

lemma wf_map_Nil [simp]: "wf_map []"
  by (simp add: wf_map_def keys_def)

lemma has_key_iff [map_simps]: "has_key m k \<longleftrightarrow> k \<in> set (keys m)"
  by (auto simp: has_key_def keys_def map_of_eq_None_iff)

lemma keys_update [map_simps]:
  "keys (AList.update k v m) = (if k \<in> set (keys m) then keys m else keys m @ [k])"
  by (induction m) (auto simp: keys_def)

lemma keys_delete [map_simps]: "keys (AList.delete k m) = removeAll k (keys m)"
  by (induction m) (auto simp: keys_def AList.delete_eq)

lemma map_of_update [map_simps]: "map_of (AList.update k v m) = (map_of m)(k \<mapsto> v)"
  by (simp add: update_conv')

lemma map_of_delete [map_simps]: "map_of (AList.delete k m) = (map_of m)(k := None)"
  by (simp add: delete_conv')

lemma wf_map_update [simp]: "wf_map m \<Longrightarrow> wf_map (AList.update k v m)"
  by (simp add: wf_map_def keys_update)

lemma wf_map_delete [simp]: "wf_map m \<Longrightarrow> wf_map (AList.delete k m)"
  by (simp add: wf_map_def keys_delete distinct_removeAll)

lemma wf_map_filter [simp]: "wf_map m \<Longrightarrow> wf_map (filter P m)"
  by (simp add: wf_map_def keys_def distinct_map_filter)

lemma length_keys [simp]: "length (keys m) = length m"
  by (simp add: keys_def)

lemma length_update [map_simps]:
  "length (AList.update k v m) = (if k \<in> set (keys m) then length m else Suc (length m))"
  by (metis keys_update length_append_singleton length_keys)

lemma length_delete_le: "length (AList.delete k m) \<le> length m"
  by (simp add: AList.delete_eq)

lemma length_delete_mem:
  assumes "wf_map m" and "k \<in> set (keys m)"
  shows "Suc (length (AList.delete k m)) = length m"
proof -
  have "length (removeAll k (keys m)) = length (keys m) - 1"
    using assms by (simp add: wf_map_def distinct_remove1_removeAll [symmetric] length_remove1)
  moreover have "keys m \<noteq> []" using assms(2) by auto
  ultimately show ?thesis
    by (metis Suc_diff_1 keys_delete length_greater_0_conv length_keys)
qed

lemma delete_idem: "k \<notin> set (keys m) \<Longrightarrow> AList.delete k m = m"
  by (induction m) (auto simp: keys_def AList.delete_eq)

lemma map_of_filter_wf:
  "wf_map m \<Longrightarrow> map_of (filter P m) k =
     (case map_of m k of None \<Rightarrow> None | Some v \<Rightarrow> if P (k, v) then Some v else None)"
proof (induction m)
  case Nil
  then show ?case by simp
next
  case (Cons kv m)
  obtain k' v where kv: "kv = (k', v)" by force
  from Cons.prems have "wf_map m" and "k' \<notin> fst ` set m"
    by (auto simp: wf_map_def keys_def kv)
  with Cons.IH show ?case
    by (auto simp: kv map_of_eq_None_iff split: option.splits)
qed

lemma map_of_SomeD': "map_of m k = Some v \<Longrightarrow> k \<in> set (keys m)"
  by (auto simp: keys_def dest: map_of_SomeD intro: image_eqI [rotated])

section \<open>Stable sorting with a comparator\<close>

fun sort_insert :: "('a \<Rightarrow> 'a \<Rightarrow> int) \<Rightarrow> 'a \<Rightarrow> 'a list \<Rightarrow> 'a list" where
  "sort_insert cmp x [] = [x]"
| "sort_insert cmp x (y # ys) =
     (if cmp x y \<le> 0 then x # y # ys else y # sort_insert cmp x ys)"

definition js_sort :: "('a \<Rightarrow> 'a \<Rightarrow> int) \<Rightarrow> 'a list \<Rightarrow> 'a list" where
  "js_sort cmp xs = foldr (sort_insert cmp) xs []"

lemma js_sort_Nil [simp]: "js_sort cmp [] = []"
  by (simp add: js_sort_def)

lemma js_sort_Cons [simp]: "js_sort cmp (x # xs) = sort_insert cmp x (js_sort cmp xs)"
  by (simp add: js_sort_def)

lemma mset_sort_insert: "mset (sort_insert cmp x ys) = add_mset x (mset ys)"
  by (induction ys) auto

lemma mset_js_sort [simp]: "mset (js_sort cmp xs) = mset xs"
  by (induction xs) (simp_all add: mset_sort_insert)

lemma set_js_sort [simp]: "set (js_sort cmp xs) = set xs"
  by (metis mset_js_sort set_mset_mset)

lemma length_js_sort [simp]: "length (js_sort cmp xs) = length xs"
  by (metis mset_js_sort size_mset)

lemma distinct_js_sort [simp]: "distinct (js_sort cmp xs) = distinct xs"
  by (metis mset_js_sort mset_eq_imp_distinct_iff)

locale comparator =
  fixes cmp :: "'a \<Rightarrow> 'a \<Rightarrow> int"
  assumes cmp_total: "cmp x y \<le> 0 \<or> cmp y x \<le> 0"
    and cmp_trans: "cmp x y \<le> 0 \<Longrightarrow> cmp y z \<le> 0 \<Longrightarrow> cmp x z \<le> 0"
begin

lemma sorted_sort_insert:
  "sorted_wrt (\<lambda>x y. cmp x y \<le> 0) ys \<Longrightarrow> sorted_wrt (\<lambda>x y. cmp x y \<le> 0) (sort_insert cmp x ys)"
proof (induction ys)
  case Nil
  then show ?case by simp
next
  case (Cons y ys)
  have "set (sort_insert cmp x ys) = insert x (set ys)"
    by (metis mset_sort_insert set_mset_add_mset_insert set_mset_mset)
  with Cons show ?case
    using cmp_total [of x y] by (auto intro: cmp_trans)
qed

lemma sorted_js_sort: "sorted_wrt (\<lambda>x y. cmp x y \<le> 0) (js_sort cmp xs)"
  by (induction xs) (simp_all add: sorted_sort_insert)

lemma filter_sort_insert_equiv:
  assumes "sorted_wrt (\<lambda>x y. cmp x y \<le> 0) ys" and "cmp a x \<le> 0" and "cmp x a \<le> 0"
  shows "filter (\<lambda>y. cmp a y \<le> 0 \<and> cmp y a \<le> 0) (sort_insert cmp x ys) =
    x # filter (\<lambda>y. cmp a y \<le> 0 \<and> cmp y a \<le> 0) ys"
  using assms
proof (induction ys)
  case Nil
  then show ?case by simp
next
  case (Cons y ys)
  show ?case
  proof (cases "cmp x y \<le> 0")
    case False
    then have "\<not> cmp a y \<le> 0" using Cons.prems(3) cmp_trans by blast
    with False Cons show ?thesis by simp
  qed (use Cons.prems in simp)
qed

lemma filter_sort_insert_other:
  "\<not> (cmp a x \<le> 0 \<and> cmp x a \<le> 0) \<Longrightarrow>
    filter (\<lambda>y. cmp a y \<le> 0 \<and> cmp y a \<le> 0) (sort_insert cmp x ys) =
    filter (\<lambda>y. cmp a y \<le> 0 \<and> cmp y a \<le> 0) ys"
  by (induction ys) auto

lemma js_sort_stable:
  "filter (\<lambda>y. cmp a y \<le> 0 \<and> cmp y a \<le> 0) (js_sort cmp xs) =
   filter (\<lambda>y. cmp a y \<le> 0 \<and> cmp y a \<le> 0) xs"
  by (induction xs)
     (auto simp: filter_sort_insert_equiv filter_sort_insert_other sorted_js_sort)

end

section \<open>Status fields that move along a table of transitions\<close>

fun follows :: "('s \<Rightarrow> 's \<Rightarrow> bool) \<Rightarrow> 's \<Rightarrow> 's list \<Rightarrow> bool" where
  "follows allowed s [] = True"
| "follows allowed s (t # ts) = (allowed s t \<and> follows allowed t ts)"

locale lifecycle =
  fixes allowed :: "'s \<Rightarrow> 's \<Rightarrow> bool"
    and rank :: "'s \<Rightarrow> nat"
    and top :: nat
  assumes rank_step: "allowed s t \<Longrightarrow> rank s < rank t"
    and rank_top: "rank s \<le> top"
begin

lemma path_rank: "follows allowed s ts \<Longrightarrow> rank s + length ts \<le> top"
proof (induction ts arbitrary: s)
  case Nil
  then show ?case by (simp add: rank_top)
next
  case (Cons t ts)
  from Cons.prems have "rank s < rank t" and "rank t + length ts \<le> top"
    by (auto intro: rank_step Cons.IH)
  then show ?case by simp
qed

lemma path_increasing: "follows allowed s ts \<Longrightarrow> t \<in> set ts \<Longrightarrow> rank s < rank t"
proof (induction ts arbitrary: s)
  case Nil
  then show ?case by simp
next
  case (Cons u ts)
  then have "rank s < rank u" and "t = u \<or> rank u < rank t"
    by (auto intro: rank_step)
  then show ?case by auto
qed

lemma no_return: "follows allowed s ts \<Longrightarrow> s \<notin> set ts"
  using path_increasing by blast

lemma path_distinct: "follows allowed s ts \<Longrightarrow> distinct (s # ts)"
proof (induction ts arbitrary: s)
  case Nil
  then show ?case by simp
next
  case (Cons u ts)
  then have "distinct (u # ts)" by auto
  with no_return [OF Cons.prems] show ?case by auto
qed

end

section \<open>Durable append-only logs\<close>

locale durable_log =
  fixes append :: "'r \<Rightarrow> 's \<Rightarrow> 's option"
    and contents :: "'s \<Rightarrow> 'r list"
    and healthy :: "'s \<Rightarrow> bool"
  assumes append_contents: "healthy s \<Longrightarrow> append r s = Some s' \<Longrightarrow> contents s' = contents s @ [r]"
    and append_healthy: "healthy s \<Longrightarrow> append r s = Some s' \<Longrightarrow> healthy s'"
begin

text \<open>A state that is the replay of the log stays so when an operation appends what it applies.\<close>

lemma replay_append:
  "healthy s \<Longrightarrow> append r s = Some s' \<Longrightarrow>
    fold f (contents s') x = f r (fold f (contents s) x)"
  by (simp add: append_contents)

lemma mirror_step:
  "healthy s \<Longrightarrow> append r s = Some s' \<Longrightarrow> m = fold f (contents s) x \<Longrightarrow>
    f r m = fold f (contents s') x \<and> healthy s'"
  by (simp add: replay_append append_healthy)

end

end
