(* ===== verification/Crc32c.thy ===== *)
theory Crc32c
  imports Prelude "HOL-Library.Word"
begin

unbundle bit_operations_syntax

text \<open>
  The checksum of the write-ahead log (\<open>buildCrc32cTable\<close>, \<open>crc32c\<close> of
  \<open>infra/storage/task-queue-wal.ts\<close>) on 32-bit words: the code's bit operations are those of 32-bit
  integers and every result is brought back to an unsigned one by \<open>>>>\<close>. The table-driven loop is
  proved equal to the bit-by-bit division, and that one is injective in the state and in the
  byte, so a change of a single byte always changes the checksum.
\<close>

type_synonym byte = "8 word"

definition crc_bit :: "32 word \<Rightarrow> 32 word" where
  "crc_bit crc = (if crc AND 1 \<noteq> 0 then drop_bit 1 crc XOR 0x82f63b78 else drop_bit 1 crc)"

definition crc_table_entry :: "nat \<Rightarrow> 32 word" where
  "crc_table_entry i = (crc_bit ^^ 8) (of_nat i)"

definition CRC32C_TABLE :: "32 word list" where
  "CRC32C_TABLE = map crc_table_entry [0..<256]"

definition crc_step :: "32 word \<Rightarrow> byte \<Rightarrow> 32 word" where
  "crc_step crc b = drop_bit 8 crc XOR CRC32C_TABLE ! unat ((crc XOR ucast b) AND 0xff)"

definition crc32c :: "byte list \<Rightarrow> 32 word" where
  "crc32c bytes = foldl crc_step 0xffffffff bytes XOR 0xffffffff"

section \<open>The reference: one bit at a time\<close>

definition crc_step_ref :: "32 word \<Rightarrow> byte \<Rightarrow> 32 word" where
  "crc_step_ref crc b = (crc_bit ^^ 8) (crc XOR ucast b)"

definition crc32c_ref :: "byte list \<Rightarrow> 32 word" where
  "crc32c_ref bytes = foldl crc_step_ref 0xffffffff bytes XOR 0xffffffff"

lemma xor_self_left: "x XOR (x XOR y) = y" for x y :: "'a::len word"
  by (simp add: xor.assoc [symmetric])

lemma xor_cancel_right: "x XOR z = y XOR z \<longleftrightarrow> x = y" for x y z :: "'a::len word"
proof
  assume "x XOR z = y XOR z"
  then have "(x XOR z) XOR z = (y XOR z) XOR z" by simp
  then show "x = y" by (simp add: xor.assoc)
qed simp

lemma xor_cancel_left: "z XOR x = z XOR y \<longleftrightarrow> x = y" for x y z :: "'a::len word"
  by (simp add: xor.commute [of z] xor_cancel_right)

lemma crc_bit_alt: "crc_bit x = drop_bit 1 x XOR (if bit x 0 then 0x82f63b78 else 0)"
  by (simp add: crc_bit_def and_one_eq bit_0 odd_iff_mod_2_eq_one)

lemma crc_bit_xor: "crc_bit (x XOR y) = crc_bit x XOR crc_bit y"
  by (simp add: crc_bit_alt bit_xor_iff xor_self_left ac_simps)

lemma crc_bits_xor: "(crc_bit ^^ n) (x XOR y) = (crc_bit ^^ n) x XOR (crc_bit ^^ n) y"
  by (induction n) (simp_all add: crc_bit_xor)

lemma crc_bits_shift:
  "(\<And>i. i < n \<Longrightarrow> \<not> bit x i) \<Longrightarrow> (crc_bit ^^ n) x = drop_bit n x"
proof (induction n arbitrary: x)
  case 0
  then show ?case by simp
next
  case (Suc n)
  have "crc_bit x = drop_bit 1 x" using Suc.prems [of 0] by (simp add: crc_bit_alt)
  moreover have "(crc_bit ^^ n) (drop_bit 1 x) = drop_bit n (drop_bit 1 x)"
    using Suc.prems by (intro Suc.IH) (simp add: bit_drop_bit_eq)
  ultimately show ?case by (simp add: funpow_Suc_right del: funpow.simps)
qed

lemma crc_byte_split: "(crc_bit ^^ 8) y = drop_bit 8 y XOR (crc_bit ^^ 8) (y AND 0xff)"
proof -
  have m: "(0xff :: 32 word) = mask 8" by (simp add: mask_eq_exp_minus_1)
  have y: "y = (y AND NOT (mask 8)) XOR (y AND mask 8)"
    by (simp add: bit_eq_iff bit_simps; blast)
  have "(crc_bit ^^ 8) (y AND NOT (mask 8)) = drop_bit 8 (y AND NOT (mask 8))"
    by (rule crc_bits_shift) (simp add: bit_simps)
  also have "\<dots> = drop_bit 8 y"
    by (auto simp: bit_eq_iff bit_simps dest: bit_imp_le_length)
  finally show ?thesis unfolding m by (subst y, subst crc_bits_xor) simp
qed

lemma table_lookup: "CRC32C_TABLE ! unat (y AND 0xff) = (crc_bit ^^ 8) (y AND 0xff)"
proof -
  have "unat (y AND 0xff) \<le> unat (0xff :: 32 word)"
    by (rule word_and_le1 [THEN word_le_nat_alt [THEN iffD1]])
  then have "unat (y AND 0xff) < 256" by simp
  then show ?thesis
    by (simp add: CRC32C_TABLE_def crc_table_entry_def nth_map del: funpow.simps)
qed

lemma crc_step_eq_ref: "crc_step crc b = crc_step_ref crc b"
proof -
  have "drop_bit 8 (crc XOR ucast b) = drop_bit 8 crc"
    by (auto simp: bit_eq_iff bit_simps dest: bit_imp_le_length)
  then show ?thesis
    by (simp add: crc_step_def crc_step_ref_def table_lookup
        crc_byte_split [of "crc XOR ucast b"] del: funpow.simps)
qed

section \<open>No single-byte change goes unnoticed\<close>

lemma poly_bit31: "bit (0x82f63b78 :: 32 word) 31"
  by (simp add: bit_numeral_rec)

lemma crc_bit_inj: "crc_bit x = crc_bit y \<Longrightarrow> x = y"
proof -
  assume eq: "crc_bit x = crc_bit y"
  have top: "bit (crc_bit z) 31 = bit z 0" for z :: "32 word"
    using bit_imp_le_length [of z 32] by (auto simp: crc_bit_alt bit_simps poly_bit31)
  have b0: "bit x 0 = bit y 0" using top eq by metis
  then have shift: "drop_bit 1 x = drop_bit 1 y"
    using eq by (auto simp: crc_bit_alt xor_cancel_right)
  show "x = y"
  proof (rule bit_eqI)
    fix n
    have "bit (drop_bit 1 x) m = bit (drop_bit 1 y) m" for m by (simp only: shift)
    then show "bit x n = bit y n"
      using b0 by (cases n) (auto simp: bit_drop_bit_eq)
  qed
qed

lemma crc_bits_inj: "(crc_bit ^^ n) x = (crc_bit ^^ n) y \<Longrightarrow> x = y"
  by (induction n) (auto dest: crc_bit_inj)

lemma crc_step_inj_state: "crc_step s b = crc_step t b \<Longrightarrow> s = t"
  unfolding crc_step_eq_ref crc_step_ref_def
  by (drule crc_bits_inj) (simp add: xor_cancel_right)

lemma crc_step_inj_byte: "crc_step s a = crc_step s b \<Longrightarrow> a = b"
proof -
  assume "crc_step s a = crc_step s b"
  then have "s XOR ucast a = s XOR ucast b"
    unfolding crc_step_eq_ref crc_step_ref_def by (rule crc_bits_inj)
  then have "(ucast a :: 32 word) = ucast b"
    by (simp add: xor_cancel_left)
  then have "(ucast (ucast a :: 32 word) :: byte) = ucast (ucast b :: 32 word)" by simp
  then show "a = b" by (simp add: ucast_up_ucast_id is_up)
qed

lemma foldl_crc_inj: "foldl crc_step s bs = foldl crc_step t bs \<Longrightarrow> s = t"
  by (induction bs arbitrary: s t) (auto dest: crc_step_inj_state)

lemma crc32c_single_byte: "crc32c (u @ a # v) = crc32c (u @ b # v) \<Longrightarrow> a = b"
  by (auto simp: crc32c_def xor_cancel_right dest!: foldl_crc_inj crc_step_inj_byte)

text \<open>
  C40: The table-driven checksum of the write-ahead log is the bit-by-bit CRC-32C of its input,
  for every input.
\<close>

theorem crc32c_table_driven_correct: "crc32c bytes = crc32c_ref bytes"
proof -
  have "foldl crc_step s bytes = foldl crc_step_ref s bytes" for s
    by (induction bytes arbitrary: s) (simp_all add: crc_step_eq_ref)
  then show ?thesis by (simp add: crc32c_def crc32c_ref_def)
qed

end
