(* ===== verification/JsString.thy ===== *)
theory JsString
  imports Prelude
begin

text \<open>
  The string methods of the JavaScript standard library that the code uses, on \<^typ>\<open>string\<close>.
  A \<^typ>\<open>char\<close> is one byte of the UTF-8 form of the text, so \<open>Buffer.from(s, 'utf8')\<close> is the
  list of the bytes themselves; case mapping and white space are those of ASCII.
\<close>

definition code :: "char \<Rightarrow> nat" where
  "code c = of_char c"

definition is_space :: "char \<Rightarrow> bool" where
  "is_space c \<longleftrightarrow> code c = 32 \<or> (9 \<le> code c \<and> code c \<le> 13)"

definition is_digit :: "char \<Rightarrow> bool" where
  "is_digit c \<longleftrightarrow> 48 \<le> code c \<and> code c \<le> 57"

definition is_upper :: "char \<Rightarrow> bool" where
  "is_upper c \<longleftrightarrow> 65 \<le> code c \<and> code c \<le> 90"

definition is_lower :: "char \<Rightarrow> bool" where
  "is_lower c \<longleftrightarrow> 97 \<le> code c \<and> code c \<le> 122"

definition is_alnum :: "char \<Rightarrow> bool" where
  "is_alnum c \<longleftrightarrow> is_digit c \<or> is_upper c \<or> is_lower c"

definition trim_left :: "string \<Rightarrow> string" where
  "trim_left s = dropWhile is_space s"

definition trim :: "string \<Rightarrow> string" where
  "trim s = rev (trim_left (rev (trim_left s)))"

definition lower_char :: "char \<Rightarrow> char" where
  "lower_char c = (if is_upper c then char_of (code c + 32) else c)"

definition to_lower :: "string \<Rightarrow> string" where
  "to_lower s = map lower_char s"

definition starts_with :: "string \<Rightarrow> string \<Rightarrow> bool" where
  "starts_with s p \<longleftrightarrow> take (length p) s = p"

definition ends_with :: "string \<Rightarrow> string \<Rightarrow> bool" where
  "ends_with s p \<longleftrightarrow> starts_with (rev s) (rev p)"

fun str_includes :: "string \<Rightarrow> string \<Rightarrow> bool" where
  "str_includes [] p = (p = [])"
| "str_includes (c # s) p = (starts_with (c # s) p \<or> str_includes s p)"

fun split_on :: "char \<Rightarrow> string \<Rightarrow> string list" where
  "split_on sep [] = [[]]"
| "split_on sep (c # s) =
     (if c = sep then [] # split_on sep s
      else (case split_on sep s of [] \<Rightarrow> [[c]] | w # ws \<Rightarrow> (c # w) # ws))"

fun join :: "string \<Rightarrow> string list \<Rightarrow> string" where
  "join sep [] = []"
| "join sep [w] = w"
| "join sep (w # ws) = w @ sep @ join sep ws"

text \<open>\<open>s.split(/\s+/).filter(Boolean)\<close>: the maximal runs of characters that are no white space.\<close>

fun words_aux :: "string \<Rightarrow> string \<Rightarrow> string list" where
  "words_aux cur [] = (if cur = [] then [] else [rev cur])"
| "words_aux cur (c # s) =
     (if is_space c then (if cur = [] then words_aux [] s else rev cur # words_aux [] s)
      else words_aux (c # cur) s)"

definition words :: "string \<Rightarrow> string list" where
  "words s = words_aux [] s"

text \<open>Decimal numerals: \<open>String(n)\<close> and \<open>Number.parseInt(s, 10)\<close>.\<close>

definition digit_char :: "nat \<Rightarrow> char" where
  "digit_char d = char_of (48 + d)"

definition digit_val :: "char \<Rightarrow> nat" where
  "digit_val c = code c - 48"

fun show_nat :: "nat \<Rightarrow> string" where
  "show_nat n = (if n < 10 then [digit_char n] else show_nat (n div 10) @ [digit_char (n mod 10)])"

declare show_nat.simps [simp del]

definition show_int :: "int \<Rightarrow> string" where
  "show_int i = (if i < 0 then ''-'' @ show_nat (nat (- i)) else show_nat (nat i))"

definition digits_val :: "string \<Rightarrow> nat" where
  "digits_val s = foldl (\<lambda>n c. 10 * n + digit_val c) 0 s"

text \<open>
  \<open>parseInt\<close> skips leading white space, reads an optional sign and the longest run of digits,
  and is \<open>NaN\<close> (here \<^const>\<open>None\<close>) when there is no digit.
\<close>

definition parse_int :: "string \<Rightarrow> int option" where
  "parse_int s =
     (let t = trim_left s;
          neg = (t \<noteq> [] \<and> hd t = CHR ''-'');
          u = (if t \<noteq> [] \<and> (hd t = CHR ''-'' \<or> hd t = CHR ''+'') then tl t else t);
          ds = takeWhile is_digit u
      in if ds = [] then None
         else Some (if neg then - int (digits_val ds) else int (digits_val ds)))"

text \<open>\<open>s.padStart(n, c)\<close>\<close>

text \<open>\<open>String.length\<close> counts UTF-16 units; a text here is its UTF-8 bytes.\<close>

definition utf16_length :: "string \<Rightarrow> nat" where
  "utf16_length s = sum_list (map (\<lambda>c. if code c div 64 = 2 then 0 else if code c \<ge> 240 then 2 else 1) s)"

definition pad_start :: "nat \<Rightarrow> char \<Rightarrow> string \<Rightarrow> string" where
  "pad_start n c s = replicate (n - length s) c @ s"

section \<open>Laws\<close>

lemma trim_Nil [simp]: "trim [] = []"
  by (simp add: trim_def trim_left_def)

lemma dropWhile_hd_id: "s \<noteq> [] \<Longrightarrow> \<not> P (hd s) \<Longrightarrow> dropWhile P s = s"
  by (cases s) simp_all

lemma trim_id: "s \<noteq> [] \<Longrightarrow> \<not> is_space (hd s) \<Longrightarrow> \<not> is_space (last s) \<Longrightarrow> trim s = s"
  by (simp add: trim_def trim_left_def dropWhile_hd_id hd_rev)

lemma set_trim: "set (trim s) \<subseteq> set s"
  by (auto simp: trim_def trim_left_def dest!: set_dropWhileD)

lemma to_lower_length [simp]: "length (to_lower s) = length s"
  by (simp add: to_lower_def)

lemma starts_with_append [simp]: "starts_with (p @ s) p"
  by (simp add: starts_with_def)

lemma starts_with_iff: "starts_with s p \<longleftrightarrow> (\<exists>t. s = p @ t)"
  by (metis append_take_drop_id append_eq_conv_conj starts_with_def)

lemma str_includes_iff: "str_includes s p \<longleftrightarrow> (\<exists>a b. s = a @ p @ b)"
proof (induction s)
  case Nil
  show ?case by auto
next
  case (Cons c s)
  have "(\<exists>a b. c # s = a @ p @ b) \<longleftrightarrow> (\<exists>b. c # s = p @ b) \<or> (\<exists>a b. s = a @ p @ b)"
    by (metis append_Cons append_Nil list.sel(3) neq_Nil_conv)
  with Cons.IH show ?case by (simp add: starts_with_iff)
qed

lemma str_includes_char: "str_includes s [c] \<longleftrightarrow> c \<in> set s"
  by (auto simp: str_includes_iff in_set_conv_decomp)

lemma split_on_not_Nil [simp]: "split_on sep s \<noteq> []"
  by (induction s) (auto split: list.splits)

lemma split_on_no_sep: "w \<in> set (split_on sep s) \<Longrightarrow> sep \<notin> set w"
  by (induction s arbitrary: w) (auto split: list.splits if_splits)

lemma join_Cons: "ws \<noteq> [] \<Longrightarrow> join sep (w # ws) = w @ sep @ join sep ws"
  by (cases ws) auto

lemma join_split_on: "join [sep] (split_on sep s) = s"
proof (induction s)
  case Nil
  then show ?case by simp
next
  case (Cons c s)
  then show ?case
    by (cases "split_on sep s"; cases "tl (split_on sep s)") (auto simp: join_Cons)
qed

lemma words_aux_chars:
  "w \<in> set (words_aux cur s) \<Longrightarrow> set w \<subseteq> set cur \<union> {c \<in> set s. \<not> is_space c}"
proof (induction cur s arbitrary: w rule: words_aux.induct)
  case (1 cur)
  then show ?case by (auto split: if_splits)
next
  case (2 cur c s)
  consider "is_space c" "w = rev cur" | "is_space c" "w \<in> set (words_aux [] s)"
    | "\<not> is_space c" "w \<in> set (words_aux (c # cur) s)"
    using "2.prems" by (auto split: if_splits)
  then show ?case
  proof cases
    case 2
    then have "set w \<subseteq> set [] \<union> {c \<in> set s. \<not> is_space c}"
      using "2.IH"(1) "2.IH"(2) by (cases "cur = []") auto
    then show ?thesis by auto
  next
    case 3
    then have "set w \<subseteq> set (c # cur) \<union> {c \<in> set s. \<not> is_space c}"
      using "2.IH"(3) by auto
    with 3 show ?thesis by auto
  qed auto
qed

lemma words_chars: "w \<in> set (words s) \<Longrightarrow> set w \<subseteq> {c \<in> set s. \<not> is_space c}"
  using words_aux_chars [of w "[]" s] by (simp add: words_def)

lemma words_aux_nonempty: "[] \<notin> set (words_aux cur s)"
  by (induction cur s rule: words_aux.induct) auto

lemma words_nonempty: "w \<in> set (words s) \<Longrightarrow> w \<noteq> []"
  using words_aux_nonempty by (auto simp: words_def)

lemma code_digit_char: "d < 10 \<Longrightarrow> code (digit_char d) = 48 + d"
  by (simp add: code_def digit_char_def)

lemma digit_val_digit_char [simp]: "d < 10 \<Longrightarrow> digit_val (digit_char d) = d"
  by (simp add: digit_val_def code_digit_char)

lemma is_digit_digit_char [simp]: "d < 10 \<Longrightarrow> is_digit (digit_char d)"
  by (simp add: is_digit_def code_digit_char)

lemma show_nat_not_Nil [simp]: "show_nat n \<noteq> []"
  by (subst show_nat.simps) simp

lemma show_nat_digits: "\<forall>c \<in> set (show_nat n). is_digit c"
proof (induction n rule: show_nat.induct)
  case (1 n)
  then show ?case by (subst show_nat.simps) auto
qed

lemma digits_val_snoc: "digits_val (s @ [c]) = 10 * digits_val s + digit_val c"
  by (simp add: digits_val_def)

lemma digits_val_show_nat [simp]: "digits_val (show_nat n) = n"
proof (induction n rule: show_nat.induct)
  case (1 n)
  show ?case
  proof (cases "n < 10")
    case True
    then show ?thesis by (subst show_nat.simps) (simp add: digits_val_def)
  next
    case False
    then show ?thesis using 1 by (subst show_nat.simps) (simp add: digits_val_snoc)
  qed
qed

lemma digits_val_zeros: "digits_val (replicate n (CHR ''0'') @ s) = digits_val s"
proof (induction n)
  case 0
  then show ?case by simp
next
  case (Suc n)
  have "digit_val (CHR ''0'') = 0" by (simp add: digit_val_def code_def)
  then have "digits_val (CHR ''0'' # t) = digits_val t" for t
    by (simp add: digits_val_def)
  with Suc show ?case by simp
qed

lemma digit_not_space: "is_digit c \<Longrightarrow> \<not> is_space c"
  by (auto simp: is_digit_def is_space_def)

lemma digit_not_sign: "is_digit c \<Longrightarrow> c \<noteq> CHR ''-'' \<and> c \<noteq> CHR ''+''"
  by (auto simp: is_digit_def code_def)

lemma parse_int_digits:
  assumes "ds \<noteq> []" and "\<forall>c \<in> set ds. is_digit c" and "r = [] \<or> \<not> is_digit (hd r)"
  shows "parse_int (ds @ r) = Some (int (digits_val ds))"
proof -
  obtain d ds' where ds: "ds = d # ds'" using assms(1) by (cases ds) auto
  then have d: "is_digit d" using assms(2) by simp
  have "trim_left (ds @ r) = ds @ r"
    using d digit_not_space by (simp add: trim_left_def ds)
  moreover have "takeWhile is_digit (ds @ r) = ds"
    using assms(2,3) by (cases r) (simp_all add: takeWhile_append2)
  ultimately show ?thesis
    using digit_not_sign [OF d] by (simp add: parse_int_def Let_def ds)
qed

lemma length_show_nat_inj: "show_nat m = show_nat n \<Longrightarrow> m = n"
  by (metis digits_val_show_nat)

lemma show_int_inj: "show_int i = show_int j \<Longrightarrow> i = j"
proof -
  assume eq: "show_int i = show_int j"
  have hd: "hd (show_nat n) \<noteq> CHR ''-''" for n
    using show_nat_digits [of n] digit_not_sign hd_in_set [OF show_nat_not_Nil] by blast
  have "i < 0 \<longleftrightarrow> j < 0"
  proof (rule ccontr)
    assume "(i < 0) \<noteq> (j < 0)"
    then have "\<exists>m n. ''-'' @ show_nat m = show_nat n"
      using eq unfolding show_int_def by metis
    then show False using hd by (metis append_Cons list.sel(1))
  qed
  then show ?thesis
    using eq length_show_nat_inj [of "nat (- i)" "nat (- j)"] length_show_nat_inj [of "nat i" "nat j"]
    by (auto simp: show_int_def split: if_splits)
qed

end
