(* ===== verification/Json.thy ===== *)
theory Json
  imports JsString
begin

text \<open>
  \<open>JSON.stringify\<close> and \<open>JSON.parse\<close> of the standard library, executable (the round trip is in \<open>JsonRoundtrip\<close>).
  Numbers are integers (no code modelled here writes a fraction); an object is an association
  list in insertion order. \<open>JSON_stringify\<close> is the compact form, \<open>JSON_stringify2\<close> the one with
  two spaces of indentation (\<open>JSON.stringify(v, null, 2)\<close>). Both print the pieces of a common
  layout (tokens and white space). \<open>JSON_parse\<close> is \<^const>\<open>None\<close> where the code's call throws.
\<close>

datatype json =
    JNull | JBool bool | JNum int | JStr string
  | JArr "json list" | JObj "(string \<times> json) list"

fun json_wf :: "json \<Rightarrow> bool" where
  "json_wf (JArr vs) = list_all json_wf vs"
| "json_wf (JObj kvs) = (distinct (map fst kvs) \<and> list_all (\<lambda>kv. json_wf (snd kv)) kvs)"
| "json_wf v = True"

section \<open>Reading a field of a value, as the code does before it checks its type\<close>

fun jfield :: "json \<Rightarrow> string \<Rightarrow> json option" where
  "jfield (JObj kvs) k = map_of kvs k"
| "jfield v k = None"

fun jstring :: "json option \<Rightarrow> string option" where
  "jstring (Some (JStr s)) = Some s"
| "jstring v = None"

fun jnumber :: "json option \<Rightarrow> int option" where
  "jnumber (Some (JNum n)) = Some n"
| "jnumber v = None"

fun is_object :: "json \<Rightarrow> bool" where
  "is_object (JObj kvs) = True"
| "is_object v = False"

text \<open>Whether a value counts as true in a condition.\<close>

definition js_truthy :: "json option \<Rightarrow> bool" where
  "js_truthy v = (case v of
     None \<Rightarrow> False | Some JNull \<Rightarrow> False | Some (JBool b) \<Rightarrow> b | Some (JNum n) \<Rightarrow> n \<noteq> 0 | Some (JStr s) \<Rightarrow> s \<noteq> '''' | _ \<Rightarrow> True)"

section \<open>Printing\<close>

datatype token =
    TLBrace | TRBrace | TLBrack | TRBrack | TColon | TComma
  | TNull | TTrue | TFalse | TNum int | TStr string

datatype piece = Ws string | Tok token

definition hex_digit :: "nat \<Rightarrow> char" where
  "hex_digit d = (if d < 10 then char_of (48 + d) else char_of (87 + d))"

definition escape_char :: "char \<Rightarrow> string" where
  "escape_char c =
     (if c = CHR 0x22 then [CHR 0x5C, CHR 0x22]
      else if c = CHR 0x5C then [CHR 0x5C, CHR 0x5C]
      else if code c = 8 then [CHR 0x5C, CHR ''b'']
      else if code c = 9 then [CHR 0x5C, CHR ''t'']
      else if code c = 10 then [CHR 0x5C, CHR ''n'']
      else if code c = 12 then [CHR 0x5C, CHR ''f'']
      else if code c = 13 then [CHR 0x5C, CHR ''r'']
      else if code c < 32 then
        [CHR 0x5C, CHR ''u'', CHR ''0'', CHR ''0'', hex_digit (code c div 16), hex_digit (code c mod 16)]
      else [c])"

fun token_text :: "token \<Rightarrow> string" where
  "token_text TLBrace = ''{''"
| "token_text TRBrace = ''}''"
| "token_text TLBrack = ''[''"
| "token_text TRBrack = '']''"
| "token_text TColon = '':''"
| "token_text TComma = '',''"
| "token_text TNull = ''null''"
| "token_text TTrue = ''true''"
| "token_text TFalse = ''false''"
| "token_text (TNum n) = show_int n"
| "token_text (TStr s) = [CHR 0x22] @ concat (map escape_char s) @ [CHR 0x22]"

fun piece_text :: "piece \<Rightarrow> string" where
  "piece_text (Ws w) = w"
| "piece_text (Tok t) = token_text t"

definition text_of :: "piece list \<Rightarrow> string" where
  "text_of ps = concat (map piece_text ps)"

fun tokens_of :: "piece list \<Rightarrow> token list" where
  "tokens_of [] = []"
| "tokens_of (Ws w # ps) = tokens_of ps"
| "tokens_of (Tok t # ps) = t # tokens_of ps"

definition newline :: "bool \<Rightarrow> nat \<Rightarrow> piece list" where
  "newline pretty l = (if pretty then [Ws (CHR 0x0A # replicate (2 * l) (CHR '' ''))] else [])"

definition colon :: "bool \<Rightarrow> piece list" where
  "colon pretty = (if pretty then [Tok TColon, Ws '' ''] else [Tok TColon])"

fun layout :: "bool \<Rightarrow> nat \<Rightarrow> json \<Rightarrow> piece list"
  and layout_items :: "bool \<Rightarrow> nat \<Rightarrow> json list \<Rightarrow> piece list"
  and layout_members :: "bool \<Rightarrow> nat \<Rightarrow> (string \<times> json) list \<Rightarrow> piece list" where
  "layout p l JNull = [Tok TNull]"
| "layout p l (JBool b) = [Tok (if b then TTrue else TFalse)]"
| "layout p l (JNum n) = [Tok (TNum n)]"
| "layout p l (JStr s) = [Tok (TStr s)]"
| "layout p l (JArr []) = [Tok TLBrack, Tok TRBrack]"
| "layout p l (JArr (v # vs)) =
     Tok TLBrack # newline p (Suc l) @ layout_items p (Suc l) (v # vs) @ newline p l @ [Tok TRBrack]"
| "layout p l (JObj []) = [Tok TLBrace, Tok TRBrace]"
| "layout p l (JObj (kv # kvs)) =
     Tok TLBrace # newline p (Suc l) @ layout_members p (Suc l) (kv # kvs) @ newline p l @ [Tok TRBrace]"
| "layout_items p l [] = []"
| "layout_items p l [v] = layout p l v"
| "layout_items p l (v # w # vs) =
     layout p l v @ Tok TComma # newline p l @ layout_items p l (w # vs)"
| "layout_members p l [] = []"
| "layout_members p l [(k, v)] = Tok (TStr k) # colon p @ layout p l v"
| "layout_members p l ((k, v) # kv # kvs) =
     Tok (TStr k) # colon p @ layout p l v @ Tok TComma # newline p l @ layout_members p l (kv # kvs)"

definition JSON_stringify :: "json \<Rightarrow> string" where
  "JSON_stringify v = text_of (layout False 0 v)"

definition JSON_stringify2 :: "json \<Rightarrow> string" where
  "JSON_stringify2 v = text_of (layout True 0 v)"

section \<open>Parsing\<close>

definition hex_val :: "char \<Rightarrow> nat option" where
  "hex_val c =
     (if is_digit c then Some (code c - 48)
      else if 97 \<le> code c \<and> code c \<le> 102 then Some (code c - 87)
      else if 65 \<le> code c \<and> code c \<le> 70 then Some (code c - 55)
      else None)"

definition utf8 :: "nat \<Rightarrow> string" where
  "utf8 n =
     (if n < 128 then [char_of n]
      else if n < 2048 then [char_of (192 + n div 64), char_of (128 + n mod 64)]
      else [char_of (224 + n div 4096), char_of (128 + n div 64 mod 64), char_of (128 + n mod 64)])"

definition unescape :: "char \<Rightarrow> char option" where
  "unescape e =
     (if e = CHR 0x22 \<or> e = CHR 0x5C \<or> e = CHR ''/'' then Some e
      else if e = CHR ''b'' then Some (CHR 0x08)
      else if e = CHR ''t'' then Some (CHR 0x09)
      else if e = CHR ''n'' then Some (CHR 0x0A)
      else if e = CHR ''f'' then Some (CHR 0x0C)
      else if e = CHR ''r'' then Some (CHR 0x0D)
      else None)"

fun unicode_escape :: "string \<Rightarrow> (string \<times> string) option" where
  "unicode_escape (a # b # c # d # s) =
     (case (hex_val a, hex_val b, hex_val c, hex_val d) of
        (Some w, Some x, Some y, Some z) \<Rightarrow> Some (utf8 (4096 * w + 256 * x + 16 * y + z), s)
      | _ \<Rightarrow> None)"
| "unicode_escape s = None"

lemma unicode_escape_shorter: "unicode_escape s = Some (u, s') \<Longrightarrow> length s' < length s"
  by (induction s rule: unicode_escape.induct) (auto split: option.splits)

function lex_string :: "string \<Rightarrow> (string \<times> string) option" where
  "lex_string [] = None"
| "lex_string (c # s) =
     (if c = CHR 0x22 then Some ([], s)
      else if code c < 32 then None
      else if c = CHR 0x5C then
        (case s of
           [] \<Rightarrow> None
         | e # s' \<Rightarrow>
             if e = CHR ''u'' then
               (case unicode_escape s' of
                  None \<Rightarrow> None
                | Some (u, s'') \<Rightarrow> map_option (map_prod ((@) u) id) (lex_string s''))
             else
               (case unescape e of
                  None \<Rightarrow> None
                | Some d \<Rightarrow> map_option (map_prod ((#) d) id) (lex_string s')))
      else map_option (map_prod ((#) c) id) (lex_string s))"
  by pat_completeness auto
termination
  by (relation "measure length") (auto dest: unicode_escape_shorter)

declare lex_string.simps(2) [simp del]

definition lex_number :: "string \<Rightarrow> (int \<times> string) option" where
  "lex_number s =
     (let neg = (s \<noteq> [] \<and> hd s = CHR ''-'');
          u = (if neg then tl s else s);
          ds = takeWhile is_digit u;
          r = dropWhile is_digit u
      in if ds = [] \<or> (hd ds = CHR ''0'' \<and> tl ds \<noteq> []) then None
         else if r \<noteq> [] \<and> hd r \<in> set ''.eE'' then None
         else Some (if neg then - int (digits_val ds) else int (digits_val ds), r))"

definition is_json_ws :: "char \<Rightarrow> bool" where
  "is_json_ws c \<longleftrightarrow> code c \<in> {9, 10, 13, 32}"

definition lex_token :: "string \<Rightarrow> (token \<times> string) option" where
  "lex_token s =
     (case s of
        [] \<Rightarrow> None
      | c # s' \<Rightarrow>
          if c = CHR ''{'' then Some (TLBrace, s')
          else if c = CHR ''}'' then Some (TRBrace, s')
          else if c = CHR ''['' then Some (TLBrack, s')
          else if c = CHR '']'' then Some (TRBrack, s')
          else if c = CHR '':'' then Some (TColon, s')
          else if c = CHR '','' then Some (TComma, s')
          else if c = CHR 0x22 then map_option (map_prod TStr id) (lex_string s')
          else if starts_with s ''null'' then Some (TNull, drop 4 s)
          else if starts_with s ''true'' then Some (TTrue, drop 4 s)
          else if starts_with s ''false'' then Some (TFalse, drop 5 s)
          else map_option (map_prod TNum id) (lex_number s))"

lemma lex_string_shorter: "lex_string s = Some (r, s') \<Longrightarrow> length s' < length s"
proof (induction s arbitrary: r s' rule: lex_string.induct)
  case 1
  then show ?case by simp
next
  case (2 c s)
  show ?case
  proof (cases "c = CHR 0x22 \<or> code c < 32 \<or> c \<noteq> CHR 0x5C")
    case True
    then show ?thesis
      using "2.prems" by (auto simp: lex_string.simps(2) split: if_splits dest: "2.IH"(3))
  next
    case False
    then show ?thesis
      using "2.prems" "2.IH"(1,2) unicode_escape_shorter
      by (auto simp: lex_string.simps(2) split: if_splits list.splits option.splits) fastforce+
  qed
qed

lemma lex_number_shorter: "lex_number s = Some (n, s') \<Longrightarrow> length s' < length s"
proof -
  assume a: "lex_number s = Some (n, s')"
  define u where "u = (if s \<noteq> [] \<and> hd s = CHR ''-'' then tl s else s)"
  have "takeWhile is_digit u \<noteq> []" and "s' = dropWhile is_digit u"
    using a by (auto simp: lex_number_def Let_def u_def split: if_splits)
  then have "length s' < length u"
    by (metis length_append length_greater_0_conv less_add_same_cancel2 takeWhile_dropWhile_id)
  also have "length u \<le> length s" by (simp add: u_def)
  finally show ?thesis .
qed

lemma lex_token_shorter: "lex_token s = Some (t, s') \<Longrightarrow> length s' < length s"
  by (auto simp: lex_token_def split: list.splits if_splits
      dest!: lex_string_shorter lex_number_shorter)

function lex :: "string \<Rightarrow> token list option" where
  "lex [] = Some []"
| "lex (c # s) =
     (if is_json_ws c then lex s
      else (case lex_token (c # s) of
              None \<Rightarrow> None
            | Some (t, s') \<Rightarrow> map_option ((#) t) (lex s')))"
  by pat_completeness auto
termination
  by (relation "measure length") (auto dest: lex_token_shorter)

declare lex.simps(2) [simp del]

fun parse_value :: "nat \<Rightarrow> token list \<Rightarrow> (json \<times> token list) option"
  and parse_items :: "nat \<Rightarrow> token list \<Rightarrow> (json list \<times> token list) option"
  and parse_members ::
    "nat \<Rightarrow> (string \<times> json) list \<Rightarrow> token list \<Rightarrow> ((string \<times> json) list \<times> token list) option" where
  "parse_value 0 ts = None"
| "parse_value (Suc f) ts =
     (case ts of
        TNull # r \<Rightarrow> Some (JNull, r)
      | TTrue # r \<Rightarrow> Some (JBool True, r)
      | TFalse # r \<Rightarrow> Some (JBool False, r)
      | TNum n # r \<Rightarrow> Some (JNum n, r)
      | TStr s # r \<Rightarrow> Some (JStr s, r)
      | TLBrack # r \<Rightarrow>
          (case r of
             TRBrack # r' \<Rightarrow> Some (JArr [], r')
           | _ \<Rightarrow> map_option (map_prod JArr id) (parse_items f r))
      | TLBrace # r \<Rightarrow>
          (case r of
             TRBrace # r' \<Rightarrow> Some (JObj [], r')
           | _ \<Rightarrow> map_option (map_prod JObj id) (parse_members f [] r))
      | _ \<Rightarrow> None)"
| "parse_items 0 ts = None"
| "parse_items (Suc f) ts =
     (case parse_value f ts of
        Some (v, TComma # r) \<Rightarrow> map_option (map_prod ((#) v) id) (parse_items f r)
      | Some (v, TRBrack # r) \<Rightarrow> Some ([v], r)
      | _ \<Rightarrow> None)"
| "parse_members 0 acc ts = None"
| "parse_members (Suc f) acc ts =
     (case ts of
        TStr k # TColon # r \<Rightarrow>
          (case parse_value f r of
             Some (v, TComma # r') \<Rightarrow> parse_members f (AList.update k v acc) r'
           | Some (v, TRBrace # r') \<Rightarrow> Some (AList.update k v acc, r')
           | _ \<Rightarrow> None)
      | _ \<Rightarrow> None)"

definition JSON_parse :: "string \<Rightarrow> json option" where
  "JSON_parse s =
     (case lex s of
        None \<Rightarrow> None
      | Some ts \<Rightarrow> (case parse_value (length ts) ts of Some (v, []) \<Rightarrow> Some v | _ \<Rightarrow> None))"

end
