(* ===== verification/JsonRoundtrip.thy ===== *)
theory JsonRoundtrip
  imports Json
begin

text \<open>
  The round trip of the printer and the parser of \<open>Json\<close>: parsing a printed value gives the value,
  compact or indented, and both printers are injective on well-formed values.
\<close>

section \<open>Strings\<close>

lemma code_inj: "code c = code d \<longleftrightarrow> c = d"
  by (simp add: code_def)

lemma code_lt: "code c < 256"
  by (simp add: code_def)

lemma char_of_code [simp]: "char_of (code c) = c"
  by (simp add: code_def)

lemma hex_val_digit: "d < 16 \<Longrightarrow> hex_val (hex_digit d) = Some d"
  by (auto simp: hex_val_def hex_digit_def is_digit_def code_def)

lemma unicode_escape_printed:
  "code c < 32 \<Longrightarrow>
    unicode_escape (CHR ''0'' # CHR ''0'' # hex_digit (code c div 16) # hex_digit (code c mod 16) # s)
    = Some ([c], s)"
proof -
  assume c: "code c < 32"
  have "hex_val (CHR ''0'') = Some 0" by (simp add: hex_val_def is_digit_def code_def)
  moreover have "hex_val (hex_digit (code c div 16)) = Some (code c div 16)"
    using c by (intro hex_val_digit) simp
  ultimately show ?thesis using c by (simp add: hex_val_digit utf8_def)
qed

lemma unescape_printed:
  "unescape (CHR 0x22) = Some (CHR 0x22)" "unescape (CHR 0x5C) = Some (CHR 0x5C)"
  "unescape (CHR ''b'') = Some (CHR 0x08)" "unescape (CHR ''t'') = Some (CHR 0x09)"
  "unescape (CHR ''n'') = Some (CHR 0x0A)" "unescape (CHR ''f'') = Some (CHR 0x0C)"
  "unescape (CHR ''r'') = Some (CHR 0x0D)"
  by (simp_all add: unescape_def)

lemma code_eq_char:
  "code c = 8 \<longleftrightarrow> c = CHR 0x08" "code c = 9 \<longleftrightarrow> c = CHR 0x09" "code c = 10 \<longleftrightarrow> c = CHR 0x0A"
  "code c = 12 \<longleftrightarrow> c = CHR 0x0C" "code c = 13 \<longleftrightarrow> c = CHR 0x0D"
proof -
  have n: "code (CHR 0x08) = 8" "code (CHR 0x09) = 9" "code (CHR 0x0A) = 10"
    "code (CHR 0x0C) = 12" "code (CHR 0x0D) = 13" by (simp_all add: code_def)
  show "code c = 8 \<longleftrightarrow> c = CHR 0x08" "code c = 9 \<longleftrightarrow> c = CHR 0x09"
    "code c = 10 \<longleftrightarrow> c = CHR 0x0A" "code c = 12 \<longleftrightarrow> c = CHR 0x0C" "code c = 13 \<longleftrightarrow> c = CHR 0x0D"
    by (metis code_inj n)+
qed

lemma code_backslash: "code (CHR 0x5C) = 92" "code (CHR 0x22) = 34"
  by (simp_all add: code_def)

lemma lex_string_escape:
  "lex_string (escape_char c @ s) = map_option (map_prod ((#) c) id) (lex_string s)"
proof -
  have esc: "lex_string (CHR 0x5C # e # s') =
      (if e = CHR ''u'' then
         (case unicode_escape s' of None \<Rightarrow> None
          | Some (u, s'') \<Rightarrow> map_option (map_prod ((@) u) id) (lex_string s''))
       else (case unescape e of None \<Rightarrow> None
             | Some d \<Rightarrow> map_option (map_prod ((#) d) id) (lex_string s')))" for e s'
    by (subst lex_string.simps) (simp add: code_backslash)
  show ?thesis
  proof (cases "c = CHR 0x22 \<or> c = CHR 0x5C \<or> code c < 32")
    case False
    then have "escape_char c = [c]" by (auto simp: escape_char_def)
    with False show ?thesis by (simp add: lex_string.simps(2))
  next
    case True
    then show ?thesis
    proof (cases "c \<in> {CHR 0x22, CHR 0x5C} \<or> code c \<in> {8, 9, 10, 12, 13}")
      case special: True
      then show ?thesis
        by (auto simp: escape_char_def esc unescape_printed code_eq_char code_backslash)
    next
      case False
      then have "escape_char c = [CHR 0x5C, CHR ''u'', CHR ''0'', CHR ''0'',
          hex_digit (code c div 16), hex_digit (code c mod 16)]" and "code c < 32"
        using True by (auto simp: escape_char_def)
      then show ?thesis
        by (cases "lex_string s")
           (auto simp: esc unicode_escape_printed simp del: unicode_escape.simps)
    qed
  qed
qed

lemma lex_string_printed:
  "lex_string (concat (map escape_char s) @ CHR 0x22 # r) = Some (s, r)"
proof (induction s)
  case Nil
  show ?case by (simp add: lex_string.simps(2))
next
  case (Cons c s)
  then show ?case by (simp add: lex_string_escape)
qed

section \<open>Numbers\<close>

definition num_end :: "string \<Rightarrow> bool" where
  "num_end s \<longleftrightarrow> s = [] \<or> (\<not> is_digit (hd s) \<and> hd s \<notin> set ''.eE'')"

lemma show_nat_no_leading_zero: "hd (show_nat n) = CHR ''0'' \<Longrightarrow> tl (show_nat n) = []"
proof (induction n rule: show_nat.induct)
  case (1 n)
  show ?case
  proof (cases "n < 10")
    case True
    then show ?thesis by (subst show_nat.simps) simp
  next
    case False
    have eq: "show_nat n = show_nat (n div 10) @ [digit_char (n mod 10)]"
      using False by (subst show_nat.simps) simp
    then have hd0: "hd (show_nat (n div 10)) = CHR ''0''" using "1.prems" by simp
    then have "tl (show_nat (n div 10)) = []" using "1.IH" False by simp
    then have "show_nat (n div 10) = [CHR ''0'']"
      using hd0 by (metis list.collapse show_nat_not_Nil)
    then have "n div 10 = 0"
      by (metis digits_val_show_nat append_Nil digits_val_def digits_val_zeros foldl_Nil
          replicate_Suc replicate_0 append_Cons)
    with False show ?thesis by simp
  qed
qed

lemma lex_number_nat:
  assumes "num_end r"
  shows "lex_number (show_nat n @ r) = Some (int n, r)"
    and "lex_number (CHR ''-'' # show_nat n @ r) = Some (- int n, r)"
proof -
  have dig: "\<forall>c \<in> set (show_nat n). is_digit c" by (rule show_nat_digits)
  have h: "hd (show_nat n @ r) \<noteq> CHR ''-''"
    using digit_not_sign dig by (cases "show_nat n") (auto simp: show_nat_not_Nil)
  have tw: "takeWhile is_digit (show_nat n @ r) = show_nat n"
    and dw: "dropWhile is_digit (show_nat n @ r) = r"
    using dig assms by (cases r; simp add: num_end_def)+
  have z: "\<not> (hd (show_nat n) = CHR ''0'' \<and> tl (show_nat n) \<noteq> [])"
    using show_nat_no_leading_zero by blast
  show "lex_number (show_nat n @ r) = Some (int n, r)"
    using h z assms by (auto simp: lex_number_def Let_def tw dw num_end_def)
  show "lex_number (CHR ''-'' # show_nat n @ r) = Some (- int n, r)"
    using z assms by (auto simp: lex_number_def Let_def tw dw num_end_def)
qed

lemma lex_number_printed: "num_end r \<Longrightarrow> lex_number (show_int i @ r) = Some (i, r)"
  by (simp add: show_int_def lex_number_nat)

section \<open>Tokens and white space\<close>

lemma show_int_cases:
  "\<exists>c s. show_int i = c # s \<and> (is_digit c \<or> c = CHR ''-'')"
proof (cases "i < 0")
  case False
  obtain c s where "show_nat (nat i) = c # s" by (meson neq_Nil_conv show_nat_not_Nil)
  then show ?thesis using False show_nat_digits [of "nat i"] by (auto simp: show_int_def)
qed (simp add: show_int_def)

lemma lex_token_number: "num_end r \<Longrightarrow> lex_token (show_int i @ r) = Some (TNum i, r)"
proof -
  assume r: "num_end r"
  obtain c s where cs: "show_int i = c # s" "is_digit c \<or> c = CHR ''-''"
    using show_int_cases by blast
  have n: "is_digit c \<or> c = CHR ''-'' \<Longrightarrow> c \<notin> set ''{}[]:,ntf'' \<and> c \<noteq> CHR 0x22"
    by (auto simp: is_digit_def code_def)
  have "lex_token (c # s @ r) = map_option (map_prod TNum id) (lex_number (c # s @ r))"
    using n [OF cs(2)] by (simp add: lex_token_def starts_with_def)
  then show ?thesis using lex_number_printed [OF r, of i] by (simp add: cs)
qed

lemma lex_token_printed:
  "num_end r \<or> (\<forall>n. t \<noteq> TNum n) \<Longrightarrow> lex_token (token_text t @ r) = Some (t, r)"
  by (cases t) (auto simp: lex_token_number lex_string_printed lex_token_def [of "_ # _"] starts_with_def)

lemma token_text_head:
  "\<exists>c s. token_text t = c # s \<and> \<not> is_json_ws c"
proof (cases t)
  case (TNum n)
  then show ?thesis using show_int_cases [of n] by (auto simp: is_json_ws_def is_digit_def code_def)
qed (simp_all add: is_json_ws_def code_def)

lemma lex_printed_token:
  "num_end r \<or> (\<forall>n. t \<noteq> TNum n) \<Longrightarrow> lex (token_text t @ r) = map_option ((#) t) (lex r)"
proof -
  assume a: "num_end r \<or> (\<forall>n. t \<noteq> TNum n)"
  obtain c s where cs: "token_text t = c # s" "\<not> is_json_ws c" using token_text_head by blast
  show ?thesis
    using lex_token_printed [OF a] cs by (simp add: lex.simps(2))
qed

lemma lex_ws: "\<forall>c \<in> set w. is_json_ws c \<Longrightarrow> lex (w @ s) = lex s"
  by (induction w) (simp_all add: lex.simps(2))

lemma lex_newline: "lex (text_of (newline p l) @ s) = lex s"
  by (auto simp: newline_def text_of_def is_json_ws_def code_def intro: lex_ws [of "_ # _", simplified])

lemma lex_colon: "lex (text_of (colon p) @ s) = map_option ((#) TColon) (lex s)"
  using lex_printed_token [of _ TColon] lex_ws [of "'' ''" s]
  by (simp add: colon_def text_of_def is_json_ws_def code_def)

lemma tokens_of_append [simp]: "tokens_of (a @ b) = tokens_of a @ tokens_of b"
  by (induction a rule: tokens_of.induct) auto

lemma text_of_append [simp]: "text_of (a @ b) = text_of a @ text_of b"
  by (simp add: text_of_def)

lemma text_of_Tok [simp]: "text_of (Tok t # ps) = token_text t @ text_of ps"
  by (simp add: text_of_def)

lemma text_of_Nil [simp]: "text_of [] = []"
  by (simp add: text_of_def)

lemma tokens_newline [simp]: "tokens_of (newline p l) = []"
  by (simp add: newline_def)

lemma tokens_colon [simp]: "tokens_of (colon p) = [TColon]"
  by (simp add: colon_def)

lemma num_end_simps [simp]:
  "num_end []" "num_end (CHR '','' # s)" "num_end (CHR '']'' # s)" "num_end (CHR ''}'' # s)"
  by (simp_all add: num_end_def is_digit_def code_def)

lemma num_end_newline: "num_end s \<Longrightarrow> num_end (text_of (newline p l) @ s)"
  by (auto simp: newline_def text_of_def num_end_def is_digit_def code_def)

lemmas lex_punct = lex_printed_token [of _ TLBrace, simplified] lex_printed_token [of _ TRBrace, simplified]
  lex_printed_token [of _ TLBrack, simplified] lex_printed_token [of _ TRBrack, simplified]
  lex_printed_token [of _ TComma, simplified]

lemma lex_str_token: "lex (CHR 0x22 # concat (map escape_char k) @ CHR 0x22 # r) = map_option ((#) (TStr k)) (lex r)"
  using lex_printed_token [of r "TStr k"] by simp

lemma lex_layout:
  "num_end s \<Longrightarrow> lex (text_of (layout p l v) @ s) =
     map_option ((@) (tokens_of (layout p l v))) (lex s)"
  "num_end s \<Longrightarrow> lex (text_of (layout_items p l vs) @ s) =
     map_option ((@) (tokens_of (layout_items p l vs))) (lex s)"
  "num_end s \<Longrightarrow> lex (text_of (layout_members p l kvs) @ s) =
     map_option ((@) (tokens_of (layout_members p l kvs))) (lex s)"
proof (induction p l v and p l vs and p l kvs arbitrary: s and s and s
    rule: layout_layout_items_layout_members.induct)
  case (1 p l)
  then show ?case using lex_printed_token [of s TNull] by (cases "lex s") auto
next
  case (2 p l b)
  then show ?case
    using lex_printed_token [of s TTrue] lex_printed_token [of s TFalse] by (cases "lex s") auto
next
  case (3 p l n)
  then show ?case using lex_printed_token [of s "TNum n"] by (cases "lex s") auto
next
  case (4 p l str)
  then show ?case by (cases "lex s") (auto simp: lex_str_token)
next
  case (5 p l)
  then show ?case by (cases "lex s") (simp_all add: lex_punct)
next
  case (6 p l v vs)
  then show ?case by (cases "lex s") (simp_all add: lex_punct lex_newline num_end_newline)
next
  case (7 p l)
  then show ?case by (cases "lex s") (simp_all add: lex_punct)
next
  case (8 p l kv kvs)
  then show ?case by (cases "lex s") (simp_all add: lex_punct lex_newline num_end_newline)
next
  case (9 p l)
  then show ?case by (cases "lex s") auto
next
  case (10 p l v)
  then show ?case by simp
next
  case (11 p l v w vs)
  then show ?case by (cases "lex s") (simp_all add: lex_punct lex_newline)
next
  case (12 p l)
  then show ?case by (cases "lex s") auto
next
  case (13 p l k v)
  then show ?case by (cases "lex s") (simp_all add: lex_str_token lex_colon)
next
  case (14 p l k v kv kvs)
  then show ?case by (cases "lex s") (simp_all add: lex_str_token lex_colon lex_punct lex_newline)
qed

section \<open>Parsing the tokens of a layout\<close>

lemma layout_head:
  "\<exists>t ts. tokens_of (layout p l v) = t # ts \<and> t \<notin> {TRBrack, TRBrace, TComma, TColon}"
proof (cases v)
  case (JArr vs)
  then show ?thesis by (cases vs) auto
next
  case (JObj kvs)
  then show ?thesis by (cases kvs) auto
qed auto

lemma layout_items_head:
  "\<exists>t ts. tokens_of (layout_items p l (v # vs)) = t # ts \<and> t \<noteq> TRBrack"
  using layout_head [of p l v] by (cases vs) auto

lemma layout_members_head:
  "\<exists>k ts. tokens_of (layout_members p l (kv # kvs)) = TStr k # ts"
  by (cases kv; cases kvs) auto

lemma update_fresh: "k \<notin> fst ` set acc \<Longrightarrow> AList.update k v acc = acc @ [(k, v)]"
  by (induction acc) auto

lemma parse_layout:
  "json_wf v \<Longrightarrow> length (tokens_of (layout p l v)) \<le> f \<Longrightarrow>
     parse_value f (tokens_of (layout p l v) @ r) = Some (v, r)"
  "list_all json_wf vs \<Longrightarrow> vs \<noteq> [] \<Longrightarrow> length (tokens_of (layout_items p l vs)) < f \<Longrightarrow>
     parse_items f (tokens_of (layout_items p l vs) @ TRBrack # r) = Some (vs, r)"
  "list_all (\<lambda>kv. json_wf (snd kv)) kvs \<Longrightarrow> kvs \<noteq> [] \<Longrightarrow> distinct (map fst acc @ map fst kvs) \<Longrightarrow>
     length (tokens_of (layout_members p l kvs)) < f \<Longrightarrow>
     parse_members f acc (tokens_of (layout_members p l kvs) @ TRBrace # r) = Some (acc @ kvs, r)"
proof (induction p l v and p l vs and p l kvs arbitrary: f r and f r and f r acc
    rule: layout_layout_items_layout_members.induct)
  case (1 p l)
  then show ?case by (cases f) auto
next
  case (2 p l b)
  then show ?case by (cases f) auto
next
  case (3 p l n)
  then show ?case by (cases f) auto
next
  case (4 p l str)
  then show ?case by (cases f) auto
next
  case (5 p l)
  then show ?case by (cases f) auto
next
  case (7 p l)
  then show ?case by (cases f) auto
next
  case (9 p l)
  then show ?case by simp
next
  case (12 p l)
  then show ?case by simp
next
  case (6 p l v vs)
  obtain t ts where t: "tokens_of (layout_items p (Suc l) (v # vs)) = t # ts" "t \<noteq> TRBrack"
    using layout_items_head by blast
  obtain f' where f: "f = Suc f'" using 6 by (cases f) auto
  have "parse_items f' (tokens_of (layout_items p (Suc l) (v # vs)) @ TRBrack # r) = Some (v # vs, r)"
    using 6 f by (intro "6.IH") auto
  then show ?case using t by (auto simp: f split: token.splits)
next
  case (8 p l kv kvs)
  obtain k ts where t: "tokens_of (layout_members p (Suc l) (kv # kvs)) = TStr k # ts"
    using layout_members_head by blast
  obtain f' where f: "f = Suc f'" using 8 by (cases f) auto
  have "parse_members f' [] (tokens_of (layout_members p (Suc l) (kv # kvs)) @ TRBrace # r) =
      Some ([] @ kv # kvs, r)"
    using 8 f by (intro "8.IH") auto
  then show ?case using t by (auto simp: f)
next
  case (10 p l v)
  then show ?case by (cases f) auto
next
  case (11 p l v w vs)
  obtain f' where f: "f = Suc f'" using 11 by (cases f) auto
  have "length (tokens_of (layout p l v)) > 0" using layout_head [of p l v] by auto
  with 11 f show ?case by simp
next
  case (13 p l k v)
  then show ?case by (cases f) (auto simp: update_fresh)
next
  case (14 p l k v kv kvs)
  obtain f' where f: "f = Suc f'" using 14 by (cases f) auto
  have k: "k \<notin> fst ` set acc" using "14.prems"(3) by auto
  have IH2: "parse_members f' (acc @ [(k, v)])
      (tokens_of (layout_members p l (kv # kvs)) @ TRBrace # r) = Some ((acc @ [(k, v)]) @ kv # kvs, r)"
    using "14.prems" f by (intro "14.IH"(2)) auto
  have "parse_value f' (tokens_of (layout p l v) @ TComma #
      tokens_of (layout_members p l (kv # kvs)) @ TRBrace # r) =
      Some (v, TComma # tokens_of (layout_members p l (kv # kvs)) @ TRBrace # r)"
    using "14.prems" f by (intro "14.IH"(1)) auto
  with IH2 k show ?case by (simp add: f update_fresh)
qed

lemma parse_text_of_layout:
  assumes "json_wf v"
  shows "JSON_parse (text_of (layout p 0 v)) = Some v"
proof -
  have "lex (text_of (layout p 0 v)) = Some (tokens_of (layout p 0 v))"
    using lex_layout(1) [of "[]" p 0 v] by simp
  then show ?thesis
    using parse_layout(1) [OF assms, of p 0 _ "[]"] by (simp add: JSON_parse_def)
qed

lemma parse_stringify: "json_wf v \<Longrightarrow> JSON_parse (JSON_stringify v) = Some v"
  by (simp add: JSON_stringify_def parse_text_of_layout)

lemma parse_stringify2: "json_wf v \<Longrightarrow> JSON_parse (JSON_stringify2 v) = Some v"
  by (simp add: JSON_stringify2_def parse_text_of_layout)

lemma stringify_inj: "json_wf v \<Longrightarrow> json_wf w \<Longrightarrow> JSON_stringify v = JSON_stringify w \<Longrightarrow> v = w"
  by (metis option.inject parse_stringify)

section \<open>What is parsed is well formed\<close>

lemma wf_members_update:
  "distinct (map fst acc) \<Longrightarrow> list_all (\<lambda>kv. json_wf (snd kv)) acc \<Longrightarrow> json_wf x \<Longrightarrow>
   distinct (map fst (AList.update k x acc)) \<and> list_all (\<lambda>kv. json_wf (snd kv)) (AList.update k x acc)"
proof -
  assume a: "distinct (map fst acc)" "list_all (\<lambda>kv. json_wf (snd kv)) acc" "json_wf x"
  have "list_all (\<lambda>kv. json_wf (snd kv)) (AList.update k x acc)"
    using a(2,3) by (induction acc) auto
  with distinct_update [OF a(1), of k x] show ?thesis by blast
qed

lemma parse_wf:
  "parse_value f ts = Some (v, r) \<Longrightarrow> json_wf v"
  "parse_items f ts = Some (vs, r) \<Longrightarrow> list_all json_wf vs"
  "distinct (map fst acc) \<Longrightarrow> list_all (\<lambda>kv. json_wf (snd kv)) acc \<Longrightarrow> parse_members f acc ts = Some (kvs, r) \<Longrightarrow>
   distinct (map fst kvs) \<and> list_all (\<lambda>kv. json_wf (snd kv)) kvs"
proof (induction f ts and f ts and f acc ts arbitrary: v r and vs r and kvs r
    rule: parse_value_parse_items_parse_members.induct)
  case (2 f ts)
  then show ?case
    by (auto split: list.splits token.splits)
next
  case (4 f ts)
  then show ?case by (auto split: option.splits list.splits token.splits prod.splits)
next
  case (6 f acc ts)
  obtain k u where ts: "ts = TStr k # TColon # u"
    using "6.prems"(3) by (auto split: list.splits token.splits)
  obtain x t w where x: "parse_value f u = Some (x, t # w)"
    using "6.prems"(3) by (auto simp: ts split: option.splits list.splits prod.splits)
  have "json_wf x" by (rule "6.IH"(1) [OF ts refl refl refl x])
  note upd = wf_members_update [OF "6.prems"(1,2) this, of k]
  show ?case
  proof (cases "t = TComma")
    case True
    with "6.prems"(3) have "parse_members f (AList.update k x acc) w = Some (kvs, r)" by (simp add: ts x)
    with "6.IH"(2) [OF ts refl refl refl x refl refl True] upd show ?thesis by blast
  next
    case False
    with "6.prems"(3) have "kvs = AList.update k x acc" by (auto simp: ts x split: token.splits)
    with upd show ?thesis by simp
  qed
qed auto

lemma JSON_parse_wf: "JSON_parse s = Some v \<Longrightarrow> json_wf v"
  by (auto simp: JSON_parse_def dest!: parse_wf(1) split: option.splits list.splits)

text \<open>A text that ends with a newline.\<close>

lemma parse_stringify2_line: "json_wf v \<Longrightarrow> JSON_parse (JSON_stringify2 v @ [CHR 0x0A]) = Some v"
proof -
  assume v: "json_wf v"
  have "lex [CHR 0x0A] = Some []" by (simp add: lex.simps is_json_ws_def code_def)
  then have "lex (JSON_stringify2 v @ [CHR 0x0A]) = Some (tokens_of (layout True 0 v))"
    unfolding JSON_stringify2_def by (subst lex_layout(1)) (simp_all add: num_end_def is_digit_def code_def)
  then show ?thesis using parse_layout(1) [OF v, of True 0 _ "[]"] by (simp add: JSON_parse_def)
qed

end
