(* ===== verification/Wal.thy ===== *)
theory Wal
  imports Crc32c JsonRoundtrip
begin

text \<open>
  The write-ahead log of the task queue (\<open>infra/storage/task-queue-wal.ts\<close>): the record format,
  the parser that stops at the first torn or corrupted record, appending with rotation,
  recovery with truncation, and the lock file around every operation.

  The file system is explicit: \<open>walFile\<close> is the content of the log file (\<^const>\<open>None\<close> when it does not
  exist), \<open>walArchives\<close> the rotated files by the millisecond in their name, \<open>walTmp\<close> the temporary
  file of a rotation, \<open>walSynced\<close> the number of bytes of the log that a completed \<open>fdatasync\<close> has made
  durable. What an operation takes from outside (the lock file seen at each attempt, the clock)
  is a record of type \<open>wal_env\<close>; the n-th operation on the log reads the n-th of them, counted
  by \<open>walOps\<close>.
\<close>

section \<open>Records\<close>

definition bytes_of :: "string \<Rightarrow> byte list" where
  "bytes_of s = map (\<lambda>c. of_nat (code c)) s"

definition string_of :: "byte list \<Rightarrow> string" where
  "string_of bs = map (\<lambda>b. char_of (unat b)) bs"

definition be32 :: "nat \<Rightarrow> byte list" where
  "be32 n = [of_nat (n div 2 ^ 24), of_nat (n div 2 ^ 16), of_nat (n div 2 ^ 8), of_nat n]"

definition readUInt32BE :: "byte list \<Rightarrow> nat \<Rightarrow> nat" where
  "readUInt32BE bs i =
     unat (bs ! i) * 2 ^ 24 + unat (bs ! (i + 1)) * 2 ^ 16 + unat (bs ! (i + 2)) * 2 ^ 8 + unat (bs ! (i + 3))"

datatype wal_error =
    LockTimeout | LockPending | FaultInject | RangeError

definition encodeRecord :: "string \<Rightarrow> (wal_error, byte list) result" where
  "encodeRecord payload =
     (let payloadBytes = bytes_of payload
      in if 2 ^ 32 \<le> length payloadBytes then Inl RangeError
         else Inr (be32 (length payloadBytes) @ payloadBytes @ be32 (unat (crc32c payloadBytes))))"

record WalRecord =
  payload :: string
  offset :: nat
  reclen :: nat

function parse_from :: "byte list \<Rightarrow> nat \<Rightarrow> WalRecord list \<times> nat" where
  "parse_from buffer off =
     (if off + 8 \<le> length buffer then
        let payloadLen = readUInt32BE buffer off;
            payloadStart = off + 4;
            payloadEnd = payloadStart + payloadLen;
            crcEnd = payloadEnd + 4
        in if length buffer < crcEnd then ([], off)
           else
             let body = take payloadLen (drop payloadStart buffer);
                 expectedCrc = readUInt32BE buffer payloadEnd;
                 actualCrc = unat (crc32c body)
             in if expectedCrc \<noteq> actualCrc then ([], off)
                else map_prod ((#) \<lparr>payload = string_of body, offset = off, reclen = crcEnd - off\<rparr>) id
                       (parse_from buffer crcEnd)
      else ([], off))"
  by pat_completeness auto
termination
  by (relation "measure (\<lambda>(buffer, off). length buffer - off)") auto

declare parse_from.simps [simp del]

definition parseRecords :: "byte list \<Rightarrow> WalRecord list \<times> nat" where
  "parseRecords buffer = parse_from buffer 0"

section \<open>The log and its operations\<close>

datatype queue_mode = Financial | Standard

record wal_env =
  attempts :: "(bool \<times> int) list"
  started :: int
  rotateAt :: int

record wal =
  walMode :: queue_mode
  lockPath :: string
  maxWalBytes :: nat
  lockTimeoutMs :: int
  faultInject :: "string option"
  walFile :: "byte list option"
  walArchives :: "(int, byte list) jsmap"
  walTmp :: "byte list option"
  walSynced :: nat
  walOps :: nat

text \<open>
  \<open>withLock\<close>: every attempt opens the lock file exclusively. An attempt is a pair: whether the file
  exists at that moment and the clock read after a failed attempt.
\<close>

fun acquireLock :: "int \<Rightarrow> int \<Rightarrow> (bool \<times> int) list \<Rightarrow> (wal_error, unit) result" where
  "acquireLock timeoutMs t0 [] = Inl LockPending"
| "acquireLock timeoutMs t0 ((busy, now) # rest) =
     (if \<not> busy then Inr ()
      else if now - t0 > timeoutMs then Inl LockTimeout
      else acquireLock timeoutMs t0 rest)"

definition withLock ::
  "(nat \<Rightarrow> wal_env) \<Rightarrow> wal \<Rightarrow> (wal_env \<Rightarrow> wal \<Rightarrow> (wal_error, 'a) result \<times> wal) \<Rightarrow>
   (wal_error, 'a) result \<times> wal" where
  "withLock env w fn =
     (let e = env (walOps w);
          w' = w\<lparr>walOps := Suc (walOps w)\<rparr>
      in case acquireLock (lockTimeoutMs w) (started e) (attempts e) of
           Inl err \<Rightarrow> (Inl err, w')
         | Inr _ \<Rightarrow> fn e w')"

definition ensureActiveWal :: "wal \<Rightarrow> wal" where
  "ensureActiveWal w =
     (case walFile w of Some b \<Rightarrow> w | None \<Rightarrow> w\<lparr>walFile := Some [], walSynced := 0\<rparr>)"

definition fileSize :: "wal \<Rightarrow> nat" where
  "fileSize w = (case walFile w of None \<Rightarrow> 0 | Some b \<Rightarrow> length b)"

definition rotateIfNeeded :: "wal_env \<Rightarrow> nat \<Rightarrow> wal \<Rightarrow> (wal_error, unit) result \<times> wal" where
  "rotateIfNeeded e nextRecordBytes w =
     (if fileSize w + nextRecordBytes \<le> maxWalBytes w then (Inr (), w)
      else
        let w1 = w\<lparr>walTmp := Some []\<rparr>
        in if faultInject w = Some ''wal-rename-pre-sync'' then (Inl FaultInject, w1)
           else
             let w2 = (case walFile w1 of
                         None \<Rightarrow> w1
                       | Some b \<Rightarrow> w1\<lparr>walArchives := AList.update (rotateAt e) b (walArchives w1)\<rparr>)
             in (Inr (), w2\<lparr>walFile := walTmp w1, walTmp := None, walSynced := 0\<rparr>))"

definition appendBytes :: "byte list \<Rightarrow> wal \<Rightarrow> nat \<times> wal" where
  "appendBytes encoded w =
     (let b = (case walFile w of None \<Rightarrow> [] | Some b \<Rightarrow> b);
          b' = b @ encoded;
          w' = w\<lparr>walFile := Some b'\<rparr>
      in (length b, if walMode w = Financial then w'\<lparr>walSynced := length b'\<rparr> else w'))"

definition wal_enqueue ::
  "(nat \<Rightarrow> wal_env) \<Rightarrow> json \<Rightarrow> wal \<Rightarrow> (wal_error, WalRecord) result \<times> wal" where
  "wal_enqueue env task w =
     (let text = JSON_stringify task
      in case encodeRecord text of
           Inl err \<Rightarrow> (Inl err, w)
         | Inr encoded \<Rightarrow>
             withLock env w (\<lambda>e w1.
               case rotateIfNeeded e (length encoded) w1 of
                 (Inl err, w2) \<Rightarrow> (Inl err, w2)
               | (Inr _, w2) \<Rightarrow>
                   (let (off, w3) = appendBytes encoded w2
                    in (Inr \<lparr>payload = text, offset = off, reclen = length encoded\<rparr>, w3))))"

definition recoverAndRead ::
  "(nat \<Rightarrow> wal_env) \<Rightarrow> wal \<Rightarrow> (wal_error, WalRecord list) result \<times> wal" where
  "recoverAndRead env w =
     withLock env w (\<lambda>e w1.
       let w2 = ensureActiveWal w1;
           data = (case walFile w2 of None \<Rightarrow> [] | Some b \<Rightarrow> b);
           (records, validBytes) = parseRecords data
       in (Inr records,
           if validBytes < length data
           then w2\<lparr>walFile := Some (take validBytes data), walSynced := min validBytes (walSynced w2)\<rparr>
           else w2))"

definition newTaskQueueWal ::
  "string \<Rightarrow> string option \<Rightarrow> queue_mode option \<Rightarrow> nat option \<Rightarrow> int option \<Rightarrow> string option \<Rightarrow> byte list option \<Rightarrow> wal" where
  "newTaskQueueWal path lock mode maxBytes timeoutMs fault file =
     ensureActiveWal
       \<lparr>walMode = (case mode of None \<Rightarrow> Financial | Some m \<Rightarrow> m),
        lockPath = (case lock of None \<Rightarrow> path @ ''.lock'' | Some p \<Rightarrow> p),
        maxWalBytes = (case maxBytes of None \<Rightarrow> 10 * 1024 * 1024 | Some n \<Rightarrow> n),
        lockTimeoutMs = (case timeoutMs of None \<Rightarrow> 2000 | Some t \<Rightarrow> t),
        faultInject = fault, walFile = file, walArchives = [], walTmp = None,
        walSynced = (case file of None \<Rightarrow> 0 | Some b \<Rightarrow> length b), walOps = 0\<rparr>"

text \<open>
  A crash keeps what has been synchronised and an arbitrary part of the rest: the file the next
  process finds is a prefix of the file that holds at least the synchronised bytes.
\<close>

definition crash_image :: "wal \<Rightarrow> nat \<Rightarrow> byte list \<Rightarrow> bool" where
  "crash_image w n b \<longleftrightarrow>
     walSynced w \<le> n \<and> (case walFile w of None \<Rightarrow> b = [] | Some full \<Rightarrow> b = take n full)"

end
