(* ===== verification/WalLaws.thy ===== *)
theory WalLaws
  imports Wal
begin

text \<open>
  What the write-ahead log promises: reading back what was appended, also after a torn write, a
  corrupted byte or a crash; recovery is idempotent; waiting for the lock ends. The contract the
  task queue relies on is the locale \<open>durable_log\<close>, interpreted on \<open>wal_enqueue\<close>.
\<close>

section \<open>Encoding\<close>

definition fits32 :: "string \<Rightarrow> bool" where
  "fits32 s \<longleftrightarrow> length s < 2 ^ 32"

definition record_bytes :: "string \<Rightarrow> byte list" where
  "record_bytes s = be32 (length s) @ bytes_of s @ be32 (unat (crc32c (bytes_of s)))"

definition log_bytes :: "string list \<Rightarrow> byte list" where
  "log_bytes ps = concat (map record_bytes ps)"

fun records_at :: "nat \<Rightarrow> string list \<Rightarrow> WalRecord list" where
  "records_at off [] = []"
| "records_at off (p # ps) =
     \<lparr>payload = p, offset = off, reclen = length p + 8\<rparr> # records_at (off + length p + 8) ps"

lemma length_bytes_of [simp]: "length (bytes_of s) = length s"
  by (simp add: bytes_of_def)

lemma string_of_bytes_of [simp]: "string_of (bytes_of s) = s"
  by (induction s) (simp_all add: string_of_def bytes_of_def unat_of_nat code_def)

lemma length_be32 [simp]: "length (be32 n) = 4"
  by (simp add: be32_def)

lemma length_record_bytes [simp]: "length (record_bytes s) = length s + 8"
  by (simp add: record_bytes_def)

lemma log_bytes_simps [simp]:
  "log_bytes [] = []" "log_bytes (p # ps) = record_bytes p @ log_bytes ps"
  "log_bytes (ps @ qs) = log_bytes ps @ log_bytes qs"
  by (simp_all add: log_bytes_def)

lemma encodeRecord_eq:
  "encodeRecord s = (if fits32 s then Inr (record_bytes s) else Inl RangeError)"
  by (simp add: encodeRecord_def record_bytes_def fits32_def Let_def)

lemma map_payload_records_at [simp]: "map payload (records_at off ps) = ps"
  by (induction ps arbitrary: off) simp_all

lemma base256:
  fixes n :: nat
  assumes "n < 2 ^ 32"
  shows "n div 2 ^ 24 mod 256 * 2 ^ 24 + n div 2 ^ 16 mod 256 * 2 ^ 16 + n div 2 ^ 8 mod 256 * 2 ^ 8 +
    n mod 256 = n"
proof -
  define a b c where abc: "a = n div 256" "b = a div 256" "c = b div 256"
  have "n div 2 ^ 8 = a" and "n div 2 ^ 16 = b" and "n div 2 ^ 24 = c"
    by (simp_all add: abc div_mult2_eq [symmetric])
  moreover have "c < 256" using assms by (simp add: abc div_mult2_eq [symmetric] less_mult_imp_div_less)
  moreover have "n = 256 * a + n mod 256" "a = 256 * b + a mod 256" "b = 256 * c + b mod 256"
    by (simp_all add: abc)
  ultimately show ?thesis by simp
qed

lemma unat32: "unat (w :: 32 word) < 2 ^ 32"
  using unsigned_less [of w] by simp

lemma read_be32:
  "n < 2 ^ 32 \<Longrightarrow> readUInt32BE (pre @ be32 n @ post) (length pre) = n"
  using base256 [of n]
  by (simp add: readUInt32BE_def be32_def nth_append unat_of_nat)

lemma read_prefix:
  "i + 4 \<le> length a \<Longrightarrow> readUInt32BE (a @ b) i = readUInt32BE a i"
  by (simp add: readUInt32BE_def nth_append)

section \<open>Parsing what was appended\<close>

definition valid_at :: "byte list \<Rightarrow> nat \<Rightarrow> nat \<Rightarrow> byte list \<Rightarrow> bool" where
  "valid_at buf off fin body \<longleftrightarrow>
     off + 8 \<le> length buf \<and> fin = off + 4 + readUInt32BE buf off + 4 \<and> fin \<le> length buf \<and>
     body = take (readUInt32BE buf off) (drop (off + 4) buf) \<and>
     readUInt32BE buf (off + 4 + readUInt32BE buf off) = unat (crc32c body)"

lemma parse_valid:
  "valid_at buf off fin body \<Longrightarrow> parse_from buf off =
     map_prod ((#) \<lparr>payload = string_of body, offset = off, reclen = fin - off\<rparr>) id (parse_from buf fin)"
  by (subst parse_from.simps) (simp add: valid_at_def Let_def)

lemma parse_invalid:
  assumes "\<And>fin body. \<not> valid_at buf off fin body"
  shows "parse_from buf off = ([], off)"
  using assms [of "off + 4 + readUInt32BE buf off + 4" "take (readUInt32BE buf off) (drop (off + 4) buf)"]
  by (subst parse_from.simps) (auto simp: valid_at_def Let_def)

lemma parse_complete:
  assumes "fits32 p"
  shows "parse_from (pre @ record_bytes p @ post) (length pre) =
    map_prod ((#) \<lparr>payload = p, offset = length pre, reclen = length p + 8\<rparr>) id
      (parse_from ((pre @ record_bytes p) @ post) (length (pre @ record_bytes p)))"
proof -
  let ?buf = "pre @ record_bytes p @ post"
  have len: "readUInt32BE ?buf (length pre) = length p"
    using assms read_be32 [of "length p" pre] by (simp add: record_bytes_def fits32_def)
  have crc: "readUInt32BE ?buf (length pre + 4 + length p) = unat (crc32c (bytes_of p))"
    using read_be32 [of "unat (crc32c (bytes_of p))" "pre @ be32 (length p) @ bytes_of p" post]
      unat32 [of "crc32c (bytes_of p)"]
    by (simp add: record_bytes_def algebra_simps)
  have body: "take (length p) (drop (length pre + 4) ?buf) = bytes_of p"
    by (simp add: record_bytes_def)
  have "valid_at ?buf (length pre) (length pre + (length p + 8)) (bytes_of p)"
    unfolding valid_at_def len crc body by simp
  from parse_valid [OF this] show ?thesis by simp
qed

lemma parse_torn:
  assumes "fits32 p" and "n < length p + 8"
  shows "parse_from (pre @ take n (record_bytes p)) (length pre) = ([], length pre)"
proof (cases "n < 8")
  case True
  then show ?thesis by (subst parse_from.simps) simp
next
  case False
  have "pre @ take n (record_bytes p) =
      pre @ be32 (length p) @ take (n - 4) (bytes_of p @ be32 (unat (crc32c (bytes_of p))))"
    using False by (simp add: record_bytes_def)
  then have "readUInt32BE (pre @ take n (record_bytes p)) (length pre) = length p"
    using assms(1) by (simp only: fits32_def read_be32)
  then show ?thesis
    using assms(2) by (subst parse_from.simps) (simp add: Let_def min_def)
qed

lemma parse_corrupted:
  assumes "length u + Suc (length v) < 2 ^ 32" and "a \<noteq> b"
  shows "parse_from (pre @ be32 (length u + Suc (length v)) @ (u @ b # v) @
      be32 (unat (crc32c (u @ a # v))) @ post) (length pre) = ([], length pre)"
proof -
  let ?n = "length u + Suc (length v)" and ?c = "unat (crc32c (u @ a # v))"
  let ?buf = "pre @ be32 ?n @ (u @ b # v) @ be32 ?c @ post"
  have len: "readUInt32BE ?buf (length pre) = ?n"
    using assms(1) by (simp only: read_be32)
  have "readUInt32BE ((pre @ be32 ?n @ (u @ b # v)) @ be32 ?c @ post)
      (length (pre @ be32 ?n @ (u @ b # v))) = ?c"
    using unat32 [of "crc32c (u @ a # v)"] by (intro read_be32) simp
  then have crc: "readUInt32BE ?buf (length pre + 4 + ?n) = ?c"
    by (simp add: algebra_simps)
  have body: "take ?n (drop (length pre + 4) ?buf) = u @ b # v" by simp
  have "crc32c (u @ a # v) \<noteq> crc32c (u @ b # v)"
    using assms(2) crc32c_single_byte by blast
  then have ne: "?c \<noteq> unat (crc32c (u @ b # v))" by (simp add: word_unat_eq_iff)
  show ?thesis
    using len crc body ne by (subst parse_from.simps) (simp only: Let_def, simp)
qed

lemma parse_log:
  assumes "list_all fits32 ps"
  shows "parse_from (pre @ log_bytes ps @ post) (length pre) =
    map_prod ((@) (records_at (length pre) ps)) id
      (parse_from (pre @ log_bytes ps @ post) (length (pre @ log_bytes ps)))"
  using assms
proof (induction ps arbitrary: pre)
  case Nil
  then show ?case by (simp add: map_prod.id [unfolded id_def] prod.map_ident id_def)
next
  case (Cons p ps)
  show ?case
    using Cons.prems parse_complete [of p pre "log_bytes ps @ post"] Cons.IH [of "pre @ record_bytes p"]
    by (simp add: prod.map_comp comp_def algebra_simps)
qed

lemma parseRecords_log:
  assumes "list_all fits32 ps" and "parse_from (log_bytes ps @ post) (length (log_bytes ps)) = ([], n)"
  shows "parseRecords (log_bytes ps @ post) = (records_at 0 ps, n)"
  using parse_log [OF assms(1), of "[]" post] assms(2) by (simp add: parseRecords_def)

lemma parse_end: "parse_from b (length b) = ([], length b)"
  by (subst parse_from.simps) simp

lemma parseRecords_log_bytes:
  "list_all fits32 ps \<Longrightarrow> parseRecords (log_bytes ps) = (records_at 0 ps, length (log_bytes ps))"
  using parseRecords_log [of ps "[]"] by (simp add: parse_end)

lemma take_log_bytes:
  "\<exists>k \<le> length ps. \<exists>m. take n (log_bytes ps) = log_bytes (take k ps) @
     (if k < length ps then take m (record_bytes (ps ! k)) else []) \<and>
     (k < length ps \<longrightarrow> m < length (record_bytes (ps ! k)) \<and> n < length (log_bytes (take (Suc k) ps)))"
proof (induction ps arbitrary: n)
  case Nil
  then show ?case by simp
next
  case (Cons p ps)
  show ?case
  proof (cases "n < length (record_bytes p)")
    case True
    then show ?thesis by (intro exI [of _ 0] conjI exI [of _ n]) auto
  next
    case False
    obtain k m where k: "k \<le> length ps"
      "take (n - (length p + 8)) (log_bytes ps) = log_bytes (take k ps) @
         (if k < length ps then take m (record_bytes (ps ! k)) else [])"
      "k < length ps \<longrightarrow> m < length (record_bytes (ps ! k)) \<and>
         n - (length p + 8) < length (log_bytes (take (Suc k) ps))"
      using Cons.IH [of "n - (length p + 8)"] by blast
    show ?thesis
      using k False by (intro exI [of _ "Suc k"] conjI exI [of _ m]) auto
  qed
qed

lemma parse_prefix_of_log:
  assumes "list_all fits32 ps"
  obtains k where "k \<le> length ps"
    and "parseRecords (take n (log_bytes ps)) = (records_at 0 (take k ps), length (log_bytes (take k ps)))"
    and "k < length ps \<longrightarrow> n < length (log_bytes (take (Suc k) ps))"
proof -
  obtain k m where k: "k \<le> length ps"
    "take n (log_bytes ps) = log_bytes (take k ps) @
       (if k < length ps then take m (record_bytes (ps ! k)) else [])"
    "k < length ps \<longrightarrow> m < length (record_bytes (ps ! k)) \<and> n < length (log_bytes (take (Suc k) ps))"
    using take_log_bytes by blast
  have "list_all fits32 (take k ps)" using assms by (simp add: list_all_length)
  moreover have "k < length ps \<Longrightarrow> fits32 (ps ! k)" using assms by (simp add: list_all_length)
  ultimately have "parseRecords (take n (log_bytes ps)) =
      (records_at 0 (take k ps), length (log_bytes (take k ps)))"
    unfolding k(2) using k(3) by (intro parseRecords_log) (auto simp: parse_torn parse_end)
  with k that show thesis by blast
qed

section \<open>Truncating to the valid part\<close>

lemma parse_from_bounds:
  "off \<le> length buf \<Longrightarrow> off \<le> snd (parse_from buf off) \<and> snd (parse_from buf off) \<le> length buf"
proof (induction buf off rule: parse_from.induct)
  case (1 buf off)
  then show ?case
    by (subst (1 2) parse_from.simps) (force simp: Let_def)
qed

lemma valid_at_take:
  assumes "valid_at buf off fin body" and "fin \<le> n" and "n \<le> length buf"
  shows "valid_at (take n buf) off fin body"
proof -
  have rd: "readUInt32BE (take n buf) i = readUInt32BE buf i" if "i + 4 \<le> fin" for i
    using that assms(2,3) read_prefix [of i "take n buf" "drop n buf"] by simp
  have f: "fin = off + 4 + readUInt32BE buf off + 4" using assms(1) by (simp add: valid_at_def)
  have len: "readUInt32BE (take n buf) off = readUInt32BE buf off" by (rule rd) (simp add: f)
  have crc: "readUInt32BE (take n buf) (off + 4 + readUInt32BE buf off) =
      readUInt32BE buf (off + 4 + readUInt32BE buf off)" by (rule rd) (simp add: f)
  have "take (readUInt32BE buf off) (drop (off + 4) (take n buf)) = body"
    using assms f by (simp add: valid_at_def drop_take)
  then show ?thesis
    using assms f unfolding valid_at_def len crc by (simp add: valid_at_def)
qed

lemma parse_from_truncated:
  "off \<le> length buf \<Longrightarrow> parse_from (take (snd (parse_from buf off)) buf) off = parse_from buf off"
proof (induction "length buf - off" arbitrary: off rule: less_induct)
  case less
  show ?case
  proof (cases "\<exists>fin body. valid_at buf off fin body")
    case False
    then have "parse_from buf off = ([], off)" by (intro parse_invalid) blast
    moreover have "parse_from (take off buf) off = ([], off)"
      by (subst parse_from.simps) simp
    ultimately show ?thesis by simp
  next
    case True
    then obtain fin body where v: "valid_at buf off fin body" by blast
    then have fin: "off < fin" "fin \<le> length buf" by (auto simp: valid_at_def)
    define n where "n = snd (parse_from buf fin)"
    have n: "fin \<le> n" "n \<le> length buf" using parse_from_bounds [OF fin(2)] by (auto simp: n_def)
    have "parse_from (take n buf) fin = parse_from buf fin"
      unfolding n_def using fin less.hyps [of fin] by simp
    with parse_valid [OF v] parse_valid [OF valid_at_take [OF v n]]
    show ?thesis by (simp add: n_def)
  qed
qed

lemma parseRecords_truncated:
  "parseRecords (take (snd (parseRecords buf)) buf) = parseRecords buf"
  using parse_from_truncated [of 0 buf] by (simp add: parseRecords_def)

lemma validBytes_le: "snd (parseRecords buf) \<le> length buf"
  using parse_from_bounds [of 0 buf] by (simp add: parseRecords_def)

section \<open>The contract of the log\<close>

definition wal_payloads :: "wal \<Rightarrow> string list" where
  "wal_payloads w = (case walFile w of None \<Rightarrow> [] | Some b \<Rightarrow> map payload (fst (parseRecords b)))"

definition wal_healthy :: "wal \<Rightarrow> bool" where
  "wal_healthy w \<longleftrightarrow> (\<exists>ps. list_all fits32 ps \<and> walFile w = Some (log_bytes ps))"

definition room_for :: "json \<Rightarrow> wal \<Rightarrow> bool" where
  "room_for v w \<longleftrightarrow> fileSize w + length (JSON_stringify v) + 8 \<le> maxWalBytes w"

lemma wal_payloads_log:
  "list_all fits32 ps \<Longrightarrow> walFile w = Some (log_bytes ps) \<Longrightarrow> wal_payloads w = ps"
  by (simp add: wal_payloads_def parseRecords_log_bytes)

lemma wal_enqueue_room:
  assumes "room_for v w" and "wal_enqueue env v w = (Inr r, w')"
  shows "fits32 (JSON_stringify v)"
    and "walFile w' = Some ((case walFile w of None \<Rightarrow> [] | Some b \<Rightarrow> b) @ record_bytes (JSON_stringify v))"
    and "walSynced w' = (if walMode w = Financial then fileSize w' else walSynced w)"
    and "r = \<lparr>payload = JSON_stringify v, offset = fileSize w, reclen = length (JSON_stringify v) + 8\<rparr>"
    and "maxWalBytes w' = maxWalBytes w" and "walMode w' = walMode w"
  using assms
  by (auto simp: wal_enqueue_def encodeRecord_eq withLock_def Let_def rotateIfNeeded_def appendBytes_def
      room_for_def fileSize_def split: if_splits sum.splits option.splits)

definition wal_append :: "(nat \<Rightarrow> wal_env) \<Rightarrow> string \<Rightarrow> wal \<Rightarrow> wal option" where
  "wal_append env text w =
     (case JSON_parse text of
        None \<Rightarrow> None
      | Some v \<Rightarrow>
          if JSON_stringify v = text \<and> room_for v w then
            (case wal_enqueue env v w of (Inr r, w') \<Rightarrow> Some w' | (Inl err, w') \<Rightarrow> None)
          else None)"

lemma wal_append_Some:
  assumes "wal_append env text w = Some w'"
  obtains v r where "JSON_stringify v = text" "room_for v w" "wal_enqueue env v w = (Inr r, w')"
  using assms by (auto simp: wal_append_def split: option.splits if_splits prod.splits sum.splits)

interpretation wal_log: durable_log "wal_append env" wal_payloads wal_healthy for env
proof
  fix s r s'
  assume "wal_healthy s" and "wal_append env r s = Some s'"
  obtain ps where ps: "list_all fits32 ps" "walFile s = Some (log_bytes ps)"
    using \<open>wal_healthy s\<close> by (auto simp: wal_healthy_def)
  obtain v x where v: "JSON_stringify v = r" "room_for v s" "wal_enqueue env v s = (Inr x, s')"
    using \<open>wal_append env r s = Some s'\<close> by (rule wal_append_Some)
  from wal_enqueue_room [OF v(2,3)] ps v(1)
  have new: "list_all fits32 (ps @ [r])" "walFile s' = Some (log_bytes (ps @ [r]))" by auto
  show "wal_payloads s' = wal_payloads s @ [r]"
    using wal_payloads_log [OF new] wal_payloads_log [OF ps] by simp
  show "wal_healthy s'" unfolding wal_healthy_def using new by blast
qed

lemma acquire_pending:
  "acquireLock timeoutMs t0 as = Inl LockPending \<Longrightarrow> (b, now) \<in> set as \<Longrightarrow> now - t0 \<le> timeoutMs"
  by (induction timeoutMs t0 as rule: acquireLock.induct) (auto split: if_splits)

lemma encoded_log:
  "map encodeRecord ps = map Inr bs \<Longrightarrow> list_all fits32 ps \<and> bs = map record_bytes ps"
proof (induction ps arbitrary: bs)
  case Nil
  then show ?case by simp
next
  case (Cons p ps)
  then obtain b bs' where "bs = b # bs'" "encodeRecord p = Inr b" "map encodeRecord ps = map Inr bs'"
    by (cases bs) auto
  moreover from this have "list_all fits32 ps \<and> bs' = map record_bytes ps" by (intro Cons.IH)
  ultimately show ?case by (simp add: encodeRecord_eq split: if_splits)
qed

lemmas encode_simps = encodeRecord_eq fits32_def

section \<open>Properties\<close>

text \<open>
  A log whose last record was torn anywhere by a crash reads back as exactly the complete
  records, and the parser reports the offset at which the torn record begins.
\<close>

theorem wal_torn_write_reads_complete_records:
  assumes "map encodeRecord ps = map Inr bs" and "encodeRecord p = Inr b" and "n < length b"
  shows "map payload (fst (parseRecords (concat bs @ take n b))) = ps \<and>
    snd (parseRecords (concat bs @ take n b)) = length (concat bs)"
proof -
  have log: "list_all fits32 ps" "concat bs = log_bytes ps"
    using encoded_log [OF assms(1)] by (auto simp: log_bytes_def)
  have p: "fits32 p" "b = record_bytes p"
    using assms(2) by (auto simp: encodeRecord_eq split: if_splits)
  have "parse_from (log_bytes ps @ take n b) (length (log_bytes ps)) = ([], length (log_bytes ps))"
    using parse_torn [OF p(1)] assms(3) p(2) by simp
  from parseRecords_log [OF log(1) this] show ?thesis by (simp add: log(2))
qed

theorem wal_torn_write_witness:
  "map payload (fst (parseRecords (concat [record_bytes ''a''] @ take 5 (record_bytes ''bc'')))) = [''a'']"
  using wal_torn_write_reads_complete_records [of "[''a'']" "[record_bytes ''a'']" "''bc''" "record_bytes ''bc''" 5]
  by (simp add: encode_simps)

text \<open>
  C15: A record one byte of whose payload was altered on disk is rejected by its checksum, whatever
  the byte: the parser returns the records before it and stops at its offset.
\<close>

theorem wal_single_byte_corruption_detected:
  assumes "map encodeRecord ps = map Inr bs"
    and "encodeRecord p = Inr (hdr @ (u @ a # v) @ crc)" and "length hdr = 4" and "length crc = 4"
    and "a \<noteq> b"
  shows "map payload (fst (parseRecords (concat bs @ (hdr @ (u @ b # v) @ crc) @ rest))) = ps \<and>
    snd (parseRecords (concat bs @ (hdr @ (u @ b # v) @ crc) @ rest)) = length (concat bs)"
proof -
  have log: "list_all fits32 ps" "concat bs = log_bytes ps"
    using encoded_log [OF assms(1)] by (auto simp: log_bytes_def)
  have p: "fits32 p" "hdr @ (u @ a # v) @ crc = record_bytes p"
    using assms(2) by (auto simp: encodeRecord_eq split: if_splits)
  have h: "hdr = be32 (length p)" and "(u @ a # v) @ crc = bytes_of p @ be32 (unat (crc32c (bytes_of p)))"
    using p(2) assms(3) by (simp_all add: record_bytes_def append_eq_append_conv)
  then have body: "u @ a # v = bytes_of p" and c: "crc = be32 (unat (crc32c (bytes_of p)))"
    using assms(4) by (simp_all add: append_eq_append_conv del: append_assoc)
  have len: "length p = length u + Suc (length v)" using arg_cong [OF body, of length] by simp
  have "parse_from (log_bytes ps @ (hdr @ (u @ b # v) @ crc) @ rest) (length (log_bytes ps)) =
      ([], length (log_bytes ps))"
    using parse_corrupted [of u v a b "log_bytes ps" rest] p(1) assms(5)
    by (simp add: h c len fits32_def body [symmetric])
  from parseRecords_log [OF log(1) this] show ?thesis by (simp add: log(2))
qed

theorem wal_single_byte_corruption_witness:
  "map payload (fst (parseRecords (concat [record_bytes ''a''] @
     (be32 2 @ ([] @ 0 # bytes_of ''c'') @ be32 (unat (crc32c (bytes_of ''bc'')))) @ []))) = [''a'']"
proof -
  have b: "bytes_of ''bc'' = 98 # bytes_of ''c''" by (simp add: bytes_of_def code_def)
  have l: "length ''bc'' = 2" by simp
  have e: "encodeRecord ''bc'' = Inr (be32 2 @ ([] @ 98 # bytes_of ''c'') @ be32 (unat (crc32c (bytes_of ''bc''))))"
    unfolding encode_simps record_bytes_def l b by simp
  show ?thesis
    using wal_single_byte_corruption_detected
      [of "[''a'']" "[record_bytes ''a'']" "''bc''" "be32 2" "[]" 98 "bytes_of ''c''" _ 0 "[]", OF _ e]
    by (simp add: encode_simps)
qed

text \<open>
  Recovery repairs the log once and for all: recovering a second time, with nothing written in
  between, returns the same records and leaves the file as it is, and the file it leaves is
  exactly the part the parser accepted.
\<close>

theorem wal_recovery_idempotent:
  assumes "recoverAndRead env w = (Inr rs, w')" and "recoverAndRead env w' = (Inr rs', w'')"
  shows "rs' = rs \<and> walFile w'' = walFile w' \<and>
    walFile w' = Some (take (snd (parseRecords (case walFile w of None \<Rightarrow> [] | Some b \<Rightarrow> b)))
                            (case walFile w of None \<Rightarrow> [] | Some b \<Rightarrow> b))"
proof -
  define data where "data = (case walFile w of None \<Rightarrow> [] | Some b \<Rightarrow> b)"
  define n where "n = snd (parseRecords data)"
  have n: "n \<le> length data" unfolding n_def by (rule validBytes_le)
  have first: "rs = fst (parseRecords data)" "walFile w' = Some (take n data)"
    using assms(1) n
    by (auto simp: recoverAndRead_def withLock_def Let_def ensureActiveWal_def data_def n_def
        split: sum.splits prod.splits option.splits if_splits)
  have again: "parseRecords (take n data) = parseRecords data"
    unfolding n_def by (rule parseRecords_truncated)
  have "rs' = fst (parseRecords (take n data))" "walFile w'' = Some (take n data)"
    using assms(2) first(2) again n
    by (auto simp: recoverAndRead_def withLock_def Let_def ensureActiveWal_def n_def
        split: sum.splits prod.splits option.splits if_splits)
  then show ?thesis using first again by (simp add: data_def n_def)
qed

definition free_env :: "nat \<Rightarrow> wal_env" where
  "free_env n = \<lparr>attempts = [(False, 0)], started = 0, rotateAt = int n\<rparr>"

lemma recover_free: "\<exists>rs w'. recoverAndRead free_env w = (Inr rs, w')"
  by (simp add: recoverAndRead_def withLock_def free_env_def Let_def case_prod_beta)

theorem wal_recovery_idempotent_witness:
  "\<exists>rs w' w''. recoverAndRead free_env (newTaskQueueWal ''q'' None None None None None (Some [0, 0, 0])) = (Inr rs, w') \<and>
     recoverAndRead free_env w' = (Inr rs, w'') \<and> walFile w'' = walFile w'"
proof -
  obtain rs w' where 1: "recoverAndRead free_env (newTaskQueueWal ''q'' None None None None None (Some [0, 0, 0])) = (Inr rs, w')"
    using recover_free by blast
  obtain rs' w'' where 2: "recoverAndRead free_env w' = (Inr rs', w'')"
    using recover_free by blast
  show ?thesis using 1 2 wal_recovery_idempotent [OF 1 2] by blast
qed

text \<open>
  A queue at work: every append finds room for its record, so the log is not rotated; it may fail. The result
  holds the texts of the acknowledged appends in order.
\<close>

fun append_run :: "((nat \<Rightarrow> wal_env) \<times> json) list \<Rightarrow> wal \<Rightarrow> (string list \<times> wal) option" where
  "append_run [] w = Some ([], w)"
| "append_run ((env, v) # calls) w =
     (if room_for v w then
        (case wal_enqueue env v w of
           (Inr r, w1) \<Rightarrow> map_option (\<lambda>(ts, w2). (JSON_stringify v # ts, w2)) (append_run calls w1)
         | (Inl err, w1) \<Rightarrow> append_run calls w1)
      else None)"

lemma wal_enqueue_refused:
  assumes "room_for v w" and "wal_enqueue env v w = (Inl err, w')"
  shows "walFile w' = walFile w" "walSynced w' = walSynced w" "walMode w' = walMode w"
  using assms
  by (auto simp: wal_enqueue_def encodeRecord_eq withLock_def Let_def rotateIfNeeded_def appendBytes_def
      room_for_def fileSize_def split: if_splits sum.splits option.splits prod.splits)

lemma append_run_log:
  assumes "append_run calls w = Some (ts, w')" and "walMode w = Financial" and "list_all fits32 ps"
    and "walFile w = Some (log_bytes ps)" and "walSynced w = fileSize w"
  shows "list_all fits32 (ps @ ts) \<and> walFile w' = Some (log_bytes (ps @ ts)) \<and> walSynced w' = fileSize w'"
  using assms
proof (induction calls arbitrary: w ps ts)
  case (Cons call calls)
  obtain env v where call: "call = (env, v)" by force
  obtain r w1 where r: "wal_enqueue env v w = (r, w1)" by force
  have room: "room_for v w" using Cons.prems(1) by (simp add: call split: if_splits)
  show ?case
  proof (cases r)
    case (Inl err)
    note kept = wal_enqueue_refused [OF room r [unfolded Inl]]
    have "append_run calls w1 = Some (ts, w')" using Cons.prems(1) by (simp add: call r Inl room)
    from Cons.IH [OF this] kept Cons.prems(2-)
    show ?thesis
      by (simp add: fileSize_def)
  next
    case (Inr x)
    note new = wal_enqueue_room [OF room r [unfolded Inr]]
    obtain us where us: "append_run calls w1 = Some (us, w')" "ts = JSON_stringify v # us"
      using Cons.prems(1) by (auto simp: call r Inr room)
    have one: "list_all fits32 (ps @ [JSON_stringify v])" "walFile w1 = Some (log_bytes (ps @ [JSON_stringify v]))"
      "walSynced w1 = fileSize w1" "walMode w1 = Financial"
      using new Cons.prems(2-4) by simp_all
    from Cons.IH [OF us(1) one(4,1,2,3)]
    show ?thesis
      by (simp add: us(2))
  qed
qed simp_all

text \<open>
  C16: In financial mode acknowledged appends survive a crash. After any sequence of appends to a log that is
  synchronised and has room for them (so that it is not rotated), some of them refused, a crash may come at once
  or in the middle of writing a further record: recovery reads the earlier records and exactly the acknowledged
  ones, in their order.
\<close>

theorem wal_financial_append_survives_crash:
  assumes "walMode w = Financial" and "map encodeRecord ps = map Inr bs" and "walFile w = Some (concat bs)"
    and "walSynced w = fileSize w" and "append_run calls w = Some (ts, w')"
    and "crash_image w' n b" and "encodeRecord t = Inr torn" and "k < length torn"
  shows "map payload (fst (parseRecords (b @ take k torn))) = ps @ ts"
proof -
  have log: "list_all fits32 ps" "concat bs = log_bytes ps"
    using encoded_log [OF assms(2)] by (auto simp: log_bytes_def)
  have run: "list_all fits32 (ps @ ts)" "walFile w' = Some (log_bytes (ps @ ts))" "walSynced w' = fileSize w'"
    using append_run_log [OF assms(5,1) log(1) assms(3) [unfolded log(2)] assms(4)] by simp_all
  have b: "b = log_bytes (ps @ ts)"
    using assms(6) run(2,3) by (auto simp: crash_image_def fileSize_def)
  have t: "fits32 t" "torn = record_bytes t" using assms(7) by (auto simp: encodeRecord_eq split: if_splits)
  have "parse_from (log_bytes (ps @ ts) @ take k torn) (length (log_bytes (ps @ ts))) = ([], length (log_bytes (ps @ ts)))"
    using parse_torn [OF t(1), of k "log_bytes (ps @ ts)"] assms(8) t(2) by simp
  from parseRecords_log [OF run(1) this] show ?thesis by (simp add: b)
qed

text \<open>
  In either mode a crash loses no record that was synchronised and never invents, reorders or
  alters one: recovery reads a prefix of the appended records that holds every synchronised one.
\<close>

theorem wal_crash_recovers_prefix:
  assumes "map encodeRecord ps = map Inr bs" and "walFile w = Some (concat bs)" and "crash_image w n b"
  shows "\<exists>k \<le> length ps. map payload (fst (parseRecords b)) = take k ps \<and>
    (\<forall>j \<le> length ps. length (concat (take j bs)) \<le> walSynced w \<longrightarrow> j \<le> k)"
proof -
  have log: "list_all fits32 ps" "bs = map record_bytes ps"
    using encoded_log [OF assms(1)] by auto
  have b: "b = take n (log_bytes ps)" and n: "walSynced w \<le> n"
    using assms(2,3) log(2) by (auto simp: crash_image_def log_bytes_def)
  obtain k where k: "k \<le> length ps"
    "parseRecords (take n (log_bytes ps)) = (records_at 0 (take k ps), length (log_bytes (take k ps)))"
    "k < length ps \<longrightarrow> n < length (log_bytes (take (Suc k) ps))"
    using parse_prefix_of_log [OF log(1)] by blast
  have mono: "length (concat (take i bs)) \<le> length (concat (take j bs))" if "i \<le> j" for i j
    using that by (metis append_Nil2 concat_append le_add1 length_append min.absorb1 take_add
        ordered_cancel_comm_monoid_diff_class.add_diff_inverse)
  have "j \<le> k" if j: "j \<le> length ps" "length (concat (take j bs)) \<le> walSynced w" for j
  proof (rule ccontr)
    assume "\<not> j \<le> k"
    then have "Suc k \<le> j" and "k < length ps" using j(1) by auto
    then have "n < length (concat (take (Suc k) bs))"
      using k(3) by (simp add: log_bytes_def log(2) take_map)
    also have "\<dots> \<le> length (concat (take j bs))" using \<open>Suc k \<le> j\<close> by (rule mono)
    finally show False using j(2) n by simp
  qed
  then show ?thesis using k(1,2) by (auto simp: b)
qed

definition demo_wal :: wal where
  "demo_wal = \<lparr>walMode = Financial, lockPath = ''q.lock'', maxWalBytes = 1000, lockTimeoutMs = 2000, faultInject = None,
     walFile = Some (record_bytes ''1''), walArchives = [], walTmp = None, walSynced = 9, walOps = 0\<rparr>"

text \<open>Another process holds the lock until the clock has passed the timeout.\<close>

definition busy_env :: "nat \<Rightarrow> wal_env" where
  "busy_env _ = \<lparr>attempts = [(True, 9000)], started = 0, rotateAt = 0\<rparr>"

theorem wal_financial_append_witness:
  "\<exists>w' b. append_run [(busy_env, JNum 5), (free_env, JNum 7)] demo_wal = Some ([''7''], w') \<and> crash_image w' 20 b \<and>
     map payload (fst (parseRecords (b @ take 3 (record_bytes ''8'')))) = [''1''] @ [''7'']"
proof -
  have j: "JSON_stringify (JNum 7) = ''7''" "JSON_stringify (JNum 5) = ''5''" by code_simp+
  obtain w' where w': "append_run [(busy_env, JNum 5), (free_env, JNum 7)] demo_wal = Some ([''7''], w')"
      "walSynced w' = 18" "walFile w' = Some (record_bytes ''1'' @ record_bytes ''7'')"
    by (simp add: wal_enqueue_def j encode_simps withLock_def free_env_def busy_env_def demo_wal_def Let_def
        rotateIfNeeded_def fileSize_def appendBytes_def room_for_def)
  have c: "crash_image w' 20 (record_bytes ''1'' @ record_bytes ''7'')"
    using w' by (simp add: crash_image_def)
  have t: "encodeRecord ''8'' = Inr (record_bytes ''8'')" by (simp add: encode_simps)
  show ?thesis
    using wal_financial_append_survives_crash
      [of demo_wal "[''1'']" "[record_bytes ''1'']", OF _ _ _ _ w'(1) c t, of 3] w'(1) c
    by (auto simp: demo_wal_def encode_simps fileSize_def)
qed

theorem wal_crash_prefix_witness:
  "\<exists>k \<le> 1. map payload (fst (parseRecords (take 9 (record_bytes ''1'')))) = take k [''1''] \<and> 1 \<le> k"
proof -
  have c: "crash_image demo_wal 9 (take 9 (record_bytes ''1''))"
    by (simp add: crash_image_def demo_wal_def)
  show ?thesis
    using wal_crash_recovers_prefix [of "[''1'']" "[record_bytes ''1'']", OF _ _ c]
    by (auto simp: demo_wal_def encode_simps)
qed

text \<open>
  No operation waits for the lock forever: when every failed attempt takes at least the ten
  milliseconds it sleeps, the attempt made after the timeout at the latest ends the wait, with
  the lock or with the timeout error.
\<close>

theorem wal_lock_wait_ends:
  assumes "\<forall>i < length tries. t0 + 10 * int i \<le> snd (tries ! i)"
    and "0 \<le> timeoutMs" and "timeoutMs div 10 + 1 < int (length tries)"
  shows "acquireLock timeoutMs t0 tries \<noteq> Inl LockPending"
proof
  assume pending: "acquireLock timeoutMs t0 tries = Inl LockPending"
  define i where "i = length tries - 1"
  have i: "i < length tries" "timeoutMs < 10 * int i" using assms(2,3) by (auto simp: i_def)
  have "snd (tries ! i) - t0 \<le> timeoutMs"
    using acquire_pending [OF pending] i(1) by (metis nth_mem prod.collapse)
  with assms(1) i show False by force
qed

theorem wal_lock_wait_ends_witness:
  "acquireLock 15 0 [(True, 0), (True, 10), (True, 21)] \<noteq> Inl LockPending"
  by (rule wal_lock_wait_ends) (auto simp: nth_Cons split: nat.splits)

end
