(* ===== verification/TaskQueue.thy ===== *)
theory TaskQueue
  imports WalLaws
begin

text \<open>
  The task queue (\<open>infra/storage/task-queue-service.ts\<close>): a bounded table of pending tasks, every change
  of which is first appended to the write-ahead log; the recovery that replays the log when the
  service starts; and the resume pass over the recovered tasks.

  A task is the JSON object the caller passes. \<open>randomUUID()\<close> and \<open>new Date().toISOString()\<close> are
  arguments, \<open>localeCompare\<close> is the argument \<open>lc\<close>, the redispatch handler of the caller is a function
  from the task to the message it throws or the status it resolves to.
\<close>

datatype TaskQueueStatus = Completed | Failed | Canceled

datatype TaskQueueResumePolicy = Keep | FailAll | Redispatch

record PendingTask =
  pt_taskId :: string
  pt_enqueuedAt :: string
  pt_task :: json

record QueueTicket =
  qt_taskId :: string
  qt_enqueuedAt :: string

datatype QueueEnvelope =
    EnqueueOp string string json
  | FinishOp string TaskQueueStatus string "json option"

record TaskQueueResumeResult =
  rr_policy :: TaskQueueResumePolicy
  rr_scanned :: nat
  rr_redispatched :: nat
  rr_failed :: nat
  rr_canceled :: nat
  rr_kept :: nat
  rr_errors :: "string list"

record TaskQueueService =
  queueWal :: wal
  queueMode :: queue_mode
  maxPendingTasks :: nat
  defaultResumePolicy :: TaskQueueResumePolicy
  pending :: "(string, PendingTask) jsmap"
  recoveredTaskIds :: "string list"
  lastResume :: "(TaskQueueResumeResult \<times> string) option"
  totalEnqueued :: nat
  totalFinished :: nat

datatype queue_error = Overload nat nat | WalFailure wal_error

section \<open>The envelope in the log\<close>

fun status_text :: "TaskQueueStatus \<Rightarrow> string" where
  "status_text Completed = ''completed''"
| "status_text Failed = ''failed''"
| "status_text Canceled = ''canceled''"

definition status_of_text :: "string \<Rightarrow> TaskQueueStatus option" where
  "status_of_text s =
     (if s = ''completed'' then Some Completed
      else if s = ''failed'' then Some Failed
      else if s = ''canceled'' then Some Canceled
      else None)"

fun envelope_json :: "QueueEnvelope \<Rightarrow> json" where
  "envelope_json (EnqueueOp tid at task) =
     JObj [(''op'', JStr ''enqueue''), (''taskId'', JStr tid), (''enqueuedAt'', JStr at), (''task'', task)]"
| "envelope_json (FinishOp tid st at meta) =
     JObj ([(''op'', JStr ''finish''), (''taskId'', JStr tid), (''status'', JStr (status_text st)),
            (''finishedAt'', JStr at)] @ (case meta of None \<Rightarrow> [] | Some m \<Rightarrow> [(''metadata'', m)]))"

text \<open>\<open>parsed.task && typeof parsed.task === 'object' && typeof parsed.task.type === 'string'\<close>\<close>

definition is_task :: "json \<Rightarrow> bool" where
  "is_task v \<longleftrightarrow> jstring (jfield v ''type'') \<noteq> None"

definition parseEnvelope :: "string \<Rightarrow> QueueEnvelope option" where
  "parseEnvelope raw =
     (case JSON_parse raw of
        None \<Rightarrow> None
      | Some parsed \<Rightarrow>
          (case jstring (jfield parsed ''op'') of
             None \<Rightarrow> None
           | Some op \<Rightarrow>
               if op = ''enqueue'' then
                 (case (jstring (jfield parsed ''taskId''), jstring (jfield parsed ''enqueuedAt''),
                        jfield parsed ''task'') of
                    (Some tid, Some at, Some task) \<Rightarrow>
                      if is_task task then Some (EnqueueOp tid at task) else None
                  | _ \<Rightarrow> None)
               else if op = ''finish'' then
                 (case (jstring (jfield parsed ''taskId''), jstring (jfield parsed ''finishedAt''),
                        jstring (jfield parsed ''status'')) of
                    (Some tid, Some at, Some s) \<Rightarrow>
                      (case status_of_text s of
                         None \<Rightarrow> None
                       | Some st \<Rightarrow> Some (FinishOp tid st at (jfield parsed ''metadata'')))
                  | _ \<Rightarrow> None)
               else None))"

section \<open>Operations\<close>

definition queue_enqueue ::
  "(nat \<Rightarrow> wal_env) \<Rightarrow> string \<Rightarrow> string \<Rightarrow> json \<Rightarrow> TaskQueueService \<Rightarrow>
   (queue_error, QueueTicket) result \<times> TaskQueueService" where
  "queue_enqueue env taskId now task s =
     (if maxPendingTasks s \<le> length (pending s) then
        (Inl (Overload (length (pending s)) (maxPendingTasks s)), s)
      else
        (case wal_enqueue env (envelope_json (EnqueueOp taskId now task)) (queueWal s) of
           (Inl err, w) \<Rightarrow> (Inl (WalFailure err), s\<lparr>queueWal := w\<rparr>)
         | (Inr _, w) \<Rightarrow>
             (Inr \<lparr>qt_taskId = taskId, qt_enqueuedAt = now\<rparr>,
              s\<lparr>queueWal := w,
                pending := AList.update taskId
                  \<lparr>pt_taskId = taskId, pt_enqueuedAt = now, pt_task = task\<rparr> (pending s),
                totalEnqueued := totalEnqueued s + 1\<rparr>)))"

definition queue_finish ::
  "(nat \<Rightarrow> wal_env) \<Rightarrow> string \<Rightarrow> string \<Rightarrow> TaskQueueStatus \<Rightarrow> json option \<Rightarrow> TaskQueueService \<Rightarrow>
   (queue_error, bool) result \<times> TaskQueueService" where
  "queue_finish env now taskId status metadata s =
     (case map_of (pending s) taskId of
        None \<Rightarrow> (Inr False, s)
      | Some _ \<Rightarrow>
          (case wal_enqueue env (envelope_json (FinishOp taskId status now metadata)) (queueWal s) of
             (Inl err, w) \<Rightarrow> (Inl (WalFailure err), s\<lparr>queueWal := w\<rparr>)
           | (Inr _, w) \<Rightarrow>
               (Inr True,
                s\<lparr>queueWal := w,
                  pending := AList.delete taskId (pending s),
                  recoveredTaskIds := removeAll taskId (recoveredTaskIds s),
                  totalFinished := totalFinished s + 1\<rparr>)))"

definition pending_order :: "(string \<Rightarrow> string \<Rightarrow> int) \<Rightarrow> PendingTask \<Rightarrow> PendingTask \<Rightarrow> int" where
  "pending_order lc a b =
     (if pt_enqueuedAt a = pt_enqueuedAt b then lc (pt_taskId a) (pt_taskId b)
      else lc (pt_enqueuedAt a) (pt_enqueuedAt b))"

definition listPending :: "(string \<Rightarrow> string \<Rightarrow> int) \<Rightarrow> TaskQueueService \<Rightarrow> PendingTask list" where
  "listPending lc s = js_sort (pending_order lc) (map snd (pending s))"

record TaskQueueSnapshot =
  sn_mode :: queue_mode
  sn_resumePolicy :: TaskQueueResumePolicy
  sn_maxPendingTasks :: nat
  sn_pendingTasks :: nat
  sn_recoveredPendingTasks :: nat
  sn_totalEnqueued :: nat
  sn_totalFinished :: nat
  sn_lastResume :: "(TaskQueueResumeResult \<times> string) option"

definition queue_snapshot :: "TaskQueueService \<Rightarrow> TaskQueueSnapshot" where
  "queue_snapshot s =
     \<lparr>sn_mode = queueMode s, sn_resumePolicy = defaultResumePolicy s,
      sn_maxPendingTasks = maxPendingTasks s, sn_pendingTasks = length (pending s),
      sn_recoveredPendingTasks = length (recoveredTaskIds s),
      sn_totalEnqueued = totalEnqueued s, sn_totalFinished = totalFinished s,
      sn_lastResume = lastResume s\<rparr>"

section \<open>Recovery when the service starts\<close>

record replayed =
  rp_pending :: "(string, PendingTask) jsmap"
  rp_recovered :: "string list"
  rp_enqueued :: nat
  rp_finished :: nat

definition apply_record :: "string \<Rightarrow> replayed \<Rightarrow> replayed" where
  "apply_record raw r =
     (case parseEnvelope raw of
        None \<Rightarrow> r
      | Some (EnqueueOp tid at task) \<Rightarrow>
          r\<lparr>rp_pending := AList.update tid \<lparr>pt_taskId = tid, pt_enqueuedAt = at, pt_task = task\<rparr> (rp_pending r),
            rp_recovered := (if tid \<in> set (rp_recovered r) then rp_recovered r else rp_recovered r @ [tid]),
            rp_enqueued := rp_enqueued r + 1\<rparr>
      | Some (FinishOp tid st at meta) \<Rightarrow>
          r\<lparr>rp_pending := AList.delete tid (rp_pending r),
            rp_recovered := removeAll tid (rp_recovered r),
            rp_finished := rp_finished r + 1\<rparr>)"

definition replay_start :: replayed where
  "replay_start = \<lparr>rp_pending = [], rp_recovered = [], rp_enqueued = 0, rp_finished = 0\<rparr>"

definition newTaskQueueService ::
  "(nat \<Rightarrow> wal_env) \<Rightarrow> string \<Rightarrow> queue_mode option \<Rightarrow> nat option \<Rightarrow> nat option \<Rightarrow> string option \<Rightarrow>
   TaskQueueResumePolicy option \<Rightarrow> byte list option \<Rightarrow> (queue_error, TaskQueueService) result" where
  "newTaskQueueService env walPath mode maxPending maxBytes fault resumePolicy file =
     (let m = (case mode of None \<Rightarrow> Financial | Some m \<Rightarrow> m);
          w = newTaskQueueWal walPath None (Some m) maxBytes None fault file
      in case recoverAndRead env w of
           (Inl err, w') \<Rightarrow> Inl (WalFailure err)
         | (Inr records, w') \<Rightarrow>
             (let r = fold (\<lambda>x. apply_record (payload x)) records replay_start
              in Inr \<lparr>queueWal = w', queueMode = m,
                      maxPendingTasks = (case maxPending of None \<Rightarrow> 100 | Some n \<Rightarrow> n),
                      defaultResumePolicy = (case resumePolicy of None \<Rightarrow> Keep | Some p \<Rightarrow> p),
                      pending = rp_pending r, recoveredTaskIds = rp_recovered r, lastResume = None,
                      totalEnqueued = rp_enqueued r, totalFinished = rp_finished r\<rparr>))"

section \<open>Resuming the recovered tasks\<close>

definition normalizeResumeStatus :: "TaskQueueStatus option \<Rightarrow> TaskQueueStatus" where
  "normalizeResumeStatus st = (case st of Some s \<Rightarrow> s | None \<Rightarrow> Completed)"

fun queue_error_text :: "TaskQueueService \<Rightarrow> queue_error \<Rightarrow> string" where
  "queue_error_text s (Overload n m) = ''task queue is full''"
| "queue_error_text s (WalFailure LockTimeout) = ''lock timeout for '' @ lockPath (queueWal s)"
| "queue_error_text s (WalFailure LockPending) = ''''"
| "queue_error_text s (WalFailure FaultInject) = ''fault-inject: wal-rename-pre-sync''"
| "queue_error_text s (WalFailure RangeError) = ''ERR_OUT_OF_RANGE''"

definition resume_metadata :: "string \<Rightarrow> string option \<Rightarrow> json option" where
  "resume_metadata reason err =
     Some (JObj ([(''reason'', JStr reason), (''recoveredOnStartup'', JBool True)] @
                 (case err of None \<Rightarrow> [] | Some m \<Rightarrow> [(''error'', JStr m)])))"

fun count_status :: "TaskQueueStatus \<Rightarrow> TaskQueueResumeResult \<Rightarrow> TaskQueueResumeResult" where
  "count_status Completed out = out\<lparr>rr_redispatched := rr_redispatched out + 1\<rparr>"
| "count_status Canceled out = out\<lparr>rr_canceled := rr_canceled out + 1\<rparr>"
| "count_status Failed out = out\<lparr>rr_failed := rr_failed out + 1\<rparr>"

definition finally_forget :: "string \<Rightarrow> TaskQueueService \<Rightarrow> TaskQueueService" where
  "finally_forget tid s = s\<lparr>recoveredTaskIds := removeAll tid (recoveredTaskIds s)\<rparr>"

text \<open>The \<open>catch\<close> and \<open>finally\<close> of the loop body; a call that has not returned is no exception.\<close>

definition resume_catch ::
  "(nat \<Rightarrow> wal_env) \<Rightarrow> string \<Rightarrow> PendingTask \<Rightarrow> string \<Rightarrow> TaskQueueResumeResult \<Rightarrow> TaskQueueService \<Rightarrow>
   (queue_error, TaskQueueResumeResult) result \<times> TaskQueueService" where
  "resume_catch env now t message out s =
     (case queue_finish env now (pt_taskId t) Failed
             (resume_metadata ''resume_policy_redispatch_error'' (Some message)) s of
        (Inl err, s') \<Rightarrow> (Inl err, if err = WalFailure LockPending then s' else finally_forget (pt_taskId t) s')
      | (Inr _, s') \<Rightarrow>
          (Inr (out\<lparr>rr_failed := rr_failed out + 1,
                    rr_errors := rr_errors out @ [''task '' @ pt_taskId t @ '': '' @ message]\<rparr>),
           finally_forget (pt_taskId t) s'))"

definition resume_one ::
  "(nat \<Rightarrow> wal_env) \<Rightarrow> string \<Rightarrow> TaskQueueResumePolicy \<Rightarrow>
   (PendingTask \<Rightarrow> (string, TaskQueueStatus option) result) \<Rightarrow>
   PendingTask \<Rightarrow> TaskQueueResumeResult \<Rightarrow> TaskQueueService \<Rightarrow>
   (queue_error, TaskQueueResumeResult) result \<times> TaskQueueService" where
  "resume_one env now policy redispatch t out s =
     (let attempt = (\<lambda>st reason.
            case queue_finish env now (pt_taskId t) st (resume_metadata reason None) s of
              (Inl err, s') \<Rightarrow>
                if err = WalFailure LockPending then (Inl err, s')
                else resume_catch env now t (queue_error_text s' err) out s'
            | (Inr _, s') \<Rightarrow> (Inr (count_status st out), finally_forget (pt_taskId t) s'))
      in if policy = FailAll then attempt Failed ''resume_policy_fail''
         else (case redispatch t of
                 Inl message \<Rightarrow> resume_catch env now t message out s
               | Inr st \<Rightarrow> attempt (normalizeResumeStatus st) ''resume_policy_redispatch''))"

fun resume_loop ::
  "(nat \<Rightarrow> wal_env) \<Rightarrow> string \<Rightarrow> TaskQueueResumePolicy \<Rightarrow>
   (PendingTask \<Rightarrow> (string, TaskQueueStatus option) result) \<Rightarrow>
   PendingTask list \<Rightarrow> TaskQueueResumeResult \<Rightarrow> TaskQueueService \<Rightarrow>
   (queue_error, TaskQueueResumeResult) result \<times> TaskQueueService" where
  "resume_loop env now policy redispatch [] out s = (Inr out, s)"
| "resume_loop env now policy redispatch (t # ts) out s =
     (case resume_one env now policy redispatch t out s of
        (Inl err, s') \<Rightarrow> (Inl err, s')
      | (Inr out', s') \<Rightarrow> resume_loop env now policy redispatch ts out' s')"

definition recordLastResume ::
  "string \<Rightarrow> TaskQueueResumeResult \<Rightarrow> TaskQueueService \<Rightarrow> TaskQueueService" where
  "recordLastResume now out s = s\<lparr>lastResume := Some (out, now)\<rparr>"

definition resumeRecoveredPending ::
  "(string \<Rightarrow> string \<Rightarrow> int) \<Rightarrow> (nat \<Rightarrow> wal_env) \<Rightarrow> string \<Rightarrow> TaskQueueResumePolicy option \<Rightarrow>
   (PendingTask \<Rightarrow> (string, TaskQueueStatus option) result) option \<Rightarrow> TaskQueueService \<Rightarrow>
   (queue_error, TaskQueueResumeResult) result \<times> TaskQueueService" where
  "resumeRecoveredPending lc env now policyOpt redispatchOpt s =
     (let policy = (case policyOpt of None \<Rightarrow> defaultResumePolicy s | Some p \<Rightarrow> p);
          recovered = filter (\<lambda>t. pt_taskId t \<in> set (recoveredTaskIds s)) (listPending lc s);
          out = \<lparr>rr_policy = policy, rr_scanned = length recovered, rr_redispatched = 0, rr_failed = 0,
                 rr_canceled = 0, rr_kept = 0, rr_errors = []\<rparr>
      in if recovered = [] then (Inr out, recordLastResume now out s)
         else if policy = Keep then
           (let out' = out\<lparr>rr_kept := length recovered\<rparr>
            in (Inr out', recordLastResume now out' (s\<lparr>recoveredTaskIds := []\<rparr>)))
         else if policy = Redispatch \<and> redispatchOpt = None then
           (let out' = out\<lparr>rr_kept := length recovered,
                           rr_errors := [''resume redispatch requested but no redispatch handler was provided'']\<rparr>
            in (Inr out', recordLastResume now out' (s\<lparr>recoveredTaskIds := []\<rparr>)))
         else
           (case resume_loop env now policy
                   (case redispatchOpt of Some f \<Rightarrow> f | None \<Rightarrow> (\<lambda>t. Inr None)) recovered out s of
              (Inl err, s') \<Rightarrow> (Inl err, s')
            | (Inr out', s') \<Rightarrow> (Inr out', recordLastResume now out' s')))"

end
