(* ===== verification/TaskQueueLaws.thy ===== *)
theory TaskQueueLaws
  imports TaskQueue
begin

text \<open>
  The task queue keeps its table in step with its log (through the contract \<open>durable_log\<close> of the
  write-ahead log), so a restart after a crash finds the table again; it accounts for every task;
  and the resume pass settles every recovered task exactly once.
\<close>

section \<open>Reading an envelope back\<close>

fun envelope_ok :: "QueueEnvelope \<Rightarrow> bool" where
  "envelope_ok (EnqueueOp tid at task) = (json_wf task \<and> is_task task)"
| "envelope_ok (FinishOp tid st at meta) = (case meta of None \<Rightarrow> True | Some m \<Rightarrow> json_wf m)"

lemma json_wf_envelope: "envelope_ok e \<Longrightarrow> json_wf (envelope_json e)"
  by (cases e) (auto split: option.splits)

lemma status_round_trip [simp]: "status_of_text (status_text st) = Some st"
  by (cases st) (simp_all add: status_of_text_def)

lemma parse_envelope_json: "envelope_ok e \<Longrightarrow> parseEnvelope (JSON_stringify (envelope_json e)) = Some e"
  using json_wf_envelope [of e]
  by (cases e) (auto simp: parseEnvelope_def parse_stringify is_task_def split: option.splits)

section \<open>The table is the replay of the log\<close>

fun apply_envelope :: "QueueEnvelope \<Rightarrow> replayed \<Rightarrow> replayed" where
  "apply_envelope (EnqueueOp tid at task) r =
     r\<lparr>rp_pending := AList.update tid \<lparr>pt_taskId = tid, pt_enqueuedAt = at, pt_task = task\<rparr> (rp_pending r),
       rp_recovered := (if tid \<in> set (rp_recovered r) then rp_recovered r else rp_recovered r @ [tid]),
       rp_enqueued := rp_enqueued r + 1\<rparr>"
| "apply_envelope (FinishOp tid st at meta) r =
     r\<lparr>rp_pending := AList.delete tid (rp_pending r),
       rp_recovered := removeAll tid (rp_recovered r),
       rp_finished := rp_finished r + 1\<rparr>"

lemma apply_record_envelope:
  "apply_record raw r = (case parseEnvelope raw of None \<Rightarrow> r | Some e \<Rightarrow> apply_envelope e r)"
  by (auto simp: apply_record_def split: option.splits QueueEnvelope.splits)

definition ids_match :: "(string, PendingTask) jsmap \<Rightarrow> bool" where
  "ids_match m \<longleftrightarrow> (\<forall>(k, t) \<in> set m. pt_taskId t = k)"

lemma ids_match_update: "ids_match m \<Longrightarrow> pt_taskId t = k \<Longrightarrow> ids_match (AList.update k t m)"
  unfolding ids_match_def by (induction m) auto

lemma ids_match_delete: "ids_match m \<Longrightarrow> ids_match (AList.delete k m)"
  by (auto simp: ids_match_def AList.delete_eq)

definition replay_wf :: "replayed \<Rightarrow> bool" where
  "replay_wf r \<longleftrightarrow> wf_map (rp_pending r) \<and> rp_recovered r = keys (rp_pending r) \<and> ids_match (rp_pending r)"

lemma replay_wf_envelope: "replay_wf r \<Longrightarrow> replay_wf (apply_envelope e r)"
  by (cases e) (simp_all add: replay_wf_def keys_update keys_delete ids_match_update ids_match_delete)

lemma replay_wf_apply: "replay_wf r \<Longrightarrow> replay_wf (apply_record raw r)"
  by (simp add: apply_record_envelope replay_wf_envelope split: option.split)

lemma replay_wf_fold: "replay_wf r \<Longrightarrow> replay_wf (fold apply_record ps r)"
  by (induction ps arbitrary: r) (simp_all add: replay_wf_apply)

lemma replay_wf_start [simp]: "replay_wf replay_start"
  by (simp add: replay_wf_def replay_start_def keys_def ids_match_def)

definition replay_of :: "wal \<Rightarrow> replayed" where
  "replay_of w = fold apply_record (wal_payloads w) replay_start"

definition mirrors :: "TaskQueueService \<Rightarrow> bool" where
  "mirrors s \<longleftrightarrow> wal_healthy (queueWal s) \<and>
     rp_pending (replay_of (queueWal s)) = pending s \<and>
     rp_enqueued (replay_of (queueWal s)) = totalEnqueued s \<and>
     rp_finished (replay_of (queueWal s)) = totalFinished s"

lemma wal_enqueue_error:
  assumes "room_for v w" and "wal_enqueue env v w = (Inl err, w')"
  shows "walFile w' = walFile w \<and> walSynced w' = walSynced w \<and> walMode w' = walMode w"
  using assms
  by (auto simp: wal_enqueue_def encodeRecord_eq withLock_def Let_def rotateIfNeeded_def appendBytes_def
      room_for_def fileSize_def split: if_splits sum.splits option.splits)

lemma wal_append_envelope:
  assumes "envelope_ok e" and "room_for (envelope_json e) w"
    and "wal_enqueue env (envelope_json e) w = (Inr r, w')"
  shows "wal_append env (JSON_stringify (envelope_json e)) w = Some w'"
  using assms parse_stringify [OF json_wf_envelope [OF assms(1)]] by (simp add: wal_append_def)

lemma replay_after_append:
  assumes "wal_healthy w" and "envelope_ok e" and "room_for (envelope_json e) w"
    and "wal_enqueue env (envelope_json e) w = (Inr r, w')"
  shows "replay_of w' = apply_envelope e (replay_of w) \<and> wal_healthy w'"
proof -
  have app: "wal_append env (JSON_stringify (envelope_json e)) w = Some w'"
    using assms by (intro wal_append_envelope)
  show ?thesis
    using wal_log.mirror_step [OF assms(1) app refl, of apply_record replay_start]
    by (simp add: replay_of_def apply_record_envelope parse_envelope_json [OF assms(2)])
qed

lemma replay_of_cong: "walFile w' = walFile w \<Longrightarrow> replay_of w' = replay_of w \<and> wal_healthy w' = wal_healthy w"
  by (simp add: replay_of_def wal_payloads_def wal_healthy_def)

definition synced :: "TaskQueueService \<Rightarrow> bool" where
  "synced s \<longleftrightarrow> walMode (queueWal s) = Financial \<longrightarrow> walSynced (queueWal s) = fileSize (queueWal s)"

definition queue_wf :: "TaskQueueService \<Rightarrow> bool" where
  "queue_wf s \<longleftrightarrow> wf_map (pending s) \<and> distinct (recoveredTaskIds s) \<and>
     set (recoveredTaskIds s) \<subseteq> set (keys (pending s)) \<and> ids_match (pending s)"

section \<open>Runs of the service\<close>

text \<open>
  A run of enqueue and finish calls, failed ones included. Identifiers are fresh, as \<open>randomUUID\<close>
  makes them. With \<open>fits\<close> the log never has to rotate.
\<close>

inductive queue_run :: "(nat \<Rightarrow> wal_env) \<Rightarrow> bool \<Rightarrow> TaskQueueService \<Rightarrow> TaskQueueService \<Rightarrow> bool"
  for env fits s where
  run_start: "queue_run env fits s s"
| run_enqueue:
    "queue_run env fits s t \<Longrightarrow> queue_enqueue env tid now task t = (res, u) \<Longrightarrow>
     json_wf task \<Longrightarrow> is_task task \<Longrightarrow> tid \<notin> set (keys (pending t)) \<Longrightarrow>
     (fits \<Longrightarrow> room_for (envelope_json (EnqueueOp tid now task)) (queueWal t)) \<Longrightarrow>
     queue_run env fits s u"
| run_finish:
    "queue_run env fits s t \<Longrightarrow> queue_finish env now tid st meta t = (res', u) \<Longrightarrow>
     (case meta of None \<Rightarrow> True | Some m \<Rightarrow> json_wf m) \<Longrightarrow>
     (fits \<Longrightarrow> room_for (envelope_json (FinishOp tid st now meta)) (queueWal t)) \<Longrightarrow>
     queue_run env fits s u"

lemma enqueue_mirrors:
  assumes "queue_enqueue env tid now task t = (res, u)" and "json_wf task" and "is_task task"
    and "room_for (envelope_json (EnqueueOp tid now task)) (queueWal t)" and "mirrors t" and "synced t"
  shows "mirrors u \<and> synced u"
proof (cases "maxPendingTasks t \<le> length (pending t)")
  case True
  then show ?thesis using assms by (auto simp: queue_enqueue_def)
next
  case False
  let ?e = "EnqueueOp tid now task"
  obtain r w where w: "wal_enqueue env (envelope_json ?e) (queueWal t) = (r, w)" by fastforce
  show ?thesis
  proof (cases r)
    case (Inl err)
    then show ?thesis
      using assms w False wal_enqueue_error [OF assms(4), of env err w]
      by (auto simp: queue_enqueue_def mirrors_def synced_def fileSize_def dest: replay_of_cong)
  next
    case (Inr rec)
    note room = wal_enqueue_room [OF assms(4) w [unfolded Inr]]
    have "replay_of w = apply_envelope ?e (replay_of (queueWal t)) \<and> wal_healthy w"
      using assms w Inr by (intro replay_after_append) (auto simp: mirrors_def)
    then show ?thesis
      using assms w False Inr room(3,6) by (auto simp: queue_enqueue_def mirrors_def synced_def)
  qed
qed

lemma finish_mirrors:
  assumes "queue_finish env now tid st meta t = (res, u)" and "case meta of None \<Rightarrow> True | Some m \<Rightarrow> json_wf m"
    and "room_for (envelope_json (FinishOp tid st now meta)) (queueWal t)" and "mirrors t" and "synced t"
  shows "mirrors u \<and> synced u"
proof (cases "map_of (pending t) tid")
  case None
  then show ?thesis using assms by (auto simp: queue_finish_def)
next
  case (Some x)
  let ?e = "FinishOp tid st now meta"
  obtain r w where w: "wal_enqueue env (envelope_json ?e) (queueWal t) = (r, w)" by fastforce
  show ?thesis
  proof (cases r)
    case (Inl err)
    then show ?thesis
      using assms w Some wal_enqueue_error [OF assms(3), of env err w]
      by (auto simp: queue_finish_def mirrors_def synced_def fileSize_def dest: replay_of_cong)
  next
    case (Inr rec)
    note room = wal_enqueue_room [OF assms(3) w [unfolded Inr]]
    have "replay_of w = apply_envelope ?e (replay_of (queueWal t)) \<and> wal_healthy w"
      using assms w Inr by (intro replay_after_append) (auto simp: mirrors_def)
    then show ?thesis
      using assms w Some Inr room(3,6) by (auto simp: queue_finish_def mirrors_def synced_def)
  qed
qed

lemma run_mirrors: "queue_run env True s t \<Longrightarrow> mirrors s \<Longrightarrow> synced s \<Longrightarrow> mirrors t \<and> synced t"
proof (induction rule: queue_run.induct)
  case run_start
  then show ?case by simp
next
  case (run_enqueue t tid now task res u)
  then show ?case using enqueue_mirrors by blast
next
  case (run_finish t now tid st meta res' u)
  then show ?case using finish_mirrors by blast
qed

section \<open>Starting the service\<close>

lemma recover_log:
  assumes "recoverAndRead env w = (Inr rs, w')" and "walFile w = Some (log_bytes ps)" and "list_all fits32 ps"
  shows "rs = records_at 0 ps \<and> walFile w' = Some (log_bytes ps) \<and> walSynced w' = walSynced w \<and>
    walMode w' = walMode w"
  using assms
  by (auto simp: recoverAndRead_def withLock_def ensureActiveWal_def Let_def parseRecords_log_bytes
      split: sum.splits)

definition replay_records :: "WalRecord list \<Rightarrow> replayed" where
  "replay_records rs = fold (\<lambda>x. apply_record (payload x)) rs replay_start"

lemma replay_records_eq: "replay_records rs = fold apply_record (map payload rs) replay_start"
  by (simp add: replay_records_def fold_map comp_def)

definition wal_of_start where
  "wal_of_start path m mb f file =
     newTaskQueueWal path None (Some (case m of None \<Rightarrow> Financial | Some x \<Rightarrow> x)) mb None f file"

lemma start_cases:
  assumes "newTaskQueueService env path m mp mb f pol file = Inr s"
  obtains rs w' where "recoverAndRead env (wal_of_start path m mb f file) = (Inr rs, w')"
    and "queueWal s = w'" and "pending s = rp_pending (replay_records rs)"
    and "recoveredTaskIds s = rp_recovered (replay_records rs)"
    and "totalEnqueued s = rp_enqueued (replay_records rs)"
    and "totalFinished s = rp_finished (replay_records rs)"
proof -
  obtain r w' where r: "recoverAndRead env (wal_of_start path m mb f file) = (r, w')" by fastforce
  have "(case r of Inl err \<Rightarrow> Inl (WalFailure err) | Inr rs \<Rightarrow>
      Inr \<lparr>queueWal = w', queueMode = (case m of None \<Rightarrow> Financial | Some x \<Rightarrow> x),
        maxPendingTasks = (case mp of None \<Rightarrow> 100 | Some n \<Rightarrow> n),
        defaultResumePolicy = (case pol of None \<Rightarrow> Keep | Some p \<Rightarrow> p),
        pending = rp_pending (replay_records rs), recoveredTaskIds = rp_recovered (replay_records rs),
        lastResume = None, totalEnqueued = rp_enqueued (replay_records rs),
        totalFinished = rp_finished (replay_records rs)\<rparr>) = (Inr s :: (queue_error, TaskQueueService) result)"
    using assms r by (cases r) (simp_all add: newTaskQueueService_def wal_of_start_def Let_def replay_records_def)
  then show thesis using r that by (cases r) auto
qed

lemma start_on_log:
  assumes "newTaskQueueService env path m mp mb f pol (Some (log_bytes ps)) = Inr s" and "list_all fits32 ps"
  shows "pending s = rp_pending (fold apply_record ps replay_start)"
    and "recoveredTaskIds s = rp_recovered (fold apply_record ps replay_start)"
    and "totalEnqueued s = rp_enqueued (fold apply_record ps replay_start)"
    and "totalFinished s = rp_finished (fold apply_record ps replay_start)"
    and "mirrors s" and "synced s"
proof -
  let ?w = "wal_of_start path m mb f (Some (log_bytes ps))"
  obtain rs w' where rec: "recoverAndRead env ?w = (Inr rs, w')" and wal: "queueWal s = w'"
    and r1: "pending s = rp_pending (replay_records rs)"
    and r2: "recoveredTaskIds s = rp_recovered (replay_records rs)"
    and r3: "totalEnqueued s = rp_enqueued (replay_records rs)"
    and r4: "totalFinished s = rp_finished (replay_records rs)"
    by (rule start_cases [OF assms(1)])
  have w: "walFile ?w = Some (log_bytes ps)" "walSynced ?w = length (log_bytes ps)"
    by (simp_all add: wal_of_start_def newTaskQueueWal_def ensureActiveWal_def)
  note r = recover_log [OF rec w(1) assms(2)]
  then have rr: "replay_records rs = fold apply_record ps replay_start" by (simp add: replay_records_eq)
  show "pending s = rp_pending (fold apply_record ps replay_start)"
    and "recoveredTaskIds s = rp_recovered (fold apply_record ps replay_start)"
    and "totalEnqueued s = rp_enqueued (fold apply_record ps replay_start)"
    and "totalFinished s = rp_finished (fold apply_record ps replay_start)"
    by (simp_all add: r1 r2 r3 r4 rr)
  have "wal_payloads w' = ps" "wal_healthy w'"
    using r assms(2) by (auto simp: wal_healthy_def intro: wal_payloads_log)
  then show "mirrors s" by (simp add: mirrors_def replay_of_def wal r1 r3 r4 rr)
  show "synced s" using r w(2) by (simp add: synced_def fileSize_def wal)
qed

lemma start_wf:
  assumes "newTaskQueueService env path m mp mb f pol file = Inr s"
  shows "queue_wf s"
proof -
  obtain rs where "pending s = rp_pending (replay_records rs)"
    "recoveredTaskIds s = rp_recovered (replay_records rs)"
    using start_cases [OF assms] by metis
  moreover have "replay_wf (replay_records rs)"
    by (simp add: replay_records_eq replay_wf_fold)
  ultimately show ?thesis by (auto simp: replay_wf_def queue_wf_def wf_map_def)
qed

lemma enqueue_wf: "queue_wf s \<Longrightarrow> queue_enqueue env tid now task s = (r, s') \<Longrightarrow> queue_wf s'"
  by (auto simp: queue_enqueue_def queue_wf_def keys_update ids_match_update
      split: if_splits prod.splits sum.splits)

lemma finish_wf: "queue_wf s \<Longrightarrow> queue_finish env now tid st meta s = (r, s') \<Longrightarrow> queue_wf s'"
  by (auto simp: queue_finish_def queue_wf_def keys_delete distinct_removeAll ids_match_delete
      split: option.splits prod.splits sum.splits)

lemma run_wf: "queue_run env fits s t \<Longrightarrow> queue_wf s \<Longrightarrow> queue_wf t"
  by (induction rule: queue_run.induct) (blast intro: enqueue_wf finish_wf)+

section \<open>The resume pass\<close>

definition settled :: "TaskQueueResumeResult \<Rightarrow> nat" where
  "settled out = rr_redispatched out + rr_failed out + rr_canceled out + rr_kept out"

lemma finish_ok:
  "queue_finish env now tid st meta s = (Inr b, s') \<Longrightarrow>
    pending s' = AList.delete tid (pending s) \<and>
    removeAll tid (recoveredTaskIds s') = removeAll tid (recoveredTaskIds s)"
  by (auto simp: queue_finish_def delete_idem map_of_eq_None_iff keys_def split: option.splits prod.splits sum.splits)

lemma finish_err:
  "queue_finish env now tid st meta s = (Inl e, s') \<Longrightarrow>
    pending s' = pending s \<and> recoveredTaskIds s' = recoveredTaskIds s"
  by (auto simp: queue_finish_def split: option.splits prod.splits sum.splits)

definition one_settled :: "string \<Rightarrow> TaskQueueResumeResult \<Rightarrow> TaskQueueService \<Rightarrow>
    TaskQueueResumeResult \<Rightarrow> TaskQueueService \<Rightarrow> bool" where
  "one_settled tid out s out' s' \<longleftrightarrow>
     pending s' = AList.delete tid (pending s) \<and>
     recoveredTaskIds s' = removeAll tid (recoveredTaskIds s) \<and>
     settled out' = settled out + 1 \<and> rr_scanned out' = rr_scanned out \<and>
     rr_kept out' = rr_kept out"

lemma forget_settled:
  "queue_finish env now tid st meta s = (Inr b, s') \<Longrightarrow> settled out' = settled out + 1 \<Longrightarrow>
    rr_scanned out' = rr_scanned out \<Longrightarrow> rr_kept out' = rr_kept out \<Longrightarrow>
    one_settled tid out s out' (finally_forget tid s')"
  using finish_ok [of env now tid st meta s b s'] by (simp add: one_settled_def finally_forget_def)

lemma count_status_settled:
  "settled (count_status st out) = settled out + 1" "rr_scanned (count_status st out) = rr_scanned out"
  "rr_kept (count_status st out) = rr_kept out"
  by (cases st; simp add: settled_def)+

lemma resume_catch_ok:
  "resume_catch env now t msg out s = (Inr out', s') \<Longrightarrow> one_settled (pt_taskId t) out s out' s'"
  unfolding resume_catch_def
  by (auto split: prod.splits sum.splits intro!: forget_settled simp: settled_def)

lemma resume_one_ok:
  assumes "resume_one env now policy redispatch t out s = (Inr out', s')"
  shows "one_settled (pt_taskId t) out s out' s'"
proof -
  have attempt: "one_settled (pt_taskId t) out s out' s'"
    if "(case queue_finish env now (pt_taskId t) st (resume_metadata reason None) s of
              (Inl err, s') \<Rightarrow>
                if err = WalFailure LockPending then (Inl err, s')
                else resume_catch env now t (queue_error_text s' err) out s'
            | (Inr _, s') \<Rightarrow> (Inr (count_status st out), finally_forget (pt_taskId t) s')) = (Inr out', s')"
    for st reason
  proof -
    obtain r u where f: "queue_finish env now (pt_taskId t) st (resume_metadata reason None) s = (r, u)"
      by fastforce
    show ?thesis
    proof (cases r)
      case (Inl err)
      then have "resume_catch env now t (queue_error_text u err) out u = (Inr out', s')"
        using that f by (auto split: if_splits)
      then have "one_settled (pt_taskId t) out u out' s'" by (rule resume_catch_ok)
      then show ?thesis using finish_err [OF f [unfolded Inl]] by (simp add: one_settled_def)
    next
      case (Inr b)
      then show ?thesis
        using that f forget_settled [OF f [unfolded Inr]] by (auto simp: count_status_settled)
    qed
  qed
  show ?thesis
    using assms attempt resume_catch_ok
    by (auto simp: resume_one_def Let_def split: if_splits sum.splits)
qed

lemma delete_filter: "AList.delete k m = filter (\<lambda>(k', _). k' \<noteq> k) m"
  by (induction m) auto

lemma resume_loop_ok:
  "resume_loop env now policy redispatch ts out s = (Inr out', s') \<Longrightarrow>
     pending s' = filter (\<lambda>(k, _). k \<notin> pt_taskId ` set ts) (pending s) \<and>
     recoveredTaskIds s' = filter (\<lambda>k. k \<notin> pt_taskId ` set ts) (recoveredTaskIds s) \<and>
     settled out' = settled out + length ts \<and> rr_scanned out' = rr_scanned out"
proof (induction ts arbitrary: out s)
  case Nil
  then show ?case by (auto simp: case_prod_beta)
next
  case (Cons t ts)
  obtain out1 s1 where one: "resume_one env now policy redispatch t out s = (Inr out1, s1)"
    and loop: "resume_loop env now policy redispatch ts out1 s1 = (Inr out', s')"
    using Cons.prems by (auto split: prod.splits sum.splits)
  note o = resume_one_ok [OF one]
  have "filter (\<lambda>(k, _). k \<notin> pt_taskId ` set ts) (filter (\<lambda>(k', _). k' \<noteq> pt_taskId t) (pending s)) =
      filter (\<lambda>(k, _). k \<notin> pt_taskId ` set (t # ts)) (pending s)"
    by (auto simp: filter_filter intro!: filter_cong)
  moreover have "filter (\<lambda>k. k \<notin> pt_taskId ` set ts) (removeAll (pt_taskId t) (recoveredTaskIds s)) =
      filter (\<lambda>k. k \<notin> pt_taskId ` set (t # ts)) (recoveredTaskIds s)"
    by (auto simp: removeAll_filter_not_eq filter_filter intro!: filter_cong)
  ultimately show ?case
    using Cons.IH [OF loop] o by (simp add: one_settled_def delete_filter)
qed

lemma listPending_ids:
  assumes "queue_wf s"
  shows "mset (map pt_taskId (listPending lc s)) = mset (keys (pending s))"
proof -
  have "map pt_taskId (map snd (pending s)) = keys (pending s)"
    using assms by (auto simp: queue_wf_def ids_match_def keys_def intro!: map_cong)
  then have "image_mset pt_taskId (mset (map snd (pending s))) = mset (keys (pending s))"
    by (metis mset_map)
  then show ?thesis by (simp add: listPending_def mset_map)
qed

lemma recovered_tasks:
  fixes lc :: "string \<Rightarrow> string \<Rightarrow> int"
  assumes "queue_wf s"
  shows "pt_taskId ` set (filter (\<lambda>t. pt_taskId t \<in> set (recoveredTaskIds s)) (listPending lc s)) =
      set (recoveredTaskIds s)" (is "?img = _")
    and "length (filter (\<lambda>t. pt_taskId t \<in> set (recoveredTaskIds s)) (listPending lc s)) =
      length (recoveredTaskIds s)" (is "length ?rec = _")
proof -
  note ids = listPending_ids [OF assms, of lc]
  have set: "pt_taskId ` set (listPending lc s) = set (keys (pending s))"
    using mset_eq_setD [OF ids] by simp
  have dist: "distinct (map pt_taskId (listPending lc s))"
    using mset_eq_imp_distinct_iff [OF ids] assms by (simp add: queue_wf_def wf_map_def)
  have sub: "set (recoveredTaskIds s) \<subseteq> pt_taskId ` set (listPending lc s)"
    using assms unfolding set by (simp add: queue_wf_def)
  then show img: "?img = set (recoveredTaskIds s)" by auto
  have "distinct (map pt_taskId ?rec)" using dist by (simp add: distinct_map_filter)
  then have "length ?rec = card ?img" by (metis distinct_card length_map set_map)
  also have "\<dots> = length (recoveredTaskIds s)"
    using assms unfolding img by (simp add: distinct_card queue_wf_def)
  finally show "length ?rec = length (recoveredTaskIds s)" .
qed

section \<open>Properties\<close>

text \<open>
  C1: Whatever sequence of enqueue and finish calls a service in financial mode has made, failed
  calls included, and however a crash cuts the log, the service that starts on the file left
  behind has exactly the same pending tasks in the same order, marks all of them as recovered
  and counts the same totals, as long as the log never had to rotate.
\<close>

theorem queue_survives_crash:
  assumes "newTaskQueueService env0 path (Some Financial) maxP maxB fault pol (Some []) = Inr s0"
    and "queue_run env True s0 s"
    and "walMode (queueWal s) = Financial" and "crash_image (queueWal s) n b"
    and "newTaskQueueService env1 path1 mode1 maxP1 maxB1 fault1 pol1 (Some b) = Inr s'"
  shows "pending s' = pending s \<and> recoveredTaskIds s' = keys (pending s) \<and>
    totalEnqueued s' = totalEnqueued s \<and> totalFinished s' = totalFinished s"
proof -
  have "mirrors s0" "synced s0"
    using start_on_log [of env0 path "Some Financial" maxP maxB fault pol "[]" s0] assms(1) by auto
  then have m: "mirrors s" "synced s" using run_mirrors [OF assms(2)] by auto
  then obtain ps where ps: "list_all fits32 ps" "walFile (queueWal s) = Some (log_bytes ps)"
    by (auto simp: mirrors_def wal_healthy_def)
  have b: "b = log_bytes ps"
    using assms(3,4) m(2) ps(2) by (auto simp: crash_image_def synced_def fileSize_def)
  have r: "replay_of (queueWal s) = fold apply_record ps replay_start"
    using wal_payloads_log [OF ps] by (simp add: replay_of_def)
  note start = start_on_log [OF assms(5) [unfolded b] ps(1)]
  have "replay_wf (fold apply_record ps replay_start)" by (simp add: replay_wf_fold)
  then show ?thesis using start m(1) by (simp add: mirrors_def r replay_wf_def)
qed

text \<open>
  When an append makes the log rotate, the new log file holds the new task alone: a service that
  starts on it has lost every task that was pending before, although none of them was finished.
\<close>

theorem queue_rotation_forgets_pending:
  assumes "queue_enqueue env tid now task s = (Inr ticket, s1)"
    and "json_wf task" and "is_task task"
    and "\<not> room_for (envelope_json (EnqueueOp tid now task)) (queueWal s)"
    and "newTaskQueueService env1 path1 mode1 maxP1 maxB1 fault1 pol1 (walFile (queueWal s1)) = Inr s'"
  shows "map_of (pending s1) = (map_of (pending s))(tid \<mapsto> \<lparr>pt_taskId = tid, pt_enqueuedAt = now, pt_task = task\<rparr>) \<and>
    pending s' = [(tid, \<lparr>pt_taskId = tid, pt_enqueuedAt = now, pt_task = task\<rparr>)]"
proof -
  let ?e = "EnqueueOp tid now task" and ?v = "envelope_json (EnqueueOp tid now task)"
  obtain r w where w: "wal_enqueue env ?v (queueWal s) = (Inr r, w)"
    and s1: "queueWal s1 = w"
      "pending s1 = AList.update tid \<lparr>pt_taskId = tid, pt_enqueuedAt = now, pt_task = task\<rparr> (pending s)"
    using assms(1) by (auto simp: queue_enqueue_def split: if_splits prod.splits sum.splits)
  have newfile: "walFile w = Some (log_bytes [JSON_stringify ?v])" and fit: "fits32 (JSON_stringify ?v)"
    using w assms(4)
    by (auto simp: wal_enqueue_def encodeRecord_eq withLock_def Let_def rotateIfNeeded_def appendBytes_def
        room_for_def fileSize_def split: if_splits sum.splits option.splits)
  have "fold apply_record [JSON_stringify ?v] replay_start = apply_envelope ?e replay_start"
    using assms(2,3) parse_envelope_json [of ?e] by (simp add: apply_record_envelope)
  moreover have "pending s' = rp_pending (fold apply_record [JSON_stringify ?v] replay_start)"
    using start_on_log(1) [of env1 path1 mode1 maxP1 maxB1 fault1 pol1 "[JSON_stringify ?v]" s']
      assms(5) fit by (simp only: s1 newfile) simp
  ultimately show ?thesis by (simp add: s1 map_of_update replay_start_def)
qed

text \<open>
  No task is lost or counted twice in memory: after any run, rotations and failed calls included,
  the tasks ever enqueued are the finished ones and the pending ones, and the table never holds
  more than the configured maximum when it started within it.
\<close>

theorem queue_accounts_for_every_task:
  assumes "queue_run env False s0 s" and "queue_wf s0"
    and "totalEnqueued s0 = totalFinished s0 + length (pending s0)"
    and "length (pending s0) \<le> maxPendingTasks s0"
  shows "totalEnqueued s = totalFinished s + length (pending s) \<and>
    length (pending s) \<le> maxPendingTasks s \<and> maxPendingTasks s = maxPendingTasks s0"
  using assms
proof (induction rule: queue_run.induct)
  case run_start
  then show ?case by simp
next
  case (run_enqueue t tid now task res u)
  then show ?case
    by (auto simp: queue_enqueue_def length_update split: if_splits prod.splits sum.splits)
next
  case (run_finish t now tid st meta res' u)
  have wf: "wf_map (pending t)"
    using run_wf [OF run_finish.hyps(1) run_finish.prems(1)] by (simp add: queue_wf_def)
  have "Suc (length (AList.delete tid (pending t))) = length (pending t)" if "map_of (pending t) tid = Some x" for x
    using length_delete_mem [OF wf] that map_of_SomeD' by metis
  then show ?case
    using run_finish by (auto simp: queue_finish_def split: option.splits prod.splits sum.splits)
qed

text \<open>
  The resume pass settles every recovered task exactly once: afterwards no task is marked as
  recovered, each scanned task is counted in exactly one of redispatched, failed, canceled and
  kept, and the tasks not kept have left the table while all others stay.
\<close>

theorem queue_resume_settles_recovered:
  assumes "queue_wf s" and "resumeRecoveredPending lc env now policyOpt handler s = (Inr out, s')"
  shows "recoveredTaskIds s' = [] \<and> rr_scanned out = length (recoveredTaskIds s) \<and>
    rr_redispatched out + rr_failed out + rr_canceled out + rr_kept out = rr_scanned out \<and>
    (rr_kept out = 0 \<longrightarrow> pending s' = filter (\<lambda>(k, _). k \<notin> set (recoveredTaskIds s)) (pending s)) \<and>
    (rr_kept out \<noteq> 0 \<longrightarrow> pending s' = pending s)"
proof -
  define rec where "rec = filter (\<lambda>t. pt_taskId t \<in> set (recoveredTaskIds s)) (listPending lc s)"
  note rc = recovered_tasks [OF assms(1), of lc, folded rec_def]
  define policy where "policy = (case policyOpt of None \<Rightarrow> defaultResumePolicy s | Some p \<Rightarrow> p)"
  let ?out = "\<lparr>rr_policy = policy, rr_scanned = length rec, rr_redispatched = 0, rr_failed = 0,
    rr_canceled = 0, rr_kept = 0, rr_errors = []\<rparr>"
  consider "rec = []" | "rec \<noteq> []" "policy = Keep \<or> policy = Redispatch \<and> handler = None"
    | "rec \<noteq> []" "\<not> (policy = Keep \<or> policy = Redispatch \<and> handler = None)" by blast
  then show ?thesis
  proof cases
    case 1
    then have "recoveredTaskIds s = []" using rc by simp
    moreover have "out = ?out \<and> s' = recordLastResume now ?out s"
      using assms(2) 1 by (auto simp: resumeRecoveredPending_def Let_def rec_def policy_def)
    ultimately show ?thesis using 1 by (simp add: recordLastResume_def case_prod_beta)
  next
    case 2
    then have "rr_kept out = length rec \<and> rr_scanned out = length rec \<and> rr_redispatched out = 0 \<and>
        rr_failed out = 0 \<and> rr_canceled out = 0 \<and> pending s' = pending s \<and> recoveredTaskIds s' = []"
      using assms(2)
      by (auto simp: resumeRecoveredPending_def Let_def rec_def [symmetric] policy_def [symmetric]
          recordLastResume_def split: if_splits)
    then show ?thesis using 2 rc by simp
  next
    case 3
    obtain f s1 where loop: "resume_loop env now policy f rec ?out s = (Inr out, s1)"
      and s': "s' = recordLastResume now out s1"
      using assms(2) 3
      by (auto simp: resumeRecoveredPending_def Let_def rec_def [symmetric] policy_def [symmetric]
          split: if_splits prod.splits sum.splits)
    note l = resume_loop_ok [OF loop]
    have kept: "rr_kept out = 0"
      using loop
    proof -
      have "resume_loop env now policy f ts o1 u = (Inr o2, u') \<Longrightarrow> rr_kept o2 = rr_kept o1" for ts o1 u o2 u'
        by (induction ts arbitrary: o1 u)
           (auto split: prod.splits sum.splits dest!: resume_one_ok simp: one_settled_def)
      with loop show ?thesis by fastforce
    qed
    show ?thesis
      using l rc kept by (simp add: s' recordLastResume_def settled_def)
  qed
qed

section \<open>Concrete runs\<close>

definition demo_task :: json where
  "demo_task = JObj [(''type'', JStr ''t'')]"

lemma demo_task_ok [simp]: "json_wf demo_task" "is_task demo_task"
  by (simp_all add: demo_task_def is_task_def)

declare envelope_json.simps [simp del]

lemma demo_text_length:
  "length (JSON_stringify (envelope_json (EnqueueOp ''a'' ''n'' demo_task))) = 66"
  "length (JSON_stringify (envelope_json (EnqueueOp ''b'' ''n'' demo_task))) = 66"
  unfolding envelope_json.simps demo_task_def
  by (simp_all add: JSON_stringify_def text_of_def escape_char_def code_def colon_def newline_def)

definition demo_queue :: "nat \<Rightarrow> string list \<Rightarrow> TaskQueueService" where
  "demo_queue mb ps =
     \<lparr>queueWal = \<lparr>walMode = Financial, lockPath = ''q.lock'', maxWalBytes = mb, lockTimeoutMs = 2000,
         faultInject = None, walFile = Some (log_bytes ps), walArchives = [], walTmp = None,
         walSynced = length (log_bytes ps), walOps = 1\<rparr>,
      queueMode = Financial, maxPendingTasks = 100, defaultResumePolicy = Keep,
      pending = rp_pending (fold apply_record ps replay_start),
      recoveredTaskIds = rp_recovered (fold apply_record ps replay_start), lastResume = None,
      totalEnqueued = rp_enqueued (fold apply_record ps replay_start),
      totalFinished = rp_finished (fold apply_record ps replay_start)\<rparr>"

lemma start_demo:
  assumes "list_all fits32 ps"
  shows "newTaskQueueService free_env ''q'' (Some Financial) None (Some mb) None None (Some (log_bytes ps)) =
    Inr (demo_queue mb ps)"
proof -
  have "fold (\<lambda>x. apply_record (payload x)) (records_at 0 ps) r = fold apply_record ps r" for r
    using fold_map [of apply_record payload "records_at 0 ps"] by (simp add: comp_def)
  then show ?thesis
    using assms
    by (simp add: newTaskQueueService_def newTaskQueueWal_def recoverAndRead_def withLock_def free_env_def
        ensureActiveWal_def Let_def parseRecords_log_bytes demo_queue_def)
qed

lemma enqueue_free:
  assumes "fits32 (JSON_stringify (envelope_json (EnqueueOp tid now task)))"
    and "faultInject (queueWal s) = None" and "length (pending s) < maxPendingTasks s"
  shows "\<exists>u. queue_enqueue free_env tid now task s = (Inr \<lparr>qt_taskId = tid, qt_enqueuedAt = now\<rparr>, u)"
proof -
  obtain r w where w: "wal_enqueue free_env (envelope_json (EnqueueOp tid now task)) (queueWal s) = (r, w)"
    by fastforce
  moreover from this have "\<exists>x. r = Inr x"
    using assms(1,2)
    by (auto simp: wal_enqueue_def encodeRecord_eq withLock_def free_env_def Let_def rotateIfNeeded_def
        appendBytes_def split: if_splits)
  ultimately show ?thesis using assms(3) by (auto simp: queue_enqueue_def)
qed

lemma demo_enqueue_queue:
  "\<exists>u. queue_enqueue free_env ''a'' ''n'' demo_task (demo_queue mb []) =
     (Inr \<lparr>qt_taskId = ''a'', qt_enqueuedAt = ''n''\<rparr>, u)"
  by (rule enqueue_free) (simp_all add: fits32_def demo_text_length demo_queue_def replay_start_def)

lemma demo_room: "room_for (envelope_json (EnqueueOp ''a'' ''n'' demo_task)) (queueWal (demo_queue 1000 []))"
  unfolding room_for_def demo_text_length by (simp add: demo_queue_def fileSize_def)

theorem queue_survives_crash_witness:
  "\<exists>s b s'. queue_run free_env True (demo_queue 1000 []) s \<and> crash_image (queueWal s) 80 b \<and>
     newTaskQueueService free_env ''q'' (Some Financial) None (Some 1000) None None (Some b) = Inr s' \<and>
     keys (pending s') = [''a''] \<and> pending s' = pending s"
proof -
  have start: "newTaskQueueService free_env ''q'' (Some Financial) None (Some 1000) None None (Some []) =
      Inr (demo_queue 1000 [])"
    using start_demo [of "[]" 1000] by simp
  obtain u where u: "queue_enqueue free_env ''a'' ''n'' demo_task (demo_queue 1000 []) =
      (Inr \<lparr>qt_taskId = ''a'', qt_enqueuedAt = ''n''\<rparr>, u)"
    using demo_enqueue_queue by blast
  have run: "queue_run free_env True (demo_queue 1000 []) u"
    by (rule run_enqueue [OF run_start u _ _ _ demo_room])
       (auto simp: demo_queue_def replay_start_def keys_def)
  have keys: "keys (pending u) = [''a'']"
    using u by (auto simp: queue_enqueue_def demo_queue_def replay_start_def keys_def
        split: prod.splits sum.splits)
  obtain w r where w: "wal_enqueue free_env (envelope_json (EnqueueOp ''a'' ''n'' demo_task))
      (queueWal (demo_queue 1000 [])) = (Inr r, w)" "queueWal u = w"
    using u by (auto simp: queue_enqueue_def split: if_splits prod.splits sum.splits)
  note room = wal_enqueue_room [OF demo_room w(1)]
  let ?b = "log_bytes [JSON_stringify (envelope_json (EnqueueOp ''a'' ''n'' demo_task))]"
  have fin: "walMode w = Financial" "walFile w = Some ?b" "walSynced w = 74"
    using room(2,3,6) by (simp_all add: demo_queue_def fileSize_def demo_text_length)
  have crash: "crash_image (queueWal u) 80 ?b"
    using fin by (simp add: crash_image_def w(2) demo_text_length)
  have again: "newTaskQueueService free_env ''q'' (Some Financial) None (Some 1000) None None (Some ?b) =
      Inr (demo_queue 1000 [JSON_stringify (envelope_json (EnqueueOp ''a'' ''n'' demo_task))])"
    using room(1) by (intro start_demo) simp
  show ?thesis
    using queue_survives_crash [OF start run _ crash again] keys fin(1) w(2)
    by (intro exI conjI, rule_tac [1] run, rule_tac [1] crash, rule_tac [1] again) auto
qed

theorem queue_rotation_forgets_pending_witness:
  "\<exists>s s1 s'. keys (pending s) = [''a''] \<and>
     queue_enqueue free_env ''b'' ''n'' demo_task s = (Inr \<lparr>qt_taskId = ''b'', qt_enqueuedAt = ''n''\<rparr>, s1) \<and>
     newTaskQueueService free_env ''q'' (Some Financial) None None None None (walFile (queueWal s1)) = Inr s' \<and>
     keys (pending s') = [''b'']"
proof -
  let ?a = "JSON_stringify (envelope_json (EnqueueOp ''a'' ''n'' demo_task))"
  let ?vb = "envelope_json (EnqueueOp ''b'' ''n'' demo_task)"
  define s where "s = demo_queue 100 [?a]"
  note lb = demo_text_length(2)
  have pend: "pending s = [(''a'', \<lparr>pt_taskId = ''a'', pt_enqueuedAt = ''n'', pt_task = demo_task\<rparr>)]"
    using parse_envelope_json [of "EnqueueOp ''a'' ''n'' demo_task"]
    by (simp add: s_def demo_queue_def apply_record_envelope replay_start_def)
  obtain u where u: "queue_enqueue free_env ''b'' ''n'' demo_task s =
      (Inr \<lparr>qt_taskId = ''b'', qt_enqueuedAt = ''n''\<rparr>, u)"
    using enqueue_free [of "''b''" "''n''" demo_task s] lb pend
    by (auto simp: fits32_def s_def demo_queue_def)
  have rot: "\<not> room_for ?vb (queueWal s)"
    unfolding room_for_def lb by (simp add: s_def demo_queue_def fileSize_def demo_text_length)
  have newfile: "walFile (queueWal u) = Some (log_bytes [JSON_stringify ?vb])"
    using u rot
    by (auto simp: queue_enqueue_def wal_enqueue_def encodeRecord_eq withLock_def Let_def rotateIfNeeded_def
        appendBytes_def room_for_def fileSize_def s_def demo_queue_def free_env_def split: if_splits)
  have again: "newTaskQueueService free_env ''q'' (Some Financial) None None None None (walFile (queueWal u)) =
      Inr ((demo_queue 100 [JSON_stringify ?vb])\<lparr>queueWal :=
        (queueWal (demo_queue 100 [JSON_stringify ?vb]))\<lparr>maxWalBytes := 10 * 1024 * 1024\<rparr>\<rparr>)"
    using start_demo [of "[JSON_stringify ?vb]" "10 * 1024 * 1024"] lb
    by (simp add: newfile fits32_def demo_queue_def newTaskQueueService_def newTaskQueueWal_def)
  show ?thesis
    using queue_rotation_forgets_pending [OF u _ _ rot again] pend
    by (intro exI conjI, rule_tac [2] u, rule_tac [2] again) (auto simp: keys_def)
qed

theorem queue_accounts_witness:
  "\<exists>s. queue_run free_env False (demo_queue 1000 []) s \<and> totalEnqueued s = 1 \<and>
     totalEnqueued s = totalFinished s + length (pending s)"
proof -
  obtain u where u: "queue_enqueue free_env ''a'' ''n'' demo_task (demo_queue 1000 []) =
      (Inr \<lparr>qt_taskId = ''a'', qt_enqueuedAt = ''n''\<rparr>, u)"
    using demo_enqueue_queue by blast
  have run: "queue_run free_env False (demo_queue 1000 []) u"
    by (rule run_enqueue [OF run_start u]) (auto simp: demo_queue_def replay_start_def keys_def)
  have one: "totalEnqueued u = 1"
    using u by (auto simp: queue_enqueue_def demo_queue_def replay_start_def split: prod.splits sum.splits)
  have "queue_wf (demo_queue 1000 [])"
    by (simp add: queue_wf_def demo_queue_def replay_start_def ids_match_def)
  from queue_accounts_for_every_task [OF run this] one run show ?thesis
    by (auto simp: demo_queue_def replay_start_def)
qed

definition demo_recovered :: TaskQueueService where
  "demo_recovered = (demo_queue 1000 [])\<lparr>
     pending := [(''a'', \<lparr>pt_taskId = ''a'', pt_enqueuedAt = ''n'', pt_task = demo_task\<rparr>)],
     recoveredTaskIds := [''a'']\<rparr>"

theorem queue_resume_settles_recovered_witness:
  "\<exists>out s'. resumeRecoveredPending (\<lambda>a b. 0) free_env ''now'' (Some Keep) None demo_recovered = (Inr out, s') \<and>
     recoveredTaskIds s' = [] \<and> rr_scanned out = 1 \<and> pending s' = pending demo_recovered"
proof -
  have wf: "queue_wf demo_recovered"
    by (simp add: queue_wf_def demo_recovered_def demo_queue_def ids_match_def wf_map_def keys_def)
  obtain out s' where r: "resumeRecoveredPending (\<lambda>a b. 0) free_env ''now'' (Some Keep) None demo_recovered =
      (Inr out, s')"
    and k: "rr_kept out = 1"
    by (simp add: resumeRecoveredPending_def Let_def demo_recovered_def listPending_def)
  show ?thesis
    using queue_resume_settles_recovered [OF wf r] r k by (auto simp: demo_recovered_def)
qed

end
