(* ===== verification/Errors.thy ===== *)
theory Errors
  imports JsString Json
begin

text \<open>
  The error type of the code (\<open>core/errors.ts\<close>): the codes, the class \<open>AppError\<close>, the templates, the
  conversion of an arbitrary thrown value (\<open>toAppError\<close>) and its rendering (\<open>formatCliError\<close>).

  A thrown value is an \<open>AppError\<close>, another \<open>Error\<close> (with the fields that Node attaches to a system
  error) or any other value, of which only its \<open>String()\<close> matters. The \<open>cause\<close> field is not kept.
  \<open>path.resolve\<close> is the argument \<open>resolve_path\<close>.
\<close>

datatype ErrorCode =
    VALIDATION_ERROR | PROVIDER_UNAVAILABLE | PROVIDER_TIMEOUT | PROVIDER_RATE_LIMIT | OVERLOAD
  | CONFIG_ERROR | INTERNAL_ERROR | MISSING_ENV | MISSING_OLLAMA | INVALID_API_KEY | NETWORK_ERROR
  | PERMISSION_DENIED

record AppError =
  err_code :: ErrorCode
  err_message :: string
  err_status :: nat
  err_details :: "(string \<times> json) list option"
  err_suggestion :: "string option"

definition app_error :: "ErrorCode \<Rightarrow> string \<Rightarrow> nat \<Rightarrow> (string \<times> json) list \<Rightarrow> AppError" where
  "app_error c msg status details =
     \<lparr>err_code = c, err_message = msg, err_status = status, err_details = Some details,
      err_suggestion = None\<rparr>"

record node_error =
  ne_message :: string
  ne_code :: "string option"
  ne_path :: "string option"
  ne_address :: "string option"
  ne_port :: "string option"
  ne_stack :: "string option"

datatype thrown = App AppError | NodeErr node_error | Other string

definition plain_error :: "string \<Rightarrow> thrown" where
  "plain_error msg =
     NodeErr \<lparr>ne_message = msg, ne_code = None, ne_path = None, ne_address = None, ne_port = None,
       ne_stack = None\<rparr>"

section \<open>Templates\<close>

definition suggestion_missingEnv :: string where
  "suggestion_missingEnv = ''Copy .env.example to .env, fill in the required keys, then rerun `npm run -s cli -- doctor`.''"

definition suggestion_missingOllama :: string where
  "suggestion_missingOllama = ''Install Ollama from https://ollama.com, start it with `ollama serve`, and pull the required model.''"

definition suggestion_invalidApiKey :: string where
  "suggestion_invalidApiKey = ''Check the configured API key in .env, rotate it if needed, then rerun `npm run -s cli -- doctor`.''"

definition suggestion_network :: string where
  "suggestion_network = ''Verify the endpoint URL, local network access, and that the target service is running before retrying.''"

definition suggestion_permission :: string where
  "suggestion_permission = ''Check filesystem permissions for the current user and retry the command.''"

definition or_else :: "'a option \<Rightarrow> 'a \<Rightarrow> 'a" where
  "or_else x d = (case x of None \<Rightarrow> d | Some v \<Rightarrow> v)"

lemma or_else_simps [simp]: "or_else None d = d" "or_else (Some v) d = v"
  by (simp_all add: or_else_def)

definition opt_field :: "string \<Rightarrow> string option \<Rightarrow> (string \<times> json) list" where
  "opt_field k v = (case v of None \<Rightarrow> [] | Some s \<Rightarrow> [(k, JStr s)])"

definition tmpl_missingEnv ::
  "(string \<Rightarrow> string) \<Rightarrow> string list \<Rightarrow> string option \<Rightarrow> string option \<Rightarrow> AppError" where
  "tmpl_missingEnv resolve_path missingKeys path message =
     (let p = resolve_path (or_else path ''.env'');
          keysSuffix = (if missingKeys \<noteq> [] then '' Missing keys: '' @ join '', '' missingKeys @ ''.'' else '''')
      in \<lparr>err_code = MISSING_ENV,
          err_message = or_else message (''Missing or incomplete .env configuration at '' @ p @ ''.'' @ keysSuffix),
          err_status = 500,
          err_details = Some [(''path'', JStr p), (''missingKeys'', JArr (map JStr missingKeys))],
          err_suggestion = Some suggestion_missingEnv\<rparr>)"

definition tmpl_missingOllama ::
  "string option \<Rightarrow> string option \<Rightarrow> string option \<Rightarrow> bool option \<Rightarrow> AppError" where
  "tmpl_missingOllama commandChecked url message required =
     (let u = or_else url ''http://127.0.0.1:11434''
      in \<lparr>err_code = MISSING_OLLAMA,
          err_message = or_else message (''Ollama is required but was not detected or is not reachable at '' @ u @ ''.''),
          err_status = (if required = Some True then 503 else 500),
          err_details = Some [(''commandChecked'', JStr (or_else commandChecked ''ollama --version'')),
                              (''url'', JStr u), (''required'', JBool (or_else required True))],
          err_suggestion = Some suggestion_missingOllama\<rparr>)"

definition tmpl_invalidApiKey :: "string option \<Rightarrow> int option \<Rightarrow> string option \<Rightarrow> AppError" where
  "tmpl_invalidApiKey provider status message =
     (let p = or_else provider ''provider''
      in \<lparr>err_code = INVALID_API_KEY,
          err_message = or_else message (p @ '' rejected the configured API key.''),
          err_status = 401,
          err_details = Some ((''provider'', JStr p) #
            (case status of None \<Rightarrow> [] | Some n \<Rightarrow> [(''status'', JNum n)])),
          err_suggestion = Some suggestion_invalidApiKey\<rparr>)"

definition tmpl_network ::
  "string option \<Rightarrow> string option \<Rightarrow> nat option \<Rightarrow> (string \<times> json) list \<Rightarrow> AppError" where
  "tmpl_network target message status details =
     (let t = or_else target ''remote service''
      in \<lparr>err_code = NETWORK_ERROR,
          err_message = or_else message (''Network request to '' @ t @ '' failed.''),
          err_status = or_else status 503,
          err_details = Some ((''target'', JStr t) # details),
          err_suggestion = Some suggestion_network\<rparr>)"

definition tmpl_permission ::
  "string option \<Rightarrow> string option \<Rightarrow> string option \<Rightarrow> (string \<times> json) list \<Rightarrow> AppError" where
  "tmpl_permission path operation message details =
     (let p = or_else path ''unknown path''; opn = or_else operation ''access''
      in \<lparr>err_code = PERMISSION_DENIED,
          err_message = or_else message (''Permission denied while attempting to '' @ opn @ '' '' @ p @ ''.''),
          err_status = 403,
          err_details = Some ([(''path'', JStr p), (''operation'', JStr opn)] @ details),
          err_suggestion = Some suggestion_permission\<rparr>)"

section \<open>Conversion of a thrown value\<close>

fun getNodeError :: "thrown \<Rightarrow> node_error option" where
  "getNodeError (NodeErr e) = Some e"
| "getNodeError _ = None"

definition mapNodePermissionError ::
  "node_error option \<Rightarrow> string \<Rightarrow> string \<Rightarrow> AppError option" where
  "mapNodePermissionError ne message lowerMessage =
     (let errno = Option.bind ne ne_code
      in if errno \<noteq> Some ''EACCES'' \<and> errno \<noteq> Some ''EPERM'' \<and> \<not> str_includes lowerMessage ''permission denied''
         then None
         else Some (tmpl_permission (Option.bind ne ne_path) (Some ''access'') (Some message)
                      (opt_field ''errno'' errno)))"

definition network_errnos :: "string list" where
  "network_errnos = [''ECONNREFUSED'', ''ENOTFOUND'', ''ECONNRESET'', ''ETIMEDOUT'', ''EHOSTUNREACH'']"

definition mapNodeNetworkError :: "node_error option \<Rightarrow> string \<Rightarrow> AppError option" where
  "mapNodeNetworkError ne message =
     (case Option.bind ne ne_code of
        None \<Rightarrow> None
      | Some errno \<Rightarrow>
          if errno \<notin> set network_errnos then None
          else Some (tmpl_network
            (map_option (\<lambda>a. a @ (case Option.bind ne ne_port of None \<Rightarrow> '''' | Some p \<Rightarrow> '':'' @ p))
               (Option.bind ne ne_address))
            (Some message) None (opt_field ''errno'' (Some errno))))"

definition mapKnownAppError :: "(string \<Rightarrow> string) \<Rightarrow> string \<Rightarrow> thrown \<Rightarrow> AppError option" where
  "mapKnownAppError resolve_path message cause =
     (case cause of
        Other _ \<Rightarrow> None
      | _ \<Rightarrow>
        (let l = to_lower message
         in if str_includes l ''provider not configured'' then
              Some \<lparr>err_code = PROVIDER_UNAVAILABLE, err_message = message, err_status = 503,
                    err_details = None, err_suggestion = None\<rparr>
            else if str_includes l ''invalid configuration'' then
              Some (tmpl_missingEnv resolve_path [] None (Some message))
            else if str_includes l ''http_401'' \<or> str_includes l ''http_403'' \<or> str_includes l ''unauthorized''
                 \<or> str_includes l ''invalid api key'' \<or> str_includes l ''api key'' then
              Some (tmpl_invalidApiKey None None (Some message))
            else if str_includes l ''fetch failed'' \<or> str_includes l ''network''
                 \<or> str_includes l ''socket hang up'' then
              Some (tmpl_network None (Some message) None [])
            else None))"

fun thrown_message :: "thrown \<Rightarrow> string" where
  "thrown_message (App e) = err_message e"
| "thrown_message (NodeErr e) = ne_message e"
| "thrown_message (Other s) = s"

definition orElse :: "'a option \<Rightarrow> 'a option \<Rightarrow> 'a option" where
  "orElse x y = (case x of None \<Rightarrow> y | Some _ \<Rightarrow> x)"

definition toAppError :: "(string \<Rightarrow> string) \<Rightarrow> thrown \<Rightarrow> AppError" where
  "toAppError resolve_path err =
     (case err of
        App e \<Rightarrow> e
      | _ \<Rightarrow>
        (let ne = getNodeError err; message = thrown_message err; lowerMessage = to_lower message
         in case orElse (mapNodePermissionError ne message lowerMessage)
                 (orElse (mapNodeNetworkError ne message) (mapKnownAppError resolve_path message err)) of
              Some mapped \<Rightarrow> mapped
            | None \<Rightarrow>
                \<lparr>err_code = INTERNAL_ERROR,
                 err_message = (case err of Other _ \<Rightarrow> ''Internal server error'' | _ \<Rightarrow> message),
                 err_status = 500, err_details = None,
                 err_suggestion = Some ''Retry with --verbose for stack trace details.''\<rparr>))"

fun code_text :: "ErrorCode \<Rightarrow> string" where
  "code_text VALIDATION_ERROR = ''VALIDATION_ERROR''"
| "code_text PROVIDER_UNAVAILABLE = ''PROVIDER_UNAVAILABLE''"
| "code_text PROVIDER_TIMEOUT = ''PROVIDER_TIMEOUT''"
| "code_text PROVIDER_RATE_LIMIT = ''PROVIDER_RATE_LIMIT''"
| "code_text OVERLOAD = ''OVERLOAD''"
| "code_text CONFIG_ERROR = ''CONFIG_ERROR''"
| "code_text INTERNAL_ERROR = ''INTERNAL_ERROR''"
| "code_text MISSING_ENV = ''MISSING_ENV''"
| "code_text MISSING_OLLAMA = ''MISSING_OLLAMA''"
| "code_text INVALID_API_KEY = ''INVALID_API_KEY''"
| "code_text NETWORK_ERROR = ''NETWORK_ERROR''"
| "code_text PERMISSION_DENIED = ''PERMISSION_DENIED''"

definition quote :: string where
  "quote = [CHR 0x27]"

definition newline :: string where
  "newline = [char_of (10 :: nat)]"

text \<open>\<open>stack_of\<close> gives the stack of an \<open>Error\<close>; an \<open>AppError\<close> has one as every \<open>Error\<close> does.\<close>

fun stack_of :: "(AppError \<Rightarrow> string) \<Rightarrow> thrown \<Rightarrow> string option" where
  "stack_of app_stack (App e) = Some (app_stack e)"
| "stack_of app_stack (NodeErr e) = ne_stack e"
| "stack_of app_stack (Other s) = None"

definition non_empty :: "string option \<Rightarrow> string list" where
  "non_empty x = (case x of None \<Rightarrow> [] | Some s \<Rightarrow> if s = '''' then [] else [s])"

definition formatCliError ::
  "(string \<Rightarrow> string) \<Rightarrow> (AppError \<Rightarrow> string) \<Rightarrow> bool \<Rightarrow> thrown \<Rightarrow> string" where
  "formatCliError resolve_path app_stack verbose err =
     (let e = toAppError resolve_path err
      in join newline
           ([''['' @ code_text (err_code e) @ ''] '' @ err_message e]
            @ map (\<lambda>s. ''Suggestion: '' @ s) (non_empty (err_suggestion e))
            @ (if verbose then non_empty (stack_of app_stack err) else [])))"

section \<open>What the conversion guarantees\<close>

lemma toAppError_App [simp]: "toAppError r (App e) = e"
  by (simp add: toAppError_def)

lemma toAppError_idem: "toAppError r (App (toAppError r err)) = toAppError r err"
  by simp

lemma template_status [simp]:
  "err_status (tmpl_missingEnv r ks p m) = 500"
  "err_status (tmpl_invalidApiKey pr st m) = 401"
  "err_status (tmpl_permission p opn m d) = 403"
  "err_code (tmpl_missingEnv r ks p m) = MISSING_ENV"
  "err_code (tmpl_invalidApiKey pr st m) = INVALID_API_KEY"
  "err_code (tmpl_permission p opn m d) = PERMISSION_DENIED"
  "err_code (tmpl_network t m s d) = NETWORK_ERROR"
  "err_message (tmpl_missingEnv r ks p (Some x)) = x"
  "err_message (tmpl_invalidApiKey pr st (Some x)) = x"
  "err_message (tmpl_permission p opn (Some x) d) = x"
  "err_message (tmpl_network t (Some x) s d) = x"
  "err_status (tmpl_network t m None d) = 503"
  by (simp_all add: tmpl_missingEnv_def tmpl_invalidApiKey_def tmpl_permission_def tmpl_network_def Let_def)

inductive error_report :: "(string \<Rightarrow> string) \<Rightarrow> string \<Rightarrow> AppError \<Rightarrow> bool" for r msg where
  permission: "error_report r msg (tmpl_permission ps (Some ''access'') (Some msg) d)"
| network: "error_report r msg (tmpl_network t (Some msg) None d)"
| provider: "error_report r msg \<lparr>err_code = PROVIDER_UNAVAILABLE, err_message = msg, err_status = 503,
       err_details = None, err_suggestion = None\<rparr>"
| env: "error_report r msg (tmpl_missingEnv r [] None (Some msg))"
| key: "error_report r msg (tmpl_invalidApiKey None None (Some msg))"
| internal: "error_report r msg \<lparr>err_code = INTERNAL_ERROR, err_message = msg, err_status = 500,
       err_details = None, err_suggestion = s\<rparr>"

lemma report_permission: "mapNodePermissionError ne msg l = Some x \<Longrightarrow> error_report r msg x"
  by (auto simp: mapNodePermissionError_def Let_def intro: permission split: if_splits)

lemma report_network: "mapNodeNetworkError ne msg = Some x \<Longrightarrow> error_report r msg x"
  by (auto simp: mapNodeNetworkError_def intro: network split: if_splits option.splits)

lemma report_known: "mapKnownAppError r msg (NodeErr e) = Some x \<Longrightarrow> error_report r msg x"
  by (simp only: mapKnownAppError_def Let_def thrown.case option.inject option.distinct
        split: if_split_asm)
     (hypsubst, rule provider, hypsubst, rule env, hypsubst, rule key, hypsubst, rule network)

lemma toAppError_report: "error_report r (ne_message e) (toAppError r (NodeErr e))"
  by (auto simp: toAppError_def Let_def orElse_def
      intro: report_permission report_network report_known internal split: option.split)

text \<open>
  Converting a thrown \<open>Error\<close> with \<open>toAppError\<close> keeps its message and yields one of six
  code and status pairs; a system error with code EACCES or EPERM is always reported as
  PERMISSION_DENIED with status 403, whatever its message says.
\<close>

theorem toAppError_classifies:
  "err_message (toAppError r (NodeErr e)) = ne_message e \<and>
   (err_code (toAppError r (NodeErr e)), err_status (toAppError r (NodeErr e))) \<in>
     {(PERMISSION_DENIED, 403), (NETWORK_ERROR, 503), (PROVIDER_UNAVAILABLE, 503),
      (MISSING_ENV, 500), (INVALID_API_KEY, 401), (INTERNAL_ERROR, 500)} \<and>
   (ne_code e \<in> {Some ''EACCES'', Some ''EPERM''} \<longrightarrow>
      err_code (toAppError r (NodeErr e)) = PERMISSION_DENIED)"
proof (intro conjI impI)
  show "err_message (toAppError r (NodeErr e)) = ne_message e"
    using toAppError_report [of r e] by (cases rule: error_report.cases) simp_all
  show "(err_code (toAppError r (NodeErr e)), err_status (toAppError r (NodeErr e))) \<in>
     {(PERMISSION_DENIED, 403), (NETWORK_ERROR, 503), (PROVIDER_UNAVAILABLE, 503),
      (MISSING_ENV, 500), (INVALID_API_KEY, 401), (INTERNAL_ERROR, 500)}"
    using toAppError_report [of r e] by (cases rule: error_report.cases) simp_all
  show "err_code (toAppError r (NodeErr e)) = PERMISSION_DENIED"
    if "ne_code e \<in> {Some ''EACCES'', Some ''EPERM''}"
    using that by (auto simp: toAppError_def mapNodePermissionError_def orElse_def Let_def)
qed

lemma toAppError_classifies_witness:
  "err_code (toAppError (\<lambda>p. p) (NodeErr \<lparr>ne_message = ''fetch failed'', ne_code = Some ''EACCES'',
     ne_path = None, ne_address = None, ne_port = None, ne_stack = None\<rparr>)) = PERMISSION_DENIED"
  using toAppError_classifies [of "\<lambda>p. p" "\<lparr>ne_message = ''fetch failed'', ne_code = Some ''EACCES'',
     ne_path = None, ne_address = None, ne_port = None, ne_stack = None\<rparr>"]
  by simp

end
