(* ===== verification/Sqlite.thy ===== *)
theory Sqlite
  imports Errors
begin

text \<open>
  What the repositories under \<open>infra/storage/sqlite/\<close> use of SQLite: a table is a map from its primary
  key to its row in insertion order; an operation takes the database and returns its result and the
  database after it; \<open>db.transaction(f)()\<close> undoes the changes of \<open>f\<close> when \<open>f\<close> throws; text is compared
  byte by byte (\<open>ORDER BY\<close> on a text column). The tables have the constraints of
  \<open>infra/storage/sqlite/client.ts\<close>; a violated constraint throws.

  \<open>normalizeIdentity\<close> (\<open>infra/auth/identity.ts\<close>) is here because every repository uses it; SHA-256 and
  \<open>Date.toISOString\<close> are the fields of \<open>host\<close>.
\<close>

type_synonym ('s, 'a) op = "'s \<Rightarrow> (thrown, 'a) result \<times> 's"

record host =
  host_sha256 :: "string \<Rightarrow> string"
  host_iso :: "int \<Rightarrow> string"

definition transaction :: "('s, 'a) op \<Rightarrow> ('s, 'a) op" where
  "transaction body s = (case body s of (Inl e, _) \<Rightarrow> (Inl e, s) | (Inr a, s') \<Rightarrow> (Inr a, s'))"

lemma transaction_Inl: "transaction body s = (Inl e, s') \<Longrightarrow> s' = s"
  by (auto simp: transaction_def split: prod.splits sum.splits)

lemma transaction_Inr: "transaction body s = (Inr a, s') \<longleftrightarrow> body s = (Inr a, s')"
  by (auto simp: transaction_def split: prod.splits sum.splits)

lemma transaction_state:
  "snd (transaction body s) = (case fst (body s) of Inl _ \<Rightarrow> s | Inr _ \<Rightarrow> snd (body s))"
  by (auto simp: transaction_def split: prod.splits sum.splits)

definition constraint_error :: "string \<Rightarrow> thrown" where
  "constraint_error kind =
     NodeErr \<lparr>ne_message = ''constraint failed'', ne_code = Some (''SQLITE_CONSTRAINT_'' @ kind),
       ne_path = None, ne_address = None, ne_port = None, ne_stack = None\<rparr>"

section \<open>Byte order of text\<close>

fun binary_cmp :: "string \<Rightarrow> string \<Rightarrow> int" where
  "binary_cmp [] [] = 0"
| "binary_cmp [] (_ # _) = - 1"
| "binary_cmp (_ # _) [] = 1"
| "binary_cmp (a # x) (b # y) =
     (if code a < code b then - 1 else if code b < code a then 1 else binary_cmp x y)"

lemma binary_cmp_total: "binary_cmp x y \<le> 0 \<or> binary_cmp y x \<le> 0"
  by (induction x y rule: binary_cmp.induct) (simp_all split: if_split)

lemma binary_cmp_trans: "binary_cmp x y \<le> 0 \<Longrightarrow> binary_cmp y z \<le> 0 \<Longrightarrow> binary_cmp x z \<le> 0"
proof (induction x y arbitrary: z rule: binary_cmp.induct)
  case (1)
  then show ?case by simp
next
  case (2 b y)
  then show ?case by (cases z) simp_all
next
  case (3 a x)
  then show ?case by simp
next
  case (4 a x b y)
  note prems = 4
  show ?case
  proof (cases z)
    case Nil
    then show ?thesis using prems by simp
  next
    case (Cons c w)
    then have bc: "code b < code c \<or> (code b = code c \<and> binary_cmp y w \<le> 0)"
      using prems(3) by (simp only: binary_cmp.simps split: if_split_asm) auto
    have ab: "code a < code b \<or> (code a = code b \<and> binary_cmp x y \<le> 0)"
      using prems(2) by (simp only: binary_cmp.simps split: if_split_asm) auto
    have "code a < code c \<or> (code a = code c \<and> binary_cmp x w \<le> 0)"
      using ab bc prems(1) [of w] by fastforce
    then show ?thesis by (auto simp: Cons)
  qed
qed

lemma comparator_binary_key: "comparator (\<lambda>a b. binary_cmp (f a) (f b))"
  by unfold_locales (rule binary_cmp_total, erule (1) binary_cmp_trans)

section \<open>Identities\<close>

definition is_hex :: "char \<Rightarrow> bool" where
  "is_hex c \<longleftrightarrow> is_digit c \<or> (97 \<le> code c \<and> code c \<le> 102)"

text \<open>\<open>UUID_RE\<close>, matched against text that is already in lower case.\<close>

definition uuid_classes :: "(char \<Rightarrow> bool) list" where
  "uuid_classes =
     replicate 8 is_hex @ [\<lambda>c. c = CHR ''-''] @
     replicate 4 is_hex @ [\<lambda>c. c = CHR ''-''] @
     (\<lambda>c. 49 \<le> code c \<and> code c \<le> 56) # replicate 3 is_hex @ [\<lambda>c. c = CHR ''-''] @
     (\<lambda>c. c \<in> set ''89ab'') # replicate 3 is_hex @ [\<lambda>c. c = CHR ''-''] @
     replicate 12 is_hex"

definition is_uuid :: "string \<Rightarrow> bool" where
  "is_uuid s \<longleftrightarrow> list_all2 (\<lambda>p c. p c) uuid_classes s"

definition normalizeIdentity :: "(string \<Rightarrow> string) \<Rightarrow> string \<Rightarrow> (thrown, string) result" where
  "normalizeIdentity sha input =
     (let trimmed = to_lower (trim input)
      in if length trimmed = 0 then Inl (plain_error ''identity cannot be empty'')
         else if is_uuid trimmed then Inr trimmed
         else Inr (sha trimmed))"

end
