(* ===== verification/DualApproval.thy ===== *)
theory DualApproval
  imports Sqlite
begin

text \<open>
  Requests that need a second person (\<open>infra/storage/sqlite/repositories/dual-approval-repository.ts\<close>):
  creation, approval, cancellation and expiry of a request, the event log, and the table that makes a
  repeated call a replay of the first. \<open>randomUUID()\<close> and \<open>Date.now()\<close> are arguments.
\<close>

datatype DualApprovalAction = Freeze | Unfreeze

datatype DualApprovalState = DPending | DApproved | DExpired | DCanceled

datatype DualApprovalTransitionAction = DoApprove | DoCancel

record DualApprovalRequest =
  dr_requestId :: string
  dr_action :: DualApprovalAction
  dr_state :: DualApprovalState
  dr_initiatorId :: string
  dr_approverId :: "string option"
  dr_reason :: "string option"
  dr_signature :: "string option"
  dr_expiresAtMs :: int
  dr_stateVersion :: int
  dr_createdAt :: string
  dr_updatedAt :: string

record DualApprovalEvent =
  de_eventId :: string
  de_requestId :: string
  de_fromState :: "DualApprovalState option"
  de_toState :: DualApprovalState
  de_actorId :: string
  de_signature :: "string option"
  de_createdAt :: string

record DualApprovalIdempotencyRow =
  di_requestId :: string
  di_action :: DualApprovalTransitionAction
  di_actorId :: string
  di_createdAt :: string

text \<open>The three tables: requests by \<open>request_id\<close>, events, idempotency rows by \<open>approval_request_id\<close>.\<close>

record dual_db =
  da_requests :: "(string, DualApprovalRequest) jsmap"
  da_events :: "DualApprovalEvent list"
  da_idempotency :: "(string, DualApprovalIdempotencyRow) jsmap"

record create_input =
  ci_action :: DualApprovalAction
  ci_initiatorId :: string
  ci_ttlMs :: "int option"
  ci_reason :: "string option"
  ci_signature :: "string option"

record transition_input =
  ti_approvalRequestId :: string
  ti_requestId :: string
  ti_actorId :: string
  ti_expectedStateVersion :: int
  ti_signature :: "string option"

fun state_text :: "DualApprovalState \<Rightarrow> string" where
  "state_text DPending = ''pending''"
| "state_text DApproved = ''approved''"
| "state_text DExpired = ''expired''"
| "state_text DCanceled = ''canceled''"

fun action_text :: "DualApprovalTransitionAction \<Rightarrow> string" where
  "action_text DoApprove = ''approve''"
| "action_text DoCancel = ''cancel''"

section \<open>Queries\<close>

definition dual_get :: "string \<Rightarrow> dual_db \<Rightarrow> DualApprovalRequest option" where
  "dual_get requestId db = map_of (da_requests db) requestId"

definition dual_getOrThrow :: "string \<Rightarrow> dual_db \<Rightarrow> (thrown, DualApprovalRequest) result" where
  "dual_getOrThrow requestId db =
     (case dual_get requestId db of
        None \<Rightarrow> Inl (App (app_error VALIDATION_ERROR (''approval request not found: '' @ requestId) 404
                    [(''requestId'', JStr requestId)]))
      | Some row \<Rightarrow> Inr row)"

definition event_order :: "DualApprovalEvent \<Rightarrow> DualApprovalEvent \<Rightarrow> int" where
  "event_order a b = binary_cmp (de_createdAt a) (de_createdAt b)"

definition listEvents :: "string \<Rightarrow> dual_db \<Rightarrow> DualApprovalEvent list" where
  "listEvents requestId db = js_sort event_order (filter (\<lambda>e. de_requestId e = requestId) (da_events db))"

definition countByState :: "dual_db \<Rightarrow> DualApprovalState \<Rightarrow> nat" where
  "countByState db st = length (filter (\<lambda>kv. dr_state (snd kv) = st) (da_requests db))"

section \<open>Statements\<close>

definition insertRequest :: "DualApprovalRequest \<Rightarrow> (dual_db, unit) op" where
  "insertRequest row db =
     (if has_key (da_requests db) (dr_requestId row) then (Inl (constraint_error ''PRIMARYKEY''), db)
      else (Inr (), db\<lparr>da_requests := da_requests db @ [(dr_requestId row, row)]\<rparr>))"

definition insertEvent :: "DualApprovalEvent \<Rightarrow> (dual_db, unit) op" where
  "insertEvent e db =
     (if de_eventId e \<in> set (map de_eventId (da_events db)) then (Inl (constraint_error ''PRIMARYKEY''), db)
      else if \<not> has_key (da_requests db) (de_requestId e) then (Inl (constraint_error ''FOREIGNKEY''), db)
      else (Inr (), db\<lparr>da_events := da_events db @ [e]\<rparr>))"

text \<open>
  \<open>UPDATE dual_approval_requests SET ... WHERE request_id=? AND ...\<close>: the number of changed rows, or
  the error of the check that the approver is not the initiator.
\<close>

definition updateRequest ::
  "string \<Rightarrow> (DualApprovalRequest \<Rightarrow> bool) \<Rightarrow> (DualApprovalRequest \<Rightarrow> DualApprovalRequest) \<Rightarrow>
   (dual_db, nat) op" where
  "updateRequest requestId cond change db =
     (case map_of (da_requests db) requestId of
        None \<Rightarrow> (Inr 0, db)
      | Some row \<Rightarrow>
          if \<not> cond row then (Inr 0, db)
          else if dr_approverId (change row) = Some (dr_initiatorId (change row)) then
            (Inl (constraint_error ''CHECK''), db)
          else (Inr 1, db\<lparr>da_requests := AList.update requestId (change row) (da_requests db)\<rparr>))"

definition already_used :: "transition_input \<Rightarrow> DualApprovalTransitionAction \<Rightarrow> thrown" where
  "already_used inp act =
     App (app_error VALIDATION_ERROR ''approval_request_id already used'' 409
       [(''approvalRequestId'', JStr (ti_approvalRequestId inp)), (''requestId'', JStr (ti_requestId inp)),
        (''action'', JStr (action_text act))])"

definition same_call ::
  "DualApprovalIdempotencyRow \<Rightarrow> transition_input \<Rightarrow> DualApprovalTransitionAction \<Rightarrow> string \<Rightarrow> bool" where
  "same_call row inp act actor \<longleftrightarrow>
     di_requestId row = ti_requestId inp \<and> di_action row = act \<and> di_actorId row = actor"

definition isIdempotentReplay ::
  "transition_input \<Rightarrow> DualApprovalTransitionAction \<Rightarrow> string \<Rightarrow> dual_db \<Rightarrow> (thrown, bool) result" where
  "isIdempotentReplay inp act actor db =
     (case map_of (da_idempotency db) (ti_approvalRequestId inp) of
        None \<Rightarrow> Inr False
      | Some existing \<Rightarrow>
          if same_call existing inp act actor then Inr True else Inl (already_used inp act))"

definition reserveIdempotency ::
  "transition_input \<Rightarrow> DualApprovalTransitionAction \<Rightarrow> string \<Rightarrow> string \<Rightarrow> (dual_db, bool) op" where
  "reserveIdempotency inp act actor createdAt db =
     (case map_of (da_idempotency db) (ti_approvalRequestId inp) of
        None \<Rightarrow>
          (Inr True, db\<lparr>da_idempotency := da_idempotency db @
             [(ti_approvalRequestId inp,
               \<lparr>di_requestId = ti_requestId inp, di_action = act, di_actorId = actor,
                di_createdAt = createdAt\<rparr>)]\<rparr>)
      | Some existing \<Rightarrow>
          if same_call existing inp act actor then (Inr False, db)
          else (Inl (already_used inp act), db))"

section \<open>Operations\<close>

definition createRequest :: "host \<Rightarrow> string \<Rightarrow> string \<Rightarrow> int \<Rightarrow> create_input \<Rightarrow> (dual_db, DualApprovalRequest) op" where
  "createRequest h requestId eventId nowMs inp db =
     (let ttlMs = or_else (ci_ttlMs inp) (5 * 60 * 1000);
          expiresAtMs = nowMs + max 1 ttlMs;
          nowIso = host_iso h nowMs
      in case normalizeIdentity (host_sha256 h) (ci_initiatorId inp) of
           Inl e \<Rightarrow> (Inl e, db)
         | Inr normalizedInitiator \<Rightarrow>
             (case insertRequest
                \<lparr>dr_requestId = requestId, dr_action = ci_action inp, dr_state = DPending,
                 dr_initiatorId = normalizedInitiator, dr_approverId = None, dr_reason = ci_reason inp,
                 dr_signature = ci_signature inp, dr_expiresAtMs = expiresAtMs, dr_stateVersion = 0,
                 dr_createdAt = nowIso, dr_updatedAt = nowIso\<rparr> db of
                (Inl e, db) \<Rightarrow> (Inl e, db)
              | (Inr _, db) \<Rightarrow>
                  (case insertEvent
                     \<lparr>de_eventId = eventId, de_requestId = requestId, de_fromState = None,
                      de_toState = DPending, de_actorId = normalizedInitiator,
                      de_signature = ci_signature inp, de_createdAt = nowIso\<rparr> db of
                     (Inl e, db) \<Rightarrow> (Inl e, db)
                   | (Inr _, db) \<Rightarrow> (dual_getOrThrow requestId db, db))))"

definition already_applied :: "transition_input \<Rightarrow> (string \<times> json) list \<Rightarrow> thrown" where
  "already_applied inp details =
     App (app_error VALIDATION_ERROR ''TransitionAlreadyApplied'' 409
       ((''requestId'', JStr (ti_requestId inp)) # details))"

text \<open>
  The part of a transition that \<open>approve\<close> (twice) and \<open>cancel\<close> share: reserve the idempotency key,
  update the row if it is still pending at the given version, log the event, read the row back.
\<close>

definition transition_row ::
  "string \<Rightarrow> string \<Rightarrow> transition_input \<Rightarrow> DualApprovalTransitionAction \<Rightarrow> string \<Rightarrow> DualApprovalState \<Rightarrow> int \<Rightarrow>
   (DualApprovalRequest \<Rightarrow> DualApprovalRequest) \<Rightarrow> (dual_db, DualApprovalRequest) op" where
  "transition_row eventId nowIso inp act actor st version change db =
     (case reserveIdempotency inp act actor nowIso db of
        (Inl e, db) \<Rightarrow> (Inl e, db)
      | (Inr False, db) \<Rightarrow> (dual_getOrThrow (ti_requestId inp) db, db)
      | (Inr True, db) \<Rightarrow>
          (case updateRequest (ti_requestId inp)
             (\<lambda>r. dr_state r = DPending \<and> dr_stateVersion r = version)
             (\<lambda>r. (change r)\<lparr>dr_state := st, dr_stateVersion := dr_stateVersion r + 1, dr_updatedAt := nowIso\<rparr>) db of
             (Inl e, db) \<Rightarrow> (Inl e, db)
           | (Inr changed, db) \<Rightarrow>
               if changed \<noteq> 1 then (Inl (already_applied inp []), db)
               else
                 (case insertEvent
                    \<lparr>de_eventId = eventId, de_requestId = ti_requestId inp, de_fromState = Some DPending,
                     de_toState = st, de_actorId = actor, de_signature = ti_signature inp,
                     de_createdAt = nowIso\<rparr> db of
                    (Inl e, db) \<Rightarrow> (Inl e, db)
                  | (Inr _, db) \<Rightarrow> (dual_getOrThrow (ti_requestId inp) db, db))))"

definition approve_tx ::
  "string \<Rightarrow> string \<Rightarrow> int \<Rightarrow> transition_input \<Rightarrow> string \<Rightarrow> (dual_db, DualApprovalRequest) op" where
  "approve_tx eventId nowIso nowMs inp approver db =
     (case isIdempotentReplay inp DoApprove approver db of
        Inl e \<Rightarrow> (Inl e, db)
      | Inr True \<Rightarrow> (dual_getOrThrow (ti_requestId inp) db, db)
      | Inr False \<Rightarrow>
          (case dual_getOrThrow (ti_requestId inp) db of
             Inl e \<Rightarrow> (Inl e, db)
           | Inr current \<Rightarrow>
               if dr_state current \<noteq> DPending then
                 (Inl (already_applied inp [(''state'', JStr (state_text (dr_state current))),
                    (''stateVersion'', JNum (dr_stateVersion current))]), db)
               else if nowMs > dr_expiresAtMs current then
                 transition_row eventId nowIso inp DoApprove approver DExpired (dr_stateVersion current) id db
               else if dr_initiatorId current = approver then
                 (Inl (App (app_error PERMISSION_DENIED ''initiator cannot self-approve'' 403
                    [(''requestId'', JStr (ti_requestId inp))])), db)
               else if dr_stateVersion current \<noteq> ti_expectedStateVersion inp then
                 (Inl (already_applied inp [(''expectedStateVersion'', JNum (ti_expectedStateVersion inp)),
                    (''actualStateVersion'', JNum (dr_stateVersion current))]), db)
               else
                 transition_row eventId nowIso inp DoApprove approver DApproved (ti_expectedStateVersion inp)
                   (\<lambda>r. r\<lparr>dr_approverId := Some approver, dr_signature := ti_signature inp\<rparr>) db))"

definition approve :: "host \<Rightarrow> string \<Rightarrow> int \<Rightarrow> transition_input \<Rightarrow> (dual_db, DualApprovalRequest) op" where
  "approve h eventId nowMs inp db =
     (case normalizeIdentity (host_sha256 h) (ti_actorId inp) of
        Inl e \<Rightarrow> (Inl e, db)
      | Inr approver \<Rightarrow> transaction (approve_tx eventId (host_iso h nowMs) nowMs inp approver) db)"

definition cancel_tx ::
  "string \<Rightarrow> string \<Rightarrow> transition_input \<Rightarrow> string \<Rightarrow> (dual_db, DualApprovalRequest) op" where
  "cancel_tx eventId nowIso inp actor db =
     (case isIdempotentReplay inp DoCancel actor db of
        Inl e \<Rightarrow> (Inl e, db)
      | Inr True \<Rightarrow> (dual_getOrThrow (ti_requestId inp) db, db)
      | Inr False \<Rightarrow>
          (case dual_getOrThrow (ti_requestId inp) db of
             Inl e \<Rightarrow> (Inl e, db)
           | Inr current \<Rightarrow>
               if dr_state current \<noteq> DPending then
                 (Inl (already_applied inp [(''state'', JStr (state_text (dr_state current))),
                    (''stateVersion'', JNum (dr_stateVersion current))]), db)
               else if dr_stateVersion current \<noteq> ti_expectedStateVersion inp then
                 (Inl (already_applied inp [(''expectedStateVersion'', JNum (ti_expectedStateVersion inp)),
                    (''actualStateVersion'', JNum (dr_stateVersion current))]), db)
               else
                 transition_row eventId nowIso inp DoCancel actor DCanceled (ti_expectedStateVersion inp)
                   (\<lambda>r. r\<lparr>dr_signature := ti_signature inp\<rparr>) db))"

definition cancel :: "host \<Rightarrow> string \<Rightarrow> int \<Rightarrow> transition_input \<Rightarrow> (dual_db, DualApprovalRequest) op" where
  "cancel h eventId nowMs inp db =
     (case normalizeIdentity (host_sha256 h) (ti_actorId inp) of
        Inl e \<Rightarrow> (Inl e, db)
      | Inr actor \<Rightarrow> transaction (cancel_tx eventId (host_iso h nowMs) inp actor) db)"

text \<open>The loop of \<open>expirePending\<close>; \<open>ids n\<close> is the identifier of the event of the \<open>n\<close>-th selected row.\<close>

fun expire_rows :: "(nat \<Rightarrow> string) \<Rightarrow> string \<Rightarrow> string list \<Rightarrow> nat \<Rightarrow> (dual_db, nat) op" where
  "expire_rows ids nowIso [] updated db = (Inr updated, db)"
| "expire_rows ids nowIso (rid # rids) updated db =
     (case updateRequest rid (\<lambda>r. dr_state r = DPending)
        (\<lambda>r. r\<lparr>dr_state := DExpired, dr_stateVersion := dr_stateVersion r + 1, dr_updatedAt := nowIso\<rparr>) db of
        (Inl e, db) \<Rightarrow> (Inl e, db)
      | (Inr changed, db) \<Rightarrow>
          if changed \<noteq> 1 then expire_rows (ids \<circ> Suc) nowIso rids updated db
          else
            (case insertEvent
               \<lparr>de_eventId = ids 0, de_requestId = rid, de_fromState = Some DPending,
                de_toState = DExpired, de_actorId = ''system'', de_signature = None,
                de_createdAt = nowIso\<rparr> db of
               (Inl e, db) \<Rightarrow> (Inl e, db)
             | (Inr _, db) \<Rightarrow> expire_rows (ids \<circ> Suc) nowIso rids (updated + 1) db))"

definition expirable :: "int \<Rightarrow> dual_db \<Rightarrow> string list" where
  "expirable nowMs db =
     map fst (filter (\<lambda>kv. dr_state (snd kv) = DPending \<and> dr_expiresAtMs (snd kv) < nowMs) (da_requests db))"

definition expirePending :: "host \<Rightarrow> (nat \<Rightarrow> string) \<Rightarrow> int \<Rightarrow> (dual_db, nat) op" where
  "expirePending h ids nowMs db =
     transaction (expire_rows ids (host_iso h nowMs) (expirable nowMs db) 0) db"

end
