(* ===== verification/DualApprovalLaws.thy ===== *)
theory DualApprovalLaws
  imports DualApproval
begin

text \<open>
  What the dual-approval tables guarantee: the event log of a request and its row always tell the same
  story, a request is settled at most once, only by someone other than its initiator when it is
  approved, and a repeated call is answered from the idempotency table.
\<close>

section \<open>The life of a request\<close>

fun dual_allowed :: "DualApprovalState \<Rightarrow> DualApprovalState \<Rightarrow> bool" where
  "dual_allowed DPending s = (s \<noteq> DPending)"
| "dual_allowed _ s = False"

fun dual_rank :: "DualApprovalState \<Rightarrow> nat" where
  "dual_rank DPending = 0"
| "dual_rank _ = 1"

interpretation dual_life: lifecycle dual_allowed dual_rank 1
proof
  fix s t
  show "dual_allowed s t \<Longrightarrow> dual_rank s < dual_rank t" by (cases s; cases t) simp_all
  show "dual_rank s \<le> 1" by (cases s) simp_all
qed

interpretation event_time: comparator event_order
  unfolding event_order_def [abs_def] by (rule comparator_binary_key)

definition story :: "string \<Rightarrow> dual_db \<Rightarrow> (DualApprovalState option \<times> DualApprovalState \<times> string) list" where
  "story rid db = map (\<lambda>e. (de_fromState e, de_toState e, de_actorId e))
     (filter (\<lambda>e. de_requestId e = rid) (da_events db))"

definition row_ok :: "dual_db \<Rightarrow> string \<Rightarrow> DualApprovalRequest \<Rightarrow> bool" where
  "row_ok db rid row \<longleftrightarrow>
     dr_requestId row = rid \<and>
     (if dr_state row = DPending then
        dr_stateVersion row = 0 \<and> dr_approverId row = None \<and>
        story rid db = [(None, DPending, dr_initiatorId row)]
      else
        dr_stateVersion row = 1 \<and>
        (\<exists>actor. story rid db = [(None, DPending, dr_initiatorId row), (Some DPending, dr_state row, actor)] \<and>
           (if dr_state row = DApproved then dr_approverId row = Some actor \<and> actor \<noteq> dr_initiatorId row
            else dr_approverId row = None)))"

definition dual_ok :: "dual_db \<Rightarrow> bool" where
  "dual_ok db \<longleftrightarrow>
     wf_map (da_requests db) \<and>
     (\<forall>rid row. map_of (da_requests db) rid = Some row \<longrightarrow> row_ok db rid row) \<and>
     (\<forall>e \<in> set (da_events db). has_key (da_requests db) (de_requestId e))"

definition empty_dual :: dual_db where
  "empty_dual = \<lparr>da_requests = [], da_events = [], da_idempotency = []\<rparr>"

text \<open>One call of the repository, failed calls included. \<open>randomUUID\<close> gives a fresh event identifier.\<close>

inductive dual_step :: "host \<Rightarrow> dual_db \<Rightarrow> dual_db \<Rightarrow> bool" for h where
  create: "createRequest h rid eid now inp db = (r, db') \<Longrightarrow> eid \<notin> de_eventId ` set (da_events db) \<Longrightarrow>
    dual_step h db db'"
| approve: "approve h eid now tinp db = (r, db') \<Longrightarrow> dual_step h db db'"
| cancel: "cancel h eid now tinp db = (r, db') \<Longrightarrow> dual_step h db db'"
| expire: "expirePending h ids now db = (n, db') \<Longrightarrow> dual_step h db db'"

inductive dual_reachable :: "host \<Rightarrow> dual_db \<Rightarrow> bool" for h where
  start: "dual_reachable h empty_dual"
| step: "dual_reachable h db \<Longrightarrow> dual_step h db db' \<Longrightarrow> dual_reachable h db'"

inductive_cases dual_stepE: "dual_step h db db'"

section \<open>What one transition does\<close>

definition settled :: "string \<Rightarrow> DualApprovalRequest \<Rightarrow> DualApprovalEvent \<Rightarrow> dual_db \<Rightarrow> dual_db" where
  "settled rid new ev db =
     db\<lparr>da_requests := AList.update rid new (da_requests db), da_events := da_events db @ [ev]\<rparr>"

definition closes :: "DualApprovalRequest \<Rightarrow> DualApprovalRequest \<Rightarrow> DualApprovalEvent \<Rightarrow> bool" where
  "closes row new ev \<longleftrightarrow>
     dr_state row = DPending \<and> dr_state new \<noteq> DPending \<and>
     dr_requestId new = dr_requestId row \<and> dr_initiatorId new = dr_initiatorId row \<and>
     dr_stateVersion new = dr_stateVersion row + 1 \<and>
     de_requestId ev = dr_requestId row \<and> de_fromState ev = Some DPending \<and> de_toState ev = dr_state new \<and>
     (if dr_state new = DApproved
      then dr_approverId new = Some (de_actorId ev) \<and> de_actorId ev \<noteq> dr_initiatorId row
      else dr_approverId new = dr_approverId row)"

lemma story_settled:
  "story r (settled rid new ev db) =
     story r db @ (if de_requestId ev = r then [(de_fromState ev, de_toState ev, de_actorId ev)] else [])"
  by (simp add: story_def settled_def)

lemma dual_ok_settled:
  assumes ok: "dual_ok db" and row: "map_of (da_requests db) rid = Some row" and cl: "closes row new ev"
  shows "dual_ok (settled rid new ev db)"
  unfolding dual_ok_def
proof (intro conjI allI impI ballI)
  from ok show "wf_map (da_requests (settled rid new ev db))"
    by (simp add: dual_ok_def settled_def)
  have this_ok: "row_ok db rid row" using ok row by (simp add: dual_ok_def)
  fix r row' assume r: "map_of (da_requests (settled rid new ev db)) r = Some row'"
  show "row_ok (settled rid new ev db) r row'"
  proof (cases "r = rid")
    case True
    with r have "row' = new" by (simp add: settled_def map_of_update)
    with True this_ok cl show ?thesis
      by (auto simp: row_ok_def story_settled closes_def)
  next
    case False
    with r have "map_of (da_requests db) r = Some row'" by (simp add: settled_def map_of_update)
    with ok have "row_ok db r row'" by (simp add: dual_ok_def)
    moreover have "story r (settled rid new ev db) = story r db"
      using False cl this_ok by (simp add: story_settled closes_def row_ok_def)
    ultimately show ?thesis by (simp add: row_ok_def)
  qed
next
  have key: "has_key (da_requests db) rid" using row by (simp add: has_key_def)
  fix e assume "e \<in> set (da_events (settled rid new ev db))"
  moreover have "de_requestId ev = rid"
    using cl ok row by (simp add: closes_def dual_ok_def row_ok_def)
  ultimately show "has_key (da_requests (settled rid new ev db)) (de_requestId e)"
    using key ok by (auto simp: settled_def dual_ok_def has_key_def map_of_update)
qed

lemma updateRequest_Inr:
  assumes "updateRequest rid cond change db = (Inr n, db')" and "n \<noteq> 0"
  obtains row where "map_of (da_requests db) rid = Some row" and "cond row"
    and "dr_approverId (change row) \<noteq> Some (dr_initiatorId (change row))"
    and "db' = db\<lparr>da_requests := AList.update rid (change row) (da_requests db)\<rparr>" and "n = 1"
  using assms by (auto simp: updateRequest_def split: option.splits if_splits)

lemma updateRequest_0: "updateRequest rid cond change db = (Inr 0, db') \<Longrightarrow> db' = db"
  by (auto simp: updateRequest_def split: option.splits if_splits)

lemma insertEvent_Inr:
  "insertEvent e db = (Inr u, db') \<Longrightarrow> db' = db\<lparr>da_events := da_events db @ [e]\<rparr>"
  by (auto simp: insertEvent_def split: if_splits)

definition reserved ::
  "transition_input \<Rightarrow> DualApprovalTransitionAction \<Rightarrow> string \<Rightarrow> string \<Rightarrow> dual_db \<Rightarrow> dual_db" where
  "reserved inp act actor at db =
     db\<lparr>da_idempotency := da_idempotency db @
       [(ti_approvalRequestId inp,
         \<lparr>di_requestId = ti_requestId inp, di_action = act, di_actorId = actor, di_createdAt = at\<rparr>)]\<rparr>"

lemma dual_ok_reserved [simp]: "dual_ok (reserved inp act actor at db) = dual_ok db"
  by (simp add: dual_ok_def reserved_def row_ok_def story_def)

lemma reserveIdempotency_True:
  "reserveIdempotency inp act actor at db = (Inr True, db') \<Longrightarrow>
     db' = reserved inp act actor at db \<and> map_of (da_idempotency db) (ti_approvalRequestId inp) = None"
  by (auto simp: reserveIdempotency_def reserved_def split: option.splits if_splits)

lemma reserveIdempotency_False:
  "reserveIdempotency inp act actor at db = (Inr False, db') \<Longrightarrow> db' = db"
  by (auto simp: reserveIdempotency_def split: option.splits if_splits)

lemma transition_row_Inr:
  assumes run: "transition_row eid at inp act actor st v change db = (Inr r, db')"
    and fresh: "map_of (da_idempotency db) (ti_approvalRequestId inp) = None"
  obtains row ev new where "map_of (da_requests db) (ti_requestId inp) = Some row"
    and "dr_state row = DPending" and "dr_stateVersion row = v"
    and "new = (change row)\<lparr>dr_state := st, dr_stateVersion := dr_stateVersion row + 1, dr_updatedAt := at\<rparr>"
    and "ev = \<lparr>de_eventId = eid, de_requestId = ti_requestId inp, de_fromState = Some DPending,
               de_toState = st, de_actorId = actor, de_signature = ti_signature inp, de_createdAt = at\<rparr>"
    and "db' = settled (ti_requestId inp) new ev (reserved inp act actor at db)" and "r = new"
proof -
  have res: "reserveIdempotency inp act actor at db = (Inr True, reserved inp act actor at db)"
    using fresh by (simp add: reserveIdempotency_def reserved_def)
  let ?ch = "\<lambda>r. (change r)\<lparr>dr_state := st, dr_stateVersion := dr_stateVersion r + 1, dr_updatedAt := at\<rparr>"
  let ?db1 = "reserved inp act actor at db"
  obtain n db2 where upd: "updateRequest (ti_requestId inp)
      (\<lambda>r. dr_state r = DPending \<and> dr_stateVersion r = v) ?ch ?db1 = (Inr n, db2)" and n: "n = 1"
    using run unfolding transition_row_def res by (auto split: prod.splits sum.splits if_splits)
  obtain row where row: "map_of (da_requests ?db1) (ti_requestId inp) = Some row"
    "dr_state row = DPending" "dr_stateVersion row = v"
    and db2: "db2 = ?db1\<lparr>da_requests := AList.update (ti_requestId inp) (?ch row) (da_requests ?db1)\<rparr>"
    using updateRequest_Inr [OF upd] n by auto
  let ?ev = "\<lparr>de_eventId = eid, de_requestId = ti_requestId inp, de_fromState = Some DPending,
               de_toState = st, de_actorId = actor, de_signature = ti_signature inp, de_createdAt = at\<rparr>"
  obtain u db3 where ins: "insertEvent ?ev db2 = (Inr u, db3)" and out: "db' = db3"
    "dual_getOrThrow (ti_requestId inp) db3 = Inr r"
    using run unfolding transition_row_def res prod.case sum.case bool.case upd n
    by (auto split: prod.splits sum.splits)
  have db3: "db3 = settled (ti_requestId inp) (?ch row) ?ev ?db1"
    using insertEvent_Inr [OF ins] by (simp add: db2 settled_def)
  have "r = ?ch row"
    using out(2) by (simp add: db3 settled_def dual_getOrThrow_def dual_get_def map_of_update)
  then show thesis using that row db3 out(1) by (simp add: reserved_def)
qed

lemma isIdempotentReplay_cases:
  "isIdempotentReplay inp act actor db = Inr False \<longleftrightarrow>
     map_of (da_idempotency db) (ti_approvalRequestId inp) = None"
  "isIdempotentReplay inp act actor db = Inr True \<longleftrightarrow>
     (\<exists>row. map_of (da_idempotency db) (ti_approvalRequestId inp) = Some row \<and> same_call row inp act actor)"
  by (auto simp: isIdempotentReplay_def split: option.splits)

text \<open>\<open>grants\<close>: the guards of \<open>approve\<close> let the call settle the row as approved or as expired.\<close>

definition approve_outcome ::
  "int \<Rightarrow> transition_input \<Rightarrow> string \<Rightarrow> DualApprovalRequest \<Rightarrow> DualApprovalState option" where
  "approve_outcome nowMs inp actor row =
     (if dr_state row \<noteq> DPending then None
      else if nowMs > dr_expiresAtMs row then Some DExpired
      else if dr_initiatorId row = actor \<or> dr_stateVersion row \<noteq> ti_expectedStateVersion inp then None
      else Some DApproved)"

definition approved_row :: "transition_input \<Rightarrow> string \<Rightarrow> string \<Rightarrow> DualApprovalState \<Rightarrow> DualApprovalRequest \<Rightarrow> DualApprovalRequest" where
  "approved_row inp actor at st row =
     (if st = DApproved then row\<lparr>dr_approverId := Some actor, dr_signature := ti_signature inp\<rparr> else row)
       \<lparr>dr_state := st, dr_stateVersion := dr_stateVersion row + 1, dr_updatedAt := at\<rparr>"

definition settling_event :: "string \<Rightarrow> transition_input \<Rightarrow> string \<Rightarrow> string \<Rightarrow> DualApprovalState \<Rightarrow> DualApprovalEvent" where
  "settling_event eid inp actor at st =
     \<lparr>de_eventId = eid, de_requestId = ti_requestId inp, de_fromState = Some DPending, de_toState = st,
      de_actorId = actor, de_signature = ti_signature inp, de_createdAt = at\<rparr>"

lemma approve_tx_Inr:
  assumes "approve_tx eid at now inp actor db = (Inr r, db')"
  obtains (replay) old where "map_of (da_idempotency db) (ti_approvalRequestId inp) = Some old"
      and "same_call old inp DoApprove actor" and "db' = db" and "dual_getOrThrow (ti_requestId inp) db = Inr r"
  | (settle) row st where "map_of (da_idempotency db) (ti_approvalRequestId inp) = None"
      and "map_of (da_requests db) (ti_requestId inp) = Some row"
      and "approve_outcome now inp actor row = Some st"
      and "r = approved_row inp actor at st row"
      and "db' = settled (ti_requestId inp) r (settling_event eid inp actor at st)
                   (reserved inp DoApprove actor at db)"
proof (cases "isIdempotentReplay inp DoApprove actor db")
  case (Inl e)
  with assms show thesis by (simp add: approve_tx_def)
next
  case (Inr b)
  show thesis
  proof (cases b)
    case True
    with Inr obtain old where "map_of (da_idempotency db) (ti_approvalRequestId inp) = Some old"
      "same_call old inp DoApprove actor" by (auto simp: isIdempotentReplay_cases(2))
    with replay assms Inr True show thesis by (auto simp: approve_tx_def)
  next
    case False
    then have b: "b = False" by simp
    with Inr have none: "map_of (da_idempotency db) (ti_approvalRequestId inp) = None"
      by (simp add: isIdempotentReplay_cases(1))
    obtain row where row: "map_of (da_requests db) (ti_requestId inp) = Some row"
      and get: "dual_getOrThrow (ti_requestId inp) db = Inr row"
      using assms Inr False
      by (auto simp: approve_tx_def dual_getOrThrow_def dual_get_def split: option.splits)
    note run = assms [unfolded approve_tx_def Inr get sum.case b bool.case]
    have pend: "dr_state row = DPending" using run by (simp split: if_splits)
    show thesis
    proof (cases "now > dr_expiresAtMs row")
      case True
      with run pend have "transition_row eid at inp DoApprove actor DExpired (dr_stateVersion row) id db = (Inr r, db')"
        by simp
      then show thesis using none
        by (rule transition_row_Inr)
          (rule settle [of row DExpired], use none row True pend in
            \<open>auto simp: approve_outcome_def approved_row_def settling_event_def\<close>)
    next
      case live: False
      with run pend have ne: "dr_initiatorId row \<noteq> actor" by (simp split: if_splits)
      from run pend live ne have v: "dr_stateVersion row = ti_expectedStateVersion inp"
        by (simp split: if_splits)
      from run pend live ne v have "transition_row eid at inp DoApprove actor DApproved
          (ti_expectedStateVersion inp) (\<lambda>r. r\<lparr>dr_approverId := Some actor, dr_signature := ti_signature inp\<rparr>) db
            = (Inr r, db')"
        by simp
      then show thesis using none
        by (rule transition_row_Inr)
          (rule settle [of row DApproved], use none row live pend ne v in
            \<open>auto simp: approve_outcome_def approved_row_def settling_event_def\<close>)
    qed
  qed
qed

lemma cancel_tx_Inr:
  assumes "cancel_tx eid at inp actor db = (Inr r, db')"
  obtains (replay) old where "map_of (da_idempotency db) (ti_approvalRequestId inp) = Some old"
      and "same_call old inp DoCancel actor" and "db' = db" and "dual_getOrThrow (ti_requestId inp) db = Inr r"
  | (settle) row where "map_of (da_idempotency db) (ti_approvalRequestId inp) = None"
      and "map_of (da_requests db) (ti_requestId inp) = Some row" and "dr_state row = DPending"
      and "r = row\<lparr>dr_signature := ti_signature inp, dr_state := DCanceled,
                 dr_stateVersion := dr_stateVersion row + 1, dr_updatedAt := at\<rparr>"
      and "db' = settled (ti_requestId inp) r (settling_event eid inp actor at DCanceled)
                   (reserved inp DoCancel actor at db)"
proof (cases "isIdempotentReplay inp DoCancel actor db")
  case (Inl e)
  with assms show thesis by (simp add: cancel_tx_def)
next
  case (Inr b)
  show thesis
  proof (cases b)
    case True
    with Inr obtain old where "map_of (da_idempotency db) (ti_approvalRequestId inp) = Some old"
      "same_call old inp DoCancel actor" by (auto simp: isIdempotentReplay_cases(2))
    with replay assms Inr True show thesis by (auto simp: cancel_tx_def)
  next
    case False
    then have b: "b = False" by simp
    with Inr have none: "map_of (da_idempotency db) (ti_approvalRequestId inp) = None"
      by (simp add: isIdempotentReplay_cases(1))
    obtain row where row: "map_of (da_requests db) (ti_requestId inp) = Some row"
      and get: "dual_getOrThrow (ti_requestId inp) db = Inr row"
      using assms Inr False
      by (auto simp: cancel_tx_def dual_getOrThrow_def dual_get_def split: option.splits)
    note run = assms [unfolded cancel_tx_def Inr get sum.case b bool.case]
    then have "transition_row eid at inp DoCancel actor DCanceled (ti_expectedStateVersion inp)
          (\<lambda>r. r\<lparr>dr_signature := ti_signature inp\<rparr>) db = (Inr r, db')"
      by (simp split: if_splits)
    then show thesis using none
      by (rule transition_row_Inr)
        (rule settle [of row], use none row in \<open>auto simp: settling_event_def\<close>)
  qed
qed

section \<open>Every call keeps rows and event log consistent\<close>

lemma closes_approved:
  assumes "approve_outcome now inp actor row = Some st" and "dr_requestId row = ti_requestId inp"
  shows "closes row (approved_row inp actor at st row) (settling_event eid inp actor at st)"
  using assms by (auto simp: approve_outcome_def closes_def approved_row_def settling_event_def split: if_splits)

lemma approve_keeps_ok:
  assumes ok: "dual_ok db" and run: "approve h eid now inp db = (r, db')"
  shows "dual_ok db'"
proof (cases r)
  case (Inl e)
  then have "db' = db" using run by (auto simp: approve_def dest: transaction_Inl split: sum.splits)
  with ok show ?thesis by simp
next
  case (Inr a)
  then obtain actor where "approve_tx eid (host_iso h now) now inp actor db = (Inr a, db')"
    using run by (auto simp: approve_def transaction_Inr split: sum.splits)
  then show ?thesis
  proof (cases rule: approve_tx_Inr)
    case replay
    with ok show ?thesis by simp
  next
    case (settle row st)
    have "dr_requestId row = ti_requestId inp" using ok settle(2) by (simp add: dual_ok_def row_ok_def)
    then show ?thesis
      unfolding settle(5) settle(4)
      by (intro dual_ok_settled [of _ _ row] closes_approved [OF settle(3)])
         (use ok settle(2) in \<open>simp_all add: reserved_def\<close>,
          use ok in \<open>simp add: reserved_def [symmetric]\<close>)
  qed
qed

lemma cancel_keeps_ok:
  assumes ok: "dual_ok db" and run: "cancel h eid now inp db = (r, db')"
  shows "dual_ok db'"
proof (cases r)
  case (Inl e)
  then have "db' = db" using run by (auto simp: cancel_def dest: transaction_Inl split: sum.splits)
  with ok show ?thesis by simp
next
  case (Inr a)
  then obtain actor where "cancel_tx eid (host_iso h now) inp actor db = (Inr a, db')"
    using run by (auto simp: cancel_def transaction_Inr split: sum.splits)
  then show ?thesis
  proof (cases rule: cancel_tx_Inr)
    case replay
    with ok show ?thesis by simp
  next
    case (settle row)
    have "dr_requestId row = ti_requestId inp" and "dr_approverId row = None"
      using ok settle(2,3) by (simp_all add: dual_ok_def row_ok_def)
    then have "closes row a (settling_event eid inp actor (host_iso h now) DCanceled)"
      using settle(3,4) by (simp add: closes_def settling_event_def)
    then show ?thesis unfolding settle(5)
      by (intro dual_ok_settled [of _ _ row]) (use ok settle(2) in \<open>simp_all add: reserved_def [symmetric]\<close>,
          simp add: reserved_def)
  qed
qed

lemma create_keeps_ok:
  assumes ok: "dual_ok db" and run: "createRequest h rid eid now inp db = (r, db')"
    and fresh: "eid \<notin> de_eventId ` set (da_events db)"
  shows "dual_ok db'"
proof (cases "db' = db")
  case True
  with ok show ?thesis by simp
next
  case False
  obtain who where who: "normalizeIdentity (host_sha256 h) (ci_initiatorId inp) = Inr who"
    using run False by (auto simp: createRequest_def Let_def split: sum.splits)
  define row where "row = \<lparr>dr_requestId = rid, dr_action = ci_action inp, dr_state = DPending,
    dr_initiatorId = who, dr_approverId = None, dr_reason = ci_reason inp,
    dr_signature = ci_signature inp, dr_expiresAtMs = now + max 1 (or_else (ci_ttlMs inp) (5 * 60 * 1000)),
    dr_stateVersion = 0, dr_createdAt = host_iso h now, dr_updatedAt = host_iso h now\<rparr>"
  define ev where "ev = \<lparr>de_eventId = eid, de_requestId = rid, de_fromState = None,
    de_toState = DPending, de_actorId = who, de_signature = ci_signature inp, de_createdAt = host_iso h now\<rparr>"
  have new: "\<not> has_key (da_requests db) rid"
    using run False who by (auto simp: createRequest_def Let_def insertRequest_def)
  have "insertEvent ev (db\<lparr>da_requests := da_requests db @ [(rid, row)]\<rparr>) =
    (Inr (), db\<lparr>da_requests := da_requests db @ [(rid, row)], da_events := da_events db @ [ev]\<rparr>)"
    using fresh by (simp add: insertEvent_def ev_def has_key_def map_of_eq_None_iff)
  then have db': "db' = db\<lparr>da_requests := da_requests db @ [(rid, row)], da_events := da_events db @ [ev]\<rparr>"
    using run who new
    by (auto simp: createRequest_def Let_def insertRequest_def row_def ev_def split: prod.splits sum.splits)
  have none: "map_of (da_requests db) rid = None" using new by (simp add: has_key_def)
  have no_story: "story rid db = []"
    using ok new by (auto simp: story_def dual_ok_def filter_empty_conv)
  have story': "story k db' = story k db @ (if k = rid then [(None, DPending, who)] else [])" for k
    by (auto simp: story_def db' ev_def)
  have get': "map_of (da_requests db') k =
      (if k = rid then Some row else map_of (da_requests db) k)" for k
    using none by (auto simp: db' map_add_def split: option.splits)
  show ?thesis unfolding dual_ok_def
  proof (intro conjI allI impI ballI)
    show "wf_map (da_requests db')" using ok new by (simp add: db' dual_ok_def wf_map_def keys_def has_key_iff)
  next
    fix k row' assume "map_of (da_requests db') k = Some row'"
    then show "row_ok db' k row'"
      using ok no_story by (auto simp: row_ok_def story' get' dual_ok_def row_def split: if_split_asm)
  next
    fix e assume "e \<in> set (da_events db')"
    then show "has_key (da_requests db') (de_requestId e)"
      using ok by (auto simp: has_key_def get' dual_ok_def) (auto simp: db' ev_def)
  qed
qed

lemma expire_rows_keeps_ok:
  "dual_ok db \<Longrightarrow> expire_rows ids at rids n db = (Inr m, db') \<Longrightarrow> dual_ok db'"
proof (induction ids at rids n db rule: expire_rows.induct)
  case (1 ids at n db)
  then show ?case by simp
next
  case (2 ids at rid rids n db)
  let ?ch = "\<lambda>r. r\<lparr>dr_state := DExpired, dr_stateVersion := dr_stateVersion r + 1, dr_updatedAt := at\<rparr>"
  let ?ev = "\<lparr>de_eventId = ids 0, de_requestId = rid, de_fromState = Some DPending,
    de_toState = DExpired, de_actorId = ''system'', de_signature = None, de_createdAt = at\<rparr>"
  obtain k db1 where upd: "updateRequest rid (\<lambda>r. dr_state r = DPending) ?ch db = (Inr k, db1)"
    using "2.prems"(2) by (simp split: prod.splits sum.splits)
  show ?case
  proof (cases "k = 1")
    case False
    then have "k = 0" using upd updateRequest_Inr [OF upd] by blast
    then have "db1 = db" using upd updateRequest_0 by blast
    then show ?thesis using 2 upd False by (simp add: comp_def)
  next
    case True
    with upd obtain row where row: "map_of (da_requests db) rid = Some row" "dr_state row = DPending"
      and db1: "db1 = db\<lparr>da_requests := AList.update rid (?ch row) (da_requests db)\<rparr>"
      by (auto elim: updateRequest_Inr)
    obtain u db2 where ins: "insertEvent ?ev db1 = (Inr u, db2)"
      and rest: "expire_rows (ids \<circ> Suc) at rids (n + 1) db2 = (Inr m, db')"
      using "2.prems"(2) upd True by (simp split: prod.splits sum.splits)
    have "db2 = settled rid (?ch row) ?ev db" using insertEvent_Inr [OF ins] by (simp add: db1 settled_def)
    moreover have "closes row (?ch row) ?ev"
      using "2.prems"(1) row by (simp add: closes_def dual_ok_def row_ok_def)
    ultimately have "dual_ok db2" using dual_ok_settled [OF "2.prems"(1) row(1)] by simp
    then show ?thesis using "2.IH"(2) [OF upd [symmetric] refl _ ins [symmetric] refl] True rest by (simp add: comp_def)
  qed
qed

lemma expire_keeps_ok:
  assumes "dual_ok db" and "expirePending h ids now db = (r, db')"
  shows "dual_ok db'"
proof (cases r)
  case (Inl e)
  with assms show ?thesis by (auto simp: expirePending_def dest: transaction_Inl)
next
  case (Inr n)
  with assms show ?thesis by (auto simp: expirePending_def transaction_Inr intro: expire_rows_keeps_ok)
qed

lemma dual_step_keeps_ok: "dual_step h db db' \<Longrightarrow> dual_ok db \<Longrightarrow> dual_ok db'"
  by (erule dual_stepE)
     (auto intro: create_keeps_ok approve_keeps_ok cancel_keeps_ok expire_keeps_ok)

lemma dual_reachable_ok: "dual_reachable h db \<Longrightarrow> dual_ok db"
proof (induction rule: dual_reachable.induct)
  case start
  show ?case by (simp add: dual_ok_def empty_dual_def)
next
  case (step db db')
  then show ?case by (blast intro: dual_step_keeps_ok)
qed

section \<open>A settled request stays as it is\<close>

definition settled_row :: "dual_db \<Rightarrow> string \<Rightarrow> DualApprovalRequest \<Rightarrow> bool" where
  "settled_row db rid row \<longleftrightarrow> map_of (da_requests db) rid = Some row \<and> dr_state row \<noteq> DPending"

lemma settled_row_settled:
  assumes "settled_row db k row" and "map_of (da_requests db) rid = Some old" and "dr_state old = DPending"
  shows "settled_row (settled rid new ev db) k row"
  using assms by (auto simp: settled_row_def settled_def map_of_update)

lemma settled_row_reserved [simp]: "settled_row (reserved inp act actor at db) k row = settled_row db k row"
  by (simp add: settled_row_def reserved_def)

lemma map_of_requests_reserved [simp]: "da_requests (reserved inp act actor at db) = da_requests db"
  by (simp add: reserved_def)

lemma da_idempotency_settled [simp]: "da_idempotency (settled rid new ev db) = da_idempotency db"
  by (simp add: settled_def)

lemma outcome_pending: "approve_outcome now inp actor row = Some st \<Longrightarrow> dr_state row = DPending \<and> st \<noteq> DPending"
  by (auto simp: approve_outcome_def split: if_splits)

lemma createRequest_tables:
  "createRequest h rid eid now inp db = (r, db') \<Longrightarrow>
     da_idempotency db' = da_idempotency db \<and>
     (\<forall>k row. map_of (da_requests db) k = Some row \<longrightarrow> map_of (da_requests db') k = Some row)"
  by (auto simp: createRequest_def insertRequest_def insertEvent_def Let_def
      split: sum.splits prod.splits if_splits)

lemma expire_rows_tables:
  "expire_rows ids at rids n db = (r, db') \<Longrightarrow>
     da_idempotency db' = da_idempotency db \<and>
     (\<forall>k row. settled_row db k row \<longrightarrow> settled_row db' k row)"
proof (induction ids at rids n db rule: expire_rows.induct)
  case (1 ids at n db)
  then show ?case by simp
next
  case (2 ids at rid rids n db)
  let ?ch = "\<lambda>r. r\<lparr>dr_state := DExpired, dr_stateVersion := dr_stateVersion r + 1, dr_updatedAt := at\<rparr>"
  let ?ev = "\<lparr>de_eventId = ids 0, de_requestId = rid, de_fromState = Some DPending,
    de_toState = DExpired, de_actorId = ''system'', de_signature = None, de_createdAt = at\<rparr>"
  obtain u db1 where upd: "updateRequest rid (\<lambda>r. dr_state r = DPending) ?ch db = (u, db1)" by force
  have kept: "da_idempotency db1 = da_idempotency db \<and> (\<forall>k row. settled_row db k row \<longrightarrow> settled_row db1 k row)"
    using upd by (auto simp: updateRequest_def settled_row_def map_of_update split: option.splits if_splits)
  show ?case
  proof (cases u)
    case (Inl e)
    with "2.prems" upd kept show ?thesis by simp
  next
    case (Inr k)
    show ?thesis
    proof (cases "k = 1")
      case False
      with "2.IH"(1) [OF upd [symmetric] Inr False] "2.prems" upd Inr kept show ?thesis by (simp add: comp_def)
    next
      case True
      obtain v db2 where ins: "insertEvent ?ev db1 = (v, db2)" by force
      have same: "da_requests db2 = da_requests db1 \<and> da_idempotency db2 = da_idempotency db1"
        using ins by (auto simp: insertEvent_def split: if_splits)
      show ?thesis
      proof (cases v)
        case (Inl e)
        with "2.prems" upd Inr True ins kept same show ?thesis by (simp add: settled_row_def)
      next
        case v: (Inr w)
        with "2.IH"(2) [OF upd [symmetric] Inr _ ins [symmetric] v] "2.prems" upd Inr True ins kept same
        show ?thesis by (simp add: comp_def settled_row_def)
      qed
    qed
  qed
qed

lemma approve_tables:
  assumes run: "approve h eid now inp db = (r, db')"
  shows "(\<forall>k row. settled_row db k row \<longrightarrow> settled_row db' k row) \<and>
    (\<forall>k d. map_of (da_idempotency db) k = Some d \<longrightarrow> map_of (da_idempotency db') k = Some d)"
proof (cases r)
  case (Inl e)
  then show ?thesis using run by (auto simp: approve_def dest: transaction_Inl split: sum.splits)
next
  case (Inr a)
  then obtain actor where "approve_tx eid (host_iso h now) now inp actor db = (Inr a, db')"
    using run by (auto simp: approve_def transaction_Inr split: sum.splits)
  then show ?thesis
  proof (cases rule: approve_tx_Inr)
    case (settle row st)
    then show ?thesis
      using outcome_pending [OF settle(3)]
      by (auto intro!: settled_row_settled) (auto simp: reserved_def)
  qed simp
qed

lemma cancel_tables:
  assumes run: "cancel h eid now inp db = (r, db')"
  shows "(\<forall>k row. settled_row db k row \<longrightarrow> settled_row db' k row) \<and>
    (\<forall>k d. map_of (da_idempotency db) k = Some d \<longrightarrow> map_of (da_idempotency db') k = Some d)"
proof (cases r)
  case (Inl e)
  then show ?thesis using run by (auto simp: cancel_def dest: transaction_Inl split: sum.splits)
next
  case (Inr a)
  then obtain actor where "cancel_tx eid (host_iso h now) inp actor db = (Inr a, db')"
    using run by (auto simp: cancel_def transaction_Inr split: sum.splits)
  then show ?thesis
  proof (cases rule: cancel_tx_Inr)
    case (settle row)
    then show ?thesis by (auto intro!: settled_row_settled) (auto simp: reserved_def)
  qed simp
qed

lemma dual_step_tables:
  assumes "dual_step h db db'"
  shows "(\<forall>k row. settled_row db k row \<longrightarrow> settled_row db' k row) \<and>
    (\<forall>k d. map_of (da_idempotency db) k = Some d \<longrightarrow> map_of (da_idempotency db') k = Some d)"
  using assms
proof (cases rule: dual_step.cases)
  case (create rid eid now inp r)
  then show ?thesis using createRequest_tables by (fastforce simp: settled_row_def)
next
  case (approve eid now tinp r)
  then show ?thesis by (simp add: approve_tables)
next
  case (cancel eid now tinp r)
  then show ?thesis by (simp add: cancel_tables)
next
  case (expire ids now n)
  then obtain r0 db0 where "expire_rows ids (host_iso h now) (expirable now db) 0 db = (r0, db0)"
    and "db' = db0 \<or> db' = db"
    by (auto simp: expirePending_def transaction_def split: prod.splits sum.splits)
  then show ?thesis using expire_rows_tables by fastforce
qed

lemma settled_row_run:
  "(dual_step h)\<^sup>*\<^sup>* db db' \<Longrightarrow> settled_row db k row \<Longrightarrow> settled_row db' k row"
  by (induction rule: rtranclp_induct) (use dual_step_tables in blast)+

lemma idempotency_run:
  "(dual_step h)\<^sup>*\<^sup>* db db' \<Longrightarrow> map_of (da_idempotency db) k = Some d \<Longrightarrow> map_of (da_idempotency db') k = Some d"
  by (induction rule: rtranclp_induct) (use dual_step_tables in blast)+

section \<open>An idempotency row belongs to a settled request\<close>

definition idem_ok :: "dual_db \<Rightarrow> bool" where
  "idem_ok db \<longleftrightarrow>
     (\<forall>k d. map_of (da_idempotency db) k = Some d \<longrightarrow> (\<exists>row. settled_row db (di_requestId d) row))"

lemma settled_row_new:
  "dr_state new \<noteq> DPending \<Longrightarrow> settled_row (settled rid new ev db) rid new"
  by (simp add: settled_row_def settled_def map_of_update)

lemma map_of_reserved:
  "map_of (da_idempotency (reserved inp act actor at db)) k =
     (case map_of (da_idempotency db) k of Some d \<Rightarrow> Some d
      | None \<Rightarrow> if k = ti_approvalRequestId inp
          then Some \<lparr>di_requestId = ti_requestId inp, di_action = act, di_actorId = actor, di_createdAt = at\<rparr>
          else None)"
  by (auto simp: reserved_def map_add_def split: option.splits)

lemma idem_ok_settled:
  assumes ok: "idem_ok db" and row: "map_of (da_requests db) (ti_requestId inp) = Some row"
    and pend: "dr_state row = DPending" and new: "dr_state new \<noteq> DPending"
  shows "idem_ok (settled (ti_requestId inp) new ev (reserved inp act actor at db))"
  unfolding idem_ok_def
proof (intro allI impI)
  let ?db' = "settled (ti_requestId inp) new ev (reserved inp act actor at db)"
  fix k d assume d: "map_of (da_idempotency ?db') k = Some d"
  show "\<exists>row. settled_row ?db' (di_requestId d) row"
  proof (cases "map_of (da_idempotency db) k")
    case None
    with d have "di_requestId d = ti_requestId inp" by (auto simp: map_of_reserved split: if_splits)
    with settled_row_new [OF new] show ?thesis by auto
  next
    case (Some d0)
    with d have "d0 = d" by (simp add: map_of_reserved)
    with ok Some obtain row' where "settled_row db (di_requestId d) row'" by (auto simp: idem_ok_def)
    then have "settled_row ?db' (di_requestId d) row'" using row pend by (simp add: settled_row_settled)
    then show ?thesis by blast
  qed
qed

lemma idem_ok_step:
  assumes step: "dual_step h db db'" and ok: "idem_ok db"
  shows "idem_ok db'"
proof -
  have same: "idem_ok db'" if "da_idempotency db' = da_idempotency db"
    using that ok dual_step_tables [OF step] by (fastforce simp: idem_ok_def)
  from step show ?thesis
  proof (cases rule: dual_step.cases)
    case (create rid eid now inp r)
    then show ?thesis using createRequest_tables same by blast
  next
    case (expire ids now n)
    then show ?thesis using expire_rows_tables same
      by (fastforce simp: expirePending_def transaction_def split: prod.splits sum.splits)
  next
    case (approve eid now inp r)
    show ?thesis
    proof (cases r)
      case (Inl e)
      with approve(1) ok show ?thesis by (auto simp: approve_def dest: transaction_Inl split: sum.splits)
    next
      case (Inr a)
      then obtain actor where "approve_tx eid (host_iso h now) now inp actor db = (Inr a, db')"
        using approve(1) by (auto simp: approve_def transaction_Inr split: sum.splits)
      then show ?thesis
      proof (cases rule: approve_tx_Inr)
        case (settle row st)
        with outcome_pending [OF settle(3)] ok show ?thesis
          by (auto simp: approved_row_def intro!: idem_ok_settled)
      qed (simp add: ok)
    qed
  next
    case (cancel eid now inp r)
    show ?thesis
    proof (cases r)
      case (Inl e)
      with cancel(1) ok show ?thesis by (auto simp: cancel_def dest: transaction_Inl split: sum.splits)
    next
      case (Inr a)
      then obtain actor where "cancel_tx eid (host_iso h now) inp actor db = (Inr a, db')"
        using cancel(1) by (auto simp: cancel_def transaction_Inr split: sum.splits)
      then show ?thesis
        by (cases rule: cancel_tx_Inr) (auto simp: ok intro!: idem_ok_settled)
    qed
  qed
qed

lemma dual_reachable_idem: "dual_reachable h db \<Longrightarrow> idem_ok db"
proof (induction rule: dual_reachable.induct)
  case start
  show ?case by (simp add: idem_ok_def empty_dual_def)
next
  case (step db db')
  then show ?case by (blast intro: idem_ok_step)
qed

lemma approve_leaves_trace:
  assumes ok: "idem_ok db" and run: "approve h eid now inp db = (Inr r, db')"
    and who: "normalizeIdentity (host_sha256 h) (ti_actorId inp) = Inr actor"
  shows "settled_row db' (ti_requestId inp) r \<and>
    (\<exists>d. map_of (da_idempotency db') (ti_approvalRequestId inp) = Some d \<and> same_call d inp DoApprove actor)"
proof -
  have "approve_tx eid (host_iso h now) now inp actor db = (Inr r, db')"
    using run who by (simp add: approve_def transaction_Inr)
  then show ?thesis
  proof (cases rule: approve_tx_Inr)
    case (replay old)
    then show ?thesis
      using ok by (fastforce simp: idem_ok_def same_call_def settled_row_def dual_getOrThrow_def dual_get_def
          split: option.splits)
  next
    case (settle row st)
    then show ?thesis
      using outcome_pending [OF settle(3)]
      by (auto simp: settled_row_new approved_row_def map_of_reserved same_call_def)
  qed
qed

lemma approve_replay:
  assumes "map_of (da_idempotency db) (ti_approvalRequestId inp) = Some d" and "same_call d inp DoApprove actor"
    and "normalizeIdentity (host_sha256 h) (ti_actorId inp) = Inr actor"
    and "map_of (da_requests db) (ti_requestId inp) = Some r"
  shows "approve h eid now inp db = (Inr r, db)"
  using assms
  by (simp add: approve_def transaction_def approve_tx_def isIdempotentReplay_def dual_getOrThrow_def dual_get_def)

section \<open>The sweep of expired requests\<close>

definition expired_row :: "string \<Rightarrow> DualApprovalRequest \<Rightarrow> DualApprovalRequest" where
  "expired_row at row = row\<lparr>dr_state := DExpired, dr_stateVersion := dr_stateVersion row + 1, dr_updatedAt := at\<rparr>"

lemma expire_rows_run:
  assumes "dual_ok db" and "inj ids" and "\<forall>n. ids n \<notin> de_eventId ` set (da_events db)"
    and "distinct rids" and "\<forall>rid \<in> set rids. \<exists>row. map_of (da_requests db) rid = Some row \<and> dr_state row = DPending"
  shows "\<exists>db'. expire_rows ids at rids n db = (Inr (n + length rids), db') \<and>
    (\<forall>k. map_of (da_requests db') k =
       (if k \<in> set rids then map_option (expired_row at) (map_of (da_requests db) k) else map_of (da_requests db) k))"
  using assms
proof (induction rids arbitrary: ids n db)
  case Nil
  then show ?case by simp
next
  case (Cons rid rids)
  obtain row where row: "map_of (da_requests db) rid = Some row" "dr_state row = DPending"
    using Cons.prems(5) by auto
  let ?ev = "\<lparr>de_eventId = ids 0, de_requestId = rid, de_fromState = Some DPending,
    de_toState = DExpired, de_actorId = ''system'', de_signature = None, de_createdAt = at\<rparr>"
  let ?db1 = "db\<lparr>da_requests := AList.update rid (expired_row at row) (da_requests db)\<rparr>"
  let ?db2 = "settled rid (expired_row at row) ?ev db"
  have okrow: "row_ok db rid row" using Cons.prems(1) row by (simp add: dual_ok_def)
  have upd: "updateRequest rid (\<lambda>r. dr_state r = DPending)
      (\<lambda>r. r\<lparr>dr_state := DExpired, dr_stateVersion := dr_stateVersion r + 1, dr_updatedAt := at\<rparr>) db = (Inr 1, ?db1)"
    using row okrow by (simp add: updateRequest_def expired_row_def row_ok_def)
  have ins: "insertEvent ?ev ?db1 = (Inr (), ?db2)"
    using Cons.prems(3) by (auto simp: insertEvent_def settled_def has_key_def map_of_update image_iff)
  have "closes row (expired_row at row) ?ev"
    using okrow row by (simp add: closes_def row_ok_def expired_row_def)
  then have ok2: "dual_ok ?db2" using dual_ok_settled [OF Cons.prems(1) row(1)] by blast
  have fresh2: "\<forall>m. (ids \<circ> Suc) m \<notin> de_eventId ` set (da_events ?db2)"
    using Cons.prems(2,3) by (auto simp: settled_def dest: injD)
  have inj2: "inj (ids \<circ> Suc)" using Cons.prems(2) by (simp add: inj_compose)
  have pend2: "\<forall>k \<in> set rids. \<exists>row. map_of (da_requests ?db2) k = Some row \<and> dr_state row = DPending"
    using Cons.prems(4,5) by (auto simp: settled_def map_of_update)
  have dist2: "distinct rids" using Cons.prems(4) by simp
  from Cons.IH [OF ok2 inj2 fresh2 dist2 pend2, of "Suc n"]
  obtain db' where db': "expire_rows (ids \<circ> Suc) at rids (Suc n) ?db2 = (Inr (Suc n + length rids), db')"
    "\<forall>k. map_of (da_requests db') k =
       (if k \<in> set rids then map_option (expired_row at) (map_of (da_requests ?db2) k) else map_of (da_requests ?db2) k)"
    by blast
  have "expire_rows ids at (rid # rids) n db = (Inr (n + length (rid # rids)), db')"
    using db'(1) by (simp add: upd ins)
  moreover have "map_of (da_requests db') k =
       (if k \<in> set (rid # rids) then map_option (expired_row at) (map_of (da_requests db) k) else map_of (da_requests db) k)" for k
    using db'(2) Cons.prems(4) row(1) by (auto simp: settled_def map_of_update)
  ultimately show ?case by blast
qed

lemma in_expirable:
  assumes "wf_map (da_requests db)"
  shows "rid \<in> set (expirable now db) \<longleftrightarrow>
    (\<exists>row. map_of (da_requests db) rid = Some row \<and> dr_state row = DPending \<and> dr_expiresAtMs row < now)"
  using assms by (force simp: expirable_def wf_map_def keys_def)

lemma distinct_expirable: "wf_map (da_requests db) \<Longrightarrow> distinct (expirable now db)"
  by (simp add: expirable_def wf_map_def keys_def distinct_map_filter)

section \<open>A run used by the examples\<close>

definition demo_host :: host where
  "demo_host = \<lparr>host_sha256 = (\<lambda>s. ''h'' @ s), host_iso = show_int\<rparr>"

definition demo_create :: create_input where
  "demo_create = \<lparr>ci_action = Freeze, ci_initiatorId = ''al'', ci_ttlMs = Some 100, ci_reason = None,
     ci_signature = None\<rparr>"

definition demo_by :: "string \<Rightarrow> string \<Rightarrow> transition_input" where
  "demo_by key who = \<lparr>ti_approvalRequestId = key, ti_requestId = ''r'', ti_actorId = who,
     ti_expectedStateVersion = 0, ti_signature = None\<rparr>"

definition demo_db1 :: dual_db where
  "demo_db1 = snd (createRequest demo_host ''r'' ''e0'' 5 demo_create empty_dual)"

definition demo_db2 :: dual_db where
  "demo_db2 = snd (approve demo_host ''e1'' 6 (demo_by ''k'' ''bo'') demo_db1)"

lemma is_uuid_length: "is_uuid s \<Longrightarrow> length s = 36"
  by (auto simp: is_uuid_def uuid_classes_def dest: list_all2_lengthD)

lemma demo_iso: "host_iso demo_host = show_int"
  by (simp add: demo_host_def)

lemma normalize_demo:
  "normalizeIdentity (host_sha256 demo_host) ''al'' = Inr ''hal''"
  "normalizeIdentity (host_sha256 demo_host) ''bo'' = Inr ''hbo''"
  using is_uuid_length [of "''al''"] is_uuid_length [of "''bo''"]
  by (auto simp: normalizeIdentity_def demo_host_def trim_def trim_left_def is_space_def code_def
      to_lower_def lower_char_def is_upper_def Let_def)

definition demo_row :: DualApprovalRequest where
  "demo_row = \<lparr>dr_requestId = ''r'', dr_action = Freeze, dr_state = DPending, dr_initiatorId = ''hal'',
     dr_approverId = None, dr_reason = None, dr_signature = None, dr_expiresAtMs = 105, dr_stateVersion = 0,
     dr_createdAt = show_int 5, dr_updatedAt = show_int 5\<rparr>"

lemma demo_db1_eq:
  "createRequest demo_host ''r'' ''e0'' 5 demo_create empty_dual = (Inr demo_row, demo_db1)"
  "demo_db1 = \<lparr>da_requests = [(''r'', demo_row)],
     da_events = [\<lparr>de_eventId = ''e0'', de_requestId = ''r'', de_fromState = None, de_toState = DPending,
        de_actorId = ''hal'', de_signature = None, de_createdAt = show_int 5\<rparr>],
     da_idempotency = []\<rparr>"
  by (simp_all add: createRequest_def demo_create_def demo_db1_def normalize_demo insertRequest_def insertEvent_def
      empty_dual_def has_key_def dual_getOrThrow_def dual_get_def demo_row_def demo_iso Let_def)

lemma demo_db2_eq:
  "approve demo_host ''e1'' 6 (demo_by ''k'' ''bo'') demo_db1 =
     (Inr (approved_row (demo_by ''k'' ''bo'') ''hbo'' (show_int 6) DApproved demo_row), demo_db2)"
  "demo_db2 = settled ''r'' (approved_row (demo_by ''k'' ''bo'') ''hbo'' (show_int 6) DApproved demo_row)
     (settling_event ''e1'' (demo_by ''k'' ''bo'') ''hbo'' (show_int 6) DApproved)
     (reserved (demo_by ''k'' ''bo'') DoApprove ''hbo'' (show_int 6) demo_db1)"
  by (simp_all add: demo_db2_def demo_db1_eq(2) approve_def demo_by_def normalize_demo transaction_def approve_tx_def
      isIdempotentReplay_def dual_getOrThrow_def dual_get_def demo_row_def transition_row_def
      reserveIdempotency_def updateRequest_def insertEvent_def has_key_def settled_def reserved_def
      approved_row_def settling_event_def demo_iso)

lemma demo_reachable: "dual_reachable demo_host demo_db1" "dual_reachable demo_host demo_db2"
proof -
  have "dual_step demo_host empty_dual demo_db1"
    by (rule dual_step.create [OF demo_db1_eq(1)]) (simp add: empty_dual_def)
  then show 1: "dual_reachable demo_host demo_db1"
    by (rule dual_reachable.step [OF dual_reachable.start])
  show "dual_reachable demo_host demo_db2"
    by (rule dual_reachable.step [OF 1 dual_step.approve [OF demo_db2_eq(1)]])
qed

lemma demo_rows:
  "map_of (da_requests demo_db1) ''r'' = Some demo_row"
  "map_of (da_requests demo_db2) ''r'' =
     Some (approved_row (demo_by ''k'' ''bo'') ''hbo'' (show_int 6) DApproved demo_row)"
  by (simp_all add: demo_db1_eq(2) demo_db2_eq(2) settled_def map_of_update)

section \<open>Properties\<close>

text \<open>
  C4: in every state the repository can reach, a request that is approved was approved by exactly
  one actor, who is not its initiator (after both identities are normalised), and its event log is the
  creation by the initiator followed by the approval by that actor.
\<close>

theorem dual_separation_of_duties:
  assumes "dual_reachable h db" and "map_of (da_requests db) rid = Some row" and "dr_state row = DApproved"
  shows "\<exists>actor. dr_approverId row = Some actor \<and> actor \<noteq> dr_initiatorId row \<and>
    story rid db = [(None, DPending, dr_initiatorId row), (Some DPending, DApproved, actor)]"
  using dual_reachable_ok [OF assms(1)] assms(2,3) by (fastforce simp: dual_ok_def row_ok_def)

lemma dual_separation_of_duties_witness:
  "\<exists>actor. story ''r'' demo_db2 = [(None, DPending, ''hal''), (Some DPending, DApproved, actor)] \<and> actor \<noteq> ''hal''"
  using dual_separation_of_duties [OF demo_reachable(2) demo_rows(2)]
  by (auto simp: approved_row_def demo_row_def)

text \<open>
  C17: in every reachable state the event log of a request replays to its row: the logged states follow
  the transition table from \<open>pending\<close>, end in the state of the row, and the version of the row is
  their number, which is at most one.
\<close>

theorem dual_log_replays_to_row:
  assumes "dual_reachable h db" and "map_of (da_requests db) rid = Some row"
  shows "\<exists>path. map (\<lambda>(_, s, _). s) (story rid db) = DPending # path \<and> follows dual_allowed DPending path \<and>
    last (DPending # path) = dr_state row \<and> dr_stateVersion row = int (length path) \<and> length path \<le> 1"
proof -
  have "row_ok db rid row" using dual_reachable_ok [OF assms(1)] assms(2) by (simp add: dual_ok_def)
  then obtain path where path: "map (\<lambda>(_, s, _). s) (story rid db) = DPending # path"
    "follows dual_allowed DPending path" "last (DPending # path) = dr_state row"
    "dr_stateVersion row = int (length path)"
  proof (cases "dr_state row = DPending")
    case True
    with \<open>row_ok db rid row\<close> that [of "[]"] show thesis by (simp add: row_ok_def)
  next
    case False
    with \<open>row_ok db rid row\<close> that [of "[dr_state row]"] show thesis by (auto simp: row_ok_def)
  qed
  with dual_life.path_rank [OF path(2)] show ?thesis by auto
qed

lemma dual_log_replays_to_row_witness:
  "\<exists>path. map (\<lambda>(_, s, _). s) (story ''r'' demo_db2) = DPending # path \<and> last (DPending # path) = DApproved"
proof -
  have "dr_state (approved_row (demo_by ''k'' ''bo'') ''hbo'' (show_int 6) DApproved demo_row) = DApproved"
    by (simp add: approved_row_def)
  with dual_log_replays_to_row [OF demo_reachable(2) demo_rows(2)] show ?thesis by metis
qed

text \<open>
  A request that is approved, expired or canceled keeps its row unchanged through every later
  sequence of calls: it cannot be approved, canceled or expired again.
\<close>

theorem dual_settled_is_final:
  assumes "map_of (da_requests db) rid = Some row" and "dr_state row \<noteq> DPending"
    and "(dual_step h)\<^sup>*\<^sup>* db db'"
  shows "map_of (da_requests db') rid = Some row"
  using settled_row_run [OF assms(3), of rid row] assms(1,2) by (simp add: settled_row_def)

lemma dual_settled_is_final_witness:
  "map_of (da_requests (snd (cancel demo_host ''e2'' 7 (demo_by ''k2'' ''al'') demo_db2))) ''r'' =
     Some (approved_row (demo_by ''k'' ''bo'') ''hbo'' (show_int 6) DApproved demo_row)"
  by (rule dual_settled_is_final [OF demo_rows(2), where h = demo_host])
     (simp add: approved_row_def, rule r_into_rtranclp, rule dual_step.cancel, rule prod.collapse [symmetric])

text \<open>
  An approval call that succeeded can be repeated at any later time, after any other calls and with
  any expected version: the repetition returns the same row and changes nothing.
\<close>

theorem dual_replay_returns_same_row:
  assumes "dual_reachable h db" and "approve h eid now inp db = (Inr r, db1)" and "(dual_step h)\<^sup>*\<^sup>* db1 db2"
    and "ti_approvalRequestId again = ti_approvalRequestId inp" and "ti_requestId again = ti_requestId inp"
    and "normalizeIdentity (host_sha256 h) (ti_actorId again) = normalizeIdentity (host_sha256 h) (ti_actorId inp)"
  shows "approve h eid' now' again db2 = (Inr r, db2)"
proof -
  obtain actor where who: "normalizeIdentity (host_sha256 h) (ti_actorId inp) = Inr actor"
    using assms(2) by (auto simp: approve_def split: sum.splits)
  obtain d where "settled_row db1 (ti_requestId inp) r"
    and "map_of (da_idempotency db1) (ti_approvalRequestId inp) = Some d" "same_call d inp DoApprove actor"
    using approve_leaves_trace [OF dual_reachable_idem [OF assms(1)] assms(2) who] by blast
  then have "map_of (da_requests db2) (ti_requestId inp) = Some r"
    and "map_of (da_idempotency db2) (ti_approvalRequestId inp) = Some d" and "same_call d inp DoApprove actor"
    using settled_row_run [OF assms(3)] idempotency_run [OF assms(3)] by (auto simp: settled_row_def)
  then show ?thesis
    using assms(4-6) who by (intro approve_replay) (auto simp: same_call_def)
qed

lemma dual_replay_returns_same_row_witness:
  "approve demo_host ''e9'' 500 (demo_by ''k'' ''bo'') demo_db2 =
     (Inr (approved_row (demo_by ''k'' ''bo'') ''hbo'' (show_int 6) DApproved demo_row), demo_db2)"
  by (rule dual_replay_returns_same_row [OF demo_reachable(1) demo_db2_eq(1)]) simp_all

text \<open>
  A first approval call on a known request decides exactly as its guards say: past the deadline it
  expires the request, before it an actor other than the initiator with the current version approves
  it, and every other call throws and leaves the three tables as they were.
\<close>

theorem dual_approve_decides:
  assumes "dual_reachable h db" and "normalizeIdentity (host_sha256 h) (ti_actorId inp) = Inr actor"
    and "map_of (da_idempotency db) (ti_approvalRequestId inp) = None"
    and "map_of (da_requests db) (ti_requestId inp) = Some row"
    and "eid \<notin> de_eventId ` set (da_events db)"
  shows "case approve_outcome now inp actor row of
      Some st \<Rightarrow> approve h eid now inp db =
        (Inr (approved_row inp actor (host_iso h now) st row),
         settled (ti_requestId inp) (approved_row inp actor (host_iso h now) st row)
           (settling_event eid inp actor (host_iso h now) st) (reserved inp DoApprove actor (host_iso h now) db))
    | None \<Rightarrow> \<not> is_ok (fst (approve h eid now inp db)) \<and> snd (approve h eid now inp db) = db"
proof -
  have ok: "row_ok db (ti_requestId inp) row"
    using dual_reachable_ok [OF assms(1)] assms(4) by (simp add: dual_ok_def)
  note defs = approve_def transaction_def approve_tx_def isIdempotentReplay_def dual_getOrThrow_def dual_get_def
  note steps = transition_row_def reserveIdempotency_def updateRequest_def insertEvent_def
    has_key_def settled_def reserved_def approved_row_def settling_event_def map_of_update
  show ?thesis
  proof (cases "approve_outcome now inp actor row")
    case None
    then show ?thesis using assms(2-4)
      by (auto simp: defs approve_outcome_def split: if_splits)
  next
    case (Some st)
    then consider "dr_state row = DPending" "now > dr_expiresAtMs row" "st = DExpired"
      | "dr_state row = DPending" "\<not> now > dr_expiresAtMs row" "dr_initiatorId row \<noteq> actor"
        "dr_stateVersion row = ti_expectedStateVersion inp" "st = DApproved"
      by (auto simp: approve_outcome_def split: if_splits)
    then show ?thesis
      by cases (use Some assms(2-5) ok in \<open>auto simp: defs steps row_ok_def\<close>)
  qed
qed

lemma dual_approve_decides_witness:
  "\<not> is_ok (fst (approve demo_host ''e1'' 6 (demo_by ''k'' ''al'') demo_db1))"
  using dual_approve_decides [OF demo_reachable(1), of "demo_by ''k'' ''al''" "''hal''" demo_row "''e1''" 6]
  by (simp add: demo_by_def normalize_demo demo_db1_eq(2) approve_outcome_def demo_row_def)

text \<open>
  \<open>expirePending\<close> expires exactly the pending requests whose deadline has passed, leaves every
  other row as it is, and returns their number.
\<close>

theorem dual_sweep_expires_exactly_the_overdue:
  assumes "dual_reachable h db" and "inj ids" and "\<forall>n. ids n \<notin> de_eventId ` set (da_events db)"
  shows "\<exists>db'. expirePending h ids now db = (Inr (length (expirable now db)), db') \<and>
    (\<forall>rid. map_of (da_requests db') rid =
       map_option (\<lambda>row. if dr_state row = DPending \<and> dr_expiresAtMs row < now
                         then expired_row (host_iso h now) row else row)
         (map_of (da_requests db) rid))"
proof -
  have ok: "dual_ok db" by (rule dual_reachable_ok [OF assms(1)])
  then have wf: "wf_map (da_requests db)" by (simp add: dual_ok_def)
  have pend: "\<forall>rid \<in> set (expirable now db). \<exists>row. map_of (da_requests db) rid = Some row \<and> dr_state row = DPending"
    using in_expirable [OF wf] by blast
  from expire_rows_run [OF ok assms(2,3) distinct_expirable [OF wf] pend, of "host_iso h now" 0]
  obtain db' where run: "expire_rows ids (host_iso h now) (expirable now db) 0 db = (Inr (length (expirable now db)), db')"
    and rows: "\<forall>k. map_of (da_requests db') k =
       (if k \<in> set (expirable now db) then map_option (expired_row (host_iso h now)) (map_of (da_requests db) k)
        else map_of (da_requests db) k)"
    by auto
  have "expirePending h ids now db = (Inr (length (expirable now db)), db')"
    using run by (simp add: expirePending_def transaction_def)
  moreover have "map_of (da_requests db') rid =
       map_option (\<lambda>row. if dr_state row = DPending \<and> dr_expiresAtMs row < now
                         then expired_row (host_iso h now) row else row)
         (map_of (da_requests db) rid)" for rid
    using rows in_expirable [OF wf, of rid now] by (cases "map_of (da_requests db) rid") auto
  ultimately show ?thesis by blast
qed

lemma dual_sweep_expires_exactly_the_overdue_witness:
  "\<exists>db'. expirePending demo_host (\<lambda>n. ''x'' @ replicate n CHR ''x'') 106 demo_db1 = (Inr 1, db') \<and>
     map_of (da_requests db') ''r'' = Some (expired_row (host_iso demo_host 106) demo_row)"
proof -
  let ?ids = "\<lambda>n. ''x'' @ replicate n CHR ''x''"
  have "inj ?ids" by (auto simp: inj_def dest: arg_cong [of _ _ length])
  moreover have "\<forall>n. ?ids n \<notin> de_eventId ` set (da_events demo_db1)" by (simp add: demo_db1_eq(2))
  ultimately obtain db' where
    db': "expirePending demo_host ?ids 106 demo_db1 = (Inr (length (expirable 106 demo_db1)), db')"
    "\<forall>rid. map_of (da_requests db') rid =
       map_option (\<lambda>row. if dr_state row = DPending \<and> dr_expiresAtMs row < 106
                         then expired_row (host_iso demo_host 106) row else row)
         (map_of (da_requests demo_db1) rid)"
    using dual_sweep_expires_exactly_the_overdue [OF demo_reachable(1), of ?ids 106] by blast
  moreover have "length (expirable 106 demo_db1) = 1"
    by (simp add: expirable_def demo_db1_eq(2) demo_row_def)
  moreover have "map_of (da_requests db') ''r'' = Some (expired_row (host_iso demo_host 106) demo_row)"
    using db'(2) demo_rows(1) by (simp add: demo_row_def)
  ultimately show ?thesis by auto
qed

end
