(* ===== verification/ToolApproval.thy ===== *)
theory ToolApproval
  imports Sqlite
begin

text \<open>
  Permission to call a tool: the policy table (\<open>tool-permission-repository.ts\<close>), the approval requests
  of single tool calls (\<open>tool-call-approval-repository.ts\<close>), both under
  \<open>infra/storage/sqlite/repositories/\<close>, and the gate that the MCP server puts before every tool
  (\<open>mcp/server.ts\<close>, \<open>withApprovalGate\<close>).
\<close>

datatype ToolCallApprovalState = TPending | TApproved | TDenied | TExpired | TUsed

datatype ToolPolicy = PolicyAllow | PolicyDeny | PolicyRequireApproval

record ToolCallApproval =
  ta_requestId :: string
  ta_toolName :: string
  ta_argumentsJson :: string
  ta_callerId :: string
  ta_state :: ToolCallApprovalState
  ta_expiresAtMs :: int
  ta_createdAt :: string
  ta_updatedAt :: string

record ToolPermission =
  tp_tool_name :: string
  tp_policy :: ToolPolicy
  tp_updated_at :: string

type_synonym call_table = "(string, ToolCallApproval) jsmap"
type_synonym permission_table = "(string, ToolPermission) jsmap"

fun tool_state_text :: "ToolCallApprovalState \<Rightarrow> string" where
  "tool_state_text TPending = ''pending''"
| "tool_state_text TApproved = ''approved''"
| "tool_state_text TDenied = ''denied''"
| "tool_state_text TExpired = ''expired''"
| "tool_state_text TUsed = ''used''"

section \<open>Permissions\<close>

definition perm_order :: "ToolPermission \<Rightarrow> ToolPermission \<Rightarrow> int" where
  "perm_order a b = binary_cmp (tp_tool_name a) (tp_tool_name b)"

definition perm_list :: "permission_table \<Rightarrow> ToolPermission list" where
  "perm_list t = js_sort perm_order (map snd t)"

definition perm_get :: "string \<Rightarrow> permission_table \<Rightarrow> ToolPermission option" where
  "perm_get toolName t = map_of t toolName"

definition perm_set :: "string \<Rightarrow> string \<Rightarrow> ToolPolicy \<Rightarrow> permission_table \<Rightarrow> ToolPermission \<times> permission_table" where
  "perm_set now toolName policy t =
     (let p = \<lparr>tp_tool_name = toolName, tp_policy = policy, tp_updated_at = now\<rparr>
      in (p, AList.update toolName p t))"

definition perm_delete :: "string \<Rightarrow> permission_table \<Rightarrow> bool \<times> permission_table" where
  "perm_delete toolName t = (has_key t toolName, AList.delete toolName t)"

definition perm_reset :: "permission_table \<Rightarrow> nat \<times> permission_table" where
  "perm_reset t = (length t, [])"

record allowance =
  al_allowed :: bool
  al_policy :: ToolPolicy
  al_reason :: "string option"

definition isAllowed :: "string \<Rightarrow> permission_table \<Rightarrow> allowance" where
  "isAllowed toolName t =
     (case perm_get toolName t of
        None \<Rightarrow> \<lparr>al_allowed = True, al_policy = PolicyAllow, al_reason = None\<rparr>
      | Some perm \<Rightarrow>
          (case tp_policy perm of
             PolicyAllow \<Rightarrow> \<lparr>al_allowed = True, al_policy = PolicyAllow, al_reason = None\<rparr>
           | PolicyDeny \<Rightarrow> \<lparr>al_allowed = False, al_policy = PolicyDeny,
               al_reason = Some (''tool '' @ quote @ toolName @ quote @ '' is denied by policy'')\<rparr>
           | PolicyRequireApproval \<Rightarrow> \<lparr>al_allowed = False, al_policy = PolicyRequireApproval,
               al_reason = Some (''tool '' @ quote @ toolName @ quote @ '' requires approval'')\<rparr>))"

definition filterAllowed :: "string list \<Rightarrow> permission_table \<Rightarrow> string list" where
  "filterAllowed toolNames t = filter (\<lambda>name. al_allowed (isAllowed name t)) toolNames"

section \<open>Approval requests\<close>

definition call_get :: "string \<Rightarrow> call_table \<Rightarrow> ToolCallApproval option" where
  "call_get requestId t = map_of t requestId"

definition call_getOrThrow :: "string \<Rightarrow> call_table \<Rightarrow> (thrown, ToolCallApproval) result" where
  "call_getOrThrow requestId t =
     (case call_get requestId t of
        None \<Rightarrow> Inl (plain_error (''tool call approval not found: '' @ requestId))
      | Some row \<Rightarrow> Inr row)"

definition call_transition :: "string \<Rightarrow> ToolCallApprovalState \<Rightarrow> string \<Rightarrow> call_table \<Rightarrow> call_table" where
  "call_transition requestId st updatedAt t =
     (case map_of t requestId of
        None \<Rightarrow> t
      | Some row \<Rightarrow> AList.update requestId (row\<lparr>ta_state := st, ta_updatedAt := updatedAt\<rparr>) t)"

definition call_createRequest ::
  "host \<Rightarrow> string \<Rightarrow> int \<Rightarrow> string \<Rightarrow> json \<Rightarrow> string option \<Rightarrow> int option \<Rightarrow> (call_table, ToolCallApproval) op" where
  "call_createRequest h requestId nowMs toolName arguments callerId ttl t =
     (let ttlMs = or_else ttl (5 * 60 * 1000);
          expiresAtMs = nowMs + max 1 ttlMs;
          nowIso = host_iso h nowMs
      in if has_key t requestId then (Inl (constraint_error ''PRIMARYKEY''), t)
         else let t' = t @ [(requestId,
                \<lparr>ta_requestId = requestId, ta_toolName = toolName, ta_argumentsJson = JSON_stringify arguments,
                 ta_callerId = or_else callerId ''agent'', ta_state = TPending, ta_expiresAtMs = expiresAtMs,
                 ta_createdAt = nowIso, ta_updatedAt = nowIso\<rparr>)]
              in (call_getOrThrow requestId t', t'))"

definition call_approve :: "host \<Rightarrow> int \<Rightarrow> string \<Rightarrow> (call_table, ToolCallApproval) op" where
  "call_approve h now requestId t =
     (case call_getOrThrow requestId t of
        Inl e \<Rightarrow> (Inl e, t)
      | Inr current \<Rightarrow>
          if ta_state current \<noteq> TPending then
            (Inl (plain_error (''cannot approve: request '' @ requestId @ '' is '' @ tool_state_text (ta_state current))), t)
          else if now > ta_expiresAtMs current then
            (Inl (plain_error (''cannot approve: request '' @ requestId @ '' has expired'')),
             call_transition requestId TExpired (host_iso h now) t)
          else let t' = call_transition requestId TApproved (host_iso h now) t
               in (call_getOrThrow requestId t', t'))"

definition call_deny :: "host \<Rightarrow> int \<Rightarrow> string \<Rightarrow> (call_table, ToolCallApproval) op" where
  "call_deny h now requestId t =
     (case call_getOrThrow requestId t of
        Inl e \<Rightarrow> (Inl e, t)
      | Inr current \<Rightarrow>
          if ta_state current \<noteq> TPending then
            (Inl (plain_error (''cannot deny: request '' @ requestId @ '' is '' @ tool_state_text (ta_state current))), t)
          else let t' = call_transition requestId TDenied (host_iso h now) t
               in (call_getOrThrow requestId t', t'))"

definition markUsed :: "host \<Rightarrow> int \<Rightarrow> string \<Rightarrow> call_table \<Rightarrow> call_table" where
  "markUsed h now requestId t = call_transition requestId TUsed (host_iso h now) t"

definition findApproved :: "int \<Rightarrow> string \<Rightarrow> call_table \<Rightarrow> ToolCallApproval option" where
  "findApproved now requestId t =
     (case map_of t requestId of
        None \<Rightarrow> None
      | Some row \<Rightarrow> if ta_state row = TApproved \<and> ta_expiresAtMs row > now then Some row else None)"

definition newest_first :: "ToolCallApproval \<Rightarrow> ToolCallApproval \<Rightarrow> int" where
  "newest_first a b = binary_cmp (ta_createdAt b) (ta_createdAt a)"

definition call_listPending :: "int \<Rightarrow> string option \<Rightarrow> call_table \<Rightarrow> ToolCallApproval list" where
  "call_listPending now toolName t =
     js_sort newest_first
       (filter (\<lambda>r. ta_state r = TPending \<and> ta_expiresAtMs r > now \<and>
            (case toolName of None \<Rightarrow> True | Some n \<Rightarrow> n = '''' \<or> ta_toolName r = n))
          (map snd t))"

definition call_expirePending :: "host \<Rightarrow> int \<Rightarrow> call_table \<Rightarrow> nat \<times> call_table" where
  "call_expirePending h nowMs t =
     (let due = \<lambda>r. ta_state r = TPending \<and> ta_expiresAtMs r < nowMs
      in (length (filter (due \<circ> snd) t),
          map (\<lambda>(k, r). (k, if due r then r\<lparr>ta_state := TExpired, ta_updatedAt := host_iso h nowMs\<rparr> else r)) t))"

section \<open>The gate before a tool\<close>

definition getToolPolicy :: "permission_table \<Rightarrow> string \<Rightarrow> ToolPolicy" where
  "getToolPolicy t toolName = al_policy (isAllowed toolName t)"

definition shouldRegister :: "ToolPolicy \<Rightarrow> bool" where
  "shouldRegister policy \<longleftrightarrow> policy \<noteq> PolicyDeny"

datatype 'r gate_result = Ran 'r | PendingResult json

definition awaiting_message :: "ToolCallApprovalState \<Rightarrow> string" where
  "awaiting_message st =
     ''tool call '' @ (if st = TPending then ''still awaiting'' else tool_state_text st) @
     '': operator must approve via CLI''"

definition pending_json :: "string \<Rightarrow> ToolCallApprovalState \<Rightarrow> string \<Rightarrow> json" where
  "pending_json requestId st message =
     JObj [(''approved'', JBool False), (''requestId'', JStr requestId),
           (''state'', JStr (tool_state_text st)), (''message'', JStr message)]"

text \<open>
  \<open>withApprovalGate\<close>: \<open>handler\<close> is the wrapped tool, \<open>clock i\<close> the \<open>i\<close>-th reading of \<open>Date.now()\<close> in the
  call and \<open>newId\<close> the value of \<open>randomUUID()\<close>.
\<close>

definition gate_ask ::
  "host \<Rightarrow> (nat \<Rightarrow> int) \<Rightarrow> string \<Rightarrow> string \<Rightarrow> json \<Rightarrow> (call_table, 'r gate_result) op" where
  "gate_ask h clock newId toolName args t =
     (case call_createRequest h newId (clock 2) toolName args None None t of
        (Inl e, t) \<Rightarrow> (Inl e, t)
      | (Inr request, t) \<Rightarrow>
          (Inr (PendingResult (pending_json (ta_requestId request) TPending
             (''tool '' @ quote @ toolName @ quote @ '' requires operator approval. Request ID: '' @ ta_requestId request @
              ''. Operator: run '' @ quote @ ''memphis config tools approve-call '' @ ta_requestId request @ quote))), t))"

definition withApprovalGate ::
  "host \<Rightarrow> (nat \<Rightarrow> int) \<Rightarrow> string \<Rightarrow> string \<Rightarrow> ToolPolicy \<Rightarrow> (json \<Rightarrow> 'r) \<Rightarrow> json \<Rightarrow>
   (call_table, 'r gate_result) op" where
  "withApprovalGate h clock newId toolName policy handler args t =
     (if policy = PolicyAllow then (Inr (Ran (handler args)), t)
      else
        (case jstring (jfield args ''approval_request_id'') of
           None \<Rightarrow> gate_ask h clock newId toolName args t
         | Some rid \<Rightarrow>
             if rid = '''' then gate_ask h clock newId toolName args t
             else
               (case findApproved (clock 0) rid t of
                  Some approved \<Rightarrow>
                    if ta_toolName approved = toolName then
                      (Inr (Ran (handler args)), markUsed h (clock 1) rid t)
                    else
                      (Inr (PendingResult (pending_json (ta_requestId approved) (ta_state approved)
                         (awaiting_message (ta_state approved)))), t)
                | None \<Rightarrow>
                    (case call_get rid t of
                       Some existing \<Rightarrow>
                         (Inr (PendingResult (pending_json (ta_requestId existing) (ta_state existing)
                            (awaiting_message (ta_state existing)))), t)
                     | None \<Rightarrow> gate_ask h clock newId toolName args t))))"

end
