(* ===== verification/ToolApprovalLaws.thy ===== *)
theory ToolApprovalLaws
  imports ToolApproval
begin

text \<open>
  What the gate guarantees: a granted request runs its tool at most once, requests only move forward
  through their states, and the gate runs a tool exactly when the policy or a live grant for this tool
  lets it. The grant is for the tool, not for the arguments.
\<close>

section \<open>The life of a request\<close>

fun tool_allowed :: "ToolCallApprovalState \<Rightarrow> ToolCallApprovalState \<Rightarrow> bool" where
  "tool_allowed TPending s = (s \<in> {TApproved, TDenied, TExpired})"
| "tool_allowed TApproved s = (s = TUsed)"
| "tool_allowed _ s = False"

fun tool_rank :: "ToolCallApprovalState \<Rightarrow> nat" where
  "tool_rank TPending = 0"
| "tool_rank TUsed = 2"
| "tool_rank _ = 1"

interpretation tool_life: lifecycle tool_allowed tool_rank 2
proof
  fix s t
  show "tool_allowed s t \<Longrightarrow> tool_rank s < tool_rank t" by (cases s; cases t) simp_all
  show "tool_rank s \<le> 2" by (cases s) simp_all
qed

interpretation perm_names: comparator perm_order
  unfolding perm_order_def [abs_def] by (rule comparator_binary_key)

interpretation newest: comparator newest_first
proof
  fix x y z
  show "newest_first x y \<le> 0 \<or> newest_first y x \<le> 0"
    unfolding newest_first_def by (rule binary_cmp_total)
  show "newest_first x y \<le> 0 \<Longrightarrow> newest_first y z \<le> 0 \<Longrightarrow> newest_first x z \<le> 0"
    unfolding newest_first_def by (rule binary_cmp_trans)
qed

section \<open>Runs and their history\<close>

datatype call_event = Granted string | Executed string

fun outcome_events :: "json \<Rightarrow> (thrown, json gate_result) result \<Rightarrow> call_event list" where
  "outcome_events args (Inr (Ran _)) =
     (case jstring (jfield args ''approval_request_id'') of None \<Rightarrow> [] | Some rid \<Rightarrow> [Executed rid])"
| "outcome_events args _ = []"

inductive call_step :: "host \<Rightarrow> call_table \<Rightarrow> call_event list \<Rightarrow> call_table \<Rightarrow> bool" for h where
  create: "call_createRequest h rid now tool args caller ttl t = (r, t') \<Longrightarrow> call_step h t [] t'"
| approve: "call_approve h now rid t = (r, t') \<Longrightarrow>
    call_step h t (if is_ok r then [Granted rid] else []) t'"
| deny: "call_deny h now rid t = (r, t') \<Longrightarrow> call_step h t [] t'"
| expire: "call_expirePending h now t = (n, t') \<Longrightarrow> call_step h t [] t'"
| gate: "withApprovalGate h clock newId tool policy handler args t = (r, t') \<Longrightarrow> policy \<noteq> PolicyAllow \<Longrightarrow>
    call_step h t (outcome_events args r) t'"

inductive call_run :: "host \<Rightarrow> call_table \<Rightarrow> call_event list \<Rightarrow> call_table \<Rightarrow> bool" for h where
  empty: "call_run h t [] t"
| step: "call_run h t history t' \<Longrightarrow> call_step h t' events t'' \<Longrightarrow> call_run h t (history @ events) t''"

definition grants :: "string \<Rightarrow> call_event list \<Rightarrow> nat" where
  "grants rid history = length (filter (\<lambda>e. e = Granted rid) history)"

definition executions :: "string \<Rightarrow> call_event list \<Rightarrow> nat" where
  "executions rid history = length (filter (\<lambda>e. e = Executed rid) history)"

lemma counts_append [simp]:
  "grants rid (xs @ ys) = grants rid xs + grants rid ys"
  "executions rid (xs @ ys) = executions rid xs + executions rid ys"
  by (simp_all add: grants_def executions_def)

lemma counts_simps [simp]:
  "grants rid [] = 0" "executions rid [] = 0"
  "grants rid [Granted r] = (if r = rid then 1 else 0)" "executions rid [Granted r] = 0"
  "grants rid [Executed r] = 0" "executions rid [Executed r] = (if r = rid then 1 else 0)"
  by (auto simp: grants_def executions_def)

fun granted_weight :: "ToolCallApproval option \<Rightarrow> nat" where
  "granted_weight None = 0"
| "granted_weight (Some row) = (if ta_state row \<in> {TApproved, TUsed} then 1 else 0)"

fun used_weight :: "ToolCallApproval option \<Rightarrow> nat" where
  "used_weight None = 0"
| "used_weight (Some row) = (if ta_state row = TUsed then 1 else 0)"

definition same_request :: "ToolCallApproval \<Rightarrow> ToolCallApproval \<Rightarrow> bool" where
  "same_request a b \<longleftrightarrow>
     ta_requestId a = ta_requestId b \<and> ta_toolName a = ta_toolName b \<and>
     ta_argumentsJson a = ta_argumentsJson b \<and> ta_callerId a = ta_callerId b \<and>
     ta_expiresAtMs a = ta_expiresAtMs b"

fun row_moves :: "ToolCallApproval option \<Rightarrow> ToolCallApproval option \<Rightarrow> bool" where
  "row_moves None None = True"
| "row_moves None (Some row) = (ta_state row = TPending)"
| "row_moves (Some row) None = False"
| "row_moves (Some row) (Some row') =
     (same_request row row' \<and> (ta_state row' = ta_state row \<or> tool_allowed (ta_state row) (ta_state row')))"

definition step_ok :: "call_table \<Rightarrow> call_event list \<Rightarrow> call_table \<Rightarrow> bool" where
  "step_ok t events t' \<longleftrightarrow>
     (\<forall>k. row_moves (map_of t k) (map_of t' k) \<and>
        granted_weight (map_of t' k) = granted_weight (map_of t k) + grants k events \<and>
        used_weight (map_of t' k) = used_weight (map_of t k) + executions k events)"

lemma row_moves_refl [simp]: "row_moves x x"
  by (cases x) (simp_all add: same_request_def)

lemma step_ok_refl [simp]: "step_ok t [] t"
  by (simp add: step_ok_def)

lemma map_of_transition:
  "map_of (call_transition rid st at t) k =
     (if k = rid then map_option (\<lambda>r. r\<lparr>ta_state := st, ta_updatedAt := at\<rparr>) (map_of t k) else map_of t k)"
  by (auto simp: call_transition_def map_of_update split: option.splits)

lemma step_ok_create:
  "call_createRequest h rid now tool args caller ttl t = (r, t') \<Longrightarrow> step_ok t [] t'"
  by (auto simp: call_createRequest_def Let_def step_ok_def has_key_def map_add_def split: if_splits option.splits)

lemma step_ok_approve:
  "call_approve h now rid t = (r, t') \<Longrightarrow> step_ok t (if is_ok r then [Granted rid] else []) t'"
  by (auto simp: call_approve_def call_getOrThrow_def call_get_def Let_def step_ok_def map_of_transition
      same_request_def split: option.splits if_splits)

lemma step_ok_deny: "call_deny h now rid t = (r, t') \<Longrightarrow> step_ok t [] t'"
  by (auto simp: call_deny_def call_getOrThrow_def call_get_def Let_def step_ok_def map_of_transition
      same_request_def split: option.splits if_splits)

lemma step_ok_expire: "call_expirePending h now t = (n, t') \<Longrightarrow> step_ok t [] t'"
proof -
  assume "call_expirePending h now t = (n, t')"
  then have t': "t' = map (\<lambda>(k, r). (k, if ta_state r = TPending \<and> ta_expiresAtMs r < now
      then r\<lparr>ta_state := TExpired, ta_updatedAt := host_iso h now\<rparr> else r)) t"
    by (simp add: call_expirePending_def Let_def)
  have "map_of t' k = map_option (\<lambda>r. if ta_state r = TPending \<and> ta_expiresAtMs r < now
      then r\<lparr>ta_state := TExpired, ta_updatedAt := host_iso h now\<rparr> else r) (map_of t k)" for k
    unfolding t' by (simp only: map_of_map comp_apply)
  note get = this
  show ?thesis unfolding step_ok_def
  proof
    fix k
    show "row_moves (map_of t k) (map_of t' k) \<and>
        granted_weight (map_of t' k) = granted_weight (map_of t k) + grants k [] \<and>
        used_weight (map_of t' k) = used_weight (map_of t k) + executions k []"
      by (cases "map_of t k") (auto simp: get same_request_def)
  qed
qed

section \<open>What the gate does\<close>

definition names_grant :: "int \<Rightarrow> string \<Rightarrow> json \<Rightarrow> call_table \<Rightarrow> string option" where
  "names_grant now toolName args t =
     (case jstring (jfield args ''approval_request_id'') of
        None \<Rightarrow> None
      | Some rid \<Rightarrow>
          (case findApproved now rid t of
             None \<Rightarrow> None
           | Some row \<Rightarrow> if rid \<noteq> '''' \<and> ta_toolName row = toolName then Some rid else None))"

lemma gate_runs:
  assumes "policy \<noteq> PolicyAllow" and "names_grant (clock 0) toolName args t = Some rid"
  shows "withApprovalGate h clock newId toolName policy handler args t =
    (Inr (Ran (handler args)), markUsed h (clock 1) rid t)"
  using assms by (auto simp: withApprovalGate_def names_grant_def split: option.splits if_splits)

lemma gate_ask_create:
  "gate_ask h clock newId tool args t = (r, t') \<Longrightarrow>
     \<exists>q. call_createRequest h newId (clock 2) tool args None None t = (q, t') \<and> (\<forall>x. r \<noteq> Inr (Ran x))"
  by (auto simp: gate_ask_def split: prod.splits sum.splits)

lemma gate_refuses:
  assumes "policy \<noteq> PolicyAllow" and "names_grant (clock 0) toolName args t = None"
    and "withApprovalGate h clock newId toolName policy handler args t = (r, t')"
  shows "(\<forall>x. r \<noteq> Inr (Ran x)) \<and>
    (t' = t \<or> (\<exists>q. call_createRequest h newId (clock 2) toolName args None None t = (q, t')))"
  using assms
  by (auto simp: withApprovalGate_def names_grant_def dest!: gate_ask_create split: option.splits if_splits)

lemma findApproved_Some:
  "findApproved now rid t = Some row \<longleftrightarrow>
     map_of t rid = Some row \<and> ta_state row = TApproved \<and> now < ta_expiresAtMs row"
  by (auto simp: findApproved_def split: option.splits)

lemma step_ok_gate:
  assumes run: "withApprovalGate h clock newId tool policy handler args t = (r, t')"
    and pol: "policy \<noteq> PolicyAllow"
  shows "step_ok t (outcome_events args r) t'"
proof (cases "names_grant (clock 0) tool args t")
  case None
  from gate_refuses [where handler = handler and clock = clock, OF pol None run]
  have "outcome_events args r = []" by (cases "(args, r)" rule: outcome_events.cases) auto
  then show ?thesis
    using gate_refuses [where handler = handler and clock = clock, OF pol None run] step_ok_create by fastforce
next
  case (Some rid)
  then obtain row where row: "map_of t rid = Some row" "ta_state row = TApproved"
    and arg: "jstring (jfield args ''approval_request_id'') = Some rid"
    by (auto simp: names_grant_def findApproved_Some split: option.splits if_splits)
  show ?thesis
    using run row arg
    by (auto simp: gate_runs [where clock = clock, OF pol Some] markUsed_def step_ok_def map_of_transition same_request_def)
qed

lemma call_step_ok: "call_step h t events t' \<Longrightarrow> step_ok t events t'"
  by (induction rule: call_step.induct)
     (simp_all add: step_ok_create step_ok_approve [simplified] step_ok_deny step_ok_expire step_ok_gate
        del: outcome_events.simps)

lemma call_run_weights:
  "call_run h t history t' \<Longrightarrow>
     granted_weight (map_of t' k) = granted_weight (map_of t k) + grants k history \<and>
     used_weight (map_of t' k) = used_weight (map_of t k) + executions k history"
  by (induction rule: call_run.induct) (auto dest!: call_step_ok simp: step_ok_def)

lemma used_le_granted: "used_weight x \<le> granted_weight x" and granted_le_1: "granted_weight x \<le> 1"
  by (cases x; simp)+

lemma call_run_path:
  assumes "call_run h t history t'" and "map_of t k = Some row"
  shows "\<exists>row' path. map_of t' k = Some row' \<and> same_request row row' \<and>
    follows tool_allowed (ta_state row) path \<and> last (ta_state row # path) = ta_state row'"
  using assms
proof (induction rule: call_run.induct)
  case (empty t)
  then show ?case by (intro exI [of _ row] exI [of _ "[]"]) (simp add: same_request_def)
next
  case (step t history t' events t'')
  then obtain row' path where mid: "map_of t' k = Some row'" "same_request row row'"
    "follows tool_allowed (ta_state row) path" "last (ta_state row # path) = ta_state row'" by blast
  have "row_moves (Some row') (map_of t'' k)"
    using call_step_ok [OF step.hyps(2)] mid(1) by (metis step_ok_def)
  then obtain row'' where new: "map_of t'' k = Some row''" "same_request row' row''"
    "ta_state row'' = ta_state row' \<or> tool_allowed (ta_state row') (ta_state row'')"
    by (cases "map_of t'' k") auto
  have same: "same_request row row''" using mid(2) new(2) by (simp add: same_request_def)
  show ?case
  proof (cases "ta_state row'' = ta_state row'")
    case True
    with mid new(1) same show ?thesis by (intro exI [of _ row''] exI [of _ path]) simp
  next
    case False
    have "follows tool_allowed s (ps @ [u]) \<longleftrightarrow> follows tool_allowed s ps \<and> tool_allowed (last (s # ps)) u"
      for s ps u by (induction ps arbitrary: s) auto
    with False mid new same show ?thesis
      by (intro exI [of _ row''] exI [of _ "path @ [ta_state row'']"]) simp
  qed
qed

section \<open>A run used by the examples\<close>

definition demo_gate_host :: host where
  "demo_gate_host = \<lparr>host_sha256 = id, host_iso = show_int\<rparr>"

definition asked_args :: json where
  "asked_args = JObj [(''command'', JStr ''ls'')]"

definition other_args :: json where
  "other_args = JObj [(''command'', JStr ''date''), (''approval_request_id'', JStr ''c1'')]"

definition asked_row :: "ToolCallApprovalState \<Rightarrow> string \<Rightarrow> ToolCallApproval" where
  "asked_row st at = \<lparr>ta_requestId = ''c1'', ta_toolName = ''exec'', ta_argumentsJson = JSON_stringify asked_args,
     ta_callerId = ''agent'', ta_state = st, ta_expiresAtMs = 300005, ta_createdAt = show_int 5, ta_updatedAt = at\<rparr>"

definition demo_calls :: "ToolCallApprovalState \<Rightarrow> string \<Rightarrow> call_table" where
  "demo_calls st at = [(''c1'', asked_row st at)]"

lemma demo_ask:
  "call_createRequest demo_gate_host ''c1'' 5 ''exec'' asked_args None None [] =
     (Inr (asked_row TPending (show_int 5)), demo_calls TPending (show_int 5))"
  by (simp add: call_createRequest_def call_getOrThrow_def call_get_def has_key_def demo_gate_host_def
      asked_row_def demo_calls_def Let_def)

lemma demo_grant:
  "call_approve demo_gate_host 6 ''c1'' (demo_calls TPending (show_int 5)) =
     (Inr (asked_row TApproved (show_int 6)), demo_calls TApproved (show_int 6))"
  by (simp add: call_approve_def call_getOrThrow_def call_get_def call_transition_def demo_gate_host_def
      asked_row_def demo_calls_def Let_def)

lemma demo_names_grant: "names_grant 7 ''exec'' other_args (demo_calls TApproved (show_int 6)) = Some ''c1''"
  by (simp add: names_grant_def findApproved_def other_args_def demo_calls_def asked_row_def)

lemma demo_use:
  "withApprovalGate demo_gate_host (\<lambda>_. 7) ''c2'' ''exec'' PolicyRequireApproval id other_args
     (demo_calls TApproved (show_int 6)) = (Inr (Ran other_args), demo_calls TUsed (show_int 7))"
  using gate_runs [of PolicyRequireApproval "\<lambda>_. 7" "''exec''" other_args _ "''c1''" demo_gate_host "''c2''" id,
      OF _ demo_names_grant]
  by (simp add: markUsed_def call_transition_def demo_gate_host_def demo_calls_def asked_row_def)

lemma demo_run:
  "call_run demo_gate_host [] [Granted ''c1'', Executed ''c1''] (demo_calls TUsed (show_int 7))"
proof -
  have "call_run demo_gate_host [] ([] @ []) (demo_calls TPending (show_int 5))"
    by (rule call_run.step [OF call_run.empty call_step.create [OF demo_ask]])
  from call_run.step [OF this call_step.approve [OF demo_grant]]
  have "call_run demo_gate_host [] [Granted ''c1''] (demo_calls TApproved (show_int 6))" by simp
  from call_run.step [OF this call_step.gate [OF demo_use]]
  show ?thesis by (simp add: other_args_def)
qed

section \<open>Properties\<close>

text \<open>
  C5: in every history of approval requests, operator decisions, sweeps and gated tool calls that starts
  with an empty table, a request identifier lets a tool run at most as often as an operator granted it,
  and it is granted at most once: one approval is one execution.
\<close>

theorem tool_grant_runs_once:
  assumes "call_run h [] history t"
  shows "executions rid history \<le> grants rid history \<and> grants rid history \<le> 1"
  using call_run_weights [OF assms, of rid] used_le_granted [of "map_of t rid"] granted_le_1 [of "map_of t rid"]
  by simp

lemma tool_grant_runs_once_witness:
  "executions ''c1'' [Granted ''c1'', Executed ''c1''] \<le> 1"
  using tool_grant_runs_once [OF demo_run, of "''c1''"] by linarith

text \<open>
  Under every further sequence of calls a request keeps its tool, arguments, caller and deadline, and
  its state moves along the table pending - approved, denied or expired - used, in at most two moves and
  never back.
\<close>

theorem tool_request_moves_forward:
  assumes "call_run h t history t'" and "map_of t rid = Some row"
  shows "\<exists>row' path. map_of t' rid = Some row' \<and> same_request row row' \<and>
    follows tool_allowed (ta_state row) path \<and> last (ta_state row # path) = ta_state row' \<and>
    length path \<le> 2 \<and> distinct (ta_state row # path)"
proof -
  obtain row' path where "map_of t' rid = Some row'" "same_request row row'"
    and path: "follows tool_allowed (ta_state row) path" "last (ta_state row # path) = ta_state row'"
    using call_run_path [OF assms] by blast
  moreover have "length path \<le> 2" using tool_life.path_rank [OF path(1)] by simp
  ultimately show ?thesis using tool_life.path_distinct [OF path(1)] by blast
qed

lemma tool_request_moves_forward_witness:
  "\<exists>row'. map_of (demo_calls TApproved (show_int 6)) ''c1'' = Some row' \<and>
     same_request (asked_row TPending (show_int 5)) row'"
proof -
  have "call_run demo_gate_host (demo_calls TPending (show_int 5)) ([] @ [Granted ''c1''])
      (demo_calls TApproved (show_int 6))"
    using call_run.step [OF call_run.empty call_step.approve [OF demo_grant]] by simp
  moreover have "map_of (demo_calls TPending (show_int 5)) ''c1'' = Some (asked_row TPending (show_int 5))"
    by (simp add: demo_calls_def)
  ultimately show ?thesis using tool_request_moves_forward by blast
qed

text \<open>
  Behind a policy other than \<open>allow\<close> the gate runs the tool if and only if the call names an approved
  request for this very tool whose deadline is still ahead; it then marks that request used, and in every
  other case the tool does not run and at most a new pending request is stored.
\<close>

theorem tool_gate_runs_iff_granted:
  assumes "policy \<noteq> PolicyAllow" and "withApprovalGate h clock newId toolName policy handler args t = (r, t')"
  shows "case names_grant (clock 0) toolName args t of
      Some rid \<Rightarrow> r = Inr (Ran (handler args)) \<and> t' = markUsed h (clock 1) rid t
    | None \<Rightarrow> (\<forall>x. r \<noteq> Inr (Ran x)) \<and>
        (t' = t \<or> (\<exists>row. ta_state row = TPending \<and> ta_toolName row = toolName \<and>
                     map_of t newId = None \<and> t' = t @ [(newId, row)]))"
proof (cases "names_grant (clock 0) toolName args t")
  case (Some rid)
  with assms(2) gate_runs [where clock = clock and handler = handler, OF assms(1) Some] show ?thesis by simp
next
  case None
  have "t' = t \<or> (\<exists>row. ta_state row = TPending \<and> ta_toolName row = toolName \<and>
      map_of t newId = None \<and> t' = t @ [(newId, row)])"
    if "call_createRequest h newId (clock 2) toolName args None None t = (q, t')" for q
    using that by (auto simp: call_createRequest_def Let_def has_key_def split: if_splits)
  then show ?thesis
    using gate_refuses [where handler = handler and clock = clock, OF assms(1) None assms(2)] None by auto
qed

lemma tool_gate_runs_iff_granted_witness:
  "\<forall>x. fst (withApprovalGate demo_gate_host (\<lambda>_. 7) ''c2'' ''exec'' PolicyRequireApproval id other_args
     (demo_calls TUsed (show_int 7))) \<noteq> Inr (Ran x)"
proof -
  have "names_grant 7 ''exec'' other_args (demo_calls TUsed (show_int 7)) = None"
    by (simp add: names_grant_def findApproved_def other_args_def demo_calls_def asked_row_def)
  then show ?thesis
    using tool_gate_runs_iff_granted [of PolicyRequireApproval demo_gate_host "\<lambda>_. 7" "''c2''" "''exec''" id
        other_args "demo_calls TUsed (show_int 7)", OF _ prod.collapse [symmetric]]
    by simp
qed

text \<open>
  A grant is not tied to the arguments the operator saw: a request that was recorded for one argument
  object lets the same tool run once with any other argument object that names the request.
\<close>

theorem tool_grant_ignores_arguments:
  assumes "policy \<noteq> PolicyAllow" and "map_of t rid = Some row" and "ta_state row = TApproved"
    and "clock 0 < ta_expiresAtMs row" and "rid \<noteq> ''''"
    and "ta_argumentsJson row = JSON_stringify asked" and "args \<noteq> asked"
    and "jstring (jfield args ''approval_request_id'') = Some rid"
  shows "withApprovalGate h clock newId (ta_toolName row) policy handler args t =
    (Inr (Ran (handler args)), markUsed h (clock 1) rid t)"
  using assms by (intro gate_runs) (simp_all add: names_grant_def findApproved_def)

lemma tool_grant_ignores_arguments_witness:
  "fst (withApprovalGate demo_gate_host (\<lambda>_. 7) ''c2'' (ta_toolName (asked_row TApproved (show_int 6)))
     PolicyRequireApproval id other_args (demo_calls TApproved (show_int 6))) = Inr (Ran other_args)"
  by (subst tool_grant_ignores_arguments [where rid = "''c1''" and asked = asked_args])
     (simp_all add: demo_calls_def asked_row_def other_args_def asked_args_def)

end
