(* ===== verification/ChainAdapter.thy ===== *)
theory ChainAdapter
  imports JsonRoundtrip Errors
begin

text \<open>
  The memory chain on disk (\<open>infra/storage/chain-adapter.ts\<close>): a directory of numbered JSON files, each a
  block that carries the hash of the block before it; appending under a lock file; reading with
  validation; the integrity check over all chains.

  A directory is a map from file names to contents in the order \<open>readdir\<close> lists them; the lock file is
  the sequence of the outcomes of the attempts to create it. SHA-256, \<open>localeCompare\<close> and the text of a
  JSON syntax error are fields of \<open>chain_host\<close>; \<open>path.resolve\<close>, the separator and \<open>lstat\<close> are fields of
  \<open>path_host\<close>. An error is its message.
\<close>

record chain_host =
  ch_sha256 :: "string \<Rightarrow> string"
  ch_locale :: "string \<Rightarrow> string \<Rightarrow> int"
  ch_parse_error :: "string \<Rightarrow> string"

record path_host =
  ph_base :: string
  ph_resolve :: "string \<Rightarrow> string \<Rightarrow> string"
  ph_sep :: string
  ph_symlink :: "string \<Rightarrow> bool option"

type_synonym chain_dir = "(string, string) jsmap"

section \<open>Which backend\<close>

datatype ChainBackend = TsLegacy | RustNapi

record RustBridge =
  rb_append :: bool
  rb_validate :: bool
  rb_query :: bool

record ChainAdapterStatus =
  cs_backend :: ChainBackend
  cs_rustEnabled :: bool
  cs_rustBridgePath :: string
  cs_rustBridgeLoaded :: bool

definition parseBool :: "string option \<Rightarrow> bool \<Rightarrow> bool" where
  "parseBool v fallback = (case v of None \<Rightarrow> fallback | Some s \<Rightarrow> to_lower s = ''true'')"

definition getRustBridgePath :: "(string \<Rightarrow> string option) \<Rightarrow> string" where
  "getRustBridgePath env = or_else (env ''RUST_CHAIN_BRIDGE_PATH'') ''./crates/memphis-napi''"

definition getChainAdapterStatus ::
  "(string \<Rightarrow> RustBridge option) \<Rightarrow> (string \<Rightarrow> string option) \<Rightarrow> ChainAdapterStatus" where
  "getChainAdapterStatus load env =
     (let rustEnabled = parseBool (env ''RUST_CHAIN_ENABLED'') False;
          path = getRustBridgePath env;
          off = \<lparr>cs_backend = TsLegacy, cs_rustEnabled = rustEnabled, cs_rustBridgePath = path,
                 cs_rustBridgeLoaded = False\<rparr>
      in if \<not> rustEnabled then off
         else (case load path of
            None \<Rightarrow> off
          | Some bridge \<Rightarrow>
              (let hasCoreFns = rb_append bridge \<and> rb_validate bridge \<and> rb_query bridge
               in \<lparr>cs_backend = (if hasCoreFns then RustNapi else TsLegacy), cs_rustEnabled = rustEnabled,
                   cs_rustBridgePath = path, cs_rustBridgeLoaded = hasCoreFns\<rparr>)))"

section \<open>Blocks and their hash\<close>

record ChainBlock =
  cb_index :: int
  cb_timestamp :: string
  cb_chain :: string
  cb_data :: json
  cb_prev_hash :: string
  cb_hash :: string

definition GENESIS_PREV_HASH :: string where
  "GENESIS_PREV_HASH = replicate 64 CHR ''0''"

fun sortValue :: "(string \<Rightarrow> string \<Rightarrow> int) \<Rightarrow> json \<Rightarrow> json" where
  "sortValue lc (JArr vs) = JArr (map (sortValue lc) vs)"
| "sortValue lc (JObj kvs) =
     JObj (map (\<lambda>(k, v). (k, sortValue lc v)) (js_sort (\<lambda>a b. lc (fst a) (fst b)) kvs))"
| "sortValue lc v = v"

definition stableStringify :: "(string \<Rightarrow> string \<Rightarrow> int) \<Rightarrow> json \<Rightarrow> string" where
  "stableStringify lc v = JSON_stringify (sortValue lc v)"

text \<open>The object that is hashed, and the object that is written.\<close>

definition hashed_fields :: "ChainBlock \<Rightarrow> (string \<times> json) list" where
  "hashed_fields b =
     [(''index'', JNum (cb_index b)), (''timestamp'', JStr (cb_timestamp b)), (''chain'', JStr (cb_chain b)),
      (''data'', cb_data b), (''prev_hash'', JStr (cb_prev_hash b))]"

definition block_json :: "ChainBlock \<Rightarrow> json" where
  "block_json b = JObj (hashed_fields b @ [(''hash'', JStr (cb_hash b))])"

definition hashBlock :: "chain_host \<Rightarrow> ChainBlock \<Rightarrow> string" where
  "hashBlock h b = ch_sha256 h (stableStringify (ch_locale h) (JObj (hashed_fields b)))"

definition legacyHash :: "chain_host \<Rightarrow> ChainBlock \<Rightarrow> string" where
  "legacyHash h b = ch_sha256 h (JSON_stringify (cb_data b))"

definition integrity_error :: "string \<Rightarrow> string \<Rightarrow> string" where
  "integrity_error name what = ''chain integrity check failed for '' @ name @ '': '' @ what"

definition validateBlockHash :: "chain_host \<Rightarrow> ChainBlock \<Rightarrow> string \<Rightarrow> (string, unit) result" where
  "validateBlockHash h b name =
     (if cb_hash b \<noteq> hashBlock h b \<and> cb_hash b \<noteq> legacyHash h b then Inl (integrity_error name ''hash mismatch'')
      else if cb_index b = 1 \<and> cb_prev_hash b \<noteq> '''' \<and> cb_prev_hash b \<noteq> GENESIS_PREV_HASH
        then Inl (integrity_error name ''prev_hash mismatch'')
      else Inr ())"

definition toChainBlock :: "json \<Rightarrow> string \<Rightarrow> (string, ChainBlock) result" where
  "toChainBlock v name =
     (case (jnumber (jfield v ''index''), jstring (jfield v ''timestamp''), jstring (jfield v ''chain''),
            jfield v ''data'', jstring (jfield v ''prev_hash''), jstring (jfield v ''hash'')) of
        (Some i, Some ts, Some c, Some d, Some p, Some hs) \<Rightarrow>
          if is_object d then
            Inr \<lparr>cb_index = i, cb_timestamp = ts, cb_chain = c, cb_data = d, cb_prev_hash = p, cb_hash = hs\<rparr>
          else Inl (integrity_error name ''invalid block shape'')
      | _ \<Rightarrow> Inl (if v = JNull then ''Cannot read properties of null''
                  else integrity_error name ''invalid block shape''))"

section \<open>Reading a file that may hold more than one object\<close>

record scan_state =
  sc_out :: "json list"
  sc_depth :: nat
  sc_chunk :: "string option"
  sc_inString :: bool
  sc_escaped :: bool

text \<open>One character of the loop of \<open>extractJsonObjects\<close>; \<open>sc_chunk\<close> is the text from \<open>start\<close> on, reversed.\<close>

definition keep_char :: "char \<Rightarrow> scan_state \<Rightarrow> scan_state" where
  "keep_char ch s = s\<lparr>sc_chunk := map_option ((#) ch) (sc_chunk s)\<rparr>"

definition scan_char :: "scan_state \<Rightarrow> char \<Rightarrow> scan_state" where
  "scan_char s ch =
     (if sc_inString s then
        keep_char ch
          (if sc_escaped s then s\<lparr>sc_escaped := False\<rparr>
           else if ch = CHR 0x5C then s\<lparr>sc_escaped := True\<rparr>
           else if ch = CHR 0x22 then s\<lparr>sc_inString := False\<rparr>
           else s)
      else if ch = CHR 0x22 then keep_char ch (s\<lparr>sc_inString := True\<rparr>)
      else if ch = CHR ''{'' then
        (if sc_depth s = 0 then s\<lparr>sc_chunk := Some [ch], sc_depth := 1\<rparr>
         else keep_char ch (s\<lparr>sc_depth := sc_depth s + 1\<rparr>))
      else if ch = CHR ''}'' \<and> 0 < sc_depth s then
        (if sc_depth s = 1 then
           (case sc_chunk s of
              None \<Rightarrow> s\<lparr>sc_depth := 0\<rparr>
            | Some chunk \<Rightarrow>
                s\<lparr>sc_depth := 0, sc_chunk := None,
                  sc_out := sc_out s @ (case JSON_parse (rev (ch # chunk)) of None \<Rightarrow> [] | Some v \<Rightarrow> [v])\<rparr>)
         else keep_char ch (s\<lparr>sc_depth := sc_depth s - 1\<rparr>))
      else keep_char ch s)"

definition extractJsonObjects :: "string \<Rightarrow> json list" where
  "extractJsonObjects raw =
     sc_out (foldl scan_char \<lparr>sc_out = [], sc_depth = 0, sc_chunk = None, sc_inString = False, sc_escaped = False\<rparr> raw)"

definition parseJsonObject :: "chain_host \<Rightarrow> string \<Rightarrow> string \<Rightarrow> (string, json) result" where
  "parseJsonObject h raw name =
     (let source = trim raw
      in if length source = 0 then Inl (integrity_error name ''invalid json (empty file)'')
         else (case JSON_parse source of
            Some v \<Rightarrow> Inr v
          | None \<Rightarrow>
              (let extracted = extractJsonObjects raw
               in if extracted \<noteq> [] then Inr (last extracted)
                  else Inl (integrity_error name (''invalid json ('' @ ch_parse_error h source @ '')'')))))"

definition readBlockFile :: "chain_host \<Rightarrow> string \<Rightarrow> string \<Rightarrow> (string, ChainBlock) result" where
  "readBlockFile h raw name = rbind (parseJsonObject h raw name) (\<lambda>v. toChainBlock v name)"

section \<open>Reading a chain\<close>

text \<open>\<open>file.replace('.json', '')\<close> removes the first occurrence.\<close>

fun replace_first :: "string \<Rightarrow> string \<Rightarrow> string" where
  "replace_first p [] = []"
| "replace_first p (c # s) = (if starts_with (c # s) p then drop (length p) (c # s) else c # replace_first p s)"

definition file_index :: "string \<Rightarrow> int option" where
  "file_index name = parse_int (replace_first ''.json'' name)"

definition json_files :: "chain_dir \<Rightarrow> (string \<times> int) list" where
  "json_files dir =
     concat (map (\<lambda>name. if ends_with name ''.json''
                         then (case file_index name of None \<Rightarrow> [] | Some i \<Rightarrow> [(name, i)]) else []) (keys dir))"

definition by_index :: "string \<times> int \<Rightarrow> string \<times> int \<Rightarrow> int" where
  "by_index a b = snd a - snd b"

fun load_files :: "chain_host \<Rightarrow> chain_dir \<Rightarrow> (string \<times> int) list \<Rightarrow> (string, (string \<times> ChainBlock) list) result" where
  "load_files h dir [] = Inr []"
| "load_files h dir ((name, i) # rest) =
     rbind (readBlockFile h (or_else (map_of dir name) '''') name)
       (\<lambda>b. rbind (load_files h dir rest) (\<lambda>bs. Inr ((name, b) # bs)))"

definition check_next :: "chain_host \<Rightarrow> ChainBlock list \<Rightarrow> string \<Rightarrow> ChainBlock \<Rightarrow> (string, unit) result" where
  "check_next h blocks name current =
     rbind (validateBlockHash h current name)
       (\<lambda>_.
         if blocks = [] then
           (if cb_index current \<noteq> 1 then Inl (integrity_error name ''missing genesis block'')
            else if cb_prev_hash current \<noteq> '''' \<and> cb_prev_hash current \<noteq> GENESIS_PREV_HASH
              then Inl (integrity_error name ''prev_hash mismatch'')
            else Inr ())
         else
           (let previous = last blocks
            in if cb_index current \<noteq> cb_index previous + 1 then Inl (integrity_error name ''non-sequential index'')
               else if cb_prev_hash current \<noteq> cb_hash previous then Inl (integrity_error name ''prev_hash mismatch'')
               else Inr ()))"

fun validate_blocks ::
  "chain_host \<Rightarrow> ChainBlock list \<Rightarrow> (string \<times> ChainBlock) list \<Rightarrow> (string, ChainBlock list) result" where
  "validate_blocks h blocks [] = Inr blocks"
| "validate_blocks h blocks ((name, current) # rest) =
     rbind (check_next h blocks name current) (\<lambda>_. validate_blocks h (blocks @ [current]) rest)"

definition readAndValidateChainBlocks :: "chain_host \<Rightarrow> chain_dir \<Rightarrow> (string, ChainBlock list) result" where
  "readAndValidateChainBlocks h dir =
     (let indexed = js_sort by_index (json_files dir)
      in if indexed = [] then Inr []
         else rbind (load_files h dir indexed) (validate_blocks h []))"

section \<open>Names and directories\<close>

definition safe_char :: "char \<Rightarrow> bool" where
  "safe_char c \<longleftrightarrow> is_alnum c \<or> c = CHR ''_'' \<or> c = CHR ''-''"

definition SAFE_CHAIN_NAME :: "string \<Rightarrow> bool" where
  "SAFE_CHAIN_NAME s \<longleftrightarrow> 1 \<le> length s \<and> length s \<le> 64 \<and> list_all safe_char s"

definition resolveChainDir :: "path_host \<Rightarrow> string \<Rightarrow> (string, string) result" where
  "resolveChainDir ph chainName =
     (let invalid = Inl ''invalid chain name''
      in if length (trim chainName) = 0 then invalid
         else if CHR 0x00 \<in> set chainName then invalid
         else
          (let normalized = trim chainName
           in if str_includes normalized ''..'' \<or> str_includes normalized ''/''
                 \<or> str_includes normalized [CHR 0x5C] then invalid
              else if \<not> SAFE_CHAIN_NAME normalized then invalid
              else
               (let baseDir = ph_base ph; targetDir = ph_resolve ph baseDir normalized
                in if targetDir \<noteq> baseDir \<and> \<not> starts_with targetDir (baseDir @ ph_sep ph) then invalid
                   else
                    (let checked = (case ph_symlink ph targetDir of
                                      None \<Rightarrow> Inl ''ENOENT''
                                    | Some link \<Rightarrow> if link then Inl ''invalid chain name'' else Inr ())
                     in case checked of
                          Inl _ \<Rightarrow> Inr targetDir   \<comment> \<open>the catch block ignores every error\<close>
                        | Inr _ \<Rightarrow> Inr targetDir))))"

section \<open>Appending\<close>

definition pruned_names :: "chain_dir \<Rightarrow> (string \<times> int) list \<Rightarrow> string list" where
  "pruned_names dir indexed = map fst (takeWhile (\<lambda>(name, _). map_of dir name = Some '''') indexed)"

definition pruneTrailingEmptyBlockFiles :: "chain_dir \<Rightarrow> chain_dir" where
  "pruneTrailingEmptyBlockFiles dir =
     fold AList.delete (pruned_names dir (js_sort (\<lambda>a b. by_index b a) (json_files dir))) dir"

record AppendBlockResult =
  ar_index :: int
  ar_hash :: string
  ar_chain :: string
  ar_timestamp :: string

datatype fs_fault = NoFault | WriteFails nat | RenameFails

record append_env =
  ae_now :: string
  ae_tmp :: string
  ae_lock_free :: "nat \<Rightarrow> bool"
  ae_fault :: fs_fault

definition block_file :: "int \<Rightarrow> string" where
  "block_file i = pad_start 6 CHR ''0'' (show_int i) @ ''.json''"

definition next_block :: "chain_host \<Rightarrow> string \<Rightarrow> string \<Rightarrow> json \<Rightarrow> ChainBlock list \<Rightarrow> ChainBlock" where
  "next_block h now chainName data blocks =
     (let nextIndex = (if blocks = [] then 1 else cb_index (last blocks) + 1);
          withoutHash = \<lparr>cb_index = nextIndex, cb_timestamp = now, cb_chain = chainName, cb_data = data,
            cb_prev_hash = (if blocks = [] then GENESIS_PREV_HASH else cb_hash (last blocks)), cb_hash = ''''\<rparr>
      in withoutHash\<lparr>cb_hash := hashBlock h withoutHash\<rparr>)"

definition tmp_file :: "append_env \<Rightarrow> int \<Rightarrow> string" where
  "tmp_file env i = block_file i @ ''.tmp-'' @ ae_tmp env"

definition write_block :: "append_env \<Rightarrow> ChainBlock \<Rightarrow> chain_dir \<Rightarrow> (string, unit) result \<times> chain_dir" where
  "write_block env b dir =
     (let tmp = tmp_file env (cb_index b); text = JSON_stringify2 (block_json b)
      in case ae_fault env of
           WriteFails n \<Rightarrow> (Inl ''write failed'', AList.update tmp (take n text) dir)
         | RenameFails \<Rightarrow> (Inl ''rename failed'', AList.delete tmp (AList.update tmp text dir))
         | NoFault \<Rightarrow>
             (Inr (), AList.update (block_file (cb_index b)) text (AList.delete tmp (AList.update tmp text dir))))"

definition append_locked ::
  "chain_host \<Rightarrow> append_env \<Rightarrow> string \<Rightarrow> json \<Rightarrow> chain_dir \<Rightarrow> (string, AppendBlockResult) result \<times> chain_dir" where
  "append_locked h env chainName data dir =
     (let dir = pruneTrailingEmptyBlockFiles dir
      in case readAndValidateChainBlocks h dir of
           Inl e \<Rightarrow> (Inl e, dir)
         | Inr blocks \<Rightarrow>
             (let b = next_block h (ae_now env) chainName data blocks
              in case write_block env b dir of
                   (Inl e, dir) \<Rightarrow> (Inl e, dir)
                 | (Inr _, dir) \<Rightarrow>
                     (Inr \<lparr>ar_index = cb_index b, ar_hash = cb_hash b, ar_chain = chainName,
                           ar_timestamp = ae_now env\<rparr>, dir)))"

definition APPEND_LOCK_MAX_ATTEMPTS :: nat where
  "APPEND_LOCK_MAX_ATTEMPTS = 200"

fun lock_attempts :: "(nat \<Rightarrow> bool) \<Rightarrow> nat \<Rightarrow> nat \<Rightarrow> string \<Rightarrow> ('s \<Rightarrow> (string, 'a) result \<times> 's) \<Rightarrow> 's \<Rightarrow>
    (string, 'a) result \<times> 's" where
  "lock_attempts free attempt 0 chainsDir fn s = (Inl (''chain append lock timeout for '' @ chainsDir), s)"
| "lock_attempts free attempt (Suc n) chainsDir fn s =
     (if free attempt then fn s else lock_attempts free (Suc attempt) n chainsDir fn s)"

definition withAppendLock ::
  "(nat \<Rightarrow> bool) \<Rightarrow> string \<Rightarrow> ('s \<Rightarrow> (string, 'a) result \<times> 's) \<Rightarrow> 's \<Rightarrow> (string, 'a) result \<times> 's" where
  "withAppendLock free chainsDir fn s = lock_attempts free 0 APPEND_LOCK_MAX_ATTEMPTS chainsDir fn s"

type_synonym chain_fs = "string \<Rightarrow> chain_dir option"

definition appendBlock ::
  "chain_host \<Rightarrow> path_host \<Rightarrow> append_env \<Rightarrow> ChainBackend \<Rightarrow>
   (string \<Rightarrow> json \<Rightarrow> (string, AppendBlockResult) result) \<Rightarrow> string \<Rightarrow> json \<Rightarrow> chain_fs \<Rightarrow>
   (string, AppendBlockResult) result \<times> chain_fs" where
  "appendBlock h ph env backend rust chainName data fs =
     (if backend = RustNapi then
        (case rust chainName data of
           Inl e \<Rightarrow> (Inl (''rust chain append failed: '' @ e), fs)
         | Inr r \<Rightarrow> (Inr r, fs))
      else
        (case resolveChainDir ph chainName of
           Inl e \<Rightarrow> (Inl e, fs)
         | Inr chainsDir \<Rightarrow>
             (case withAppendLock (ae_lock_free env) chainsDir (append_locked h env chainName data)
                     (or_else (fs chainsDir) []) of
                (r, dir) \<Rightarrow> (r, fs(chainsDir := Some dir)))))"

section \<open>The integrity check\<close>

record integrity =
  in_ok :: bool
  in_chainsChecked :: nat
  in_blockCount :: nat
  in_chain :: "string option"

fun check_chains :: "chain_host \<Rightarrow> path_host \<Rightarrow> chain_fs \<Rightarrow> nat \<Rightarrow> nat \<Rightarrow> string list \<Rightarrow> (string, nat \<times> nat) result" where
  "check_chains h ph fs chainsChecked blockCount [] = Inr (chainsChecked, blockCount)"
| "check_chains h ph fs chainsChecked blockCount (chain # rest) =
     rbind (resolveChainDir ph chain)
       (\<lambda>chainsDir.
          case fs chainsDir of
            None \<Rightarrow> Inl ''ENOENT''
          | Some dir \<Rightarrow>
              rbind (readAndValidateChainBlocks h dir)
                (\<lambda>blocks. check_chains h ph fs (chainsChecked + 1) (blockCount + length blocks) rest))"

definition verifyChainIntegrity ::
  "chain_host \<Rightarrow> path_host \<Rightarrow> string list \<Rightarrow> chain_fs \<Rightarrow> string option \<Rightarrow> (string, integrity) result" where
  "verifyChainIntegrity h ph listed fs chainName =
     (let selected = (case chainName of
          Some c \<Rightarrow> if c \<noteq> '''' then [c] else filter SAFE_CHAIN_NAME listed
        | None \<Rightarrow> filter SAFE_CHAIN_NAME listed)
      in rbind (check_chains h ph fs 0 0 selected)
           (\<lambda>(n, m). Inr \<lparr>in_ok = True, in_chainsChecked = n, in_blockCount = m, in_chain = chainName\<rparr>))"

end
