(* ===== verification/ChainLaws.thy ===== *)
theory ChainLaws
  imports ChainAdapter
begin

text \<open>
  What the chain directory guarantees: the validating reader accepts exactly the linked chains; a
  directory built by appends reads back as the list of the appended blocks whatever append failed and
  wherever; blocks under an accepted head cannot be replaced without a SHA-256 collision, except through
  the legacy hash.
\<close>

section \<open>Linked chains\<close>

definition hash_ok :: "chain_host \<Rightarrow> ChainBlock \<Rightarrow> bool" where
  "hash_ok h b \<longleftrightarrow> cb_hash b = hashBlock h b \<or> cb_hash b = legacyHash h b"

definition may_follow :: "chain_host \<Rightarrow> ChainBlock list \<Rightarrow> ChainBlock \<Rightarrow> bool" where
  "may_follow h bs b \<longleftrightarrow>
     hash_ok h b \<and> cb_index b = int (length bs) + 1 \<and>
     (if bs = [] then cb_prev_hash b \<in> {'''', GENESIS_PREV_HASH} else cb_prev_hash b = cb_hash (last bs))"

definition valid_chain :: "chain_host \<Rightarrow> ChainBlock list \<Rightarrow> bool" where
  "valid_chain h bs \<longleftrightarrow> (\<forall>i < length bs. may_follow h (take i bs) (bs ! i))"

lemma valid_chain_Nil [simp]: "valid_chain h []"
  by (simp add: valid_chain_def)

lemma valid_chain_snoc: "valid_chain h (bs @ [b]) \<longleftrightarrow> valid_chain h bs \<and> may_follow h bs b"
  unfolding valid_chain_def by (auto simp: nth_append less_Suc_eq)

lemma valid_chain_prefix: "valid_chain h (bs @ cs) \<Longrightarrow> valid_chain h bs"
  by (induction cs rule: rev_induct) (simp_all add: valid_chain_snoc flip: append_assoc)

lemma valid_chain_last_index: "valid_chain h bs \<Longrightarrow> bs \<noteq> [] \<Longrightarrow> cb_index (last bs) = int (length bs)"
  by (cases bs rule: rev_cases) (simp_all add: valid_chain_snoc may_follow_def)

lemma check_next_iff:
  "valid_chain h bs \<Longrightarrow> check_next h bs name b = Inr () \<longleftrightarrow> may_follow h bs b"
  using valid_chain_last_index [of h bs]
  by (auto simp: check_next_def validateBlockHash_def may_follow_def hash_ok_def Let_def)

lemma validate_blocks_iff:
  "valid_chain h acc \<Longrightarrow> validate_blocks h acc rest = Inr r \<longleftrightarrow>
     r = acc @ map snd rest \<and> valid_chain h (acc @ map snd rest)"
proof (induction rest arbitrary: acc)
  case Nil
  then show ?case by auto
next
  case (Cons nb rest)
  obtain name b where nb: "nb = (name, b)" by force
  show ?case
  proof (cases "check_next h acc name b")
    case (Inl e)
    then have "\<not> may_follow h acc b" using check_next_iff [OF Cons.prems, of name b] by simp
    then have "\<not> valid_chain h (acc @ b # map snd rest)"
      using valid_chain_prefix [of h "acc @ [b]" "map snd rest"] by (auto simp: valid_chain_snoc)
    with Inl show ?thesis by (simp add: nb)
  next
    case (Inr u)
    then have "valid_chain h (acc @ [b])"
      using check_next_iff [OF Cons.prems, of name b] Cons.prems by (simp add: valid_chain_snoc)
    from Cons.IH [OF this] Inr show ?thesis by (simp add: nb)
  qed
qed

section \<open>File names\<close>

lemma ends_with_append: "ends_with (s @ p) p"
  by (simp add: ends_with_def)

lemma replace_first_end:
  "CHR ''.'' \<notin> set s \<Longrightarrow> replace_first ''.json'' (s @ ''.json'') = s"
  by (induction s) (auto simp: starts_with_def)

lemma pad_show_digits: "0 \<le> i \<Longrightarrow> \<forall>c \<in> set (pad_start 6 CHR ''0'' (show_int i)). is_digit c"
  using show_nat_digits by (auto simp: pad_start_def show_int_def is_digit_def code_def)

lemma pad_show_not_Nil: "pad_start 6 CHR ''0'' (show_int i) \<noteq> []"
  by (auto simp: pad_start_def show_int_def)

lemma digit_not_dot: "is_digit c \<Longrightarrow> c \<noteq> CHR ''.''"
  by (auto simp: is_digit_def code_def)

lemma file_index_block_file:
  assumes "0 \<le> i"
  shows "file_index (block_file i) = Some i"
proof -
  let ?d = "pad_start 6 CHR ''0'' (show_int i)"
  have dig: "\<forall>c \<in> set ?d. is_digit c" by (rule pad_show_digits [OF assms])
  then have "replace_first ''.json'' (block_file i) = ?d"
    using digit_not_dot by (auto simp: block_file_def intro!: replace_first_end)
  moreover have "parse_int (?d @ []) = Some (int (digits_val ?d))"
    by (rule parse_int_digits) (use dig pad_show_not_Nil in auto)
  moreover have "digits_val ?d = nat i"
    using assms by (simp add: pad_start_def show_int_def digits_val_zeros)
  ultimately show ?thesis using assms by (simp add: file_index_def)
qed

lemma block_file_json [simp]: "ends_with (block_file i) ''.json''"
  unfolding block_file_def by (rule ends_with_append)

lemma block_file_inj: "0 \<le> i \<Longrightarrow> 0 \<le> j \<Longrightarrow> block_file i = block_file j \<Longrightarrow> i = j"
  by (metis file_index_block_file option.inject)

text \<open>The suffix of a temporary file is a process number, a dash and a time.\<close>

definition tmp_ok :: "append_env \<Rightarrow> bool" where
  "tmp_ok env \<longleftrightarrow> ae_tmp env \<noteq> [] \<and> list_all (\<lambda>c. is_digit c \<or> c = CHR ''-'') (ae_tmp env)"

lemma tmp_file_not_json: "tmp_ok env \<Longrightarrow> \<not> ends_with (tmp_file env i) ''.json''"
proof
  assume ok: "tmp_ok env" and ends: "ends_with (tmp_file env i) ''.json''"
  then have "last (tmp_file env i) = CHR ''n''"
    by (auto simp: ends_with_def starts_with_iff rev_swap)
  moreover have "last (tmp_file env i) = last (ae_tmp env)" using ok by (simp add: tmp_file_def tmp_ok_def)
  moreover have "is_digit (last (ae_tmp env)) \<or> last (ae_tmp env) = CHR ''-''"
    using ok by (auto simp: tmp_ok_def list_all_iff)
  ultimately show False by (auto simp: is_digit_def code_def)
qed

section \<open>A block survives its file\<close>

definition block_wf :: "ChainBlock \<Rightarrow> bool" where
  "block_wf b \<longleftrightarrow> is_object (cb_data b) \<and> json_wf (cb_data b)"

lemma json_wf_block_json: "block_wf b \<Longrightarrow> json_wf (block_json b)"
  by (simp add: block_wf_def block_json_def hashed_fields_def)

lemma stringify2_object:
  "\<exists>mid. JSON_stringify2 (JObj (kv # kvs)) = CHR ''{'' # mid @ ''}''"
  by (simp add: JSON_stringify2_def text_of_def)

lemma block_text_trim: "trim (JSON_stringify2 (block_json b)) = JSON_stringify2 (block_json b)"
  and block_text_not_Nil: "JSON_stringify2 (block_json b) \<noteq> []"
proof -
  obtain mid where "JSON_stringify2 (block_json b) = CHR ''{'' # mid @ ''}''"
    using stringify2_object unfolding block_json_def hashed_fields_def append_Cons by blast
  then show "trim (JSON_stringify2 (block_json b)) = JSON_stringify2 (block_json b)"
    and "JSON_stringify2 (block_json b) \<noteq> []"
    by (auto intro!: trim_id simp: is_space_def code_def)
qed

lemma toChainBlock_block_json: "is_object (cb_data b) \<Longrightarrow> toChainBlock (block_json b) name = Inr b"
  by (simp add: toChainBlock_def block_json_def hashed_fields_def)

lemma readBlockFile_block:
  "block_wf b \<Longrightarrow> readBlockFile h (JSON_stringify2 (block_json b)) name = Inr b"
  using block_text_not_Nil [of b]
  by (simp add: readBlockFile_def parseJsonObject_def block_text_trim parse_stringify2 json_wf_block_json
      toChainBlock_block_json block_wf_def)

section \<open>A directory that holds a chain\<close>

definition stored :: "ChainBlock list \<Rightarrow> chain_dir \<Rightarrow> bool" where
  "stored bs dir \<longleftrightarrow>
     wf_map dir \<and>
     (\<forall>name \<in> set (keys dir). ends_with name ''.json'' \<longrightarrow> (\<exists>i < length bs. name = block_file (int i + 1))) \<and>
     (\<forall>i < length bs. map_of dir (block_file (int i + 1)) = Some (JSON_stringify2 (block_json (bs ! i))))"

definition numbered :: "nat \<Rightarrow> (string \<times> int) list" where
  "numbered n = map (\<lambda>i. (block_file (int i + 1), int i + 1)) [0..<n]"

interpretation index_order: comparator by_index
  by unfold_locales (auto simp: by_index_def)

interpretation index_desc: comparator "\<lambda>a b. by_index b a"
  by unfold_locales (auto simp: by_index_def)

lemma json_files_mem:
  "(name, i) \<in> set (json_files dir) \<longleftrightarrow>
     name \<in> set (keys dir) \<and> ends_with name ''.json'' \<and> file_index name = Some i"
  by (auto simp: json_files_def split: option.splits if_splits)

lemma distinct_json_files: "wf_map dir \<Longrightarrow> distinct (map fst (json_files dir))"
proof -
  have "map fst (json_files dir) =
      filter (\<lambda>name. ends_with name ''.json'' \<and> file_index name \<noteq> None) (keys dir)"
    unfolding json_files_def by (induction "keys dir" arbitrary: dir) (auto simp: keys_def split: option.splits)
  then show "wf_map dir \<Longrightarrow> ?thesis" by (simp add: wf_map_def)
qed

lemma set_json_files_stored:
  assumes "stored bs dir"
  shows "set (json_files dir) = set (numbered (length bs))"
proof -
  have "(name, i) \<in> set (json_files dir) \<longleftrightarrow> (name, i) \<in> set (numbered (length bs))" for name i
  proof
    assume "(name, i) \<in> set (json_files dir)"
    with assms obtain k where "k < length bs" "name = block_file (int k + 1)" "file_index name = Some i"
      by (auto simp: json_files_mem stored_def)
    then show "(name, i) \<in> set (numbered (length bs))"
      by (auto simp: numbered_def file_index_block_file image_iff)
  next
    assume "(name, i) \<in> set (numbered (length bs))"
    then obtain k where k: "k < length bs" "name = block_file (int k + 1)" "i = int k + 1"
      by (auto simp: numbered_def)
    with assms have "map_of dir name \<noteq> None" by (simp add: stored_def)
    then have "name \<in> set (keys dir)" by (auto dest: map_of_SomeD')
    with k show "(name, i) \<in> set (json_files dir)" by (simp add: json_files_mem file_index_block_file)
  qed
  then show ?thesis by auto
qed

lemma sorted_by_index_unique:
  assumes "sorted_wrt (\<lambda>x y. f x < (f y :: int)) xs" and "sorted_wrt (\<lambda>x y. f x < f y) ys" and "set xs = set ys"
  shows "xs = ys"
  using assms
proof (induction xs arbitrary: ys)
  case Nil
  then show ?case by simp
next
  case (Cons x xs)
  then obtain y ys' where ys: "ys = y # ys'" by (cases ys) auto
  have "x = y"
  proof (rule ccontr)
    assume ne: "x \<noteq> y"
    with Cons.prems(3) have "x \<in> set ys'" and "y \<in> set xs" by (auto simp: ys)
    with Cons.prems(1,2) show False by (fastforce simp: ys)
  qed
  moreover have "set xs = set ys'"
  proof -
    have "x \<notin> set xs" and "y \<notin> set ys'" using Cons.prems(1,2) by (auto simp: ys)
    with Cons.prems(3) \<open>x = y\<close> show ?thesis by (auto simp: ys)
  qed
  ultimately show ?case using Cons.IH [of ys'] Cons.prems by (simp add: ys)
qed

lemma strict_from_sorted:
  assumes "sorted_wrt (\<lambda>x y. by_index x y \<le> 0) xs" and "distinct (map snd xs)"
  shows "sorted_wrt (\<lambda>x y. snd x < snd y) xs"
  using assms by (induction xs) (fastforce simp: by_index_def image_iff)+

lemma numbered_strict: "sorted_wrt (\<lambda>x y. snd x < snd y) (numbered n)"
  unfolding numbered_def sorted_wrt_map by (rule sorted_wrt_mono_rel [OF _ sorted_wrt_upt]) simp

lemma sorted_files_stored:
  assumes "stored bs dir"
  shows "js_sort by_index (json_files dir) = numbered (length bs)"
proof (rule sorted_by_index_unique [of snd])
  have wf: "wf_map dir" using assms by (simp add: stored_def)
  have "inj_on snd (set (json_files dir))"
    unfolding set_json_files_stored [OF assms] by (auto simp: inj_on_def numbered_def)
  then have "distinct (map snd (json_files dir))"
    using distinct_json_files [OF wf] by (simp add: distinct_map)
  then have "distinct (map snd (js_sort by_index (json_files dir)))"
    by (metis mset_eq_imp_distinct_iff mset_js_sort mset_map)
  then show "sorted_wrt (\<lambda>x y. snd x < snd y) (js_sort by_index (json_files dir))"
    using strict_from_sorted index_order.sorted_js_sort by blast
qed (simp_all add: numbered_strict set_json_files_stored [OF assms])

lemma load_files_numbered:
  assumes "stored bs dir" and "\<forall>b \<in> set bs. block_wf b" and "n \<le> length bs"
  shows "load_files h dir (drop (length bs - n) (numbered (length bs))) =
    Inr (map (\<lambda>i. (block_file (int i + 1), bs ! i)) [length bs - n..<length bs])"
  using assms(3)
proof (induction n)
  case 0
  then show ?case by (simp add: numbered_def)
next
  case (Suc n)
  define k where "k = length bs - Suc n"
  then have k: "k < length bs" "length bs - n = Suc k" "length bs - Suc n = k" using Suc.prems by auto
  have "drop k (numbered (length bs)) = (block_file (int k + 1), int k + 1) # drop (length bs - n) (numbered (length bs))"
    using k by (simp add: numbered_def drop_map upt_conv_Cons)
  moreover have "readBlockFile h (or_else (map_of dir (block_file (int k + 1))) '''') nm = Inr (bs ! k)" for nm
    using assms(1,2) k by (simp add: stored_def readBlockFile_block)
  ultimately show ?case using Suc k by (simp add: upt_conv_Cons)
qed

lemma read_stored:
  assumes "stored bs dir" and "\<forall>b \<in> set bs. block_wf b" and "valid_chain h bs"
  shows "readAndValidateChainBlocks h dir = Inr bs"
proof (cases "bs = []")
  case True
  then show ?thesis
    using sorted_files_stored [OF assms(1)] by (simp add: readAndValidateChainBlocks_def numbered_def)
next
  case False
  let ?named = "map (\<lambda>i. (block_file (int i + 1), bs ! i)) [0..<length bs]"
  have "load_files h dir (numbered (length bs)) = Inr ?named"
    using load_files_numbered [OF assms(1,2), of "length bs" h] by simp
  moreover have "map snd ?named = bs" by (simp add: comp_def map_nth)
  then have "validate_blocks h [] ?named = Inr bs"
    using validate_blocks_iff [OF valid_chain_Nil, of h ?named bs] assms(3) by simp
  moreover have "numbered (length bs) \<noteq> []" using False by (simp add: numbered_def)
  ultimately show ?thesis
    using sorted_files_stored [OF assms(1)] by (simp add: readAndValidateChainBlocks_def)
qed

section \<open>One append\<close>

lemma js_sort_desc_last:
  assumes "stored bs dir" and "js_sort (\<lambda>a b. by_index b a) (json_files dir) = x # xs"
  shows "\<exists>k < length bs. fst x = block_file (int k + 1)"
proof -
  have "x \<in> set (json_files dir)" using assms(2) by (metis list.set_intros(1) set_js_sort)
  then show ?thesis unfolding set_json_files_stored [OF assms(1)] by (auto simp: numbered_def)
qed

lemma prune_stored: "stored bs dir \<Longrightarrow> pruneTrailingEmptyBlockFiles dir = dir"
proof -
  assume st: "stored bs dir"
  have "pruned_names dir (js_sort (\<lambda>a b. by_index b a) (json_files dir)) = []"
  proof (cases "js_sort (\<lambda>a b. by_index b a) (json_files dir)")
    case Nil
    then show ?thesis by (simp add: pruned_names_def)
  next
    case (Cons x xs)
    then obtain k where "k < length bs" "fst x = block_file (int k + 1)" using js_sort_desc_last [OF st] by blast
    then have "map_of dir (fst x) \<noteq> Some ''''" using st block_text_not_Nil by (simp add: stored_def)
    with Cons show ?thesis by (cases x) (simp add: pruned_names_def)
  qed
  then show ?thesis by (simp add: pruneTrailingEmptyBlockFiles_def)
qed

lemma stored_other:
  assumes "stored bs dir" and "\<not> ends_with name ''.json''"
  shows "stored bs (AList.update name text dir)" and "stored bs (AList.delete name dir)"
proof -
  have ne: "name \<noteq> block_file i" for i using assms(2) by auto
  show "stored bs (AList.update name text dir)"
    using assms ne by (auto simp: stored_def keys_update map_of_update split: if_splits)
  show "stored bs (AList.delete name dir)"
    using assms ne by (auto simp: stored_def keys_delete map_of_delete)
qed

lemma stored_snoc:
  assumes "stored bs dir"
  shows "stored (bs @ [b]) (AList.update (block_file (int (length bs) + 1)) (JSON_stringify2 (block_json b)) dir)"
proof -
  have ne: "block_file (int i + 1) \<noteq> block_file (int (length bs) + 1)" if "i < length bs" for i
    using that block_file_inj [of "int i + 1" "int (length bs) + 1"] by auto
  show ?thesis unfolding stored_def
  proof (intro conjI ballI impI allI)
    show "wf_map (AList.update (block_file (int (length bs) + 1)) (JSON_stringify2 (block_json b)) dir)"
      using assms by (simp add: stored_def)
  next
    fix name
    assume "name \<in> set (keys (AList.update (block_file (int (length bs) + 1)) (JSON_stringify2 (block_json b)) dir))"
      and json: "ends_with name ''.json''"
    then consider "name = block_file (int (length bs) + 1)" | "name \<in> set (keys dir)"
      by (auto simp: keys_update split: if_splits)
    then show "\<exists>i < length (bs @ [b]). name = block_file (int i + 1)"
    proof cases
      case 1
      then show ?thesis by (intro exI [of _ "length bs"]) simp
    next
      case 2
      with assms json obtain i where "i < length bs" "name = block_file (int i + 1)" by (auto simp: stored_def)
      then show ?thesis by (intro exI [of _ i]) simp
    qed
  next
    fix i assume "i < length (bs @ [b])"
    then show "map_of (AList.update (block_file (int (length bs) + 1)) (JSON_stringify2 (block_json b)) dir)
        (block_file (int i + 1)) = Some (JSON_stringify2 (block_json ((bs @ [b]) ! i)))"
      using assms ne [of i] by (cases "i = length bs") (auto simp: map_of_update stored_def nth_append)
  qed
qed

lemma next_block_fields:
  "cb_data (next_block h now c d bs) = d"
  "valid_chain h bs \<Longrightarrow> cb_index (next_block h now c d bs) = int (length bs) + 1"
  "hash_ok h (next_block h now c d bs)"
  "cb_timestamp (next_block h now c d bs) = now" "cb_chain (next_block h now c d bs) = c"
  "cb_hash (next_block h now c d bs) = hashBlock h (next_block h now c d bs)"
  using valid_chain_last_index [of h bs]
  by (auto simp: next_block_def Let_def hash_ok_def hashBlock_def hashed_fields_def)

lemma may_follow_next_block: "valid_chain h bs \<Longrightarrow> may_follow h bs (next_block h now c d bs)"
  using next_block_fields(2,3) by (auto simp: may_follow_def) (simp_all add: next_block_def Let_def)

lemma block_wf_next: "is_object d \<Longrightarrow> json_wf d \<Longrightarrow> block_wf (next_block h now c d bs)"
  by (simp add: block_wf_def next_block_fields)

text \<open>The abstract chain: a directory that holds a valid list of well-formed blocks.\<close>

definition chain_holds :: "chain_host \<Rightarrow> ChainBlock list \<Rightarrow> chain_dir \<Rightarrow> bool" where
  "chain_holds h bs dir \<longleftrightarrow> stored bs dir \<and> (\<forall>b \<in> set bs. block_wf b) \<and> valid_chain h bs"

lemma chain_holds_read: "chain_holds h bs dir \<Longrightarrow> readAndValidateChainBlocks h dir = Inr bs"
  unfolding chain_holds_def by (blast intro: read_stored)

lemma chain_holds_empty: "chain_holds h [] []"
  by (simp add: chain_holds_def stored_def keys_def)

lemma chain_holds_write:
  assumes held: "chain_holds h bs dir" and wfb: "block_wf b" and nxt: "may_follow h bs b"
    and tmp: "tmp_ok env"
  shows "ae_fault env = NoFault \<Longrightarrow>
      \<exists>dir'. write_block env b dir = (Inr (), dir') \<and> chain_holds h (bs @ [b]) dir'"
    and "ae_fault env \<noteq> NoFault \<Longrightarrow>
      \<exists>e dir'. write_block env b dir = (Inl e, dir') \<and> chain_holds h bs dir'"
proof -
  have st: "stored bs dir" and wf: "\<forall>b \<in> set bs. block_wf b" and val: "valid_chain h bs"
    using held by (auto simp: chain_holds_def)
  have idx: "cb_index b = int (length bs) + 1" using nxt by (simp add: may_follow_def)
  let ?tmp = "tmp_file env (cb_index b)"
  note nj = tmp_file_not_json [OF tmp, of "cb_index b"]
  show "\<exists>dir'. write_block env b dir = (Inr (), dir') \<and> chain_holds h (bs @ [b]) dir'"
    if "ae_fault env = NoFault"
  proof -
    let ?text = "JSON_stringify2 (block_json b)"
    let ?dir' = "AList.update (block_file (cb_index b)) ?text (AList.delete ?tmp (AList.update ?tmp ?text dir))"
    have "stored (bs @ [b]) ?dir'"
      unfolding idx by (intro stored_snoc stored_other st nj [unfolded idx])
    moreover have "valid_chain h (bs @ [b])" using val nxt by (simp add: valid_chain_snoc)
    ultimately have "chain_holds h (bs @ [b]) ?dir'"
      using wf wfb by (auto simp: chain_holds_def)
    then show ?thesis using that by (simp add: write_block_def Let_def)
  qed
  show "\<exists>e dir'. write_block env b dir = (Inl e, dir') \<and> chain_holds h bs dir'"
    if "ae_fault env \<noteq> NoFault"
    using that stored_other [OF _ nj] st wf val
    by (cases "ae_fault env") (auto simp: write_block_def Let_def chain_holds_def)
qed

lemma append_locked_held:
  assumes "chain_holds h bs dir"
  shows "append_locked h env c d dir =
    (case write_block env (next_block h (ae_now env) c d bs) dir of
       (Inl e, dir) \<Rightarrow> (Inl e, dir)
     | (Inr _, dir) \<Rightarrow>
         (Inr \<lparr>ar_index = int (length bs) + 1, ar_hash = cb_hash (next_block h (ae_now env) c d bs),
               ar_chain = c, ar_timestamp = ae_now env\<rparr>, dir))"
  using assms next_block_fields(2) [of h bs]
  by (simp add: append_locked_def chain_holds_read prune_stored [of bs] chain_holds_def Let_def
      split: prod.split sum.split)

lemma chain_holds_append:
  assumes held: "chain_holds h bs dir" and obj: "is_object d" "json_wf d" and tmp: "tmp_ok env"
    and run: "append_locked h env c d dir = (r, dir')"
  shows "chain_holds h (if is_ok r then bs @ [next_block h (ae_now env) c d bs] else bs) dir' \<and>
    (is_ok r \<longleftrightarrow> ae_fault env = NoFault)"
proof -
  let ?b = "next_block h (ae_now env) c d bs"
  have "may_follow h bs ?b" using held by (simp add: chain_holds_def may_follow_next_block)
  note wr = chain_holds_write [OF held block_wf_next [OF obj] this tmp]
  show ?thesis
    using wr run append_locked_held [OF held, of env c d]
    by (cases "ae_fault env = NoFault") fastforce+
qed

inductive chain_run :: "chain_host \<Rightarrow> ChainBlock list \<Rightarrow> chain_dir \<Rightarrow> bool" for h where
  start: "chain_run h [] []"
| append: "chain_run h bs dir \<Longrightarrow> is_object d \<Longrightarrow> json_wf d \<Longrightarrow> tmp_ok env \<Longrightarrow>
    append_locked h env c d dir = (r, dir') \<Longrightarrow>
    chain_run h (if is_ok r then bs @ [next_block h (ae_now env) c d bs] else bs) dir'"

lemma chain_run_holds: "chain_run h bs dir \<Longrightarrow> chain_holds h bs dir"
  by (induction rule: chain_run.induct) (use chain_holds_empty chain_holds_append in blast)+

section \<open>The chain directory is a durable log\<close>

definition chain_contents :: "chain_host \<Rightarrow> chain_dir \<Rightarrow> ChainBlock list" where
  "chain_contents h dir = (case readAndValidateChainBlocks h dir of Inl _ \<Rightarrow> [] | Inr bs \<Rightarrow> bs)"

definition chain_healthy :: "chain_host \<Rightarrow> chain_dir \<Rightarrow> bool" where
  "chain_healthy h dir \<longleftrightarrow> (\<exists>bs. chain_holds h bs dir)"

definition add_block :: "chain_host \<Rightarrow> append_env \<Rightarrow> ChainBlock \<Rightarrow> chain_dir \<Rightarrow> chain_dir option" where
  "add_block h env b dir =
     (if tmp_ok env \<and> ae_fault env = NoFault \<and> block_wf b \<and> may_follow h (chain_contents h dir) b
      then Some (snd (write_block env b dir)) else None)"

interpretation chain_log: durable_log "add_block h env" "chain_contents h" "chain_healthy h" for h env
proof
  fix dir b dir'
  assume healthy: "chain_healthy h dir" and step: "add_block h env b dir = Some dir'"
  then obtain bs where held: "chain_holds h bs dir" by (auto simp: chain_healthy_def)
  then have bs: "chain_contents h dir = bs" by (simp add: chain_contents_def chain_holds_read)
  from step have ok: "block_wf b" "may_follow h bs b" "tmp_ok env" "ae_fault env = NoFault"
    and dir': "dir' = snd (write_block env b dir)"
    by (auto simp: add_block_def bs split: if_splits)
  from chain_holds_write(1) [OF held ok] dir' have "chain_holds h (bs @ [b]) dir'" by auto
  then show "chain_contents h dir' = chain_contents h dir @ [b]" and "chain_healthy h dir'"
    by (auto simp: chain_contents_def chain_holds_read bs chain_healthy_def)
       (simp add: bs [unfolded chain_contents_def])
qed

section \<open>Canonical text\<close>

lemma map_of_js_sort:
  "distinct (map fst kvs) \<Longrightarrow> map_of (js_sort cmp kvs) = map_of kvs"
  by (subst map_of_inject_set) (simp_all, metis mset_eq_imp_distinct_iff mset_js_sort mset_map)

lemma distinct_fst_js_sort: "distinct (map fst (js_sort cmp kvs)) = distinct (map fst kvs)"
  by (metis mset_eq_imp_distinct_iff mset_js_sort mset_map)

lemma map_of_map_snd: "map_of (map (\<lambda>(k, v). (k, f v)) kvs) k = map_option f (map_of kvs k)"
  by (induction kvs) auto

lemma fst_map_snd: "map fst (map (\<lambda>(k, v). (k, f v)) kvs) = map fst kvs"
  by (induction kvs) auto

lemma json_wf_sortValue: "json_wf v \<Longrightarrow> json_wf (sortValue lc v)"
proof (induction lc v rule: sortValue.induct)
  case (1 lc vs)
  then show ?case by (auto simp: list_all_iff)
next
  case (2 lc kvs)
  then show ?case
    by (auto simp: list_all_iff fst_map_snd distinct_fst_js_sort simp del: map_map)
qed simp_all

definition content :: "chain_host \<Rightarrow> ChainBlock \<Rightarrow> int \<times> string \<times> string \<times> json \<times> string" where
  "content h b = (cb_index b, cb_timestamp b, cb_chain b, sortValue (ch_locale h) (cb_data b), cb_prev_hash b)"

definition canonical :: "chain_host \<Rightarrow> ChainBlock \<Rightarrow> string" where
  "canonical h b = stableStringify (ch_locale h) (JObj (hashed_fields b))"

lemma distinct_hashed_fields: "distinct (map fst (hashed_fields b))"
  by (simp add: hashed_fields_def)

lemma canonical_inj:
  assumes "block_wf a" and "block_wf b" and "canonical h a = canonical h b"
  shows "content h a = content h b"
proof -
  let ?s = "\<lambda>x. sortValue (ch_locale h) (JObj (hashed_fields x))"
  have wf: "json_wf (?s x)" if "block_wf x" for x
    using that by (intro json_wf_sortValue) (simp add: block_wf_def hashed_fields_def)
  have "?s a = ?s b"
    by (rule stringify_inj [OF wf [OF assms(1)] wf [OF assms(2)]])
       (use assms(3) in \<open>simp add: canonical_def stableStringify_def\<close>)
  then have "jfield (?s a) k = jfield (?s b) k" for k by simp
  then have eq: "map_option (sortValue (ch_locale h)) (map_of (hashed_fields a) k) =
      map_option (sortValue (ch_locale h)) (map_of (hashed_fields b) k)" for k
    by (simp add: map_of_map_snd map_of_js_sort distinct_hashed_fields)
  show ?thesis
    using eq [of "''index''"] eq [of "''timestamp''"] eq [of "''chain''"] eq [of "''data''"] eq [of "''prev_hash''"]
    by (simp add: hashed_fields_def content_def)
qed

lemma hashBlock_canonical: "hashBlock h b = ch_sha256 h (canonical h b)"
  by (simp add: hashBlock_def canonical_def)

lemma same_head_same_content:
  assumes no_collision: "\<forall>b \<in> set xs. \<forall>c \<in> set ys.
      ch_sha256 h (canonical h b) = ch_sha256 h (canonical h c) \<longrightarrow> canonical h b = canonical h c"
    and "valid_chain h xs" and "valid_chain h ys" and "xs \<noteq> []" and "ys \<noteq> []"
    and "\<forall>b \<in> set xs \<union> set ys. block_wf b \<and> cb_hash b = hashBlock h b"
    and "cb_hash (last xs) = cb_hash (last ys)"
  shows "map (content h) xs = map (content h) ys"
  using assms
proof (induction xs arbitrary: ys rule: rev_induct)
  case Nil
  then show ?case by simp
next
  case (snoc x xs)
  from \<open>ys \<noteq> []\<close> obtain zs y where ys: "ys = zs @ [y]" by (cases ys rule: rev_cases) auto
  have "ch_sha256 h (canonical h x) = ch_sha256 h (canonical h y)"
    using snoc.prems(6,7) by (simp add: ys hashBlock_canonical)
  then have same: "content h x = content h y"
    using snoc.prems(1,6) by (intro canonical_inj) (simp_all add: ys)
  have x: "valid_chain h xs" "may_follow h xs x" and y: "valid_chain h zs" "may_follow h zs y"
    using snoc.prems(2,3) by (simp_all add: ys valid_chain_snoc)
  then have len: "length xs = length zs" using same by (simp add: may_follow_def content_def)
  have "map (content h) xs = map (content h) zs"
  proof (cases "xs = []")
    case True
    with len show ?thesis by simp
  next
    case False
    with len have "zs \<noteq> []" by auto
    moreover have "cb_hash (last xs) = cb_hash (last zs)"
      using x(2) y(2) False \<open>zs \<noteq> []\<close> same by (simp add: may_follow_def content_def)
    ultimately show ?thesis using snoc.IH [OF _ x(1) y(1) False] snoc.prems(1,6) by (simp add: ys)
  qed
  with same show ?case by (simp add: ys)
qed

lemma valid_chain_replace:
  assumes "valid_chain h (xs @ b # ys)" and "may_follow h xs b'" and "cb_hash b' = cb_hash b"
  shows "valid_chain h (xs @ b' # ys)"
  using assms(1)
proof (induction ys rule: rev_induct)
  case Nil
  then show ?case using assms(2) by (simp add: valid_chain_snoc)
next
  case (snoc c ys)
  have "valid_chain h (xs @ b # ys)" "may_follow h (xs @ b # ys) c"
    using snoc.prems valid_chain_snoc [of h "xs @ b # ys" c] by simp_all
  moreover from this have "may_follow h (xs @ b' # ys) c"
    using assms(3) by (cases ys rule: rev_cases) (simp_all add: may_follow_def)
  ultimately show ?case using snoc.IH valid_chain_snoc [of h "xs @ b' # ys" c] by simp
qed

text \<open>The block whose data is the hashed form of \<open>b\<close>: its legacy hash is the hash of \<open>b\<close>.\<close>

definition forged :: "chain_host \<Rightarrow> string \<Rightarrow> string \<Rightarrow> ChainBlock \<Rightarrow> ChainBlock" where
  "forged h timestamp chain b =
     b\<lparr>cb_timestamp := timestamp, cb_chain := chain,
       cb_data := sortValue (ch_locale h) (JObj (hashed_fields b))\<rparr>"

lemma legacy_forged: "legacyHash h (forged h ts c b) = hashBlock h b"
  by (simp add: legacyHash_def forged_def hashBlock_def stableStringify_def)

lemma may_follow_forged:
  assumes "may_follow h xs b" and "cb_hash b = hashBlock h b"
  shows "may_follow h xs (forged h ts c b)"
proof -
  have "hash_ok h (forged h ts c b)"
    using assms(2) legacy_forged [of h ts c b] by (simp add: hash_ok_def forged_def)
  with assms(1) show ?thesis
    by (auto simp: may_follow_def forged_def simp del: sortValue.simps split: if_splits)
qed

lemma block_wf_forged:
  assumes "block_wf b"
  shows "block_wf (forged h ts c b)"
proof -
  have "json_wf (JObj (hashed_fields b))" using assms by (simp add: block_wf_def hashed_fields_def)
  then have "json_wf (cb_data (forged h ts c b))"
    by (simp add: forged_def json_wf_sortValue del: sortValue.simps)
  then show ?thesis by (simp add: block_wf_def forged_def)
qed

lemma stored_replace:
  assumes "stored (xs @ b # ys) dir"
  shows "stored (xs @ b' # ys)
    (AList.update (block_file (int (length xs) + 1)) (JSON_stringify2 (block_json b')) dir)"
  unfolding stored_def
proof (intro conjI ballI impI allI)
  show "wf_map (AList.update (block_file (int (length xs) + 1)) (JSON_stringify2 (block_json b')) dir)"
    using assms by (simp add: stored_def)
next
  fix name
  assume name: "name \<in> set (keys (AList.update (block_file (int (length xs) + 1)) (JSON_stringify2 (block_json b')) dir))"
    and json: "ends_with name ''.json''"
  show "\<exists>i < length (xs @ b' # ys). name = block_file (int i + 1)"
  proof (cases "name \<in> set (keys dir)")
    case True
    with assms json show ?thesis by (auto simp: stored_def)
  next
    case False
    with name have "name = block_file (int (length xs) + 1)" by (auto simp: keys_update split: if_splits)
    then show ?thesis by (intro exI [of _ "length xs"]) simp
  qed
next
  fix i assume i: "i < length (xs @ b' # ys)"
  have "block_file (int i + 1) = block_file (int (length xs) + 1) \<longleftrightarrow> i = length xs"
    using block_file_inj [of "int i + 1" "int (length xs) + 1"] by auto
  moreover have "(xs @ b' # ys) ! i = (if i = length xs then b' else (xs @ b # ys) ! i)"
    by (auto simp: nth_append nth_Cons split: nat.splits)
  ultimately show "map_of (AList.update (block_file (int (length xs) + 1)) (JSON_stringify2 (block_json b')) dir)
      (block_file (int i + 1)) = Some (JSON_stringify2 (block_json ((xs @ b' # ys) ! i)))"
    using assms i by (simp add: map_of_update stored_def)
qed

section \<open>A chain used by the examples\<close>

definition demo_chain_host :: chain_host where
  "demo_chain_host = \<lparr>ch_sha256 = id, ch_locale = (\<lambda>a b. 0), ch_parse_error = id\<rparr>"

definition demo_append_env :: append_env where
  "demo_append_env = \<lparr>ae_now = ''t'', ae_tmp = ''7-1'', ae_lock_free = (\<lambda>n. n = 3), ae_fault = NoFault\<rparr>"

definition demo_data :: json where
  "demo_data = JObj [(''note'', JStr ''hi'')]"

definition demo_block :: ChainBlock where
  "demo_block = next_block demo_chain_host ''t'' ''c'' demo_data []"

definition demo_chain_dir :: chain_dir where
  "demo_chain_dir = snd (append_locked demo_chain_host demo_append_env ''c'' demo_data [])"

lemma demo_env_ok: "tmp_ok demo_append_env" "is_object demo_data" "json_wf demo_data"
  by (simp_all add: tmp_ok_def demo_append_env_def is_digit_def code_def demo_data_def)

lemma demo_chain_run: "chain_run demo_chain_host [demo_block] demo_chain_dir"
proof -
  obtain r dir' where run: "append_locked demo_chain_host demo_append_env ''c'' demo_data [] = (r, dir')"
    by force
  have "is_ok r"
    using chain_holds_append [OF chain_holds_empty demo_env_ok(2,3,1) run] by (simp add: demo_append_env_def)
  with chain_run.append [OF chain_run.start demo_env_ok(2,3,1) run] run show ?thesis
    by (simp add: demo_block_def demo_chain_dir_def demo_append_env_def)
qed

lemma demo_block_ok: "valid_chain demo_chain_host [demo_block]" "block_wf demo_block"
  "cb_hash demo_block = hashBlock demo_chain_host demo_block"
  using chain_run_holds [OF demo_chain_run] next_block_fields(6)
  by (auto simp: chain_holds_def demo_block_def)

section \<open>Properties\<close>

text \<open>
  C6: a directory that was built by any sequence of appends, some of which failed while the temporary file
  was written or renamed, reads back as exactly the blocks of the successful appends: their indices count
  from 1, each carries the hash of the one before, and a further append succeeds unless its write fails.
\<close>

theorem chain_reads_back_every_append:
  assumes "chain_run h bs dir"
  shows "readAndValidateChainBlocks h dir = Inr bs \<and> valid_chain h bs \<and>
    (\<forall>env c d. is_object d \<and> json_wf d \<and> tmp_ok env \<longrightarrow>
       (is_ok (fst (append_locked h env c d dir)) \<longleftrightarrow> ae_fault env = NoFault) \<and>
       readAndValidateChainBlocks h (snd (append_locked h env c d dir)) =
         Inr (if ae_fault env = NoFault then bs @ [next_block h (ae_now env) c d bs] else bs))"
proof -
  have held: "chain_holds h bs dir" by (rule chain_run_holds [OF assms])
  show ?thesis
  proof (intro conjI allI impI)
    show "readAndValidateChainBlocks h dir = Inr bs" by (rule chain_holds_read [OF held])
    show "valid_chain h bs" using held by (simp add: chain_holds_def)
  next
    fix env c d assume "is_object d \<and> json_wf d \<and> tmp_ok env"
    then have ok: "is_object d" "json_wf d" "tmp_ok env" by blast+
    let ?r = "append_locked h env c d dir"
    note app = chain_holds_append [OF held ok, of c "fst ?r" "snd ?r", OF prod.collapse [symmetric]]
    then show "is_ok (fst ?r) \<longleftrightarrow> ae_fault env = NoFault" by blast
    with app show "readAndValidateChainBlocks h (snd ?r) =
        Inr (if ae_fault env = NoFault then bs @ [next_block h (ae_now env) c d bs] else bs)"
      using chain_holds_read by presburger
  qed
qed

lemma chain_reads_back_every_append_witness:
  "readAndValidateChainBlocks demo_chain_host
     (snd (append_locked demo_chain_host demo_append_env ''c'' demo_data demo_chain_dir)) =
   Inr [demo_block, next_block demo_chain_host ''t'' ''c'' demo_data [demo_block]]"
proof -
  have now: "ae_now demo_append_env = ''t''" and ok: "ae_fault demo_append_env = NoFault"
    by (simp_all add: demo_append_env_def)
  have "is_object demo_data \<and> json_wf demo_data \<and> tmp_ok demo_append_env" using demo_env_ok by blast
  from chain_reads_back_every_append [OF demo_chain_run, THEN conjunct2, THEN conjunct2, rule_format, OF this,
      THEN conjunct2, of "''c''"]
  show ?thesis unfolding now ok by simp
qed

text \<open>
  C18: two accepted chains with the same head hash, all of whose blocks carry the full block hash, have the
  same blocks (up to the order of keys inside the data), or a block of the one and a block of the other are
  hashed from two different texts with the same SHA-256: who rewrites the history under a trusted head
  leaves the collision in the two chains.
\<close>

theorem chain_head_commits_to_history:
  assumes "valid_chain h xs" and "valid_chain h ys" and "xs \<noteq> []" and "ys \<noteq> []"
    and "\<forall>b \<in> set xs \<union> set ys. block_wf b \<and> cb_hash b = hashBlock h b"
    and "cb_hash (last xs) = cb_hash (last ys)"
  shows "map (content h) xs = map (content h) ys \<or>
    (\<exists>b \<in> set xs. \<exists>c \<in> set ys. canonical h b \<noteq> canonical h c \<and>
       ch_sha256 h (canonical h b) = ch_sha256 h (canonical h c))"
  using same_head_same_content [OF _ assms] by blast

text \<open>With a digest that gives every text the same value two different chains share their head.\<close>

definition broken_chain_host :: chain_host where
  "broken_chain_host = demo_chain_host\<lparr>ch_sha256 := \<lambda>_. ''same''\<rparr>"

definition broken_block :: "string \<Rightarrow> ChainBlock" where
  "broken_block s = next_block broken_chain_host ''t'' ''c'' (JObj [(''note'', JStr s)]) []"

lemma broken_block_ok: "valid_chain broken_chain_host [broken_block s]" "block_wf (broken_block s)"
  "cb_hash (broken_block s) = hashBlock broken_chain_host (broken_block s)"
  using valid_chain_snoc [of broken_chain_host "[]" "broken_block s"]
    may_follow_next_block [of broken_chain_host "[]" "''t''" "''c''" "JObj [(''note'', JStr s)]"]
  by (simp_all add: broken_block_def valid_chain_def next_block_fields block_wf_next)

lemma broken_block_hash: "cb_hash (broken_block s) = ''same''"
  by (simp add: broken_block_ok(3) hashBlock_def broken_chain_host_def)

lemma chain_head_commits_to_history_witness:
  "canonical broken_chain_host (broken_block ''old'') \<noteq> canonical broken_chain_host (broken_block ''new'')"
proof -
  have "map (content broken_chain_host) [broken_block ''old''] = map (content broken_chain_host) [broken_block ''new''] \<or>
    (\<exists>b \<in> set [broken_block ''old'']. \<exists>c \<in> set [broken_block ''new''].
       canonical broken_chain_host b \<noteq> canonical broken_chain_host c \<and>
       ch_sha256 broken_chain_host (canonical broken_chain_host b) = ch_sha256 broken_chain_host (canonical broken_chain_host c))"
    by (rule chain_head_commits_to_history) (auto simp: broken_block_ok(1,2) broken_block_hash simp flip: broken_block_ok(3))
  moreover have "content broken_chain_host (broken_block ''old'') \<noteq> content broken_chain_host (broken_block ''new'')"
    by (simp add: content_def broken_block_def next_block_def)
  ultimately show ?thesis by simp
qed

text \<open>
  The legacy hash breaks that commitment. In a stored chain every fully hashed block can be replaced,
  in its file alone, by a block with another timestamp, another chain name and other data, and the reader
  still accepts the whole chain, every other block and the head hash unchanged.
\<close>

theorem legacy_hash_admits_forgery:
  assumes "chain_holds h (xs @ b # ys) dir" and "cb_hash b = hashBlock h b"
  shows "readAndValidateChainBlocks h
      (AList.update (block_file (int (length xs) + 1)) (JSON_stringify2 (block_json (forged h ts c b))) dir) =
    Inr (xs @ forged h ts c b # ys) \<and> cb_hash (forged h ts c b) = cb_hash b"
proof -
  have val: "valid_chain h (xs @ b # ys)" and wf: "\<forall>x \<in> set (xs @ b # ys). block_wf x"
    and st: "stored (xs @ b # ys) dir" using assms(1) by (auto simp: chain_holds_def)
  have "may_follow h xs b"
    using valid_chain_prefix [of h "xs @ [b]" ys] val by (simp add: valid_chain_snoc)
  then have "valid_chain h (xs @ forged h ts c b # ys)"
    using may_follow_forged [OF _ assms(2)] by (intro valid_chain_replace [OF val]) (simp_all add: forged_def)
  moreover have "\<forall>x \<in> set (xs @ forged h ts c b # ys). block_wf x" using wf block_wf_forged by auto
  ultimately show ?thesis
    using read_stored [OF stored_replace [OF st]] by (simp add: forged_def)
qed

lemma legacy_hash_admits_forgery_witness:
  "readAndValidateChainBlocks demo_chain_host
     (AList.update (block_file 1) (JSON_stringify2 (block_json (forged demo_chain_host ''later'' ''other'' demo_block)))
        demo_chain_dir) = Inr [forged demo_chain_host ''later'' ''other'' demo_block]"
  using legacy_hash_admits_forgery [of demo_chain_host "[]" demo_block "[]" demo_chain_dir "''later''" "''other''"]
    chain_run_holds [OF demo_chain_run] demo_block_ok(3) by simp

text \<open>
  An accepted chain name consists of at most 64 letters, digits, dashes and underscores once trimmed
  and its directory is the base directory or below it; whether that directory is a symbolic link makes no
  difference to the answer.
\<close>

theorem chain_dir_name_safe:
  assumes "resolveChainDir ph name = Inr target"
  shows "SAFE_CHAIN_NAME (trim name) \<and> target = ph_resolve ph (ph_base ph) (trim name) \<and>
    (target = ph_base ph \<or> starts_with target (ph_base ph @ ph_sep ph)) \<and>
    resolveChainDir (ph\<lparr>ph_symlink := \<lambda>_. Some True\<rparr>) name = Inr target"
  using assms by (auto simp: resolveChainDir_def Let_def split: if_splits option.splits)

definition demo_paths :: path_host where
  "demo_paths = \<lparr>ph_base = ''/m'', ph_resolve = (\<lambda>b n. b @ ''/'' @ n), ph_sep = ''/'', ph_symlink = (\<lambda>_. None)\<rparr>"

lemma demo_resolve: "resolveChainDir demo_paths ''ab'' = Inr ''/m/ab''"
  by (simp add: resolveChainDir_def demo_paths_def trim_def trim_left_def is_space_def code_def starts_with_def
      SAFE_CHAIN_NAME_def safe_char_def is_alnum_def is_lower_def is_upper_def is_digit_def Let_def)

lemma chain_dir_name_safe_witness:
  "resolveChainDir (demo_paths\<lparr>ph_symlink := \<lambda>_. Some True\<rparr>) ''ab'' = Inr ''/m/ab''"
  using chain_dir_name_safe [OF demo_resolve] by blast

section \<open>The lock and the integrity check\<close>

lemma lock_attempts_busy:
  "\<forall>i < n. \<not> free (k + i) \<Longrightarrow>
     lock_attempts free k n d fn s = (Inl (''chain append lock timeout for '' @ d), s)"
  by (induction n arbitrary: k) (auto, metis Suc_less_eq add_Suc_right add_Suc)

lemma lock_attempts_free:
  "free (k + i) \<Longrightarrow> i < n \<Longrightarrow> \<forall>j < i. \<not> free (k + j) \<Longrightarrow> lock_attempts free k n d fn s = fn s"
proof (induction n arbitrary: k i)
  case (Suc n)
  show ?case
  proof (cases i)
    case 0
    with Suc.prems show ?thesis by simp
  next
    case (Suc i')
    then have "\<not> free k" using Suc.prems(3) by (metis add_0_right zero_less_Suc)
    have later: "\<forall>j < i'. \<not> free (Suc k + j)"
      using Suc.prems(3) Suc by (metis Suc_less_eq add_Suc_shift)
    note \<open>\<not> free k\<close>
    moreover have "lock_attempts free (Suc k) n d fn s = fn s"
      using Suc.prems(1,2) Suc later by (intro Suc.IH [of "Suc k" i']) simp_all
    ultimately show ?thesis by simp
  qed
qed simp

text \<open>
  An append runs its critical section exactly when one of the 200 attempts to create the lock file
  succeeds; otherwise, for instance behind the lock file of a crashed process, it fails with the timeout
  error and the directory stays as it is.
\<close>

theorem append_lock_decides:
  "if \<exists>i < 200. free i then withAppendLock free d fn s = fn s
   else withAppendLock free d fn s = (Inl (''chain append lock timeout for '' @ d), s)"
proof (cases "\<exists>i < 200. free i")
  case True
  define i where "i = (LEAST i. free i)"
  obtain j where j: "j < 200" "free j" using True by blast
  then have "free i" and "i < 200" and "\<forall>k < i. \<not> free k"
    unfolding i_def using LeastI [of free j] Least_le [of free j] not_less_Least by fastforce+
  then have "withAppendLock free d fn s = fn s"
    using lock_attempts_free [of free 0 i 200] by (simp add: withAppendLock_def APPEND_LOCK_MAX_ATTEMPTS_def)
  with True show ?thesis by simp
next
  case False
  then have "\<forall>i < 200. \<not> free (0 + i)" by simp
  from lock_attempts_busy [OF this, of d fn s] False show ?thesis
    unfolding withAppendLock_def APPEND_LOCK_MAX_ATTEMPTS_def by (simp only: if_False)
qed

lemma append_lock_decides_witness:
  "withAppendLock (\<lambda>n. n = 3) ''d'' (\<lambda>s. (Inr s, Suc s)) 4 = (Inr 4, Suc 4)"
  using append_lock_decides [of "\<lambda>n. n = 3" "''d''" "\<lambda>s. (Inr s, Suc s)" 4] by auto

lemma check_chains_Inr:
  "check_chains h ph fs n m names = Inr (n', m') \<Longrightarrow>
     n' = n + length names \<and>
     (\<exists>chains. length chains = length names \<and> m' = m + sum_list (map length chains) \<and>
        list_all2 (\<lambda>name bs. \<exists>target dir. resolveChainDir ph name = Inr target \<and> fs target = Some dir \<and>
           readAndValidateChainBlocks h dir = Inr bs) names chains)"
proof (induction names arbitrary: n m)
  case Nil
  then show ?case by simp
next
  case (Cons name names)
  then obtain target dir bs where here: "resolveChainDir ph name = Inr target" "fs target = Some dir"
    "readAndValidateChainBlocks h dir = Inr bs"
    and rest: "check_chains h ph fs (n + 1) (m + length bs) names = Inr (n', m')"
    by (auto simp: rbind_Inr_iff split: option.splits)
  from Cons.IH [OF rest] obtain chains where "n' = n + 1 + length names" "length chains = length names"
    "m' = m + length bs + sum_list (map length chains)"
    "list_all2 (\<lambda>name bs. \<exists>target dir. resolveChainDir ph name = Inr target \<and> fs target = Some dir \<and>
           readAndValidateChainBlocks h dir = Inr bs) names chains" by auto
  with here show ?case by (intro conjI exI [of _ "bs # chains"]) auto
qed

lemma readAndValidate_valid: "readAndValidateChainBlocks h dir = Inr bs \<Longrightarrow> valid_chain h bs"
  unfolding readAndValidateChainBlocks_def Let_def
  by (auto simp: rbind_Inr_iff validate_blocks_iff split: if_splits)

text \<open>
  When the integrity check reports success, every selected chain has a safe name, its directory exists
  and holds a linked chain of correctly hashed blocks, and the two counters are the number of chains and
  the number of their blocks.
\<close>

theorem integrity_check_sound:
  assumes "verifyChainIntegrity h ph listed fs chainName = Inr r"
    and "names = (case chainName of Some c \<Rightarrow> if c \<noteq> '''' then [c] else filter SAFE_CHAIN_NAME listed
                  | None \<Rightarrow> filter SAFE_CHAIN_NAME listed)"
  shows "\<exists>chains. list_all2 (\<lambda>name bs. \<exists>target dir. resolveChainDir ph name = Inr target \<and>
      SAFE_CHAIN_NAME (trim name) \<and> fs target = Some dir \<and>
      readAndValidateChainBlocks h dir = Inr bs \<and> valid_chain h bs) names chains \<and>
    in_chainsChecked r = length names \<and> in_blockCount r = sum_list (map length chains)"
proof -
  obtain n m where run: "check_chains h ph fs 0 0 names = Inr (n, m)" and r: "in_chainsChecked r = n" "in_blockCount r = m"
    using assms by (auto simp: verifyChainIntegrity_def Let_def rbind_Inr_iff)
  have safe: "SAFE_CHAIN_NAME (trim name)" if "resolveChainDir ph name = Inr target" for name target
    using that by (auto simp: resolveChainDir_def Let_def split: if_splits)
  from check_chains_Inr [OF run] obtain chains where "n = length names" "m = sum_list (map length chains)"
    "list_all2 (\<lambda>name bs. \<exists>target dir. resolveChainDir ph name = Inr target \<and> fs target = Some dir \<and>
           readAndValidateChainBlocks h dir = Inr bs) names chains" by auto
  moreover have "list_all2 (\<lambda>name bs. \<exists>target dir. resolveChainDir ph name = Inr target \<and>
      SAFE_CHAIN_NAME (trim name) \<and> fs target = Some dir \<and>
      readAndValidateChainBlocks h dir = Inr bs \<and> valid_chain h bs) names chains"
    by (rule list_all2_mono [OF calculation(3)]) (use readAndValidate_valid safe in blast)
  ultimately show ?thesis using r by blast
qed

lemma integrity_check_sound_witness:
  "\<exists>chains. in_blockCount (\<lparr>in_ok = True, in_chainsChecked = 1, in_blockCount = 1, in_chain = Some ''ab''\<rparr>) =
     sum_list (map length (chains :: ChainBlock list list))"
proof -
  have "readAndValidateChainBlocks demo_chain_host demo_chain_dir = Inr [demo_block]"
    using chain_run_holds [OF demo_chain_run] by (rule chain_holds_read)
  then have "verifyChainIntegrity demo_chain_host demo_paths [] [''/m/ab'' \<mapsto> demo_chain_dir] (Some ''ab'') =
      Inr \<lparr>in_ok = True, in_chainsChecked = 1, in_blockCount = 1, in_chain = Some ''ab''\<rparr>"
    by (simp add: verifyChainIntegrity_def demo_resolve)
  from integrity_check_sound [OF this refl] show ?thesis by blast
qed

end
