(* ===== verification/Gateway.thy ===== *)
theory Gateway
  imports Errors JsonRoundtrip
begin

text \<open>
  The HTTP gateway (\<open>gateway/server.ts\<close>), the policy for the commands it runs
  (\<open>gateway/exec-policy.ts\<close>) and the rate limiter (\<open>infra/http/rate-limit.ts\<close>).

  The environment is a function from variable names; the handlers that only collect data of other
  components are the argument \<open>other\<close>, the command runner of \<open>agent/system.ts\<close> the argument \<open>runner\<close>.
\<close>

section \<open>Commands that may run\<close>

record CommandRule =
  cr_allowedArgs :: "(string \<Rightarrow> bool) list"
  cr_maxArgLength :: nat

text \<open>
  A name is looked up in an object literal: one that every object inherits gives a value without the members of a rule,
  here \<^const>\<open>None\<close>.
\<close>

record GatewayExecPolicy =
  gp_restrictedMode :: bool
  gp_allowlist :: "(string, CommandRule option) jsmap"
  gp_blockedTokens :: "string list"

definition metachar :: "char \<Rightarrow> bool" where
  "metachar c \<longleftrightarrow>
     c \<in> set '';&|`$(){}[]!#~<>'' \<or> code c = 92 \<or> code c = 39 \<or> code c < 32 \<or> code c = 127"

definition SHELL_METACHAR_RE :: "string \<Rightarrow> bool" where
  "SHELL_METACHAR_RE s \<longleftrightarrow> (\<exists>c \<in> set s. metachar c)"

text \<open>\<open>/^[...]+$/\<close> and \<open>/^prefix[...]+$/\<close>\<close>

definition only :: "string \<Rightarrow> string \<Rightarrow> bool" where
  "only extra s \<longleftrightarrow> s \<noteq> [] \<and> list_all (\<lambda>c. is_alnum c \<or> c \<in> set extra) s"

definition after :: "char \<Rightarrow> (string \<Rightarrow> bool) \<Rightarrow> string \<Rightarrow> bool" where
  "after c p s \<longleftrightarrow> s \<noteq> [] \<and> hd s = c \<and> p (tl s)"

definition DEFAULT_COMMAND_RULES :: "(string \<times> CommandRule) list" where
  "DEFAULT_COMMAND_RULES =
     [(''echo'', \<lparr>cr_allowedArgs = [only '' _.,:=@/-''], cr_maxArgLength = 200\<rparr>),
      (''pwd'', \<lparr>cr_allowedArgs = [], cr_maxArgLength = 0\<rparr>),
      (''ls'', \<lparr>cr_allowedArgs = [after CHR ''-'' (\<lambda>t. t \<noteq> [] \<and> list_all (\<lambda>c. c \<in> set ''lah1Rt'') t),
                                 only ''_./@~ -''], cr_maxArgLength = 200\<rparr>),
      (''whoami'', \<lparr>cr_allowedArgs = [], cr_maxArgLength = 0\<rparr>),
      (''date'', \<lparr>cr_allowedArgs = [after CHR ''+'' (only ''%: ._-'')], cr_maxArgLength = 50\<rparr>),
      (''uptime'', \<lparr>cr_allowedArgs = [], cr_maxArgLength = 0\<rparr>)]"

definition splitCsv :: "string option \<Rightarrow> string list \<Rightarrow> string list" where
  "splitCsv v fallback =
     (case v of
        None \<Rightarrow> fallback
      | Some s \<Rightarrow> if s = '''' then fallback else filter (\<lambda>p. p \<noteq> '''') (map trim (split_on CHR '','' s)))"

definition toBool :: "string option \<Rightarrow> bool \<Rightarrow> bool" where
  "toBool v fallback = (case v of None \<Rightarrow> fallback | Some s \<Rightarrow> to_lower s = ''true'')"

definition inherited_names :: "string list" where
  "inherited_names =
     [''constructor'', ''toString'', ''toLocaleString'', ''valueOf'', ''hasOwnProperty'', ''isPrototypeOf'', ''propertyIsEnumerable'',
      ''__proto__'', ''__defineGetter__'', ''__defineSetter__'', ''__lookupGetter__'', ''__lookupSetter__'']"

definition command_rule :: "string \<Rightarrow> CommandRule option" where
  "command_rule name =
     (case map_of DEFAULT_COMMAND_RULES name of
        Some rule \<Rightarrow> Some rule
      | None \<Rightarrow> if name \<in> set inherited_names then None else Some \<lparr>cr_allowedArgs = [], cr_maxArgLength = 0\<rparr>)"

definition loadGatewayExecPolicy :: "(string \<Rightarrow> string option) \<Rightarrow> (thrown, GatewayExecPolicy) result" where
  "loadGatewayExecPolicy env =
     (let restrictedMode = toBool (env ''GATEWAY_EXEC_RESTRICTED_MODE'') True;
          names = splitCsv (env ''GATEWAY_EXEC_ALLOWLIST'') (map fst DEFAULT_COMMAND_RULES);
          allowlist = fold (\<lambda>name. AList.update name (command_rule name)) names [];
          blockedTokens = splitCsv (env ''GATEWAY_EXEC_BLOCKED_TOKENS'') []
      in if restrictedMode \<and> length allowlist = 0 then
           Inl (App \<lparr>err_code = VALIDATION_ERROR,
             err_message = ''GATEWAY_EXEC_ALLOWLIST cannot be empty when restricted mode is enabled'',
             err_status = 500, err_details = None, err_suggestion = None\<rparr>)
         else Inr \<lparr>gp_restrictedMode = restrictedMode, gp_allowlist = allowlist, gp_blockedTokens = blockedTokens\<rparr>)"

definition refuse :: "string \<Rightarrow> nat \<Rightarrow> thrown" where
  "refuse msg status =
     App \<lparr>err_code = VALIDATION_ERROR, err_message = msg, err_status = status, err_details = None,
       err_suggestion = None\<rparr>"

definition baseName :: "string \<Rightarrow> string" where
  "baseName rawBase = (if CHR ''/'' \<in> set rawBase then last (split_on CHR ''/'' rawBase) else rawBase)"

definition parseCommand :: "string \<Rightarrow> (thrown, string \<times> string list) result" where
  "parseCommand command =
     (let trimmed = trim command
      in if SHELL_METACHAR_RE trimmed then Inl (refuse ''command contains blocked shell metacharacter'' 403)
         else (case words trimmed of
            [] \<Rightarrow> Inl (refuse ''command required'' 400)
          | rawBase # args \<Rightarrow> Inr (baseName rawBase, args)))"

definition checkArgs :: "string \<Rightarrow> CommandRule \<Rightarrow> string list \<Rightarrow> (thrown, unit) result" where
  "checkArgs base rule args =
     (case filter (\<lambda>arg. \<not> (\<exists>p \<in> set (cr_allowedArgs rule). p arg)) args of
        [] \<Rightarrow> Inr ()
      | arg # _ \<Rightarrow> Inl (refuse (''argument '' @ quote @ arg @ quote @ '' not allowed for command '' @ quote @ base @ quote) 403))"

definition enforceGatewayExecPolicy :: "string \<Rightarrow> GatewayExecPolicy \<Rightarrow> (thrown, unit) result" where
  "enforceGatewayExecPolicy command policy =
     (let trimmed = trim command
      in if trimmed = '''' then Inl (refuse ''command required'' 400)
         else if \<not> gp_restrictedMode policy then
           (if SHELL_METACHAR_RE trimmed then Inl (refuse ''command contains blocked shell metacharacter'' 403)
            else Inr ())
         else rbind (parseCommand trimmed)
           (\<lambda>(base, args).
             case map_of (gp_allowlist policy) base of
               None \<Rightarrow> Inl (refuse (''command not in gateway allowlist: '' @ base) 403)
             | Some None \<Rightarrow> Inl (plain_error (''Cannot read properties of undefined (reading '' @ quote @ ''length'' @ quote @ '')''))
             | Some (Some rule) \<Rightarrow>
                 if cr_allowedArgs rule = [] \<and> args \<noteq> [] then
                   Inl (refuse (''command '' @ quote @ base @ quote @ '' does not accept arguments'') 403)
                 else if utf16_length (join '' '' args) > cr_maxArgLength rule then
                   Inl (refuse (''arguments too long for '' @ quote @ base @ quote @ '' (max '' @
                     show_nat (cr_maxArgLength rule) @ '')'') 403)
                 else checkArgs base rule args))"

section \<open>Authorisation of the exec route\<close>

definition assertGatewayExecAuthConfigured :: "string option \<Rightarrow> (thrown, unit) result" where
  "assertGatewayExecAuthConfigured authToken =
     (case authToken of
        Some t \<Rightarrow> if length (trim t) > 0 then Inr () else
          Inl (App \<lparr>err_code = CONFIG_ERROR, err_message = ''gateway /exec requires authToken'', err_status = 500,
            err_details = None, err_suggestion = None\<rparr>)
      | None \<Rightarrow> Inl (App \<lparr>err_code = CONFIG_ERROR, err_message = ''gateway /exec requires authToken'', err_status = 500,
            err_details = None, err_suggestion = None\<rparr>))"

definition enforceGatewayExecAuth :: "string option \<Rightarrow> string option \<Rightarrow> (thrown, unit) result" where
  "enforceGatewayExecAuth authHeader authToken =
     rbind (assertGatewayExecAuthConfigured authToken)
       (\<lambda>_. if authHeader = Some (''Bearer '' @ or_else authToken ''undefined'') then Inr ()
            else Inl (refuse ''unauthorized'' 401))"

section \<open>Rate limiter\<close>

record Bucket =
  bk_count :: nat
  bk_resetAt :: int

record RateLimiter =
  rl_buckets :: "(string, Bucket) jsmap"
  rl_maxRequests :: nat
  rl_windowMs :: int

definition newRateLimiter :: "nat \<Rightarrow> int \<Rightarrow> RateLimiter" where
  "newRateLimiter maxRequests windowMs =
     \<lparr>rl_buckets = [], rl_maxRequests = maxRequests, rl_windowMs = windowMs\<rparr>"

definition rate_check :: "string \<Rightarrow> int \<Rightarrow> RateLimiter \<Rightarrow> (thrown, unit) result \<times> RateLimiter" where
  "rate_check key now l =
     (let open_window = (Inr (), l\<lparr>rl_buckets :=
            AList.update key \<lparr>bk_count = 1, bk_resetAt = now + rl_windowMs l\<rparr> (rl_buckets l)\<rparr>)
      in case map_of (rl_buckets l) key of
           None \<Rightarrow> open_window
         | Some bucket \<Rightarrow>
             if now \<ge> bk_resetAt bucket then open_window
             else if bk_count bucket \<ge> rl_maxRequests l then
               (Inl (App (app_error PROVIDER_RATE_LIMIT ''Rate limit exceeded'' 429
                  [(''retryAfterMs'', JNum (bk_resetAt bucket - now))])), l)
             else
               (Inr (), l\<lparr>rl_buckets :=
                  AList.update key (bucket\<lparr>bk_count := bk_count bucket + 1\<rparr>) (rl_buckets l)\<rparr>))"

definition globalLimiter :: RateLimiter where
  "globalLimiter = newRateLimiter 100 60000"

definition sensitiveLimiter :: RateLimiter where
  "sensitiveLimiter = newRateLimiter 10 60000"

definition execLimiter :: RateLimiter where
  "execLimiter = newRateLimiter 10 60000"

section \<open>The gateway\<close>

record GatewayConfig =
  gc_authToken :: "string option"
  gc_dangerouslyAllowExec :: bool

record Route =
  rt_method :: string
  rt_path :: string
  rt_auth :: bool

definition registerRoutes :: "Route list" where
  "registerRoutes =
     [\<lparr>rt_method = ''GET'', rt_path = ''/health'', rt_auth = False\<rparr>,
      \<lparr>rt_method = ''GET'', rt_path = ''/status'', rt_auth = False\<rparr>,
      \<lparr>rt_method = ''POST'', rt_path = ''/exec'', rt_auth = True\<rparr>,
      \<lparr>rt_method = ''GET'', rt_path = ''/metrics'', rt_auth = False\<rparr>,
      \<lparr>rt_method = ''GET'', rt_path = ''/ops/status'', rt_auth = False\<rparr>,
      \<lparr>rt_method = ''GET'', rt_path = ''/providers'', rt_auth = False\<rparr>,
      \<lparr>rt_method = ''POST'', rt_path = ''/provider/chat'', rt_auth = True\<rparr>]"

definition routeKey :: "string \<Rightarrow> string \<Rightarrow> string" where
  "routeKey method path = method @ '':'' @ path"

definition routeMap :: "(string, Route) jsmap" where
  "routeMap = fold (\<lambda>r. AList.update (routeKey (rt_method r) (rt_path r)) r) registerRoutes []"

record Request =
  rq_method :: string
  rq_path :: string
  rq_remote :: "string option"
  rq_authorization :: "string option"
  rq_body :: string
  rq_id :: string

datatype response = NoContent | Reply nat json

record audit =
  au_action :: string
  au_status :: string

record Gateway =
  gw_config :: GatewayConfig
  gw_policy :: GatewayExecPolicy
  gw_global :: RateLimiter
  gw_sensitive :: RateLimiter
  gw_exec :: RateLimiter
  gw_audit :: "audit list"
  gw_ran :: "string list"

definition newGateway :: "(string \<Rightarrow> string option) \<Rightarrow> GatewayConfig \<Rightarrow> (thrown, Gateway) result" where
  "newGateway env config =
     rbind (loadGatewayExecPolicy env)
       (\<lambda>policy.
          rbind (if \<not> gc_dangerouslyAllowExec config then assertGatewayExecAuthConfigured (gc_authToken config)
                 else Inr ())
            (\<lambda>_. Inr \<lparr>gw_config = config, gw_policy = policy, gw_global = globalLimiter,
                      gw_sensitive = sensitiveLimiter, gw_exec = execLimiter, gw_audit = [], gw_ran = []\<rparr>))"

definition isLoopbackIp :: "string option \<Rightarrow> bool" where
  "isLoopbackIp ip =
     (case ip of None \<Rightarrow> False
      | Some a \<Rightarrow> a = ''127.0.0.1'' \<or> a = ''::1'' \<or> a = ''::ffff:127.0.0.1'')"

definition jsonError :: "(string \<Rightarrow> string) \<Rightarrow> thrown \<Rightarrow> string \<Rightarrow> nat \<times> json" where
  "jsonError resolve_path err requestId =
     (let e = toAppError resolve_path err
      in (err_status e,
          JObj [(''error'', JObj ([(''code'', JStr (code_text (err_code e))), (''message'', JStr (err_message e))]
            @ (case err_suggestion e of None \<Rightarrow> [] | Some s \<Rightarrow> [(''suggestion'', JStr s)])
            @ [(''details'', JObj (or_else (err_details e) [])), (''requestId'', JStr requestId)]))]))"

definition error_reply :: "nat \<Rightarrow> string \<Rightarrow> string \<Rightarrow> string \<Rightarrow> response" where
  "error_reply status kind message requestId =
     Reply status (JObj [(''error'', JObj [(''code'', JStr kind), (''message'', JStr message),
       (''requestId'', JStr requestId)])])"

definition audit_entry :: "string \<Rightarrow> string \<Rightarrow> Gateway \<Rightarrow> Gateway" where
  "audit_entry action status g = g\<lparr>gw_audit := gw_audit g @ [\<lparr>au_action = action, au_status = status\<rparr>]\<rparr>"

fun falsy :: "json option \<Rightarrow> bool" where
  "falsy None = True"
| "falsy (Some JNull) = True"
| "falsy (Some (JBool b)) = (\<not> b)"
| "falsy (Some (JNum n)) = (n = 0)"
| "falsy (Some (JStr s)) = (s = '''')"
| "falsy (Some _) = False"

definition safe_mode_error :: thrown where
  "safe_mode_error =
     App \<lparr>err_code = PERMISSION_DENIED, err_message = ''forbidden in safe mode'', err_status = 403,
       err_details = None, err_suggestion = None\<rparr>"

definition in_safe_mode :: "(string \<Rightarrow> string option) \<Rightarrow> bool" where
  "in_safe_mode env \<longleftrightarrow> to_lower (or_else (env ''MEMPHIS_SAFE_MODE'') '''') = ''true''"

definition parseJsonBody :: "string \<Rightarrow> string \<Rightarrow> (thrown, json) result" where
  "parseJsonBody body route =
     (case JSON_parse body of
        None \<Rightarrow> Inl (refuse (''invalid json body for '' @ route) 400)
      | Some v \<Rightarrow> if v = JNull then Inl (plain_error ''Cannot destructure null'') else Inr v)"

definition exec_command :: "(string \<Rightarrow> string option) \<Rightarrow> GatewayExecPolicy \<Rightarrow> string \<Rightarrow> (thrown, string \<times> json) result" where
  "exec_command env policy body =
     (if in_safe_mode env then Inl safe_mode_error
      else rbind (parseJsonBody body ''/exec'')
        (\<lambda>v. case jfield v ''command'' of
            c \<Rightarrow> if falsy c then Inl (refuse ''command required'' 400)
                 else (case jstring c of
                    None \<Rightarrow> Inl (plain_error ''command.trim is not a function'')
                  | Some command \<Rightarrow>
                      rbind (enforceGatewayExecPolicy command policy) (\<lambda>_. Inr (command, v)))))"

definition chat_input :: "(string \<Rightarrow> string option) \<Rightarrow> string \<Rightarrow> (thrown, json) result" where
  "chat_input env body =
     (if in_safe_mode env then Inl safe_mode_error
      else rbind (parseJsonBody body ''/provider/chat'')
        (\<lambda>v. let input = jfield v ''input''
             in if falsy input then Inl (refuse ''input required'' 400)
                else (case jstring input of
                   None \<Rightarrow> Inl (plain_error ''input.trim is not a function'')
                 | Some s \<Rightarrow> if length (trim s) = 0 then Inl (refuse ''input required'' 400) else Inr v)))"

definition run_handler ::
  "(string \<Rightarrow> string option) \<Rightarrow> (string \<Rightarrow> json \<Rightarrow> (thrown, json) result) \<Rightarrow> (Request \<Rightarrow> json \<Rightarrow> (thrown, json) result) \<Rightarrow>
   Route \<Rightarrow> Request \<Rightarrow> Gateway \<Rightarrow> (thrown, json) result \<times> Gateway" where
  "run_handler env runner other route req g =
     (if rt_path route = ''/exec'' then
        (case exec_command env (gw_policy g) (rq_body req) of
           Inl e \<Rightarrow> (Inl e, g)
         | Inr (command, v) \<Rightarrow> (runner command v, g\<lparr>gw_ran := gw_ran g @ [command]\<rparr>))
      else if rt_path route = ''/provider/chat'' then
        (rbind (chat_input env (rq_body req)) (other req), g)
      else (other req JNull, g))"

text \<open>The three limiters, in the order of the code; \<open>clock i\<close> is the \<open>i\<close>-th reading of \<open>Date.now()\<close>.\<close>

definition check_limits :: "(nat \<Rightarrow> int) \<Rightarrow> Request \<Rightarrow> Gateway \<Rightarrow> (thrown, unit) result \<times> Gateway" where
  "check_limits clock req g =
     (let remote = (if rq_remote req = Some '''' then ''unknown'' else or_else (rq_remote req) ''unknown'');
          globalKey = remote @ '':'' @ rq_method req;
          key = remote @ '':'' @ rq_method req @ '':'' @ rq_path req
      in case rate_check globalKey (clock 0) (gw_global g) of
           (Inl e, l) \<Rightarrow> (Inl e, g\<lparr>gw_global := l\<rparr>)
         | (Inr _, l) \<Rightarrow>
             (let g = g\<lparr>gw_global := l\<rparr>
              in if rq_path req = ''/exec'' \<or> rq_path req = ''/provider/chat'' then
                   (case rate_check key (clock 1) (gw_sensitive g) of
                      (Inl e, l) \<Rightarrow> (Inl e, g\<lparr>gw_sensitive := l\<rparr>)
                    | (Inr _, l) \<Rightarrow>
                        (let g = g\<lparr>gw_sensitive := l\<rparr>
                         in if rq_path req = ''/exec'' then
                              (case rate_check key (clock 2) (gw_exec g) of
                                 (r, l) \<Rightarrow> (r, g\<lparr>gw_exec := l\<rparr>))
                            else (Inr (), g)))
                 else (Inr (), g)))"

definition serve ::
  "(string \<Rightarrow> string option) \<Rightarrow> (string \<Rightarrow> string) \<Rightarrow> (string \<Rightarrow> json \<Rightarrow> (thrown, json) result) \<Rightarrow>
   (Request \<Rightarrow> json \<Rightarrow> (thrown, json) result) \<Rightarrow> (nat \<Rightarrow> int) \<Rightarrow> Route \<Rightarrow> Request \<Rightarrow> Gateway \<Rightarrow> response \<times> Gateway" where
  "serve env resolve_path runner other clock route req g =
     (let is_exec = (rq_path req = ''/exec'');
          outcome =
            (case check_limits clock req g of
               (Inl e, g) \<Rightarrow> (Inl e, g)
             | (Inr _, g) \<Rightarrow>
                 run_handler env runner other route req
                   (if is_exec then audit_entry ''gateway.exec.attempt'' ''allowed'' g else g))
      in case outcome of
           (Inr v, g) \<Rightarrow> (Reply 200 v, g)
         | (Inl e, g) \<Rightarrow>
             (case jsonError resolve_path e (rq_id req) of
                (status, body) \<Rightarrow>
                  (Reply status body, if is_exec then audit_entry ''gateway.exec.attempt'' ''error'' g else g)))"

definition handle ::
  "(string \<Rightarrow> string option) \<Rightarrow> (string \<Rightarrow> string) \<Rightarrow> (string \<Rightarrow> json \<Rightarrow> (thrown, json) result) \<Rightarrow>
   (Request \<Rightarrow> json \<Rightarrow> (thrown, json) result) \<Rightarrow> (nat \<Rightarrow> int) \<Rightarrow> Request \<Rightarrow> Gateway \<Rightarrow> response \<times> Gateway" where
  "handle env resolve_path runner other clock req g =
     (let config = gw_config g
      in if rq_method req = ''OPTIONS'' then (NoContent, g)
         else (case map_of routeMap (routeKey (rq_method req) (rq_path req)) of
            None \<Rightarrow> (error_reply 404 ''NOT_FOUND'' ''not found'' (rq_id req), g)
          | Some route \<Rightarrow>
              if rq_path req = ''/exec'' then
                (let localDevBypass = (gc_dangerouslyAllowExec config \<and> isLoopbackIp (rq_remote req))
                 in if \<not> localDevBypass \<and>
                       \<not> is_ok (enforceGatewayExecAuth (rq_authorization req) (gc_authToken config)) then
                      (error_reply 401 ''UNAUTHORIZED'' ''unauthorized'' (rq_id req),
                       audit_entry ''gateway.exec.auth'' ''blocked'' g)
                    else serve env resolve_path runner other clock route req g)
              else if rt_auth route \<and> gc_authToken config \<noteq> None \<and> gc_authToken config \<noteq> Some '''' then
                (if rq_authorization req \<noteq> Some (''Bearer '' @ or_else (gc_authToken config) '''') then
                   (error_reply 401 ''UNAUTHORIZED'' ''unauthorized'' (rq_id req), g)
                 else serve env resolve_path runner other clock route req g)
              else serve env resolve_path runner other clock route req g))"

end
