(* ===== verification/GatewayLaws.thy ===== *)
theory GatewayLaws
  imports Gateway
begin

text \<open>
  What the gateway guarantees: which command lines the policy lets through, that nothing runs without
  authorisation, and how many requests the fixed-window limiter admits.
\<close>

section \<open>The exec policy\<close>

definition args_fit :: "CommandRule \<Rightarrow> string list \<Rightarrow> bool" where
  "args_fit rule args \<longleftrightarrow>
     (\<forall>arg \<in> set args. \<exists>p \<in> set (cr_allowedArgs rule). p arg) \<and> utf16_length (join '' '' args) \<le> cr_maxArgLength rule"

lemma trim_ends:
  assumes "trim s \<noteq> []"
  shows "\<not> is_space (hd (trim s))" and "\<not> is_space (last (trim s))"
proof -
  show "\<not> is_space (last (trim s))"
    using assms hd_dropWhile [of is_space "rev (trim_left s)"] by (auto simp: trim_def trim_left_def last_rev)
  let ?t = "trim_left s"
  have "\<exists>r. ?t = trim s @ r"
    using takeWhile_dropWhile_id [of is_space "rev ?t"]
    by (metis rev_append rev_rev_ident trim_def trim_left_def)
  then obtain r where r: "?t = trim s @ r" by blast
  then have "hd (trim s) = hd ?t" and "?t \<noteq> []" using assms by auto
  then show "\<not> is_space (hd (trim s))" using hd_dropWhile [of is_space s] by (simp add: trim_left_def)
qed

lemma trim_idem [simp]: "trim (trim s) = trim s"
  by (cases "trim s = []") (use trim_ends trim_id in auto)

lemma words_aux_not_Nil: "cur \<noteq> [] \<Longrightarrow> words_aux cur s \<noteq> []"
  by (induction s arbitrary: cur) auto

lemma words_aux_prefix:
  "cur \<noteq> [] \<Longrightarrow> words_aux (cur @ pre) s = (rev pre @ hd (words_aux cur s)) # tl (words_aux cur s)"
proof (induction s arbitrary: cur)
  case Nil
  then show ?case by simp
next
  case (Cons c s)
  then show ?case using Cons.IH [of "c # cur"] by simp
qed

lemma words_aux_nonspace: "\<forall>c \<in> set d. \<not> is_space c \<Longrightarrow> words_aux cur (d @ s) = words_aux (rev d @ cur) s"
  by (induction d arbitrary: cur) auto

lemma words_path_prefix:
  assumes "\<forall>c \<in> set d. \<not> is_space c" and "\<not> is_space x" and "words (x # s) = w # ws"
  shows "words (d @ x # s) = (d @ w) # ws"
proof -
  have "words (d @ x # s) = words_aux ([x] @ rev d) s"
    using assms(1,2) by (simp add: words_def words_aux_nonspace)
  also have "\<dots> = (rev (rev d) @ hd (words_aux [x] s)) # tl (words_aux [x] s)"
    by (rule words_aux_prefix) simp
  also have "words_aux [x] s = w # ws" using assms(2,3) by (simp add: words_def)
  finally show ?thesis by simp
qed

lemma words_nonempty_iff: "words (trim s) = [] \<longleftrightarrow> trim s = []"
proof (cases "trim s")
  case (Cons c r)
  then have "\<not> is_space c" using trim_ends(1) [of s] by simp
  with Cons words_aux_not_Nil [of "[c]" r] show ?thesis by (simp add: words_def)
qed (simp add: words_def)

lemma checkArgs_iff: "checkArgs base rule args = Inr () \<longleftrightarrow> (\<forall>arg \<in> set args. \<exists>p \<in> set (cr_allowedArgs rule). p arg)"
proof -
  have "checkArgs base rule args = Inr () \<longleftrightarrow> filter (\<lambda>arg. \<not> (\<exists>p \<in> set (cr_allowedArgs rule). p arg)) args = []"
    unfolding checkArgs_def by (simp split: list.split)
  then show ?thesis by (simp add: filter_empty_conv)
qed

lemma policy_accepts_iff:
  assumes "gp_restrictedMode policy"
  shows "enforceGatewayExecPolicy command policy = Inr () \<longleftrightarrow>
    (\<exists>first args rule. words (trim command) = first # args \<and> \<not> SHELL_METACHAR_RE (trim command) \<and>
       map_of (gp_allowlist policy) (baseName first) = Some (Some rule) \<and> args_fit rule args)"
proof (cases "words (trim command)")
  case Nil
  then show ?thesis using assms words_nonempty_iff [of command]
    by (simp add: enforceGatewayExecPolicy_def Let_def words_def)
next
  case (Cons first args)
  then have ne: "trim command \<noteq> []" by (auto simp: words_def)
  show ?thesis
    using assms Cons ne
    by (auto simp: enforceGatewayExecPolicy_def parseCommand_def Let_def checkArgs_iff args_fit_def not_less
        split: option.splits if_splits)
qed

lemma split_on_append: "split_on sep (d @ sep # f) = split_on sep d @ split_on sep f"
proof (induction d)
  case (Cons c d)
  have "split_on sep d \<noteq> []" by (cases d) (auto split: list.split)
  with Cons show ?case by (auto split: list.split)
qed simp

lemma split_on_absent: "sep \<notin> set s \<Longrightarrow> split_on sep s = [s]"
  by (induction s) auto

lemma baseName_path: "baseName (d @ CHR ''/'' # f) = baseName f"
  by (auto simp: baseName_def split_on_append split_on_not_Nil split_on_absent)

definition harmless_dir :: "string \<Rightarrow> bool" where
  "harmless_dir d \<longleftrightarrow> (\<forall>c \<in> set d. \<not> metachar c \<and> \<not> is_space c)"

lemma slash_harmless: "\<not> metachar CHR ''/''" "\<not> is_space CHR ''/''"
  by (simp_all add: metachar_def is_space_def code_def)

lemma trim_path_prefix:
  assumes "harmless_dir d" and "trim s \<noteq> []"
  shows "trim (d @ CHR ''/'' # trim s) = d @ CHR ''/'' # trim s"
proof (rule trim_id)
  show "\<not> is_space (hd (d @ CHR ''/'' # trim s))"
    using assms(1) slash_harmless by (cases d) (simp_all add: harmless_dir_def)
  show "\<not> is_space (last (d @ CHR ''/'' # trim s))" using trim_ends(2) [OF assms(2)] assms(2) by simp
qed simp

section \<open>The limiter\<close>

text \<open>A history of checks: the key and time of each, and whether it was admitted.\<close>

fun rate_trace :: "(string \<times> int) list \<Rightarrow> RateLimiter \<Rightarrow> (string \<times> int \<times> bool) list" where
  "rate_trace [] l = []"
| "rate_trace ((key, now) # reqs) l =
     (case rate_check key now l of (r, l') \<Rightarrow> (key, now, is_ok r) # rate_trace reqs l')"

definition admitted :: "string \<Rightarrow> int \<Rightarrow> int \<Rightarrow> (string \<times> int \<times> bool) list \<Rightarrow> nat" where
  "admitted key a x trace = length (filter (\<lambda>(k, t, ok). k = key \<and> a \<le> t \<and> t < x \<and> ok) trace)"

lemma admitted_Nil [simp]: "admitted key a x [] = 0"
  by (simp add: admitted_def)

lemma admitted_Cons:
  "admitted key a x ((k, t, ok) # tr) = (if k = key \<and> a \<le> t \<and> t < x \<and> ok then 1 else 0) + admitted key a x tr"
  by (simp add: admitted_def)

lemma rate_check_params:
  "rate_check key now l = (r, l') \<Longrightarrow> rl_maxRequests l' = rl_maxRequests l \<and> rl_windowMs l' = rl_windowMs l"
  by (auto simp: rate_check_def Let_def split: option.splits if_splits)

lemma rate_check_other:
  "rate_check key now l = (r, l') \<Longrightarrow> k \<noteq> key \<Longrightarrow> map_of (rl_buckets l') k = map_of (rl_buckets l) k"
  by (auto simp: rate_check_def Let_def map_of_update split: option.splits if_splits)

lemma rate_check_fresh:
  assumes "map_of (rl_buckets l) key = None \<or> (\<exists>b. map_of (rl_buckets l) key = Some b \<and> now \<ge> bk_resetAt b)"
    and "rate_check key now l = (r, l')"
  shows "map_of (rl_buckets l') key = Some \<lparr>bk_count = 1, bk_resetAt = now + rl_windowMs l\<rparr>"
  using assms by (auto simp: rate_check_def Let_def map_of_update split: option.splits if_splits)

lemma rate_check_open:
  assumes "map_of (rl_buckets l) key = Some b" and "now < bk_resetAt b" and "rate_check key now l = (r, l')"
  shows "is_ok r \<longleftrightarrow> bk_count b < rl_maxRequests l"
    and "map_of (rl_buckets l') key = Some (if is_ok r then b\<lparr>bk_count := bk_count b + 1\<rparr> else b)"
  using assms by (auto simp: rate_check_def Let_def map_of_update split: if_splits)

lemma admitted_late: "\<forall>t \<in> set (map snd reqs). x \<le> t \<Longrightarrow> admitted key a x (rate_trace reqs l) = 0"
  by (induction reqs l rule: rate_trace.induct) (auto simp: admitted_Cons split: prod.split)

lemma admitted_one_window:
  assumes "sorted (map snd reqs)" and "map_of (rl_buckets l) key = Some b" and "x \<le> bk_resetAt b"
    and "M = max 1 (rl_maxRequests l)"
  shows "admitted key a x (rate_trace reqs l) \<le> M - bk_count b"
  using assms
proof (induction reqs arbitrary: l b)
  case Nil
  then show ?case by simp
next
  case (Cons kt reqs)
  obtain k t where kt: "kt = (k, t)" by force
  obtain r l' where run: "rate_check k t l = (r, l')" by force
  note same = rate_check_params [OF run]
  show ?case
  proof (cases "k = key \<and> x > t")
    case False
    show ?thesis
    proof (cases "k = key")
      case True
      with False have "\<forall>u \<in> set (map snd (kt # reqs)). x \<le> u" using Cons.prems(1) by (auto simp: kt)
      then show ?thesis using admitted_late by (metis le0)
    next
      case other: False
      have "admitted key a x (rate_trace reqs l') \<le> M - bk_count b"
        using Cons.prems same rate_check_other [OF run] other by (intro Cons.IH) (auto simp: kt)
      then show ?thesis using other run by (simp add: kt admitted_Cons)
    qed
  next
    case True
    then have open_now: "t < bk_resetAt b" using Cons.prems(3) by simp
    have b: "map_of (rl_buckets l) k = Some b" using True Cons.prems(2) by simp
    note o = rate_check_open [OF b open_now run]
    let ?b' = "if is_ok r then b\<lparr>bk_count := bk_count b + 1\<rparr> else b"
    have "admitted key a x (rate_trace reqs l') \<le> M - bk_count ?b'"
      using Cons.prems same o True by (intro Cons.IH) (auto simp: kt)
    with o(1) Cons.prems(4) True run show ?thesis by (auto simp: kt admitted_Cons split: if_splits)
  qed
qed

lemma admitted_two_windows:
  assumes "sorted (map snd reqs)" and "map_of (rl_buckets l) key = Some b"
    and "x \<le> bk_resetAt b + rl_windowMs l" and "M = max 1 (rl_maxRequests l)"
  shows "admitted key a x (rate_trace reqs l) \<le> (M - bk_count b) + M"
  using assms
proof (induction reqs arbitrary: l b)
  case Nil
  then show ?case by simp
next
  case (Cons kt reqs)
  obtain k t where kt: "kt = (k, t)" by force
  obtain r l' where run: "rate_check k t l = (r, l')" by force
  note same = rate_check_params [OF run]
  consider (other) "k \<noteq> key" | (late) "k = key" "t \<ge> bk_resetAt b" | (open_now) "k = key" "t < bk_resetAt b"
    by linarith
  then show ?case
  proof cases
    case other
    then have "admitted key a x (rate_trace reqs l') \<le> (M - bk_count b) + M"
      using Cons.prems same rate_check_other [OF run] by (intro Cons.IH) (auto simp: kt)
    then show ?thesis using other run by (simp add: kt admitted_Cons)
  next
    case late
    have "map_of (rl_buckets l') key = Some \<lparr>bk_count = 1, bk_resetAt = t + rl_windowMs l\<rparr>"
      using rate_check_fresh [of l k t r l'] late Cons.prems(2) run by auto
    then have "admitted key a x (rate_trace reqs l') \<le> M - 1"
      using admitted_one_window [of reqs l' key _ x M a] Cons.prems same late by (auto simp: kt)
    moreover have "1 \<le> M" using Cons.prems(4) by simp
    ultimately show ?thesis using run by (auto simp: kt admitted_Cons)
  next
    case open_now
    then have b: "map_of (rl_buckets l) k = Some b" using Cons.prems(2) by simp
    note o = rate_check_open [OF b open_now(2) run]
    let ?b' = "if is_ok r then b\<lparr>bk_count := bk_count b + 1\<rparr> else b"
    have "admitted key a x (rate_trace reqs l') \<le> (M - bk_count ?b') + M"
      using Cons.prems same o open_now by (intro Cons.IH) (auto simp: kt)
    with o(1) Cons.prems(4) open_now run show ?thesis by (auto simp: kt admitted_Cons split: if_splits)
  qed
qed

lemma admitted_interval:
  assumes "sorted (map snd reqs)" and "M = max 1 (rl_maxRequests l)"
  shows "admitted key a (a + rl_windowMs l) (rate_trace reqs l) \<le> 2 * M"
  using assms
proof (induction reqs arbitrary: l)
  case Nil
  then show ?case by simp
next
  case (Cons kt reqs)
  obtain k t where kt: "kt = (k, t)" by force
  obtain r l' where run: "rate_check k t l = (r, l')" by force
  note same = rate_check_params [OF run]
  have rest: "admitted key a (a + rl_windowMs l) (rate_trace reqs l') \<le> 2 * M"
    using Cons.IH [of l'] Cons.prems same by (auto simp: kt)
  show ?case
  proof (cases "k = key \<and> a \<le> t")
    case False
    with rest run show ?thesis by (auto simp: kt admitted_Cons)
  next
    case True
    show ?thesis
    proof (cases "\<exists>b. map_of (rl_buckets l) key = Some b \<and> t < bk_resetAt b")
      case True
      then obtain b where "map_of (rl_buckets l) key = Some b" "t < bk_resetAt b" by blast
      with Cons.prems \<open>k = key \<and> a \<le> t\<close>
      have "admitted key a (a + rl_windowMs l) (rate_trace (kt # reqs) l) \<le> (M - bk_count b) + M"
        by (intro admitted_two_windows) (auto simp: kt)
      then show ?thesis by simp
    next
      case False
      then have "map_of (rl_buckets l') key = Some \<lparr>bk_count = 1, bk_resetAt = t + rl_windowMs l\<rparr>"
        using rate_check_fresh [of l k t r l'] \<open>k = key \<and> a \<le> t\<close> run
        by (cases "map_of (rl_buckets l) key") auto
      then have "admitted key a (a + rl_windowMs l) (rate_trace reqs l') \<le> M - 1"
        using admitted_one_window [of reqs l' key _ "a + rl_windowMs l" M a] Cons.prems same True by (auto simp: kt)
      moreover have "1 \<le> M" using Cons.prems(2) by simp
      ultimately show ?thesis using run by (auto simp: kt admitted_Cons)
    qed
  qed
qed

section \<open>Who may run a command\<close>

lemma exec_route: "map_of routeMap (routeKey m ''/exec'') = Some route \<Longrightarrow> m = ''POST'' \<and> rt_path route = ''/exec''"
proof -
  assume found: "map_of routeMap (routeKey m ''/exec'') = Some route"
  have keys: "set (keys routeMap) = set (map (\<lambda>r. routeKey (rt_method r) (rt_path r)) registerRoutes)"
    by (simp add: routeMap_def registerRoutes_def routeKey_def keys_def)
  from found have "routeKey m ''/exec'' \<in> set (keys routeMap)" by (rule map_of_SomeD')
  then have m: "m = ''POST''"
    unfolding keys by (auto simp: registerRoutes_def routeKey_def append_eq_Cons_conv Cons_eq_append_conv)
  with found show ?thesis
    by (auto simp: routeMap_def registerRoutes_def routeKey_def map_of_update)
qed

lemma check_limits_ran:
  "check_limits clock req g = (r, g') \<Longrightarrow> gw_ran g' = gw_ran g \<and> gw_policy g' = gw_policy g"
  by (auto simp: check_limits_def Let_def split: prod.splits sum.splits if_splits)

lemma exec_command_Inr:
  "exec_command env policy body = Inr (command, v) \<Longrightarrow>
     enforceGatewayExecPolicy command policy = Inr () \<and> \<not> in_safe_mode env"
  by (auto simp: exec_command_def rbind_Inr_iff Let_def split: if_splits option.splits)

lemma audit_entry_ran [simp]: "gw_ran (audit_entry a s g) = gw_ran g" "gw_policy (audit_entry a s g) = gw_policy g"
  by (simp_all add: audit_entry_def)

lemma run_handler_ran:
  assumes "run_handler env runner other route req g = (r, g')" and "gw_ran g' \<noteq> gw_ran g"
  shows "rt_path route = ''/exec'' \<and> (\<exists>command. gw_ran g' = gw_ran g @ [command] \<and>
    enforceGatewayExecPolicy command (gw_policy g) = Inr () \<and> \<not> in_safe_mode env)"
  using assms exec_command_Inr
  by (fastforce simp: run_handler_def split: if_splits sum.splits prod.splits)

lemma serve_ran:
  assumes "serve env rp runner other clock route req g = (resp, g')" and "gw_ran g' \<noteq> gw_ran g"
  shows "rt_path route = ''/exec'' \<and> (\<exists>command. gw_ran g' = gw_ran g @ [command] \<and>
    enforceGatewayExecPolicy command (gw_policy g) = Inr () \<and> \<not> in_safe_mode env)"
proof -
  obtain r g1 where limits: "check_limits clock req g = (r, g1)" by force
  note same = check_limits_ran [OF limits]
  show ?thesis
  proof (cases r)
    case (Inl e)
    with assms limits same show ?thesis
      by (auto simp: serve_def Let_def split: prod.splits if_splits)
  next
    case (Inr u)
    let ?g2 = "if rq_path req = ''/exec'' then audit_entry ''gateway.exec.attempt'' ''allowed'' g1 else g1"
    obtain r3 g3 where run: "run_handler env runner other route req ?g2 = (r3, g3)" by force
    have "gw_ran g' = gw_ran g3"
      using assms(1) limits Inr run by (auto simp: serve_def Let_def split: sum.splits prod.splits if_splits)
    moreover have g2: "gw_ran ?g2 = gw_ran g" "gw_policy ?g2 = gw_policy g" using same by simp_all
    ultimately show ?thesis using run_handler_ran [OF run] assms(2) unfolding g2 by metis
  qed
qed

section \<open>Properties\<close>

definition demo_policy :: GatewayExecPolicy where
  "demo_policy = \<lparr>gp_restrictedMode = True, gp_allowlist = map (\<lambda>(n, r). (n, Some r)) DEFAULT_COMMAND_RULES, gp_blockedTokens = []\<rparr>"

lemma demo_words: "words ''pwd'' = [''pwd'']" "trim ''pwd'' = ''pwd''"
  by (simp_all add: words_def trim_def trim_left_def is_space_def code_def)

lemma demo_pwd: "enforceGatewayExecPolicy ''pwd'' demo_policy = Inr ()"
proof -
  have "gp_restrictedMode demo_policy" by (simp add: demo_policy_def)
  from policy_accepts_iff [OF this] show ?thesis
    by (simp add: demo_words demo_policy_def SHELL_METACHAR_RE_def metachar_def code_def baseName_def
        DEFAULT_COMMAND_RULES_def args_fit_def utf16_length_def)
qed

section \<open>Accepted lines\<close>

lemma words_first:
  assumes "words s = first # args" and "s \<noteq> []" and "\<not> is_space (hd s)"
  shows "\<exists>rest. s = first @ rest \<and> (\<forall>c \<in> set first. \<not> is_space c) \<and> (rest = [] \<or> is_space (hd rest)) \<and> words rest = args"
proof -
  have aux: "words_aux cur t = (rev cur @ takeWhile (\<lambda>c. \<not> is_space c) t) # words (dropWhile (\<lambda>c. \<not> is_space c) t)"
    if "cur \<noteq> []" for cur t
    using that by (induction t arbitrary: cur) (auto simp: words_def)
  obtain c t where s: "s = c # t" using assms(2) by (cases s) auto
  have "words s = (c # takeWhile (\<lambda>c. \<not> is_space c) t) # words (dropWhile (\<lambda>c. \<not> is_space c) t)"
    using aux [of "[c]" t] assms(3) by (simp add: s words_def)
  then have "first = takeWhile (\<lambda>c. \<not> is_space c) s" "args = words (dropWhile (\<lambda>c. \<not> is_space c) s)"
    using assms(1,3) by (simp_all add: s)
  then show ?thesis
    using hd_dropWhile [of "\<lambda>c. \<not> is_space c" s] takeWhile_dropWhile_id [of "\<lambda>c. \<not> is_space c" s]
    by (intro exI [of _ "dropWhile (\<lambda>c. \<not> is_space c) s"]) (auto dest: set_takeWhileD)
qed

lemma words_cover: "c \<in> set s \<Longrightarrow> is_space c \<or> (\<exists>a \<in> set (words s). c \<in> set a)"
proof -
  have "\<forall>c \<in> set s \<union> set cur. is_space c \<or> (\<exists>a \<in> set (words_aux cur s). c \<in> set a)" for cur
  proof (induction s arbitrary: cur)
    case (Cons x s)
    show ?case using Cons.IH [of "[]"] Cons.IH [of "x # cur"] by auto
  qed simp
  then show "c \<in> set s \<Longrightarrow> is_space c \<or> (\<exists>a \<in> set (words s). c \<in> set a)" by (auto simp: words_def)
qed

lemma baseName_end: "\<exists>d. first = d @ baseName first \<and> (d = [] \<or> last d = CHR ''/'')"
proof (cases "CHR ''/'' \<in> set first")
  case True
  then obtain d f where f: "first = d @ CHR ''/'' # f" "CHR ''/'' \<notin> set f" by (metis split_list_last)
  have "baseName first = f" using f by (simp add: baseName_path) (simp add: baseName_def)
  then show ?thesis using f(1) by (intro exI [of _ "d @ ''/''"]) simp
qed (simp add: baseName_def)

lemma map_of_fold_update:
  "map_of (fold (\<lambda>n. AList.update n (f n)) names m) k = (if k \<in> set names then Some (f k) else map_of m k)"
  by (induction names arbitrary: m) (auto simp: map_of_update)

text \<open>Only three programs take arguments, and only of harmless characters.\<close>

lemma default_rules:
  "command_rule ''echo'' = Some \<lparr>cr_allowedArgs = [only '' _.,:=@/-''], cr_maxArgLength = 200\<rparr>"
  "command_rule ''ls'' = Some \<lparr>cr_allowedArgs = [after CHR ''-'' (\<lambda>t. t \<noteq> [] \<and> list_all (\<lambda>c. c \<in> set ''lah1Rt'') t), only ''_./@~ -''],
     cr_maxArgLength = 200\<rparr>"
  "command_rule ''date'' = Some \<lparr>cr_allowedArgs = [after CHR ''+'' (only ''%: ._-'')], cr_maxArgLength = 50\<rparr>"
  by (simp_all add: command_rule_def DEFAULT_COMMAND_RULES_def)

definition arg_char :: "char \<Rightarrow> bool" where
  "arg_char c \<longleftrightarrow> is_alnum c \<or> c \<in> set '' _.,:=@/+%~-''"

lemma only_arg: "only extra a \<Longrightarrow> set extra \<subseteq> set '' _.,:=@/+%~-'' \<Longrightarrow> list_all arg_char a"
  unfolding only_def list_all_iff arg_char_def by blast

lemma after_arg: "after c p a \<Longrightarrow> arg_char c \<Longrightarrow> (p (tl a) \<Longrightarrow> list_all arg_char (tl a)) \<Longrightarrow> list_all arg_char a"
  by (cases a) (auto simp: after_def)

lemma rule_args:
  assumes "command_rule name = Some rule" and "p \<in> set (cr_allowedArgs rule)" and "p a"
  shows "name \<in> {''echo'', ''ls'', ''date''}" and "list_all arg_char a"
proof -
  show name: "name \<in> {''echo'', ''ls'', ''date''}"
    using assms(1,2) by (auto simp: command_rule_def DEFAULT_COMMAND_RULES_def split: if_splits)
  have flags: "list_all arg_char t" if "list_all (\<lambda>c. c \<in> set ''lah1Rt'') t" for t
    using that
  proof (rule list.pred_mono_strong)
    fix c assume "c \<in> set ''lah1Rt''"
    then have "c = CHR ''l'' \<or> c = CHR ''a'' \<or> c = CHR ''h'' \<or> c = CHR ''1'' \<or> c = CHR ''R'' \<or> c = CHR ''t''" by simp
    then have "is_alnum c"
      by (elim disjE) (simp_all add: is_alnum_def is_lower_def is_upper_def is_digit_def code_def)
    then show "arg_char c" by (simp add: arg_char_def)
  qed
  have "only '' _.,:=@/-'' a \<or> after CHR ''-'' (\<lambda>t. t \<noteq> [] \<and> list_all (\<lambda>c. c \<in> set ''lah1Rt'') t) a \<or>
      only ''_./@~ -'' a \<or> after CHR ''+'' (only ''%: ._-'') a"
  proof -
    from name consider "name = ''echo''" | "name = ''ls''" | "name = ''date''" by blast
    then show ?thesis
    proof cases
      case 1
      then show ?thesis using assms by (auto simp: default_rules(1))
    next
      case 2
      then show ?thesis using assms by (auto simp: default_rules(2))
    next
      case 3
      then show ?thesis using assms by (auto simp: default_rules(3))
    qed
  qed
  moreover have "only '' _.,:=@/-'' a \<Longrightarrow> list_all arg_char a" "only ''_./@~ -'' a \<Longrightarrow> list_all arg_char a"
    by (erule only_arg, simp)+
  moreover have "after CHR ''-'' (\<lambda>t. t \<noteq> [] \<and> list_all (\<lambda>c. c \<in> set ''lah1Rt'') t) a \<Longrightarrow> list_all arg_char a"
    by (erule after_arg) (simp add: arg_char_def, use flags in blast)
  moreover have "after CHR ''+'' (only ''%: ._-'') a \<Longrightarrow> list_all arg_char a"
    by (erule after_arg) (simp add: arg_char_def, erule only_arg, simp)
  ultimately show "list_all arg_char a" by blast
qed

section \<open>Properties of the policy\<close>



text \<open>
  Only the last path component of the command word is looked up, while the whole line is run: if a
  line is accepted, so is the same line with any directory in front of its command word, and the program
  the shell starts is then the one in that directory.
\<close>

theorem exec_policy_admits_any_directory:
  assumes "gp_restrictedMode policy" and "enforceGatewayExecPolicy command policy = Inr ()" and "harmless_dir d"
  shows "\<exists>first args. words (trim command) = first # args \<and>
    words (d @ CHR ''/'' # trim command) = (d @ CHR ''/'' # first) # args \<and>
    enforceGatewayExecPolicy (d @ CHR ''/'' # trim command) policy = Inr ()"
proof -
  obtain first args rule where ok: "words (trim command) = first # args" "\<not> SHELL_METACHAR_RE (trim command)"
    "map_of (gp_allowlist policy) (baseName first) = Some (Some rule)" "args_fit rule args"
    using assms(1,2) policy_accepts_iff by blast
  then have ne: "trim command \<noteq> []" by (auto simp: words_def)
  then obtain x s where xs: "trim command = x # s" by (cases "trim command") auto
  then have "\<not> is_space x" using trim_ends(1) [OF ne] by simp
  have line: "words (d @ CHR ''/'' # trim command) = (d @ CHR ''/'' # first) # args"
    using words_path_prefix [of "d @ ''/''" x s first args] assms(3) slash_harmless \<open>\<not> is_space x\<close> ok(1) xs
    by (auto simp: harmless_dir_def)
  have "\<not> SHELL_METACHAR_RE (d @ CHR ''/'' # trim command)"
    using ok(2) assms(3) slash_harmless by (auto simp: SHELL_METACHAR_RE_def harmless_dir_def)
  then have "enforceGatewayExecPolicy (d @ CHR ''/'' # trim command) policy = Inr ()"
    unfolding policy_accepts_iff [OF assms(1)] trim_path_prefix [OF assms(3) ne] line
    using ok(3,4) by (auto simp: baseName_path)
  with ok(1) line show ?thesis by blast
qed

lemma exec_policy_admits_any_directory_witness:
  "enforceGatewayExecPolicy ''/tmp/x/pwd'' demo_policy = Inr ()"
proof -
  have "gp_restrictedMode demo_policy" by (simp add: demo_policy_def)
  moreover have "harmless_dir ''/tmp/x''" by (simp add: harmless_dir_def metachar_def is_space_def code_def)
  ultimately show ?thesis
    using exec_policy_admits_any_directory [OF _ demo_pwd, of "''/tmp/x''"] by (auto simp: demo_words)
qed

text \<open>
  C7: whatever request arrives, a command is run only for a POST to /exec outside safe mode, only if the
  policy accepts it, and only with the configured bearer token or, when the development bypass is on, from
  a loopback address; at most one command runs.
\<close>

theorem gateway_runs_only_authorised:
  assumes "handle env rp runner other clock req g = (resp, g')" and "gw_ran g' \<noteq> gw_ran g"
  shows "rq_method req = ''POST'' \<and> rq_path req = ''/exec'' \<and> \<not> in_safe_mode env \<and>
    (\<exists>command. gw_ran g' = gw_ran g @ [command] \<and> enforceGatewayExecPolicy command (gw_policy g) = Inr ()) \<and>
    ((gc_dangerouslyAllowExec (gw_config g) \<and> isLoopbackIp (rq_remote req)) \<or>
     (\<exists>token. gc_authToken (gw_config g) = Some token \<and> trim token \<noteq> [] \<and>
        rq_authorization req = Some (''Bearer '' @ token)))"
proof -
  obtain route where route: "map_of routeMap (routeKey (rq_method req) (rq_path req)) = Some route"
    and served: "serve env rp runner other clock route req g = (resp, g')"
    and auth: "rq_path req = ''/exec'' \<longrightarrow> (gc_dangerouslyAllowExec (gw_config g) \<and> isLoopbackIp (rq_remote req)) \<or>
      is_ok (enforceGatewayExecAuth (rq_authorization req) (gc_authToken (gw_config g)))"
    using assms by (auto simp: handle_def Let_def split: if_splits option.splits)
  from serve_ran [OF served assms(2)] have path: "rt_path route = ''/exec''" and ran:
    "\<exists>command. gw_ran g' = gw_ran g @ [command] \<and> enforceGatewayExecPolicy command (gw_policy g) = Inr () \<and>
       \<not> in_safe_mode env" by blast+
  have "\<forall>k r. map_of routeMap k = Some r \<longrightarrow> k = routeKey (rt_method r) (rt_path r)"
    by (simp add: routeMap_def registerRoutes_def routeKey_def map_of_update)
  with route path have key: "routeKey (rq_method req) (rq_path req) = routeKey (rt_method route) ''/exec''" by metis
  then have "map_of routeMap (routeKey (rt_method route) ''/exec'') = Some route" using route by simp
  then have "rt_method route = ''POST''" using exec_route by blast
  with key have "rq_method req @ '':'' @ rq_path req = ''POST:/exec''" by (simp add: routeKey_def)
  then have "rq_method req = ''POST'' \<and> rq_path req = ''/exec''"
    by (auto simp: append_eq_Cons_conv Cons_eq_append_conv)
  moreover have "is_ok (enforceGatewayExecAuth hdr tok) \<Longrightarrow>
      \<exists>token. tok = Some token \<and> trim token \<noteq> [] \<and> hdr = Some (''Bearer '' @ token)" for hdr tok
    by (auto simp: enforceGatewayExecAuth_def assertGatewayExecAuthConfigured_def split: option.splits if_splits)
  ultimately show ?thesis using ran auth by blast
qed

text \<open>
  C26: the fixed-window limiter with a maximum of \<open>m\<close> requests and a window of \<open>w\<close> milliseconds admits, in
  any interval of length \<open>w\<close>, at most \<open>2 * m\<close> requests of one key (two when \<open>m\<close> is zero), for requests of
  any keys in any order of arrival that respects the clock.
\<close>

theorem rate_limit_bound:
  assumes "sorted (map snd reqs)"
  shows "admitted key a (a + w) (rate_trace reqs (newRateLimiter m w)) \<le> 2 * max 1 m"
  using admitted_interval [OF assms refl, of key a "newRateLimiter m w"] by (simp add: newRateLimiter_def)

lemma rate_limit_bound_witness:
  "admitted ''k'' 9 19 (rate_trace [(''k'', 0), (''k'', 9), (''k'', 10), (''k'', 11)] (newRateLimiter 2 10)) \<le> 4"
  using rate_limit_bound [of "[(''k'', 0), (''k'', 9), (''k'', 10), (''k'', 11)]" "''k''" 9 10 2] by simp

lemma blocked_tokens_ignored:
  "enforceGatewayExecPolicy command (policy\<lparr>gp_blockedTokens := tokens\<rparr>) = enforceGatewayExecPolicy command policy"
  by (simp add: enforceGatewayExecPolicy_def Let_def)

text \<open>A request of the examples: a POST to /exec with the bearer token.\<close>

definition demo_gateway :: Gateway where
  "demo_gateway = \<lparr>gw_config = \<lparr>gc_authToken = Some ''s'', gc_dangerouslyAllowExec = False\<rparr>, gw_policy = demo_policy,
     gw_global = globalLimiter, gw_sensitive = sensitiveLimiter, gw_exec = execLimiter, gw_audit = [], gw_ran = []\<rparr>"

definition demo_exec_body :: string where
  "demo_exec_body = JSON_stringify (JObj [(''command'', JStr ''pwd'')])"

definition demo_request :: Request where
  "demo_request = \<lparr>rq_method = ''POST'', rq_path = ''/exec'', rq_remote = Some ''::1'',
     rq_authorization = Some ''Bearer s'', rq_body = demo_exec_body, rq_id = ''q''\<rparr>"

lemma demo_exec_command: "exec_command (\<lambda>_. None) demo_policy demo_exec_body = Inr (''pwd'', JObj [(''command'', JStr ''pwd'')])"
  by (simp add: exec_command_def in_safe_mode_def to_lower_def parseJsonBody_def demo_exec_body_def
      parse_stringify demo_pwd)

lemma demo_auth: "enforceGatewayExecAuth (Some ''Bearer s'') (Some ''s'') = Inr ()"
  by (simp add: enforceGatewayExecAuth_def assertGatewayExecAuthConfigured_def trim_def trim_left_def
      is_space_def code_def)

lemma demo_exec_route: "map_of routeMap (routeKey ''POST'' ''/exec'') =
    Some \<lparr>rt_method = ''POST'', rt_path = ''/exec'', rt_auth = True\<rparr>"
  by (simp add: routeMap_def registerRoutes_def routeKey_def)

lemma demo_ran:
  "gw_ran (snd (handle (\<lambda>_. None) id (\<lambda>c v. Inr JNull) (\<lambda>r v. Inr v) (\<lambda>_. 0) demo_request demo_gateway)) = [''pwd'']"
proof -
  obtain g1 where limits: "check_limits (\<lambda>_. 0) demo_request demo_gateway = (Inr (), g1)"
    and g1: "gw_ran g1 = []" "gw_policy g1 = demo_policy"
    by (simp add: check_limits_def demo_request_def demo_gateway_def globalLimiter_def sensitiveLimiter_def
        execLimiter_def newRateLimiter_def rate_check_def Let_def)
  let ?route = "\<lparr>rt_method = ''POST'', rt_path = ''/exec'', rt_auth = True\<rparr>"
  have fields: "rq_path demo_request = ''/exec''" "rq_body demo_request = demo_exec_body"
    by (simp_all add: demo_request_def)
  have served: "gw_ran (snd (serve (\<lambda>_. None) id (\<lambda>c v. Inr JNull) (\<lambda>r v. Inr v) (\<lambda>_. 0) ?route demo_request demo_gateway)) = [''pwd'']"
    using g1 demo_exec_command fields
    by (simp add: serve_def limits run_handler_def Let_def)
  have "rq_method demo_request = ''POST''" "rq_path demo_request = ''/exec''"
    "rq_authorization demo_request = Some ''Bearer s''" "gc_authToken (gw_config demo_gateway) = Some ''s''"
    by (simp_all add: demo_request_def demo_gateway_def)
  then show ?thesis using served demo_auth demo_exec_route by (simp add: handle_def Let_def)
qed

lemma gateway_runs_only_authorised_witness:
  "rq_method demo_request = ''POST'' \<and> enforceGatewayExecPolicy ''pwd'' demo_policy = Inr ()"
proof -
  have "gw_ran (snd (handle (\<lambda>_. None) id (\<lambda>c v. Inr JNull) (\<lambda>r v. Inr v) (\<lambda>_. 0) demo_request demo_gateway)) \<noteq>
      gw_ran demo_gateway"
    by (simp only: demo_ran) (simp add: demo_gateway_def)
  from gateway_runs_only_authorised [OF prod.collapse [symmetric] this]
  show ?thesis using demo_pwd by blast
qed

end
