(* ===== verification/Orchestration.thy ===== *)
theory Orchestration
  imports Errors
begin

text \<open>
  Choosing a provider and calling it with retries and a fallback (\<open>modules/orchestration/service.ts\<close>,
  \<open>modules/orchestration/provider-policy.ts\<close>, types of \<open>core/types.ts\<close>).

  The outside world is the record \<open>orch_env\<close>: what the \<open>n\<close>-th provider call of the process answers,
  when it starts and ends, the random part of a pause, and the latency statistics.
\<close>

datatype ProviderName = SharedLlm | DecentralizedLlm | LocalFallback | Ollama

fun provider_text :: "ProviderName \<Rightarrow> string" where
  "provider_text SharedLlm = ''shared-llm''"
| "provider_text DecentralizedLlm = ''decentralized-llm''"
| "provider_text LocalFallback = ''local-fallback''"
| "provider_text Ollama = ''ollama''"

datatype Strategy = DefaultStrategy | LatencyAware

fun strategy_text :: "Strategy \<Rightarrow> string" where
  "strategy_text DefaultStrategy = ''default''"
| "strategy_text LatencyAware = ''latency-aware''"

record GenerateResult =
  gr_id :: string
  gr_providerUsed :: ProviderName
  gr_modelUsed :: "string option"
  gr_output :: string
  gr_usage :: "json option"
  gr_timingMs :: int
  gr_trace :: "json option"

record ProviderTraceAttempt =
  tr_attempt :: nat
  tr_provider :: ProviderName
  tr_viaFallback :: bool
  tr_ok :: bool
  tr_latencyMs :: int
  tr_errorCode :: "string option"
  tr_errorMessage :: "string option"

definition attempt_json :: "ProviderTraceAttempt \<Rightarrow> json" where
  "attempt_json a =
     JObj ([(''attempt'', JNum (int (tr_attempt a))), (''provider'', JStr (provider_text (tr_provider a))),
            (''viaFallback'', JBool (tr_viaFallback a)), (''ok'', JBool (tr_ok a)),
            (''latencyMs'', JNum (tr_latencyMs a))]
           @ opt_field ''errorCode'' (tr_errorCode a) @ opt_field ''errorMessage'' (tr_errorMessage a))"

section \<open>Cooldown\<close>

record ProviderPolicy =
  pp_cooldownUntil :: "(ProviderName, int) jsmap"
  pp_cooldownMs :: int

definition cooldown_until :: "ProviderName \<Rightarrow> ProviderPolicy \<Rightarrow> int" where
  "cooldown_until provider p = or_else (map_of (pp_cooldownUntil p) provider) 0"

definition isInCooldown :: "ProviderName \<Rightarrow> int \<Rightarrow> ProviderPolicy \<Rightarrow> bool" where
  "isInCooldown provider now p \<longleftrightarrow> now < cooldown_until provider p"

definition markFailure :: "ProviderName \<Rightarrow> int \<Rightarrow> ProviderPolicy \<Rightarrow> ProviderPolicy" where
  "markFailure provider now p =
     p\<lparr>pp_cooldownUntil := AList.update provider (now + pp_cooldownMs p) (pp_cooldownUntil p)\<rparr>"

definition markSuccess :: "ProviderName \<Rightarrow> ProviderPolicy \<Rightarrow> ProviderPolicy" where
  "markSuccess provider p = p\<lparr>pp_cooldownUntil := AList.delete provider (pp_cooldownUntil p)\<rparr>"

definition remainingCooldownMs :: "ProviderName \<Rightarrow> int \<Rightarrow> ProviderPolicy \<Rightarrow> int" where
  "remainingCooldownMs provider now p = max 0 (cooldown_until provider p - now)"

section \<open>The service\<close>

record orch_env =
  oe_generate :: "ProviderName \<Rightarrow> nat \<Rightarrow> (thrown, GenerateResult) result"
  oe_started :: "nat \<Rightarrow> int"
  oe_ended :: "nat \<Rightarrow> int"
  oe_jitter :: "nat \<Rightarrow> nat"
  oe_now :: int
  oe_latency :: "ProviderName \<Rightarrow> int option"
  oe_safeMode :: bool

record provider_call =
  pc_provider :: ProviderName
  pc_ok :: bool
  pc_latencyMs :: int

record OrchestrationService =
  os_defaultProvider :: ProviderName
  os_fallbackProvider :: "ProviderName option"
  os_providers :: "(ProviderName, unit) jsmap"
  os_maxRetries :: nat
  os_policy :: ProviderPolicy
  os_calls :: "provider_call list"
  os_sleeps :: "nat list"

definition newOrchestrationService ::
  "ProviderName \<Rightarrow> ProviderName list \<Rightarrow> ProviderName option \<Rightarrow> nat option \<Rightarrow> int option \<Rightarrow> OrchestrationService" where
  "newOrchestrationService defaultProvider providers fallback maxRetries cooldownMs =
     \<lparr>os_defaultProvider = defaultProvider, os_fallbackProvider = fallback,
      os_providers = fold (\<lambda>p. AList.update p ()) providers [],
      os_maxRetries = or_else maxRetries 2,
      os_policy = \<lparr>pp_cooldownUntil = [], pp_cooldownMs = or_else cooldownMs 30000\<rparr>,
      os_calls = [], os_sleeps = []\<rparr>"

fun isRetryable :: "thrown \<Rightarrow> bool" where
  "isRetryable (App e) = (err_code e \<in> {PROVIDER_TIMEOUT, PROVIDER_UNAVAILABLE, PROVIDER_RATE_LIMIT})"
| "isRetryable _ = False"

definition MAX_SAFE_INTEGER :: int where
  "MAX_SAFE_INTEGER = 9007199254740991"

definition by_latency :: "(ProviderName \<Rightarrow> int option) \<Rightarrow> ProviderName \<Rightarrow> ProviderName \<Rightarrow> int" where
  "by_latency stats a b = or_else (stats a) MAX_SAFE_INTEGER - or_else (stats b) MAX_SAFE_INTEGER"

definition pickAutoProvider :: "orch_env \<Rightarrow> Strategy \<Rightarrow> OrchestrationService \<Rightarrow> ProviderName" where
  "pickAutoProvider env strategy s =
     (if strategy = DefaultStrategy then os_defaultProvider s
      else
       (let available = filter (\<lambda>name. \<not> isInCooldown name (oe_now env) (os_policy s)) (keys (os_providers s))
        in if available = [] then os_defaultProvider s
           else hd (js_sort (by_latency (oe_latency env)) available)))"

text \<open>\<open>None\<close> as requested provider stands for both \<open>undefined\<close> and \<open>'auto'\<close>.\<close>

definition resolveProvider ::
  "orch_env \<Rightarrow> ProviderName option \<Rightarrow> Strategy \<Rightarrow> OrchestrationService \<Rightarrow> (thrown, ProviderName) result" where
  "resolveProvider env requested strategy s =
     (let providerName = (case requested of Some p \<Rightarrow> p | None \<Rightarrow> pickAutoProvider env strategy s)
      in if \<not> has_key (os_providers s) providerName then
           Inl (App \<lparr>err_code = PROVIDER_UNAVAILABLE,
             err_message = ''Provider not configured: '' @ provider_text providerName, err_status = 503,
             err_details = None, err_suggestion = None\<rparr>)
         else if isInCooldown providerName (oe_now env) (os_policy s) then
           Inl (App (app_error PROVIDER_UNAVAILABLE (''Provider in cooldown: '' @ provider_text providerName) 503
             [(''remainingCooldownMs'', JNum (remainingCooldownMs providerName (oe_now env) (os_policy s)))]))
         else Inr providerName)"

definition failed_attempt :: "ProviderName \<Rightarrow> bool \<Rightarrow> nat \<Rightarrow> int \<Rightarrow> thrown \<Rightarrow> ProviderTraceAttempt" where
  "failed_attempt provider viaFallback attempt latencyMs e =
     \<lparr>tr_attempt = attempt + 1, tr_provider = provider, tr_viaFallback = viaFallback, tr_ok = False,
      tr_latencyMs = latencyMs,
      tr_errorCode = Some (case e of App a \<Rightarrow> code_text (err_code a) | _ \<Rightarrow> ''INTERNAL_ERROR''),
      tr_errorMessage = Some (thrown_message e)\<rparr>"

definition record_call :: "orch_env \<Rightarrow> ProviderName \<Rightarrow> bool \<Rightarrow> OrchestrationService \<Rightarrow> OrchestrationService" where
  "record_call env provider ok s =
     (let n = length (os_calls s)
      in s\<lparr>os_calls := os_calls s @ [\<lparr>pc_provider = provider, pc_ok = ok,
                         pc_latencyMs = oe_ended env n - oe_started env n\<rparr>],
           os_policy := (if ok then markSuccess provider (os_policy s)
                         else markFailure provider (oe_ended env n) (os_policy s))\<rparr>)"

fun last_error :: "thrown \<Rightarrow> thrown" where
  "last_error (Other _) =
     App \<lparr>err_code = INTERNAL_ERROR, err_message = ''Unknown generate error'', err_status = 500,
       err_details = None, err_suggestion = None\<rparr>"
| "last_error e = e"

text \<open>
  The loop of \<open>tryGenerateWithRetry\<close>; \<open>left\<close> is \<open>maxRetries - attempt\<close>. The result carries the trace
  entries it pushes.
\<close>

fun retry_loop ::
  "orch_env \<Rightarrow> ProviderName \<Rightarrow> bool \<Rightarrow> nat \<Rightarrow> nat \<Rightarrow> OrchestrationService \<Rightarrow>
   (thrown, GenerateResult) result \<times> ProviderTraceAttempt list \<times> OrchestrationService" where
  "retry_loop env provider viaFallback attempt left s =
     (let n = length (os_calls s); latencyMs = oe_ended env n - oe_started env n
      in case oe_generate env provider n of
           Inr out \<Rightarrow>
             (Inr out,
              [\<lparr>tr_attempt = attempt + 1, tr_provider = provider, tr_viaFallback = viaFallback, tr_ok = True,
                tr_latencyMs = latencyMs, tr_errorCode = None, tr_errorMessage = None\<rparr>],
              record_call env provider True s)
         | Inl e \<Rightarrow>
             (let s' = record_call env provider False s;
                  entry = failed_attempt provider viaFallback attempt latencyMs e
              in case left of
                   0 \<Rightarrow> (Inl (last_error e), [entry], s')
                 | Suc m \<Rightarrow>
                     if \<not> isRetryable e then (Inl (last_error e), [entry], s')
                     else
                       (let backoffMs = min (300 * 2 ^ attempt + oe_jitter env n) 2000
                        in case retry_loop env provider viaFallback (attempt + 1) m
                                  (s'\<lparr>os_sleeps := os_sleeps s' @ [backoffMs]\<rparr>) of
                             (r, trace, s'') \<Rightarrow> (r, entry # trace, s''))))"

declare retry_loop.simps [simp del]

definition tryGenerateWithRetry ::
  "orch_env \<Rightarrow> ProviderName \<Rightarrow> bool \<Rightarrow> OrchestrationService \<Rightarrow>
   (thrown, GenerateResult) result \<times> ProviderTraceAttempt list \<times> OrchestrationService" where
  "tryGenerateWithRetry env provider viaFallback s =
     retry_loop env provider viaFallback 0 (os_maxRetries s) s"

definition with_trace ::
  "Strategy \<Rightarrow> ProviderName option \<Rightarrow> ProviderTraceAttempt list \<Rightarrow> GenerateResult \<Rightarrow> GenerateResult" where
  "with_trace strategy requested trace out =
     out\<lparr>gr_trace := Some (JObj [(''strategy'', JStr (strategy_text strategy)),
       (''requestedProvider'', JStr (case requested of None \<Rightarrow> ''auto'' | Some p \<Rightarrow> provider_text p)),
       (''attempts'', JArr (map attempt_json trace))])\<rparr>"

text \<open>The catch block: \<open>primary\<close> is undefined when the provider could not be resolved.\<close>

definition generate_fallback ::
  "orch_env \<Rightarrow> Strategy \<Rightarrow> ProviderName option \<Rightarrow> ProviderName option \<Rightarrow> ProviderTraceAttempt list \<Rightarrow> thrown \<Rightarrow>
   OrchestrationService \<Rightarrow> (thrown, GenerateResult) result \<times> OrchestrationService" where
  "generate_fallback env strategy requested primary trace primaryError s =
     (case os_fallbackProvider s of
        None \<Rightarrow> (Inl primaryError, s)
      | Some fallback \<Rightarrow>
          if \<not> has_key (os_providers s) fallback then (Inl primaryError, s)
          else if primary = Some fallback then (Inl primaryError, s)
          else
            (case tryGenerateWithRetry env fallback True s of
               (Inl e, _, s) \<Rightarrow> (Inl e, s)
             | (Inr out, again, s) \<Rightarrow> (Inr (with_trace strategy requested (trace @ again) out), s)))"

definition generate ::
  "orch_env \<Rightarrow> ProviderName option \<Rightarrow> Strategy option \<Rightarrow> OrchestrationService \<Rightarrow>
   (thrown, GenerateResult) result \<times> OrchestrationService" where
  "generate env requested strategy s =
     (let st = or_else strategy DefaultStrategy
      in if oe_safeMode env then
           (Inl (App \<lparr>err_code = PERMISSION_DENIED,
             err_message = ''forbidden in safe mode: generation is disabled'', err_status = 403,
             err_details = None, err_suggestion = None\<rparr>), s)
         else
           (case resolveProvider env requested st s of
              Inl e \<Rightarrow> generate_fallback env st requested None [] e s
            | Inr primary \<Rightarrow>
                (case tryGenerateWithRetry env primary False s of
                   (Inr out, trace, s) \<Rightarrow> (Inr (with_trace st requested trace out), s)
                 | (Inl e, trace, s) \<Rightarrow> generate_fallback env st requested (Some primary) trace e s)))"

definition providersHealth ::
  "(ProviderName \<Rightarrow> (thrown, json) result) \<Rightarrow> OrchestrationService \<Rightarrow> json list" where
  "providersHealth health s =
     map (\<lambda>p. case health p of
            Inr v \<Rightarrow> v
          | Inl e \<Rightarrow> JObj [(''name'', JStr (provider_text p)), (''ok'', JBool False),
              (''error'', JStr (case e of Other _ \<Rightarrow> ''Unknown provider error'' | _ \<Rightarrow> thrown_message e))])
       (keys (os_providers s))"

section \<open>What the retries guarantee\<close>

lemma record_call_fields [simp]:
  "length (os_calls (record_call env p ok s)) = Suc (length (os_calls s))"
  "os_providers (record_call env p ok s) = os_providers s"
  "os_fallbackProvider (record_call env p ok s) = os_fallbackProvider s"
  "os_maxRetries (record_call env p ok s) = os_maxRetries s"
  "os_sleeps (record_call env p ok s) = os_sleeps s"
  by (simp_all add: record_call_def Let_def)

lemma record_call_calls:
  "map pc_provider (os_calls (record_call env p ok s)) = map pc_provider (os_calls s) @ [p]"
  by (simp add: record_call_def Let_def)

definition outcomes :: "orch_env \<Rightarrow> ProviderName \<Rightarrow> nat \<Rightarrow> nat \<Rightarrow> (thrown, GenerateResult) result list" where
  "outcomes env p start k = map (oe_generate env p) [start..<start + k]"

definition may_retry :: "(thrown, GenerateResult) result \<Rightarrow> bool" where
  "may_retry r = (case r of Inl e \<Rightarrow> isRetryable e | Inr _ \<Rightarrow> False)"

lemma retry_loop_spec:
  "retry_loop env p fb attempt left s = (r, trace, s') \<Longrightarrow>
    \<exists>k. 1 \<le> k \<and> k \<le> left + 1 \<and> length trace = k \<and>
      map pc_provider (os_calls s') = map pc_provider (os_calls s) @ replicate k p \<and>
      (\<forall>i < k - 1. may_retry (outcomes env p (length (os_calls s)) k ! i)) \<and>
      r = (case last (outcomes env p (length (os_calls s)) k) of Inl e \<Rightarrow> Inl (last_error e) | Inr x \<Rightarrow> Inr x) \<and>
      (\<forall>e. last (outcomes env p (length (os_calls s)) k) = Inl e \<longrightarrow> isRetryable e \<longrightarrow> k = left + 1) \<and>
      map tr_ok trace = map is_ok (outcomes env p (length (os_calls s)) k) \<and>
      (\<forall>t \<in> set trace. tr_provider t = p \<and> tr_viaFallback t = fb) \<and>
      map tr_attempt trace = [Suc attempt..<Suc attempt + k] \<and>
      os_sleeps s' = os_sleeps s @ map (\<lambda>i. min (300 * 2 ^ (attempt + i) + oe_jitter env (length (os_calls s) + i)) 2000) [0..<k - 1] \<and>
      os_providers s' = os_providers s \<and> os_fallbackProvider s' = os_fallbackProvider s \<and>
      os_maxRetries s' = os_maxRetries s"
proof (induction left arbitrary: attempt s r trace s')
  case 0
  then show ?case
    by (intro exI [of _ 1])
       (auto simp: retry_loop.simps Let_def outcomes_def record_call_calls failed_attempt_def
          split: sum.splits)
next
  case (Suc left)
  let ?n = "length (os_calls s)"
  show ?case
  proof (cases "\<exists>e. oe_generate env p ?n = Inl e \<and> isRetryable e")
    case False
    with Suc.prems show ?thesis
      by (intro exI [of _ 1])
         (auto simp: retry_loop.simps Let_def outcomes_def record_call_calls failed_attempt_def
            split: sum.splits)
  next
    case True
    then obtain e where e: "oe_generate env p ?n = Inl e" "isRetryable e" by blast
    let ?s1 = "record_call env p False s"
    let ?s2 = "?s1\<lparr>os_sleeps := os_sleeps ?s1 @ [min (300 * 2 ^ attempt + oe_jitter env ?n) 2000]\<rparr>"
    let ?entry = "failed_attempt p fb attempt (oe_ended env ?n - oe_started env ?n) e"
    obtain tr2 where rest: "retry_loop env p fb (Suc attempt) left ?s2 = (r, tr2, s')" and tr: "trace = ?entry # tr2"
      using Suc.prems e by (simp add: retry_loop.simps [of env p fb attempt] Let_def split: prod.splits)
    from Suc.IH [OF rest] obtain k where k: "1 \<le> k" "k \<le> left + 1" "length tr2 = k"
      "map pc_provider (os_calls s') = map pc_provider (os_calls ?s2) @ replicate k p"
      "\<forall>i < k - 1. may_retry (outcomes env p (Suc ?n) k ! i)"
      "r = (case last (outcomes env p (Suc ?n) k) of Inl e \<Rightarrow> Inl (last_error e) | Inr x \<Rightarrow> Inr x)"
      "\<forall>e. last (outcomes env p (Suc ?n) k) = Inl e \<longrightarrow> isRetryable e \<longrightarrow> k = left + 1"
      "map tr_ok tr2 = map is_ok (outcomes env p (Suc ?n) k)"
      "\<forall>t \<in> set tr2. tr_provider t = p \<and> tr_viaFallback t = fb"
      "map tr_attempt tr2 = [Suc (Suc attempt)..<Suc (Suc attempt) + k]"
      "os_sleeps s' = os_sleeps ?s2 @ map (\<lambda>i. min (300 * 2 ^ (Suc attempt + i) + oe_jitter env (Suc ?n + i)) 2000) [0..<k - 1]"
      "os_providers s' = os_providers s" "os_fallbackProvider s' = os_fallbackProvider s"
      "os_maxRetries s' = os_maxRetries s" by auto
    have out: "outcomes env p ?n (Suc k) = Inl e # outcomes env p (Suc ?n) k"
      using e by (simp add: outcomes_def upt_conv_Cons del: upt_Suc)
    have ne: "outcomes env p (Suc ?n) k \<noteq> []" using k(1) by (simp add: outcomes_def)
    have sleeps: "[0..<k] = 0 # map Suc [0..<k - 1]" using k(1) by (simp add: map_Suc_upt upt_conv_Cons)
    show ?thesis
    proof (intro exI [of _ "Suc k"] conjI)
      show "\<forall>i < Suc k - 1. may_retry (outcomes env p ?n (Suc k) ! i)"
        using k(5) e(2) by (auto simp: out nth_Cons may_retry_def split: nat.splits)
      show "os_sleeps s' = os_sleeps s @ map (\<lambda>i. min (300 * 2 ^ (attempt + i) + oe_jitter env (?n + i)) 2000) [0..<Suc k - 1]"
        by (simp add: k(11) sleeps comp_def)
      show "map tr_attempt trace = [Suc attempt..<Suc attempt + Suc k]"
        using k(10) by (simp add: tr failed_attempt_def upt_conv_Cons del: upt_Suc)
    qed (use k ne e in \<open>auto simp: tr out record_call_calls failed_attempt_def\<close>)
  qed
qed

lemma fallback_calls:
  assumes "generate_fallback env st req primary trace e s = (r, s')"
  shows "(r = Inl e \<and> s' = s) \<or>
    (\<exists>f m. os_fallbackProvider s = Some f \<and> has_key (os_providers s) f \<and> primary \<noteq> Some f \<and>
       1 \<le> m \<and> m \<le> os_maxRetries s + 1 \<and>
       map pc_provider (os_calls s') = map pc_provider (os_calls s) @ replicate m f)"
proof (cases "\<exists>f. os_fallbackProvider s = Some f \<and> has_key (os_providers s) f \<and> primary \<noteq> Some f")
  case False
  with assms show ?thesis by (auto simp: generate_fallback_def split: option.splits if_splits)
next
  case True
  then obtain f where f: "os_fallbackProvider s = Some f" "has_key (os_providers s) f" "primary \<noteq> Some f" by blast
  obtain r2 tr2 s2 where run: "tryGenerateWithRetry env f True s = (r2, tr2, s2)" by (metis prod_cases3)
  have "s' = s2" using assms f run by (auto simp: generate_fallback_def split: sum.splits)
  then show ?thesis
    using retry_loop_spec [OF run [unfolded tryGenerateWithRetry_def]] f by blast
qed

section \<open>Properties\<close>

text \<open>
  C25: one generation calls providers at most \<open>2 * (maxRetries + 1)\<close> times: first only the resolved
  provider, which is configured and not in cooldown, then only the configured fallback, which is another
  one; in safe mode it calls none.
\<close>

theorem generate_calls_bounded:
  assumes "generate env requested strategy s = (r, s')"
  shows "\<exists>k m p f. map pc_provider (os_calls s') = map pc_provider (os_calls s) @ replicate k p @ replicate m f \<and>
    k \<le> os_maxRetries s + 1 \<and> m \<le> os_maxRetries s + 1 \<and>
    (0 < k \<longrightarrow> resolveProvider env requested (or_else strategy DefaultStrategy) s = Inr p \<and>
       has_key (os_providers s) p \<and> \<not> isInCooldown p (oe_now env) (os_policy s)) \<and>
    (0 < m \<longrightarrow> os_fallbackProvider s = Some f \<and> has_key (os_providers s) f \<and> (0 < k \<longrightarrow> f \<noteq> p)) \<and>
    (oe_safeMode env \<longrightarrow> k = 0 \<and> m = 0)"
proof (cases "oe_safeMode env")
  case True
  with assms show ?thesis by (intro exI [of _ 0]) (simp add: generate_def Let_def)
next
  case live: False
  let ?st = "or_else strategy DefaultStrategy"
  show ?thesis
  proof (cases "resolveProvider env requested ?st s")
    case (Inl e)
    then have run: "generate_fallback env ?st requested None [] e s = (r, s')"
      using assms live by (simp add: generate_def)
    from fallback_calls [OF this] show ?thesis
    proof (elim disjE exE conjE)
      assume "r = Inl e" "s' = s"
      then show ?thesis using live by (intro exI [of _ 0]) simp
    next
      fix f m
      assume "os_fallbackProvider s = Some f" "has_key (os_providers s) f" "m \<le> os_maxRetries s + 1"
        "map pc_provider (os_calls s') = map pc_provider (os_calls s) @ replicate m f"
      then show ?thesis using live by (intro exI [of _ 0] exI [of _ m] exI [of _ undefined] exI [of _ f]) simp
    qed
  next
    case (Inr p)
    then have p: "has_key (os_providers s) p" "\<not> isInCooldown p (oe_now env) (os_policy s)"
      by (auto simp: resolveProvider_def Let_def split: if_splits option.splits)
    obtain r1 tr1 s1 where first: "tryGenerateWithRetry env p False s = (r1, tr1, s1)" by (metis prod_cases3)
    from retry_loop_spec [OF first [unfolded tryGenerateWithRetry_def]] obtain k where
      k: "1 \<le> k" "k \<le> os_maxRetries s + 1"
        "map pc_provider (os_calls s1) = map pc_provider (os_calls s) @ replicate k p"
      and same: "os_providers s1 = os_providers s" "os_fallbackProvider s1 = os_fallbackProvider s"
        "os_maxRetries s1 = os_maxRetries s" by blast
    show ?thesis
    proof (cases r1)
      case (Inr out)
      then have "s' = s1" using assms live first \<open>resolveProvider env requested ?st s = Inr p\<close>
        by (simp add: generate_def)
      then show ?thesis using k p live \<open>resolveProvider env requested ?st s = Inr p\<close>
        by (intro exI [of _ k] exI [of _ 0] exI [of _ p]) simp
    next
      case (Inl e)
      then have "generate_fallback env ?st requested (Some p) tr1 e s1 = (r, s')"
        using assms live first \<open>resolveProvider env requested ?st s = Inr p\<close> by (simp add: generate_def)
      from fallback_calls [OF this] show ?thesis
      proof (elim disjE exE conjE)
        assume "r = Inl e" "s' = s1"
        then show ?thesis using k p live \<open>resolveProvider env requested ?st s = Inr p\<close>
          by (intro exI [of _ k] exI [of _ 0] exI [of _ p]) simp
      next
        fix f m
        assume "os_fallbackProvider s1 = Some f" "has_key (os_providers s1) f" "Some p \<noteq> Some f"
          "m \<le> os_maxRetries s1 + 1"
          "map pc_provider (os_calls s') = map pc_provider (os_calls s1) @ replicate m f"
        then show ?thesis using k p same live \<open>resolveProvider env requested ?st s = Inr p\<close>
          by (intro exI [of _ k] exI [of _ m] exI [of _ p] exI [of _ f]) auto
      qed
    qed
  qed
qed

definition demo_orch_env :: orch_env where
  "demo_orch_env = \<lparr>oe_generate = (\<lambda>p n. Inl (App (app_error PROVIDER_TIMEOUT ''slow'' 504 []))),
     oe_started = int, oe_ended = (\<lambda>n. int n + 1), oe_jitter = (\<lambda>_. 0), oe_now = 5, oe_latency = (\<lambda>_. None),
     oe_safeMode = False\<rparr>"

definition demo_service :: OrchestrationService where
  "demo_service = (newOrchestrationService Ollama [Ollama] (Some Ollama) (Some 1) None)
     \<lparr>os_policy := \<lparr>pp_cooldownUntil = [(Ollama, 9)], pp_cooldownMs = 30000\<rparr>\<rparr>"

lemma generate_calls_bounded_witness:
  "\<exists>k m p f. map pc_provider (os_calls (snd (generate demo_orch_env None None demo_service))) =
     replicate k p @ replicate m f \<and> k + m \<le> 4"
proof -
  have "os_calls demo_service = []" "os_maxRetries demo_service = 1"
    by (simp_all add: demo_service_def newOrchestrationService_def)
  with generate_calls_bounded [OF prod.collapse [symmetric], of demo_orch_env None None demo_service]
  show ?thesis by (metis add_mono_thms_linordered_semiring(1) append_Nil list.simps(8) nat_1_add_1 numeral_Bit0)
qed

text \<open>
  The fallback is called without regard to its cooldown. When the provider that is asked for is in
  cooldown and is itself the configured fallback, its request is refused and it is then called anyway, up
  to \<open>maxRetries + 1\<close> times.
\<close>

theorem fallback_ignores_cooldown:
  assumes "\<not> oe_safeMode env" and "os_fallbackProvider s = Some f" and "has_key (os_providers s) f"
    and "isInCooldown f (oe_now env) (os_policy s)"
    and "generate env (Some f) strategy s = (r, s')"
  shows "\<not> is_ok (resolveProvider env (Some f) (or_else strategy DefaultStrategy) s) \<and>
    (\<exists>m. 1 \<le> m \<and> m \<le> os_maxRetries s + 1 \<and>
       map pc_provider (os_calls s') = map pc_provider (os_calls s) @ replicate m f)"
proof -
  obtain e where e: "resolveProvider env (Some f) (or_else strategy DefaultStrategy) s = Inl e"
    using assms(3,4) by (simp add: resolveProvider_def Let_def)
  obtain r2 tr2 s2 where run: "tryGenerateWithRetry env f True s = (r2, tr2, s2)" by (metis prod_cases3)
  have "s' = s2"
    using assms(1,2,3,5) e run by (auto simp: generate_def generate_fallback_def split: sum.splits)
  then show ?thesis
    using retry_loop_spec [OF run [unfolded tryGenerateWithRetry_def]] e by auto
qed

lemma fallback_ignores_cooldown_witness:
  "\<exists>m. 1 \<le> m \<and> map pc_provider (os_calls (snd (generate demo_orch_env (Some Ollama) None demo_service))) =
     replicate m Ollama"
proof -
  have "os_calls demo_service = []"
    by (simp add: demo_service_def newOrchestrationService_def)
  moreover have "\<not> oe_safeMode demo_orch_env" "os_fallbackProvider demo_service = Some Ollama"
    "has_key (os_providers demo_service) Ollama" "isInCooldown Ollama (oe_now demo_orch_env) (os_policy demo_service)"
    by (simp_all add: demo_service_def newOrchestrationService_def demo_orch_env_def isInCooldown_def
        cooldown_until_def has_key_def)
  ultimately show ?thesis
    using fallback_ignores_cooldown [OF _ _ _ _ prod.collapse [symmetric], of demo_orch_env demo_service Ollama None]
    by auto
qed

end
