(* ===== verification/TaskLoop.thy ===== *)
theory TaskLoop
  imports Orchestration JsonRoundtrip
begin

text \<open>
  The bounded loop of an agent run and the executor around one provider call
  (\<open>modules/orchestration/task-executor.ts\<close>): loop limits, task events on the chain, and the reuse of a
  recorded result. The same local loop is what \<open>mcp/tools/loop-step.ts\<close> falls back to.

  The Rust loop is the field \<open>te_adapter\<close> (absent when the bridge is not there); appending to the chain
  is the function \<open>tv_append\<close> that says which event is stored; identifiers, times, SHA-256 and
  \<open>localeCompare\<close> are fields of the environment.
\<close>

section \<open>The loop\<close>

record SoulLoopState =
  sl_steps :: int
  sl_tool_calls :: int
  sl_wait_ms :: int
  sl_errors :: int
  sl_completed :: bool
  sl_halt_reason :: "string option"

datatype SoulLoopAction = ToolCall string | Wait int | Complete string | ErrorAction bool string

record SoulLoopLimits =
  ll_max_steps :: int
  ll_max_tool_calls :: int
  ll_max_wait_ms :: int
  ll_max_errors :: int

record SoulLoopStepResult =
  sr_applied :: bool
  sr_reason :: "string option"
  sr_state :: SoulLoopState

definition DEFAULT_LOOP_LIMITS :: SoulLoopLimits where
  "DEFAULT_LOOP_LIMITS = \<lparr>ll_max_steps = 32, ll_max_tool_calls = 16, ll_max_wait_ms = 120000, ll_max_errors = 4\<rparr>"

definition DEFAULT_LOOP_STATE :: SoulLoopState where
  "DEFAULT_LOOP_STATE = \<lparr>sl_steps = 0, sl_tool_calls = 0, sl_wait_ms = 0, sl_errors = 0, sl_completed = False,
     sl_halt_reason = None\<rparr>"

definition halted :: "SoulLoopState \<Rightarrow> bool" where
  "halted s \<longleftrightarrow> sl_completed s \<or> (sl_halt_reason s \<noteq> None \<and> sl_halt_reason s \<noteq> Some '''')"

definition rejected :: "string \<Rightarrow> SoulLoopState \<Rightarrow> SoulLoopStepResult" where
  "rejected reason s = \<lparr>sr_applied = False, sr_reason = Some reason, sr_state = s\<lparr>sl_halt_reason := Some reason\<rparr>\<rparr>"

definition accepted :: "SoulLoopState \<Rightarrow> SoulLoopStepResult" where
  "accepted s = \<lparr>sr_applied = True, sr_reason = None, sr_state = s\<rparr>"

definition applyFallbackLoopStep ::
  "SoulLoopState \<Rightarrow> SoulLoopAction \<Rightarrow> SoulLoopLimits \<Rightarrow> SoulLoopStepResult" where
  "applyFallbackLoopStep state action limits =
     (let next = state\<lparr>sl_steps := sl_steps state + 1\<rparr>
      in if halted next then \<lparr>sr_applied = False, sr_reason = Some ''loop_already_halted'', sr_state = next\<rparr>
         else if sl_steps next > ll_max_steps limits then rejected ''max_steps_exceeded'' next
         else (case action of
             ToolCall tool \<Rightarrow>
               (let next = next\<lparr>sl_tool_calls := sl_tool_calls next + 1\<rparr>
                in if sl_tool_calls next > ll_max_tool_calls limits then rejected ''max_tool_calls_exceeded'' next
                   else accepted next)
           | Wait duration_ms \<Rightarrow>
               (let next = next\<lparr>sl_wait_ms := sl_wait_ms next + max 0 duration_ms\<rparr>
                in if sl_wait_ms next > ll_max_wait_ms limits then rejected ''max_wait_exceeded'' next
                   else accepted next)
           | ErrorAction recoverable message \<Rightarrow>
               (let next = next\<lparr>sl_errors := sl_errors next + 1\<rparr>
                in if sl_errors next > ll_max_errors limits then rejected ''max_errors_exceeded'' next
                   else if \<not> recoverable then
                     accepted (next\<lparr>sl_completed := True, sl_halt_reason := Some ''non_recoverable_error''\<rparr>)
                   else accepted next)
           | Complete summary \<Rightarrow> accepted (next\<lparr>sl_completed := True\<rparr>)))"

section \<open>Results on the chain\<close>

fun provider_of_text :: "string \<Rightarrow> ProviderName option" where
  "provider_of_text s =
     (if s = ''shared-llm'' then Some SharedLlm
      else if s = ''decentralized-llm'' then Some DecentralizedLlm
      else if s = ''local-fallback'' then Some LocalFallback
      else if s = ''ollama'' then Some Ollama
      else None)"

definition asProviderName :: "json option \<Rightarrow> ProviderName option" where
  "asProviderName v = Option.bind (jstring v) provider_of_text"

definition object_field :: "json \<Rightarrow> string \<Rightarrow> json option" where
  "object_field v k = (case jfield v k of Some x \<Rightarrow> if is_object x then Some x else None | None \<Rightarrow> None)"

definition asGenerateResult :: "json option \<Rightarrow> GenerateResult option" where
  "asGenerateResult value =
     (case value of
        None \<Rightarrow> None
      | Some v \<Rightarrow>
          if \<not> is_object v then None
          else (case (asProviderName (jfield v ''providerUsed''), jstring (jfield v ''id''),
                      jstring (jfield v ''output''), jnumber (jfield v ''timingMs'')) of
             (Some p, Some i, Some out, Some t) \<Rightarrow>
               if i = '''' \<or> t < 0 then None
               else Some \<lparr>gr_id = i, gr_providerUsed = p, gr_modelUsed = jstring (jfield v ''modelUsed''),
                          gr_output = out, gr_usage = object_field v ''usage'', gr_timingMs = t,
                          gr_trace = object_field v ''trace''\<rparr>
           | _ \<Rightarrow> None))"

definition opt_json :: "string \<Rightarrow> json option \<Rightarrow> (string \<times> json) list" where
  "opt_json k v = (case v of None \<Rightarrow> [] | Some x \<Rightarrow> [(k, x)])"

definition result_json :: "GenerateResult \<Rightarrow> json" where
  "result_json r =
     JObj ([(''id'', JStr (gr_id r)), (''providerUsed'', JStr (provider_text (gr_providerUsed r)))]
           @ opt_field ''modelUsed'' (gr_modelUsed r) @ [(''output'', JStr (gr_output r))]
           @ opt_json ''usage'' (gr_usage r) @ [(''timingMs'', JNum (gr_timingMs r))]
           @ opt_json ''trace'' (gr_trace r))"

record TaskEventCorrelation =
  tc_taskId :: string
  tc_runId :: string
  tc_agentId :: string
  tc_toolCallId :: "string option"

definition correlation_json :: "TaskEventCorrelation \<Rightarrow> json" where
  "correlation_json c =
     JObj [(''taskId'', JStr (tc_taskId c)), (''runId'', JStr (tc_runId c)), (''agentId'', JStr (tc_agentId c)),
           (''toolCallId'', (case tc_toolCallId c of None \<Rightarrow> JNull | Some t \<Rightarrow> JStr t))]"

definition PROVIDER_TOOL :: string where
  "PROVIDER_TOOL = ''provider.generate''"

text \<open>A chain file holds a block; the directory maps file names to contents.\<close>

definition cached_in :: "string \<Rightarrow> string \<Rightarrow> string \<Rightarrow> GenerateResult option" where
  "cached_in runId toolCallId raw =
     (case JSON_parse raw of
        None \<Rightarrow> None
      | Some block \<Rightarrow>
          (case Option.bind (jfield block ''data'') (\<lambda>d. jstring (jfield d ''content'')) of
             None \<Rightarrow> None
           | Some text \<Rightarrow>
               (case JSON_parse text of
                  None \<Rightarrow> None
                | Some envelope \<Rightarrow>
                    if jfield envelope ''event'' \<noteq> Some (JStr ''task.tool_result'') then None
                    else if Option.bind (jfield envelope ''correlation'') (\<lambda>c. jfield c ''runId'') \<noteq> Some (JStr runId) then None
                    else if Option.bind (jfield envelope ''correlation'') (\<lambda>c. jfield c ''toolCallId'') \<noteq> Some (JStr toolCallId) then None
                    else asGenerateResult (Option.bind (jfield envelope ''payload'') (\<lambda>p. jfield p ''result'')))))"

fun first_some :: "('a \<Rightarrow> 'b option) \<Rightarrow> 'a list \<Rightarrow> 'b option" where
  "first_some f [] = None"
| "first_some f (x # xs) = (case f x of Some y \<Rightarrow> Some y | None \<Rightarrow> first_some f xs)"

definition findCachedResult ::
  "(string \<Rightarrow> string \<Rightarrow> int) \<Rightarrow> (string, string) jsmap option \<Rightarrow> string \<Rightarrow> string \<Rightarrow> GenerateResult option" where
  "findCachedResult lc dir runId toolCallId =
     (case dir of
        None \<Rightarrow> None
      | Some d \<Rightarrow>
          first_some (\<lambda>name. Option.bind (map_of d name) (cached_in runId toolCallId))
            (js_sort (\<lambda>a b. lc b a) (filter (\<lambda>name. ends_with name ''.json'') (keys d))))"

section \<open>The executor\<close>

record TaskExecutionRequest =
  tq_input :: string
  tq_provider :: "ProviderName option"
  tq_strategy :: "Strategy option"
  tq_taskId :: "string option"
  tq_runId :: "string option"
  tq_source :: "string option"
  tq_agentId :: "string option"
  tq_enableReplayDedupe :: "bool option"

record task_env =
  tv_id :: "nat \<Rightarrow> string"
  tv_now :: "nat \<Rightarrow> string"
  tv_sha256 :: "string \<Rightarrow> string"
  tv_locale :: "string \<Rightarrow> string \<Rightarrow> int"
  tv_skipChain :: bool
  tv_append :: "nat \<Rightarrow> bool"
  tv_chainDir :: "(string, string) jsmap option"

record chain_event =
  ce_type :: string
  ce_envelope :: json
  ce_tags :: "string list"

record TaskExecutor =
  te_adapter :: "(SoulLoopState \<Rightarrow> SoulLoopAction \<Rightarrow> SoulLoopLimits \<Rightarrow> (string, SoulLoopStepResult) result) option"
  te_ids :: nat
  te_times :: nat
  te_attempts :: nat
  te_events :: "chain_event list"
  te_audit :: "string list"
  te_calls :: nat

definition applyLoopStep ::
  "SoulLoopState \<Rightarrow> SoulLoopAction \<Rightarrow> TaskExecutor \<Rightarrow> SoulLoopStepResult \<times> TaskExecutor" where
  "applyLoopStep state action t =
     (case te_adapter t of
        None \<Rightarrow> (applyFallbackLoopStep state action DEFAULT_LOOP_LIMITS, t)
      | Some adapter \<Rightarrow>
          (case adapter state action DEFAULT_LOOP_LIMITS of
             Inr r \<Rightarrow> (r, t)
           | Inl e \<Rightarrow>
               (applyFallbackLoopStep state action DEFAULT_LOOP_LIMITS,
                t\<lparr>te_adapter := None, te_audit := te_audit t @ [''task_executor.soul_loop_step'']\<rparr>)))"

definition emit ::
  "task_env \<Rightarrow> string \<Rightarrow> string \<Rightarrow> TaskEventCorrelation \<Rightarrow> (string \<times> json) list \<Rightarrow> TaskExecutor \<Rightarrow> TaskExecutor" where
  "emit env blockType event c payload t =
     (if tv_skipChain env then t
      else
        (let envelope = JObj [(''schemaVersion'', JNum 1), (''eventId'', JStr (tv_id env (te_ids t))),
               (''timestamp'', JStr (tv_now env (te_times t))), (''event'', JStr event),
               (''correlation'', correlation_json c), (''payload'', JObj payload)];
             tags = [''event:'' @ event, ''task:'' @ tc_taskId c, ''run:'' @ tc_runId c]
               @ (case tc_toolCallId c of None \<Rightarrow> [] | Some tid \<Rightarrow> if tid = '''' then [] else [''tool_call:'' @ tid]);
             t' = t\<lparr>te_ids := te_ids t + 1, te_times := te_times t + 1, te_attempts := te_attempts t + 1\<rparr>
         in if tv_append env (te_attempts t) then
              t'\<lparr>te_events := te_events t @ [\<lparr>ce_type = blockType, ce_envelope = envelope, ce_tags = tags\<rparr>]\<rparr>
            else t'\<lparr>te_audit := te_audit t @ [''task_executor.chain_event'']\<rparr>))"

text \<open>What \<open>emit\<close> hands to \<open>appendChain\<close>.\<close>

definition event_block_data :: "chain_event \<Rightarrow> json" where
  "event_block_data e =
     JObj [(''type'', JStr (ce_type e)), (''content'', JStr (JSON_stringify (ce_envelope e))),
           (''tags'', JArr (map JStr (ce_tags e)))]"

definition fresh_id :: "task_env \<Rightarrow> string option \<Rightarrow> string \<Rightarrow> TaskExecutor \<Rightarrow> string \<times> TaskExecutor" where
  "fresh_id env given prefix t =
     (case given of Some x \<Rightarrow> (x, t)
      | None \<Rightarrow> (prefix @ tv_id env (te_ids t), t\<lparr>te_ids := te_ids t + 1\<rparr>))"

definition loop_state_json :: "SoulLoopState \<Rightarrow> json" where
  "loop_state_json s =
     JObj [(''steps'', JNum (sl_steps s)), (''tool_calls'', JNum (sl_tool_calls s)), (''wait_ms'', JNum (sl_wait_ms s)),
           (''errors'', JNum (sl_errors s)), (''completed'', JBool (sl_completed s)),
           (''halt_reason'', (case sl_halt_reason s of None \<Rightarrow> JNull | Some r \<Rightarrow> JStr r))]"

definition fail_task ::
  "task_env \<Rightarrow> TaskEventCorrelation \<Rightarrow> SoulLoopState \<Rightarrow> thrown \<Rightarrow> TaskExecutor \<Rightarrow>
   (thrown, GenerateResult) result \<times> TaskExecutor" where
  "fail_task env c loopState e t =
     (case applyLoopStep loopState (ErrorAction False (thrown_message e)) t of
        (step, t) \<Rightarrow>
          (Inl e, emit env ''error'' ''task.error'' c
             [(''message'', JStr (thrown_message e)), (''loopState'', loop_state_json (sr_state step))] t))"

definition loop_rejected :: "string \<Rightarrow> SoulLoopStepResult \<Rightarrow> thrown" where
  "loop_rejected phase r = plain_error (''task loop rejected '' @ phase @ '': '' @ or_else (sr_reason r) ''unknown'')"

definition reject_event ::
  "task_env \<Rightarrow> TaskEventCorrelation \<Rightarrow> string \<Rightarrow> SoulLoopStepResult \<Rightarrow> TaskExecutor \<Rightarrow> TaskExecutor" where
  "reject_event env c phase r t =
     emit env ''error'' ''task.loop_step_rejected'' c
       [(''phase'', JStr phase), (''reason'', JStr (or_else (sr_reason r) ''unknown''))] t"

text \<open>The part of \<open>execute\<close> after the result is there: complete the loop and report.\<close>

definition complete_task ::
  "task_env \<Rightarrow> TaskEventCorrelation \<Rightarrow> string \<Rightarrow> bool \<Rightarrow> SoulLoopState \<Rightarrow> GenerateResult \<Rightarrow> TaskExecutor \<Rightarrow>
   (thrown, GenerateResult) result \<times> TaskExecutor" where
  "complete_task env c source dedupe loopState result t =
     (case applyLoopStep loopState (Complete (take 120 (gr_output result))) t of
        (step, t) \<Rightarrow>
          if \<not> sr_applied step then
            fail_task env c (sr_state step) (loop_rejected ''complete'' step) (reject_event env c ''complete'' step t)
          else
            (Inr result, emit env ''system_event'' ''task.completed'' c
               [(''source'', JStr source), (''providerUsed'', JStr (provider_text (gr_providerUsed result))),
                (''modelUsed'', (case gr_modelUsed result of None \<Rightarrow> JNull | Some m \<Rightarrow> JStr m)),
                (''replayedToolResult'', JBool dedupe)] t))"

text \<open>\<open>run\<close> is what \<open>runProviderGenerate\<close> answers; \<open>te_calls\<close> counts how often it is called.\<close>

definition obtain_result ::
  "task_env \<Rightarrow> TaskEventCorrelation \<Rightarrow> string \<Rightarrow> string \<Rightarrow> bool \<Rightarrow> SoulLoopState \<Rightarrow> (thrown, GenerateResult) result \<Rightarrow>
   TaskExecutor \<Rightarrow> (thrown, GenerateResult) result \<times> TaskExecutor" where
  "obtain_result env c source toolCallId dedupe loopState run t =
     (let tool = c\<lparr>tc_toolCallId := Some toolCallId\<rparr>;
          cached = (if dedupe then findCachedResult (tv_locale env) (tv_chainDir env) (tc_runId c) toolCallId else None)
      in case cached of
           Some result \<Rightarrow>
             complete_task env c source dedupe loopState result
               (emit env ''system_event'' ''task.tool_result.reused'' tool
                  [(''tool'', JStr PROVIDER_TOOL), (''providerUsed'', JStr (provider_text (gr_providerUsed result)))] t)
         | None \<Rightarrow>
             (let t = t\<lparr>te_calls := te_calls t + 1\<rparr>
              in case run of
                   Inl e \<Rightarrow> fail_task env c loopState e t
                 | Inr result \<Rightarrow>
                     complete_task env c source dedupe loopState result
                       (emit env ''tool_result'' ''task.tool_result'' tool
                          [(''tool'', JStr PROVIDER_TOOL), (''result'', result_json result)] t)))"

definition execute_task ::
  "task_env \<Rightarrow> TaskExecutionRequest \<Rightarrow> (thrown, GenerateResult) result \<Rightarrow> TaskExecutor \<Rightarrow>
   (thrown, GenerateResult) result \<times> TaskExecutor" where
  "execute_task env req run t =
     (case fresh_id env (tq_taskId req) ''task_'' t of
        (taskId, t) \<Rightarrow>
          (case fresh_id env (tq_runId req) ''run_'' t of
             (runId, t) \<Rightarrow>
               (let source = or_else (tq_source req) ''orchestration.generate'';
                    agentId = or_else (tq_agentId req) ''orchestrator'';
                    toolCallId = ''tool:'' @ PROVIDER_TOOL @ '':'' @ runId;
                    c = \<lparr>tc_taskId = taskId, tc_runId = runId, tc_agentId = agentId, tc_toolCallId = None\<rparr>;
                    inputDigest = tv_sha256 env (tq_input req);
                    dedupe = or_else (tq_enableReplayDedupe req) (tq_runId req \<noteq> None \<and> tq_runId req \<noteq> Some '''');
                    t = emit env ''system_event'' ''task.created'' c
                          [(''source'', JStr source),
                           (''providerRequested'', JStr (case tq_provider req of None \<Rightarrow> ''auto'' | Some p \<Rightarrow> provider_text p)),
                           (''strategy'', JStr (strategy_text (or_else (tq_strategy req) DefaultStrategy))),
                           (''inputDigest'', JStr inputDigest), (''replayDedupeEnabled'', JBool dedupe)] t
                in case applyLoopStep DEFAULT_LOOP_STATE (ToolCall PROVIDER_TOOL) t of
                     (step, t) \<Rightarrow>
                       if \<not> sr_applied step then
                         (Inl (loop_rejected ''tool_call'' step), reject_event env c ''tool_call'' step t)
                       else
                         obtain_result env c source toolCallId dedupe (sr_state step) run
                           (emit env ''tool_call'' ''task.tool_call'' (c\<lparr>tc_toolCallId := Some toolCallId\<rparr>)
                              [(''tool'', JStr PROVIDER_TOOL), (''inputDigest'', JStr inputDigest)] t))))"

section \<open>The mirror of the loop in the MCP tool\<close>

text \<open>The counters are integers. In the source they are doubles, which agree with them below 2^53 in absolute value.\<close>

definition applyLoopStepTs ::
  "SoulLoopState \<Rightarrow> SoulLoopAction \<Rightarrow> SoulLoopLimits option \<Rightarrow> SoulLoopStepResult" where
  "applyLoopStepTs state action limits =
     (let lim = or_else limits DEFAULT_LOOP_LIMITS
      in if halted state then \<lparr>sr_applied = False, sr_reason = Some ''loop_already_halted'', sr_state = state\<rparr>
         else
           (let s = state\<lparr>sl_steps := sl_steps state + 1\<rparr>
            in if sl_steps s > ll_max_steps lim then rejected ''max_steps_exceeded'' s
               else (case action of
                   ToolCall tool \<Rightarrow>
                     (let s = s\<lparr>sl_tool_calls := sl_tool_calls s + 1\<rparr>
                      in if sl_tool_calls s > ll_max_tool_calls lim then rejected ''max_tool_calls_exceeded'' s
                         else accepted s)
                 | Wait duration_ms \<Rightarrow>
                     (let s = s\<lparr>sl_wait_ms := sl_wait_ms s + duration_ms\<rparr>
                      in if sl_wait_ms s > ll_max_wait_ms lim then rejected ''max_wait_exceeded'' s
                         else accepted s)
                 | ErrorAction recoverable message \<Rightarrow>
                     (let s = s\<lparr>sl_errors := sl_errors s + 1\<rparr>
                      in if sl_errors s > ll_max_errors lim then rejected ''max_errors_exceeded'' s
                         else if \<not> recoverable then
                           accepted (s\<lparr>sl_completed := True, sl_halt_reason := Some ''non_recoverable_error''\<rparr>)
                         else accepted s)
                 | Complete summary \<Rightarrow> accepted (s\<lparr>sl_completed := True\<rparr>))))"

definition runMemphisLoopStep ::
  "(SoulLoopState \<Rightarrow> SoulLoopAction \<Rightarrow> SoulLoopLimits option \<Rightarrow> (string, SoulLoopStepResult) result) \<Rightarrow>
   SoulLoopState \<Rightarrow> SoulLoopAction \<Rightarrow> SoulLoopLimits option \<Rightarrow> SoulLoopStepResult" where
  "runMemphisLoopStep adapter state action limits =
     (case adapter state action limits of
        Inr r \<Rightarrow> r
      | Inl _ \<Rightarrow> applyLoopStepTs state action limits)"

end
