(* ===== verification/TaskLoopLaws.thy ===== *)
theory TaskLoopLaws
  imports TaskLoop ChainAdapter "HOL-Library.Word"
begin

text \<open>
  What bounds an agent run: the local loop enforces every limit and stops for good; its mirror in the MCP
  tool agrees with the Rust engine (\<open>crates/memphis-core/src/loop_engine.rs\<close>, modelled here on machine
  words) as long as durations are not negative; the executor calls the provider at most once.
\<close>

section \<open>Limits of the local loop\<close>

fun applied_actions ::
  "(SoulLoopState \<Rightarrow> SoulLoopAction \<Rightarrow> SoulLoopStepResult) \<Rightarrow> SoulLoopState \<Rightarrow> SoulLoopAction list \<Rightarrow> SoulLoopAction list" where
  "applied_actions step s [] = []"
| "applied_actions step s (a # as) =
     (let r = step s a
      in (if sr_applied r then [a] else []) @ applied_actions step (sr_state r) as)"

definition tool_calls_in :: "SoulLoopAction list \<Rightarrow> int" where
  "tool_calls_in as = int (length (filter (\<lambda>a. case a of ToolCall _ \<Rightarrow> True | _ \<Rightarrow> False) as))"

definition errors_in :: "SoulLoopAction list \<Rightarrow> int" where
  "errors_in as = int (length (filter (\<lambda>a. case a of ErrorAction _ _ \<Rightarrow> True | _ \<Rightarrow> False) as))"

definition wait_in :: "SoulLoopAction list \<Rightarrow> int" where
  "wait_in as = sum_list (map (\<lambda>a. case a of Wait d \<Rightarrow> max 0 d | _ \<Rightarrow> 0) as)"

lemmas loop_counts = tool_calls_in_def errors_in_def wait_in_def

abbreviation local_step :: "SoulLoopLimits \<Rightarrow> SoulLoopState \<Rightarrow> SoulLoopAction \<Rightarrow> SoulLoopStepResult" where
  "local_step limits s a \<equiv> applyFallbackLoopStep s a limits"

lemma halted_step:
  "halted s \<Longrightarrow> \<not> sr_applied (local_step limits s a) \<and> halted (sr_state (local_step limits s a))"
  by (simp add: applyFallbackLoopStep_def Let_def halted_def)

lemma rejected_step: "\<not> sr_applied (local_step limits s a) \<Longrightarrow> halted (sr_state (local_step limits s a))"
  by (auto simp: applyFallbackLoopStep_def Let_def halted_def rejected_def accepted_def
      split: SoulLoopAction.splits if_splits)

lemma halted_applied: "halted s \<Longrightarrow> applied_actions (local_step limits) s as = []"
  by (induction as arbitrary: s) (use halted_step in \<open>auto simp: Let_def\<close>)

definition room :: "SoulLoopLimits \<Rightarrow> SoulLoopState \<Rightarrow> bool" where
  "room l s \<longleftrightarrow> sl_steps s \<le> ll_max_steps l \<and> sl_tool_calls s \<le> ll_max_tool_calls l \<and>
     sl_wait_ms s \<le> ll_max_wait_ms l \<and> sl_errors s \<le> ll_max_errors l"

lemma applied_step:
  assumes "sr_applied (local_step l s a)"
  shows "room l s \<Longrightarrow> room l (sr_state (local_step l s a))"
    and "sl_steps (sr_state (local_step l s a)) = sl_steps s + 1"
    and "sl_tool_calls (sr_state (local_step l s a)) = sl_tool_calls s + tool_calls_in [a]"
    and "sl_wait_ms (sr_state (local_step l s a)) = sl_wait_ms s + wait_in [a]"
    and "sl_errors (sr_state (local_step l s a)) = sl_errors s + errors_in [a]"
  using assms
  by (auto simp: applyFallbackLoopStep_def Let_def rejected_def accepted_def room_def loop_counts
      split: SoulLoopAction.splits if_splits)

lemma counts_Cons:
  "tool_calls_in (a # as) = tool_calls_in [a] + tool_calls_in as"
  "errors_in (a # as) = errors_in [a] + errors_in as"
  "wait_in (a # as) = wait_in [a] + wait_in as"
  by (simp_all add: loop_counts)

lemma counts_nonneg: "0 \<le> tool_calls_in as" "0 \<le> errors_in as" "0 \<le> wait_in as"
  by (auto simp: loop_counts intro!: sum_list_nonneg split: SoulLoopAction.splits)

lemma applied_bounds:
  "room l s \<Longrightarrow>
     sl_steps s + int (length (applied_actions (local_step l) s as)) \<le> ll_max_steps l \<and>
     sl_tool_calls s + tool_calls_in (applied_actions (local_step l) s as) \<le> ll_max_tool_calls l \<and>
     sl_wait_ms s + wait_in (applied_actions (local_step l) s as) \<le> ll_max_wait_ms l \<and>
     sl_errors s + errors_in (applied_actions (local_step l) s as) \<le> ll_max_errors l"
proof (induction as arbitrary: s)
  case Nil
  then show ?case by (simp add: room_def loop_counts)
next
  case (Cons a as)
  show ?case
  proof (cases "sr_applied (local_step l s a)")
    case True
    note st = applied_step [OF True]
    have "applied_actions (local_step l) s (a # as) =
        a # applied_actions (local_step l) (sr_state (local_step l s a)) as"
      using True by (simp add: Let_def)
    with Cons.IH [OF st(1) [OF Cons.prems]] st(2-) show ?thesis
      by (simp add: counts_Cons [of a "applied_actions (local_step l) (sr_state (local_step l s a)) as"])
  next
    case False
    then have "applied_actions (local_step l) s (a # as) = []"
      using rejected_step halted_applied by (simp add: Let_def)
    then show ?thesis using Cons.prems by (simp add: room_def loop_counts)
  qed
qed

lemma applied_prefix: "\<exists>n. applied_actions (local_step l) s as = take n as"
proof (induction as arbitrary: s)
  case Nil
  then show ?case by simp
next
  case (Cons a as)
  show ?case
  proof (cases "sr_applied (local_step l s a)")
    case True
    obtain n where "applied_actions (local_step l) (sr_state (local_step l s a)) as = take n as"
      using Cons.IH by blast
    with True show ?thesis by (intro exI [of _ "Suc n"]) (simp add: Let_def)
  next
    case False
    then show ?thesis
      using rejected_step halted_applied by (intro exI [of _ 0]) (simp add: Let_def)
  qed
qed

section \<open>The Rust engine\<close>

record RustLoopState =
  rs_steps :: "32 word"
  rs_tool_calls :: "32 word"
  rs_wait_ms :: "64 word"
  rs_errors :: "32 word"
  rs_completed :: bool
  rs_halt_reason :: "string option"

record RustLoopLimits =
  rm_steps :: "32 word"
  rm_tool_calls :: "32 word"
  rm_wait_ms :: "64 word"
  rm_errors :: "32 word"

datatype RustAction = RToolCall string | RWait "64 word" | RComplete string | RError bool string

definition saturating_add :: "'a::len word \<Rightarrow> 'a word \<Rightarrow> 'a word" where
  "saturating_add a b = (if uint a + uint b < 2 ^ LENGTH('a) then a + b else - 1)"

definition rust_apply ::
  "RustLoopState \<Rightarrow> RustAction \<Rightarrow> RustLoopLimits \<Rightarrow> (string, unit) result \<times> RustLoopState" where
  "rust_apply s action limits =
     (if rs_completed s \<or> rs_halt_reason s \<noteq> None then (Inl ''loop_already_halted'', s)
      else
        (let s = s\<lparr>rs_steps := saturating_add (rs_steps s) 1\<rparr>
         in if rs_steps s > rm_steps limits then
              (Inl ''max_steps_exceeded'', s\<lparr>rs_halt_reason := Some ''max_steps_exceeded''\<rparr>)
            else (case action of
                RToolCall tool \<Rightarrow>
                  (let s = s\<lparr>rs_tool_calls := saturating_add (rs_tool_calls s) 1\<rparr>
                   in if rs_tool_calls s > rm_tool_calls limits then
                        (Inl ''max_tool_calls_exceeded'', s\<lparr>rs_halt_reason := Some ''max_tool_calls_exceeded''\<rparr>)
                      else (Inr (), s))
              | RWait duration_ms \<Rightarrow>
                  (let s = s\<lparr>rs_wait_ms := saturating_add (rs_wait_ms s) duration_ms\<rparr>
                   in if rs_wait_ms s > rm_wait_ms limits then
                        (Inl ''max_wait_exceeded'', s\<lparr>rs_halt_reason := Some ''max_wait_exceeded''\<rparr>)
                      else (Inr (), s))
              | RError recoverable message \<Rightarrow>
                  (let s = s\<lparr>rs_errors := saturating_add (rs_errors s) 1\<rparr>
                   in if rs_errors s > rm_errors limits then
                        (Inl ''max_errors_exceeded'', s\<lparr>rs_halt_reason := Some ''max_errors_exceeded''\<rparr>)
                      else if \<not> recoverable then
                        (Inr (), s\<lparr>rs_completed := True, rs_halt_reason := Some ''non_recoverable_error''\<rparr>)
                      else (Inr (), s))
              | RComplete summary \<Rightarrow> (Inr (), s\<lparr>rs_completed := True\<rparr>))))"

definition abs_state :: "RustLoopState \<Rightarrow> SoulLoopState" where
  "abs_state s = \<lparr>sl_steps = uint (rs_steps s), sl_tool_calls = uint (rs_tool_calls s),
     sl_wait_ms = uint (rs_wait_ms s), sl_errors = uint (rs_errors s),
     sl_completed = rs_completed s, sl_halt_reason = rs_halt_reason s\<rparr>"

definition abs_limits :: "RustLoopLimits \<Rightarrow> SoulLoopLimits" where
  "abs_limits l = \<lparr>ll_max_steps = uint (rm_steps l), ll_max_tool_calls = uint (rm_tool_calls l),
     ll_max_wait_ms = uint (rm_wait_ms l), ll_max_errors = uint (rm_errors l)\<rparr>"

fun abs_action :: "RustAction \<Rightarrow> SoulLoopAction" where
  "abs_action (RToolCall t) = ToolCall t"
| "abs_action (RWait d) = Wait (uint d)"
| "abs_action (RComplete s) = Complete s"
| "abs_action (RError r m) = ErrorAction r m"

text \<open>
  No counter of 32 bits is at the end of its range, and the waited time, before and after the step, and its
  limit are below 2^53, where the numbers of the mirror are exact.
\<close>

definition in_range :: "RustLoopState \<Rightarrow> RustAction \<Rightarrow> RustLoopLimits \<Rightarrow> bool" where
  "in_range s a l \<longleftrightarrow>
     uint (rs_steps s) + 1 < 2 ^ 32 \<and> uint (rs_tool_calls s) + 1 < 2 ^ 32 \<and> uint (rs_errors s) + 1 < 2 ^ 32 \<and>
     uint (rs_wait_ms s) + (case a of RWait d \<Rightarrow> uint d | _ \<Rightarrow> 0) < 2 ^ 53 \<and> uint (rm_wait_ms l) < 2 ^ 53 \<and>
     rs_halt_reason s \<noteq> Some ''''"

lemma uint_saturating_add:
  "uint a + uint b < 2 ^ LENGTH('a) \<Longrightarrow> uint (saturating_add a (b :: 'a::len word)) = uint a + uint b"
  by (simp add: saturating_add_def uint_add_lem [THEN iffD1])

fun abs_result :: "(string, unit) result \<times> RustLoopState \<Rightarrow> SoulLoopStepResult" where
  "abs_result (Inl e, s) = \<lparr>sr_applied = False, sr_reason = Some e, sr_state = abs_state s\<rparr>"
| "abs_result (Inr _, s) = \<lparr>sr_applied = True, sr_reason = None, sr_state = abs_state s\<rparr>"

section \<open>Events of one execution\<close>

lemma emit_fields [simp]:
  "te_adapter (emit env ty ev c p t) = te_adapter t"
  "te_calls (emit env ty ev c p t) = te_calls t"
  by (simp_all add: emit_def Let_def)

lemma fresh_id_fields:
  "fresh_id env given prefix t = (x, t') \<Longrightarrow> te_adapter t' = te_adapter t \<and> te_calls t' = te_calls t \<and>
     (\<forall>y. given = Some y \<longrightarrow> x = y)"
  by (auto simp: fresh_id_def split: option.splits)

lemma local_applyLoopStep:
  "te_adapter t = None \<Longrightarrow> applyLoopStep s a t = (local_step DEFAULT_LOOP_LIMITS s a, t)"
  by (simp add: applyLoopStep_def)

lemma fail_task_local:
  "te_adapter t = None \<Longrightarrow> fail_task env c ls e t = (r, t') \<Longrightarrow>
     r = Inl e \<and> te_calls t' = te_calls t \<and> te_adapter t' = None"
  by (auto simp: fail_task_def local_applyLoopStep)

definition first_state :: SoulLoopState where
  "first_state = sr_state (local_step DEFAULT_LOOP_LIMITS DEFAULT_LOOP_STATE (ToolCall PROVIDER_TOOL))"

lemma first_step:
  "sr_applied (local_step DEFAULT_LOOP_LIMITS DEFAULT_LOOP_STATE (ToolCall PROVIDER_TOOL))"
  "sr_applied (local_step DEFAULT_LOOP_LIMITS first_state (Complete x))"
  by (simp_all add: first_state_def applyFallbackLoopStep_def DEFAULT_LOOP_STATE_def DEFAULT_LOOP_LIMITS_def
      halted_def accepted_def Let_def)

lemma complete_task_local:
  "te_adapter t = None \<Longrightarrow> complete_task env c src dd first_state x t = (r, t') \<Longrightarrow>
     r = Inr x \<and> te_calls t' = te_calls t \<and> te_adapter t' = None"
  by (auto simp: complete_task_def local_applyLoopStep first_step)

definition dedupe_on :: "TaskExecutionRequest \<Rightarrow> bool" where
  "dedupe_on req \<longleftrightarrow> or_else (tq_enableReplayDedupe req) (tq_runId req \<noteq> None \<and> tq_runId req \<noteq> Some '''')"

definition tool_call_id :: "string \<Rightarrow> string" where
  "tool_call_id runId = ''tool:'' @ PROVIDER_TOOL @ '':'' @ runId"

lemma execute_task_local:
  assumes "te_adapter t = None" and "execute_task env req run t = (r, t')"
  obtains runId where "\<forall>y. tq_runId req = Some y \<longrightarrow> runId = y"
    and "case (if dedupe_on req then findCachedResult (tv_locale env) (tv_chainDir env) runId (tool_call_id runId) else None) of
        Some cached \<Rightarrow> r = Inr cached \<and> te_calls t' = te_calls t
      | None \<Rightarrow> r = run \<and> te_calls t' = te_calls t + 1"
proof -
  obtain taskId t1 where 1: "fresh_id env (tq_taskId req) ''task_'' t = (taskId, t1)" by force
  obtain runId t2 where 2: "fresh_id env (tq_runId req) ''run_'' t1 = (runId, t2)" by force
  have t2: "te_adapter t2 = None" "te_calls t2 = te_calls t"
    using fresh_id_fields [OF 1] fresh_id_fields [OF 2] assms(1) by simp_all
  let ?cached = "if dedupe_on req then findCachedResult (tv_locale env) (tv_chainDir env) runId (tool_call_id runId) else None"
  obtain c src t3 where c: "tc_runId c = runId" and t3: "te_adapter t3 = None" "te_calls t3 = te_calls t"
    and run: "obtain_result env c src (tool_call_id runId) (dedupe_on req) first_state run t3 = (r, t')"
  proof -
    define c where "c = \<lparr>tc_taskId = taskId, tc_runId = runId,
      tc_agentId = or_else (tq_agentId req) ''orchestrator'', tc_toolCallId = None\<rparr>"
    note local = local_applyLoopStep [OF trans [OF emit_fields(1) t2(1)]]
    show thesis
      by (rule that [of c _ _, OF _ _ _ assms(2) [unfolded execute_task_def 1 2 prod.case Let_def
            dedupe_on_def [symmetric] tool_call_id_def [symmetric] c_def [symmetric] local
            first_step(1) [THEN eqTrueI] not_True_eq_False if_False first_state_def [symmetric]]])
        (simp_all add: c_def t2)
  qed
  have "case ?cached of Some cached \<Rightarrow> r = Inr cached \<and> te_calls t' = te_calls t
      | None \<Rightarrow> r = run \<and> te_calls t' = te_calls t + 1"
  proof (cases ?cached)
    case None
    then show ?thesis
      using run t3 c
      by (cases run) (auto simp: obtain_result_def Let_def dest!: fail_task_local [rotated] complete_task_local [rotated])
  next
    case (Some cached)
    then show ?thesis
      using run t3 c by (auto simp: obtain_result_def Let_def dest!: complete_task_local [rotated])
  qed
  with that [of runId] fresh_id_fields [OF 2] show thesis by blast
qed

section \<open>Round trip of a recorded result\<close>

definition result_wf :: "GenerateResult \<Rightarrow> bool" where
  "result_wf r \<longleftrightarrow> gr_id r \<noteq> '''' \<and> 0 \<le> gr_timingMs r \<and>
     (\<forall>u. gr_usage r = Some u \<longrightarrow> is_object u \<and> json_wf u) \<and>
     (\<forall>u. gr_trace r = Some u \<longrightarrow> is_object u \<and> json_wf u)"

lemma provider_round: "provider_of_text (provider_text p) = Some p"
  by (cases p) simp_all

lemma asGenerateResult_result_json: "result_wf r \<Longrightarrow> asGenerateResult (Some (result_json r)) = Some r"
  by (cases r; cases "gr_modelUsed r"; cases "gr_usage r"; cases "gr_trace r")
     (auto simp: result_wf_def asGenerateResult_def result_json_def asProviderName_def object_field_def
        opt_field_def opt_json_def provider_round simp del: provider_of_text.simps split: option.splits)

lemma json_wf_result:
  "result_wf r \<Longrightarrow> json_wf (result_json r)"
  by (cases r; cases "gr_modelUsed r"; cases "gr_usage r"; cases "gr_trace r")
     (auto simp: result_wf_def result_json_def opt_field_def opt_json_def)

definition tool_result_event :: "task_env \<Rightarrow> TaskEventCorrelation \<Rightarrow> GenerateResult \<Rightarrow> TaskExecutor \<Rightarrow> chain_event" where
  "tool_result_event env c r t =
     last (te_events (emit env ''tool_result'' ''task.tool_result'' c
       [(''tool'', JStr PROVIDER_TOOL), (''result'', result_json r)] t))"

section \<open>Properties\<close>

text \<open>
  C23: Whatever actions a run asks for, those the local loop applies are a prefix of them that stays within
  all four limits: 32 steps, 16 tool calls, 120 seconds of waiting and 4 errors. After the first refusal
  nothing is applied any more.
\<close>

theorem loop_limits_enforced:
  fixes as
  defines "done \<equiv> applied_actions (\<lambda>s a. applyFallbackLoopStep s a DEFAULT_LOOP_LIMITS) DEFAULT_LOOP_STATE as"
  shows "(\<exists>n. done = take n as) \<and> length done \<le> 32 \<and> tool_calls_in done \<le> 16 \<and> wait_in done \<le> 120000 \<and>
    errors_in done \<le> 4"
  using applied_prefix [of DEFAULT_LOOP_LIMITS DEFAULT_LOOP_STATE as]
    applied_bounds [of DEFAULT_LOOP_LIMITS DEFAULT_LOOP_STATE as]
  by (simp add: done_def DEFAULT_LOOP_LIMITS_def DEFAULT_LOOP_STATE_def room_def)

text \<open>
  C22: As long as no counter of 32 bits of the Rust engine would saturate and the waited milliseconds and their
  limit stay below 2^53, where a double is exact, the mirror in the MCP tool answers exactly what the engine
  answers: the same verdict, reason and next state. The empty text as a halt reason is left out: the mirror
  takes it for a loop that goes on.
\<close>

theorem mirror_refines_rust:
  assumes "in_range s a l"
  shows "applyLoopStepTs (abs_state s) (abs_action a) (Some (abs_limits l)) = abs_result (rust_apply s a l)"
proof (cases "rs_completed s \<or> rs_halt_reason s \<noteq> None")
  case True
  then have "halted (abs_state s)" using assms by (auto simp: halted_def abs_state_def in_range_def)
  with True show ?thesis by (auto simp: applyLoopStepTs_def rust_apply_def Let_def)
next
  case False
  then have "\<not> halted (abs_state s)" by (simp add: halted_def abs_state_def)
  have one: "uint (saturating_add (w :: 32 word) 1) = uint w + 1" if "uint w + 1 < 2 ^ 32" for w
    using that uint_saturating_add [of w 1] by simp
  have wait: "uint (saturating_add (rs_wait_ms s) d) = uint (rs_wait_ms s) + uint d" if "a = RWait d" for d
    using that assms uint_saturating_add [of "rs_wait_ms s" d] by (simp add: in_range_def)
  show ?thesis
    using False assms \<open>\<not> halted (abs_state s)\<close> wait
    by (cases a)
       (simp_all add: applyLoopStepTs_def rust_apply_def Let_def abs_state_def abs_limits_def in_range_def one
          word_less_def rejected_def accepted_def)
qed

definition rust_demo_state :: RustLoopState where
  "rust_demo_state = \<lparr>rs_steps = 3, rs_tool_calls = 16, rs_wait_ms = 0, rs_errors = 0, rs_completed = False,
     rs_halt_reason = None\<rparr>"

definition rust_demo_limits :: RustLoopLimits where
  "rust_demo_limits = \<lparr>rm_steps = 32, rm_tool_calls = 16, rm_wait_ms = 120000, rm_errors = 4\<rparr>"

theorem mirror_refines_rust_witness:
  "applyLoopStepTs (abs_state rust_demo_state) (ToolCall ''x'') (Some (abs_limits rust_demo_limits)) =
     abs_result (rust_apply rust_demo_state (RToolCall ''x'') rust_demo_limits) \<and>
   in_range rust_demo_state (RToolCall ''x'') rust_demo_limits"
proof -
  have "in_range rust_demo_state (RToolCall ''x'') rust_demo_limits"
    by (simp add: in_range_def rust_demo_state_def rust_demo_limits_def)
  with mirror_refines_rust [OF this] show ?thesis by simp
qed

text \<open>
  The mirror accepts negative waits, which give wait budget back: it applies 16 waits of up to the
  whole budget of 120 seconds each, where the engine allows one such budget for the entire run.
\<close>

theorem mirror_wait_budget_reset:
  assumes "n \<le> 16" and "0 \<le> d" and "d \<le> 120000"
  shows "applied_actions (\<lambda>s a. applyLoopStepTs s a None) DEFAULT_LOOP_STATE (concat (replicate n [Wait d, Wait (- d)])) =
    concat (replicate n [Wait d, Wait (- d)])"
proof -
  have "applied_actions (\<lambda>s a. applyLoopStepTs s a None) s (concat (replicate n [Wait d, Wait (- d)])) =
      concat (replicate n [Wait d, Wait (- d)])"
    if "sl_steps s + 2 * int n \<le> 32" "sl_wait_ms s = 0" "\<not> halted s" for s
    using that
  proof (induction n arbitrary: s)
    case 0
    then show ?case by simp
  next
    case (Suc n)
    let ?s = "s\<lparr>sl_steps := sl_steps s + 1, sl_wait_ms := d\<rparr>"
    have 1: "applyLoopStepTs s (Wait d) None = accepted ?s"
      using Suc.prems assms by (simp add: applyLoopStepTs_def Let_def DEFAULT_LOOP_LIMITS_def)
    have "\<not> halted ?s" using Suc.prems by (simp add: halted_def)
    then have 2: "applyLoopStepTs ?s (Wait (- d)) None = accepted (?s\<lparr>sl_steps := sl_steps s + 2, sl_wait_ms := 0\<rparr>)"
      using Suc.prems assms by (simp add: applyLoopStepTs_def Let_def DEFAULT_LOOP_LIMITS_def add.commute)
    from Suc show ?case
      using Suc.IH [of "?s\<lparr>sl_steps := sl_steps s + 2, sl_wait_ms := 0\<rparr>"]
      by (simp add: Let_def 1 2 accepted_def halted_def)
  qed
  from this [of DEFAULT_LOOP_STATE] assms(1) show ?thesis
    by (simp add: DEFAULT_LOOP_STATE_def halted_def)
qed

theorem mirror_wait_budget_reset_witness:
  "applied_actions (\<lambda>s a. applyLoopStepTs s a None) DEFAULT_LOOP_STATE
       (concat (replicate 16 [Wait 120000, Wait (- 120000)])) = concat (replicate 16 [Wait 120000, Wait (- 120000)])"
  using mirror_wait_budget_reset [of 16 120000] by simp

lemma wait_in_alternating: "0 \<le> d \<Longrightarrow> wait_in (concat (replicate n [Wait d, Wait (- d)])) = int n * d"
  by (induction n) (simp_all add: wait_in_def distrib_right)

text \<open>
  With the local loop, an execution of a named run calls the provider exactly when replay is off or no
  result of the run is on the chain, and then once, passing on its answer; otherwise it answers the
  recorded result without a call. The request's input plays no part in the choice.
\<close>

theorem execute_calls_or_replays:
  assumes "te_adapter t = None" and "execute_task env req run t = (r, t')" and "tq_runId req = Some runId"
  shows "case (if dedupe_on req
        then findCachedResult (tv_locale env) (tv_chainDir env) runId (''tool:'' @ PROVIDER_TOOL @ '':'' @ runId)
        else None) of
      Some cached \<Rightarrow> r = Inr cached \<and> te_calls t' = te_calls t
    | None \<Rightarrow> r = run \<and> te_calls t' = te_calls t + 1"
  by (rule execute_task_local [OF assms(1,2)]) (simp only: assms(3) option.inject all_simps tool_call_id_def
      simp_thms)

definition demo_task_env :: task_env where
  "demo_task_env = \<lparr>tv_id = (\<lambda>n. ''id''), tv_now = (\<lambda>n. ''now''), tv_sha256 = (\<lambda>x. ''sha''),
     tv_locale = (\<lambda>a b. 0), tv_skipChain = True, tv_append = (\<lambda>n. True), tv_chainDir = None\<rparr>"

definition demo_task_request :: TaskExecutionRequest where
  "demo_task_request = \<lparr>tq_input = ''hello'', tq_provider = None, tq_strategy = None, tq_taskId = Some ''t1'',
     tq_runId = Some ''r1'', tq_source = None, tq_agentId = None, tq_enableReplayDedupe = None\<rparr>"

definition demo_executor :: TaskExecutor where
  "demo_executor = \<lparr>te_adapter = None, te_ids = 0, te_times = 0, te_attempts = 0, te_events = [], te_audit = [],
     te_calls = 0\<rparr>"

lemma demo_task_fields:
  "te_adapter demo_executor = None" "te_calls demo_executor = 0" "tq_runId demo_task_request = Some ''r1''"
  "tv_chainDir demo_task_env = None" "dedupe_on demo_task_request"
  by (simp_all add: demo_executor_def demo_task_request_def demo_task_env_def dedupe_on_def or_else_def)

theorem execute_calls_or_replays_witness:
  "fst (execute_task demo_task_env demo_task_request (Inl (plain_error ''down'')) demo_executor) = Inl (plain_error ''down'') \<and>
   te_calls (snd (execute_task demo_task_env demo_task_request (Inl (plain_error ''down'')) demo_executor)) = 1"
  using execute_calls_or_replays [OF demo_task_fields(1) prod.collapse [symmetric] demo_task_fields(3),
      of demo_task_env "Inl (plain_error ''down'')"]
  by (simp add: demo_task_fields findCachedResult_def)

text \<open>
  The result event that an execution stores is found again: the file of any block that holds the event
  is read back as exactly the recorded result by a later execution of the same run.
\<close>

theorem recorded_result_is_found:
  assumes "result_wf r" and "\<not> tv_skipChain env" and "tv_append env (te_attempts t)"
    and "tc_toolCallId c = Some toolCallId"
    and "cb_data b = event_block_data (tool_result_event env c r t)"
  shows "cached_in (tc_runId c) toolCallId (JSON_stringify2 (block_json b)) = Some r"
proof -
  let ?e = "ce_envelope (tool_result_event env c r t)"
  have e: "?e = JObj [(''schemaVersion'', JNum 1), (''eventId'', JStr (tv_id env (te_ids t))),
      (''timestamp'', JStr (tv_now env (te_times t))), (''event'', JStr ''task.tool_result''),
      (''correlation'', correlation_json c),
      (''payload'', JObj [(''tool'', JStr PROVIDER_TOOL), (''result'', result_json r)])]"
    using assms(2,3) by (simp add: tool_result_event_def emit_def Let_def)
  have "json_wf ?e"
    using json_wf_result [OF assms(1)] by (simp add: e correlation_json_def assms(4))
  then have inner: "JSON_parse (JSON_stringify ?e) = Some ?e" by (rule parse_stringify)
  have data: "cb_data b = JObj [(''type'', JStr (ce_type (tool_result_event env c r t))),
      (''content'', JStr (JSON_stringify ?e)), (''tags'', JArr (map JStr (ce_tags (tool_result_event env c r t))))]"
    by (simp add: assms(5) event_block_data_def)
  have "json_wf (block_json b)"
    by (simp add: block_json_def hashed_fields_def data list_all_iff)
  then have block: "JSON_parse (JSON_stringify2 (block_json b)) = Some (block_json b)" by (rule parse_stringify2)
  have content: "Option.bind (jfield (block_json b) ''data'') (\<lambda>d. jstring (jfield d ''content'')) =
      Some (JSON_stringify ?e)"
    by (simp add: block_json_def hashed_fields_def data)
  show ?thesis
    unfolding cached_in_def block content option.case inner
    by (simp add: e correlation_json_def assms(4) asGenerateResult_result_json [OF assms(1)])
qed

definition demo_result :: GenerateResult where
  "demo_result = \<lparr>gr_id = ''g1'', gr_providerUsed = Ollama, gr_modelUsed = None, gr_output = ''hi'', gr_usage = None,
     gr_timingMs = 12, gr_trace = None\<rparr>"

definition demo_correlation :: TaskEventCorrelation where
  "demo_correlation = \<lparr>tc_taskId = ''t1'', tc_runId = ''r1'', tc_agentId = ''a'', tc_toolCallId = Some ''tool:x:r1''\<rparr>"

definition demo_event_block :: ChainBlock where
  "demo_event_block = \<lparr>cb_index = 1, cb_timestamp = ''now'', cb_chain = ''system'',
     cb_data = event_block_data (tool_result_event (demo_task_env\<lparr>tv_skipChain := False\<rparr>) demo_correlation demo_result demo_executor),
     cb_prev_hash = ''0'', cb_hash = ''h''\<rparr>"

theorem recorded_result_is_found_witness:
  "cached_in ''r1'' ''tool:x:r1'' (JSON_stringify2 (block_json demo_event_block)) = Some demo_result"
  using recorded_result_is_found [of demo_result "demo_task_env\<lparr>tv_skipChain := False\<rparr>" demo_executor demo_correlation
      "''tool:x:r1''" demo_event_block]
  by (simp add: result_wf_def demo_result_def [THEN arg_cong [of _ _ gr_id]]
      demo_result_def [THEN arg_cong [of _ _ gr_timingMs]] demo_result_def [THEN arg_cong [of _ _ gr_usage]]
      demo_result_def [THEN arg_cong [of _ _ gr_trace]] demo_task_env_def demo_correlation_def
      demo_event_block_def [THEN arg_cong [of _ _ cb_data]])

end
