(* ===== verification/Regex.thy ===== *)
theory Regex
  imports JsString
begin

text \<open>
  The regular expressions the code tests strings with: what \<open>RegExp.prototype.test\<close> answers for patterns
  built from character classes, concatenation, alternatives, repetition, \<open>\b\<close> and negative lookahead.

  A position is a pair of the text before it, reversed, and the text after it. \<open>re_rel\<close> says between
  which positions a pattern matches; \<open>ends\<close> computes the positions a match from a given one can end at,
  by backtracking, and \<open>re_test\<close> tries every start. \<open>re_test_iff\<close> is the equivalence of the two.
\<close>

type_synonym pos = "string \<times> string"

datatype re =
    Eps
  | Sym "char \<Rightarrow> bool"
  | Cat re re
  | Alt re re
  | Star re
  | WordB
  | NotAhead re

section \<open>Meaning\<close>

definition is_word :: "char \<Rightarrow> bool" where
  "is_word c \<longleftrightarrow> is_alnum c \<or> c = CHR ''_''"

fun word_head :: "string \<Rightarrow> bool" where
  "word_head [] = False"
| "word_head (c # s) = is_word c"

definition boundary :: "pos \<Rightarrow> bool" where
  "boundary p \<longleftrightarrow> word_head (fst p) \<noteq> word_head (snd p)"

fun re_rel :: "re \<Rightarrow> (pos \<times> pos) set" where
  "re_rel Eps = Id"
| "re_rel (Sym P) = {((b, c # a), (c # b, a)) | b c a. P c}"
| "re_rel (Cat r s) = re_rel r O re_rel s"
| "re_rel (Alt r s) = re_rel r \<union> re_rel s"
| "re_rel (Star r) = (re_rel r)\<^sup>*"
| "re_rel WordB = {(p, p) | p. boundary p}"
| "re_rel (NotAhead r) = {(p, p) | p. \<forall>q. (p, q) \<notin> re_rel r}"

section \<open>Search\<close>

function ends :: "re \<Rightarrow> pos \<Rightarrow> pos list" where
  "ends Eps p = [p]"
| "ends (Sym P) p =
     (case snd p of [] \<Rightarrow> [] | c # a \<Rightarrow> if P c then [(c # fst p, a)] else [])"
| "ends (Cat r s) p = concat (map (ends s) (ends r p))"
| "ends (Alt r s) p = ends r p @ ends s p"
| "ends (Star r) p =
     p # concat (map (ends (Star r)) (filter (\<lambda>q. length (snd q) < length (snd p)) (ends r p)))"
| "ends WordB p = (if boundary p then [p] else [])"
| "ends (NotAhead r) p = (if ends r p = [] then [p] else [])"
  by pat_completeness auto

text \<open>A repetition goes on only after progress, so the search ends although the pattern does not shrink.\<close>

termination ends
  by (relation "measures [\<lambda>(r, p). size r, \<lambda>(r, p). length (snd p)]") auto

text \<open>The rule for repetition would unfold for ever.\<close>

declare ends.simps(5) [simp del]

definition positions :: "string \<Rightarrow> pos list" where
  "positions s = map (\<lambda>i. (rev (take i s), drop i s)) [0..<Suc (length s)]"

definition re_test :: "re \<Rightarrow> string \<Rightarrow> bool" where
  "re_test r s = list_ex (\<lambda>p. ends r p \<noteq> []) (positions s)"

section \<open>The search computes the meaning\<close>

definition moves_on :: "pos \<Rightarrow> pos \<Rightarrow> bool" where
  "moves_on p q \<longleftrightarrow> (\<exists>w. snd p = w @ snd q \<and> fst q = rev w @ fst p)"

lemma moves_on_refl [simp]: "moves_on p p"
  by (simp add: moves_on_def)

lemma moves_on_trans: "moves_on p q \<Longrightarrow> moves_on q r \<Longrightarrow> moves_on p r"
  by (force simp: moves_on_def)

lemma moves_on_progress: "moves_on p q \<Longrightarrow> q = p \<or> length (snd q) < length (snd p)"
  by (cases p; cases q) (auto simp: moves_on_def)

lemma re_rel_moves_on: "(p, q) \<in> re_rel r \<Longrightarrow> moves_on p q"
proof (induction r arbitrary: p q)
  case (Sym P)
  then show ?case by (force simp: moves_on_def)
next
  case (Cat r s)
  from Cat.prems obtain m where "(p, m) \<in> re_rel r" "(m, q) \<in> re_rel s" by (auto simp only: re_rel.simps)
  with Cat.IH show ?case using moves_on_trans by blast
next
  case (Star r)
  from Star.prems have "(p, q) \<in> (re_rel r)\<^sup>*" by simp
  then show ?case
  proof (induction rule: rtrancl_induct)
    case base
    show ?case by simp
  next
    case (step m q)
    with Star.IH show ?case using moves_on_trans by blast
  qed
qed auto

lemma ends_Star:
  assumes sound: "\<And>p. set (ends r p) = re_rel r `` {p}"
  shows "set (ends (Star r) p) = (re_rel r)\<^sup>* `` {p}"
proof (induction p rule: measure_induct_rule [of "\<lambda>p. length (snd p)"])
  case (less p)
  have step: "q \<in> set (ends (Star r) p) \<longleftrightarrow> q = p \<or>
      (\<exists>m. (p, m) \<in> re_rel r \<and> length (snd m) < length (snd p) \<and> (m, q) \<in> (re_rel r)\<^sup>*)" for q
  proof -
    have "set (ends (Star r) p) =
        insert p (\<Union>m \<in> {m \<in> set (ends r p). length (snd m) < length (snd p)}. set (ends (Star r) m))"
      unfolding ends.simps(5) [of r p] by simp
    also have "\<dots> = insert p (\<Union>m \<in> {m \<in> set (ends r p). length (snd m) < length (snd p)}. (re_rel r)\<^sup>* `` {m})"
      using less.IH by simp
    finally have eq: "set (ends (Star r) p) = \<dots>" .
    show ?thesis
      unfolding eq sound insert_iff UN_iff Image_singleton_iff mem_Collect_eq Bex_def by (simp only: conj_assoc)
  qed
  have "q \<in> set (ends (Star r) p) \<longleftrightarrow> (p, q) \<in> (re_rel r)\<^sup>*" for q
  proof
    assume "q \<in> set (ends (Star r) p)"
    then consider "q = p" | m where "(p, m) \<in> re_rel r" "(m, q) \<in> (re_rel r)\<^sup>*"
      unfolding step by blast
    then show "(p, q) \<in> (re_rel r)\<^sup>*"
      by cases (simp, rule converse_rtrancl_into_rtrancl)
  next
    assume "(p, q) \<in> (re_rel r)\<^sup>*"
    then have "q = p \<or> (\<exists>m. (p, m) \<in> re_rel r \<and> length (snd m) < length (snd p) \<and> (m, q) \<in> (re_rel r)\<^sup>*)"
    proof (induction rule: converse_rtrancl_induct)
      case base
      show ?case by simp
    next
      case (step p m)
      then show ?case using re_rel_moves_on moves_on_progress by metis
    qed
    then show "q \<in> set (ends (Star r) p)" unfolding step .
  qed
  then show ?case by blast
qed

lemma set_ends: "set (ends r p) = re_rel r `` {p}"
proof (induction r arbitrary: p)
  case (Sym P)
  show ?case by (cases p) (auto split: list.splits)
next
  case (Star r)
  then show ?case using ends_Star by simp
next
  case (NotAhead r)
  have "ends r p = [] \<longleftrightarrow> (\<forall>q. (p, q) \<notin> re_rel r)"
    unfolding set_empty [symmetric] NotAhead.IH by blast
  then show ?case by auto
qed auto

lemma ends_Nil_iff: "ends r p = [] \<longleftrightarrow> (\<forall>q. (p, q) \<notin> re_rel r)"
  unfolding set_empty [symmetric] set_ends by blast

definition in_text :: "string \<Rightarrow> pos \<Rightarrow> bool" where
  "in_text s p \<longleftrightarrow> rev (fst p) @ snd p = s"

lemma set_positions: "p \<in> set (positions s) \<longleftrightarrow> in_text s p"
proof
  assume in_text: "in_text s p"
  obtain b a where p: "p = (b, a)" by force
  with in_text have "s = rev b @ a" by (simp add: in_text_def)
  then show "p \<in> set (positions s)"
    unfolding positions_def set_map set_upt p by (intro image_eqI [where x = "length b"]) simp_all
qed (auto simp: positions_def in_text_def)

lemma re_test_iff: "re_test r s \<longleftrightarrow> (\<exists>p q. in_text s p \<and> (p, q) \<in> re_rel r)"
  unfolding re_test_def list_ex_iff set_positions Bex_def ends_Nil_iff by blast

section \<open>Character classes on bits\<close>

text \<open>Code equations that let the simplifier decide a class without arithmetic.\<close>

lemma upper_bits:
  "is_upper (Char b0 b1 b2 b3 b4 b5 b6 b7) \<longleftrightarrow>
     \<not> b7 \<and> b6 \<and> \<not> b5 \<and> (b0 \<or> b1 \<or> b2 \<or> b3 \<or> b4) \<and> \<not> (b4 \<and> b3 \<and> (b2 \<or> b1 \<and> b0))"
  by (cases b0; cases b1; cases b2; cases b3; cases b4; cases b5; cases b6; cases b7)
     (simp_all add: is_upper_def code_def)

lemma lower_bits [code]:
  "is_lower (Char b0 b1 b2 b3 b4 b5 b6 b7) \<longleftrightarrow>
     \<not> b7 \<and> b6 \<and> b5 \<and> (b0 \<or> b1 \<or> b2 \<or> b3 \<or> b4) \<and> \<not> (b4 \<and> b3 \<and> (b2 \<or> b1 \<and> b0))"
  by (cases b0; cases b1; cases b2; cases b3; cases b4; cases b5; cases b6; cases b7)
     (simp_all add: is_lower_def code_def)

lemma digit_bits [code]:
  "is_digit (Char b0 b1 b2 b3 b4 b5 b6 b7) \<longleftrightarrow> \<not> b7 \<and> \<not> b6 \<and> b5 \<and> b4 \<and> \<not> (b3 \<and> (b2 \<or> b1))"
  by (cases b0; cases b1; cases b2; cases b3; cases b4; cases b5; cases b6; cases b7)
     (simp_all add: is_digit_def code_def)

lemma space_bits [code]:
  "is_space (Char b0 b1 b2 b3 b4 b5 b6 b7) \<longleftrightarrow>
     \<not> b7 \<and> \<not> b6 \<and> \<not> b4 \<and> (if b5 then \<not> b3 \<and> \<not> b2 \<and> \<not> b1 \<and> \<not> b0
       else b3 \<and> (if b2 then \<not> b1 else b1 \<or> b0))"
  by (cases b0; cases b1; cases b2; cases b3; cases b4; cases b5; cases b6; cases b7)
     (simp_all add: is_space_def code_def)

lemma lower_char_bits [code]:
  "lower_char (Char b0 b1 b2 b3 b4 b5 b6 b7) =
     Char b0 b1 b2 b3 b4 (b5 \<or> is_upper (Char b0 b1 b2 b3 b4 b5 b6 b7)) b6 b7"
  unfolding lower_char_def upper_bits
  by (cases b0; cases b1; cases b2; cases b3; cases b4; cases b5; cases b6; cases b7) (simp_all add: code_def char_of_def bit_0)

declare upper_bits [code]

section \<open>Building patterns\<close>

definition same_letter :: "char \<Rightarrow> char \<Rightarrow> bool" where
  "same_letter a b \<longleftrightarrow> lower_char a = lower_char b"

text \<open>A literal under the flag \<open>i\<close>.\<close>

fun lit :: "string \<Rightarrow> re" where
  "lit [] = Eps"
| "lit (c # s) = Cat (Sym (same_letter c)) (lit s)"

fun seq :: "re list \<Rightarrow> re" where
  "seq [] = Eps"
| "seq [r] = r"
| "seq (r # rs) = Cat r (seq rs)"

fun alts :: "re \<Rightarrow> re list \<Rightarrow> re" where
  "alts r [] = r"
| "alts r (s # rs) = Alt r (alts s rs)"

definition plus_re :: "re \<Rightarrow> re" where
  "plus_re r = Cat r (Star r)"

definition opt_re :: "re \<Rightarrow> re" where
  "opt_re r = Alt r Eps"

definition sp :: re where
  "sp = Sym is_space"

definition wd :: re where
  "wd = Sym is_word"

definition dot :: re where
  "dot = Sym (\<lambda>c. c \<noteq> CHR 0x0A \<and> c \<noteq> CHR 0x0D)"

definition one_of :: "string \<Rightarrow> re" where
  "one_of s = Sym (\<lambda>c. c \<in> set s)"

end
