(* ===== verification/AppSteps.thy ===== *)
theory AppSteps
  imports Regex Errors
begin

text \<open>
  The check of a shell step of a managed app (\<open>modules/apps/step-validator.ts\<close>): a length limit and thirty
  patterns that may not occur, each translated to the patterns of \<open>Regex\<close>.
\<close>

definition MAX_STEP_LENGTH :: nat where
  "MAX_STEP_LENGTH = 2048"

definition sps :: re where
  "sps = Star sp"

definition word :: "string \<Rightarrow> re" where
  "word w = seq [WordB, lit w, WordB]"

text \<open>\<open>(-\w+\s+)*\<close>, \<open>(bash|sh|zsh)\<close> and \<open>.*\|\s*(bash|sh|zsh)\<close> occur several times.\<close>

definition short_options :: re where
  "short_options = Star (seq [lit ''-'', plus_re wd, plus_re sp])"

definition shells :: re where
  "shells = alts (lit ''bash'') [lit ''sh'', lit ''zsh'']"

definition into_shell :: re where
  "into_shell = seq [Star dot, lit ''|'', sps, shells]"

definition BLOCKED_STEP_PATTERNS :: "(re \<times> string) list" where
  "BLOCKED_STEP_PATTERNS =
     [(seq [lit ''rm'', plus_re sp, short_options, lit ''/''], ''rm targeting root paths''),
      (seq [lit ''rm'', plus_re sp, short_options, lit ''--no-preserve-root''], ''rm --no-preserve-root''),
      (word ''mkfs'', ''filesystem creation (mkfs)''),
      (seq [word ''dd'', plus_re sp, Star dot, lit ''of=''], ''dd write (of=)''),
      (seq [lit '':'', sps, lit ''('', sps, lit '')'', sps, lit ''{''], ''fork bomb''),
      (seq [lit ''>'', sps, lit ''/dev/'', NotAhead (lit ''null'')], ''write to device file''),
      (word ''sudo'', ''privilege escalation (sudo)''),
      (seq [WordB, lit ''su'', plus_re sp, opt_re (lit ''-''), sps, wd], ''user switching (su)''),
      (seq [WordB, lit ''chown'', plus_re sp, short_options, lit ''root''], ''chown to root''),
      (seq [WordB, lit ''chmod'', plus_re sp, short_options, Star (one_of ''01234567''), one_of ''2367'',
            one_of ''67'', plus_re sp, lit ''/''], ''chmod world/group-writable on root paths''),
      (Cat (word ''curl'') into_shell, ''pipe from curl to shell''),
      (Cat (word ''wget'') into_shell, ''pipe from wget to shell''),
      (seq [word ''nc'', Star dot, lit ''-'', one_of ''leLE''], ''netcat listener''),
      (word ''ncat'', ''ncat''),
      (word ''socat'', ''socat''),
      (lit ''/dev/tcp/'', ''/dev/tcp reverse shell''),
      (word ''mkfifo'', ''mkfifo (named pipe for shell redirect)''),
      (seq [WordB, lit ''python'', opt_re (one_of ''23''), plus_re sp, lit ''-c'', WordB], ''inline python execution''),
      (seq [WordB, lit ''perl'', plus_re sp, lit ''-e'', WordB], ''inline perl execution''),
      (seq [WordB, lit ''ruby'', plus_re sp, lit ''-e'', WordB], ''inline ruby execution''),
      (seq [WordB, lit ''eval'', sp], ''shell eval''),
      (word ''shutdown'', ''system shutdown''),
      (word ''reboot'', ''system reboot''),
      (word ''killall'', ''mass process kill''),
      (seq [WordB, lit ''systemctl'', plus_re sp, alts (lit ''stop'') [lit ''disable'', lit ''mask''], plus_re sp,
            NotAhead (Cat (Star dot) (lit ''--user''))], ''system-wide service manipulation (use --user)''),
      (word ''iptables'', ''firewall manipulation''),
      (lit ''/etc/shadow'', ''/etc/shadow access''),
      (lit ''/etc/sudoers'', ''/etc/sudoers access''),
      (seq [WordB, lit ''base64'', plus_re sp, Alt (lit ''-d'') (lit ''--decode''), WordB, into_shell],
       ''base64-decoded shell execution''),
      (Cat (word ''xxd'') into_shell, ''hex-decoded shell execution'')]"

text \<open>\<open>None\<close> is \<open>{ ok: true }\<close>, \<open>Some reason\<close> is \<open>{ ok: false, reason }\<close>.\<close>

fun first_blocked :: "(re \<times> string) list \<Rightarrow> string \<Rightarrow> string option" where
  "first_blocked [] step = None"
| "first_blocked ((pattern, reason) # ps) step =
     (if re_test pattern step then Some (''blocked pattern: '' @ reason) else first_blocked ps step)"

definition validateManifestStep :: "string \<Rightarrow> string option" where
  "validateManifestStep step =
     (if length step > MAX_STEP_LENGTH then
        Some (''step exceeds maximum length ('' @ show_nat MAX_STEP_LENGTH @ '' chars)'')
      else first_blocked BLOCKED_STEP_PATTERNS step)"

definition em_dash :: string where
  "em_dash = [CHR 0xE2, CHR 0x80, CHR 0x94]"

fun enforceManifestSteps :: "string list \<Rightarrow> string \<Rightarrow> string \<Rightarrow> (thrown, unit) result" where
  "enforceManifestSteps [] manifestId action = Inr ()"
| "enforceManifestSteps (step # steps) manifestId action =
     (case validateManifestStep step of
        Some reason \<Rightarrow>
          Inl (App (app_error VALIDATION_ERROR
            (''manifest step blocked: '' @ reason @ '' '' @ em_dash @ '' in action '' @ [CHR 0x27] @ action @ [CHR 0x27]
               @ '' of '' @ [CHR 0x27] @ manifestId @ [CHR 0x27]) 403
            [(''step'', JStr step), (''manifestId'', JStr manifestId), (''action'', JStr action)]))
      | None \<Rightarrow> enforceManifestSteps steps manifestId action)"

section \<open>Facts\<close>

definition step_ok :: "string \<Rightarrow> bool" where
  "step_ok s \<longleftrightarrow> validateManifestStep s = None"

lemma first_blocked_None_iff: "first_blocked ps s = None \<longleftrightarrow> (\<forall>(r, why) \<in> set ps. \<not> re_test r s)"
  by (induction ps) (auto split: if_splits)

lemma enforceManifestSteps_Inr: "enforceManifestSteps steps m a = Inr u \<longleftrightarrow> (\<forall>s \<in> set steps. step_ok s)"
  by (induction steps) (auto simp: step_ok_def split: option.splits)

text \<open>
  A step is accepted exactly when it is short enough and no blocked pattern matches between any two
  positions of it: the search the validator runs finds a match whenever there is one, and it ends.
\<close>

theorem step_accepted_iff:
  "validateManifestStep s = None \<longleftrightarrow>
     length s \<le> 2048 \<and> list_all (\<lambda>rw. re_rel (fst rw) \<inter> {(p, q). in_text s p} = {}) BLOCKED_STEP_PATTERNS"
proof -
  have "\<not> re_test r s \<longleftrightarrow> re_rel r \<inter> {(p, q). in_text s p} = {}" for r
    unfolding re_test_iff by auto
  then show ?thesis
    by (simp add: validateManifestStep_def MAX_STEP_LENGTH_def first_blocked_None_iff list_all_iff not_less split_beta)
qed

text \<open>
  A step that removes the root directory with long options is accepted: the patterns know only short
  options between the command and its target.
\<close>

theorem blocklist_bypassed: "validateManifestStep ''rm --recursive --force /'' = None"
  by code_simp

end
