(* ===== verification/Paths.thy ===== *)
theory Paths
  imports JsString
begin

text \<open>
  POSIX paths: the functions of \<open>node:path\<close> the code uses (\<open>resolve\<close>, \<open>join\<close>, \<open>dirname\<close>), and the places
  where the runtime keeps its data (\<open>config/paths.ts\<close>). An environment is a function from names; the home
  directory and the working directory are fields of \<open>os_env\<close>.
\<close>

record os_env =
  os_vars :: "string \<Rightarrow> string option"
  os_home :: string
  os_cwd :: string

section \<open>\<open>node:path\<close>\<close>

fun norm_segs :: "bool \<Rightarrow> string list \<Rightarrow> string list \<Rightarrow> string list" where
  "norm_segs absolute acc [] = rev acc"
| "norm_segs absolute acc (s # ss) =
     (if s = '''' \<or> s = ''.'' then norm_segs absolute acc ss
      else if s = ''..'' then
        (case acc of
           [] \<Rightarrow> norm_segs absolute (if absolute then [] else [''..'']) ss
         | a # as \<Rightarrow> norm_segs absolute (if a = ''..'' then ''..'' # acc else as) ss)
      else norm_segs absolute (s # acc) ss)"

definition path_resolve :: "string \<Rightarrow> string \<Rightarrow> string" where
  "path_resolve cwd p =
     (let full = (if starts_with p ''/'' then p else cwd @ ''/'' @ p)
      in ''/'' @ join ''/'' (norm_segs True [] (split_on (CHR ''/'') full)))"

definition path_join :: "string list \<Rightarrow> string" where
  "path_join parts =
     (let joined = join ''/'' (filter (\<lambda>p. p \<noteq> '''') parts)
      in if joined = '''' then ''.''
         else
           (let absolute = starts_with joined ''/''; trailing = ends_with joined ''/'';
                path = join ''/'' (norm_segs absolute [] (split_on (CHR ''/'') joined))
            in if path = '''' then (if absolute then ''/'' else if trailing then ''./'' else ''.'')
               else (if absolute then ''/'' else '''') @ path @ (if trailing then ''/'' else '''')))"

definition path_dirname :: "string \<Rightarrow> string" where
  "path_dirname p =
     (let r = dropWhile (\<lambda>c. c \<noteq> CHR ''/'') (rev p)
      in if r = [] then ''.'' else if tl r = [] then ''/'' else rev (tl r))"

section \<open>Where the data is\<close>

definition DEFAULT_MEMPHIS_DATA_DIR :: string where
  "DEFAULT_MEMPHIS_DATA_DIR = ''~/.memphis''"

definition expandHome :: "os_env \<Rightarrow> string \<Rightarrow> string" where
  "expandHome env input =
     (if input = ''~'' then os_home env
      else if starts_with input ''~/'' then path_join [os_home env, drop 2 input]
      else input)"

definition getDataDir :: "os_env \<Rightarrow> string" where
  "getDataDir env =
     (let configured = (case os_vars env ''MEMPHIS_DATA_DIR'' of Some v \<Rightarrow> v
          | None \<Rightarrow> (case os_vars env ''MEMPHIS_DIR'' of Some v \<Rightarrow> v | None \<Rightarrow> DEFAULT_MEMPHIS_DATA_DIR))
      in path_resolve (os_cwd env) (expandHome env configured))"

definition getChainPath :: "os_env \<Rightarrow> string option \<Rightarrow> string" where
  "getChainPath env chainName =
     (let chainsDir = path_join [getDataDir env, ''chains'']
      in case chainName of None \<Rightarrow> chainsDir
         | Some n \<Rightarrow> if n = '''' then chainsDir else path_join [chainsDir, n])"

definition getEmbeddingPath :: "os_env \<Rightarrow> string" where
  "getEmbeddingPath env = path_join [getDataDir env, ''embeddings'']"

definition getVaultPath :: "os_env \<Rightarrow> string" where
  "getVaultPath env = path_join [getDataDir env, ''vault'']"

definition getCachePath :: "os_env \<Rightarrow> string" where
  "getCachePath env = path_join [getDataDir env, ''cache'']"

definition getBackupPath :: "os_env \<Rightarrow> string" where
  "getBackupPath env = path_join [getDataDir env, ''backups'']"

definition getLogsPath :: "os_env \<Rightarrow> string" where
  "getLogsPath env = path_join [getDataDir env, ''logs'']"

definition getConfigPath :: "os_env \<Rightarrow> string list \<Rightarrow> string" where
  "getConfigPath env segments = path_join ([getDataDir env, ''config''] @ segments)"

definition getAppsPath :: "os_env \<Rightarrow> string" where
  "getAppsPath env = path_join [getDataDir env, ''apps'']"

section \<open>Normal paths\<close>

text \<open>A plain segment is the name of a directory entry; a normal path is absolute and made of plain segments.\<close>

definition plain_seg :: "string \<Rightarrow> bool" where
  "plain_seg s \<longleftrightarrow> s \<noteq> '''' \<and> s \<noteq> ''.'' \<and> s \<noteq> ''..'' \<and> CHR ''/'' \<notin> set s"

definition abs_path :: "string list \<Rightarrow> string" where
  "abs_path segs = ''/'' @ join ''/'' segs"

lemma norm_segs_plain: "list_all plain_seg ss \<Longrightarrow> norm_segs absolute acc ss = rev acc @ ss"
  by (induction ss arbitrary: acc) (auto simp: plain_seg_def)

lemma norm_segs_wf:
  "list_all plain_seg acc \<Longrightarrow> list_all (\<lambda>s. CHR ''/'' \<notin> set s) ss \<Longrightarrow> list_all plain_seg (norm_segs True acc ss)"
proof (induction ss arbitrary: acc)
  case Nil
  then show ?case by (simp add: list_all_iff)
next
  case (Cons s ss)
  show ?case
  proof (cases "s = '''' \<or> s = ''.''")
    case True
    with Cons show ?thesis by auto
  next
    case ne: False
    show ?thesis
    proof (cases "s = ''..''")
      case True
      with Cons ne show ?thesis by (cases acc) (auto simp: plain_seg_def)
    next
      case False
      then have "norm_segs True acc (s # ss) = norm_segs True (s # acc) ss" using ne by simp
      with Cons ne False show ?thesis by (simp add: plain_seg_def)
    qed
  qed
qed

lemma norm_segs_skip: "norm_segs absolute acc ('''' # ss) = norm_segs absolute acc ss"
  by simp

lemma plain_no_slash: "list_all plain_seg ss \<Longrightarrow> s \<in> set ss \<Longrightarrow> CHR ''/'' \<notin> set s"
  by (auto simp: list_all_iff plain_seg_def)

lemma split_on_join_plain:
  "list_all plain_seg ss \<Longrightarrow> ss \<noteq> [] \<Longrightarrow> split_on (CHR ''/'') (join ''/'' ss) = ss"
proof (induction ss rule: induct_list012)
  case (2 s)
  then have "CHR ''/'' \<notin> set s" by (simp add: plain_seg_def)
  then show ?case by (induction s) auto
next
  case (3 s t ss)
  then have s: "CHR ''/'' \<notin> set s" and "split_on (CHR ''/'') (join ''/'' (t # ss)) = t # ss"
    by (simp_all add: plain_seg_def)
  moreover have "split_on (CHR ''/'') (s @ ''/'' @ x) = s # split_on (CHR ''/'') x" for x
    using s by (induction s) auto
  ultimately show ?case by simp
qed simp

lemma resolve_normal: "\<exists>segs. path_resolve cwd p = abs_path segs \<and> list_all plain_seg segs"
proof -
  have "list_all (\<lambda>s. CHR ''/'' \<notin> set s) (split_on (CHR ''/'') x)" for x
    using split_on_no_sep by (auto simp: list_all_iff)
  then show ?thesis
    by (auto simp: path_resolve_def abs_path_def Let_def intro!: exI norm_segs_wf)
qed

lemma split_abs_path:
  "list_all plain_seg segs \<Longrightarrow> norm_segs True [] (split_on (CHR ''/'') (abs_path segs)) = segs"
  by (cases "segs = []") (auto simp: abs_path_def split_on_join_plain norm_segs_plain)

lemma resolve_abs_path: "list_all plain_seg segs \<Longrightarrow> path_resolve cwd (abs_path segs) = abs_path segs"
  by (simp add: path_resolve_def split_abs_path) (simp add: abs_path_def starts_with_def)

lemma join_snoc: "ws \<noteq> [] \<Longrightarrow> join sep (ws @ [w]) = join sep ws @ sep @ w"
  by (induction ws rule: induct_list012) auto

lemma plain_join_ends:
  "list_all plain_seg segs \<Longrightarrow> segs \<noteq> [] \<Longrightarrow> join ''/'' segs \<noteq> [] \<and> \<not> ends_with (join ''/'' segs) ''/''"
proof (induction segs rule: rev_induct)
  case (snoc s segs)
  then have s: "s \<noteq> []" "CHR ''/'' \<notin> set s" by (simp_all add: plain_seg_def)
  then obtain c w where "rev s = c # w" "c \<noteq> CHR ''/''"
    by (metis list.exhaust list.set_intros(1) rev_is_Nil_conv set_rev)
  then show ?case
    by (cases "segs = []") (auto simp: ends_with_def starts_with_def join_snoc)
qed simp

lemma join_abs_path:
  assumes "list_all plain_seg segs" and "plain_seg name"
  shows "path_join [abs_path segs, name] = abs_path (segs @ [name])"
proof -
  have name: "name \<noteq> []" using assms(2) by (simp add: plain_seg_def)
  have all: "list_all plain_seg (segs @ [name])" using assms by simp
  have "norm_segs True [] (split_on (CHR ''/'') (abs_path segs @ ''/'' @ name)) = segs @ [name]"
  proof (cases "segs = []")
    case True
    then show ?thesis using assms(2) split_on_join_plain [of "[name]"] by (simp add: abs_path_def) (simp add: plain_seg_def)
  next
    case False
    then have "abs_path segs @ ''/'' @ name = abs_path (segs @ [name])" by (simp add: abs_path_def join_snoc)
    then show ?thesis using split_abs_path [OF all] by simp
  qed
  moreover have "\<not> ends_with (abs_path segs @ ''/'' @ name) ''/''"
    using plain_join_ends [of "[name]"] assms(2) by (auto simp: ends_with_def starts_with_def take_Suc_conv_app_nth)
  ultimately show ?thesis
    using name plain_join_ends [OF all]
    by (simp add: path_join_def abs_path_def starts_with_def Let_def)
qed

end
