(* ===== verification/VaultStore.thy ===== *)
theory VaultStore
  imports JsonRoundtrip Errors
begin

text \<open>
  The store of encrypted vault entries (\<open>infra/storage/vault-entry-store.ts\<close>): a JSON file with the array of
  all entries ever saved, each with a fingerprint. The state is the contents of the file (\<open>None\<close> when it is
  not there); an entry is the JSON object it is. SHA-256 is the argument \<open>sha256\<close>; encryption belongs to
  the Rust bridge and is not part of the store.
\<close>

type_synonym vault_file = "string option"

definition json_opt :: "string \<Rightarrow> json option \<Rightarrow> (string \<times> json) list" where
  "json_opt k v = (case v of None \<Rightarrow> [] | Some x \<Rightarrow> [(k, x)])"

definition computeFingerprint :: "(string \<Rightarrow> string) \<Rightarrow> json \<Rightarrow> string" where
  "computeFingerprint sha256 entry =
     sha256 (JSON_stringify (JObj (json_opt ''key'' (jfield entry ''key'')
       @ json_opt ''encrypted'' (jfield entry ''encrypted'') @ json_opt ''iv'' (jfield entry ''iv''))))"

text \<open>The fields \<open>{...v}\<close> has.\<close>

fun spread :: "json \<Rightarrow> (string \<times> json) list" where
  "spread (JObj kvs) = kvs"
| "spread (JArr vs) = zip (map show_nat [0..<length vs]) vs"
| "spread (JStr s) = zip (map show_nat [0..<length s]) (map (\<lambda>c. JStr [c]) s)"
| "spread _ = []"

definition normalizeEntry :: "(string \<Rightarrow> string) \<Rightarrow> json \<Rightarrow> json" where
  "normalizeEntry sha256 item =
     (let fp = (case jstring (jfield item ''fingerprint'') of
            Some f \<Rightarrow> if f \<noteq> '''' then f else computeFingerprint sha256 item
          | None \<Rightarrow> computeFingerprint sha256 item)
      in JObj (AList.update ''fingerprint'' (JStr fp) (spread item)))"

definition readAll :: "(string \<Rightarrow> string) \<Rightarrow> vault_file \<Rightarrow> json list" where
  "readAll sha256 f =
     (case f of
        None \<Rightarrow> []
      | Some raw \<Rightarrow>
          if trim raw = [] then []
          else (case JSON_parse raw of
                  Some (JArr items) \<Rightarrow> if JNull \<in> set items then [] else map (normalizeEntry sha256) items
                | _ \<Rightarrow> []))"

definition writeAll :: "json list \<Rightarrow> vault_file" where
  "writeAll entries = Some (JSON_stringify2 (JArr entries))"

text \<open>\<open>entry\<close> has no \<open>createdAt\<close> field or one that is not \<open>undefined\<close>; \<open>null\<close> counts as missing.\<close>

definition storedEntry :: "(string \<Rightarrow> string) \<Rightarrow> string \<Rightarrow> (string \<times> json) list \<Rightarrow> json" where
  "storedEntry sha256 now entry =
     (let createdAt = (case map_of entry ''createdAt'' of None \<Rightarrow> JStr now | Some v \<Rightarrow> if v = JNull then JStr now else v)
      in JObj (AList.update ''fingerprint'' (JStr (computeFingerprint sha256 (JObj entry)))
                (AList.update ''createdAt'' createdAt entry)))"

definition saveVaultEntry ::
  "(string \<Rightarrow> string) \<Rightarrow> string \<Rightarrow> (string \<times> json) list \<Rightarrow> vault_file \<Rightarrow> json \<times> vault_file" where
  "saveVaultEntry sha256 now entry f =
     (let stored = storedEntry sha256 now entry
      in (stored, writeAll (readAll sha256 f @ [stored])))"

definition listVaultEntries :: "(string \<Rightarrow> string) \<Rightarrow> string option \<Rightarrow> vault_file \<Rightarrow> json list" where
  "listVaultEntries sha256 key f =
     (case key of
        None \<Rightarrow> readAll sha256 f
      | Some k \<Rightarrow> if k = '''' then readAll sha256 f
                 else filter (\<lambda>e. jfield e ''key'' = Some (JStr k)) (readAll sha256 f))"

definition getLatestVaultEntry :: "(string \<Rightarrow> string) \<Rightarrow> string \<Rightarrow> vault_file \<Rightarrow> json option" where
  "getLatestVaultEntry sha256 key f =
     (let es = listVaultEntries sha256 (Some key) f in if es = [] then None else Some (last es))"

definition verifyVaultEntry :: "(string \<Rightarrow> string) \<Rightarrow> json \<Rightarrow> bool" where
  "verifyVaultEntry sha256 entry \<longleftrightarrow>
     jfield entry ''fingerprint'' = Some (JStr (computeFingerprint sha256 entry))"

section \<open>Facts\<close>

lemma jfield_update: "jfield (JObj (AList.update k v kvs)) k' = (if k' = k then Some v else jfield (JObj kvs) k')"
  by (simp add: map_of_update)

lemma computeFingerprint_cong:
  "jfield e ''key'' = jfield e' ''key'' \<Longrightarrow> jfield e ''encrypted'' = jfield e' ''encrypted'' \<Longrightarrow>
   jfield e ''iv'' = jfield e' ''iv'' \<Longrightarrow> computeFingerprint sha e = computeFingerprint sha e'"
  by (simp add: computeFingerprint_def)

lemma stored_fields:
  "k \<notin> {''fingerprint'', ''createdAt''} \<Longrightarrow> jfield (storedEntry sha now entry) k = map_of entry k"
  by (simp add: storedEntry_def Let_def map_of_update)

lemma stored_fingerprint:
  "jfield (storedEntry sha now entry) ''fingerprint'' = Some (JStr (computeFingerprint sha (JObj entry)))"
  by (simp add: storedEntry_def Let_def map_of_update)

lemma stored_verifies: "verifyVaultEntry sha (storedEntry sha now entry)"
  unfolding verifyVaultEntry_def stored_fingerprint
  by (simp add: stored_fields cong: computeFingerprint_cong)
     (rule computeFingerprint_cong; simp add: stored_fields)

text \<open>What a store holds that only \<open>saveVaultEntry\<close> has written.\<close>

definition entry_wf :: "json \<Rightarrow> bool" where
  "entry_wf e \<longleftrightarrow> json_wf e \<and> is_object e \<and> (\<exists>f. jfield e ''fingerprint'' = Some (JStr f) \<and> f \<noteq> '''')"

lemma update_same: "map_of m k = Some v \<Longrightarrow> AList.update k v m = m"
  by (induction m) auto

lemma normalize_wf: "entry_wf e \<Longrightarrow> normalizeEntry sha e = e"
  by (cases e) (auto simp: entry_wf_def normalizeEntry_def update_same)

lemma readAll_writeAll:
  assumes "list_all entry_wf es"
  shows "readAll sha (writeAll es) = es"
proof -
  have wf: "json_wf (JArr es)" using assms by (simp add: list_all_iff entry_wf_def)
  have "JNull \<notin> set es" using assms by (auto simp: list_all_iff entry_wf_def)
  moreover have "trim (JSON_stringify2 (JArr es)) \<noteq> []"
    using parse_stringify2 [OF wf] by (cases es) (auto simp: JSON_stringify2_def trim_def trim_left_def is_space_def
        code_def text_of_def dropWhile_append)
  moreover have "map (normalizeEntry sha) es = es"
    using assms by (auto simp: list_all_iff normalize_wf intro: map_idI)
  ultimately show ?thesis
    by (simp add: readAll_def writeAll_def parse_stringify2 [OF wf])
qed

lemma entry_wf_stored:
  assumes "json_wf (JObj entry)" and "\<And>x. sha x \<noteq> ''''"
  shows "entry_wf (storedEntry sha now entry)"
proof -
  have update: "json_wf (JObj (AList.update k v kvs))" if "json_wf (JObj kvs)" "json_wf v" for k v kvs
  proof -
    have "json_wf (snd kv)" if "kv \<in> set (AList.update k v kvs)" "\<forall>kv \<in> set kvs. json_wf (snd kv)" for kv
      using that \<open>json_wf v\<close> by (induction kvs) (auto split: if_split_asm)
    with that(1) show ?thesis by (simp add: list_all_iff distinct_update)
  qed
  have "json_wf (case map_of entry ''createdAt'' of None \<Rightarrow> JStr now | Some v \<Rightarrow> if v = JNull then JStr now else v)"
    using assms(1) by (auto simp: list_all_iff split: option.splits dest: map_of_SomeD)
  then have "json_wf (storedEntry sha now entry)"
    unfolding storedEntry_def Let_def by (intro update assms(1)) simp_all
  moreover have "is_object (storedEntry sha now entry)" by (simp add: storedEntry_def Let_def)
  moreover have "computeFingerprint sha (JObj entry) \<noteq> ''''" using assms(2) by (simp add: computeFingerprint_def)
  ultimately show ?thesis by (simp add: entry_wf_def stored_fingerprint)
qed

lemma latest_filter:
  assumes "list_all entry_wf es" and "k \<noteq> ''''"
  shows "getLatestVaultEntry sha k (writeAll es) =
    (let hits = filter (\<lambda>e. jfield e ''key'' = Some (JStr k)) es in if hits = [] then None else Some (last hits))"
  using assms by (simp add: getLatestVaultEntry_def listVaultEntries_def readAll_writeAll)

section \<open>Properties\<close>

text \<open>
  Saving an entry makes it the latest of its key, verifiable, leaves the latest entry of every other key as
  it was, and keeps the file one that reads back as everything ever saved.
\<close>

theorem vault_save_then_latest:
  assumes "list_all entry_wf es" and "json_wf (JObj entry)" and "\<And>x. sha x \<noteq> ''''"
    and "map_of entry ''key'' = Some (JStr k)" and "k \<noteq> ''''"
    and "saveVaultEntry sha now entry (writeAll es) = (stored, f)"
  shows "getLatestVaultEntry sha k f = Some stored \<and> verifyVaultEntry sha stored \<and>
    (\<forall>k'. k' \<noteq> k \<and> k' \<noteq> '''' \<longrightarrow> getLatestVaultEntry sha k' f = getLatestVaultEntry sha k' (writeAll es)) \<and>
    f = writeAll (es @ [stored]) \<and> readAll sha f = es @ [stored]"
proof -
  have stored: "stored = storedEntry sha now entry" and f: "f = writeAll (es @ [stored])"
    using assms(6) by (auto simp: saveVaultEntry_def Let_def readAll_writeAll [OF assms(1)])
  have wf: "list_all entry_wf (es @ [stored])"
    using assms(1) entry_wf_stored [OF assms(2,3)] by (simp add: stored)
  have "jfield stored ''key'' = Some (JStr k)" by (simp add: stored stored_fields assms(4))
  then show ?thesis
    using stored_verifies [of sha now entry, folded stored]
    unfolding f latest_filter [OF wf assms(5)] readAll_writeAll [OF wf]
    by (simp add: latest_filter [OF wf] latest_filter [OF assms(1)] Let_def)
qed

theorem vault_save_then_latest_witness:
  "getLatestVaultEntry (\<lambda>s. ''#'' @ s) ''K'' (snd (saveVaultEntry (\<lambda>s. ''#'' @ s) ''now'' [(''key'', JStr ''K'')] (writeAll []))) =
     Some (fst (saveVaultEntry (\<lambda>s. ''#'' @ s) ''now'' [(''key'', JStr ''K'')] (writeAll [])))"
  using vault_save_then_latest [OF _ _ _ _ _ prod.collapse [symmetric],
      of "[]" "[(''key'', JStr ''K'')]" "\<lambda>s. ''#'' @ s" "''K''" "''now''", THEN conjunct1]
  by simp

text \<open>
  The fingerprint detects an exchanged key, ciphertext or initialisation vector as long as it stays in
  the file, or SHA-256 has a collision; once it is taken out, every content passes the verification.
\<close>

theorem vault_tampering:
  assumes "json_wf old" and "json_wf (JObj new)" and "verifyVaultEntry sha old"
    and "jfield old ''fingerprint'' = Some fp"
    and "(jfield old ''key'', jfield old ''encrypted'', jfield old ''iv'') \<noteq>
      (map_of new ''key'', map_of new ''encrypted'', map_of new ''iv'')"
  shows "(\<not> verifyVaultEntry sha (JObj (AList.update ''fingerprint'' fp new)) \<or> (\<exists>x y. x \<noteq> y \<and> sha x = sha y)) \<and>
    verifyVaultEntry sha (normalizeEntry sha (JObj (AList.delete ''fingerprint'' new)))"
proof
  let ?payload = "\<lambda>e. JObj (json_opt ''key'' (jfield e ''key'') @ json_opt ''encrypted'' (jfield e ''encrypted'')
      @ json_opt ''iv'' (jfield e ''iv''))"
  let ?new = "JObj (AList.update ''fingerprint'' fp new)"
  have field_wf: "json_wf v" if "json_wf e" "jfield e k = Some v" for e k v
    using that by (cases e) (auto simp: list_all_iff dest: map_of_SomeD)
  have payload_wf: "json_wf (?payload e)" if "json_wf e" for e
    using field_wf [OF that] by (auto simp: json_opt_def split: option.splits)
  have "?payload old \<noteq> ?payload (JObj new)"
    using assms(5)
    by (cases "map_of new ''key''"; cases "map_of new ''encrypted''"; cases "map_of new ''iv''")
       (auto simp: json_opt_def split: option.splits)
  then have "JSON_stringify (?payload old) \<noteq> JSON_stringify (?payload (JObj new))"
    using stringify_inj [OF payload_wf [OF assms(1)] payload_wf [OF assms(2)]] by blast
  moreover have "sha (JSON_stringify (?payload old)) = sha (JSON_stringify (?payload (JObj new)))"
    if "verifyVaultEntry sha ?new"
    using that assms(3,4) by (simp add: verifyVaultEntry_def computeFingerprint_def map_of_update)
  ultimately show "\<not> verifyVaultEntry sha ?new \<or> (\<exists>x y. x \<noteq> y \<and> sha x = sha y)" by blast
next
  show "verifyVaultEntry sha (normalizeEntry sha (JObj (AList.delete ''fingerprint'' new)))"
    by (simp add: verifyVaultEntry_def normalizeEntry_def computeFingerprint_def map_of_update map_of_delete)
qed

definition demo_vault_entry :: json where
  "demo_vault_entry = JObj [(''key'', JStr ''K''), (''encrypted'', JStr ''aa''),
     (''fingerprint'', JStr (computeFingerprint (\<lambda>s. s) (JObj [(''key'', JStr ''K''), (''encrypted'', JStr ''aa'')])))]"

theorem vault_tampering_witness:
  "verifyVaultEntry (\<lambda>s. s) (normalizeEntry (\<lambda>s. s) (JObj [(''key'', JStr ''K''), (''encrypted'', JStr ''bb'')])) \<and>
   verifyVaultEntry (\<lambda>s. s) demo_vault_entry"
proof -
  have ok: "json_wf demo_vault_entry" "verifyVaultEntry (\<lambda>s. s) demo_vault_entry"
    by (simp_all add: demo_vault_entry_def verifyVaultEntry_def computeFingerprint_def)
  show ?thesis
    using vault_tampering [OF ok(1) _ ok(2), of "[(''key'', JStr ''K''), (''encrypted'', JStr ''bb'')]"] ok(2)
    by (simp add: demo_vault_entry_def)
qed

end
