(* ===== verification/ManagedApps.thy ===== *)
theory ManagedApps
  imports AppSteps Paths VaultStore Sqlite
begin

text \<open>
  Managed apps (\<open>modules/apps/manifest.ts\<close>): manifests, their catalog, the plan of an action and its
  execution, import of a manifest.

  The schema library is the argument \<open>ap_parse\<close>; what the schema of the file asks for is \<open>schema_ok\<close>. What
  the host answers (platform, version, available commands, the outcome of each shell step, decryption,
  \<open>localeCompare\<close>, error texts) are fields of \<open>app_env\<close>. Files are a map from absolute paths; \<open>fs_dirs\<close> are
  the directories made and \<open>fs_runs\<close> the shell commands run, in order. Objects used as dictionaries are maps
  over their own keys in insertion order.
\<close>

section \<open>Manifests\<close>

datatype Capability = Workspace | Memory | Browser | Mcp | Secrets | Service

fun capability_text :: "Capability \<Rightarrow> string" where
  "capability_text Workspace = ''workspace''"
| "capability_text Memory = ''memory''"
| "capability_text Browser = ''browser''"
| "capability_text Mcp = ''mcp''"
| "capability_text Secrets = ''secrets''"
| "capability_text Service = ''service''"

datatype Platform = Linux | Darwin | Win32

fun platform_text :: "Platform \<Rightarrow> string" where
  "platform_text Linux = ''linux''"
| "platform_text Darwin = ''darwin''"
| "platform_text Win32 = ''win32''"

datatype PathSlot = HomeSlot | StateSlot | ConfigSlot

record RuntimeCommand =
  rc_name :: string
  rc_required :: bool
  rc_detail :: "string option"

record VaultFile =
  vf_key :: string
  vf_mode :: "string option"

record ManagedAppAction =
  aa_summary :: string
  aa_cwd :: "string option"
  aa_steps :: "string list"
  aa_env :: "(string, string) jsmap"
  aa_requiresEnv :: "string list"
  aa_vaultEnv :: "(string, string) jsmap"
  aa_vaultFiles :: "(string, VaultFile) jsmap"

record ManagedAppManifest =
  am_id :: string
  am_name :: string
  am_description :: string
  am_homepage :: "string option"
  am_capabilities :: "Capability list"
  am_platforms :: "Platform list"
  am_node :: "(string \<times> string option) option"
  am_commands :: "RuntimeCommand list"
  am_systemdUserService :: bool
  am_home :: string
  am_state :: string
  am_config :: string
  am_expose :: "(string, PathSlot) jsmap"
  am_actions :: "(string, ManagedAppAction) jsmap"
  am_notes :: "string list"

section \<open>The schema\<close>

text \<open>What the schema yields: every optional part is an option.\<close>

datatype FileBinding = KeyText string | KeyObject string "string option"

record ParsedAction =
  pa_summary :: string
  pa_cwd :: "string option"
  pa_steps :: "string list"
  pa_env :: "(string, string) jsmap option"
  pa_requiresEnv :: "string list option"
  pa_vaultEnv :: "(string, string) jsmap option"
  pa_vaultFiles :: "(string, FileBinding) jsmap option"

record ParsedRuntime =
  pr_node :: "(string \<times> string option) option"
  pr_commands :: "(string \<times> bool option \<times> string option) list option"
  pr_systemdUserService :: "bool option"

record ParsedPaths =
  pp_home :: "string option"
  pp_state :: "string option"
  pp_config :: "string option"
  pp_expose :: "(string, PathSlot) jsmap option"

record ParsedManifest =
  pm_schemaVersion :: int
  pm_id :: string
  pm_name :: string
  pm_description :: string
  pm_homepage :: "string option"
  pm_capabilities :: "Capability list option"
  pm_platforms :: "Platform list option"
  pm_runtime :: "ParsedRuntime option"
  pm_paths :: "ParsedPaths option"
  pm_actions :: "(string, ParsedAction) jsmap"
  pm_notes :: "string list option"

text \<open>\<open>/^[A-Z][A-Z0-9_]*$/\<close>, \<open>/^[0-7]{3,4}$/\<close>, \<open>/^[a-z0-9][a-z0-9-]*$/\<close>, \<open>/^[A-Za-z0-9._-]+$/\<close>.\<close>

definition env_name :: "string \<Rightarrow> bool" where
  "env_name s \<longleftrightarrow> s \<noteq> [] \<and> is_upper (hd s) \<and> list_all (\<lambda>c. is_upper c \<or> is_digit c \<or> c = CHR ''_'') s"

definition mode_text :: "string \<Rightarrow> bool" where
  "mode_text s \<longleftrightarrow> length s \<in> {3, 4} \<and> list_all (\<lambda>c. c \<in> set ''01234567'') s"

definition slug :: "string \<Rightarrow> bool" where
  "slug s \<longleftrightarrow> s \<noteq> [] \<and> hd s \<noteq> CHR ''-'' \<and> list_all (\<lambda>c. is_lower c \<or> is_digit c \<or> c = CHR ''-'') s"

definition command_name :: "string \<Rightarrow> bool" where
  "command_name s \<longleftrightarrow> s \<noteq> [] \<and> list_all (\<lambda>c. is_alnum c \<or> c \<in> set ''._-'') s"

definition opt_all :: "('a \<Rightarrow> bool) \<Rightarrow> 'a option \<Rightarrow> bool" where
  "opt_all P v = (case v of None \<Rightarrow> True | Some x \<Rightarrow> P x)"

fun binding_ok :: "FileBinding \<Rightarrow> bool" where
  "binding_ok (KeyText k) = env_name k"
| "binding_ok (KeyObject k mode) = (env_name k \<and> opt_all mode_text mode)"

definition action_ok :: "ParsedAction \<Rightarrow> bool" where
  "action_ok a \<longleftrightarrow>
     pa_summary a \<noteq> '''' \<and> opt_all (\<lambda>c. c \<noteq> '''') (pa_cwd a) \<and>
     list_all (\<lambda>s. s \<noteq> '''') (pa_steps a) \<and> pa_steps a \<noteq> [] \<and>
     opt_all wf_map (pa_env a) \<and> opt_all (list_all env_name) (pa_requiresEnv a) \<and>
     opt_all (\<lambda>m. wf_map m \<and> list_all (\<lambda>(k, v). env_name k \<and> env_name v) m) (pa_vaultEnv a) \<and>
     opt_all (\<lambda>m. wf_map m \<and> list_all (\<lambda>(p, b). p \<noteq> '''' \<and> binding_ok b) m) (pa_vaultFiles a)"

definition runtime_ok :: "ParsedRuntime \<Rightarrow> bool" where
  "runtime_ok r \<longleftrightarrow>
     opt_all (\<lambda>(v, rec). v \<noteq> '''' \<and> opt_all (\<lambda>x. x \<noteq> '''') rec) (pr_node r) \<and>
     opt_all (list_all (\<lambda>(name, required, detail). command_name name \<and> opt_all (\<lambda>d. d \<noteq> '''') detail)) (pr_commands r)"

definition paths_ok :: "ParsedPaths \<Rightarrow> bool" where
  "paths_ok p \<longleftrightarrow> opt_all (\<lambda>x. x \<noteq> '''') (pp_home p) \<and> opt_all (\<lambda>x. x \<noteq> '''') (pp_state p) \<and>
     opt_all (\<lambda>x. x \<noteq> '''') (pp_config p) \<and> opt_all wf_map (pp_expose p)"

definition schema_ok :: "(string \<Rightarrow> bool) \<Rightarrow> ParsedManifest \<Rightarrow> bool" where
  "schema_ok is_url m \<longleftrightarrow>
     pm_schemaVersion m = 1 \<and> slug (pm_id m) \<and> pm_name m \<noteq> '''' \<and> pm_description m \<noteq> '''' \<and>
     opt_all is_url (pm_homepage m) \<and> opt_all (\<lambda>cs. cs \<noteq> []) (pm_capabilities m) \<and>
     opt_all (\<lambda>ps. ps \<noteq> []) (pm_platforms m) \<and> opt_all runtime_ok (pm_runtime m) \<and>
     opt_all paths_ok (pm_paths m) \<and> wf_map (pm_actions m) \<and>
     list_all (\<lambda>(name, a). name \<noteq> '''' \<and> action_ok a) (pm_actions m) \<and> pm_actions m \<noteq> [] \<and>
     opt_all (list_all (\<lambda>n. n \<noteq> '''')) (pm_notes m)"

section \<open>Normal form\<close>

fun normalizeBinding :: "FileBinding \<Rightarrow> VaultFile" where
  "normalizeBinding (KeyText k) = \<lparr>vf_key = k, vf_mode = None\<rparr>"
| "normalizeBinding (KeyObject k mode) = \<lparr>vf_key = k, vf_mode = mode\<rparr>"

definition normalizeAction :: "ParsedAction \<Rightarrow> ManagedAppAction" where
  "normalizeAction a =
     \<lparr>aa_summary = pa_summary a, aa_cwd = pa_cwd a, aa_steps = pa_steps a, aa_env = or_else (pa_env a) [],
      aa_requiresEnv = or_else (pa_requiresEnv a) [], aa_vaultEnv = or_else (pa_vaultEnv a) [],
      aa_vaultFiles = map (\<lambda>(p, b). (p, normalizeBinding b)) (or_else (pa_vaultFiles a) [])\<rparr>"

definition normalizeManifest :: "ParsedManifest \<Rightarrow> ManagedAppManifest" where
  "normalizeManifest m =
     (let rt = pm_runtime m; ps = pm_paths m
      in \<lparr>am_id = pm_id m, am_name = pm_name m, am_description = pm_description m, am_homepage = pm_homepage m,
          am_capabilities = js_sort (\<lambda>a b. binary_cmp (capability_text a) (capability_text b))
            (or_else (pm_capabilities m) []),
          am_platforms = or_else (pm_platforms m) [Linux],
          am_node = Option.bind rt pr_node,
          am_commands = map (\<lambda>(name, required, detail). \<lparr>rc_name = name, rc_required = or_else required True, rc_detail = detail\<rparr>)
            (or_else (Option.bind rt pr_commands) []),
          am_systemdUserService = or_else (Option.bind rt pr_systemdUserService) False,
          am_home = or_else (Option.bind ps pp_home) ''${APP_ROOT}/home'',
          am_state = or_else (Option.bind ps pp_state) ''${APP_ROOT}/state'',
          am_config = or_else (Option.bind ps pp_config) ''${APP_ROOT}/config/app.json'',
          am_expose = or_else (Option.bind ps pp_expose) [],
          am_actions = map (\<lambda>(name, a). (name, normalizeAction a)) (pm_actions m),
          am_notes = or_else (pm_notes m) []\<rparr>)"

section \<open>The host\<close>

record app_env =
  ap_os :: os_env
  ap_process :: "string \<Rightarrow> string option"
  ap_parse :: "json \<Rightarrow> (thrown, ParsedManifest) result"
  ap_parse_error :: "string \<Rightarrow> thrown"
  ap_locale :: "string \<Rightarrow> string \<Rightarrow> int"
  ap_platform :: string
  ap_nodeVersion :: string
  ap_command :: "string \<Rightarrow> bool"
  ap_npmPrefix :: "string option"
  ap_sha256 :: "string \<Rightarrow> string"
  ap_vault :: vault_file
  ap_decrypt :: "json \<Rightarrow> (thrown, string) result"
  ap_run :: "nat \<Rightarrow> string \<Rightarrow> int option \<times> string \<times> string"

abbreviation ap_rawEnv :: "app_env \<Rightarrow> string \<Rightarrow> string option" where
  "ap_rawEnv env \<equiv> os_vars (ap_os env)"

record StepRun =
  sn_step :: string
  sn_cwd :: string
  sn_env :: "string \<Rightarrow> string option"

record app_fs =
  fs_files :: "(string, string) jsmap"
  fs_modes :: "(string, nat) jsmap"
  fs_dirs :: "string list"
  fs_runs :: "StepRun list"

definition mkdir :: "string \<Rightarrow> app_fs \<Rightarrow> app_fs" where
  "mkdir d fs = fs\<lparr>fs_dirs := fs_dirs fs @ [d]\<rparr>"

definition writeFile :: "string \<Rightarrow> string \<Rightarrow> app_fs \<Rightarrow> app_fs" where
  "writeFile p content fs = fs\<lparr>fs_files := AList.update p content (fs_files fs)\<rparr>"

definition app_resolve :: "app_env \<Rightarrow> string \<Rightarrow> string" where
  "app_resolve env p = path_resolve (os_cwd (ap_os env)) p"

text \<open>The message of an \<open>Error\<close>, or a fixed text for any other thrown value.\<close>

definition message_or :: "string \<Rightarrow> thrown \<Rightarrow> string" where
  "message_or text e = (case e of Other _ \<Rightarrow> text | _ \<Rightarrow> thrown_message e)"

section \<open>The catalog\<close>

datatype SourceKind = BuiltinSource | FileSource

record ManagedAppManifestRef =
  mr_manifest :: ManagedAppManifest
  mr_kind :: SourceKind
  mr_path :: "string option"

record ManagedAppCatalogInspection =
  ci_manifestsDir :: string
  ci_manifests :: "ManagedAppManifestRef list"
  ci_errors :: "(string \<times> string) list"
  ci_capabilityCounts :: "(Capability, nat) jsmap"

definition emptyManagedAppCapabilitySummary :: "(Capability, nat) jsmap" where
  "emptyManagedAppCapabilitySummary =
     [(Workspace, 0), (Memory, 0), (Browser, 0), (Mcp, 0), (Secrets, 0), (Service, 0)]"

definition count_capability :: "Capability \<Rightarrow> (Capability, nat) jsmap \<Rightarrow> (Capability, nat) jsmap" where
  "count_capability c counts = AList.update c (or_else (map_of counts c) 0 + 1) counts"

definition countManagedAppCapabilities :: "ManagedAppManifestRef list \<Rightarrow> (Capability, nat) jsmap" where
  "countManagedAppCapabilities refs =
     fold (\<lambda>ref counts. fold count_capability (am_capabilities (mr_manifest ref)) counts) refs
       emptyManagedAppCapabilitySummary"

definition manifestsDir :: "app_env \<Rightarrow> string" where
  "manifestsDir env = path_join [getAppsPath (ap_os env), ''manifests'']"

definition loadFileManifest :: "app_env \<Rightarrow> app_fs \<Rightarrow> string \<Rightarrow> (thrown, ManagedAppManifestRef) result" where
  "loadFileManifest env fs pathValue =
     (let resolved = app_resolve env pathValue
      in case map_of (fs_files fs) resolved of
           None \<Rightarrow> Inl (plain_error (''ENOENT: no such file or directory, open '' @ [CHR 0x27] @ resolved @ [CHR 0x27]))
         | Some raw \<Rightarrow>
             (case JSON_parse raw of
                None \<Rightarrow> Inl (ap_parse_error env raw)
              | Some v \<Rightarrow>
                  rbind (ap_parse env v) (\<lambda>m.
                    Inr \<lparr>mr_manifest = normalizeManifest m, mr_kind = FileSource, mr_path = Some resolved\<rparr>)))"

text \<open>The names of the files directly below a directory.\<close>

definition readdir :: "app_fs \<Rightarrow> string \<Rightarrow> string list" where
  "readdir fs dir =
     map (drop (length dir + 1))
       (filter (\<lambda>p. starts_with p (dir @ ''/'') \<and> CHR ''/'' \<notin> set (drop (length dir + 1) p)) (keys (fs_files fs)))"

fun merge_entries ::
  "app_env \<Rightarrow> app_fs \<Rightarrow> string \<Rightarrow> string list \<Rightarrow> (string, ManagedAppManifestRef) jsmap \<times> (string \<times> string) list \<Rightarrow>
   (string, ManagedAppManifestRef) jsmap \<times> (string \<times> string) list" where
  "merge_entries env fs dir [] (merged, errors) = (merged, errors)"
| "merge_entries env fs dir (entry # entries) (merged, errors) =
     (let pathValue = path_join [dir, entry]
      in case loadFileManifest env fs pathValue of
           Inr ref \<Rightarrow> merge_entries env fs dir entries (AList.update (am_id (mr_manifest ref)) ref merged, errors)
         | Inl e \<Rightarrow>
             merge_entries env fs dir entries
               (merged, errors @ [(pathValue, message_or ''unknown manifest parse error'' e)]))"

definition inspectManagedAppCatalog :: "app_env \<Rightarrow> app_fs \<Rightarrow> ManagedAppCatalogInspection" where
  "inspectManagedAppCatalog env fs =
     (let dir = manifestsDir env;
          names = (if dir \<in> set (fs_dirs fs)
                   then js_sort (ap_locale env) (filter (\<lambda>n. ends_with n ''.json'') (readdir fs dir)) else [])
      in case merge_entries env fs dir names ([], []) of
           (merged, errors) \<Rightarrow>
             (let manifests = js_sort (\<lambda>a b. ap_locale env (am_id (mr_manifest a)) (am_id (mr_manifest b))) (map snd merged)
              in \<lparr>ci_manifestsDir = dir, ci_manifests = manifests, ci_errors = errors,
                  ci_capabilityCounts = countManagedAppCapabilities manifests\<rparr>))"

definition listManagedAppManifestRefs :: "app_env \<Rightarrow> app_fs \<Rightarrow> ManagedAppManifestRef list" where
  "listManagedAppManifestRefs env fs = ci_manifests (inspectManagedAppCatalog env fs)"

text \<open>An absent or empty \<open>file\<close> argument is \<open>None\<close>.\<close>

definition getManagedAppManifest ::
  "app_env \<Rightarrow> app_fs \<Rightarrow> string option \<Rightarrow> string option \<Rightarrow> (thrown, ManagedAppManifestRef) result" where
  "getManagedAppManifest env fs i f =
     (case f of
        Some p \<Rightarrow> loadFileManifest env fs p
      | None \<Rightarrow>
          (let name = (case i of None \<Rightarrow> '''' | Some s \<Rightarrow> trim s)
           in if name = '''' then
                Inl (App \<lparr>err_code = VALIDATION_ERROR, err_message = ''managed app requires an id or --file manifest path'',
                  err_status = 400, err_details = None, err_suggestion = None\<rparr>)
              else
                (let manifests = listManagedAppManifestRefs env fs
                 in case find (\<lambda>ref. am_id (mr_manifest ref) = name) manifests of
                      Some hit \<Rightarrow> Inr hit
                    | None \<Rightarrow>
                        Inl (App (app_error VALIDATION_ERROR (''managed app manifest not found: '' @ name) 404
                          [(''id'', JStr name), (''available'', JArr (map (\<lambda>r. JStr (am_id (mr_manifest r))) manifests))])))))"

section \<open>Versions and templates\<close>

text \<open>
  \<open>Number(part) || 0\<close> for a part of a version: a decimal integer, and 0 for text that is no number. Hexadecimal
  and exponent forms do not occur in versions and count as no number here.
\<close>

definition version_part :: "string \<Rightarrow> int" where
  "version_part s =
     (let t = trim s; neg = (t \<noteq> [] \<and> hd t = CHR ''-''); body = (if t \<noteq> [] \<and> hd t \<in> {CHR ''-'', CHR ''+''} then tl t else t)
      in if body \<noteq> [] \<and> list_all is_digit body then (if neg then - int (digits_val body) else int (digits_val body)) else 0)"

fun compare_parts :: "int list \<Rightarrow> int list \<Rightarrow> int" where
  "compare_parts [] [] = 0"
| "compare_parts (a # as) [] = (if a > 0 then 1 else if a < 0 then - 1 else compare_parts as [])"
| "compare_parts [] (b # bs) = (if 0 > b then 1 else if 0 < b then - 1 else compare_parts [] bs)"
| "compare_parts (a # as) (b # bs) = (if a > b then 1 else if a < b then - 1 else compare_parts as bs)"

definition compareVersions :: "string \<Rightarrow> string \<Rightarrow> int" where
  "compareVersions left right =
     compare_parts (map version_part (split_on (CHR ''.'') left)) (map version_part (split_on (CHR ''.'') right))"

definition name_char :: "char \<Rightarrow> bool" where
  "name_char c \<longleftrightarrow> is_upper c \<or> is_digit c \<or> c = CHR ''_''"

text \<open>The name of a placeholder \<open>{NAME}\<close> at the start of a text, and the text after it.\<close>

definition placeholder :: "string \<Rightarrow> (string \<times> string) option" where
  "placeholder s =
     (case s of
        [] \<Rightarrow> None
      | b # t \<Rightarrow>
          (let name = takeWhile name_char t; rest = dropWhile name_char t
           in if b = CHR ''{'' \<and> name \<noteq> [] \<and> rest \<noteq> [] \<and> hd rest = CHR ''}'' then Some (name, tl rest) else None))"

lemma placeholder_shorter: "placeholder s = Some (name, rest) \<Longrightarrow> length rest < length s"
  by (auto simp: placeholder_def Let_def split: list.splits if_splits)
     (metis le_imp_less_Suc length_dropWhile_le length_tl diff_le_self order_trans)

function interpolateTemplate :: "string \<Rightarrow> (string, string) jsmap \<Rightarrow> string" where
  "interpolateTemplate [] vars = []"
| "interpolateTemplate (c # s) vars =
     (case (if c = CHR ''$'' then placeholder s else None) of
        Some (name, rest) \<Rightarrow> or_else (map_of vars name) '''' @ interpolateTemplate rest vars
      | None \<Rightarrow> c # interpolateTemplate s vars)"
  by pat_completeness auto

termination interpolateTemplate
  by (relation "measure (\<lambda>(s, vars). length s)") (auto split: if_splits dest: placeholder_shorter)

declare interpolateTemplate.simps(2) [simp del]

section \<open>Capabilities and paths\<close>

definition guidanceForManagedAppCapabilities :: "Capability list \<Rightarrow> string list" where
  "guidanceForManagedAppCapabilities caps =
        (if Workspace \<in> set caps then [''Workspace: initialize or sync a local project root with `memphis workspace init ./brain --json` and `memphis context sync ./brain --json`.''] else [])
      @ (if Memory \<in> set caps then [''Memory: keep vector stores or indexes downstream and prefer the workspace `memory/` directory for local state.''] else [])
      @ (if Browser \<in> set caps then [''Browser: keep browser adapters downstream and expose them through managed app actions instead of baking browser logic into MemphisOS core.''] else [])
      @ (if Mcp \<in> set caps then [''MCP: expose a clear `status` or `doctor` action for the downstream MCP endpoint; Memphis built-in MCP health is reported separately by `memphis doctor`.''] else [])
      @ (if Secrets \<in> set caps then [''Secrets: broker credentials through the Memphis vault and `vaultEnv`/`vaultFiles` bindings rather than committed env files.''] else [])
      @ (if Service \<in> set caps then [''Service: prefer a supervised long-running process such as a systemd --user service and verify it through explicit lifecycle actions.''] else [])"

definition warningHintsForManagedAppCapabilities :: "Capability list \<Rightarrow> string list" where
  "warningHintsForManagedAppCapabilities caps =
     (if Memory \<in> set caps \<and> Workspace \<notin> set caps \<and> Service \<notin> set caps
      then [''memory tag without workspace/service scope''] else [])
     @ (if Browser \<in> set caps \<and> Mcp \<notin> set caps \<and> Service \<notin> set caps
        then [''browser tag without mcp/service transport hint''] else [])"

record ManagedAppResolvedPaths =
  rp_dataDir :: string
  rp_manifestsDir :: string
  rp_appsDir :: string
  rp_appRoot :: string
  rp_home :: string
  rp_state :: string
  rp_config :: string

definition resolveManagedAppPaths :: "app_env \<Rightarrow> ManagedAppManifest \<Rightarrow> ManagedAppResolvedPaths" where
  "resolveManagedAppPaths env m =
     (let dataDir = getDataDir (ap_os env); appsDir = getAppsPath (ap_os env); appRoot = path_join [appsDir, am_id m];
          baseVars = [(''MEMPHIS_DATA_DIR'', dataDir), (''MEMPHIS_APPS_DIR'', appsDir), (''APP_ID'', am_id m),
                      (''APP_ROOT'', appRoot)]
      in \<lparr>rp_dataDir = dataDir, rp_manifestsDir = manifestsDir env, rp_appsDir = appsDir, rp_appRoot = appRoot,
          rp_home = app_resolve env (interpolateTemplate (am_home m) baseVars),
          rp_state = app_resolve env (interpolateTemplate (am_state m) baseVars),
          rp_config = app_resolve env (interpolateTemplate (am_config m) baseVars)\<rparr>)"

definition slot_path :: "ManagedAppResolvedPaths \<Rightarrow> PathSlot \<Rightarrow> string" where
  "slot_path ps s = (case s of HomeSlot \<Rightarrow> rp_home ps | StateSlot \<Rightarrow> rp_state ps | ConfigSlot \<Rightarrow> rp_config ps)"

text \<open>Assigning all entries of one object to another, in order.\<close>

definition assign_all :: "(string, 'v) jsmap \<Rightarrow> (string, 'v) jsmap \<Rightarrow> (string, 'v) jsmap" where
  "assign_all m extra = fold (\<lambda>(k, v). AList.update k v) extra m"

definition exportedEnvForManifest :: "ManagedAppManifest \<Rightarrow> ManagedAppResolvedPaths \<Rightarrow> (string, string) jsmap" where
  "exportedEnvForManifest m ps =
     assign_all
       [(''MEMPHIS_DATA_DIR'', rp_dataDir ps), (''MEMPHIS_APPS_DIR'', rp_appsDir ps), (''APP_ID'', am_id m),
        (''APP_ROOT'', rp_appRoot ps), (''APP_HOME'', rp_home ps), (''APP_STATE_DIR'', rp_state ps),
        (''APP_CONFIG_PATH'', rp_config ps), (''MEMPHIS_MANAGED_APP'', ''1'')]
       (map (\<lambda>(k, s). (k, slot_path ps s)) (am_expose m))"

section \<open>Requirements\<close>

datatype ReqStatus = Pass | Warn | Fail

record ManagedAppRequirementStatus =
  rq_id :: string
  rq_status :: ReqStatus
  rq_ok :: bool
  rq_required :: bool
  rq_detail :: string

definition requirement :: "string \<Rightarrow> bool \<Rightarrow> bool \<Rightarrow> string \<Rightarrow> string \<Rightarrow> ManagedAppRequirementStatus" where
  "requirement i required ok yes no =
     \<lparr>rq_id = i, rq_status = (if ok then Pass else if required then Fail else Warn), rq_ok = ok,
      rq_required = required, rq_detail = (if ok then yes else no)\<rparr>"

definition platform_ok :: "app_env \<Rightarrow> ManagedAppManifest \<Rightarrow> bool" where
  "platform_ok env m \<longleftrightarrow> ap_platform env \<in> set (map platform_text (am_platforms m))"

definition node_requirements :: "app_env \<Rightarrow> string \<times> string option \<Rightarrow> ManagedAppRequirementStatus list" where
  "node_requirements env node =
     (let current = ap_nodeVersion env; minVersion = fst node
      in requirement ''node-min-version'' True (compareVersions current minVersion \<ge> 0)
           (''node '' @ current @ '' satisfies minimum '' @ minVersion)
           (''node '' @ current @ '' is below minimum '' @ minVersion)
         # (case snd node of
              None \<Rightarrow> []
            | Some rec \<Rightarrow>
                if rec = '''' then []
                else [requirement ''node-recommended-version'' False (compareVersions current rec \<ge> 0)
                        (''node '' @ current @ '' satisfies recommended '' @ rec)
                        (''node '' @ current @ '' is below recommended '' @ rec)]))"

definition command_requirement :: "app_env \<Rightarrow> RuntimeCommand \<Rightarrow> ManagedAppRequirementStatus" where
  "command_requirement env c =
     requirement (''command:'' @ rc_name c) (rc_required c) (ap_command env (rc_name c)) (rc_name c @ '' available'')
       (rc_name c @ '' missing''
         @ (case rc_detail c of None \<Rightarrow> '''' | Some d \<Rightarrow> if d = '''' then '''' else '' ('' @ d @ '')''))"

definition checkManagedAppRequirements :: "app_env \<Rightarrow> ManagedAppManifest \<Rightarrow> ManagedAppRequirementStatus list" where
  "checkManagedAppRequirements env m =
     [requirement ''platform'' True (platform_ok env m) (''platform supported: '' @ ap_platform env)
        (''platform '' @ ap_platform env @ '' not in supported set: '' @ join '', '' (map platform_text (am_platforms m)))]
     @ (case am_node m of None \<Rightarrow> [] | Some node \<Rightarrow> node_requirements env node)
     @ map (command_requirement env) (am_commands m)
     @ (if am_systemdUserService m then
          [requirement ''systemd-user-service'' True (ap_command env ''systemctl'')
             ''systemctl available for Linux user-service workflows''
             ''systemctl missing; Linux user-service workflows will not work'']
        else [])"

definition resolveAction :: "ManagedAppManifest \<Rightarrow> string \<Rightarrow> (thrown, ManagedAppAction) result" where
  "resolveAction m actionName =
     (case map_of (am_actions m) actionName of
        Some hit \<Rightarrow> Inr hit
      | None \<Rightarrow>
          Inl (App (app_error VALIDATION_ERROR (''managed app action not found: '' @ actionName) 404
            [(''action'', JStr actionName), (''availableActions'', JArr (map JStr (keys (am_actions m))))])))"

definition nonblank :: "string option \<Rightarrow> bool" where
  "nonblank v = (case v of None \<Rightarrow> False | Some s \<Rightarrow> trim s \<noteq> '''')"

definition checkActionEnvRequirements ::
  "ManagedAppAction \<Rightarrow> (string \<Rightarrow> string option) \<Rightarrow> ManagedAppRequirementStatus list" where
  "checkActionEnvRequirements a vars =
     map (\<lambda>name. requirement (''env:'' @ name) True (nonblank (vars name)) (name @ '' configured'')
            (name @ '' is required for this action'')) (aa_requiresEnv a)"

section \<open>Secrets\<close>

datatype BindTarget = EnvTarget | FileTarget

datatype SecretSource = FromEnv | FromVault

record ManagedAppSecretBindingStatus =
  sb_target :: BindTarget
  sb_envName :: string
  sb_path :: "string option"
  sb_source :: SecretSource
  sb_vaultKey :: string
  sb_mode :: "string option"
  sb_ok :: bool
  sb_detail :: string

text \<open>The value of a vault key, or why there is none.\<close>

datatype SecretFailure = NoEntry | BadFingerprint | DecryptFailed string

definition read_secret :: "app_env \<Rightarrow> string \<Rightarrow> (SecretFailure, string) result" where
  "read_secret env key =
     (case getLatestVaultEntry (ap_sha256 env) key (ap_vault env) of
        None \<Rightarrow> Inl NoEntry
      | Some latest \<Rightarrow>
          if \<not> verifyVaultEntry (ap_sha256 env) latest then Inl BadFingerprint
          else (case ap_decrypt env latest of
                  Inr v \<Rightarrow> Inr v
                | Inl e \<Rightarrow> Inl (DecryptFailed (message_or ''vault resolution failed'' e))))"

fun binding_failure :: "string \<Rightarrow> string \<Rightarrow> string \<Rightarrow> SecretFailure \<Rightarrow> string" where
  "binding_failure name key hint NoEntry = name @ '' missing; add vault key '' @ key @ hint"
| "binding_failure name key hint BadFingerprint = name @ '' vault entry failed fingerprint verification''"
| "binding_failure name key hint (DecryptFailed msg) = name @ '' vault resolution failed: '' @ msg"

fun requirement_failure :: "string \<Rightarrow> string \<Rightarrow> SecretFailure \<Rightarrow> string" where
  "requirement_failure name key NoEntry = name @ '' unavailable; no vault entry found for '' @ key"
| "requirement_failure name key BadFingerprint =
     name @ '' unavailable; vault entry '' @ key @ '' failed fingerprint verification''"
| "requirement_failure name key (DecryptFailed msg) =
     name @ '' unavailable; vault key '' @ key @ '' failed to decrypt ('' @ msg @ '')''"

definition secret_binding ::
  "BindTarget \<Rightarrow> string \<Rightarrow> string option \<Rightarrow> SecretSource \<Rightarrow> string \<Rightarrow> string option \<Rightarrow> bool \<Rightarrow> string \<Rightarrow>
   ManagedAppSecretBindingStatus" where
  "secret_binding target envName path src vaultKey mode ok detail =
     \<lparr>sb_target = target, sb_envName = envName, sb_path = path, sb_source = src, sb_vaultKey = vaultKey,
      sb_mode = mode, sb_ok = ok, sb_detail = detail\<rparr>"

definition env_secret ::
  "app_env \<Rightarrow> string \<times> string \<Rightarrow>
   string option \<times> ManagedAppSecretBindingStatus \<times> ManagedAppRequirementStatus" where
  "env_secret env entry =
     (let envName = fst entry; vaultKey = snd entry; i = ''secret-env:'' @ envName
      in if nonblank (ap_rawEnv env envName) then
           (ap_rawEnv env envName,
            secret_binding EnvTarget envName None FromEnv vaultKey None True (envName @ '' provided directly via environment''),
            requirement i True True
              (envName @ '' available directly; vault key '' @ vaultKey @ '' not needed for this run'') '''')
         else (case read_secret env vaultKey of
             Inr v \<Rightarrow>
               (let text = envName @ '' resolved from vault key '' @ vaultKey
                in (Some v, secret_binding EnvTarget envName None FromVault vaultKey None True text,
                    requirement i True True text ''''))
           | Inl e \<Rightarrow>
               (None, secret_binding EnvTarget envName None FromVault vaultKey None False
                        (binding_failure envName vaultKey ('' or export '' @ envName) e),
                requirement i True False '''' (requirement_failure envName vaultKey e))))"

record SecretEnv =
  se_injectedEnv :: "(string, string) jsmap"
  se_bindings :: "ManagedAppSecretBindingStatus list"
  se_requirements :: "ManagedAppRequirementStatus list"

definition by_key :: "app_env \<Rightarrow> (string \<times> 'v) \<Rightarrow> (string \<times> 'v) \<Rightarrow> int" where
  "by_key env a b = ap_locale env (fst a) (fst b)"

definition resolveActionVaultEnv :: "app_env \<Rightarrow> ManagedAppAction \<Rightarrow> SecretEnv" where
  "resolveActionVaultEnv env a =
     (let entries = js_sort (by_key env) (aa_vaultEnv a); answers = map (env_secret env) entries
      in \<lparr>se_injectedEnv = concat (map2 (\<lambda>entry ans. case fst ans of None \<Rightarrow> [] | Some v \<Rightarrow> [(fst entry, v)]) entries answers),
          se_bindings = map (\<lambda>ans. fst (snd ans)) answers,
          se_requirements = map (\<lambda>ans. snd (snd ans)) answers\<rparr>)"

record SecretFile =
  sf_path :: string
  sf_content :: string
  sf_mode :: "string option"

record SecretFiles =
  ss_files :: "SecretFile list"
  ss_bindings :: "ManagedAppSecretBindingStatus list"
  ss_requirements :: "ManagedAppRequirementStatus list"

definition file_secret ::
  "app_env \<Rightarrow> (string, string) jsmap \<Rightarrow> string \<times> VaultFile \<Rightarrow>
   SecretFile list \<times> ManagedAppSecretBindingStatus \<times> ManagedAppRequirementStatus" where
  "file_secret env vars entry =
     (let filePath = app_resolve env (interpolateTemplate (fst entry) vars); key = vf_key (snd entry);
          mode = vf_mode (snd entry); i = ''secret-file:'' @ filePath
      in case read_secret env key of
           Inr content \<Rightarrow>
             (let text = filePath @ '' resolved from vault key '' @ key
              in ([\<lparr>sf_path = filePath, sf_content = content, sf_mode = mode\<rparr>],
                  secret_binding FileTarget '''' (Some filePath) FromVault key mode True text,
                  requirement i True True text ''''))
         | Inl e \<Rightarrow>
             ([], secret_binding FileTarget '''' (Some filePath) FromVault key mode False
                    (binding_failure filePath key '''' e),
              requirement i True False '''' (requirement_failure filePath key e)))"

definition resolveActionVaultFiles ::
  "app_env \<Rightarrow> ManagedAppAction \<Rightarrow> (string, string) jsmap \<Rightarrow> SecretFiles" where
  "resolveActionVaultFiles env a vars =
     (let answers = map (file_secret env vars) (js_sort (by_key env) (aa_vaultFiles a))
      in \<lparr>ss_files = concat (map fst answers), ss_bindings = map (\<lambda>ans. fst (snd ans)) answers,
          ss_requirements = map (\<lambda>ans. snd (snd ans)) answers\<rparr>)"

section \<open>Plan\<close>

record ManagedAppPlan =
  mp_ok :: bool
  mp_supportedPlatform :: bool
  mp_ref :: ManagedAppManifestRef
  mp_capabilityGuidance :: "string list"
  mp_action :: string
  mp_summary :: string
  mp_applyRequested :: bool
  mp_willExecute :: bool
  mp_paths :: ManagedAppResolvedPaths
  mp_exportedEnv :: "(string, string) jsmap"
  mp_secretBindings :: "ManagedAppSecretBindingStatus list"
  mp_cwd :: string
  mp_steps :: "string list"
  mp_requirements :: "ManagedAppRequirementStatus list"

definition planManagedAppAction ::
  "app_env \<Rightarrow> ManagedAppManifestRef \<Rightarrow> string \<Rightarrow> bool \<Rightarrow> (thrown, ManagedAppPlan) result" where
  "planManagedAppAction env ref actionName apply_it =
     (let m = mr_manifest ref
      in rbind (resolveAction m actionName) (\<lambda>action.
         let paths = resolveManagedAppPaths env m;
             templateVars = assign_all (exportedEnvForManifest m paths) [(''MEMPHIS_MANIFESTS_DIR'', rp_manifestsDir paths)];
             secretResolution = resolveActionVaultEnv env action;
             effectiveEnv = map_add (ap_rawEnv env) (map_of (se_injectedEnv secretResolution));
             secretFileResolution = resolveActionVaultFiles env action templateVars;
             cwd = app_resolve env (interpolateTemplate (or_else (aa_cwd action) (rp_home paths)) templateVars);
             steps = map (\<lambda>s. interpolateTemplate s templateVars) (aa_steps action)
         in rbind (enforceManifestSteps steps (am_id m) actionName) (\<lambda>_.
            let requirements = checkManagedAppRequirements env m @ se_requirements secretResolution
                  @ ss_requirements secretFileResolution @ checkActionEnvRequirements action effectiveEnv;
                ok = list_all (\<lambda>r. \<not> rq_required r \<or> rq_ok r) requirements
            in Inr \<lparr>mp_ok = ok,
                 mp_supportedPlatform =
                   (case find (\<lambda>r. rq_id r = ''platform'') requirements of Some r \<Rightarrow> rq_ok r | None \<Rightarrow> True),
                 mp_ref = ref, mp_capabilityGuidance = guidanceForManagedAppCapabilities (am_capabilities m),
                 mp_action = actionName, mp_summary = aa_summary action, mp_applyRequested = apply_it,
                 mp_willExecute = (apply_it \<and> ok), mp_paths = paths,
                 mp_exportedEnv = assign_all templateVars
                   (map (\<lambda>(k, v). (k, interpolateTemplate v templateVars)) (aa_env action)),
                 mp_secretBindings = se_bindings secretResolution @ ss_bindings secretFileResolution,
                 mp_cwd = cwd, mp_steps = steps, mp_requirements = requirements\<rparr>)))"

section \<open>Execution\<close>

record ManagedAppStepResult =
  st_step :: string
  st_cwd :: string
  st_exitCode :: int
  st_stdout :: string
  st_stderr :: string

definition ensureManagedAppLayout :: "ManagedAppResolvedPaths \<Rightarrow> app_fs \<Rightarrow> app_fs" where
  "ensureManagedAppLayout ps fs =
     fold mkdir [rp_manifestsDir ps, rp_appsDir ps, rp_appRoot ps, rp_home ps, rp_state ps, path_dirname (rp_config ps)] fs"

definition octal_val :: "string \<Rightarrow> nat" where
  "octal_val s = foldl (\<lambda>n c. n * 8 + digit_val c) 0 s"

fun materializeSecretFiles :: "SecretFile list \<Rightarrow> app_fs \<Rightarrow> app_fs" where
  "materializeSecretFiles [] fs = fs"
| "materializeSecretFiles (f # rest) fs =
     (let fs = writeFile (sf_path f) (sf_content f) (mkdir (path_dirname (sf_path f)) fs);
          fs = fs\<lparr>fs_modes := AList.update (sf_path f) (octal_val (or_else (sf_mode f) ''600'')) (fs_modes fs)\<rparr>
      in materializeSecretFiles rest fs)"

definition npmGlobalBin :: "app_env \<Rightarrow> string option" where
  "npmGlobalBin env =
     (case ap_npmPrefix env of
        None \<Rightarrow> None
      | Some out \<Rightarrow> (let prefix = trim out in if prefix = '''' then None else Some (path_join [prefix, ''bin''])))"

definition step_env :: "app_env \<Rightarrow> (string, string) jsmap \<Rightarrow> (string, string) jsmap \<Rightarrow> string \<Rightarrow> string option" where
  "step_env env exported injected =
     (let merged = map_add (map_add (map_add (ap_process env) (ap_rawEnv env)) (map_of exported)) (map_of injected)
      in case npmGlobalBin env of
           None \<Rightarrow> merged
         | Some bin \<Rightarrow>
             merged(''PATH'' \<mapsto> bin @ '':'' @ (case merged ''PATH'' of Some p \<Rightarrow> p | None \<Rightarrow> or_else (ap_process env ''PATH'') '''')))"

fun run_steps ::
  "app_env \<Rightarrow> ManagedAppPlan \<Rightarrow> (string \<Rightarrow> string option) \<Rightarrow> string list \<Rightarrow> ManagedAppStepResult list \<Rightarrow> app_fs \<Rightarrow>
   (thrown, ManagedAppStepResult list) result \<times> app_fs" where
  "run_steps env plan vars [] results fs = (Inr results, fs)"
| "run_steps env plan vars (step # steps) results fs =
     (case ap_run env (length (fs_runs fs)) step of
        (status, out, err) \<Rightarrow>
          (let fs = fs\<lparr>fs_runs := fs_runs fs @ [\<lparr>sn_step = step, sn_cwd = mp_cwd plan, sn_env = vars\<rparr>]\<rparr>;
               exitCode = or_else status 1
           in if exitCode \<noteq> 0 then
                (Inl (App (app_error INTERNAL_ERROR (''managed app action failed: '' @ step) 500
                   [(''manifestId'', JStr (am_id (mr_manifest (mp_ref plan)))), (''action'', JStr (mp_action plan)),
                    (''cwd'', JStr (mp_cwd plan)), (''exitCode'', JNum exitCode), (''stdout'', JStr out),
                    (''stderr'', JStr err)])), fs)
              else run_steps env plan vars steps
                     (results @ [\<lparr>st_step = step, st_cwd = mp_cwd plan, st_exitCode = exitCode, st_stdout = out,
                                  st_stderr = err\<rparr>]) fs))"

record ManagedAppExecutionResult =
  er_plan :: ManagedAppPlan
  er_executed :: bool
  er_results :: "ManagedAppStepResult list"

definition requirements_error :: "ManagedAppPlan \<Rightarrow> thrown" where
  "requirements_error plan =
     (let failed = map rq_detail (filter (\<lambda>r. rq_required r \<and> \<not> rq_ok r) (mp_requirements plan))
      in App (app_error VALIDATION_ERROR
           (''managed app action cannot run until requirements pass: '' @ join ''; '' failed) 400
           [(''action'', JStr (mp_action plan)), (''manifestId'', JStr (am_id (mr_manifest (mp_ref plan)))),
            (''failedRequirements'', JArr (map JStr failed))]))"

definition executeManagedAppAction ::
  "app_env \<Rightarrow> ManagedAppManifestRef \<Rightarrow> string \<Rightarrow> bool \<Rightarrow> app_fs \<Rightarrow>
   (thrown, ManagedAppExecutionResult) result \<times> app_fs" where
  "executeManagedAppAction env ref actionName apply_it fs =
     (case planManagedAppAction env ref actionName apply_it of
        Inl e \<Rightarrow> (Inl e, fs)
      | Inr plan \<Rightarrow>
          if \<not> apply_it then (Inr \<lparr>er_plan = plan, er_executed = False, er_results = []\<rparr>, fs)
          else if \<not> mp_ok plan then (Inl (requirements_error plan), fs)
          else
            (case resolveAction (mr_manifest ref) actionName of
               Inl e \<Rightarrow> (Inl e, ensureManagedAppLayout (mp_paths plan) fs)
             | Inr action \<Rightarrow>
                 (let secretResolution = resolveActionVaultEnv env action;
                      templateVars = assign_all (mp_exportedEnv plan) [(''MEMPHIS_MANIFESTS_DIR'', rp_manifestsDir (mp_paths plan))];
                      secretFiles = resolveActionVaultFiles env action templateVars;
                      fs = materializeSecretFiles (ss_files secretFiles) (ensureManagedAppLayout (mp_paths plan) fs);
                      vars = step_env env (mp_exportedEnv plan) (se_injectedEnv secretResolution)
                  in case run_steps env plan vars (mp_steps plan) [] fs of
                       (Inl e, fs) \<Rightarrow> (Inl e, fs)
                     | (Inr results, fs) \<Rightarrow>
                         (Inr \<lparr>er_plan = plan, er_executed = True, er_results = results\<rparr>, fs))))"

section \<open>Validation, import, description\<close>

fun enforce_actions :: "string \<Rightarrow> (string, ManagedAppAction) jsmap \<Rightarrow> (thrown, unit) result" where
  "enforce_actions i [] = Inr ()"
| "enforce_actions i ((name, a) # rest) = rbind (enforceManifestSteps (aa_steps a) i name) (\<lambda>_. enforce_actions i rest)"

text \<open>\<open>Inl (path, error)\<close> is the result with \<open>ok: false\<close>.\<close>

definition validateManagedAppManifestFile ::
  "app_env \<Rightarrow> app_fs \<Rightarrow> string \<Rightarrow> (string \<times> string, ManagedAppManifestRef) result" where
  "validateManagedAppManifestFile env fs pathValue =
     (case rbind (loadFileManifest env fs pathValue)
             (\<lambda>ref. rbind (enforce_actions (am_id (mr_manifest ref)) (am_actions (mr_manifest ref))) (\<lambda>_. Inr ref)) of
        Inr ref \<Rightarrow> Inr ref
      | Inl e \<Rightarrow> Inl (app_resolve env pathValue, message_or ''unknown manifest parse error'' e))"

record ManagedAppImportResult =
  ir_ok :: bool
  ir_id :: string
  ir_dest :: string
  ir_conflict :: bool
  ir_overwritten :: bool
  ir_error :: "string option"

definition importManagedAppManifestFile ::
  "app_env \<Rightarrow> string \<Rightarrow> bool \<Rightarrow> app_fs \<Rightarrow> ManagedAppImportResult \<times> app_fs" where
  "importManagedAppManifestFile env pathValue force fs =
     (case validateManagedAppManifestFile env fs pathValue of
        Inl (_, e) \<Rightarrow>
          (\<lparr>ir_ok = False, ir_id = '''', ir_dest = '''', ir_conflict = False, ir_overwritten = False, ir_error = Some e\<rparr>, fs)
      | Inr ref \<Rightarrow>
          (let i = am_id (mr_manifest ref); dir = manifestsDir env; dest = path_join [dir, i @ ''.json''];
               conflict = (map_of (fs_files fs) dest \<noteq> None)
           in if conflict \<and> \<not> force then
                (\<lparr>ir_ok = False, ir_id = i, ir_dest = dest, ir_conflict = True, ir_overwritten = False,
                  ir_error = Some (''manifest '' @ i @ '' already exists at '' @ dest @ ''; use --force to overwrite'')\<rparr>, fs)
              else
                (\<lparr>ir_ok = True, ir_id = i, ir_dest = dest, ir_conflict = conflict, ir_overwritten = conflict, ir_error = None\<rparr>,
                 writeFile dest (or_else (map_of (fs_files fs) (app_resolve env pathValue)) '''') (mkdir dir fs))))"

record ManagedAppDescription =
  md_ref :: ManagedAppManifestRef
  md_capabilityGuidance :: "string list"
  md_capabilityWarnings :: "string list"
  md_actions :: "string list"

definition describeManagedAppManifest :: "ManagedAppManifestRef \<Rightarrow> ManagedAppDescription" where
  "describeManagedAppManifest ref =
     (let m = mr_manifest ref
      in \<lparr>md_ref = ref, md_capabilityGuidance = guidanceForManagedAppCapabilities (am_capabilities m),
          md_capabilityWarnings = warningHintsForManagedAppCapabilities (am_capabilities m),
          md_actions = js_sort binary_cmp (keys (am_actions m))\<rparr>)"

end
