(* ===== verification/ManagedAppsLaws.thy ===== *)
theory ManagedAppsLaws
  imports ManagedApps "HOL-Library.Sublist"
begin

text \<open>
  What managed apps guarantee: manifests that leave the schema are well formed and stay below the apps
  directory; nothing runs that the plan has not checked; secrets come from verified vault entries only; an
  import adds one file that loads as what was validated. The schema library enters by \<open>schema_sound\<close>: what it
  returns satisfies the schema of the file.
\<close>

definition schema_sound :: "(string \<Rightarrow> bool) \<Rightarrow> app_env \<Rightarrow> bool" where
  "schema_sound is_url env \<longleftrightarrow> (\<forall>v m. ap_parse env v = Inr m \<longrightarrow> schema_ok is_url m)"

section \<open>Versions are ordered\<close>

lemma compare_parts_swap: "compare_parts xs ys + compare_parts ys xs = 0"
  by (induction xs ys rule: compare_parts.induct) auto

lemma compare_parts_trans:
  "compare_parts xs ys \<le> 0 \<Longrightarrow> compare_parts ys zs \<le> 0 \<Longrightarrow> compare_parts xs zs \<le> 0"
proof (induction xs ys arbitrary: zs rule: compare_parts.induct)
  case (2 a as)
  note IH = "2.IH" and prems = "2.prems"
  show ?case
    using prems IH [of "[]"] IH [of "tl zs"]
    by (cases zs) (simp_all split: if_split if_split_asm)
next
  case (3 b bs)
  note IH = "3.IH" and prems = "3.prems"
  show ?case
    using prems IH [of "[]"] IH [of "tl zs"]
    by (cases zs) (simp_all split: if_split if_split_asm)
next
  case (4 a as b bs)
  note IH = "4.IH" and prems = "4.prems"
  show ?case
    using prems IH [of "[]"] IH [of "tl zs"]
    by (cases zs) (simp_all split: if_split if_split_asm)
qed simp

interpretation version_order: comparator compareVersions
proof
  fix x y z
  show "compareVersions x y \<le> 0 \<or> compareVersions y x \<le> 0"
    unfolding compareVersions_def
    using compare_parts_swap [of "map version_part (split_on (CHR ''.'') x)" "map version_part (split_on (CHR ''.'') y)"]
    by linarith
  show "compareVersions x y \<le> 0 \<Longrightarrow> compareVersions y z \<le> 0 \<Longrightarrow> compareVersions x z \<le> 0"
    unfolding compareVersions_def by (rule compare_parts_trans)
qed

section \<open>What a plan has checked\<close>

lemma plan_Inr:
  assumes "planManagedAppAction env ref name apply_it = Inr plan"
  obtains action where "resolveAction (mr_manifest ref) name = Inr action"
    and "mp_paths plan = resolveManagedAppPaths env (mr_manifest ref)"
    and "mp_ok plan \<longleftrightarrow> (\<forall>q \<in> set (mp_requirements plan). rq_required q \<longrightarrow> rq_ok q)"
    and "\<forall>s \<in> set (mp_steps plan). step_ok s"
    and "set (ss_bindings (resolveActionVaultFiles env action
            (assign_all (exportedEnvForManifest (mr_manifest ref) (mp_paths plan))
              [(''MEMPHIS_MANIFESTS_DIR'', rp_manifestsDir (mp_paths plan))]))) \<subseteq> set (mp_secretBindings plan)"
    and "set (ss_requirements (resolveActionVaultFiles env action
            (assign_all (exportedEnvForManifest (mr_manifest ref) (mp_paths plan))
              [(''MEMPHIS_MANIFESTS_DIR'', rp_manifestsDir (mp_paths plan))]))) \<subseteq> set (mp_requirements plan)"
    and "mp_exportedEnv plan =
          (let vars = assign_all (exportedEnvForManifest (mr_manifest ref) (mp_paths plan))
              [(''MEMPHIS_MANIFESTS_DIR'', rp_manifestsDir (mp_paths plan))]
           in assign_all vars (map (\<lambda>(k, v). (k, interpolateTemplate v vars)) (aa_env action)))"
    and "mp_ref plan = ref" and "mp_action plan = name"
proof -
  from assms obtain action where action: "resolveAction (mr_manifest ref) name = Inr action"
    by (auto simp: planManagedAppAction_def Let_def rbind_Inr_iff)
  from assms show thesis
    unfolding planManagedAppAction_def Let_def action rbind.simps rbind_Inr_iff enforceManifestSteps_Inr
    apply (elim exE conjE)
    apply (drule sum.inject(2) [THEN iffD1])
    apply (drule sym)
    apply (rule that [OF action])
    apply (simp_all only: ManagedAppPlan.simps list_all_iff imp_conv_disj set_append Un_upper2 Let_def
        Un_assoc [symmetric] le_supI1)
    done
qed

section \<open>What an execution does to the disk\<close>

lemma mkdir_fields [simp]: "fs_files (mkdir d fs) = fs_files fs" "fs_runs (mkdir d fs) = fs_runs fs"
  by (simp_all add: mkdir_def)

lemma writeFile_fields [simp]:
  "fs_files (writeFile p c fs) = AList.update p c (fs_files fs)" "fs_runs (writeFile p c fs) = fs_runs fs"
  "fs_dirs (writeFile p c fs) = fs_dirs fs"
  by (simp_all add: writeFile_def)

lemma layout_fields [simp]:
  "fs_files (ensureManagedAppLayout ps fs) = fs_files fs" "fs_runs (ensureManagedAppLayout ps fs) = fs_runs fs"
  by (simp_all add: ensureManagedAppLayout_def)

lemma materialize_runs [simp]: "fs_runs (materializeSecretFiles fls fs) = fs_runs fs"
  by (induction fls arbitrary: fs) (simp_all add: Let_def)

lemma materialize_files:
  "map_of (fs_files (materializeSecretFiles fls fs)) p \<noteq> map_of (fs_files fs) p \<Longrightarrow>
     \<exists>f \<in> set fls. sf_path f = p \<and> map_of (fs_files (materializeSecretFiles fls fs)) p = Some (sf_content f)"
proof (induction fls arbitrary: fs)
  case Nil
  then show ?case by simp
next
  case (Cons f fls)
  define fs1 where "fs1 = (writeFile (sf_path f) (sf_content f) (mkdir (path_dirname (sf_path f)) fs))
    \<lparr>fs_modes := AList.update (sf_path f) (octal_val (or_else (sf_mode f) ''600''))
       (fs_modes (writeFile (sf_path f) (sf_content f) (mkdir (path_dirname (sf_path f)) fs)))\<rparr>"
  have step: "materializeSecretFiles (f # fls) fs = materializeSecretFiles fls fs1"
    by (simp add: fs1_def Let_def)
  have f1: "map_of (fs_files fs1) p = (if p = sf_path f then Some (sf_content f) else map_of (fs_files fs) p)"
    by (simp add: fs1_def map_of_update)
  show ?case
  proof (cases "map_of (fs_files (materializeSecretFiles fls fs1)) p = map_of (fs_files fs1) p")
    case True
    with Cons.prems f1 show ?thesis unfolding step by (auto split: if_splits)
  next
    case False
    from Cons.IH [OF this] show ?thesis unfolding step by auto
  qed
qed

lemma run_steps_files: "run_steps env plan vars steps results fs = (r, fs') \<Longrightarrow> fs_files fs' = fs_files fs"
  by (induction steps arbitrary: results fs)
     (auto simp: Let_def split: prod.splits if_splits)

lemma run_steps_runs:
  "run_steps env plan vars steps results fs = (r, fs') \<Longrightarrow>
     \<exists>k \<le> length steps. fs_runs fs' = fs_runs fs @ map (\<lambda>s. \<lparr>sn_step = s, sn_cwd = mp_cwd plan, sn_env = vars\<rparr>) (take k steps) \<and>
       (is_ok r \<longrightarrow> k = length steps)"
proof (induction steps arbitrary: results fs)
  case Nil
  then show ?case by auto
next
  case (Cons s steps)
  obtain status out err where run: "ap_run env (length (fs_runs fs)) s = (status, out, err)" by (metis prod_cases3)
  show ?case
  proof (cases "or_else status 1 = 0")
    case False
    with Cons.prems run show ?thesis by (intro exI [of _ 1]) (auto simp: Let_def)
  next
    case True
    with Cons.prems run Cons.IH obtain k where "k \<le> length steps"
      "fs_runs fs' = (fs_runs fs @ [\<lparr>sn_step = s, sn_cwd = mp_cwd plan, sn_env = vars\<rparr>])
         @ map (\<lambda>s. \<lparr>sn_step = s, sn_cwd = mp_cwd plan, sn_env = vars\<rparr>) (take k steps)"
      "is_ok r \<longrightarrow> k = length steps"
      by (fastforce simp: Let_def)
    then show ?thesis by (intro exI [of _ "Suc k"]) simp
  qed
qed

lemma secret_files_from_vault:
  assumes "f \<in> set (ss_files (resolveActionVaultFiles env action vars))"
  shows "\<exists>t b entry. (t, b) \<in> set (aa_vaultFiles action) \<and>
    sf_path f = app_resolve env (interpolateTemplate t vars) \<and>
    getLatestVaultEntry (ap_sha256 env) (vf_key b) (ap_vault env) = Some entry \<and>
    verifyVaultEntry (ap_sha256 env) entry \<and> ap_decrypt env entry = Inr (sf_content f)"
proof -
  from assms obtain e where e: "e \<in> set (aa_vaultFiles action)" and f: "f \<in> set (fst (file_secret env vars e))"
    by (auto simp: resolveActionVaultFiles_def Let_def)
  obtain t b where tb: "e = (t, b)" by force
  from f obtain content where "read_secret env (vf_key b) = Inr content"
    and f2: "sf_path f = app_resolve env (interpolateTemplate t vars)" "sf_content f = content"
    by (auto simp: file_secret_def Let_def tb split: sum.splits)
  then show ?thesis using e tb f2
    by (auto simp: read_secret_def split: option.splits if_splits sum.splits)
qed

lemma execute_cases:
  assumes "executeManagedAppAction env ref name apply_it fs = (r, fs')"
  obtains "fs' = fs" "apply_it \<longrightarrow> \<not> is_ok r"
  | plan action fs1 vars where "apply_it" "planManagedAppAction env ref name True = Inr plan" "mp_ok plan"
      "resolveAction (mr_manifest ref) name = Inr action"
      "fs1 = materializeSecretFiles (ss_files (resolveActionVaultFiles env action
          (assign_all (mp_exportedEnv plan) [(''MEMPHIS_MANIFESTS_DIR'', rp_manifestsDir (mp_paths plan))])))
          (ensureManagedAppLayout (mp_paths plan) fs)"
      "\<exists>r0. run_steps env plan vars (mp_steps plan) [] fs1 = (r0, fs') \<and> (is_ok r \<longrightarrow> is_ok r0)"
proof (cases "planManagedAppAction env ref name apply_it")
  case (Inl e)
  then show thesis using that(1) assms by (auto simp: executeManagedAppAction_def)
next
  case (Inr plan)
  show thesis
  proof (cases "apply_it \<and> mp_ok plan")
    case False
    then show thesis using that(1) assms Inr by (auto simp: executeManagedAppAction_def split: if_splits)
  next
    case True
    obtain action where action: "resolveAction (mr_manifest ref) name = Inr action"
      using plan_Inr [OF Inr] by blast
    show thesis
      using assms Inr True action
      by (intro that(2) [OF _ _ _ action refl])
         (auto simp: executeManagedAppAction_def Let_def split: prod.splits sum.splits)
  qed
qed

section \<open>Where things are\<close>

lemma plain_lits: "plain_seg ''apps''" "plain_seg ''manifests''"
  by (simp_all add: plain_seg_def)

lemma plain_slug: "slug i \<Longrightarrow> plain_seg i \<and> plain_seg (i @ ''.json'')"
proof -
  assume slug: "slug i"
  have "CHR ''/'' \<notin> set i" "CHR ''.'' \<notin> set i"
    using slug by (auto simp: slug_def list_all_iff is_lower_def is_digit_def code_def dest!: bspec)
  moreover have "i \<noteq> []" using slug by (simp add: slug_def)
  ultimately show ?thesis by (auto simp: plain_seg_def append_eq_Cons_conv)
qed

lemma data_dir_normal: obtains segs where "getDataDir os = abs_path segs" "list_all plain_seg segs"
  using resolve_normal unfolding getDataDir_def Let_def by blast

lemma apps_dir_normal:
  obtains segs where "getAppsPath os = abs_path segs" "list_all plain_seg segs"
proof -
  obtain segs where "getDataDir os = abs_path segs" "list_all plain_seg segs" by (rule data_dir_normal)
  then show thesis
    using that [of "segs @ [''apps'']"] join_abs_path plain_lits(1) by (simp add: getAppsPath_def)
qed

lemma manifests_dir_normal:
  obtains segs where "manifestsDir env = abs_path segs" "list_all plain_seg segs" "segs \<noteq> []"
proof -
  obtain segs where "getAppsPath (ap_os env) = abs_path segs" "list_all plain_seg segs" by (rule apps_dir_normal)
  then show thesis
    using that [of "segs @ [''manifests'']"] join_abs_path plain_lits(2) by (simp add: manifestsDir_def)
qed

lemma load_wf:
  "schema_sound is_url env \<Longrightarrow> loadFileManifest env fs p = Inr ref \<Longrightarrow>
     \<exists>m. schema_ok is_url m \<and> mr_manifest ref = normalizeManifest m"
  by (auto simp: schema_sound_def loadFileManifest_def Let_def rbind_Inr_iff split: option.splits) blast

section \<open>Well-formed manifests\<close>

definition action_wf :: "ManagedAppAction \<Rightarrow> bool" where
  "action_wf a \<longleftrightarrow> aa_steps a \<noteq> [] \<and> (\<forall>s \<in> set (aa_steps a). s \<noteq> '''') \<and> wf_map (aa_env a) \<and> wf_map (aa_vaultEnv a) \<and>
     wf_map (aa_vaultFiles a) \<and> (\<forall>n \<in> set (aa_requiresEnv a). env_name n) \<and>
     (\<forall>(k, v) \<in> set (aa_vaultEnv a). env_name k \<and> env_name v) \<and>
     (\<forall>(p, b) \<in> set (aa_vaultFiles a). p \<noteq> '''' \<and> env_name (vf_key b) \<and> opt_all mode_text (vf_mode b))"

definition manifest_wf :: "ManagedAppManifest \<Rightarrow> bool" where
  "manifest_wf m \<longleftrightarrow> slug (am_id m) \<and> am_name m \<noteq> '''' \<and> am_platforms m \<noteq> [] \<and>
     am_home m \<noteq> '''' \<and> am_state m \<noteq> '''' \<and> am_config m \<noteq> '''' \<and> wf_map (am_expose m) \<and>
     sorted_wrt (\<lambda>a b. binary_cmp (capability_text a) (capability_text b) \<le> 0) (am_capabilities m) \<and>
     (\<forall>c \<in> set (am_commands m). command_name (rc_name c)) \<and>
     am_actions m \<noteq> [] \<and> wf_map (am_actions m) \<and> (\<forall>(n, a) \<in> set (am_actions m). n \<noteq> '''' \<and> action_wf a)"

lemma opt_allD: "opt_all P v \<Longrightarrow> P d \<Longrightarrow> P (or_else v d)"
  by (auto simp: opt_all_def split: option.splits)

lemma keys_map_values: "keys (map (\<lambda>(k, v). (k, f v)) m) = keys m"
  by (auto simp: keys_def)

lemma binding_wf: "binding_ok b \<Longrightarrow> env_name (vf_key (normalizeBinding b)) \<and> opt_all mode_text (vf_mode (normalizeBinding b))"
  by (cases b) (simp_all add: opt_all_def)

lemma action_wf_normalize:
  assumes "action_ok a"
  shows "action_wf (normalizeAction a)"
proof -
  note ok = assms [unfolded action_ok_def]
  have env: "wf_map (or_else (pa_env a) [])" "list_all env_name (or_else (pa_requiresEnv a) [])"
    by (rule opt_allD, use ok in simp_all)+
  have vault: "wf_map (or_else (pa_vaultEnv a) []) \<and> list_all (\<lambda>(k, v). env_name k \<and> env_name v) (or_else (pa_vaultEnv a) [])"
    by (rule opt_allD) (use ok in simp_all)
  have files: "wf_map (or_else (pa_vaultFiles a) []) \<and>
      list_all (\<lambda>(p, b). p \<noteq> '''' \<and> binding_ok b) (or_else (pa_vaultFiles a) [])"
    by (rule opt_allD) (use ok in simp_all)
  have "\<forall>(p, b) \<in> set (map (\<lambda>(p, b). (p, normalizeBinding b)) (or_else (pa_vaultFiles a) [])).
      p \<noteq> '''' \<and> env_name (vf_key b) \<and> opt_all mode_text (vf_mode b)"
    using files binding_wf by (fastforce simp: list_all_iff)
  moreover have "wf_map (map (\<lambda>(p, b). (p, normalizeBinding b)) (or_else (pa_vaultFiles a) []))"
    using files by (simp add: wf_map_def keys_map_values)
  ultimately show ?thesis
    using ok env vault by (simp add: action_wf_def normalizeAction_def list_all_iff)
qed

lemma manifest_wf_normalize:
  assumes "schema_ok is_url m"
  shows "manifest_wf (normalizeManifest m)"
proof -
  note ok = assms [unfolded schema_ok_def]
  have caps: "sorted_wrt (\<lambda>a b. binary_cmp (capability_text a) (capability_text b) \<le> 0)
      (js_sort (\<lambda>a b. binary_cmp (capability_text a) (capability_text b)) cs)" for cs
    by (rule comparator.sorted_js_sort) (rule comparator_binary_key)
  have platforms: "or_else (pm_platforms m) [Linux] \<noteq> []"
    by (rule opt_allD [of "\<lambda>ps. ps \<noteq> []"]) (use ok in simp_all)
  have part: "opt_all P (Option.bind (pm_paths m) sel)"
    if "\<And>p. paths_ok p \<Longrightarrow> opt_all P (sel p)" for P and sel :: "ParsedPaths \<Rightarrow> 'z option"
    using that ok by (cases "pm_paths m") (auto simp: opt_all_def)
  have paths: "or_else (Option.bind (pm_paths m) pp_home) ''${APP_ROOT}/home'' \<noteq> ''''"
    "or_else (Option.bind (pm_paths m) pp_state) ''${APP_ROOT}/state'' \<noteq> ''''"
    "or_else (Option.bind (pm_paths m) pp_config) ''${APP_ROOT}/config/app.json'' \<noteq> ''''"
    by (rule opt_allD [of "\<lambda>x. x \<noteq> ''''"], rule part, simp add: paths_ok_def, simp)+
  have expose: "wf_map (or_else (Option.bind (pm_paths m) pp_expose) [])"
    by (rule opt_allD, rule part) (simp_all add: paths_ok_def)
  have "opt_all (list_all (\<lambda>(name, required, detail). command_name name \<and> opt_all (\<lambda>d. d \<noteq> '''') detail))
      (Option.bind (pm_runtime m) pr_commands)"
    using ok by (cases "pm_runtime m") (auto simp: opt_all_def runtime_ok_def)
  then have commands: "list_all (\<lambda>(name, required, detail). command_name name \<and> opt_all (\<lambda>d. d \<noteq> '''') detail)
      (or_else (Option.bind (pm_runtime m) pr_commands) [])"
    by (rule opt_allD) simp
  have "\<forall>(n, a) \<in> set (map (\<lambda>(name, a). (name, normalizeAction a)) (pm_actions m)). n \<noteq> '''' \<and> action_wf a"
    using ok action_wf_normalize by (fastforce simp: list_all_iff)
  moreover have "wf_map (map (\<lambda>(name, a). (name, normalizeAction a)) (pm_actions m))"
    using ok by (simp add: wf_map_def keys_map_values)
  moreover have "\<forall>c \<in> set (map (\<lambda>(name, required, detail).
      \<lparr>rc_name = name, rc_required = or_else required True, rc_detail = detail\<rparr>)
      (or_else (Option.bind (pm_runtime m) pr_commands) [])). command_name (rc_name c)"
    using commands by (auto simp: list_all_iff)
  ultimately show ?thesis
    using ok platforms paths expose caps
    unfolding manifest_wf_def normalizeManifest_def Let_def ManagedAppManifest.simps by simp
qed

section \<open>The merged catalog\<close>

definition refs_ok :: "(string \<Rightarrow> bool) \<Rightarrow> (string, ManagedAppManifestRef) jsmap \<Rightarrow> bool" where
  "refs_ok is_url m \<longleftrightarrow> wf_map m \<and>
     (\<forall>(i, ref) \<in> set m. i = am_id (mr_manifest ref) \<and> manifest_wf (mr_manifest ref))"

lemma set_update_subset: "set (AList.update k v m) \<subseteq> insert (k, v) (set m)"
  by (induction m) auto

lemma merge_entries_ok:
  "schema_sound is_url env \<Longrightarrow> refs_ok is_url m \<Longrightarrow> merge_entries env fs dir names (m, es) = (m', es') \<Longrightarrow> refs_ok is_url m'"
proof (induction names arbitrary: m es)
  case Nil
  then show ?case by simp
next
  case (Cons n names)
  show ?case
  proof (cases "loadFileManifest env fs (path_join [dir, n])")
    case (Inl e)
    with Cons show ?thesis by (simp add: Let_def)
  next
    case (Inr ref)
    from load_wf [OF Cons.prems(1) this] manifest_wf_normalize have wf: "manifest_wf (mr_manifest ref)" by auto
    have "refs_ok is_url (AList.update (am_id (mr_manifest ref)) ref m)"
      using Cons.prems(2) wf set_update_subset [of "am_id (mr_manifest ref)" ref m]
      unfolding refs_ok_def by (intro conjI wf_map_update) auto
    with Cons.IH Cons.prems(1,3) Inr show ?thesis by (simp add: Let_def)
  qed
qed

section \<open>Properties\<close>

text \<open>
  Every manifest the catalog lists is well formed (its id is a slug, it has actions, each action has steps,
  names of variables and vault keys are in form, capabilities are sorted), no id is listed twice, and each app
  has its root directly below the apps directory.
\<close>

theorem catalog_well_formed:
  assumes "schema_sound is_url env"
  shows "(\<forall>ref \<in> set (listManagedAppManifestRefs env fs). manifest_wf (mr_manifest ref) \<and>
      rp_appRoot (resolveManagedAppPaths env (mr_manifest ref)) = getAppsPath (ap_os env) @ ''/'' @ am_id (mr_manifest ref)) \<and>
    distinct (map (\<lambda>ref. am_id (mr_manifest ref)) (listManagedAppManifestRefs env fs))"
proof -
  let ?names = "if manifestsDir env \<in> set (fs_dirs fs)
    then js_sort (ap_locale env) (filter (\<lambda>n. ends_with n ''.json'') (readdir fs (manifestsDir env))) else []"
  obtain m es where merged: "merge_entries env fs (manifestsDir env) ?names ([], []) = (m, es)" by force
  have ok: "refs_ok is_url m" by (rule merge_entries_ok [OF assms _ merged]) (simp add: refs_ok_def)
  have listed: "listManagedAppManifestRefs env fs =
      js_sort (\<lambda>a b. ap_locale env (am_id (mr_manifest a)) (am_id (mr_manifest b))) (map snd m)"
    by (simp add: listManagedAppManifestRefs_def inspectManagedAppCatalog_def Let_def merged)
  have ids: "map (\<lambda>ref. am_id (mr_manifest ref)) (map snd m) = keys m"
    using ok by (auto simp: refs_ok_def keys_def)
  have "distinct (map (\<lambda>ref. am_id (mr_manifest ref)) (listManagedAppManifestRefs env fs))"
  proof -
    have "mset (map (\<lambda>ref. am_id (mr_manifest ref)) (listManagedAppManifestRefs env fs)) = mset (keys m)"
      unfolding listed ids [symmetric] mset_map mset_js_sort ..
    moreover have "distinct (keys m)" using ok by (simp add: refs_ok_def wf_map_def)
    ultimately show ?thesis by (metis mset_eq_imp_distinct_iff)
  qed
  moreover have "manifest_wf (mr_manifest ref)" if "ref \<in> set (listManagedAppManifestRefs env fs)" for ref
    using that ok by (auto simp: listed refs_ok_def)
  moreover have "rp_appRoot (resolveManagedAppPaths env mf) = getAppsPath (ap_os env) @ ''/'' @ am_id mf"
    if "slug (am_id mf)" for mf
  proof -
    obtain segs where segs: "getDataDir (ap_os env) = abs_path segs" "list_all plain_seg segs" by (rule data_dir_normal)
    have apps: "getAppsPath (ap_os env) = abs_path (segs @ [''apps''])"
      using join_abs_path [OF segs(2) plain_lits(1)] segs(1) by (simp add: getAppsPath_def)
    then have "path_join [getAppsPath (ap_os env), am_id mf] = abs_path ((segs @ [''apps'']) @ [am_id mf])"
      using join_abs_path [of "segs @ [''apps'']" "am_id mf"] plain_slug [OF that] segs(2) plain_lits(1) by simp
    also have "\<dots> = getAppsPath (ap_os env) @ ''/'' @ am_id mf"
      unfolding apps abs_path_def by (subst join_snoc) simp_all
    finally show ?thesis by (simp add: resolveManagedAppPaths_def Let_def)
  qed
  ultimately show ?thesis by (auto simp: manifest_wf_def)
qed

text \<open>
  C9: Commands run only when the execution was asked for and its plan is fine: every required requirement
  holds, and every interpolated step passed the validator. What runs is a prefix of the plan's steps in its
  working directory, all of them when the execution succeeds. Otherwise nothing on the disk changes.
\<close>

theorem app_runs_only_checked_steps:
  assumes "executeManagedAppAction env ref name apply_it fs = (r, fs')"
  shows "(fs' = fs \<and> (apply_it \<longrightarrow> \<not> is_ok r)) \<or>
    (\<exists>plan ran. apply_it \<and> planManagedAppAction env ref name True = Inr plan \<and>
       (\<forall>q \<in> set (mp_requirements plan). rq_required q \<longrightarrow> rq_ok q) \<and> (\<forall>s \<in> set (mp_steps plan). step_ok s) \<and>
       fs_runs fs' = fs_runs fs @ ran \<and> prefix (map sn_step ran) (mp_steps plan) \<and>
       (\<forall>x \<in> set ran. sn_cwd x = mp_cwd plan) \<and> (is_ok r \<longrightarrow> map sn_step ran = mp_steps plan))"
  using assms
proof (cases rule: execute_cases)
  case 1
  then show ?thesis by simp
next
  case (2 plan action fs1 vars)
  from 2(6) obtain r0 where run: "run_steps env plan vars (mp_steps plan) [] fs1 = (r0, fs')" "is_ok r \<longrightarrow> is_ok r0" by blast
  from run_steps_runs [OF run(1)] obtain k where "k \<le> length (mp_steps plan)"
    "fs_runs fs' = fs_runs fs1 @ map (\<lambda>s. \<lparr>sn_step = s, sn_cwd = mp_cwd plan, sn_env = vars\<rparr>) (take k (mp_steps plan))"
    "is_ok r0 \<longrightarrow> k = length (mp_steps plan)" by blast
  moreover have "fs_runs fs1 = fs_runs fs" using 2(5) by simp
  moreover have "(\<forall>q \<in> set (mp_requirements plan). rq_required q \<longrightarrow> rq_ok q)" "\<forall>s \<in> set (mp_steps plan). step_ok s"
    using plan_Inr [OF 2(2)] 2(3) by blast+
  ultimately show ?thesis using 2(1,2) run(2)
    by (intro disjI2 exI [of _ plan] exI [of _ "map (\<lambda>s. \<lparr>sn_step = s, sn_cwd = mp_cwd plan, sn_env = vars\<rparr>) (take k (mp_steps plan))"])
       (auto simp: comp_def take_is_prefix)
qed

text \<open>
  C20: The only files an execution writes itself are secret files. A file it changed is the target of a binding
  of the action, resolved with the variables the accepted plan exports, and what it now holds is the decryption of the
  latest entry of the vault key of that same binding, an entry that carries its fingerprint.
\<close>

theorem app_secrets_come_from_vault:
  assumes "executeManagedAppAction env ref name apply_it fs = (r, fs')"
    and "map_of (fs_files fs') p \<noteq> map_of (fs_files fs) p"
  shows "\<exists>plan action t b entry content. planManagedAppAction env ref name True = Inr plan \<and> mp_ok plan \<and>
    resolveAction (mr_manifest ref) name = Inr action \<and> (t, b) \<in> set (aa_vaultFiles action) \<and>
    p = app_resolve env (interpolateTemplate t
      (assign_all (mp_exportedEnv plan) [(''MEMPHIS_MANIFESTS_DIR'', rp_manifestsDir (mp_paths plan))])) \<and>
    getLatestVaultEntry (ap_sha256 env) (vf_key b) (ap_vault env) = Some entry \<and>
    verifyVaultEntry (ap_sha256 env) entry \<and> ap_decrypt env entry = Inr content \<and>
    map_of (fs_files fs') p = Some content"
  using assms(1)
proof (cases rule: execute_cases)
  case 1
  with assms(2) show ?thesis by simp
next
  case (2 plan action fs1 vars)
  let ?fls = "ss_files (resolveActionVaultFiles env action
    (assign_all (mp_exportedEnv plan) [(''MEMPHIS_MANIFESTS_DIR'', rp_manifestsDir (mp_paths plan))]))"
  have fs': "fs_files fs' = fs_files (materializeSecretFiles ?fls (ensureManagedAppLayout (mp_paths plan) fs))"
    using 2(5,6) run_steps_files by blast
  with assms(2) obtain f where f: "f \<in> set ?fls" "sf_path f = p" "map_of (fs_files fs') p = Some (sf_content f)"
    using materialize_files [of ?fls "ensureManagedAppLayout (mp_paths plan) fs" p] by auto
  from secret_files_from_vault [OF f(1)] f(2,3) 2(2-4) show ?thesis by fastforce
qed

lemma interpolate_literal: "CHR ''$'' \<notin> set s \<Longrightarrow> interpolateTemplate s vars = s"
  by (induction s) (auto simp: interpolateTemplate.simps(2))

lemma interpolate_app_home:
  "interpolateTemplate (''${APP_HOME}'' @ s) vars = or_else (map_of vars ''APP_HOME'') '''' @ interpolateTemplate s vars"
proof -
  have "placeholder (''{APP_HOME}'' @ s) = Some (''APP_HOME'', s)"
    by (simp add: placeholder_def name_char_def is_upper_def is_digit_def code_def)
  then show ?thesis
    by (simp add: interpolateTemplate.simps(2) [of "CHR ''$''" "''{APP_HOME}'' @ s", simplified])
qed

lemma single_file:
  "aa_vaultFiles a = [(t, b)] \<Longrightarrow> resolveActionVaultFiles env a vars =
     \<lparr>ss_files = fst (file_secret env vars (t, b)), ss_bindings = [fst (snd (file_secret env vars (t, b)))],
      ss_requirements = [snd (snd (file_secret env vars (t, b)))]\<rparr>"
  by (simp add: resolveActionVaultFiles_def)

lemma file_secret_fields:
  "sb_path (fst (snd (file_secret env vars (t, b)))) = Some (app_resolve env (interpolateTemplate t vars))"
  "rq_required (snd (snd (file_secret env vars (t, b))))"
  "rq_ok (snd (snd (file_secret env vars (t, b)))) \<longleftrightarrow> is_ok (read_secret env (vf_key b))"
  "read_secret env (vf_key b) = Inr content \<Longrightarrow> fst (file_secret env vars (t, b)) =
     [\<lparr>sf_path = app_resolve env (interpolateTemplate t vars), sf_content = content, sf_mode = vf_mode b\<rparr>]"
  by (auto simp: file_secret_def Let_def secret_binding_def requirement_def split: sum.splits)

text \<open>
  The plan and the execution disagree on where secrets go: with a file binding below \<open>${APP_HOME}\<close> and an
  action that sets \<open>APP_HOME\<close> itself, the plan reports a path in the app's home, which the execution leaves
  alone, and the decrypted secret is written below the action's own value instead.
\<close>

theorem app_secret_file_leaves_plan:
  assumes "map_of (am_actions (mr_manifest ref)) name = Some a" and "am_expose (mr_manifest ref) = []"
    and "aa_vaultFiles a = [(''${APP_HOME}'' @ f, b)]" and "CHR ''$'' \<notin> set f"
    and "aa_env a = [(''APP_HOME'', v)]" and "CHR ''$'' \<notin> set v"
    and "executeManagedAppAction env ref name True fs = (Inr res, fs')"
  defines "planned \<equiv> app_resolve env (rp_home (resolveManagedAppPaths env (mr_manifest ref)) @ f)"
    and "written \<equiv> app_resolve env (v @ f)"
  shows "planned \<in> {p. \<exists>x \<in> set (mp_secretBindings (er_plan res)). sb_path x = Some p} \<and>
    (planned \<noteq> written \<longrightarrow> map_of (fs_files fs') planned = map_of (fs_files fs) planned) \<and>
    (\<exists>content. read_secret env (vf_key b) = Inr content \<and> map_of (fs_files fs') written = Some content)"
  using assms(7)
proof (cases rule: execute_cases)
  case 1
  then show ?thesis by simp
next
  case (2 plan action fs1 vars)
  have a: "action = a" using 2(4) assms(1) by (simp add: resolveAction_def)
  have plan: "er_plan res = plan"
    using assms(7) 2(2,3,4) by (auto simp: executeManagedAppAction_def Let_def split: prod.splits sum.splits)
  let ?ps = "mp_paths plan" and ?pv = "assign_all (exportedEnvForManifest (mr_manifest ref) (mp_paths plan))
      [(''MEMPHIS_MANIFESTS_DIR'', rp_manifestsDir (mp_paths plan))]"
  let ?ev = "assign_all (mp_exportedEnv plan) [(''MEMPHIS_MANIFESTS_DIR'', rp_manifestsDir (mp_paths plan))]"
  obtain a' where "resolveAction (mr_manifest ref) name = Inr a'"
    and ps: "?ps = resolveManagedAppPaths env (mr_manifest ref)"
    and reqs: "mp_ok plan \<longleftrightarrow> (\<forall>q \<in> set (mp_requirements plan). rq_required q \<longrightarrow> rq_ok q)"
    and binds: "set (ss_bindings (resolveActionVaultFiles env a' ?pv)) \<subseteq> set (mp_secretBindings plan)"
    and needs: "set (ss_requirements (resolveActionVaultFiles env a' ?pv)) \<subseteq> set (mp_requirements plan)"
    and exported: "mp_exportedEnv plan =
      (let vars = ?pv in assign_all vars (map (\<lambda>(k, v). (k, interpolateTemplate v vars)) (aa_env a')))"
    using plan_Inr [OF 2(2)] by blast
  then have a': "a' = a" using assms(1) by (simp add: resolveAction_def)
  have pv_home: "map_of ?pv ''APP_HOME'' = Some (rp_home ?ps)"
    by (simp add: assign_all_def exportedEnvForManifest_def assms(2))
  have ev_home: "map_of ?ev ''APP_HOME'' = Some v"
    by (simp add: exported a' assms(5) assign_all_def map_of_update interpolate_literal [OF assms(6)] Let_def)
  have pv_path: "app_resolve env (interpolateTemplate (''${APP_HOME}'' @ f) ?pv) = planned"
    and ev_path: "app_resolve env (interpolateTemplate (''${APP_HOME}'' @ f) ?ev) = written"
    unfolding interpolate_app_home pv_home ev_home unfolding planned_def written_def ps
    by (simp_all add: interpolate_literal [OF assms(4)])
  have "\<exists>x \<in> set (mp_secretBindings plan). sb_path x = Some planned"
    using binds file_secret_fields(1) [of env ?pv "''${APP_HOME}'' @ f" b]
    unfolding a' single_file [OF assms(3)] pv_path by auto
  moreover have "is_ok (read_secret env (vf_key b))"
    using needs reqs 2(3) file_secret_fields(2,3) [of env ?pv "''${APP_HOME}'' @ f" b]
    unfolding a' single_file [OF assms(3)] by auto
  then obtain content where content: "read_secret env (vf_key b) = Inr content"
    by (cases "read_secret env (vf_key b)") auto
  have "fs_files fs' = AList.update written content (fs_files fs)"
    using 2(5,6) run_steps_files
    unfolding a single_file [OF assms(3)] SecretFiles.simps file_secret_fields(4) [OF content] ev_path
    by (fastforce simp: Let_def)
  ultimately show ?thesis
    using content by (auto simp: plan map_of_update)
qed

text \<open>
  An import either refuses and changes nothing, or writes one file, named after the manifest's id directly
  in the manifests directory: an existing one only when forced, after checking every step of every action;
  loading that file gives the manifest that was validated.
\<close>

theorem app_import_adds_one_manifest:
  assumes "schema_sound is_url env" and "importManagedAppManifestFile env p force fs = (res, fs')"
  shows "if ir_ok res then
      (\<exists>ref. validateManagedAppManifestFile env fs p = Inr ref \<and>
         ir_dest res = manifestsDir env @ ''/'' @ am_id (mr_manifest ref) @ ''.json'' \<and>
         (map_of (fs_files fs) (ir_dest res) \<noteq> None \<longrightarrow> force) \<and>
         (\<forall>q. q \<noteq> ir_dest res \<longrightarrow> map_of (fs_files fs') q = map_of (fs_files fs) q) \<and>
         (\<forall>(n, a) \<in> set (am_actions (mr_manifest ref)). \<forall>s \<in> set (aa_steps a). step_ok s) \<and>
         loadFileManifest env fs' (ir_dest res) = Inr (ref\<lparr>mr_path := Some (ir_dest res)\<rparr>))
    else fs' = fs"
proof (cases "validateManagedAppManifestFile env fs p")
  case (Inl e)
  then show ?thesis using assms(2) by (cases e) (auto simp: importManagedAppManifestFile_def)
next
  case (Inr ref)
  have load: "loadFileManifest env fs p = Inr ref"
    and checked: "enforce_actions (am_id (mr_manifest ref)) (am_actions (mr_manifest ref)) = Inr ()"
    using Inr by (auto simp: validateManagedAppManifestFile_def rbind_Inr_iff split: sum.splits)
  have steps: "enforce_actions i as = Inr () \<Longrightarrow> \<forall>(n, a) \<in> set as. \<forall>s \<in> set (aa_steps a). step_ok s" for i as
    by (induction as) (auto simp: rbind_Inr_iff enforceManifestSteps_Inr, blast)
  obtain m where "schema_ok is_url m" "mr_manifest ref = normalizeManifest m" using load_wf [OF assms(1) load] by blast
  then have slug: "slug (am_id (mr_manifest ref))" by (simp add: schema_ok_def normalizeManifest_def Let_def)
  obtain raw where raw: "map_of (fs_files fs) (app_resolve env p) = Some raw" using load
    by (auto simp: loadFileManifest_def Let_def split: option.splits)
  obtain segs where segs: "manifestsDir env = abs_path segs" "list_all plain_seg segs" "segs \<noteq> []" by (rule manifests_dir_normal)
  let ?file = "am_id (mr_manifest ref) @ ''.json''"
  let ?dest = "path_join [manifestsDir env, ?file]"
  have dest: "?dest = abs_path (segs @ [?file])" unfolding segs(1)
    using join_abs_path [OF segs(2)] plain_slug [OF slug] by blast
  then have dest2: "?dest = manifestsDir env @ ''/'' @ ?file" using segs(1,3) by (simp add: abs_path_def join_snoc)
  have "app_resolve env ?dest = ?dest"
    unfolding dest app_resolve_def by (rule resolve_abs_path) (use segs(2) plain_slug [OF slug] in simp)
  then have reload: "loadFileManifest env (writeFile ?dest raw (mkdir (manifestsDir env) fs)) ?dest = Inr (ref\<lparr>mr_path := Some ?dest\<rparr>)"
    using load raw by (auto simp: loadFileManifest_def Let_def rbind_Inr_iff map_of_update split: option.splits)
  show ?thesis
  proof (cases "map_of (fs_files fs) ?dest \<noteq> None \<and> \<not> force")
    case True
    then show ?thesis using assms(2) Inr by (auto simp: importManagedAppManifestFile_def Let_def)
  next
    case False
    then have res: "ir_ok res" "ir_dest res = ?dest" "fs' = writeFile ?dest raw (mkdir (manifestsDir env) fs)"
      using assms(2) Inr raw by (auto simp: importManagedAppManifestFile_def Let_def)
    have "\<forall>q. q \<noteq> ?dest \<longrightarrow> map_of (fs_files fs') q = map_of (fs_files fs) q" by (simp add: res(3) map_of_update)
    then show ?thesis
      unfolding if_P [OF res(1), of _ "fs' = fs"]
      using False reload steps [OF checked] Inr res(2,3) dest2 by (intro exI [of _ ref]) auto
  qed
qed

section \<open>A small app\<close>

definition demo_vault :: vault_file where
  "demo_vault = writeAll [JObj [(''key'', JStr ''K''), (''fingerprint'', JStr ''#'')]]"

definition demo_parsed_action :: ParsedAction where
  "demo_parsed_action = \<lparr>pa_summary = ''go'', pa_cwd = None, pa_steps = [''true''], pa_env = Some [(''APP_HOME'', ''/tmp'')],
     pa_requiresEnv = None, pa_vaultEnv = None, pa_vaultFiles = Some [(''${APP_HOME}/t'', KeyText ''K'')]\<rparr>"

definition demo_parsed :: ParsedManifest where
  "demo_parsed = \<lparr>pm_schemaVersion = 1, pm_id = ''a1'', pm_name = ''A'', pm_description = ''d'', pm_homepage = None,
     pm_capabilities = None, pm_platforms = None, pm_runtime = None, pm_paths = None,
     pm_actions = [(''go'', demo_parsed_action)], pm_notes = None\<rparr>"

definition demo_app_env :: app_env where
  "demo_app_env = \<lparr>ap_os = \<lparr>os_vars = (\<lambda>_. None), os_home = ''/h'', os_cwd = ''/w''\<rparr>, ap_process = (\<lambda>_. None),
     ap_parse = (\<lambda>_. Inr demo_parsed), ap_parse_error = plain_error, ap_locale = binary_cmp, ap_platform = ''linux'',
     ap_nodeVersion = ''20.1.0'', ap_command = (\<lambda>_. True), ap_npmPrefix = None, ap_sha256 = (\<lambda>_. ''#''),
     ap_vault = demo_vault, ap_decrypt = (\<lambda>_. Inr ''secret''), ap_run = (\<lambda>_ _. (Some 0, '''', ''''))\<rparr>"

definition demo_app_ref :: ManagedAppManifestRef where
  "demo_app_ref = \<lparr>mr_manifest = normalizeManifest demo_parsed, mr_kind = FileSource, mr_path = Some ''/m.json''\<rparr>"

definition demo_app_fs :: app_fs where
  "demo_app_fs = \<lparr>fs_files = [(''/m.json'', ''{}'')], fs_modes = [], fs_dirs = [], fs_runs = []\<rparr>"

definition demo_app_run :: "(thrown, ManagedAppExecutionResult) result \<times> app_fs" where
  "demo_app_run = executeManagedAppAction demo_app_env demo_app_ref ''go'' True demo_app_fs"

lemma demo_app_ok: "is_ok (fst demo_app_run)"
  by code_simp

lemma demo_schema_sound: "schema_sound (\<lambda>_. True) demo_app_env"
  unfolding schema_sound_def
  by (auto simp: demo_app_env_def) code_simp

lemma demo_app_parts:
  "resolveAction (mr_manifest demo_app_ref) ''go'' = Inr (normalizeAction demo_parsed_action)"
  "am_expose (mr_manifest demo_app_ref) = []" "aa_env (normalizeAction demo_parsed_action) = [(''APP_HOME'', ''/tmp'')]"
  "aa_vaultFiles (normalizeAction demo_parsed_action) = [(''${APP_HOME}'' @ ''/t'', \<lparr>vf_key = ''K'', vf_mode = None\<rparr>)]"
  "fs_runs demo_app_fs = []" "map_of (fs_files demo_app_fs) ''/tmp/t'' = None" "app_resolve demo_app_env ''/tmp/t'' = ''/tmp/t''"
  "map_of (fs_files (snd demo_app_run)) ''/tmp/t'' = Some ''secret''"
  by (simp_all add: demo_app_ref_def normalizeManifest_def demo_parsed_def resolveAction_def normalizeAction_def
      demo_parsed_action_def demo_app_fs_def Let_def) code_simp+

theorem catalog_well_formed_witness:
  "distinct (map (\<lambda>ref. am_id (mr_manifest ref)) (listManagedAppManifestRefs demo_app_env demo_app_fs))"
  using catalog_well_formed [OF demo_schema_sound] by blast

theorem app_runs_only_checked_steps_witness:
  "\<exists>plan ran. planManagedAppAction demo_app_env demo_app_ref ''go'' True = Inr plan \<and> fs_runs (snd demo_app_run) = ran \<and>
     map sn_step ran = mp_steps plan \<and> (\<forall>s \<in> set (mp_steps plan). step_ok s)"
  using app_runs_only_checked_steps [OF prod.collapse [symmetric], of demo_app_env demo_app_ref "''go''" True demo_app_fs]
    demo_app_ok
  by (auto simp: demo_app_run_def [symmetric] demo_app_parts(5))

theorem app_secrets_come_from_vault_witness:
  "\<exists>content. map_of (fs_files (snd demo_app_run)) ''/tmp/t'' = Some content \<and>
     (\<exists>entry. ap_decrypt demo_app_env entry = Inr content)"
  using app_secrets_come_from_vault [OF prod.collapse [symmetric], of demo_app_env demo_app_ref "''go''" True demo_app_fs "''/tmp/t''"]
    demo_app_parts(6,8)
  by (auto simp: demo_app_run_def [symmetric])

theorem app_secret_file_leaves_plan_witness:
  "\<exists>content. map_of (fs_files (snd demo_app_run)) ''/tmp/t'' = Some content \<and> read_secret demo_app_env ''K'' = Inr content"
proof -
  obtain res where "executeManagedAppAction demo_app_env demo_app_ref ''go'' True demo_app_fs = (Inr res, snd demo_app_run)"
    using demo_app_ok unfolding demo_app_run_def [symmetric]
    by (cases "fst demo_app_run") (auto simp: prod_eq_iff)
  from app_secret_file_leaves_plan [OF _ demo_app_parts(2,4) _ demo_app_parts(3) _ this] demo_app_parts(1,7)
  show ?thesis by (auto simp: resolveAction_def split: option.splits)
qed

theorem app_import_adds_one_manifest_witness:
  "ir_ok (fst (importManagedAppManifestFile demo_app_env ''/m.json'' False demo_app_fs)) \<and>
   (\<exists>ref. validateManagedAppManifestFile demo_app_env demo_app_fs ''/m.json'' = Inr ref \<and>
     map_of (fs_files (snd (importManagedAppManifestFile demo_app_env ''/m.json'' False demo_app_fs))) ''/m.json'' = Some ''{}'')"
proof -
  let ?imp = "importManagedAppManifestFile demo_app_env ''/m.json'' False demo_app_fs"
  have ok: "ir_ok (fst ?imp)" "ir_dest (fst ?imp) \<noteq> ''/m.json''" by code_simp+
  have "map_of (fs_files demo_app_fs) ''/m.json'' = Some ''{}''" by (simp add: demo_app_fs_def)
  with app_import_adds_one_manifest [OF demo_schema_sound prod.collapse [symmetric], of "''/m.json''" False demo_app_fs] ok
  show ?thesis by auto
qed

end
