(* ===== verification/AppRegistry.thy ===== *)
theory AppRegistry
  imports ManagedAppsLaws
begin

text \<open>
  The registry of installed apps (\<open>modules/apps/registry.ts\<close>). The state is what its file holds: \<open>None\<close> when
  there is no readable registry, else its records. The file is the JSON of the records; \<open>now\<close> is the time of
  the operation.
\<close>

datatype InstallState = Planned | Installed | Stopped | Running | UnknownState

record RegistryRecord =
  gg_id :: string
  gg_name :: string
  gg_kind :: SourceKind
  gg_path :: "string option"
  gg_homepage :: "string option"
  gg_paths :: ManagedAppResolvedPaths
  gg_installed :: bool
  gg_state :: InstallState
  gg_installedAt :: "string option"
  gg_updatedAt :: string
  gg_lastAction :: string
  gg_lastActionAt :: string
  gg_lastActionOk :: bool

type_synonym registry_file = "RegistryRecord list option"

definition loadManagedAppRegistry :: "registry_file \<Rightarrow> RegistryRecord list" where
  "loadManagedAppRegistry f = (case f of None \<Rightarrow> [] | Some apps \<Rightarrow> apps)"

definition saveManagedAppRegistry :: "RegistryRecord list \<Rightarrow> registry_file" where
  "saveManagedAppRegistry apps = Some apps"

definition getManagedAppRegistryRecord :: "string \<Rightarrow> registry_file \<Rightarrow> RegistryRecord option" where
  "getManagedAppRegistryRecord i f = find (\<lambda>app. gg_id app = i) (loadManagedAppRegistry f)"

definition nextStateForAction :: "string \<Rightarrow> RegistryRecord option \<Rightarrow> InstallState" where
  "nextStateForAction action previous =
     (if action = ''install'' then Installed
      else if action = ''start'' \<or> action = ''restart'' then Running
      else if action = ''stop'' then Stopped
      else (case previous of Some p \<Rightarrow> gg_state p | None \<Rightarrow> UnknownState))"

definition recordManagedAppExecution ::
  "(string \<Rightarrow> string \<Rightarrow> int) \<Rightarrow> string \<Rightarrow> ManagedAppManifestRef \<Rightarrow> ManagedAppExecutionResult \<Rightarrow> registry_file \<Rightarrow>
   RegistryRecord \<times> registry_file" where
  "recordManagedAppExecution lc now ref result f =
     (let apps = loadManagedAppRegistry f; m = mr_manifest ref; plan = er_plan result;
          existing = find (\<lambda>app. gg_id app = am_id m) apps;
          installed = ((case existing of Some e \<Rightarrow> gg_installed e | None \<Rightarrow> False) \<or> er_executed result);
          rec = \<lparr>gg_id = am_id m, gg_name = am_name m, gg_kind = mr_kind ref, gg_path = mr_path ref,
                 gg_homepage = am_homepage m, gg_paths = mp_paths plan, gg_installed = installed,
                 gg_state = nextStateForAction (mp_action plan) existing,
                 gg_installedAt = (case Option.bind existing gg_installedAt of Some t \<Rightarrow> Some t
                    | None \<Rightarrow> if mp_action plan = ''install'' then Some now else None),
                 gg_updatedAt = now, gg_lastAction = mp_action plan, gg_lastActionAt = now, gg_lastActionOk = True\<rparr>
      in (rec, saveManagedAppRegistry
            (js_sort (\<lambda>a b. lc (gg_id a) (gg_id b)) (rec # filter (\<lambda>app. gg_id app \<noteq> gg_id rec) apps))))"

section \<open>Properties\<close>

definition registry_ok :: "registry_file \<Rightarrow> bool" where
  "registry_ok f \<longleftrightarrow> distinct (map gg_id (loadManagedAppRegistry f))"

lemma find_unique:
  "distinct (map f xs) \<Longrightarrow> x \<in> set xs \<Longrightarrow> f x = k \<Longrightarrow> find (\<lambda>y. f y = k) xs = Some x"
  by (induction xs) auto

lemma find_None_iff': "(\<forall>x \<in> set xs. f x \<noteq> k) \<Longrightarrow> find (\<lambda>y. f y = k) xs = None"
  by (simp add: find_None_iff)

lemma find_mset:
  assumes "distinct (map f xs)" and "mset xs = mset ys"
  shows "find (\<lambda>y. f y = k) xs = find (\<lambda>y. f y = k) ys"
proof -
  have "distinct (map f ys)" using assms by (metis mset_eq_imp_distinct_iff mset_map)
  moreover have "set xs = set ys" using assms(2) by (rule mset_eq_setD)
  ultimately show ?thesis
    using find_unique [OF assms(1)] find_unique [of f ys] find_None_iff' [of xs f k] find_None_iff' [of ys f k] by metis
qed

lemma find_filter: "k \<noteq> i \<Longrightarrow> find (\<lambda>y. f y = k) (filter (\<lambda>y. f y \<noteq> i) xs) = find (\<lambda>y. f y = k) xs"
  by (induction xs) auto

text \<open>
  Recording an execution keeps one record per app: that app's record is the returned one, every other app's
  is as before. An app counts as installed from its first executed action on, whatever that action is, and for
  good.
\<close>

theorem registry_record_per_app:
  assumes "registry_ok f" and "recordManagedAppExecution lc now ref result f = (rec, f')"
  shows "registry_ok f' \<and> getManagedAppRegistryRecord (am_id (mr_manifest ref)) f' = Some rec \<and>
    (\<forall>i. i \<noteq> am_id (mr_manifest ref) \<longrightarrow> getManagedAppRegistryRecord i f' = getManagedAppRegistryRecord i f) \<and>
    (gg_installed rec \<longleftrightarrow> er_executed result \<or>
       (\<exists>e. getManagedAppRegistryRecord (am_id (mr_manifest ref)) f = Some e \<and> gg_installed e))"
proof -
  let ?i = "am_id (mr_manifest ref)" and ?apps = "loadManagedAppRegistry f"
  let ?rest = "filter (\<lambda>app. gg_id app \<noteq> ?i) ?apps"
  have rec: "gg_id rec = ?i" and f': "loadManagedAppRegistry f' = js_sort (\<lambda>a b. lc (gg_id a) (gg_id b)) (rec # ?rest)"
    and inst: "gg_installed rec \<longleftrightarrow> er_executed result \<or>
       (\<exists>e. getManagedAppRegistryRecord ?i f = Some e \<and> gg_installed e)"
    using assms(2)
    by (auto simp: recordManagedAppExecution_def Let_def loadManagedAppRegistry_def saveManagedAppRegistry_def
        getManagedAppRegistryRecord_def split: option.splits)
  have d: "distinct (map gg_id (rec # ?rest))"
    using assms(1) rec by (auto simp: registry_ok_def distinct_map inj_on_def)
  have same: "find (\<lambda>y. gg_id y = k) (loadManagedAppRegistry f') = find (\<lambda>y. gg_id y = k) (rec # ?rest)" for k
    unfolding f' by (rule find_mset [OF d, symmetric]) (simp only: mset_js_sort)
  have "registry_ok f'"
    unfolding registry_ok_def f' using d by (metis mset_eq_imp_distinct_iff mset_js_sort mset_map)
  moreover have "find (\<lambda>y. gg_id y = k) ?rest = find (\<lambda>y. gg_id y = k) ?apps" if "k \<noteq> ?i" for k
    using find_filter [OF that] .
  ultimately show ?thesis
    using rec inst by (simp add: getManagedAppRegistryRecord_def same)
qed

definition demo_registered :: "RegistryRecord \<times> registry_file" where
  "demo_registered = recordManagedAppExecution binary_cmp ''t'' demo_app_ref (projr (fst demo_app_run)) None"

theorem registry_record_per_app_witness:
  "getManagedAppRegistryRecord ''a1'' (snd demo_registered) = Some (fst demo_registered) \<and> registry_ok (snd demo_registered)"
proof -
  have "registry_ok None" by (simp add: registry_ok_def loadManagedAppRegistry_def)
  moreover have "am_id (mr_manifest demo_app_ref) = ''a1''"
    by (simp add: demo_app_ref_def normalizeManifest_def demo_parsed_def Let_def)
  ultimately show ?thesis
    using registry_record_per_app [OF _ prod.collapse [symmetric], of None binary_cmp "''t''" demo_app_ref "projr (fst demo_app_run)"]
    unfolding demo_registered_def by simp
qed

end
