(* ===== verification/Sync.thy ===== *)
theory Sync
  imports JsonRoundtrip Errors
begin

text \<open>
  Exchanging chains between agents: the difference of two chains and their merge (\<open>sync/chain-diff.ts\<close>,
  \<open>sync/conflict-resolver.ts\<close>), the registry of known agents (\<open>sync/agent-registry.ts\<close>), push and pull
  (\<open>sync/sync-manager.ts\<close>) and the ledger of exchanges (\<open>sync/network-chain.ts\<close>).

  A block is \<open>memory/chain.ts\<close>, every field optional. The state is what the JSON files hold: the agents, the
  chains by name, the ledger. What an agent answers to a message, \<open>localeCompare\<close>, \<open>Date.parse\<close> (\<open>None\<close> when
  it is not a number) and the time are arguments.
\<close>

record Block =
  mb_index :: "int option"
  mb_timestamp :: "string option"
  mb_hash :: "string option"
  mb_chain :: "string option"
  mb_data :: "json option"

record sync_host =
  sh_locale :: "string \<Rightarrow> string \<Rightarrow> int"
  sh_date :: "string \<Rightarrow> int option"

section \<open>Keys and fingerprints\<close>

definition braces :: "(string \<Rightarrow> string \<Rightarrow> int) \<Rightarrow> (string \<times> string) list \<Rightarrow> string" where
  "braces lc entries =
     ''{'' @ join '','' (map (\<lambda>(k, t). JSON_stringify (JStr k) @ '':'' @ t)
                        (js_sort (\<lambda>a b. lc (fst a) (fst b)) entries)) @ ''}''"

text \<open>The members are ordered by their keys alone, so each may be printed before the sort.\<close>

fun stable_text :: "(string \<Rightarrow> string \<Rightarrow> int) \<Rightarrow> json \<Rightarrow> string" where
  "stable_text lc (JArr vs) = ''['' @ join '','' (map (stable_text lc) vs) @ '']''"
| "stable_text lc (JObj kvs) = braces lc (map (\<lambda>(k, v). (k, stable_text lc v)) kvs)"
| "stable_text lc v = JSON_stringify v"

fun truthy :: "string option \<Rightarrow> string option" where
  "truthy (Some s) = (if s = '''' then None else Some s)"
| "truthy None = None"

text \<open>\<open>block.data ?? {}\<close>: neither a missing member nor \<open>null\<close> is data.\<close>

definition data_or_empty :: "Block \<Rightarrow> json" where
  "data_or_empty b = (case mb_data b of None \<Rightarrow> JObj [] | Some v \<Rightarrow> if v = JNull then JObj [] else v)"

definition blockKey :: "sync_host \<Rightarrow> Block \<Rightarrow> string" where
  "blockKey h b =
     (case truthy (mb_hash b) of
        Some x \<Rightarrow> ''hash:'' @ x
      | None \<Rightarrow>
          (case mb_index b of
             Some i \<Rightarrow> ''idx:'' @ show_int i
           | None \<Rightarrow> ''ts:'' @ or_else (mb_timestamp b) ''unknown'' @ '':''
                       @ stable_text (sh_locale h) (data_or_empty b)))"

definition or_undefined :: "(string \<Rightarrow> string \<Rightarrow> int) \<Rightarrow> json option \<Rightarrow> string" where
  "or_undefined lc v = (case v of None \<Rightarrow> ''undefined'' | Some x \<Rightarrow> stable_text lc x)"

definition blockFingerprint :: "sync_host \<Rightarrow> Block \<Rightarrow> string" where
  "blockFingerprint h b =
     (let lc = sh_locale h
      in braces lc
        [(''index'', or_undefined lc (map_option JNum (mb_index b))),
         (''timestamp'', or_undefined lc (map_option JStr (mb_timestamp b))),
         (''hash'', or_undefined lc (map_option JStr (mb_hash b))),
         (''chain'', or_undefined lc (map_option JStr (mb_chain b))),
         (''data'', stable_text lc (data_or_empty b))])"

section \<open>Difference\<close>

record ChainDiffResult =
  df_localOnly :: "Block list"
  df_remoteOnly :: "Block list"
  df_conflicts :: "(string \<times> Block \<times> Block) list"

definition key_map :: "sync_host \<Rightarrow> Block list \<Rightarrow> (string, Block) jsmap" where
  "key_map h bs = fold (\<lambda>b. AList.update (blockKey h b) b) bs []"

definition detectChainDiff :: "sync_host \<Rightarrow> Block list \<Rightarrow> Block list \<Rightarrow> ChainDiffResult" where
  "detectChainDiff h local remote =
     (let localMap = key_map h local; remoteMap = key_map h remote
      in \<lparr>df_localOnly = map snd (filter (\<lambda>(k, b). map_of remoteMap k = None) localMap),
          df_remoteOnly = map snd (filter (\<lambda>(k, b). \<not> has_key localMap k) remoteMap),
          df_conflicts = concat (map (\<lambda>(k, b). case map_of remoteMap k of
              None \<Rightarrow> []
            | Some r \<Rightarrow> if blockFingerprint h b \<noteq> blockFingerprint h r then [(k, b, r)] else []) localMap)\<rparr>)"

section \<open>Merge\<close>

datatype MergeStrategy = LastWriteWins | PreferLocal | PreferRemote

definition blockTimestamp :: "sync_host \<Rightarrow> Block \<Rightarrow> int" where
  "blockTimestamp h b = (case truthy (mb_timestamp b) of None \<Rightarrow> 0 | Some t \<Rightarrow> or_else (sh_date h t) 0)"

definition MAX_INDEX :: int where
  "MAX_INDEX = 9007199254740991"

definition by_position :: "sync_host \<Rightarrow> Block \<Rightarrow> Block \<Rightarrow> int" where
  "by_position h a b =
     (let ai = or_else (mb_index a) MAX_INDEX; bi = or_else (mb_index b) MAX_INDEX
      in if ai \<noteq> bi then ai - bi else blockTimestamp h a - blockTimestamp h b)"

definition merge_block :: "sync_host \<Rightarrow> MergeStrategy \<Rightarrow> Block \<Rightarrow> (string, Block) jsmap \<Rightarrow> (string, Block) jsmap" where
  "merge_block h strategy remoteBlock merged =
     (let key = blockKey h remoteBlock
      in case map_of merged key of
           None \<Rightarrow> AList.update key remoteBlock merged
         | Some localBlock \<Rightarrow>
             if strategy = PreferLocal then merged
             else if strategy = PreferRemote then AList.update key remoteBlock merged
             else if blockTimestamp h remoteBlock \<ge> blockTimestamp h localBlock then AList.update key remoteBlock merged
             else merged)"

definition resolveChainConflicts :: "sync_host \<Rightarrow> MergeStrategy \<Rightarrow> Block list \<Rightarrow> Block list \<Rightarrow> Block list" where
  "resolveChainConflicts h strategy local remote =
     js_sort (by_position h) (map snd (fold (merge_block h strategy) remote (key_map h local)))"

section \<open>Agents\<close>

datatype AgentStatus = Online | Offline | UnknownStatus

record SyncAgent =
  sy_did :: string
  sy_name :: "string option"
  sy_endpoint :: string
  sy_capabilities :: "string list"
  sy_lastSeen :: string
  sy_status :: AgentStatus

text \<open>The agents are updated in place, at the first one with the same identifier.\<close>

fun replace_agent :: "SyncAgent \<Rightarrow> SyncAgent list \<Rightarrow> SyncAgent list" where
  "replace_agent next [] = [next]"
| "replace_agent next (a # as) = (if sy_did a = sy_did next then next # as else a # replace_agent next as)"

definition getAgent :: "string \<Rightarrow> SyncAgent list \<Rightarrow> SyncAgent option" where
  "getAgent did agents = find (\<lambda>a. sy_did a = did) agents"

definition replace_did :: "string \<Rightarrow> string" where
  "replace_did did = (if starts_with did ''did:'' then drop 4 did else did)"

definition peer_agent :: "string \<Rightarrow> string \<Rightarrow> SyncAgent option" where
  "peer_agent now entry =
     (let parts = split_on (CHR ''@'') entry; did = trim (hd parts);
          endpoint = (case tl parts of [] \<Rightarrow> '''' | e # _ \<Rightarrow> trim e)
      in if did = '''' \<or> endpoint = '''' \<or> \<not> starts_with did ''did:'' then None
         else Some \<lparr>sy_did = did, sy_name = Some (replace_did did), sy_endpoint = endpoint,
                sy_capabilities = [''sync.push'', ''sync.pull'', ''chain.diff''], sy_lastSeen = now,
                sy_status = UnknownStatus\<rparr>)"

definition discoverFromEnv :: "string \<Rightarrow> string option \<Rightarrow> SyncAgent list" where
  "discoverFromEnv now peers =
     (case truthy (map_option trim peers) of
        None \<Rightarrow> []
      | Some s \<Rightarrow>
          concat (map (\<lambda>e. case peer_agent now e of None \<Rightarrow> [] | Some a \<Rightarrow> [a])
            (filter (\<lambda>e. e \<noteq> '''') (map trim (split_on (CHR '','') s)))))"

definition discover :: "string \<Rightarrow> string option \<Rightarrow> SyncAgent list \<Rightarrow> SyncAgent list" where
  "discover now peers agents = fold replace_agent (discoverFromEnv now peers) agents"

section \<open>Push and pull\<close>

record SyncStore =
  ys_agents :: "SyncAgent list"
  ys_chains :: "(string, Block list) jsmap"

definition readChain :: "string \<Rightarrow> SyncStore \<Rightarrow> Block list" where
  "readChain chain s = or_else (map_of (ys_chains s) chain) []"

definition writeChain :: "string \<Rightarrow> Block list \<Rightarrow> SyncStore \<Rightarrow> SyncStore" where
  "writeChain chain bs s = s\<lparr>ys_chains := AList.update chain bs (ys_chains s)\<rparr>"

definition see_agent :: "SyncAgent \<Rightarrow> AgentStatus \<Rightarrow> SyncStore \<Rightarrow> SyncStore" where
  "see_agent agent st s = s\<lparr>ys_agents := replace_agent (agent\<lparr>sy_status := st\<rparr>) (ys_agents s)\<rparr>"

record SyncStatus =
  ty_localBlocks :: nat
  ty_agentsKnown :: nat
  ty_agentsOnline :: nat

definition sync_status :: "string \<Rightarrow> SyncStore \<Rightarrow> SyncStatus" where
  "sync_status chain s =
     \<lparr>ty_localBlocks = length (readChain chain s), ty_agentsKnown = length (ys_agents s),
      ty_agentsOnline = length (filter (\<lambda>a. sy_status a = Online) (ys_agents s))\<rparr>"

text \<open>\<open>send\<close> is the outcome of one request to an agent.\<close>

fun push_to ::
  "(SyncAgent \<Rightarrow> (string, unit) result) \<Rightarrow> SyncAgent list \<Rightarrow> nat \<times> (string \<times> string) list \<Rightarrow> SyncStore \<Rightarrow>
   (nat \<times> (string \<times> string) list) \<times> SyncStore" where
  "push_to send [] acc s = (acc, s)"
| "push_to send (a # as) (n, failures) s =
     (case send a of
        Inr _ \<Rightarrow> push_to send as (n + 1, failures) (see_agent a Online s)
      | Inl e \<Rightarrow> push_to send as (n, failures @ [(sy_did a, e)]) (see_agent a Offline s))"

definition push ::
  "(Block list \<Rightarrow> SyncAgent \<Rightarrow> (string, unit) result) \<Rightarrow> string \<Rightarrow> SyncStore \<Rightarrow>
   (nat \<times> (string \<times> string) list) \<times> SyncStore" where
  "push send chain s = push_to (send (readChain chain s)) (ys_agents s) (0, []) s"

record PullResult =
  pu_before :: nat
  pu_after :: nat
  pu_localOnly :: nat
  pu_remoteOnly :: nat
  pu_conflicts :: nat

definition pull ::
  "sync_host \<Rightarrow> (SyncAgent \<Rightarrow> (string, Block list option) result) \<Rightarrow> string \<Rightarrow> string \<Rightarrow> MergeStrategy \<Rightarrow> SyncStore \<Rightarrow>
   (string, PullResult) result \<times> SyncStore" where
  "pull h send agentDid chain strategy s =
     (case getAgent agentDid (ys_agents s) of
        None \<Rightarrow> (Inl (''agent not found in registry: '' @ agentDid), s)
      | Some agent \<Rightarrow>
          (case send agent of
             Inl e \<Rightarrow> (Inl e, s)
           | Inr blocks \<Rightarrow>
               (let remoteBlocks = or_else blocks []; localBlocks = readChain chain s;
                    diff = detectChainDiff h localBlocks remoteBlocks;
                    merged = resolveChainConflicts h strategy localBlocks remoteBlocks
                in (Inr \<lparr>pu_before = length localBlocks, pu_after = length merged,
                         pu_localOnly = length (df_localOnly diff), pu_remoteOnly = length (df_remoteOnly diff),
                         pu_conflicts = length (df_conflicts diff)\<rparr>,
                    see_agent agent Online (writeChain chain merged s)))))"

section \<open>The ledger\<close>

record SyncLedgerEntry =
  le_id :: string
  le_ts :: string
  le_action :: string
  le_actor :: string
  le_rest :: "(string \<times> json) list"

definition ledger_append :: "SyncLedgerEntry \<Rightarrow> SyncLedgerEntry list \<Rightarrow> SyncLedgerEntry list" where
  "ledger_append entry current = current @ [entry]"

definition listForActor :: "string \<Rightarrow> SyncLedgerEntry list \<Rightarrow> SyncLedgerEntry list" where
  "listForActor actor entries = filter (\<lambda>e. le_actor e = actor) entries"

end
