(* ===== verification/SyncLaws.thy ===== *)
theory SyncLaws
  imports Sync
begin

text \<open>
  What an exchange of chains guarantees: the merge has every key of both sides once, in order, with the block
  the strategy picks; pulling again changes nothing. And what it does not: two branches of a fork are both
  kept, without a conflict being reported.
\<close>

section \<open>Maps from keys to blocks\<close>

definition keyed :: "sync_host \<Rightarrow> (string, Block) jsmap \<Rightarrow> bool" where
  "keyed h m \<longleftrightarrow> wf_map m \<and> (\<forall>(k, b) \<in> set m. blockKey h b = k)"

lemma keyed_Nil [simp]: "keyed h []"
  by (simp add: keyed_def)

lemma set_update_cases: "(k', v') \<in> set (AList.update k v m) \<Longrightarrow> (k', v') = (k, v) \<or> (k', v') \<in> set m"
  by (induction m) (auto split: if_split_asm)

lemma keyed_update: "keyed h m \<Longrightarrow> blockKey h b = k \<Longrightarrow> keyed h (AList.update k b m)"
  by (auto simp: keyed_def dest: set_update_cases)

lemma keyed_fold: "keyed h m \<Longrightarrow> keyed h (fold (\<lambda>b. AList.update (blockKey h b) b) bs m)"
  by (induction bs arbitrary: m) (simp_all add: keyed_update)

lemma keyed_key_map [simp]: "keyed h (key_map h bs)"
  by (simp add: key_map_def keyed_fold)

lemma keyed_merge_block: "keyed h m \<Longrightarrow> keyed h (merge_block h st b m)"
  by (simp add: merge_block_def Let_def keyed_update split: option.splits)

lemma keyed_merge: "keyed h m \<Longrightarrow> keyed h (fold (merge_block h st) bs m)"
  by (induction bs arbitrary: m) (simp_all add: keyed_merge_block)

lemma keys_keyed: "keyed h m \<Longrightarrow> map (blockKey h) (map snd m) = keys m"
  by (auto simp: keyed_def keys_def)

lemma keys_key_map: "set (keys (key_map h bs)) = blockKey h ` set bs"
proof -
  have "set (keys (fold (\<lambda>b. AList.update (blockKey h b) b) bs m)) = set (keys m) \<union> blockKey h ` set bs" for m
    by (induction bs arbitrary: m) (auto simp: keys_update)
  from this [of "[]"] show ?thesis by (simp add: key_map_def keys_def)
qed

lemma set_keys_dom: "set (keys m) = dom (map_of m)"
  by (simp add: keys_def dom_map_of_conv_image_fst)

lemma distinct_map_mset: "mset xs = mset ys \<Longrightarrow> distinct (map f xs) = distinct (map f ys)"
  by (rule mset_eq_imp_distinct_iff) simp

text \<open>A list of blocks with distinct keys is its own key map.\<close>

lemma key_map_distinct:
  assumes "distinct (map (blockKey h) bs)"
  shows "key_map h bs = map (\<lambda>b. (blockKey h b, b)) bs"
proof -
  have "fold (\<lambda>b. AList.update (blockKey h b) b) bs m = m @ map (\<lambda>b. (blockKey h b, b)) bs"
    if "distinct (map (blockKey h) bs)" "set (keys m) \<inter> blockKey h ` set bs = {}" for m
    using that
  proof (induction bs arbitrary: m)
    case (Cons b bs)
    have "AList.update k v m = m @ [(k, v)]" if "k \<notin> set (keys m)" for k v and m :: "(string, Block) jsmap"
      using that by (induction m) (auto simp: keys_def)
    moreover have "blockKey h b \<notin> set (keys m)" using Cons.prems by auto
    ultimately show ?case using Cons by (auto simp: keys_def)
  qed simp
  from this [of "[]"] assms show ?thesis by (simp add: key_map_def keys_def)
qed

definition pick :: "sync_host \<Rightarrow> MergeStrategy \<Rightarrow> Block \<Rightarrow> Block \<Rightarrow> Block" where
  "pick h st l r =
     (case st of PreferLocal \<Rightarrow> l | PreferRemote \<Rightarrow> r
      | LastWriteWins \<Rightarrow> if blockTimestamp h r \<ge> blockTimestamp h l then r else l)"

lemma map_of_merge_block:
  "map_of (merge_block h st b m) k =
     (if k = blockKey h b then Some (case map_of m k of None \<Rightarrow> b | Some l \<Rightarrow> pick h st l b) else map_of m k)"
  by (cases st) (auto simp: merge_block_def Let_def map_of_update pick_def split: option.splits)

lemma keys_merge: "set (keys (fold (merge_block h st) bs m)) = set (keys m) \<union> blockKey h ` set bs"
proof (induction bs arbitrary: m)
  case (Cons b bs)
  have "set (keys (merge_block h st b m)) = insert (blockKey h b) (set (keys m))"
    by (auto simp: set_keys_dom map_of_merge_block split: if_split_asm)
  with Cons show ?case by simp
qed simp

lemma map_of_merge:
  "distinct (map (blockKey h) bs) \<Longrightarrow>
   map_of (fold (merge_block h st) bs m) k =
     (case find (\<lambda>b. blockKey h b = k) bs of
        None \<Rightarrow> map_of m k
      | Some b \<Rightarrow> Some (case map_of m k of None \<Rightarrow> b | Some l \<Rightarrow> pick h st l b))"
proof (induction bs arbitrary: m)
  case (Cons b bs)
  show ?case
  proof (cases "blockKey h b = k")
    case True
    moreover have "blockKey h b \<notin> blockKey h ` set bs" using Cons.prems by simp
    ultimately have "find (\<lambda>b. blockKey h b = k) bs = None"
      unfolding find_None_iff by (metis imageI)
    with Cons True show ?thesis by (simp add: map_of_merge_block)
  next
    case False
    then have same: "map_of (merge_block h st b m) k = map_of m k" by (simp add: map_of_merge_block)
    have "map_of (fold (merge_block h st) (b # bs) m) k = map_of (fold (merge_block h st) bs (merge_block h st b m)) k"
      by simp
    also have "\<dots> = (case find (\<lambda>b. blockKey h b = k) bs of
        None \<Rightarrow> map_of m k
      | Some b \<Rightarrow> Some (case map_of m k of None \<Rightarrow> b | Some l \<Rightarrow> pick h st l b))"
      using Cons.IH [of "merge_block h st b m"] Cons.prems unfolding same by simp
    finally show ?thesis using False by simp
  qed
qed simp

section \<open>Order of the merge\<close>

interpretation positions: comparator "by_position h" for h
  by unfold_locales (auto simp: by_position_def Let_def split: if_split_asm)

lemma js_sort_sorted: "sorted_wrt (\<lambda>x y. cmp x y \<le> 0) xs \<Longrightarrow> js_sort cmp xs = xs"
proof (induction xs)
  case (Cons x xs)
  then show ?case by (cases xs) simp_all
qed simp

lemma update_present: "map_of m k = Some v \<Longrightarrow> AList.update k v m = m"
  by (induction m) auto

definition at_key :: "sync_host \<Rightarrow> string \<Rightarrow> Block list \<Rightarrow> Block option" where
  "at_key h k bs = find (\<lambda>b. blockKey h b = k) bs"

lemma at_key_map: "distinct (map (blockKey h) bs) \<Longrightarrow> at_key h k bs = map_of (map (\<lambda>b. (blockKey h b, b)) bs) k"
  by (induction bs) (auto simp: at_key_def)

lemma at_key_member: "distinct (map (blockKey h) bs) \<Longrightarrow> b \<in> set bs \<Longrightarrow> at_key h (blockKey h b) bs = Some b"
  by (auto simp: at_key_map comp_def)

lemma at_key_mset:
  assumes "distinct (map (blockKey h) xs)" and "mset xs = mset ys"
  shows "at_key h k xs = at_key h k ys"
proof -
  have d: "distinct (map (blockKey h) ys)" using assms distinct_map_mset by blast
  have "map_of (map (\<lambda>b. (blockKey h b, b)) xs) = map_of (map (\<lambda>b. (blockKey h b, b)) ys)"
  proof (rule map_of_inject_set [THEN iffD2])
    show "distinct (map fst (map (\<lambda>b. (blockKey h b, b)) xs))" "distinct (map fst (map (\<lambda>b. (blockKey h b, b)) ys))"
      using assms(1) d by (simp_all add: comp_def)
    show "set (map (\<lambda>b. (blockKey h b, b)) xs) = set (map (\<lambda>b. (blockKey h b, b)) ys)"
      using mset_eq_setD [OF assms(2)] by simp
  qed
  then show ?thesis by (simp add: at_key_map assms(1) d)
qed

lemma keyed_map_id: "keyed h m \<Longrightarrow> map (\<lambda>b. (blockKey h b, b)) (map snd m) = m"
  by (auto simp: keyed_def intro!: map_idI)

lemma merged_list:
  assumes "keyed h m"
  defines "out \<equiv> js_sort (by_position h) (map snd m)"
  shows "distinct (map (blockKey h) out)" and "at_key h k out = map_of m k"
    and "set (map (blockKey h) out) = set (keys m)"
proof -
  have d: "distinct (map (blockKey h) (map snd m))"
    using assms(1) unfolding keys_keyed [OF assms(1)] by (simp add: keyed_def wf_map_def)
  have ms: "mset out = mset (map snd m)" by (simp only: out_def mset_js_sort)
  show "distinct (map (blockKey h) out)" using d unfolding distinct_map_mset [OF ms] .
  have "at_key h k out = at_key h k (map snd m)" by (rule at_key_mset [OF d ms [symmetric], symmetric])
  then show "at_key h k out = map_of m k" by (simp only: at_key_map [OF d] keyed_map_id [OF assms(1)])
  show "set (map (blockKey h) out) = set (keys m)"
    using mset_eq_setD [OF ms] keys_keyed [OF assms(1)] by (metis set_map)
qed

section \<open>Properties\<close>

lemma remote_only:
  assumes "distinct (map (blockKey h) remote)"
  shows "length (df_remoteOnly (detectChainDiff h local remote)) = card (blockKey h ` set remote - blockKey h ` set local)"
proof -
  let ?new = "filter (\<lambda>b. blockKey h b \<notin> blockKey h ` set local) remote"
  have "df_remoteOnly (detectChainDiff h local remote) = ?new"
    by (simp add: detectChainDiff_def Let_def key_map_distinct [OF assms] has_key_iff keys_key_map filter_map comp_def)
  moreover have "card (set (map (blockKey h) ?new)) = length (map (blockKey h) ?new)"
    by (rule distinct_card) (use assms in \<open>simp add: distinct_map_filter\<close>)
  moreover have "set (map (blockKey h) ?new) = blockKey h ` set remote - blockKey h ` set local" by auto
  ultimately show ?thesis by simp
qed

text \<open>
  C38: The merge of two chains without repeated keys is in order of position and has every key of either side
  once: the side's own block where only one has the key, and the block the strategy picks where both do. The
  number of blocks a pull adds is the number it reports as the remote's own.
\<close>

theorem sync_merge_complete:
  fixes st :: MergeStrategy
  assumes "distinct (map (blockKey h) local)" and "distinct (map (blockKey h) remote)"
  defines "out \<equiv> resolveChainConflicts h st local remote"
  shows "sorted_wrt (\<lambda>a b. by_position h a b \<le> 0) out \<and> distinct (map (blockKey h) out) \<and>
    (\<forall>k. at_key h k out = (case (at_key h k local, at_key h k remote) of
        (None, r) \<Rightarrow> r | (Some l, None) \<Rightarrow> Some l | (Some l, Some r) \<Rightarrow> Some (pick h st l r))) \<and>
    length out = length local + length (df_remoteOnly (detectChainDiff h local remote))"
proof -
  let ?m = "fold (merge_block h st) remote (key_map h local)"
  let ?L = "blockKey h ` set local" and ?R = "blockKey h ` set remote"
  have keyed: "keyed h ?m" by (simp add: keyed_merge)
  note out = merged_list [OF keyed, folded resolveChainConflicts_def, folded out_def]
  have at: "at_key h k out = (case (at_key h k local, at_key h k remote) of
        (None, r) \<Rightarrow> r | (Some l, None) \<Rightarrow> Some l | (Some l, Some r) \<Rightarrow> Some (pick h st l r))" for k
    using map_of_merge [OF assms(2), of st "key_map h local" k]
    unfolding out(2) at_key_map [OF assms(1)] key_map_distinct [OF assms(1)] at_key_def [of h k remote]
    by (simp split: option.splits)
  have sorted: "sorted_wrt (\<lambda>a b. by_position h a b \<le> 0) out"
    unfolding out_def resolveChainConflicts_def by (rule positions.sorted_js_sort)
  have "length out = card (set (map (blockKey h) out))" using distinct_card [OF out(1)] by simp
  also have "\<dots> = card (?L \<union> ?R)" unfolding out(3) keys_merge keys_key_map ..
  also have "?L \<union> ?R = ?L \<union> (?R - ?L)" by blast
  also have "card (?L \<union> (?R - ?L)) = card ?L + card (?R - ?L)" by (rule card_Un_disjoint) auto
  also have "card ?L = length local" using distinct_card [OF assms(1)] by simp
  finally have "length out = length local + length (df_remoteOnly (detectChainDiff h local remote))"
    unfolding remote_only [OF assms(2), of local] .
  with at sorted out(1) show ?thesis by blast
qed

text \<open>
  Pulling the same answer again changes nothing: whatever the strategy, the merge with the same remote
  chain is the chain itself.
\<close>

theorem sync_pull_idempotent:
  fixes st :: MergeStrategy
  assumes "distinct (map (blockKey h) remote)"
  defines "send \<equiv> (\<lambda>_. Inr (Some remote))"
  assumes "pull h send did chain st s = (Inr r, s1)"
  shows "\<exists>r2 s2. pull h send did chain st s1 = (Inr r2, s2) \<and> readChain chain s2 = readChain chain s1 \<and>
    pu_before r2 = pu_after r \<and> pu_after r2 = pu_after r"
proof -
  let ?out = "resolveChainConflicts h st (readChain chain s) remote"
  let ?m = "fold (merge_block h st) remote (key_map h (readChain chain s))"
  obtain a where "getAgent did (ys_agents s) = Some a" and s1: "s1 = see_agent a Online (writeChain chain ?out s)"
    and r: "pu_after r = length ?out"
    using assms(3) by (auto simp: pull_def send_def Let_def split: option.splits)
  have "getAgent did (replace_agent x as) \<noteq> None" if "getAgent did as \<noteq> None" "sy_did x = did" for x as
    using that by (induction as) (auto simp: getAgent_def split: if_split_asm)
  moreover have "sy_did a = did" using \<open>getAgent did (ys_agents s) = Some a\<close>
    by (auto simp: getAgent_def find_Some_iff)
  ultimately obtain a2 where a2: "getAgent did (ys_agents s1) = Some a2"
    using \<open>getAgent did (ys_agents s) = Some a\<close> unfolding s1 see_agent_def writeChain_def by fastforce
  have chain: "readChain chain s1 = ?out"
    by (simp add: s1 readChain_def see_agent_def writeChain_def map_of_update)
  have keyed: "keyed h ?m" by (simp add: keyed_merge)
  note out = merged_list [OF keyed, folded resolveChainConflicts_def]
  have "merge_block h st b (key_map h ?out) = key_map h ?out" if "b \<in> set remote" for b
  proof -
    have "at_key h (blockKey h b) remote = Some b"
      using at_key_member [OF assms(1) that] .
    then have "map_of ?m (blockKey h b) = Some (case map_of (key_map h (readChain chain s)) (blockKey h b) of
        None \<Rightarrow> b | Some l \<Rightarrow> pick h st l b)"
      using map_of_merge [OF assms(1), of st "key_map h (readChain chain s)" "blockKey h b"] by (simp add: at_key_def)
    then obtain x where x: "map_of (key_map h ?out) (blockKey h b) = Some x" "pick h st x b = x"
      using out(2) [of "blockKey h b"]
      by (auto simp: at_key_map [OF out(1)] key_map_distinct [OF out(1)] pick_def split: option.splits MergeStrategy.splits if_splits)
    then show ?thesis
      using update_present [OF x(1)]
      by (cases st) (auto simp: merge_block_def Let_def pick_def)
  qed
  then have "fold (merge_block h st) bs (key_map h ?out) = key_map h ?out" if "set bs \<subseteq> set remote" for bs
    using that by (induction bs) simp_all
  then have "resolveChainConflicts h st ?out remote = js_sort (by_position h) ?out"
    by (simp add: resolveChainConflicts_def [of h st ?out] key_map_distinct [OF out(1)] comp_def)
  also have "\<dots> = ?out"
    by (rule js_sort_sorted) (unfold resolveChainConflicts_def, rule positions.sorted_js_sort)
  finally show ?thesis
    using a2 r by (simp add: pull_def send_def Let_def chain)
      (simp add: readChain_def see_agent_def writeChain_def map_of_update)
qed

section \<open>An exchange between two agents\<close>

text \<open>Two chains that share their first block and forked after it; the dates are eight digits.\<close>

definition demo_sync_host :: sync_host where
  "demo_sync_host = \<lparr>sh_locale = (\<lambda>a b. int (length a) - int (length b)),
     sh_date = (\<lambda>s. if s = ''20260101'' then Some 1 else if s = ''20260102'' then Some 2 else None)\<rparr>"

definition demo_sync_block :: "int \<Rightarrow> string \<Rightarrow> string \<Rightarrow> Block" where
  "demo_sync_block i t x = \<lparr>mb_index = Some i, mb_timestamp = Some t, mb_hash = Some x, mb_chain = None, mb_data = None\<rparr>"

definition demo_local :: "Block list" where
  "demo_local = [demo_sync_block 0 ''20260101'' ''a'', demo_sync_block 1 ''20260102'' ''b'']"

definition demo_remote :: "Block list" where
  "demo_remote = [demo_sync_block 0 ''20260101'' ''a'', demo_sync_block 1 ''20260101'' ''c'']"

definition demo_store :: SyncStore where
  "demo_store = \<lparr>ys_agents = [\<lparr>sy_did = ''did:b'', sy_name = None, sy_endpoint = ''ws://b'', sy_capabilities = [],
       sy_lastSeen = ''20260101'', sy_status = UnknownStatus\<rparr>], ys_chains = [(''journal'', demo_local)]\<rparr>"

lemmas demo_sync = demo_sync_host_def demo_sync_block_def demo_local_def demo_remote_def demo_store_def

lemma demo_chains_distinct:
  "distinct (map (blockKey demo_sync_host) demo_local)" "distinct (map (blockKey demo_sync_host) demo_remote)"
  by (simp_all add: demo_sync blockKey_def data_or_empty_def)

lemma sync_merge_complete_witness:
  "let out = resolveChainConflicts demo_sync_host PreferRemote demo_local demo_remote
   in out = [demo_sync_block 0 ''20260101'' ''a'', demo_sync_block 1 ''20260101'' ''c'', demo_sync_block 1 ''20260102'' ''b''] \<and>
      df_conflicts (detectChainDiff demo_sync_host demo_local demo_remote) = [] \<and>
      length out = length demo_local + length (df_remoteOnly (detectChainDiff demo_sync_host demo_local demo_remote))"
proof -
  have "resolveChainConflicts demo_sync_host PreferRemote demo_local demo_remote =
      [demo_sync_block 0 ''20260101'' ''a'', demo_sync_block 1 ''20260101'' ''c'', demo_sync_block 1 ''20260102'' ''b'']"
    and "df_conflicts (detectChainDiff demo_sync_host demo_local demo_remote) = []"
    by code_simp+
  with sync_merge_complete [OF demo_chains_distinct, of PreferRemote] show ?thesis by (simp add: Let_def)
qed

lemma sync_pull_idempotent_witness:
  "\<exists>r s1 r2 s2.
     pull demo_sync_host (\<lambda>_. Inr (Some demo_remote)) ''did:b'' ''journal'' LastWriteWins demo_store = (Inr r, s1) \<and>
     pull demo_sync_host (\<lambda>_. Inr (Some demo_remote)) ''did:b'' ''journal'' LastWriteWins s1 = (Inr r2, s2) \<and>
     readChain ''journal'' s2 = readChain ''journal'' s1 \<and> pu_before r2 = pu_after r"
proof -
  obtain r s1 where first:
    "pull demo_sync_host (\<lambda>_. Inr (Some demo_remote)) ''did:b'' ''journal'' LastWriteWins demo_store = (Inr r, s1)"
    by (simp add: pull_def demo_store_def getAgent_def Let_def)
  show ?thesis
    using sync_pull_idempotent [OF demo_chains_distinct(2) first] first by blast
qed

end
