(* ===== verification/Caches.thy ===== *)
theory Caches
  imports JsonRoundtrip Errors "HOL-Library.While_Combinator"
begin

text \<open>
  The in-memory caches: \<open>infra/cache/chain-cache.ts\<close> (least recently used blocks), \<open>cache/query-cache.ts\<close>
  (results with an age), \<open>cache/file-cache.ts\<close> (file contents by modification time) and the buffers of
  \<open>infra/memory/buffer-pool.ts\<close>.

  A class is a record of its fields, a method a function to its value and the next record. The time, the file
  system at each \<open>await\<close> and the bytes of a fresh buffer are arguments. A quotient in the statistics is the pair
  of its terms.
\<close>

section \<open>Blocks of a chain\<close>

record ChainCache =
  cc_maxBlocks :: nat
  cc_blocks :: "(string, json) jsmap"
  cc_blockSizes :: "(string, nat) jsmap"
  cc_hits :: nat
  cc_misses :: nat
  cc_writes :: nat
  cc_invalidations :: nat
  cc_estimatedBytes :: nat

definition newChainCache :: "nat option \<Rightarrow> ChainCache" where
  "newChainCache maxBlocks =
     \<lparr>cc_maxBlocks = max 1 (or_else maxBlocks 512), cc_blocks = [], cc_blockSizes = [], cc_hits = 0, cc_misses = 0,
      cc_writes = 0, cc_invalidations = 0, cc_estimatedBytes = 0\<rparr>"

definition makeKey :: "string \<Rightarrow> nat \<Rightarrow> string" where
  "makeKey chain index = chain @ '':'' @ show_nat index"

definition estimateBlockBytes :: "string \<Rightarrow> json \<Rightarrow> nat" where
  "estimateBlockBytes key v = utf16_length key * 2 + utf16_length (JSON_stringify v) * 2"

definition cc_get :: "string \<Rightarrow> nat \<Rightarrow> ChainCache \<Rightarrow> json option \<times> ChainCache" where
  "cc_get chain index c =
     (let key = makeKey chain index
      in case map_of (cc_blocks c) key of
           Some v \<Rightarrow>
             if js_truthy (Some v) then
               (Some v, c\<lparr>cc_hits := cc_hits c + 1, cc_blocks := AList.update key v (AList.delete key (cc_blocks c))\<rparr>)
             else (None, c\<lparr>cc_misses := cc_misses c + 1\<rparr>)
         | None \<Rightarrow> (None, c\<lparr>cc_misses := cc_misses c + 1\<rparr>))"

text \<open>Subtraction stops at zero, like \<open>Math.max(0, ...)\<close>.\<close>

definition uncharge :: "string \<Rightarrow> ChainCache \<Rightarrow> ChainCache" where
  "uncharge key c = c\<lparr>cc_estimatedBytes := cc_estimatedBytes c - or_else (map_of (cc_blockSizes c) key) 0\<rparr>"

definition drop_block :: "string \<Rightarrow> ChainCache \<Rightarrow> ChainCache" where
  "drop_block key c =
     (uncharge key c)\<lparr>cc_blocks := AList.delete key (cc_blocks c), cc_blockSizes := AList.delete key (cc_blockSizes c)\<rparr>"

definition replace_block :: "string \<Rightarrow> ChainCache \<Rightarrow> ChainCache" where
  "replace_block key c =
     (if has_key (cc_blocks c) key then (uncharge key c)\<lparr>cc_blocks := AList.delete key (cc_blocks c)\<rparr> else c)"

definition drop_oldest_block :: "ChainCache \<Rightarrow> ChainCache" where
  "drop_oldest_block c =
     (if length (cc_blocks c) > cc_maxBlocks c then
        (case keys (cc_blocks c) of
           [] \<Rightarrow> c
         | oldestKey # _ \<Rightarrow> if oldestKey = '''' then c else drop_block oldestKey c)
      else c)"

definition cc_set :: "string \<Rightarrow> nat \<Rightarrow> json \<Rightarrow> ChainCache \<Rightarrow> ChainCache" where
  "cc_set chain index v c =
     (let key = makeKey chain index; c1 = replace_block key c; estimate = estimateBlockBytes key v
      in drop_oldest_block
           (c1\<lparr>cc_blocks := AList.update key v (cc_blocks c1), cc_blockSizes := AList.update key estimate (cc_blockSizes c1),
               cc_estimatedBytes := cc_estimatedBytes c1 + estimate, cc_writes := cc_writes c1 + 1\<rparr>))"

definition invalidateChain :: "string \<Rightarrow> ChainCache \<Rightarrow> nat \<times> ChainCache" where
  "invalidateChain chain c =
     (let toRemove = filter (\<lambda>key. starts_with key (chain @ '':'')) (keys (cc_blocks c));
          c1 = fold drop_block toRemove c
      in (length toRemove,
          if length toRemove > 0 then c1\<lparr>cc_invalidations := cc_invalidations c1 + 1\<rparr> else c1))"

definition invalidateBlock :: "string \<Rightarrow> nat \<Rightarrow> ChainCache \<Rightarrow> bool \<times> ChainCache" where
  "invalidateBlock chain index c =
     (let key = makeKey chain index
      in if has_key (cc_blocks c) key then
           (let c1 = drop_block key c in (True, c1\<lparr>cc_invalidations := cc_invalidations c1 + 1\<rparr>))
         else (False, c))"

definition cc_clear :: "ChainCache \<Rightarrow> ChainCache" where
  "cc_clear c =
     (if length (cc_blocks c) > 0 then
        c\<lparr>cc_blocks := [], cc_blockSizes := [], cc_estimatedBytes := 0, cc_invalidations := cc_invalidations c + 1\<rparr>
      else c)"

record ChainCacheStats =
  cs_size :: nat
  cs_maxBlocks :: nat
  cs_hits :: nat
  cs_misses :: nat
  cs_writes :: nat
  cs_invalidations :: nat
  cs_hitRate :: "nat \<times> nat"
  cs_estimatedBytes :: nat

definition cc_getStats :: "ChainCache \<Rightarrow> ChainCacheStats" where
  "cc_getStats c =
     (let totalReads = cc_hits c + cc_misses c
      in \<lparr>cs_size = length (cc_blocks c), cs_maxBlocks = cc_maxBlocks c, cs_hits = cc_hits c, cs_misses = cc_misses c,
          cs_writes = cc_writes c, cs_invalidations = cc_invalidations c,
          cs_hitRate = (if totalReads = 0 then (0, 1) else (cc_hits c, totalReads)),
          cs_estimatedBytes = cc_estimatedBytes c\<rparr>)"

section \<open>Query results\<close>

text \<open>The first entry whose time is the least; the scan keeps the best so far.\<close>

definition oldest_step :: "('v \<Rightarrow> int) \<Rightarrow> string \<times> 'v \<Rightarrow> (string \<times> int) option \<Rightarrow> (string \<times> int) option" where
  "oldest_step stamp kv acc =
     (case acc of
        None \<Rightarrow> Some (fst kv, stamp (snd kv))
      | Some (k0, t0) \<Rightarrow> if stamp (snd kv) < t0 then Some (fst kv, stamp (snd kv)) else acc)"

definition oldest :: "('v \<Rightarrow> int) \<Rightarrow> (string, 'v) jsmap \<Rightarrow> string option" where
  "oldest stamp m = map_option fst (fold (oldest_step stamp) m None)"

record QueryEntry =
  qe_data :: json
  qe_timestamp :: int
  qe_hits :: nat

record QueryCache =
  qc_cache :: "(string, QueryEntry) jsmap"
  qc_maxAge :: int
  qc_maxSize :: nat

definition newQueryCache :: "int \<Rightarrow> nat \<Rightarrow> QueryCache" where
  "newQueryCache maxAgeMs maxSize = \<lparr>qc_cache = [], qc_maxAge = maxAgeMs, qc_maxSize = maxSize\<rparr>"

definition qc_expired :: "int \<Rightarrow> QueryEntry \<Rightarrow> QueryCache \<Rightarrow> bool" where
  "qc_expired now e c \<longleftrightarrow> now - qe_timestamp e > qc_maxAge c"

definition qc_get :: "int \<Rightarrow> string \<Rightarrow> QueryCache \<Rightarrow> json option \<times> QueryCache" where
  "qc_get now query c =
     (case map_of (qc_cache c) query of
        None \<Rightarrow> (None, c)
      | Some e \<Rightarrow>
          if qc_expired now e c then (None, c\<lparr>qc_cache := AList.delete query (qc_cache c)\<rparr>)
          else (Some (qe_data e), c\<lparr>qc_cache := AList.update query (e\<lparr>qe_hits := qe_hits e + 1\<rparr>) (qc_cache c)\<rparr>))"

definition qc_evictOldest :: "QueryCache \<Rightarrow> QueryCache" where
  "qc_evictOldest c =
     (case oldest qe_timestamp (qc_cache c) of
        None \<Rightarrow> c
      | Some k \<Rightarrow> if k = '''' then c else c\<lparr>qc_cache := AList.delete k (qc_cache c)\<rparr>)"

definition qc_set :: "int \<Rightarrow> string \<Rightarrow> json \<Rightarrow> QueryCache \<Rightarrow> QueryCache" where
  "qc_set now query result c =
     (let c1 = (if length (qc_cache c) \<ge> qc_maxSize c then qc_evictOldest c else c)
      in c1\<lparr>qc_cache := AList.update query \<lparr>qe_data = result, qe_timestamp = now, qe_hits = 0\<rparr> (qc_cache c1)\<rparr>)"

definition qc_has :: "int \<Rightarrow> string \<Rightarrow> QueryCache \<Rightarrow> bool \<times> QueryCache" where
  "qc_has now query c =
     (case map_of (qc_cache c) query of
        None \<Rightarrow> (False, c)
      | Some e \<Rightarrow>
          if qc_expired now e c then (False, c\<lparr>qc_cache := AList.delete query (qc_cache c)\<rparr>) else (True, c))"

definition qc_prune :: "int \<Rightarrow> QueryCache \<Rightarrow> nat \<times> QueryCache" where
  "qc_prune now c =
     (let old = filter (\<lambda>(k, e). qc_expired now e c) (qc_cache c)
      in (length old, c\<lparr>qc_cache := fold AList.delete (keys old) (qc_cache c)\<rparr>))"

record QueryStats =
  qs_size :: nat
  qs_hitRate :: "nat \<times> nat"
  qs_avgAge :: "int \<times> nat"

definition qc_stats :: "int \<Rightarrow> QueryCache \<Rightarrow> QueryStats" where
  "qc_stats now c =
     (let es = map snd (qc_cache c); n = max 1 (length (qc_cache c))
      in \<lparr>qs_size = length (qc_cache c), qs_hitRate = (sum_list (map qe_hits es), n),
          qs_avgAge = (sum_list (map (\<lambda>e. now - qe_timestamp e) es), n)\<rparr>)"

definition qc_clear :: "QueryCache \<Rightarrow> QueryCache" where
  "qc_clear c = c\<lparr>qc_cache := []\<rparr>"

section \<open>File contents\<close>

record FileCacheEntry =
  fe_content :: string
  fe_mtime :: int
  fe_size :: nat

record FileCache =
  fc_cache :: "(string, FileCacheEntry) jsmap"
  fc_maxSize :: nat
  fc_currentSize :: int

text \<open>The files as one call sees them: content and modification time by path.\<close>

type_synonym disk_view = "string \<Rightarrow> (string \<times> int) option"

definition newFileCache :: "nat \<Rightarrow> FileCache" where
  "newFileCache maxSizeBytes = \<lparr>fc_cache = [], fc_maxSize = maxSizeBytes, fc_currentSize = 0\<rparr>"

definition fs_readFile :: "disk_view \<Rightarrow> string \<Rightarrow> (string, string) result" where
  "fs_readFile d path = (case d path of None \<Rightarrow> Inl (''ENOENT: '' @ path) | Some (content, _) \<Rightarrow> Inr content)"

definition fs_mtime :: "disk_view \<Rightarrow> string \<Rightarrow> (string, int) result" where
  "fs_mtime d path = (case d path of None \<Rightarrow> Inl (''ENOENT: '' @ path) | Some (_, t) \<Rightarrow> Inr t)"

definition fc_evict :: "string \<Rightarrow> FileCache \<Rightarrow> FileCache" where
  "fc_evict filePath c =
     (case map_of (fc_cache c) filePath of
        None \<Rightarrow> c
      | Some e \<Rightarrow> c\<lparr>fc_currentSize := fc_currentSize c - int (fe_size e), fc_cache := AList.delete filePath (fc_cache c)\<rparr>)"

definition fc_evictOldest :: "FileCache \<Rightarrow> FileCache" where
  "fc_evictOldest c =
     (case oldest fe_mtime (fc_cache c) of
        None \<Rightarrow> c
      | Some k \<Rightarrow> if k = '''' then c else fc_evict k c)"

definition too_full :: "nat \<Rightarrow> FileCache \<Rightarrow> bool" where
  "too_full wanted c \<longleftrightarrow> fc_currentSize c + int wanted > int (fc_maxSize c) \<and> length (fc_cache c) > 0"

text \<open>
  \<open>read\<close> in the two parts between which other code may run: up to the \<open>stat\<close> of a cached entry (\<open>Inr (Some s)\<close>
  is a hit), and from the content of the file to its place in the cache. The eviction loop may not end.
\<close>

definition fc_lookup :: "disk_view \<Rightarrow> string \<Rightarrow> FileCache \<Rightarrow> (string, string option) result \<times> FileCache" where
  "fc_lookup d filePath c =
     (case map_of (fc_cache c) filePath of
        None \<Rightarrow> (Inr None, c)
      | Some cached \<Rightarrow>
          (case fs_mtime d filePath of
             Inl e \<Rightarrow> (Inl e, c)
           | Inr t \<Rightarrow> if t = fe_mtime cached then (Inr (Some (fe_content cached)), c) else (Inr None, fc_evict filePath c)))"

definition fc_store :: "string \<Rightarrow> string \<Rightarrow> int \<Rightarrow> FileCache \<Rightarrow> FileCache option" where
  "fc_store filePath content mtime c =
     (let bytes = length content
      in case while_option (too_full bytes) fc_evictOldest c of
           None \<Rightarrow> None
         | Some c1 \<Rightarrow>
             Some (c1\<lparr>fc_cache := AList.update filePath \<lparr>fe_content = content, fe_mtime = mtime, fe_size = bytes\<rparr> (fc_cache c1),
                      fc_currentSize := fc_currentSize c1 + int bytes\<rparr>))"

text \<open>A whole read; \<open>d1\<close>, \<open>d2\<close> and \<open>d3\<close> are the files at its three awaits.\<close>

definition fc_read ::
  "disk_view \<Rightarrow> disk_view \<Rightarrow> disk_view \<Rightarrow> string \<Rightarrow> FileCache \<Rightarrow> ((string, string) result \<times> FileCache) option" where
  "fc_read d1 d2 d3 filePath c =
     (case fc_lookup d1 filePath c of
        (Inl e, c1) \<Rightarrow> Some (Inl e, c1)
      | (Inr (Some s), c1) \<Rightarrow> Some (Inr s, c1)
      | (Inr None, c1) \<Rightarrow>
          (case fs_readFile d2 filePath of
             Inl e \<Rightarrow> Some (Inl e, c1)
           | Inr content \<Rightarrow>
               (case fs_mtime d3 filePath of
                  Inl e \<Rightarrow> Some (Inl e, c1)
                | Inr t \<Rightarrow> map_option (Pair (Inr content)) (fc_store filePath content t c1))))"

definition fc_invalidatePattern :: "(string \<Rightarrow> bool) \<Rightarrow> FileCache \<Rightarrow> nat \<times> FileCache" where
  "fc_invalidatePattern pattern c =
     (let hit = filter pattern (keys (fc_cache c)) in (length hit, fold fc_evict hit c))"

definition fc_clear :: "FileCache \<Rightarrow> FileCache" where
  "fc_clear c = c\<lparr>fc_cache := [], fc_currentSize := 0\<rparr>"

section \<open>Buffers\<close>

text \<open>A buffer is a reference; its bytes are in the memory \<open>bp_mem\<close>.\<close>

record BufferPool =
  bp_maxBytes :: nat
  bp_bucketSizes :: "nat list"
  bp_maxBuffersPerBucket :: nat
  bp_buckets :: "(nat, nat list) jsmap"
  bp_usedBytes :: nat
  bp_pooledBytes :: nat
  bp_allocCount :: nat
  bp_reuseCount :: nat
  bp_releaseCount :: nat
  bp_misses :: nat
  bp_mem :: "nat \<Rightarrow> string"
  bp_next :: nat

definition newBufferPool :: "nat option \<Rightarrow> nat list option \<Rightarrow> nat option \<Rightarrow> BufferPool" where
  "newBufferPool maxBytes bucketSizes maxBuffers =
     \<lparr>bp_maxBytes = max 1024 (or_else maxBytes (4 * 1024 * 1024)),
      bp_bucketSizes = js_sort (\<lambda>a b. int a - int b)
        (filter (\<lambda>wanted. wanted > 0) (or_else bucketSizes [256, 512, 1024, 4096, 16384, 65536, 262144])),
      bp_maxBuffersPerBucket = max 1 (or_else maxBuffers 64), bp_buckets = [], bp_usedBytes = 0, bp_pooledBytes = 0,
      bp_allocCount = 0, bp_reuseCount = 0, bp_releaseCount = 0, bp_misses = 0, bp_mem = (\<lambda>_. []), bp_next = 0\<rparr>"

text \<open>The loop over \<open>lo\<close>, \<open>hi\<close> and \<open>best\<close>; \<open>None\<close> is its \<open>-1\<close>.\<close>

function bucket_search :: "nat list \<Rightarrow> nat \<Rightarrow> int \<Rightarrow> int \<Rightarrow> nat option \<Rightarrow> nat option" where
  "bucket_search sizes wanted lo hi best =
     (if lo \<le> hi then
        (let mid = (lo + hi) div 2; candidate = sizes ! nat mid
         in if candidate \<ge> wanted then bucket_search sizes wanted lo (mid - 1) (Some candidate)
            else bucket_search sizes wanted (mid + 1) hi best)
      else best)"
  by pat_completeness auto
termination
  by (relation "measure (\<lambda>(_, _, lo, hi, _). nat (hi - lo + 1))") auto

declare bucket_search.simps [simp del]

definition bucketFor :: "nat \<Rightarrow> BufferPool \<Rightarrow> nat" where
  "bucketFor wanted p =
     (case bucket_search (bp_bucketSizes p) wanted 0 (int (length (bp_bucketSizes p)) - 1) None of
        None \<Rightarrow> wanted
      | Some best \<Rightarrow> if best > 0 then best else wanted)"

text \<open>\<open>push\<close> and \<open>pop\<close> at the end of a list; \<open>junk\<close> is what \<open>allocUnsafe\<close> finds in memory.\<close>

definition acquire :: "(nat \<Rightarrow> string) \<Rightarrow> nat \<Rightarrow> BufferPool \<Rightarrow> nat \<times> BufferPool" where
  "acquire junk wanted p =
     (let bucket = bucketFor (max 1 wanted) p; list = or_else (map_of (bp_buckets p) bucket) []
      in if list \<noteq> [] then
           (let buffer = last list; n = length (bp_mem p buffer)
            in (buffer, p\<lparr>bp_buckets := AList.update bucket (butlast list) (bp_buckets p),
                  bp_pooledBytes := bp_pooledBytes p - n, bp_usedBytes := bp_usedBytes p + n,
                  bp_reuseCount := bp_reuseCount p + 1\<rparr>))
         else
           (bp_next p, p\<lparr>bp_allocCount := bp_allocCount p + 1, bp_usedBytes := bp_usedBytes p + bucket,
              bp_mem := (bp_mem p)(bp_next p := junk bucket), bp_next := bp_next p + 1\<rparr>))"

definition wipe :: "string \<Rightarrow> string" where
  "wipe bytes = replicate (min 64 (length bytes)) (char_of (0 :: nat)) @ drop 64 bytes"

text \<open>\<open>trim\<close>: the buckets from the largest down, one buffer at a time.\<close>

fun trim_list :: "nat \<Rightarrow> nat \<Rightarrow> nat list \<Rightarrow> nat \<Rightarrow> nat list \<times> nat" where
  "trim_list target bucketSize rev_list pooled =
     (case rev_list of
        [] \<Rightarrow> ([], pooled)
      | _ # rest \<Rightarrow> if pooled > target then trim_list target bucketSize rest (pooled - bucketSize) else (rev_list, pooled))"

fun trim_buckets :: "nat \<Rightarrow> nat list \<Rightarrow> BufferPool \<Rightarrow> BufferPool" where
  "trim_buckets target [] p = p"
| "trim_buckets target (b # bs) p =
     (case map_of (bp_buckets p) b of
        None \<Rightarrow> trim_buckets target bs p
      | Some list \<Rightarrow>
          (let (kept, pooled) = trim_list target b (rev list) (bp_pooledBytes p);
               p1 = p\<lparr>bp_pooledBytes := pooled,
                      bp_buckets := (if kept = [] then AList.delete b (bp_buckets p)
                                     else AList.update b (rev kept) (bp_buckets p))\<rparr>
           in if pooled \<le> target then p1 else trim_buckets target bs p1))"

definition bp_trim :: "nat \<Rightarrow> BufferPool \<Rightarrow> BufferPool" where
  "bp_trim target p =
     (if bp_pooledBytes p \<le> target then p
      else trim_buckets target (js_sort (\<lambda>a b. int b - int a) (keys (bp_buckets p))) p)"

definition trim_target :: "BufferPool \<Rightarrow> nat" where
  "trim_target p = bp_maxBytes p * 3 div 4"

definition bp_release :: "nat \<Rightarrow> BufferPool \<Rightarrow> BufferPool" where
  "bp_release buffer p =
     (let bucket = length (bp_mem p buffer);
          p1 = p\<lparr>bp_releaseCount := bp_releaseCount p + 1, bp_usedBytes := bp_usedBytes p - bucket\<rparr>
      in if bp_pooledBytes p1 + bucket > bp_maxBytes p1 then p1\<lparr>bp_misses := bp_misses p1 + 1\<rparr>
         else
           (let list = or_else (map_of (bp_buckets p1) bucket) []
            in if length list \<ge> bp_maxBuffersPerBucket p1 then
                 p1\<lparr>bp_buckets := AList.update bucket list (bp_buckets p1), bp_misses := bp_misses p1 + 1\<rparr>
               else
                 (let p2 = p1\<lparr>bp_mem := (bp_mem p1)(buffer := wipe (bp_mem p1 buffer)),
                              bp_buckets := AList.update bucket (list @ [buffer]) (bp_buckets p1),
                              bp_pooledBytes := bp_pooledBytes p1 + bucket\<rparr>
                  in if bp_pooledBytes p2 > bp_maxBytes p2 then bp_trim (trim_target p2) p2 else p2)))"

end
