(* ===== verification/CachesLaws.thy ===== *)
theory CachesLaws
  imports Caches
begin

text \<open>
  What the chain cache promises: it keeps a block until as many others as it holds were used after it, and its byte
  count is that of its blocks.

  \<open>evicting_cache\<close> is the interface the loops over keys rely on: evicting one key removes that entry only and
  keeps the invariant of the cache.
\<close>

locale evicting_cache =
  fixes ok :: "'s \<Rightarrow> bool"
    and entries :: "'s \<Rightarrow> (string, 'v) jsmap"
    and evict :: "string \<Rightarrow> 's \<Rightarrow> 's"
  assumes evict_ok: "ok s \<Longrightarrow> ok (evict k s)"
    and evict_entries: "entries (evict k s) = AList.delete k (entries s)"
begin

lemma evict_all_ok: "ok s \<Longrightarrow> ok (fold evict ks s)"
  by (induction ks arbitrary: s) (auto intro: evict_ok)

lemma evict_all_entries: "entries (fold evict ks s) = filter (\<lambda>(k, v). k \<notin> set ks) (entries s)"
  by (induction ks arbitrary: s) (auto simp: evict_entries AList.delete_eq intro!: filter_cong)

lemma evict_shrinks:
  assumes "wf_map (entries s)" and "k \<in> set (keys (entries s))"
  shows "length (entries (evict k s)) < length (entries s)"
  using length_delete_mem [OF assms] by (simp add: evict_entries)

end

section \<open>The chain cache\<close>

definition chain_bytes :: "(string, json) jsmap \<Rightarrow> nat" where
  "chain_bytes m = sum_list (map (\<lambda>(k, v). estimateBlockBytes k v) m)"

text \<open>Every block has the size it was charged, and the count is their sum.\<close>

definition chain_cache_ok :: "ChainCache \<Rightarrow> bool" where
  "chain_cache_ok c \<longleftrightarrow>
     wf_map (cc_blocks c) \<and> map_of (cc_blockSizes c) = (\<lambda>k. map_option (estimateBlockBytes k) (map_of (cc_blocks c) k)) \<and>
     cc_estimatedBytes c = chain_bytes (cc_blocks c) \<and> '''' \<notin> set (keys (cc_blocks c))"

lemma chain_bytes_delete:
  "wf_map m \<Longrightarrow> chain_bytes (AList.delete k m) =
     chain_bytes m - or_else (map_option (estimateBlockBytes k) (map_of m k)) 0"
proof (induction m)
  case (Cons kv m)
  obtain k' v where kv: "kv = (k', v)" by force
  have wf: "wf_map m" and new: "k' \<notin> set (keys m)" using Cons.prems by (simp_all add: kv wf_map_def keys_def)
  have "chain_bytes m \<ge> or_else (map_option (estimateBlockBytes k) (map_of m k)) 0"
    by (induction m) (auto simp: chain_bytes_def or_else_def)
  with Cons.IH [OF wf] delete_idem [OF new] show ?case
    by (auto simp: kv chain_bytes_def or_else_def)
qed (simp add: chain_bytes_def or_else_def)

lemma chain_bytes_update:
  "k \<notin> set (keys m) \<Longrightarrow> chain_bytes (AList.update k v m) = chain_bytes m + estimateBlockBytes k v"
  by (induction m) (auto simp: chain_bytes_def keys_def)

lemma makeKey_not_Nil [simp]: "makeKey chain i \<noteq> []" "[] \<noteq> makeKey chain i"
  by (simp_all add: makeKey_def)

lemma delete_absent: "map_of m k = None \<Longrightarrow> AList.delete k m = m"
  using has_key_iff [of m k] by (simp add: has_key_def delete_idem)

lemma drop_block_ok: "chain_cache_ok c \<Longrightarrow> chain_cache_ok (drop_block k c)"
  by (auto simp: chain_cache_ok_def drop_block_def uncharge_def chain_bytes_delete map_simps intro!: ext)

interpretation chain_blocks: evicting_cache chain_cache_ok cc_blocks drop_block
  by unfold_locales (simp_all add: drop_block_ok, simp add: drop_block_def uncharge_def)

lemma replace_block:
  assumes "chain_cache_ok c"
  shows "cc_blocks (replace_block k c) = AList.delete k (cc_blocks c)"
    and "cc_estimatedBytes (replace_block k c) = chain_bytes (AList.delete k (cc_blocks c))"
    and "cc_blockSizes (replace_block k c) = cc_blockSizes c"
    and "cc_maxBlocks (replace_block k c) = cc_maxBlocks c"
  using assms by (auto simp: replace_block_def uncharge_def chain_cache_ok_def chain_bytes_delete has_key_def delete_absent or_else_def)

lemma drop_oldest_ok: "chain_cache_ok c \<Longrightarrow> chain_cache_ok (drop_oldest_block c)"
  by (auto simp: drop_oldest_block_def drop_block_ok split: list.split)

lemma cc_set_ok:
  assumes "chain_cache_ok c"
  shows "chain_cache_ok (cc_set chain i v c)"
proof -
  let ?k = "makeKey chain i"
  show ?thesis
    unfolding cc_set_def Let_def
    by (rule drop_oldest_ok)
      (use assms in \<open>auto simp: chain_cache_ok_def replace_block [OF assms] chain_bytes_update map_simps intro!: ext\<close>)
qed

lemma update_delete: "AList.update k v (AList.delete k m) = AList.delete k m @ [(k, v)]"
  by (induction m) auto

lemma chain_bytes_move:
  "wf_map m \<Longrightarrow> map_of m k = Some v \<Longrightarrow> chain_bytes (AList.update k v (AList.delete k m)) = chain_bytes m"
  unfolding update_delete
proof (induction m)
  case (Cons kv m)
  obtain k' w where kv: "kv = (k', w)" by force
  have wf: "wf_map m" and new: "k' \<notin> set (keys m)" using Cons.prems by (simp_all add: kv wf_map_def keys_def)
  from Cons.IH [OF wf] Cons.prems(2) delete_idem [OF new] show ?case
    by (auto simp: kv chain_bytes_def split: if_split_asm)
qed simp

lemma cc_get_ok: "chain_cache_ok c \<Longrightarrow> chain_cache_ok (snd (cc_get chain i c))"
  by (auto simp: cc_get_def Let_def chain_cache_ok_def chain_bytes_move map_simps
      split: option.split intro!: ext)

lemma hd_key: "m \<noteq> [] \<Longrightarrow> hd (keys m) = fst (hd m) \<and> fst (hd m) \<in> set (keys m)"
  by (cases m) (simp_all add: keys_def)

lemma cc_set_blocks:
  assumes "chain_cache_ok c"
  shows "cc_blocks (cc_set chain i v c) =
    (let m = AList.delete (makeKey chain i) (cc_blocks c) @ [(makeKey chain i, v)]
     in if length m > cc_maxBlocks c then AList.delete (fst (hd m)) m else m)"
proof -
  let ?m = "AList.delete (makeKey chain i) (cc_blocks c) @ [(makeKey chain i, v)]"
  have "[] \<notin> fst ` set ?m" using assms by (auto simp: chain_cache_ok_def keys_def AList.delete_eq image_iff)
  then have "fst (hd ?m) \<noteq> []" by (metis append_is_Nil_conv hd_in_set image_eqI not_Cons_self2)
  moreover have "keys ?m \<noteq> []" by (simp add: keys_def)
  moreover have "hd (keys ?m) = fst (hd ?m)" using hd_key [of ?m] by blast
  ultimately show ?thesis
    unfolding cc_set_def Let_def drop_oldest_block_def
    by (auto simp: replace_block [OF assms] update_delete drop_block_def uncharge_def split: list.split)
qed

lemma cc_set_maxBlocks: "chain_cache_ok c \<Longrightarrow> cc_maxBlocks (cc_set chain i v c) = cc_maxBlocks c"
  by (auto simp: cc_set_def Let_def drop_oldest_block_def drop_block_def uncharge_def replace_block split: list.split)

lemma length_delete_present: "wf_map m \<Longrightarrow> map_of m k = Some v \<Longrightarrow> Suc (length (AList.delete k m)) = length m"
  by (intro length_delete_mem map_of_SomeD')

lemma chain_cache_wf: "chain_cache_ok c \<Longrightarrow> wf_map (cc_blocks c)"
  by (simp add: chain_cache_ok_def)

lemma wf_move_end: "wf_map m \<Longrightarrow> wf_map (AList.delete k m @ [(k, v)])"
  using wf_map_update [of "AList.delete k m" k v] by (simp add: update_delete)

lemma cc_set_length:
  assumes "chain_cache_ok c" and "length (cc_blocks c) \<le> cc_maxBlocks c"
  shows "length (cc_blocks (cc_set chain i v c)) \<le> cc_maxBlocks c"
proof -
  let ?m = "AList.delete (makeKey chain i) (cc_blocks c) @ [(makeKey chain i, v)]"
  have "fst (hd ?m) \<in> set (keys ?m)" using hd_key [of ?m] by blast
  then have "Suc (length (AList.delete (fst (hd ?m)) ?m)) = length ?m"
    by (intro length_delete_mem wf_move_end chain_cache_wf assms(1))
  moreover have "length ?m \<le> Suc (cc_maxBlocks c)"
    using length_delete_le [of "makeKey chain i" "cc_blocks c"] assms(2) by simp
  ultimately show ?thesis unfolding cc_set_blocks [OF assms(1)] Let_def by simp
qed

datatype chain_op =
  CGet string nat | CSet string nat json | CDropChain string | CDropBlock string nat | CClear

fun apply_chain_op :: "chain_op \<Rightarrow> ChainCache \<Rightarrow> ChainCache" where
  "apply_chain_op (CGet chain i) c = snd (cc_get chain i c)"
| "apply_chain_op (CSet chain i v) c = cc_set chain i v c"
| "apply_chain_op (CDropChain chain) c = snd (invalidateChain chain c)"
| "apply_chain_op (CDropBlock chain i) c = snd (invalidateBlock chain i c)"
| "apply_chain_op CClear c = cc_clear c"

lemma ok_invalidations: "chain_cache_ok (c\<lparr>cc_invalidations := n\<rparr>) = chain_cache_ok c"
  by (simp add: chain_cache_ok_def)

lemma drop_block_maxBlocks [simp]: "cc_maxBlocks (drop_block k c) = cc_maxBlocks c"
  by (simp add: drop_block_def uncharge_def)

lemma fold_drop_maxBlocks: "cc_maxBlocks (fold drop_block ks c) = cc_maxBlocks c"
  by (induction ks arbitrary: c) simp_all

definition bounded_chain_cache :: "ChainCache \<Rightarrow> bool" where
  "bounded_chain_cache c \<longleftrightarrow> chain_cache_ok c \<and> length (cc_blocks c) \<le> cc_maxBlocks c \<and> cc_maxBlocks c \<ge> 1"

lemma chain_op_bounded:
  assumes "bounded_chain_cache c"
  shows "bounded_chain_cache (apply_chain_op x c) \<and> cc_maxBlocks (apply_chain_op x c) = cc_maxBlocks c"
proof (cases x)
  case (CGet chain i)
  have "cc_maxBlocks (snd (cc_get chain i c)) = cc_maxBlocks c"
    and "length (cc_blocks (snd (cc_get chain i c))) = length (cc_blocks c)"
    using assms by (auto simp: cc_get_def Let_def update_delete length_delete_present bounded_chain_cache_def
        chain_cache_wf split: option.split)
  with assms CGet show ?thesis by (simp add: bounded_chain_cache_def cc_get_ok)
next
  case (CSet chain i v)
  with assms show ?thesis
    by (simp add: bounded_chain_cache_def cc_set_ok cc_set_length cc_set_maxBlocks)
next
  case (CDropChain chain)
  have "length (cc_blocks (fold drop_block ks c)) \<le> cc_maxBlocks c" for ks
    using assms unfolding chain_blocks.evict_all_entries bounded_chain_cache_def
    by (meson length_filter_le order_trans)
  with assms CDropChain chain_blocks.evict_all_ok show ?thesis
    by (simp add: bounded_chain_cache_def invalidateChain_def Let_def ok_invalidations fold_drop_maxBlocks)
next
  case (CDropBlock chain i)
  have "length (cc_blocks (drop_block k c)) \<le> cc_maxBlocks c" for k
    using assms length_delete_le [of k "cc_blocks c"] by (simp add: chain_blocks.evict_entries bounded_chain_cache_def)
  with assms CDropBlock drop_block_ok show ?thesis
    by (simp add: bounded_chain_cache_def invalidateBlock_def Let_def ok_invalidations)
next
  case CClear
  with assms show ?thesis
    by (auto simp: bounded_chain_cache_def cc_clear_def chain_cache_ok_def chain_bytes_def keys_def)
qed

lemma chain_ops_bounded:
  "bounded_chain_cache c \<Longrightarrow>
     bounded_chain_cache (fold apply_chain_op xs c) \<and> cc_maxBlocks (fold apply_chain_op xs c) = cc_maxBlocks c"
proof (induction xs arbitrary: c)
  case (Cons x xs)
  then show ?case using chain_op_bounded [OF Cons.prems, of x] by simp
qed simp

lemma new_chain_cache_bounded: "bounded_chain_cache (newChainCache n)"
  by (auto simp: bounded_chain_cache_def newChainCache_def chain_cache_ok_def chain_bytes_def keys_def)

text \<open>A block, followed only by blocks whose keys are among some others.\<close>

definition recent :: "string \<Rightarrow> json \<Rightarrow> string set \<Rightarrow> (string, json) jsmap \<Rightarrow> bool" where
  "recent k v others m \<longleftrightarrow> (\<exists>a b. m = a @ (k, v) # b \<and> set (keys b) \<subseteq> others)"

lemma recent_mono: "recent k v A m \<Longrightarrow> A \<subseteq> B \<Longrightarrow> recent k v B m"
  unfolding recent_def by (elim exE conjE) (intro exI conjI, assumption, blast)

lemma delete_append: "AList.delete k (a @ b) = AList.delete k a @ AList.delete k b"
  by (simp add: AList.delete_eq)

lemma recent_touch:
  "recent k v others m \<Longrightarrow> k' \<noteq> k \<Longrightarrow> k' \<in> others \<Longrightarrow> recent k v others (AList.delete k' m @ [(k', w)])"
  unfolding recent_def
proof (elim exE conjE)
  fix a b assume "m = a @ (k, v) # b" "set (keys b) \<subseteq> others" "k' \<noteq> k" "k' \<in> others"
  then show "\<exists>a b. AList.delete k' m @ [(k', w)] = a @ (k, v) # b \<and> set (keys b) \<subseteq> others"
    by (intro exI [of _ "AList.delete k' a"] exI [of _ "AList.delete k' b @ [(k', w)]"])
      (auto simp: delete_append keys_def AList.delete_eq)
qed

lemma recent_evict:
  assumes "recent k v others m" and "wf_map m" and "finite others" and "card others + 1 < length m"
  shows "recent k v others (AList.delete (fst (hd m)) m)"
proof -
  obtain a b where m: "m = a @ (k, v) # b" and b: "set (keys b) \<subseteq> others"
    using assms(1) by (auto simp: recent_def)
  have "distinct (keys b)" using assms(2) by (simp add: m wf_map_def keys_def)
  then have "length b \<le> card others"
    using distinct_card [of "keys b"] card_mono [OF assms(3) b] by simp
  with assms(4) obtain x w a' where a: "a = (x, w) # a'" by (cases a) (auto simp: m)
  with assms(2) have "x \<noteq> k" by (auto simp: m wf_map_def keys_def)
  with b show ?thesis
    unfolding recent_def
    by (intro exI [of _ "AList.delete x a'"] exI [of _ "AList.delete x b"])
      (auto simp: m a delete_append keys_def AList.delete_eq)
qed

fun touched :: "chain_op \<Rightarrow> string option" where
  "touched (CGet chain i) = Some (makeKey chain i)"
| "touched (CSet chain i v) = Some (makeKey chain i)"
| "touched x = None"

lemma recent_map_of: "recent k v others m \<Longrightarrow> wf_map m \<Longrightarrow> map_of m k = Some v"
  by (auto simp: recent_def wf_map_def keys_def map_of_eq_None_iff intro: map_of_is_SomeI)

lemma recent_op:
  assumes "bounded_chain_cache c" and "recent k v others (cc_blocks c)" and "touched x = Some k'" and "k' \<noteq> k"
    and "k' \<in> others" and "finite others" and "card others < cc_maxBlocks c"
  shows "recent k v others (cc_blocks (apply_chain_op x c))"
proof (cases x)
  case (CGet chain i)
  with assms show ?thesis by (auto simp: cc_get_def Let_def update_delete recent_touch split: option.split)
next
  case (CSet chain i w)
  let ?m = "AList.delete k' (cc_blocks c) @ [(k', w)]"
  have c: "chain_cache_ok c" and k': "makeKey chain i = k'" using assms(1,3) CSet by (simp_all add: bounded_chain_cache_def)
  have "recent k v others ?m" by (rule recent_touch [OF assms(2,4,5)])
  then have "recent k v others (AList.delete (fst (hd ?m)) ?m)" if "length ?m > cc_maxBlocks c"
    using recent_evict [OF _ wf_move_end [OF chain_cache_wf [OF c]] assms(6)] that assms(7) by force
  with \<open>recent k v others ?m\<close> show ?thesis
    unfolding CSet apply_chain_op.simps cc_set_blocks [OF c] Let_def k' by simp
qed (use assms(3) in simp_all)

lemma recent_ops:
  assumes "finite others" and "k \<notin> others"
  shows "bounded_chain_cache c \<Longrightarrow> recent k v others (cc_blocks c) \<Longrightarrow> card others < cc_maxBlocks c \<Longrightarrow>
    list_all (\<lambda>x. case touched x of Some k' \<Rightarrow> k' \<in> others | None \<Rightarrow> False) xs \<Longrightarrow>
    recent k v others (cc_blocks (fold apply_chain_op xs c))"
proof (induction xs arbitrary: c)
  case (Cons x xs)
  then obtain k' where k': "touched x = Some k'" "k' \<in> others" by (auto split: option.splits)
  with assms(2) have "k' \<noteq> k" by blast
  from chain_op_bounded [OF Cons.prems(1), of x] recent_op [OF Cons.prems(1,2) k'(1) this k'(2) assms(1) Cons.prems(3)]
    Cons.IH [of "apply_chain_op x c"] Cons.prems(3,4)
  show ?case by simp
qed simp

lemma set_recent:
  assumes "bounded_chain_cache c"
  shows "recent (makeKey chain i) v {} (cc_blocks (cc_set chain i v c))"
proof -
  let ?k = "makeKey chain i"
  let ?m = "AList.delete ?k (cc_blocks c) @ [(?k, v)]"
  have c: "chain_cache_ok c" and "cc_maxBlocks c \<ge> 1" using assms by (simp_all add: bounded_chain_cache_def)
  have r: "recent ?k v {} ?m" unfolding recent_def keys_def by auto
  have "recent ?k v {} (AList.delete (fst (hd ?m)) ?m)" if "length ?m > cc_maxBlocks c"
    by (rule recent_evict [OF r wf_move_end [OF chain_cache_wf [OF c]]]) (use that \<open>cc_maxBlocks c \<ge> 1\<close> in auto)
  with r show ?thesis unfolding cc_set_blocks [OF c] Let_def by simp
qed

section \<open>Properties of the chain cache\<close>

text \<open>
  C37: After any operations the chain cache holds at most \<open>maxBlocks\<close> blocks and counts the bytes of exactly those.
  A block that was just set (unless it is no object but a value that counts as false) is returned by \<open>get\<close> as long as the reads and writes since then are of fewer than
  \<open>maxBlocks\<close> other keys, however many they are.
\<close>

theorem chain_cache_keeps_recent:
  fixes capacity :: "nat option" and before since :: "chain_op list"
  defines "c \<equiv> fold apply_chain_op before (newChainCache capacity)"
  assumes "finite others" and "makeKey chain i \<notin> others" and "card others < cc_maxBlocks c"
    and "list_all (\<lambda>x. case touched x of Some k \<Rightarrow> k \<in> others | None \<Rightarrow> False) since"
  shows "length (cc_blocks c) \<le> cc_maxBlocks c \<and> cc_estimatedBytes c = chain_bytes (cc_blocks c) \<and>
    fst (cc_get chain i (fold apply_chain_op since (cc_set chain i v c))) = (if js_truthy (Some v) then Some v else None)"
proof -
  have c: "bounded_chain_cache c" unfolding c_def using chain_ops_bounded [OF new_chain_cache_bounded] by blast
  have b: "bounded_chain_cache (cc_set chain i v c)" and m: "cc_maxBlocks (cc_set chain i v c) = cc_maxBlocks c"
    using chain_op_bounded [OF c, of "CSet chain i v"] by simp_all
  have "recent (makeKey chain i) v others (cc_blocks (cc_set chain i v c))"
    by (rule recent_mono [OF set_recent [OF c]]) simp
  then have r: "recent (makeKey chain i) v others (cc_blocks (fold apply_chain_op since (cc_set chain i v c)))"
    by (rule recent_ops [OF assms(2,3) b]) (use assms(4,5) m in simp_all)
  have "wf_map (cc_blocks (fold apply_chain_op since (cc_set chain i v c)))"
    using chain_ops_bounded [OF b, of since] by (simp add: bounded_chain_cache_def chain_cache_wf)
  from recent_map_of [OF r this] c show ?thesis
    by (simp add: cc_get_def Let_def bounded_chain_cache_def chain_cache_ok_def)
qed

lemma chain_cache_keeps_recent_witness:
  "fst (cc_get ''journal'' 1 (fold apply_chain_op
     [CSet ''journal'' 2 JNull, CGet ''journal'' 2, CSet ''journal'' 2 JNull, CGet ''journal'' 2]
     (cc_set ''journal'' 1 (JBool True) (fold apply_chain_op [CSet ''journal'' 0 JNull] (newChainCache (Some 2)))))) =
   Some (JBool True)"
proof -
  have "cc_maxBlocks (fold apply_chain_op [CSet ''journal'' 0 JNull] (newChainCache (Some 2))) = 2"
    unfolding conjunct2 [OF chain_ops_bounded [OF new_chain_cache_bounded]] by (simp add: newChainCache_def)
  moreover have "makeKey ''journal'' 1 \<noteq> makeKey ''journal'' 2"
    using length_show_nat_inj [of 1 2] by (auto simp: makeKey_def)
  ultimately show ?thesis
    using chain_cache_keeps_recent [of "{makeKey ''journal'' 2}" "''journal''" 1 "[CSet ''journal'' 0 JNull]" "Some 2"
        "[CSet ''journal'' 2 JNull, CGet ''journal'' 2, CSet ''journal'' 2 JNull, CGet ''journal'' 2]" "JBool True"]
    by (simp add: js_truthy_def)
qed

end
