(* ===== verification/FileCacheLaws.thy ===== *)
theory FileCacheLaws
  imports CachesLaws
begin

text \<open>
  The file cache is transparent: as long as a file's modification time tells its content and the file does not
  change within one read, every read returns what the file holds, the eviction loop ends and the bytes counted are
  those of the entries. Two concurrent reads of one file break the count, a change within a read the content.
\<close>

section \<open>The oldest entry\<close>

lemma oldest_fold:
  "(\<forall>k t. acc = Some (k, t) \<longrightarrow> k \<in> A) \<Longrightarrow> (m \<noteq> [] \<or> acc \<noteq> None) \<Longrightarrow>
   \<exists>k t. fold (oldest_step stamp) m acc = Some (k, t) \<and> k \<in> A \<union> set (keys m)"
proof (induction m arbitrary: acc A)
  case (Cons kv m)
  let ?acc = "oldest_step stamp kv acc"
  have "?acc \<noteq> None" by (auto simp: oldest_step_def split: option.split)
  moreover have "\<forall>k t. ?acc = Some (k, t) \<longrightarrow> k \<in> insert (fst kv) A"
    using Cons.prems(1) by (auto simp: oldest_step_def split: option.splits)
  ultimately have "\<exists>k t. fold (oldest_step stamp) m ?acc = Some (k, t) \<and> k \<in> insert (fst kv) A \<union> set (keys m)"
    by (intro Cons.IH) auto
  then show ?case by (auto simp: keys_def)
qed auto

lemma oldest_present: "m \<noteq> [] \<Longrightarrow> \<exists>k. oldest stamp m = Some k \<and> k \<in> set (keys m)"
  using oldest_fold [of None "{}" m stamp] by (auto simp: oldest_def)

section \<open>Counting the bytes\<close>

definition file_bytes :: "(string, FileCacheEntry) jsmap \<Rightarrow> int" where
  "file_bytes m = sum_list (map (\<lambda>(_, e). int (fe_size e)) m)"

definition file_cache_ok :: "FileCache \<Rightarrow> bool" where
  "file_cache_ok c \<longleftrightarrow>
     wf_map (fc_cache c) \<and> '''' \<notin> set (keys (fc_cache c)) \<and> fc_currentSize c = file_bytes (fc_cache c) \<and>
     (fc_currentSize c \<le> int (fc_maxSize c) \<or> length (fc_cache c) \<le> 1)"

lemma file_bytes_nonneg: "file_bytes m \<ge> 0"
  by (induction m) (auto simp: file_bytes_def)

lemma file_bytes_delete:
  "wf_map m \<Longrightarrow> map_of m k = Some e \<Longrightarrow> file_bytes (AList.delete k m) = file_bytes m - int (fe_size e)"
proof (induction m)
  case (Cons kv m)
  obtain k' v where kv: "kv = (k', v)" by force
  have wf: "wf_map m" and new: "k' \<notin> set (keys m)" using Cons.prems by (simp_all add: kv wf_map_def keys_def)
  from Cons.IH [OF wf] Cons.prems(2) delete_idem [OF new] show ?case
    by (auto simp: kv file_bytes_def split: if_split_asm)
qed simp

lemma fc_evict_fields:
  "fc_cache (fc_evict k c) = AList.delete k (fc_cache c)" "fc_maxSize (fc_evict k c) = fc_maxSize c"
  by (auto simp: fc_evict_def delete_absent split: option.split)

lemma fc_evict_ok:
  assumes "file_cache_ok c"
  shows "file_cache_ok (fc_evict k c)"
proof (cases "map_of (fc_cache c) k")
  case (Some e)
  with assms have "fc_currentSize (fc_evict k c) = file_bytes (fc_cache (fc_evict k c))"
    by (simp add: fc_evict_def file_cache_ok_def file_bytes_delete)
  moreover have "fc_currentSize (fc_evict k c) \<le> fc_currentSize c" using Some by (simp add: fc_evict_def)
  moreover have "length (fc_cache (fc_evict k c)) \<le> length (fc_cache c)"
    by (simp add: fc_evict_fields length_delete_le)
  ultimately show ?thesis
    using assms unfolding file_cache_ok_def by (auto simp: fc_evict_fields map_simps)
qed (use assms in \<open>simp add: fc_evict_def\<close>)

interpretation files: evicting_cache file_cache_ok fc_cache fc_evict
  by unfold_locales (simp_all add: fc_evict_ok fc_evict_fields)

lemma evict_oldest:
  assumes "file_cache_ok c" and "fc_cache c \<noteq> []"
  shows "\<exists>k. fc_evictOldest c = fc_evict k c \<and> k \<in> set (keys (fc_cache c))"
proof -
  obtain k where k: "oldest fe_mtime (fc_cache c) = Some k" "k \<in> set (keys (fc_cache c))"
    using oldest_present [OF assms(2)] by blast
  with assms(1) have "k \<noteq> ''''" by (auto simp: file_cache_ok_def)
  with k show ?thesis by (auto simp: fc_evictOldest_def)
qed

text \<open>What the loop keeps: every entry it leaves was there before.\<close>

definition shrunk :: "FileCache \<Rightarrow> FileCache \<Rightarrow> bool" where
  "shrunk c c1 \<longleftrightarrow> file_cache_ok c1 \<and> set (fc_cache c1) \<subseteq> set (fc_cache c) \<and> fc_maxSize c1 = fc_maxSize c"

lemma eviction_loop_ends:
  assumes "file_cache_ok c"
  shows "\<exists>c1. while_option (too_full n) fc_evictOldest c = Some c1 \<and> shrunk c c1 \<and> \<not> too_full n c1"
proof -
  have step: "shrunk c (fc_evictOldest x) \<and> length (fc_cache (fc_evictOldest x)) < length (fc_cache x)"
    if "shrunk c x" "too_full n x" for x
  proof -
    have x: "file_cache_ok x" "fc_cache x \<noteq> []" using that by (auto simp: shrunk_def too_full_def)
    obtain k where k: "fc_evictOldest x = fc_evict k x" "k \<in> set (keys (fc_cache x))"
      using evict_oldest [OF x] by blast
    have "wf_map (fc_cache x)" using x(1) by (simp add: file_cache_ok_def)
    then have "length (fc_cache (fc_evict k x)) < length (fc_cache x)" using files.evict_shrinks k(2) by blast
    moreover have "set (AList.delete k (fc_cache x)) \<subseteq> set (fc_cache x)" by (auto simp: AList.delete_eq)
    ultimately show ?thesis
      using that(1) by (simp add: k(1) shrunk_def fc_evict_ok fc_evict_fields) blast
  qed
  have "\<exists>t. while_option (too_full n) fc_evictOldest c = Some t"
    by (rule measure_while_option_Some [where P = "shrunk c" and f = "\<lambda>x. length (fc_cache x)"])
      (use step assms in \<open>auto simp: shrunk_def\<close>)
  then obtain t where t: "while_option (too_full n) fc_evictOldest c = Some t" by blast
  have "shrunk c t" by (rule while_option_rule [OF _ t]) (use step assms in \<open>auto simp: shrunk_def\<close>)
  with t while_option_stop [OF t] show ?thesis by blast
qed

section \<open>Reads\<close>

text \<open>\<open>version\<close> is the content a file has at a modification time.\<close>

definition faithful :: "(string \<Rightarrow> int \<Rightarrow> string) \<Rightarrow> FileCache \<Rightarrow> bool" where
  "faithful version c \<longleftrightarrow> list_all (\<lambda>(p, e). fe_content e = version p (fe_mtime e)) (fc_cache c)"

definition dated :: "(string \<Rightarrow> int \<Rightarrow> string) \<Rightarrow> disk_view \<Rightarrow> bool" where
  "dated version d \<longleftrightarrow> d '''' = None \<and> (\<forall>p s t. d p = Some (s, t) \<longrightarrow> s = version p t)"

lemma file_bytes_snoc: "file_bytes (m @ [(k, e)]) = file_bytes m + int (fe_size e)"
  by (simp add: file_bytes_def)

lemma update_absent: "k \<notin> set (keys m) \<Longrightarrow> AList.update k v m = m @ [(k, v)]"
  by (induction m) (auto simp: keys_def)

lemma store:
  assumes "file_cache_ok c" and "faithful version c" and "p \<notin> set (keys (fc_cache c))" and "p \<noteq> ''''" and "s = version p t"
  shows "\<exists>c1. fc_store p s t c = Some c1 \<and> file_cache_ok c1 \<and> faithful version c1 \<and> fc_maxSize c1 = fc_maxSize c"
proof -
  obtain c1 where loop: "while_option (too_full (length s)) fc_evictOldest c = Some c1" "shrunk c c1"
      "\<not> too_full (length s) c1"
    using eviction_loop_ends [OF assms(1)] by blast
  let ?e = "\<lparr>fe_content = s, fe_mtime = t, fe_size = length s\<rparr>"
  have ok: "file_cache_ok c1" and sub: "set (fc_cache c1) \<subseteq> set (fc_cache c)" and mx: "fc_maxSize c1 = fc_maxSize c"
    using loop(2) by (simp_all add: shrunk_def)
  have new: "p \<notin> set (keys (fc_cache c1))" using assms(3) sub by (auto simp: keys_def)
  let ?c2 = "c1\<lparr>fc_cache := AList.update p ?e (fc_cache c1), fc_currentSize := fc_currentSize c1 + int (length s)\<rparr>"
  have "fc_store p s t c = Some ?c2" by (simp add: fc_store_def loop(1) Let_def)
  moreover have "file_cache_ok ?c2"
    using ok new assms(4) loop(3) unfolding file_cache_ok_def too_full_def
    by (auto simp: update_absent [OF new] file_bytes_snoc map_simps wf_map_def keys_def file_bytes_def)
  moreover have "faithful version ?c2"
    using assms(2,5) sub by (auto simp: faithful_def list_all_iff update_absent [OF new])
  ultimately show ?thesis using mx by auto
qed

lemma read_file:
  assumes "file_cache_ok c" and "faithful version c" and "dated version d"
  shows "\<exists>c1. fc_read d d d p c = Some (fs_readFile d p, c1) \<and> file_cache_ok c1 \<and> faithful version c1 \<and>
    fc_maxSize c1 = fc_maxSize c"
proof -
  have miss: "\<exists>c2. (case fs_readFile d p of Inl e \<Rightarrow> Some (Inl e, c1)
       | Inr content \<Rightarrow> (case fs_mtime d p of Inl e \<Rightarrow> Some (Inl e, c1)
            | Inr t \<Rightarrow> map_option (Pair (Inr content)) (fc_store p content t c1))) = Some (fs_readFile d p, c2) \<and>
      file_cache_ok c2 \<and> faithful version c2 \<and> fc_maxSize c2 = fc_maxSize c"
    if c1: "file_cache_ok c1" "faithful version c1" "p \<notin> set (keys (fc_cache c1))" "fc_maxSize c1 = fc_maxSize c" for c1
  proof (cases "d p")
    case (Some st)
    obtain s t where st: "st = (s, t)" by force
    have "p \<noteq> ''''" "s = version p t" using assms(3) Some by (auto simp: dated_def st)
    from store [OF c1(1-3) this] c1(4) show ?thesis by (auto simp: fs_readFile_def fs_mtime_def Some st)
  qed (use c1 in \<open>simp add: fs_readFile_def fs_mtime_def\<close>)
  have gone: "file_cache_ok (fc_evict p c)" "faithful version (fc_evict p c)" "p \<notin> set (keys (fc_cache (fc_evict p c)))"
    using assms(1,2) fc_evict_ok
    by (auto simp: fc_evict_fields faithful_def list_all_iff AList.delete_eq keys_def)
  show ?thesis
  proof (cases "map_of (fc_cache c) p")
    case None
    then have "p \<notin> set (keys (fc_cache c))" using has_key_iff [of "fc_cache c" p] by (simp add: has_key_def)
    from miss [OF assms(1,2) this refl] None show ?thesis by (simp add: fc_read_def fc_lookup_def)
  next
    case (Some e)
    show ?thesis
    proof (cases "d p")
      case None
      with Some assms show ?thesis by (simp add: fc_read_def fc_lookup_def fs_mtime_def fs_readFile_def)
    next
      case (Some st)
      obtain s t where st: "st = (s, t)" by force
      show ?thesis
      proof (cases "t = fe_mtime e")
        case True
        have "fe_content e = version p (fe_mtime e)"
          using assms(2) map_of_SomeD [OF \<open>map_of (fc_cache c) p = Some e\<close>] by (auto simp: faithful_def list_all_iff)
        moreover have "s = version p t" using assms(3) Some by (auto simp: dated_def st)
        ultimately show ?thesis
          using \<open>map_of (fc_cache c) p = Some e\<close> Some st True assms
          by (simp add: fc_read_def fc_lookup_def fs_mtime_def fs_readFile_def)
      next
        case False
        with \<open>map_of (fc_cache c) p = Some e\<close> Some st miss [OF gone fc_evict_fields(2)] show ?thesis
          by (simp add: fc_read_def fc_lookup_def fs_mtime_def [of d p])
      qed
    qed
  qed
qed

fun fc_reads :: "(disk_view \<times> string) list \<Rightarrow> FileCache \<Rightarrow> ((string, string) result list \<times> FileCache) option" where
  "fc_reads [] c = Some ([], c)"
| "fc_reads ((d, p) # rs) c =
     (case fc_read d d d p c of
        None \<Rightarrow> None
      | Some (r, c1) \<Rightarrow> map_option (\<lambda>(out, c2). (r # out, c2)) (fc_reads rs c1))"

lemma reads:
  "file_cache_ok c \<Longrightarrow> faithful version c \<Longrightarrow> list_all (\<lambda>(d, p). dated version d) rs \<Longrightarrow>
   \<exists>c1. fc_reads rs c = Some (map (\<lambda>(d, p). fs_readFile d p) rs, c1) \<and> file_cache_ok c1 \<and> fc_maxSize c1 = fc_maxSize c"
proof (induction rs arbitrary: c)
  case (Cons r rs)
  obtain d p where r: "r = (d, p)" by force
  have "dated version d" using Cons.prems(3) by (simp add: r)
  from read_file [OF Cons.prems(1,2) this, of p] obtain c1 where
    c1: "fc_read d d d p c = Some (fs_readFile d p, c1)" "file_cache_ok c1" "faithful version c1" "fc_maxSize c1 = fc_maxSize c"
    by blast
  from Cons.IH [OF c1(2,3)] Cons.prems(3) c1(1,4) show ?case by (auto simp: r)
qed simp

text \<open>
  C36: Reading through the cache is reading the file system. If the modification time of a file tells its content, no
  file changes while it is read and no two reads overlap, then whatever happens to the files between the reads, every read ends (its eviction loop too) with the content
  the file then holds or the error of a missing file, and the cache counts the bytes of its entries, at most its
  capacity unless it holds a single file.
\<close>

theorem file_cache_transparent:
  assumes "list_all (\<lambda>(d, p). dated version d) rs"
  shows "\<exists>c. fc_reads rs (newFileCache capacity) = Some (map (\<lambda>(d, p). fs_readFile d p) rs, c) \<and>
    fc_currentSize c = file_bytes (fc_cache c) \<and>
    (fc_currentSize c \<le> int capacity \<or> length (fc_cache c) = 1)"
proof -
  have "file_cache_ok (newFileCache capacity)" "faithful version (newFileCache capacity)"
    by (simp_all add: file_cache_ok_def newFileCache_def keys_def file_bytes_def faithful_def)
  from reads [OF this assms] obtain c where
    c: "fc_reads rs (newFileCache capacity) = Some (map (\<lambda>(d, p). fs_readFile d p) rs, c)" "file_cache_ok c"
      "fc_maxSize c = fc_maxSize (newFileCache capacity)"
    by blast
  have "fc_cache c = [] \<Longrightarrow> fc_currentSize c \<le> int capacity"
    using c(2) by (simp add: file_cache_ok_def file_bytes_def)
  moreover have "length (fc_cache c) \<le> 1 \<longleftrightarrow> fc_cache c = [] \<or> length (fc_cache c) = 1"
    by (cases "fc_cache c") auto
  ultimately show ?thesis
    using c unfolding file_cache_ok_def newFileCache_def by auto
qed

text \<open>Three files and room for five bytes; one file is rewritten between its reads.\<close>

definition demo_disk :: "int \<Rightarrow> disk_view" where
  "demo_disk t p = (if p = ''a'' then Some (if t = 1 then ''one'' else ''two'', t) else if p = ''b'' then Some (''three'', 1) else None)"

lemma file_cache_transparent_witness:
  "\<exists>c. fc_reads [(demo_disk 1, ''a''), (demo_disk 1, ''a''), (demo_disk 1, ''b''), (demo_disk 2, ''a''), (demo_disk 2, ''c'')]
     (newFileCache 5) =
     Some ([Inr ''one'', Inr ''one'', Inr ''three'', Inr ''two'', Inl ''ENOENT: c''], c)"
proof -
  have "dated (\<lambda>p t. if p = ''a'' then if t = 1 then ''one'' else ''two'' else ''three'') (demo_disk t)" for t
    by (auto simp: dated_def demo_disk_def split: if_splits)
  then have "list_all (\<lambda>(d, p). dated (\<lambda>p t. if p = ''a'' then if t = 1 then ''one'' else ''two'' else ''three'') d)
      [(demo_disk 1, ''a''), (demo_disk 1, ''a''), (demo_disk 1, ''b''), (demo_disk 2, ''a''), (demo_disk 2, ''c'')]"
    by simp
  from file_cache_transparent [OF this, of 5] show ?thesis by (auto simp: fs_readFile_def demo_disk_def)
qed

text \<open>
  Two reads of one file that overlap: both miss, and the second to finish adds the size again to a count that has
  the entry already. And a file rewritten between the content and its \<open>stat\<close>: the old content is kept under the new
  time.
\<close>

lemma overlapping_reads_count_twice:
  assumes "int (length s) * 2 \<le> int n"
  shows "\<exists>c1 c2. fc_store p s t (newFileCache n) = Some c1 \<and> fc_store p s t c1 = Some c2 \<and>
    length (fc_cache c2) = 1 \<and> file_bytes (fc_cache c2) = int (length s) \<and> fc_currentSize c2 = int (length s) * 2"
  using assms by (simp add: fc_store_def newFileCache_def while_option_unfold too_full_def file_bytes_def Let_def)

lemma rewritten_file_read_stale:
  assumes "length old \<le> n" and "d2 p = Some (old, t)" and "d3 p = Some (new, t')"
  shows "\<exists>c. fc_read d1 d2 d3 p (newFileCache n) = Some (Inr old, c) \<and> fc_read d3 d3 d3 p c = Some (Inr old, c)"
  using assms
  by (simp add: fc_read_def fc_lookup_def fc_store_def newFileCache_def while_option_unfold too_full_def Let_def
      fs_readFile_def fs_mtime_def)

end
