(* ===== verification/BufferPoolLaws.thy ===== *)
theory BufferPoolLaws
  imports CachesLaws
begin

text \<open>
  The buffer pool: the binary search for a bucket is the linear search for the first that is large enough, and over
  any sequence of operations in which a client returns only buffers it holds, no buffer is held twice or held and
  pooled, and the byte counts are those of the held and the pooled buffers.
\<close>

section \<open>The bucket of a size\<close>

lemma find_first:
  "n < length xs \<Longrightarrow> \<forall>i < n. \<not> P (xs ! i) \<Longrightarrow> P (xs ! n) \<Longrightarrow> find P xs = Some (xs ! n)"
  by (metis find_Some_iff)

lemma bucket_search_finds:
  "sorted xs \<Longrightarrow> 0 \<le> lo \<Longrightarrow> lo \<le> hi + 1 \<Longrightarrow> hi < int (length xs) \<Longrightarrow>
    \<forall>i < nat lo. xs ! i < n \<Longrightarrow> \<forall>i < length xs. hi < int i \<longrightarrow> n \<le> xs ! i \<Longrightarrow>
    best = (if hi + 1 < int (length xs) then Some (xs ! nat (hi + 1)) else None) \<Longrightarrow>
    bucket_search xs n lo hi best = find (\<lambda>c. n \<le> c) xs"
proof (induction xs n lo hi best rule: bucket_search.induct)
  case (1 xs n lo hi best)
  show ?case
  proof (cases "lo \<le> hi")
    case True
    let ?mid = "(lo + hi) div 2"
    have mid: "lo \<le> ?mid" "?mid \<le> hi" using True by auto
    show ?thesis
    proof (cases "n \<le> xs ! nat ?mid")
      case large: True
      have above: "n \<le> xs ! i" if "i < length xs" "?mid - 1 < int i" for i
      proof -
        have "nat ?mid \<le> i" using that(2) by linarith
        from sorted_nth_mono [OF "1.prems"(1) this that(1)] large show ?thesis by simp
      qed
      have "bucket_search xs n lo (?mid - 1) (Some (xs ! nat ?mid)) = find (\<lambda>c. n \<le> c) xs"
        by (rule "1.IH" (1) [OF True refl refl large]) (use "1.prems" mid above in auto)
      with True large show ?thesis by (simp add: bucket_search.simps [of xs n lo hi] Let_def)
    next
      case small: False
      have below: "xs ! i < n" if "i < nat (?mid + 1)" for i
      proof -
        have "i \<le> nat ?mid" "nat ?mid < length xs" using that "1.prems"(2,4) mid by linarith+
        from sorted_nth_mono [OF "1.prems"(1) this] small show ?thesis by simp
      qed
      have "bucket_search xs n (?mid + 1) hi best = find (\<lambda>c. n \<le> c) xs"
        by (rule "1.IH" (2) [OF True refl refl small]) (use "1.prems" mid below in auto)
      with True small show ?thesis by (simp add: bucket_search.simps [of xs n lo hi] Let_def)
    qed
  next
    case False
    with "1.prems" have lo: "lo = hi + 1" by simp
    have stop: "bucket_search xs n lo hi best = best" using False by (simp add: bucket_search.simps [of xs n lo hi])
    show ?thesis
    proof (cases "lo < int (length xs)")
      case True
      have "find (\<lambda>c. n \<le> c) xs = Some (xs ! nat lo)"
        by (rule find_first) (use "1.prems" True lo in auto)
      with True lo "1.prems"(7) show ?thesis unfolding stop by simp
    next
      case beyond: False
      have "nat lo = length xs" using beyond lo "1.prems"(2,4) by linarith
      then have "\<not> n \<le> c" if "c \<in> set xs" for c
        using that "1.prems"(5) by (auto simp: in_set_conv_nth not_le)
      then have "find (\<lambda>c. n \<le> c) xs = None" by (simp add: find_None_iff)
      with beyond lo "1.prems"(7) show ?thesis unfolding stop by simp
    qed
  qed
qed

interpretation ascending: comparator "\<lambda>a b :: nat. int a - int b"
  by unfold_locales auto

interpretation descending: comparator "\<lambda>a b :: nat. int b - int a"
  by unfold_locales auto

lemma sizes_sorted: "sorted (bp_bucketSizes (newBufferPool m s b))"
  using ascending.sorted_js_sort by (simp add: newBufferPool_def)

lemma sizes_positive: "c \<in> set (bp_bucketSizes (newBufferPool m s b)) \<Longrightarrow> c > 0"
  by (auto simp: newBufferPool_def)

text \<open>The bucket of a request is the least configured size that is large enough, or the size asked for.\<close>

definition least_bucket :: "nat list \<Rightarrow> nat \<Rightarrow> nat" where
  "least_bucket sizes n = or_else (find (\<lambda>c. n \<le> c) sizes) n"

lemma bucketFor_least:
  assumes "sorted (bp_bucketSizes p)" and "list_all (\<lambda>c. c > 0) (bp_bucketSizes p)"
  shows "bucketFor n p = least_bucket (bp_bucketSizes p) n"
proof -
  let ?xs = "bp_bucketSizes p"
  have "bucket_search ?xs n 0 (int (length ?xs) - 1) None = find (\<lambda>c. n \<le> c) ?xs"
    by (rule bucket_search_finds) (use assms(1) in auto)
  moreover have "c > 0" if "find (\<lambda>c. n \<le> c) ?xs = Some c" for c
    using that assms(2) by (auto simp: find_Some_iff list_all_iff)
  ultimately show ?thesis by (auto simp: bucketFor_def least_bucket_def split: option.split)
qed

lemma least_bucket_ge: "n \<le> least_bucket xs n"
  by (auto simp: least_bucket_def or_else_def find_Some_iff split: option.split)

section \<open>The buffers of a pool\<close>

definition pooled :: "(nat, nat list) jsmap \<Rightarrow> nat list" where
  "pooled m = concat (map snd m)"

definition bucket_bytes :: "(nat, nat list) jsmap \<Rightarrow> nat" where
  "bucket_bytes m = sum_list (map (\<lambda>(k, l). k * length l) m)"

definition list_at :: "(nat, nat list) jsmap \<Rightarrow> nat \<Rightarrow> nat list" where
  "list_at m k = or_else (map_of m k) []"

lemma pooled_Cons [simp]: "pooled ((k, l) # m) = l @ pooled m" "pooled [] = []"
  by (simp_all add: pooled_def)

lemma bucket_bytes_Cons [simp]: "bucket_bytes ((k, l) # m) = k * length l + bucket_bytes m" "bucket_bytes [] = 0"
  by (simp_all add: bucket_bytes_def)

lemma list_at_Cons [simp]: "list_at ((k', l) # m) k = (if k = k' then l else list_at m k)"
  by (simp add: list_at_def)

lemma list_at_absent: "k \<notin> set (keys m) \<Longrightarrow> list_at m k = []"
  using has_key_iff [of m k] by (simp add: has_key_def list_at_def)

lemma wf_map_Cons: "wf_map ((k, l) # m) \<longleftrightarrow> k \<notin> set (keys m) \<and> wf_map m"
  by (simp add: wf_map_def keys_def)

text \<open>Replacing or deleting the list of a bucket exchanges exactly its buffers.\<close>

lemma update_bucket:
  "wf_map m \<Longrightarrow> mset (pooled (AList.update k l m)) + mset (list_at m k) = mset (pooled m) + mset l"
  "wf_map m \<Longrightarrow> bucket_bytes (AList.update k l m) + k * length (list_at m k) = bucket_bytes m + k * length l"
proof (induction m)
  case (Cons kv m)
  { case 1
    obtain k' l' where kv: "kv = (k', l')" by force
    with 1 Cons.IH(1) list_at_absent [of k' m] show ?case by (auto simp: wf_map_Cons ac_simps) }
  { case 2
    obtain k' l' where kv: "kv = (k', l')" by force
    with 2 Cons.IH(2) list_at_absent [of k' m] show ?case by (auto simp: wf_map_Cons) }
qed (simp_all add: list_at_def)

lemma delete_bucket:
  "wf_map m \<Longrightarrow> mset (pooled (AList.delete k m)) + mset (list_at m k) = mset (pooled m)"
  "wf_map m \<Longrightarrow> bucket_bytes (AList.delete k m) + k * length (list_at m k) = bucket_bytes m"
proof (induction m)
  case (Cons kv m)
  { case 1
    obtain k' l' where kv: "kv = (k', l')" by force
    with 1 Cons.IH(1) delete_idem [of k' m] show ?case by (auto simp: wf_map_Cons) }
  { case 2
    obtain k' l' where kv: "kv = (k', l')" by force
    with 2 Cons.IH(2) delete_idem [of k' m] show ?case by (auto simp: wf_map_Cons) }
qed (simp_all add: list_at_def)

lemma set_update_bucket: "set (AList.update k l m) \<subseteq> insert (k, l) (set m)"
  by (induction m) auto

lemma list_at_member: "r \<in> set (list_at m k) \<Longrightarrow> (k, list_at m k) \<in> set m"
  by (auto simp: list_at_def or_else_def dest: map_of_SomeD split: option.splits)

lemma distinct_sub_mset: "distinct ys \<Longrightarrow> mset xs \<subseteq># mset ys \<Longrightarrow> distinct xs"
proof -
  assume "distinct ys" "mset xs \<subseteq># mset ys"
  then obtain zs where "mset ys = mset (xs @ zs)"
    by (metis ex_mset mset_append mset_subset_eq_exists_conv)
  with \<open>distinct ys\<close> show "distinct xs" by (metis distinct_append mset_eq_imp_distinct_iff)
qed

section \<open>The invariant\<close>

definition buckets_fit :: "nat \<Rightarrow> (nat \<Rightarrow> string) \<Rightarrow> (nat, nat list) jsmap \<Rightarrow> bool" where
  "buckets_fit most mem m \<longleftrightarrow>
     list_all (\<lambda>(k, l). length l \<le> most \<and> list_all (\<lambda>r. length (mem r) = k) l) m"

definition held_bytes :: "(nat \<Rightarrow> string) \<Rightarrow> nat list \<Rightarrow> nat" where
  "held_bytes mem rs = sum_list (map (\<lambda>r. length (mem r)) rs)"

lemma held_bytes_Cons [simp]: "held_bytes mem (r # rs) = length (mem r) + held_bytes mem rs" "held_bytes mem [] = 0"
  by (simp_all add: held_bytes_def)

lemma held_bytes_cong: "(\<And>r. r \<in> set rs \<Longrightarrow> length (mem' r) = length (mem r)) \<Longrightarrow> held_bytes mem' rs = held_bytes mem rs"
  by (induction rs) simp_all

definition pool_ok :: "BufferPool \<Rightarrow> nat list \<Rightarrow> bool" where
  "pool_ok p held \<longleftrightarrow>
     wf_map (bp_buckets p) \<and> distinct (held @ pooled (bp_buckets p)) \<and>
     list_all (\<lambda>r. r < bp_next p) (held @ pooled (bp_buckets p)) \<and>
     buckets_fit (bp_maxBuffersPerBucket p) (bp_mem p) (bp_buckets p) \<and>
     bp_pooledBytes p = bucket_bytes (bp_buckets p) \<and> bp_pooledBytes p \<le> bp_maxBytes p \<and>
     bp_usedBytes p = held_bytes (bp_mem p) held"

lemma fit_at:
  assumes "buckets_fit most mem m" and "r \<in> set (list_at m k)"
  shows "length (mem r) = k"
  using list_at_member [OF assms(2)] assms by (auto simp: buckets_fit_def list_all_iff)

lemma fit_length: "buckets_fit most mem m \<Longrightarrow> length (list_at m k) \<le> most"
  using list_at_member [of "hd (list_at m k)" m k]
  by (cases "list_at m k = []") (auto simp: buckets_fit_def list_all_iff)

lemma fit_update:
  "buckets_fit most mem m \<Longrightarrow> length l \<le> most \<Longrightarrow> list_all (\<lambda>r. length (mem r) = k) l \<Longrightarrow>
   buckets_fit most mem (AList.update k l m)"
  using set_update_bucket [of k l m] unfolding buckets_fit_def list_all_iff by fast

lemma fit_delete: "buckets_fit most mem m \<Longrightarrow> buckets_fit most mem (AList.delete k m)"
  by (auto simp: buckets_fit_def list_all_iff AList.delete_eq)

lemma fit_mem:
  "buckets_fit most mem m \<Longrightarrow> (\<And>r. r \<in> set (pooled m) \<Longrightarrow> length (mem' r) = length (mem r)) \<Longrightarrow>
   buckets_fit most mem' m"
  unfolding buckets_fit_def list_all_iff pooled_def by fastforce

section \<open>The operations keep the invariant\<close>

declare trim_list.simps [simp del]

lemma trim_list_drops:
  "trim_list t b rl n = (kept, n') \<Longrightarrow> b * length rl \<le> n \<Longrightarrow> \<exists>xs. rl = xs @ kept \<and> n' + b * length xs = n"
proof (induction t b rl n rule: trim_list.induct)
  case (1 t b rl n)
  show ?case
  proof (cases rl)
    case (Cons r rest)
    show ?thesis
    proof (cases "n > t")
      case True
      have "trim_list t b rest (n - b) = (kept, n')" using "1.prems"(1) Cons True by (subst (asm) trim_list.simps) simp
      moreover have "b * length rest \<le> n - b" using "1.prems"(2) Cons by simp
      ultimately obtain xs where "rest = xs @ kept" "n' + b * length xs = n - b"
        using "1.IH" [OF Cons True] by blast
      with Cons "1.prems"(2) show ?thesis by (intro exI [of _ "r # xs"]) auto
    qed (use "1.prems" Cons in \<open>simp add: trim_list.simps\<close>)
  qed (use "1.prems" in \<open>simp add: trim_list.simps\<close>)
qed

lemma pool_shrinks:
  assumes "pool_ok p held" and "wf_map m" and "mset (pooled m) \<subseteq># mset (pooled (bp_buckets p))"
    and "buckets_fit (bp_maxBuffersPerBucket p) (bp_mem p) m" and "n = bucket_bytes m" and "n \<le> bp_pooledBytes p"
  shows "pool_ok (p\<lparr>bp_pooledBytes := n, bp_buckets := m\<rparr>) held"
proof -
  have sub: "mset (held @ pooled m) \<subseteq># mset (held @ pooled (bp_buckets p))" using assms(3) by simp
  have "distinct (held @ pooled m)"
    by (rule distinct_sub_mset [OF _ sub]) (use assms(1) in \<open>simp add: pool_ok_def\<close>)
  moreover have "list_all (\<lambda>r. r < bp_next p) (held @ pooled m)"
    using assms(1) set_mset_mono [OF sub] by (auto simp: pool_ok_def list_all_iff)
  ultimately show ?thesis using assms by (simp add: pool_ok_def)
qed

lemma pool_parts:
  assumes "pool_ok p held"
  shows "wf_map (bp_buckets p)" and "buckets_fit (bp_maxBuffersPerBucket p) (bp_mem p) (bp_buckets p)"
    and "bp_pooledBytes p = bucket_bytes (bp_buckets p)"
  using assms by (simp_all add: pool_ok_def)

lemma trim_buckets_ok: "pool_ok p held \<Longrightarrow> pool_ok (trim_buckets t bs p) held"
proof (induction t bs p rule: trim_buckets.induct)
  case (2 t b bs p)
  show ?case
  proof (cases "map_of (bp_buckets p) b")
    case (Some list)
    obtain kept n where tl: "trim_list t b (rev list) (bp_pooledBytes p) = (kept, n)" by force
    let ?m = "if kept = [] then AList.delete b (bp_buckets p) else AList.update b (rev kept) (bp_buckets p)"
    let ?p1 = "p\<lparr>bp_pooledBytes := n, bp_buckets := ?m\<rparr>"
    note wf = pool_parts(1) [OF "2.prems"] and fit = pool_parts(2) [OF "2.prems"] and bytes = pool_parts(3) [OF "2.prems"]
    have at: "list_at (bp_buckets p) b = list" using Some by (simp add: list_at_def)
    have "b * length list \<le> bp_pooledBytes p"
      using delete_bucket(2) [OF wf, of b] bytes by (simp add: at)
    then obtain xs where xs: "rev list = xs @ kept" "n + b * length xs = bp_pooledBytes p"
      using trim_list_drops [OF tl] by auto
    then have list: "list = rev kept @ rev xs" by (metis rev_append rev_rev_ident)
    have fits: "length list \<le> bp_maxBuffersPerBucket p" "list_all (\<lambda>r. length (bp_mem p r) = b) list"
      using fit_length [OF fit, of b] fit_at [OF fit, of _ b] by (auto simp: at list_all_iff)
    have "pool_ok ?p1 held"
    proof (rule pool_shrinks [OF "2.prems"])
      show "wf_map ?m" using wf by simp
      show "mset (pooled ?m) \<subseteq># mset (pooled (bp_buckets p))"
        using delete_bucket(1) [OF wf, of b] update_bucket(1) [OF wf, of b "rev kept"]
        by (auto simp: at list) (metis mset_subset_eq_add_left union_assoc add.commute add_right_imp_eq)+
      show "buckets_fit (bp_maxBuffersPerBucket p) (bp_mem p) ?m"
        using fit fits by (auto simp: list intro!: fit_update fit_delete)
      show "n = bucket_bytes ?m"
        using delete_bucket(2) [OF wf, of b] update_bucket(2) [OF wf, of b "rev kept"] bytes xs(2)
        by (auto simp: at list algebra_simps)
      show "n \<le> bp_pooledBytes p" using xs(2) by simp
    qed
    with "2.IH"(2) [OF Some tl [symmetric] refl refl] show ?thesis
      by (simp add: Some tl Let_def)
  qed (use "2.IH"(1) "2.prems" in simp)
qed simp

lemma trim_ok: "pool_ok p held \<Longrightarrow> pool_ok (bp_trim t p) held"
  by (simp add: bp_trim_def trim_buckets_ok)

lemma acquire_ok:
  assumes "pool_ok p held" and "\<forall>k. length (junk k) = k" and "acquire junk n p = (r, p1)"
  shows "pool_ok p1 (r # held)" and "length (bp_mem p1 r) = bucketFor (max 1 n) p"
proof -
  let ?k = "bucketFor (max 1 n) p"
  let ?l = "list_at (bp_buckets p) ?k"
  note wf = pool_parts(1) [OF assms(1)] and fit = pool_parts(2) [OF assms(1)] and bytes = pool_parts(3) [OF assms(1)]
  have "pool_ok p1 (r # held) \<and> length (bp_mem p1 r) = ?k"
  proof (cases "?l = []")
    case True
    then have p1: "r = bp_next p" "p1 = p\<lparr>bp_allocCount := bp_allocCount p + 1, bp_usedBytes := bp_usedBytes p + ?k,
        bp_mem := (bp_mem p)(bp_next p := junk ?k), bp_next := bp_next p + 1\<rparr>"
      using assms(3) by (auto simp: acquire_def Let_def list_at_def)
    have old: "x < bp_next p" if "x \<in> set held \<union> set (pooled (bp_buckets p))" for x
      using assms(1) that by (auto simp: pool_ok_def list_all_iff)
    have "buckets_fit (bp_maxBuffersPerBucket p) (bp_mem p1) (bp_buckets p)"
      by (rule fit_mem [OF fit]) (use old in \<open>auto simp: p1\<close>)
    moreover have "held_bytes (bp_mem p1) held = held_bytes (bp_mem p) held"
      by (rule held_bytes_cong) (use old in \<open>auto simp: p1\<close>)
    ultimately show ?thesis
      using assms(1,2) old unfolding pool_ok_def
      by (auto simp: p1 list_all_iff less_Suc_eq)
  next
    case False
    let ?m = "AList.update ?k (butlast ?l) (bp_buckets p)"
    have last: "?l = butlast ?l @ [last ?l]" using False by simp
    have len: "length (bp_mem p (last ?l)) = ?k" using fit_at [OF fit] False by simp
    have p1: "r = last ?l" "p1 = p\<lparr>bp_buckets := ?m, bp_pooledBytes := bp_pooledBytes p - ?k,
        bp_usedBytes := bp_usedBytes p + ?k, bp_reuseCount := bp_reuseCount p + 1\<rparr>"
      using assms(3) False len by (auto simp: acquire_def Let_def list_at_def)
    have "mset (pooled ?m) + mset (butlast ?l @ [last ?l]) = mset (pooled (bp_buckets p)) + mset (butlast ?l)"
      using update_bucket(1) [OF wf, of ?k "butlast ?l"] last by simp
    then have ms: "mset (r # held @ pooled ?m) = mset (held @ pooled (bp_buckets p))" by (simp add: p1(1))
    have "distinct (r # held @ pooled ?m)"
      using assms(1) mset_eq_imp_distinct_iff [OF ms] by (simp add: pool_ok_def)
    moreover have "list_all (\<lambda>x. x < bp_next p) (r # held @ pooled ?m)"
      using assms(1) mset_eq_setD [OF ms] unfolding pool_ok_def list_all_iff by simp
    moreover have "buckets_fit (bp_maxBuffersPerBucket p) (bp_mem p) ?m"
      using fit fit_length [OF fit, of ?k] fit_at [OF fit, of _ ?k]
      by (intro fit_update) (auto simp: list_all_iff dest: in_set_butlastD)
    moreover have size: "length ?l = Suc (length (butlast ?l))" using last by (metis length_append_singleton)
    have "bucket_bytes ?m + ?k = bucket_bytes (bp_buckets p)"
      using update_bucket(2) [OF wf, of ?k "butlast ?l"] unfolding size by simp
    ultimately show ?thesis using assms(1) len bytes by (auto simp: pool_ok_def p1)
  qed
  then show "pool_ok p1 (r # held)" "length (bp_mem p1 r) = ?k" by simp_all
qed

lemma length_wipe [simp]: "length (wipe s) = length s"
  by (simp add: wipe_def)

lemma release_ok:
  assumes "pool_ok p held" and "r \<in> set held"
  shows "pool_ok (bp_release r p) (remove1 r held)"
proof -
  let ?k = "length (bp_mem p r)"
  let ?l = "list_at (bp_buckets p) ?k"
  note wf = pool_parts(1) [OF assms(1)] and fit = pool_parts(2) [OF assms(1)] and bytes = pool_parts(3) [OF assms(1)]
  let ?p1 = "p\<lparr>bp_releaseCount := bp_releaseCount p + 1, bp_usedBytes := bp_usedBytes p - ?k\<rparr>"
  have used: "held_bytes (bp_mem p) (remove1 r held) + ?k = bp_usedBytes p"
    using assms sum_list_map_remove1 [OF assms(2), of "\<lambda>x. length (bp_mem p x)"]
    by (simp add: pool_ok_def held_bytes_def)
  have held: "add_mset r (mset (remove1 r held)) = mset held" using assms(2) by simp
  have out: "pool_ok ?p1 (remove1 r held)"
    using assms(1) used by (auto simp: pool_ok_def list_all_iff distinct_remove1 dest: notin_set_remove1)
  then have miss: "pool_ok (?p1\<lparr>bp_misses := n\<rparr>) (remove1 r held)" for n by (simp add: pool_ok_def)
  let ?m = "AList.update ?k (?l @ [r]) (bp_buckets p)"
  let ?p2 = "?p1\<lparr>bp_mem := (bp_mem p)(r := wipe (bp_mem p r)), bp_buckets := ?m, bp_pooledBytes := bp_pooledBytes p + ?k\<rparr>"
  have kept: "pool_ok ?p2 (remove1 r held)" if "bp_pooledBytes p + ?k \<le> bp_maxBytes p" "length ?l < bp_maxBuffersPerBucket p"
  proof -
    have "mset (pooled ?m) = add_mset r (mset (pooled (bp_buckets p)))"
      using update_bucket(1) [OF wf, of ?k "?l @ [r]"] by simp
    then have ms: "mset (remove1 r held @ pooled ?m) = mset (held @ pooled (bp_buckets p))" using held by simp
    have "distinct (remove1 r held @ pooled ?m)"
      using assms(1) mset_eq_imp_distinct_iff [OF ms] by (simp add: pool_ok_def)
    moreover have "list_all (\<lambda>x. x < bp_next p) (remove1 r held @ pooled ?m)"
      using assms(1) mset_eq_setD [OF ms] unfolding pool_ok_def list_all_iff by simp
    moreover have "buckets_fit (bp_maxBuffersPerBucket p) (bp_mem p) ?m"
      using fit that(2) fit_at [OF fit, of _ ?k] by (intro fit_update) (auto simp: list_all_iff)
    then have "buckets_fit (bp_maxBuffersPerBucket p) ((bp_mem p)(r := wipe (bp_mem p r))) ?m"
      by (rule fit_mem) simp
    moreover have "bucket_bytes ?m = bucket_bytes (bp_buckets p) + ?k"
      using update_bucket(2) [OF wf, of ?k "?l @ [r]"] by (simp add: algebra_simps)
    moreover have "held_bytes ((bp_mem p)(r := wipe (bp_mem p r))) (remove1 r held) = held_bytes (bp_mem p) (remove1 r held)"
      by (rule held_bytes_cong) simp
    ultimately show ?thesis using out that(1) bytes by (auto simp: pool_ok_def)
  qed
  show ?thesis
  proof (cases "bp_pooledBytes p + ?k > bp_maxBytes p")
    case True
    then have "bp_release r p = ?p1\<lparr>bp_misses := bp_misses p + 1\<rparr>" by (simp add: bp_release_def Let_def)
    then show ?thesis using miss by simp
  next
    case False
    show ?thesis
    proof (cases "length ?l \<ge> bp_maxBuffersPerBucket p")
      case True
      have "wf_map (AList.update ?k ?l (bp_buckets p))" using wf by simp
      moreover have "mset (pooled (AList.update ?k ?l (bp_buckets p))) = mset (pooled (bp_buckets p))"
        using update_bucket(1) [OF wf, of ?k ?l] by simp
      moreover have "buckets_fit (bp_maxBuffersPerBucket p) (bp_mem p) (AList.update ?k ?l (bp_buckets p))"
        using fit fit_length [OF fit, of ?k] fit_at [OF fit, of _ ?k] by (intro fit_update) (auto simp: list_all_iff)
      moreover have "bucket_bytes (AList.update ?k ?l (bp_buckets p)) = bp_pooledBytes p"
        using update_bucket(2) [OF wf, of ?k ?l] bytes by simp
      ultimately have "pool_ok (?p1\<lparr>bp_pooledBytes := bp_pooledBytes p, bp_buckets := AList.update ?k ?l (bp_buckets p)\<rparr>)
          (remove1 r held)"
        by (intro pool_shrinks [OF out]) auto
      moreover have "bp_release r p = ?p1\<lparr>bp_pooledBytes := bp_pooledBytes p,
          bp_buckets := AList.update ?k ?l (bp_buckets p)\<rparr>\<lparr>bp_misses := bp_misses p + 1\<rparr>"
        using False True by (simp add: bp_release_def Let_def list_at_def)
      ultimately show ?thesis by (simp add: pool_ok_def)
    next
      case small: False
      then have "bp_release r p = ?p2" using False by (simp add: bp_release_def Let_def list_at_def)
      with kept False small show ?thesis by simp
    qed
  qed
qed

section \<open>A pool and its client\<close>

text \<open>
  The buffers the client holds are those it acquired and has not returned. It may write into a buffer it holds, and
  returns only such buffers; fresh memory is of the length asked for.
\<close>

inductive pool_run :: "nat list \<Rightarrow> BufferPool \<Rightarrow> nat list \<Rightarrow> bool" for sizes where
  start: "bp_bucketSizes (newBufferPool most given limit) = sizes \<Longrightarrow> pool_run sizes (newBufferPool most given limit) []"
| acquired: "pool_run sizes p held \<Longrightarrow> \<forall>k. length (junk k) = k \<Longrightarrow> acquire junk n p = (r, p1) \<Longrightarrow> pool_run sizes p1 (r # held)"
| released: "pool_run sizes p held \<Longrightarrow> r \<in> set held \<Longrightarrow> pool_run sizes (bp_release r p) (remove1 r held)"
| trimmed: "pool_run sizes p held \<Longrightarrow> pool_run sizes (bp_trim t p) held"
| written: "pool_run sizes p held \<Longrightarrow> r \<in> set held \<Longrightarrow> length bytes = length (bp_mem p r) \<Longrightarrow>
    pool_run sizes (p\<lparr>bp_mem := (bp_mem p)(r := bytes)\<rparr>) held"

lemma new_pool_ok: "pool_ok (newBufferPool most given limit) []"
  by (simp add: pool_ok_def newBufferPool_def buckets_fit_def)

lemma write_ok:
  assumes "pool_ok p held" and "length bytes = length (bp_mem p r)"
  shows "pool_ok (p\<lparr>bp_mem := (bp_mem p)(r := bytes)\<rparr>) held"
proof -
  have "buckets_fit (bp_maxBuffersPerBucket p) ((bp_mem p)(r := bytes)) (bp_buckets p)"
    by (rule fit_mem [OF pool_parts(2) [OF assms(1)]]) (simp add: assms(2))
  moreover have "held_bytes ((bp_mem p)(r := bytes)) held = held_bytes (bp_mem p) held"
    by (rule held_bytes_cong) (simp add: assms(2))
  ultimately show ?thesis using assms(1) by (simp add: pool_ok_def)
qed

lemma trim_buckets_sizes: "bp_bucketSizes (trim_buckets t bs p) = bp_bucketSizes p"
  by (induction bs arbitrary: p) (auto simp: Let_def split: option.split prod.split)

lemma pool_sizes:
  "bp_bucketSizes (snd (acquire junk n p)) = bp_bucketSizes p"
  "bp_bucketSizes (bp_trim t p) = bp_bucketSizes p"
  "bp_bucketSizes (bp_release r p) = bp_bucketSizes p"
  by (simp_all add: acquire_def bp_release_def bp_trim_def trim_buckets_sizes Let_def)

lemma pool_run_ok: "pool_run sizes p held \<Longrightarrow> pool_ok p held"
  by (induction rule: pool_run.induct) (blast intro: new_pool_ok acquire_ok(1) release_ok trim_ok write_ok)+

lemma pool_run_sizes:
  "pool_run sizes p held \<Longrightarrow> bp_bucketSizes p = sizes \<and> sorted sizes \<and> list_all (\<lambda>c. c > 0) sizes"
proof (induction rule: pool_run.induct)
  case (start most given limit)
  then show ?case using sizes_sorted [of most given limit] sizes_positive [of _ most given limit] by (auto simp: list_all_iff)
next
  case (acquired p held junk n r p1)
  then show ?case using pool_sizes(1) [of junk n p] by simp
qed (simp_all add: pool_sizes)

text \<open>
  C21: Whatever the sequence of operations, when the client asks for a buffer of \<open>n\<close> bytes it gets one it does not
  hold, of the least configured size not below \<open>n\<close> (of \<open>n\<close> itself when there is none): the binary search over the
  sizes is the linear one. The counters are the bytes of the buffers held and of those pooled, and the latter never
  exceed the limit.
\<close>

theorem buffer_pool_exclusive:
  assumes "pool_run sizes p held" and "\<forall>k. length (junk k) = k" and "acquire junk n p = (r, p1)"
  shows "r \<notin> set held \<and> length (bp_mem p1 r) = least_bucket sizes (max 1 n) \<and> n \<le> length (bp_mem p1 r) \<and>
    distinct (r # held @ pooled (bp_buckets p1)) \<and> bp_usedBytes p1 = held_bytes (bp_mem p1) (r # held) \<and>
    bp_pooledBytes p1 = bucket_bytes (bp_buckets p1) \<and> bp_pooledBytes p1 \<le> bp_maxBytes p1"
proof -
  note ok = acquire_ok [OF pool_run_ok [OF assms(1)] assms(2,3)]
  have "length (bp_mem p1 r) = least_bucket sizes (max 1 n)"
    using pool_run_sizes [OF assms(1)] ok(2) by (simp add: bucketFor_least)
  moreover have "n \<le> least_bucket sizes (max 1 n)" using least_bucket_ge [of "max 1 n" sizes] by simp
  ultimately show ?thesis using ok(1) unfolding pool_ok_def by simp
qed

text \<open>A buffer comes back after its release: the third request reuses it.\<close>

definition demo_junk :: "nat \<Rightarrow> string" where
  "demo_junk n = replicate n (CHR ''x'')"

definition demo_sizes :: "nat list" where
  "demo_sizes = [2, 4, 8]"

definition demo_new :: BufferPool where
  "demo_new = newBufferPool None (Some [4, 2, 8]) None"

definition demo_one :: BufferPool where
  "demo_one = snd (acquire demo_junk 1 demo_new)"

definition demo_two :: BufferPool where
  "demo_two = snd (acquire demo_junk 3 demo_one)"

lemma demo_bucket:
  "bp_bucketSizes p = demo_sizes \<Longrightarrow> bucketFor n p = least_bucket demo_sizes n"
  by (subst bucketFor_least) (simp_all add: demo_sizes_def)

lemma demo_new_fields: "bp_bucketSizes demo_new = demo_sizes" "bp_buckets demo_new = []" "bp_next demo_new = 0"
    "bp_maxBytes demo_new = 4194304" "bp_maxBuffersPerBucket demo_new = 64" "bp_pooledBytes demo_new = 0"
  by (simp_all add: demo_new_def newBufferPool_def demo_sizes_def)

lemma demo_first: "acquire demo_junk 1 demo_new = (0, demo_one)"
    "bp_bucketSizes demo_one = demo_sizes" "bp_buckets demo_one = []" "bp_next demo_one = 1"
    "bp_maxBytes demo_one = 4194304" "bp_maxBuffersPerBucket demo_one = 64" "bp_pooledBytes demo_one = 0"
    "length (bp_mem demo_one 0) = 2"
  by (simp_all add: demo_one_def acquire_def demo_bucket demo_new_fields demo_junk_def Let_def least_bucket_def demo_sizes_def)

lemma demo_second: "acquire demo_junk 3 demo_one = (1, demo_two)"
    "bp_bucketSizes demo_two = demo_sizes" "bp_buckets demo_two = []" "bp_next demo_two = 2"
    "bp_maxBytes demo_two = 4194304" "bp_maxBuffersPerBucket demo_two = 64" "bp_pooledBytes demo_two = 0"
    "length (bp_mem demo_two 0) = 2"
  by (simp_all add: demo_two_def acquire_def demo_bucket demo_first(2-8) demo_junk_def Let_def least_bucket_def)

lemma demo_released: "bp_bucketSizes (bp_release 0 demo_two) = demo_sizes" "bp_buckets (bp_release 0 demo_two) = [(2, [0])]"
  by (simp_all add: bp_release_def demo_second(2-8) Let_def)

lemma demo_pool_run: "pool_run demo_sizes (bp_release 0 demo_two) [1]"
proof -
  have junk: "\<forall>k. length (demo_junk k) = k" by (simp add: demo_junk_def)
  have "pool_run demo_sizes demo_new []"
    using start [OF demo_new_fields(1) [unfolded demo_new_def]] by (simp only: demo_new_def)
  from acquired [OF acquired [OF this junk demo_first(1)] junk demo_second(1)]
  have "pool_run demo_sizes demo_two [1, 0]" .
  from released [OF this, of 0] show ?thesis by simp
qed

lemma buffer_pool_exclusive_witness:
  "fst (acquire demo_junk 2 (bp_release 0 demo_two)) = 0 \<and>
   length (bp_mem (snd (acquire demo_junk 2 (bp_release 0 demo_two))) 0) = least_bucket demo_sizes (max 1 2)"
proof -
  have "least_bucket demo_sizes 2 = 2" by (simp add: least_bucket_def demo_sizes_def)
  then have "least_bucket demo_sizes (Suc (Suc 0)) = 2" by (simp only: numeral_2_eq_2)
  then have "fst (acquire demo_junk 2 (bp_release 0 demo_two)) = 0"
    by (simp add: acquire_def demo_bucket demo_released Let_def)
  then have "acquire demo_junk 2 (bp_release 0 demo_two) = (0, snd (acquire demo_junk 2 (bp_release 0 demo_two)))"
    by (metis prod.collapse)
  from buffer_pool_exclusive [OF demo_pool_run _ this] show ?thesis
    using \<open>fst (acquire demo_junk 2 (bp_release 0 demo_two)) = 0\<close> by (auto simp: demo_junk_def)
qed

end
