(* ===== verification/AdminSignature.thy ===== *)
theory AdminSignature
  imports Sqlite JsonRoundtrip
begin

text \<open>
  Signed administrator actions (\<open>infra/runtime/admin-signature.ts\<close>), the guards at start-up
  (\<open>infra/runtime/startup-guards.ts\<close>) and the rules for a change of the trust root
  (\<open>infra/runtime/trust-root.ts\<close>).

  The key and signature functions of \<open>node:crypto\<close>, \<open>Buffer.from(text, encoding)\<close> and the message of a failed
  \<open>JSON.parse\<close> are the fields of \<open>crypto_host\<close>. The members of an object are in the order of their keys' bytes.
\<close>

record crypto_host =
  cy_createPublicKey :: "string \<Rightarrow> (string, string) result"
  cy_verify :: "string \<Rightarrow> string \<Rightarrow> string \<Rightarrow> bool"
  cy_decode :: "bool \<Rightarrow> string \<Rightarrow> string"
  cy_parse_error :: "string \<Rightarrow> string"

type_synonym environment = "string \<Rightarrow> string option"

definition parseBoolTrimmed :: "string option \<Rightarrow> bool \<Rightarrow> bool" where
  "parseBoolTrimmed v fallback = (case v of None \<Rightarrow> fallback | Some s \<Rightarrow> to_lower (trim s) = ''true'')"

section \<open>The message that is signed\<close>

datatype AdminActionType = RequestAction | ApproveAction | CancelAction

fun admin_action_text :: "AdminActionType \<Rightarrow> string" where
  "admin_action_text RequestAction = ''dual_approval.request''"
| "admin_action_text ApproveAction = ''dual_approval.approve''"
| "admin_action_text CancelAction = ''dual_approval.cancel''"

definition by_name :: "string \<times> 'a \<Rightarrow> string \<times> 'a \<Rightarrow> int" where
  "by_name a b = binary_cmp (fst a) (fst b)"

fun canonicalize :: "json \<Rightarrow> json" where
  "canonicalize (JArr vs) = JArr (map canonicalize vs)"
| "canonicalize (JObj kvs) = JObj (js_sort by_name (map (\<lambda>(k, v). (k, canonicalize v)) kvs))"
| "canonicalize v = v"

definition buildAdminSignatureMessage :: "AdminActionType \<Rightarrow> string \<Rightarrow> (string \<times> json) list \<Rightarrow> string" where
  "buildAdminSignatureMessage action actorId payload =
     JSON_stringify (canonicalize (JObj
       [(''action'', JStr (admin_action_text action)), (''actorId'', JStr actorId), (''payload'', JObj payload)]))"

section \<open>Keys and signatures\<close>

definition signatureRequired :: "environment \<Rightarrow> bool" where
  "signatureRequired env = parseBoolTrimmed (env ''MEMPHIS_ADMIN_SIGNATURE_REQUIRED'') (env ''NODE_ENV'' = Some ''production'')"

definition refusal :: "ErrorCode \<Rightarrow> nat \<Rightarrow> string \<Rightarrow> (string \<times> json) list option \<Rightarrow> thrown" where
  "refusal kind status msg details =
     App \<lparr>err_code = kind, err_message = msg, err_status = status, err_details = details, err_suggestion = None\<rparr>"

definition config_error :: "string \<Rightarrow> thrown" where
  "config_error msg = refusal CONFIG_ERROR 500 msg None"

definition denied :: "string \<Rightarrow> (string \<times> json) list option \<Rightarrow> thrown" where
  "denied msg details = refusal PERMISSION_DENIED 403 msg details"

text \<open>The entries of the registry in order; a later actor replaces an earlier one of the same identity.\<close>

fun register_keys :: "(string \<Rightarrow> string) \<Rightarrow> (string \<times> json) list \<Rightarrow> (string, string) jsmap \<Rightarrow> (thrown, (string, string) jsmap) result" where
  "register_keys sha [] out = Inr out"
| "register_keys sha ((rawActorId, rawKey) # rest) out =
     (case rawKey of
        JStr key \<Rightarrow>
          (if length (trim key) = 0 then register_keys sha rest out
           else rbind (normalizeIdentity sha rawActorId)
             (\<lambda>actor. register_keys sha rest (AList.update actor (trim key) out)))
      | _ \<Rightarrow> register_keys sha rest out)"

definition parseSignatureRegistry ::
  "crypto_host \<Rightarrow> (string \<Rightarrow> string) \<Rightarrow> environment \<Rightarrow> (thrown, (string, string) jsmap) result" where
  "parseSignatureRegistry c sha env =
     (case map_option trim (env ''MEMPHIS_ADMIN_PUBLIC_KEYS_JSON'') of
        None \<Rightarrow> Inr []
      | Some raw \<Rightarrow>
          if raw = '''' then Inr []
          else
            (case JSON_parse raw of
               None \<Rightarrow> Inl (config_error (''invalid MEMPHIS_ADMIN_PUBLIC_KEYS_JSON: '' @ cy_parse_error c raw))
             | Some (JObj entries) \<Rightarrow> register_keys sha entries []
             | Some _ \<Rightarrow> Inl (config_error
                 ''MEMPHIS_ADMIN_PUBLIC_KEYS_JSON must be a JSON object mapping actorId to public key'')))"

definition before_colon :: "string \<Rightarrow> string" where
  "before_colon s = takeWhile (\<lambda>c. c \<noteq> CHR '':'') s"

definition tagged :: "string \<Rightarrow> bool" where
  "tagged s \<longleftrightarrow> CHR '':'' \<in> set s \<and> before_colon s \<noteq> ''''"

definition looks_hex :: "string \<Rightarrow> bool" where
  "looks_hex s \<longleftrightarrow> s \<noteq> '''' \<and> list_all (\<lambda>c. is_hex (lower_char c)) s \<and> even (length s)"

definition decodeSignature :: "crypto_host \<Rightarrow> string \<Rightarrow> (thrown, string) result" where
  "decodeSignature c rawSignature =
     (let trimmed = trim rawSignature; algorithm = to_lower (before_colon trimmed);
          payload = (if tagged trimmed then trim (drop (length (before_colon trimmed) + 1) trimmed) else trimmed);
          decoded = cy_decode c (looks_hex payload) payload
      in if trimmed = '''' then Inl (denied ''signature is required'' None)
         else if tagged trimmed \<and> algorithm \<noteq> ''ed25519'' then
           Inl (denied (''unsupported signature algorithm: '' @ algorithm) None)
         else if length decoded = 0 then Inl (denied ''signature payload is empty'' None)
         else Inr decoded)"

record VerifyResult =
  vr_actorId :: string
  vr_required :: bool
  vr_verified :: bool

definition check_signature ::
  "crypto_host \<Rightarrow> AdminActionType \<Rightarrow> string \<Rightarrow> (string \<times> json) list \<Rightarrow> string \<Rightarrow> string \<Rightarrow> (thrown, unit) result" where
  "check_signature c action actorId payload publicKeyPem rawSignature =
     (case cy_createPublicKey c publicKeyPem of
        Inl e \<Rightarrow> Inl (config_error (''invalid public key for actor '' @ actorId @ '': '' @ e))
      | Inr publicKey \<Rightarrow>
          rbind (decodeSignature c rawSignature)
            (\<lambda>signature.
               if cy_verify c (buildAdminSignatureMessage action actorId payload) publicKey signature then Inr ()
               else Inl (denied ''invalid admin signature''
                 (Some [(''actorId'', JStr actorId), (''action'', JStr (admin_action_text action))]))))"

definition nonempty :: "string option \<Rightarrow> bool" where
  "nonempty v \<longleftrightarrow> v \<noteq> None \<and> v \<noteq> Some ''''"

definition verifyAdminActionSignature ::
  "crypto_host \<Rightarrow> (string \<Rightarrow> string) \<Rightarrow> environment \<Rightarrow> AdminActionType \<Rightarrow> string \<Rightarrow> string option \<Rightarrow> (string \<times> json) list \<Rightarrow>
   (thrown, VerifyResult) result" where
  "verifyAdminActionSignature c sha env action rawActorId signature payload =
     rbind (normalizeIdentity sha rawActorId)
       (\<lambda>actorId. rbind (parseSignatureRegistry c sha env)
         (\<lambda>registry.
            let required = signatureRequired env;
                unverified = \<lparr>vr_actorId = actorId, vr_required = required, vr_verified = False\<rparr>
            in case map_of registry actorId of
                 None \<Rightarrow>
                   if required \<or> nonempty signature then
                     Inl (denied ''no admin public key registered for actor'' (Some [(''actorId'', JStr actorId)]))
                   else Inr unverified
               | Some publicKeyPem \<Rightarrow>
                   if \<not> nonempty (map_option trim signature) then
                     (if required then
                        Inl (denied ''signature is required for admin action''
                          (Some [(''actorId'', JStr actorId), (''action'', JStr (admin_action_text action))]))
                      else Inr unverified)
                   else
                     rbind (check_signature c action actorId payload publicKeyPem (or_else signature ''''))
                       (\<lambda>_. Inr (unverified\<lparr>vr_verified := True\<rparr>))))"

section \<open>Start-up guards\<close>

definition parseIntSafe :: "string option \<Rightarrow> int option" where
  "parseIntSafe raw =
     (case raw of None \<Rightarrow> None | Some s \<Rightarrow> if length (trim s) = 0 then None else parse_int (trim s))"

record RevocationCacheStartupStatus =
  rc_enabled :: bool
  rc_stale :: bool
  rc_maxStaleMs :: int
  rc_lastSyncMs :: "int option"
  rc_ageMs :: "int option"
  rc_reason :: "string option"

definition evaluateRevocationCacheStartup :: "environment \<Rightarrow> int \<Rightarrow> RevocationCacheStartupStatus" where
  "evaluateRevocationCacheStartup env nowMs =
     (let maxStaleMs = max 1 (or_else (parseIntSafe (env ''MEMPHIS_REVOCATION_CACHE_MAX_STALE_MS'')) 30000)
      in if \<not> parseBoolTrimmed (env ''MEMPHIS_REVOCATION_CACHE_REQUIRED'') False then
           \<lparr>rc_enabled = False, rc_stale = False, rc_maxStaleMs = maxStaleMs, rc_lastSyncMs = None, rc_ageMs = None,
            rc_reason = Some ''revocation cache enforcement disabled''\<rparr>
         else
           (case parseIntSafe (env ''MEMPHIS_REVOCATION_CACHE_LAST_SYNC_MS'') of
              None \<Rightarrow>
                \<lparr>rc_enabled = True, rc_stale = True, rc_maxStaleMs = maxStaleMs, rc_lastSyncMs = None, rc_ageMs = None,
                 rc_reason = Some ''missing MEMPHIS_REVOCATION_CACHE_LAST_SYNC_MS''\<rparr>
            | Some lastSyncMs \<Rightarrow>
                (let ageMs = max 0 (nowMs - lastSyncMs)
                 in if ageMs > maxStaleMs then
                      \<lparr>rc_enabled = True, rc_stale = True, rc_maxStaleMs = maxStaleMs, rc_lastSyncMs = Some lastSyncMs,
                       rc_ageMs = Some ageMs,
                       rc_reason = Some (''revocation cache stale: age '' @ show_int ageMs @ ''ms exceeds ''
                         @ show_int maxStaleMs @ ''ms'')\<rparr>
                    else
                      \<lparr>rc_enabled = True, rc_stale = False, rc_maxStaleMs = maxStaleMs, rc_lastSyncMs = Some lastSyncMs,
                       rc_ageMs = Some ageMs, rc_reason = None\<rparr>)))"

record TrustRootStartupStatus =
  ts_enabled :: bool
  ts_valid :: bool
  ts_path :: "string option"
  ts_reason :: "string option"

text \<open>\<open>load\<close> reads a file: \<open>None\<close> when it does not exist, \<open>Inl\<close> the message of a failed read or parse.\<close>

definition root_ids :: "json option \<Rightarrow> string list" where
  "root_ids v =
     (case v of
        Some (JArr items) \<Rightarrow>
          concat (map (\<lambda>item. case item of JStr s \<Rightarrow> if length (trim s) > 0 then [s] else [] | _ \<Rightarrow> []) items)
      | _ \<Rightarrow> [])"

definition evaluateTrustRootStartup ::
  "(string \<Rightarrow> string) \<Rightarrow> (string \<Rightarrow> (string, json) result option) \<Rightarrow> environment \<Rightarrow> TrustRootStartupStatus" where
  "evaluateTrustRootStartup resolve_path load env =
     (let status = (\<lambda>enabled valid path reason.
            \<lparr>ts_enabled = enabled, ts_valid = valid, ts_path = path, ts_reason = reason\<rparr>)
      in if \<not> parseBoolTrimmed (env ''MEMPHIS_TRUST_ROOT_REQUIRED'') False then
           status False True None (Some ''trust-root enforcement disabled'')
         else
           (let path = resolve_path (or_else (env ''MEMPHIS_TRUST_ROOT_PATH'') ''./config/trust_root.json'')
            in case load path of
                 None \<Rightarrow> status True False (Some path) (Some (''trust root manifest missing at '' @ path))
               | Some (Inl e) \<Rightarrow> status True False (Some path) (Some e)
               | Some (Inr JNull) \<Rightarrow> status True False (Some path) (Some ''Cannot read properties of null'')
               | Some (Inr parsed) \<Rightarrow>
                   (let versionValid = (case jnumber (jfield parsed ''version'') of None \<Rightarrow> False | Some n \<Rightarrow> n > 0);
                        roots = root_ids (jfield parsed ''rootIds'')
                    in if \<not> versionValid \<or> roots = [] \<or> \<not> distinct roots then
                         status True False (Some path) (Some ''trust root manifest schema invalid (version/rootIds)'')
                       else status True True (Some path) None)))"

record TrustRootManifest =
  tm_version :: int
  tm_rootIds :: "string list"
  tm_revokedKeys :: "string list option"

record TrustRootTransition =
  tt_oldRootId :: string
  tt_newRootId :: string
  tt_reason :: string
  tt_signature :: string

definition validateTrustRootTransition ::
  "TrustRootManifest \<Rightarrow> TrustRootManifest \<Rightarrow> TrustRootTransition \<Rightarrow> (string, unit) result" where
  "validateTrustRootTransition current next transition =
     (if tm_version next \<le> tm_version current then
        Inl (''trust root downgrade rejected: next version ('' @ show_int (tm_version next) @ '') must be > current (''
          @ show_int (tm_version current) @ '')'')
      else if tm_rootIds next = [] \<or> \<not> distinct (tm_rootIds next) then Inl ''invalid next trust root ids''
      else if tt_oldRootId transition \<notin> set (tm_rootIds current) then
        Inl ''transition oldRootId not found in current trust root set''
      else if tt_newRootId transition \<notin> set (tm_rootIds next) then
        Inl ''transition newRootId not found in next trust root set''
      else if trim (tt_reason transition) = '''' then Inl ''transition reason is required''
      else if trim (tt_signature transition) = '''' then Inl ''transition signature is required''
      else if \<not> distinct (or_else (tm_revokedKeys next) []) then Inl ''next revokedKeys must not contain duplicates''
      else Inr ())"

end
