(* ===== verification/HttpServer.thy ===== *)
theory HttpServer
  imports AdminSignature DualApproval Gateway ChainAdapter
begin

text \<open>
  The HTTP server (\<open>infra/http/server.ts\<close>): the hook that every request passes, and the routes of the dual
  approvals, which check the signature of the administrator, change the repository and log the transition in the
  system chain (\<open>infra/runtime/dual-approval-events.ts\<close>). The policy which routes need a token is
  \<open>infra/http/auth-policy.ts\<close>, the bodies are those of \<open>infra/config/request-schemas.ts\<close>.

  Which route Fastify serves for a method and URL is the function \<open>he_route\<close>: it decodes the URL, the hook does not.
  What the other routes do is \<open>he_other\<close>. \<open>z.uuid()\<close> is \<open>he_uuid\<close>, the issues of a refused body \<open>he_issues\<close>.
\<close>

section \<open>Which requests need a token\<close>

record EndpointAuthPolicy =
  ep_method :: string
  ep_path :: string
  ep_requiresAuth :: bool

definition policy :: "string \<Rightarrow> string \<Rightarrow> bool \<Rightarrow> EndpointAuthPolicy" where
  "policy method path auth = \<lparr>ep_method = method, ep_path = path, ep_requiresAuth = auth\<rparr>"

definition apiAuthPolicy :: "EndpointAuthPolicy list" where
  "apiAuthPolicy =
     [policy ''GET'' ''/health'' False, policy ''GET'' ''/v1/providers/health'' False,
      policy ''GET'' ''/v1/metrics'' True, policy ''GET'' ''/v1/ops/status'' True, policy ''GET'' ''/v1/sessions'' True,
      policy ''GET'' ''/v1/sessions/:sessionId/events'' True, policy ''POST'' ''/v1/chat/generate'' True,
      policy ''POST'' ''/api/recall'' True, policy ''POST'' ''/api/journal'' True,
      policy ''POST'' ''/api/model-d/proposals'' True, policy ''POST'' ''/v1/vault/init'' True,
      policy ''POST'' ''/v1/vault/encrypt'' True, policy ''POST'' ''/v1/vault/decrypt'' True,
      policy ''GET'' ''/v1/vault/entries'' True]"

text \<open>A segment \<open>:name\<close> of a rule matches any segment that is not empty.\<close>

definition segment_match :: "string \<Rightarrow> string \<Rightarrow> bool" where
  "segment_match rule seg = (if starts_with rule '':'' then seg \<noteq> '''' else seg = rule)"

definition path_match :: "string \<Rightarrow> string \<Rightarrow> bool" where
  "path_match rule path = list_all2 segment_match (split_on (CHR ''/'') rule) (split_on (CHR ''/'') path)"

definition isAuthRequired :: "string \<Rightarrow> string \<Rightarrow> bool" where
  "isAuthRequired method path =
     (case find (\<lambda>r. ep_method r = method \<and>
              (ep_path r = path \<or> CHR '':'' \<in> set (ep_path r) \<and> path_match (ep_path r) path)) apiAuthPolicy of
        None \<Rightarrow> True
      | Some r \<Rightarrow> ep_requiresAuth r)"

section \<open>Routes the hook treats apart\<close>

definition normalizeRoutePath :: "string \<Rightarrow> string" where
  "normalizeRoutePath url = takeWhile (\<lambda>c. c \<noteq> CHR ''?'') url"

definition SENSITIVE_EXACT_ROUTES :: "string list" where
  "SENSITIVE_EXACT_ROUTES =
     [''/metrics'', ''/api/model-d/proposals'', ''/v1/chat/generate'', ''/v1/metrics'', ''/v1/ops/status'',
      ''/v1/sessions'', ''/v1/vault/init'', ''/v1/vault/encrypt'', ''/v1/vault/decrypt'', ''/v1/vault/entries'',
      ''/v1/soul/replay'', ''/v1/soul/loop-step'']"

definition SENSITIVE_PREFIX_ROUTES :: "string list" where
  "SENSITIVE_PREFIX_ROUTES = [''/v1/sessions/'']"

definition REVOCATION_FAIL_CLOSED_ROUTES :: "string list" where
  "REVOCATION_FAIL_CLOSED_ROUTES =
     [''/v1/admin/dual-approval/request'', ''/v1/admin/dual-approval/approve'', ''/v1/admin/dual-approval/cancel'',
      ''/v1/vault/init'', ''/v1/vault/encrypt'', ''/v1/vault/decrypt'']"

definition isSensitiveRoute :: "string \<Rightarrow> bool" where
  "isSensitiveRoute path \<longleftrightarrow>
     path \<in> set SENSITIVE_EXACT_ROUTES \<or> list_ex (starts_with path) SENSITIVE_PREFIX_ROUTES"

definition isSafeModeAllowedRoute :: "string \<Rightarrow> string \<Rightarrow> bool" where
  "isSafeModeAllowedRoute method path \<longleftrightarrow>
     method = ''GET'' \<and>
     (path \<in> set [''/health'', ''/v1/providers/health'', ''/v1/metrics'', ''/v1/ops/status'', ''/v1/sessions''] \<or>
      starts_with path ''/v1/sessions/'' \<or> path = ''/v1/vault/entries'')"

definition isRevocationFailClosedRoute :: "string \<Rightarrow> string \<Rightarrow> bool" where
  "isRevocationFailClosedRoute method path \<longleftrightarrow> method = ''POST'' \<and> path \<in> set REVOCATION_FAIL_CLOSED_ROUTES"

section \<open>Bodies\<close>

definition text_between :: "int \<Rightarrow> int \<Rightarrow> json option \<Rightarrow> string option" where
  "text_between lo hi v =
     (case v of Some (JStr s) \<Rightarrow> if lo \<le> int (utf16_length s) \<and> int (utf16_length s) \<le> hi then Some s else None | _ \<Rightarrow> None)"

definition int_between :: "int \<Rightarrow> int \<Rightarrow> json option \<Rightarrow> int option" where
  "int_between lo hi v = (case v of Some (JNum n) \<Rightarrow> if lo \<le> n \<and> n \<le> hi then Some n else None | _ \<Rightarrow> None)"

definition optional :: "(json option \<Rightarrow> 'a option) \<Rightarrow> json option \<Rightarrow> 'a option option" where
  "optional check v = (case v of None \<Rightarrow> Some None | Some _ \<Rightarrow> map_option Some (check v))"

definition enum_action :: "json option \<Rightarrow> DualApprovalAction option" where
  "enum_action v =
     (if jstring v = Some ''freeze'' then Some Freeze else if jstring v = Some ''unfreeze'' then Some Unfreeze else None)"

definition dualApprovalRequestSchema :: "json option \<Rightarrow> create_input option" where
  "dualApprovalRequestSchema body =
     (case body of
        Some (JObj kvs) \<Rightarrow>
          Option.bind (enum_action (map_of kvs ''action'')) (\<lambda>action.
          Option.bind (text_between 1 256 (map_of kvs ''initiatorId'')) (\<lambda>initiator.
          Option.bind (optional (int_between 1 3600000) (map_of kvs ''ttlMs'')) (\<lambda>ttl.
          Option.bind (optional (text_between 1 2000) (map_of kvs ''reason'')) (\<lambda>reason.
          Option.bind (optional (text_between 1 4096) (map_of kvs ''signature'')) (\<lambda>signature.
            Some \<lparr>ci_action = action, ci_initiatorId = initiator, ci_ttlMs = ttl, ci_reason = reason,
                  ci_signature = signature\<rparr>)))))
      | _ \<Rightarrow> None)"

text \<open>The bodies of an approval and a cancellation differ in the name of the actor's field.\<close>

definition transition_schema :: "(string \<Rightarrow> bool) \<Rightarrow> string \<Rightarrow> json option \<Rightarrow> transition_input option" where
  "transition_schema uuid actor_field body =
     (case body of
        Some (JObj kvs) \<Rightarrow>
          (let uuid_field = (\<lambda>k. case map_of kvs k of Some (JStr s) \<Rightarrow> if uuid s then Some s else None | _ \<Rightarrow> None)
           in Option.bind (uuid_field ''approvalRequestId'') (\<lambda>approvalRequestId.
              Option.bind (uuid_field ''requestId'') (\<lambda>requestId.
              Option.bind (text_between 1 256 (map_of kvs actor_field)) (\<lambda>actor.
              Option.bind (int_between 0 9007199254740991 (map_of kvs ''expectedStateVersion'')) (\<lambda>version.
              Option.bind (optional (text_between 1 4096) (map_of kvs ''signature'')) (\<lambda>signature.
                Some \<lparr>ti_approvalRequestId = approvalRequestId, ti_requestId = requestId, ti_actorId = actor,
                      ti_expectedStateVersion = version, ti_signature = signature\<rparr>))))))
      | _ \<Rightarrow> None)"

definition dualApprovalApproveSchema :: "(string \<Rightarrow> bool) \<Rightarrow> json option \<Rightarrow> transition_input option" where
  "dualApprovalApproveSchema uuid body = transition_schema uuid ''approverId'' body"

definition dualApprovalCancelSchema :: "(string \<Rightarrow> bool) \<Rightarrow> json option \<Rightarrow> transition_input option" where
  "dualApprovalCancelSchema uuid body = transition_schema uuid ''actorId'' body"

fun dual_action_text :: "DualApprovalAction \<Rightarrow> string" where
  "dual_action_text Freeze = ''freeze''"
| "dual_action_text Unfreeze = ''unfreeze''"

text \<open>What is signed for a request and for a transition.\<close>

definition nullable_text :: "string option \<Rightarrow> json" where
  "nullable_text v = (case v of None \<Rightarrow> JNull | Some s \<Rightarrow> JStr s)"

definition request_payload :: "create_input \<Rightarrow> (string \<times> json) list" where
  "request_payload d =
     [(''action'', JStr (dual_action_text (ci_action d))), (''ttlMs'', JNum (or_else (ci_ttlMs d) (5 * 60 * 1000))),
      (''reason'', nullable_text (ci_reason d))]"

definition transition_payload :: "transition_input \<Rightarrow> (string \<times> json) list" where
  "transition_payload d =
     [(''approvalRequestId'', JStr (ti_approvalRequestId d)), (''requestId'', JStr (ti_requestId d)),
      (''expectedStateVersion'', JNum (ti_expectedStateVersion d))]"

section \<open>The server\<close>

datatype HttpRoute = DualRequest | DualApprove | DualCancel | DualShow string | OtherRoute

record HttpRequest =
  hq_method :: string
  hq_url :: string
  hq_ip :: string
  hq_authorization :: "string option"
  hq_body :: "json option"
  hq_id :: string

record http_env =
  he_env :: environment
  he_now :: int
  he_ids :: "nat \<Rightarrow> string"
  he_host :: host
  he_crypto :: crypto_host
  he_uuid :: "string \<Rightarrow> bool"
  he_issues :: "json option \<Rightarrow> json list"
  he_resolve :: "string \<Rightarrow> string"
  he_route :: "string \<Rightarrow> string \<Rightarrow> HttpRoute option"
  he_other :: "HttpRequest \<Rightarrow> (thrown, json) result"
  he_append :: "json \<Rightarrow> chain_fs \<Rightarrow> (string, AppendBlockResult) result \<times> chain_fs"

record HttpServer =
  hs_apiToken :: "string option"
  hs_global :: RateLimiter
  hs_sensitive :: RateLimiter
  hs_repo :: bool
  hs_db :: dual_db
  hs_chains :: chain_fs
  hs_audit :: "audit list"

definition http_audit :: "string \<Rightarrow> string \<Rightarrow> HttpServer \<Rightarrow> HttpServer" where
  "http_audit action status s = s\<lparr>hs_audit := hs_audit s @ [\<lparr>au_action = action, au_status = status\<rparr>]\<rparr>"

definition handleHttpError :: "(string \<Rightarrow> string) \<Rightarrow> thrown \<Rightarrow> HttpRequest \<Rightarrow> response" where
  "handleHttpError resolve_path e req = (case jsonError resolve_path e (hq_id req) of (status, body) \<Rightarrow> Reply status body)"

definition hook_error :: "nat \<Rightarrow> string \<Rightarrow> string \<Rightarrow> (string \<times> json) list \<Rightarrow> HttpRequest \<Rightarrow> response" where
  "hook_error status kind message details req =
     Reply status (JObj [(''error'', JObj [(''code'', JStr kind), (''message'', JStr message),
       (''details'', JObj details), (''requestId'', JStr (hq_id req))])])"

text \<open>The guards in the order of the code; \<open>Inr\<close> lets the request through.\<close>

definition check_token :: "HttpRequest \<Rightarrow> HttpServer \<Rightarrow> (response, unit) result \<times> HttpServer" where
  "check_token req s =
     (if \<not> nonempty (hs_apiToken s) then
        (Inl (hook_error 401 ''UNAUTHORIZED'' (''MEMPHIS_API_TOKEN not configured '' @ utf8 8212 @ '' set it to enable authenticated routes'') [] req),
         http_audit ''auth.token.missing'' ''blocked'' s)
      else if hq_authorization req \<noteq> Some (''Bearer '' @ or_else (hs_apiToken s) '''') then
        (Inl (hook_error 401 ''UNAUTHORIZED'' ''unauthorized'' [] req), s)
      else (Inr (), s))"

definition onRequest :: "http_env \<Rightarrow> HttpRequest \<Rightarrow> HttpServer \<Rightarrow> (response, unit) result \<times> HttpServer" where
  "onRequest e req s =
     (let env = he_env e; path = normalizeRoutePath (hq_url req);
          route_details = [(''route'', JStr path), (''method'', JStr (hq_method req))]
      in if hq_method req = ''OPTIONS'' then (Inl NoContent, s)
         else (case rate_check (hq_ip req @ '':'' @ hq_method req) (he_now e) (hs_global s) of
            (Inl x, l) \<Rightarrow> (Inl (handleHttpError (he_resolve e) x req), s\<lparr>hs_global := l\<rparr>)
          | (Inr _, l) \<Rightarrow>
              (let s = s\<lparr>hs_global := l\<rparr>
               in if in_safe_mode env \<and> \<not> isSafeModeAllowedRoute (hq_method req) path then
                    (Inl (hook_error 403 ''PERMISSION_DENIED'' ''forbidden in safe mode'' route_details req), s)
                  else
                    (let revocation = evaluateRevocationCacheStartup env (he_now e)
                     in if isRevocationFailClosedRoute (hq_method req) path \<and> rc_enabled revocation \<and> rc_stale revocation then
                          (Inl (hook_error 503 ''SERVICE_UNAVAILABLE'' ''high-risk route blocked: revocation cache stale''
                             (route_details @ [(''reason'', JStr (or_else (rc_reason revocation) ''revocation cache stale''))]) req),
                           http_audit ''revocation.cache.guard'' ''blocked'' s)
                        else if isSensitiveRoute path then
                          (case rate_check (hq_ip req @ '':'' @ hq_method req @ '':'' @ path) (he_now e) (hs_sensitive s) of
                             (Inl x, l) \<Rightarrow> (Inl (handleHttpError (he_resolve e) x req), s\<lparr>hs_sensitive := l\<rparr>)
                           | (Inr _, l) \<Rightarrow>
                               (let s = s\<lparr>hs_sensitive := l\<rparr>
                                in if isAuthRequired (hq_method req) path then check_token req s else (Inr (), s)))
                        else if isAuthRequired (hq_method req) path then check_token req s
                        else (Inr (), s)))))"

section \<open>The routes of the dual approvals\<close>

definition request_json :: "DualApprovalRequest \<Rightarrow> json" where
  "request_json r =
     JObj [(''requestId'', JStr (dr_requestId r)), (''action'', JStr (dual_action_text (dr_action r))),
       (''state'', JStr (state_text (dr_state r))), (''initiatorId'', JStr (dr_initiatorId r)),
       (''approverId'', nullable_text (dr_approverId r)), (''reason'', nullable_text (dr_reason r)),
       (''signature'', nullable_text (dr_signature r)), (''expiresAtMs'', JNum (dr_expiresAtMs r)),
       (''stateVersion'', JNum (dr_stateVersion r)), (''createdAt'', JStr (dr_createdAt r)),
       (''updatedAt'', JStr (dr_updatedAt r))]"

definition opt_state :: "DualApprovalState option \<Rightarrow> json" where
  "opt_state st = nullable_text (map_option state_text st)"

definition event_json :: "DualApprovalEvent \<Rightarrow> json" where
  "event_json e =
     JObj [(''eventId'', JStr (de_eventId e)), (''requestId'', JStr (de_requestId e)),
       (''fromState'', opt_state (de_fromState e)), (''toState'', JStr (state_text (de_toState e))),
       (''actorId'', JStr (de_actorId e)), (''signature'', nullable_text (de_signature e)),
       (''createdAt'', JStr (de_createdAt e))]"

definition dual_chain_event :: "http_env \<Rightarrow> HttpRequest \<Rightarrow> DualApprovalRequest \<Rightarrow> DualApprovalEvent \<Rightarrow> bool \<Rightarrow> json" where
  "dual_chain_event e req record transition verified =
     JObj [(''type'', JStr ''system_event''), (''event'', JStr ''dual_approval.transition''), (''schemaVersion'', JNum 1),
       (''eventId'', JStr (he_ids e 2)), (''timestamp'', JStr (host_iso (he_host e) (he_now e))),
       (''correlation'', JObj [(''taskId'', JStr (hq_id req)), (''runId'', JStr (dr_requestId record)),
          (''agentId'', JStr (de_actorId transition)), (''toolCallId'', JNull)]),
       (''payload'', JObj [(''action'', JStr (dual_action_text (dr_action record))),
          (''fromState'', opt_state (de_fromState transition)), (''toState'', JStr (state_text (de_toState transition))),
          (''actorId'', JStr (de_actorId transition)), (''stateVersion'', JNum (dr_stateVersion record)),
          (''signatureVerified'', JBool verified)])]"

definition writeDualApprovalChainEvent :: "http_env \<Rightarrow> json \<Rightarrow> HttpServer \<Rightarrow> HttpServer" where
  "writeDualApprovalChainEvent e data s =
     (case he_append e data (hs_chains s) of
        (Inr _, fs) \<Rightarrow> s\<lparr>hs_chains := fs\<rparr>
      | (Inl _, fs) \<Rightarrow> http_audit ''dual_approval.chain_event'' ''error'' (s\<lparr>hs_chains := fs\<rparr>))"

definition log_transition ::
  "http_env \<Rightarrow> HttpRequest \<Rightarrow> DualApprovalRequest \<Rightarrow> DualApprovalEvent option \<Rightarrow> bool \<Rightarrow> HttpServer \<Rightarrow> HttpServer" where
  "log_transition e req record transition verified s =
     (case transition of
        None \<Rightarrow> s
      | Some t \<Rightarrow> writeDualApprovalChainEvent e (dual_chain_event e req record t verified) s)"

definition last_event :: "DualApprovalEvent list \<Rightarrow> DualApprovalEvent option" where
  "last_event evs = (if evs = [] then None else Some (last evs))"

definition invalid_body :: "http_env \<Rightarrow> string \<Rightarrow> json option \<Rightarrow> thrown" where
  "invalid_body e msg body = App (app_error VALIDATION_ERROR msg 400 [(''issues'', JArr (he_issues e body))])"

definition unavailable :: response where
  "unavailable = Reply 503 (JObj [(''ok'', JBool False), (''error'', JStr ''dual approval repository unavailable'')])"

definition verify_admin ::
  "http_env \<Rightarrow> AdminActionType \<Rightarrow> string \<Rightarrow> string option \<Rightarrow> (string \<times> json) list \<Rightarrow> (thrown, VerifyResult) result" where
  "verify_admin e action actorId signature payload =
     verifyAdminActionSignature (he_crypto e) (host_sha256 (he_host e)) (he_env e) action actorId signature payload"

definition dual_request :: "http_env \<Rightarrow> HttpRequest \<Rightarrow> HttpServer \<Rightarrow> (thrown, response) result \<times> HttpServer" where
  "dual_request e req s =
     (if \<not> hs_repo s then (Inr unavailable, s)
      else (case dualApprovalRequestSchema (hq_body req) of
         None \<Rightarrow> (Inl (invalid_body e ''Invalid dual approval request payload'' (hq_body req)), s)
       | Some d \<Rightarrow>
           (case verify_admin e RequestAction (ci_initiatorId d) (ci_signature d) (request_payload d) of
              Inl x \<Rightarrow> (Inl x, s)
            | Inr check \<Rightarrow>
                (case createRequest (he_host e) (he_ids e 0) (he_ids e 1) (he_now e) d (hs_db s) of
                   (Inl x, db) \<Rightarrow> (Inl x, s\<lparr>hs_db := db\<rparr>)
                 | (Inr record, db) \<Rightarrow>
                     (Inr (Reply 200 (JObj [(''ok'', JBool True), (''request'', request_json record)])),
                      http_audit ''dual_approval.request'' ''allowed''
                        (log_transition e req record (last_event (listEvents (dr_requestId record) db)) (vr_verified check)
                          (s\<lparr>hs_db := db\<rparr>)))))))"

text \<open>\<open>approve\<close> and \<open>cancel\<close> have one handler each, which differ in the schema, the action and the operation.\<close>

definition dual_transition ::
  "string \<Rightarrow> string \<Rightarrow> AdminActionType \<Rightarrow> (json option \<Rightarrow> transition_input option) \<Rightarrow>
   (transition_input \<Rightarrow> (dual_db, DualApprovalRequest) op) \<Rightarrow> http_env \<Rightarrow> HttpRequest \<Rightarrow> HttpServer \<Rightarrow>
   (thrown, response) result \<times> HttpServer" where
  "dual_transition name invalid action schema perform e req s =
     (if \<not> hs_repo s then (Inr unavailable, s)
      else (case schema (hq_body req) of
         None \<Rightarrow> (Inl (invalid_body e invalid (hq_body req)), s)
       | Some d \<Rightarrow>
           (case verify_admin e action (ti_actorId d) (ti_signature d) (transition_payload d) of
              Inl x \<Rightarrow> (Inl x, s)
            | Inr check \<Rightarrow>
                (case perform d (hs_db s) of
                   (Inl x, db) \<Rightarrow> (Inl x, s\<lparr>hs_db := db\<rparr>)
                 | (Inr record, db) \<Rightarrow>
                     (let eventsBefore = length (listEvents (ti_requestId d) (hs_db s));
                          eventsAfter = listEvents (dr_requestId record) db;
                          transition = (if length eventsAfter > eventsBefore then last_event eventsAfter else None)
                      in (Inr (Reply 200 (JObj [(''ok'', JBool True), (''request'', request_json record),
                            (''replayed'', JBool (transition = None))])),
                          http_audit name ''allowed''
                            (log_transition e req record transition (vr_verified check) (s\<lparr>hs_db := db\<rparr>))))))))"

definition dual_approve :: "http_env \<Rightarrow> HttpRequest \<Rightarrow> HttpServer \<Rightarrow> (thrown, response) result \<times> HttpServer" where
  "dual_approve e =
     dual_transition ''dual_approval.approve'' ''Invalid dual approval approve payload'' ApproveAction
       (dualApprovalApproveSchema (he_uuid e)) (approve (he_host e) (he_ids e 1) (he_now e)) e"

definition dual_cancel :: "http_env \<Rightarrow> HttpRequest \<Rightarrow> HttpServer \<Rightarrow> (thrown, response) result \<times> HttpServer" where
  "dual_cancel e =
     dual_transition ''dual_approval.cancel'' ''Invalid dual approval cancel payload'' CancelAction
       (dualApprovalCancelSchema (he_uuid e)) (cancel (he_host e) (he_ids e 1) (he_now e)) e"

definition dual_show :: "string \<Rightarrow> HttpServer \<Rightarrow> (thrown, response) result" where
  "dual_show requestId s =
     (if \<not> hs_repo s then Inl (refusal INTERNAL_ERROR 503 ''dual approval repository unavailable'' None)
      else (case dual_get requestId (hs_db s) of
         None \<Rightarrow> Inl (refusal VALIDATION_ERROR 404 ''dual approval request not found'' (Some [(''requestId'', JStr requestId)]))
       | Some record \<Rightarrow>
           Inr (Reply 200 (JObj [(''ok'', JBool True), (''request'', request_json record),
             (''events'', JArr (map event_json (listEvents (dr_requestId record) (hs_db s))))]))))"

definition run_route ::
  "http_env \<Rightarrow> HttpRoute \<Rightarrow> HttpRequest \<Rightarrow> HttpServer \<Rightarrow> (thrown, response) result \<times> HttpServer" where
  "run_route e route req s =
     (case route of
        DualRequest \<Rightarrow> dual_request e req s
      | DualApprove \<Rightarrow> dual_approve e req s
      | DualCancel \<Rightarrow> dual_cancel e req s
      | DualShow requestId \<Rightarrow> (dual_show requestId s, s)
      | OtherRoute \<Rightarrow> (rbind (he_other e req) (\<lambda>v. Inr (Reply 200 v)), s))"

text \<open>One request: Fastify runs the hook, also for a path without a route, then the handler.\<close>

definition http_handle :: "http_env \<Rightarrow> HttpRequest \<Rightarrow> HttpServer \<Rightarrow> response \<times> HttpServer" where
  "http_handle e req s =
     (case onRequest e req s of
        (Inl response, s) \<Rightarrow> (response, s)
      | (Inr _, s) \<Rightarrow>
          (case he_route e (hq_method req) (hq_url req) of
             None \<Rightarrow> (Reply 404 (JObj [(''error'', JStr ''Not Found'')]), s)
           | Some route \<Rightarrow>
               (case run_route e route req s of
                  (Inr response, s) \<Rightarrow> (response, s)
                | (Inl x, s) \<Rightarrow> (handleHttpError (he_resolve e) x req, s))))"

definition newHttpServer :: "environment \<Rightarrow> bool \<Rightarrow> dual_db \<Rightarrow> chain_fs \<Rightarrow> HttpServer" where
  "newHttpServer env repo db fs =
     \<lparr>hs_apiToken = env ''MEMPHIS_API_TOKEN'', hs_global = globalLimiter, hs_sensitive = sensitiveLimiter, hs_repo = repo,
      hs_db = db, hs_chains = fs, hs_audit = []\<rparr>"

end
