(* ===== verification/HttpLaws.thy ===== *)
theory HttpLaws
  imports HttpServer DualApprovalLaws
begin

text \<open>
  What the HTTP server promises about the dual approvals: a request changes the repository only past every guard,
  the signed message determines what was signed, and in every state reachable through the server an approved
  request was signed by its initiator and by another actor.
\<close>

section \<open>The signed message\<close>

interpretation names: comparator by_name
  unfolding by_name_def [abs_def] by (rule comparator_binary_key)

lemma by_name_map: "map fst (map (\<lambda>(k, v). (k, f v)) kvs) = map fst kvs"
  by (induction kvs) auto

lemma json_wf_canonicalize: "json_wf v \<Longrightarrow> json_wf (canonicalize v)"
proof (induction v rule: canonicalize.induct)
  case (1 vs)
  then show ?case by (simp add: list_all_iff)
next
  case (2 kvs)
  let ?m = "map (\<lambda>(k, v). (k, canonicalize v)) kvs"
  have "mset (map fst (js_sort by_name ?m)) = mset (map fst kvs)"
    by (metis by_name_map mset_js_sort mset_map)
  then have "distinct (map fst (js_sort by_name ?m))"
    using 2(2) by (metis json_wf.simps(2) mset_eq_imp_distinct_iff)
  moreover have "json_wf (snd kv)" if "kv \<in> set (js_sort by_name ?m)" for kv
    using that 2 by (fastforce simp: list_all_iff)
  ultimately show ?case by (simp add: list_all_iff)
qed simp_all

lemma message_inj:
  assumes "json_wf (JObj p)" and "json_wf (JObj p')"
    and "buildAdminSignatureMessage a i p = buildAdminSignatureMessage a' i' p'"
  shows "a = a' \<and> i = i' \<and> canonicalize (JObj p) = canonicalize (JObj p')"
proof -
  let ?m = "\<lambda>a i p. JObj [(''action'', JStr (admin_action_text a)), (''actorId'', JStr i), (''payload'', JObj p)]"
  have "json_wf (?m a i p)" "json_wf (?m a' i' p')" using assms(1,2) by simp_all
  from stringify_inj [OF json_wf_canonicalize [OF this(1)] json_wf_canonicalize [OF this(2)]]
  have "canonicalize (?m a i p) = canonicalize (?m a' i' p')"
    using assms(3) by (simp only: buildAdminSignatureMessage_def)
  then have "admin_action_text a = admin_action_text a' \<and> i = i' \<and> canonicalize (JObj p) = canonicalize (JObj p')"
    by (simp add: by_name_def code_def)
  then show ?thesis by (cases a; cases a'; simp)
qed

lemma payload_wf: "json_wf (JObj (request_payload d))" "json_wf (JObj (transition_payload d'))"
  by (simp_all add: request_payload_def transition_payload_def nullable_text_def split: option.split)

lemma dual_action_inj: "dual_action_text a = dual_action_text b \<Longrightarrow> a = b"
  by (cases a; cases b) simp_all

lemma nullable_text_inj: "nullable_text x = nullable_text y \<Longrightarrow> x = y"
  by (auto simp: nullable_text_def split: option.splits)

lemma canonical_opt: "canonicalize (nullable_text v) = nullable_text v"
  by (simp add: nullable_text_def split: option.split)

lemma request_payload_inj:
  "canonicalize (JObj (request_payload d)) = canonicalize (JObj (request_payload d')) \<Longrightarrow>
   ci_action d = ci_action d' \<and> or_else (ci_ttlMs d) 300000 = or_else (ci_ttlMs d') 300000 \<and> ci_reason d = ci_reason d'"
  by (simp add: request_payload_def by_name_def code_def canonical_opt dual_action_inj nullable_text_inj)

lemma transition_payload_inj:
  "canonicalize (JObj (transition_payload d)) = canonicalize (JObj (transition_payload d')) \<Longrightarrow>
   ti_approvalRequestId d = ti_approvalRequestId d' \<and> ti_requestId d = ti_requestId d' \<and>
   ti_expectedStateVersion d = ti_expectedStateVersion d'"
  by (simp add: transition_payload_def by_name_def code_def)

section \<open>Verification\<close>

text \<open>The registered key of the actor verifies the signature over the message of this action.\<close>

definition signed_by ::
  "crypto_host \<Rightarrow> (string \<Rightarrow> string) \<Rightarrow> environment \<Rightarrow> AdminActionType \<Rightarrow> string \<Rightarrow> (string \<times> json) list \<Rightarrow> string option \<Rightarrow> bool" where
  "signed_by c sha env action actor payload signature =
     (case parseSignatureRegistry c sha env of
        Inl _ \<Rightarrow> False
      | Inr registry \<Rightarrow>
          (case map_of registry actor of
             None \<Rightarrow> False
           | Some pem \<Rightarrow> signature \<noteq> None \<and> is_ok (check_signature c action actor payload pem (or_else signature ''''))))"

lemma verify_accepts:
  assumes "verifyAdminActionSignature c sha env action raw signature payload = Inr vr"
  shows "normalizeIdentity sha raw = Inr (vr_actorId vr) \<and> vr_required vr = signatureRequired env \<and>
    (vr_verified vr \<longleftrightarrow> signed_by c sha env action (vr_actorId vr) payload signature) \<and>
    (signatureRequired env \<longrightarrow> vr_verified vr)"
proof -
  obtain actor where actor: "normalizeIdentity sha raw = Inr actor"
    using assms by (cases "normalizeIdentity sha raw") (auto simp: verifyAdminActionSignature_def)
  obtain reg where reg: "parseSignatureRegistry c sha env = Inr reg"
    using assms actor by (cases "parseSignatureRegistry c sha env") (auto simp: verifyAdminActionSignature_def)
  show ?thesis
  proof (cases "map_of reg actor")
    case None
    with assms actor reg show ?thesis
      by (auto simp: verifyAdminActionSignature_def signed_by_def Let_def split: if_splits)
  next
    case (Some pem)
    show ?thesis
    proof (cases "nonempty (map_option trim signature)")
      case True
      then have "signature \<noteq> None" by (auto simp: nonempty_def)
      moreover obtain u where "check_signature c action actor payload pem (or_else signature '''') = Inr u"
        using assms actor reg Some True
        by (auto simp: verifyAdminActionSignature_def Let_def rbind_Inr_iff)
      ultimately show ?thesis
        using assms actor reg Some True
        by (auto simp: verifyAdminActionSignature_def signed_by_def Let_def)
    next
      case False
      then have "trim (or_else signature '''') = ''''" by (cases signature) (auto simp: nonempty_def)
      then have "\<not> is_ok (check_signature c action actor payload pem (or_else signature ''''))"
        by (auto simp: check_signature_def decodeSignature_def Let_def split: sum.split)
      with assms actor reg Some False show ?thesis
        by (auto simp: verifyAdminActionSignature_def signed_by_def Let_def split: if_splits)
    qed
  qed
qed

section \<open>The hook\<close>

lemma auth_required:
  "\<not> isAuthRequired m p \<Longrightarrow> m = ''GET'' \<and> (p = ''/health'' \<or> p = ''/v1/providers/health'')"
  unfolding isAuthRequired_def apiAuthPolicy_def policy_def
  by (simp split: if_splits)

lemma check_token_passes:
  "check_token req s = (Inr u, s1) \<Longrightarrow>
     s1 = s \<and> nonempty (hs_apiToken s) \<and> hq_authorization req = Some (''Bearer '' @ or_else (hs_apiToken s) '''')"
  by (auto simp: check_token_def split: if_splits)

text \<open>The tables and chains of a server; a guard only touches the limiters and the audit log.\<close>

definition same_data :: "HttpServer \<Rightarrow> HttpServer \<Rightarrow> bool" where
  "same_data s s1 \<longleftrightarrow> hs_db s1 = hs_db s \<and> hs_chains s1 = hs_chains s \<and> hs_apiToken s1 = hs_apiToken s \<and> hs_repo s1 = hs_repo s"

lemma check_token_data: "check_token req s = (r, s1) \<Longrightarrow> same_data s s1"
  by (auto simp: check_token_def same_data_def http_audit_def split: if_splits)

lemma hook_data:
  assumes "onRequest e req s = (r, s1)"
  shows "same_data s s1"
proof -
  have trans: "same_data a b \<Longrightarrow> same_data b c \<Longrightarrow> same_data a c" for a b c by (simp add: same_data_def)
  have lim: "same_data x (x\<lparr>hs_global := l\<rparr>)" "same_data x (x\<lparr>hs_global := l, hs_sensitive := l'\<rparr>)"
    "same_data x (http_audit a b (x\<lparr>hs_global := l\<rparr>))" "same_data x x" for x l l' a b
    by (simp_all add: same_data_def http_audit_def)
  show ?thesis
    using assms unfolding onRequest_def Let_def
    by (auto split: prod.splits sum.splits if_splits intro: lim trans dest: check_token_data)
qed

text \<open>What holds of a request that the hook lets through.\<close>

definition admitted_request :: "http_env \<Rightarrow> HttpRequest \<Rightarrow> HttpServer \<Rightarrow> bool" where
  "admitted_request e req s \<longleftrightarrow>
     (let path = normalizeRoutePath (hq_url req); rev = evaluateRevocationCacheStartup (he_env e) (he_now e)
      in (in_safe_mode (he_env e) \<longrightarrow> isSafeModeAllowedRoute (hq_method req) path) \<and>
         (isRevocationFailClosedRoute (hq_method req) path \<longrightarrow> \<not> (rc_enabled rev \<and> rc_stale rev)) \<and>
         (isAuthRequired (hq_method req) path \<longrightarrow>
            nonempty (hs_apiToken s) \<and> hq_authorization req = Some (''Bearer '' @ or_else (hs_apiToken s) '''')))"

lemma hook_admits:
  assumes "onRequest e req s = (Inr u, s1)"
  shows "admitted_request e req s"
  using assms unfolding onRequest_def Let_def admitted_request_def
  by (auto split: prod.splits sum.splits if_splits dest: check_token_passes)

section \<open>The handlers\<close>

lemma log_transition_db: "hs_db (log_transition e req r t v s) = hs_db s"
  by (auto simp: log_transition_def writeDualApprovalChainEvent_def http_audit_def split: option.split prod.split sum.split)

lemma http_audit_db [simp]: "hs_db (http_audit a b s) = hs_db s"
  by (simp add: http_audit_def)

text \<open>A handler either leaves the tables alone or runs its operation after the signature was verified.\<close>

lemma dual_request_runs:
  assumes "dual_request e req s = (r, s1)"
  shows "hs_db s1 = hs_db s \<or>
    (\<exists>d vr out. verify_admin e RequestAction (ci_initiatorId d) (ci_signature d) (request_payload d) = Inr vr \<and>
       createRequest (he_host e) (he_ids e 0) (he_ids e 1) (he_now e) d (hs_db s) = (out, hs_db s1))"
  using assms unfolding dual_request_def
  by (auto simp: log_transition_db split: if_splits option.splits sum.splits prod.splits)

lemma dual_transition_runs:
  assumes "dual_transition name invalid action schema perform e req s = (r, s1)"
  shows "hs_db s1 = hs_db s \<or>
    (\<exists>d vr out. verify_admin e action (ti_actorId d) (ti_signature d) (transition_payload d) = Inr vr \<and>
       perform d (hs_db s) = (out, hs_db s1))"
  using assms unfolding dual_transition_def Let_def
  by (auto simp: log_transition_db split: if_splits option.splits sum.splits prod.splits)

text \<open>The three administrative operations, each after its verification.\<close>

inductive admin_operation :: "http_env \<Rightarrow> dual_db \<Rightarrow> dual_db \<Rightarrow> bool" for e where
  create: "verify_admin e RequestAction (ci_initiatorId d) (ci_signature d) (request_payload d) = Inr vr \<Longrightarrow>
    createRequest (he_host e) (he_ids e 0) (he_ids e 1) (he_now e) d db = (out, db') \<Longrightarrow> admin_operation e db db'"
| approve: "verify_admin e ApproveAction (ti_actorId t) (ti_signature t) (transition_payload t) = Inr vr \<Longrightarrow>
    approve (he_host e) (he_ids e 1) (he_now e) t db = (out, db') \<Longrightarrow> admin_operation e db db'"
| cancel: "verify_admin e CancelAction (ti_actorId t) (ti_signature t) (transition_payload t) = Inr vr \<Longrightarrow>
    cancel (he_host e) (he_ids e 1) (he_now e) t db = (out, db') \<Longrightarrow> admin_operation e db db'"

lemma route_runs:
  assumes "run_route e route req s = (r, s1)"
  shows "hs_db s1 = hs_db s \<or> (route \<in> {DualRequest, DualApprove, DualCancel} \<and> admin_operation e (hs_db s) (hs_db s1))"
proof (cases route)
  case DualRequest
  with assms dual_request_runs [of e req s r s1] show ?thesis
    by (auto simp: run_route_def intro: admin_operation.create)
next
  case DualApprove
  with assms dual_transition_runs show ?thesis
    by (fastforce simp: run_route_def dual_approve_def intro: admin_operation.approve)
next
  case DualCancel
  with assms dual_transition_runs show ?thesis
    by (fastforce simp: run_route_def dual_cancel_def intro: admin_operation.cancel)
qed (use assms in \<open>simp_all add: run_route_def\<close>)

text \<open>The administrative routes are registered with \<open>app.post\<close>.\<close>

definition posts_only :: "(string \<Rightarrow> string \<Rightarrow> HttpRoute option) \<Rightarrow> bool" where
  "posts_only route \<longleftrightarrow>
     (\<forall>m u r. route m u = Some r \<longrightarrow> r \<in> {DualRequest, DualApprove, DualCancel} \<longrightarrow> m = ''POST'')"

lemma handle_changes:
  assumes "http_handle e req s = (resp, s1)" and "hs_db s1 \<noteq> hs_db s" and "posts_only (he_route e)"
  shows "hq_method req = ''POST'' \<and> admitted_request e req s \<and> admin_operation e (hs_db s) (hs_db s1)"
proof -
  obtain r s0 where hook: "onRequest e req s = (r, s0)" by force
  have data: "hs_db s0 = hs_db s" using hook_data [OF hook] by (simp add: same_data_def)
  obtain u where r: "r = Inr u" using assms(1,2) hook data by (cases r) (auto simp: http_handle_def)
  obtain route where route: "he_route e (hq_method req) (hq_url req) = Some route"
    using assms(1,2) hook data r by (cases "he_route e (hq_method req) (hq_url req)") (auto simp: http_handle_def)
  obtain out s2 where run: "run_route e route req s0 = (out, s2)" by force
  then have "hs_db s1 = hs_db s2" using assms(1) hook r route by (auto simp: http_handle_def split: sum.splits)
  with route_runs [OF run] assms(2) data
  have "route \<in> {DualRequest, DualApprove, DualCancel}" "admin_operation e (hs_db s) (hs_db s1)" by auto
  with assms(3) route have "hq_method req = ''POST''" unfolding posts_only_def by blast
  with \<open>admin_operation e (hs_db s) (hs_db s1)\<close> hook_admits [of e req s u s0] hook r show ?thesis by simp
qed

section \<open>Every row was signed\<close>

definition request_signed ::
  "host \<Rightarrow> crypto_host \<Rightarrow> environment \<Rightarrow> DualApprovalRequest \<Rightarrow> create_input \<Rightarrow> bool" where
  "request_signed h c env row d \<longleftrightarrow>
     ci_action d = dr_action row \<and> ci_reason d = dr_reason row \<and>
     signed_by c (host_sha256 h) env RequestAction (dr_initiatorId row) (request_payload d) (ci_signature d)"

definition approval_signed ::
  "host \<Rightarrow> crypto_host \<Rightarrow> environment \<Rightarrow> DualApprovalRequest \<Rightarrow> string \<Rightarrow> transition_input \<Rightarrow> bool" where
  "approval_signed h c env row actor t \<longleftrightarrow>
     dr_approverId row = Some actor \<and> ti_requestId t = dr_requestId row \<and>
     signed_by c (host_sha256 h) env ApproveAction actor (transition_payload t) (dr_signature row)"

definition row_signed :: "host \<Rightarrow> crypto_host \<Rightarrow> environment \<Rightarrow> DualApprovalRequest \<Rightarrow> bool" where
  "row_signed h c env row \<longleftrightarrow>
     (\<exists>d. request_signed h c env row d) \<and> (dr_state row = DApproved \<longrightarrow> (\<exists>actor t. approval_signed h c env row actor t))"

definition rows_signed :: "host \<Rightarrow> crypto_host \<Rightarrow> environment \<Rightarrow> dual_db \<Rightarrow> bool" where
  "rows_signed h c env db \<longleftrightarrow> (\<forall>rid row. map_of (da_requests db) rid = Some row \<longrightarrow> row_signed h c env row)"

lemma rows_signed_update:
  "rows_signed h c env db \<Longrightarrow> row_signed h c env new \<Longrightarrow> da_requests db' = AList.update rid new (da_requests db) \<Longrightarrow>
   rows_signed h c env db'"
  by (auto simp: rows_signed_def map_of_update)

lemma rows_signed_same: "rows_signed h c env db \<Longrightarrow> da_requests db' = da_requests db \<Longrightarrow> rows_signed h c env db'"
  by (simp add: rows_signed_def)

text \<open>A change of the row that keeps what was requested and does not approve keeps the signature.\<close>

lemma row_signed_moved:
  assumes "row_signed h c env row" and "dr_state new \<noteq> DApproved"
    and "dr_action new = dr_action row" and "dr_reason new = dr_reason row" and "dr_initiatorId new = dr_initiatorId row"
  shows "row_signed h c env new"
  using assms by (auto simp: row_signed_def request_signed_def)

lemma create_signed:
  assumes "rows_signed h c env db" and "createRequest h rid eid now d db = (r, db')"
    and "normalizeIdentity (host_sha256 h) (ci_initiatorId d) = Inr actor"
    and "signed_by c (host_sha256 h) env RequestAction actor (request_payload d) (ci_signature d)"
  shows "rows_signed h c env db'"
proof -
  have "da_requests db' = da_requests db \<or>
    (\<exists>row. da_requests db' = da_requests db @ [(rid, row)] \<and> dr_state row = DPending \<and> dr_action row = ci_action d \<and>
       dr_reason row = ci_reason d \<and> dr_initiatorId row = actor)"
    using assms(2,3) by (auto simp: createRequest_def Let_def insertRequest_def insertEvent_def split: if_splits prod.splits sum.splits)
  moreover have "row_signed h c env row" if "dr_state row = DPending" "dr_action row = ci_action d"
    "dr_reason row = ci_reason d" "dr_initiatorId row = actor" for row
    using that assms(4) by (auto simp: row_signed_def request_signed_def)
  ultimately show ?thesis
    using assms(1) by (auto simp: rows_signed_def map_of_append map_add_def split: option.splits if_splits)
qed

lemma approve_signed:
  assumes "rows_signed h c env db" and "dual_ok db" and "approve h eid now t db = (r, db')"
    and "normalizeIdentity (host_sha256 h) (ti_actorId t) = Inr actor"
    and "signed_by c (host_sha256 h) env ApproveAction actor (transition_payload t) (ti_signature t)"
  shows "rows_signed h c env db'"
proof (cases r)
  case (Inl x)
  then have "db' = db" using assms(3,4) by (auto simp: approve_def dest: transaction_Inl)
  with assms(1) show ?thesis by simp
next
  case (Inr a)
  then have "approve_tx eid (host_iso h now) now t actor db = (Inr a, db')"
    using assms(3,4) by (simp add: approve_def transaction_Inr)
  then show ?thesis
  proof (cases rule: approve_tx_Inr)
    case (settle row st)
    have old: "row_signed h c env row" "dr_requestId row = ti_requestId t"
      using assms(1,2) settle(2) by (auto simp: rows_signed_def dual_ok_def row_ok_def)
    have "row_signed h c env (approved_row t actor (host_iso h now) st row)"
    proof (cases "st = DApproved")
      case True
      then show ?thesis using old assms(5)
        by (auto simp: row_signed_def request_signed_def approval_signed_def approved_row_def)
    next
      case False
      then show ?thesis by (intro row_signed_moved [OF old(1)]) (simp_all add: approved_row_def)
    qed
    then show ?thesis
      by (rule rows_signed_update [OF assms(1)]) (simp add: settle(4,5) settled_def)
  qed (use assms(1) in simp)
qed

lemma cancel_signed:
  assumes "rows_signed h c env db" and "cancel h eid now t db = (r, db')"
  shows "rows_signed h c env db'"
proof (cases r)
  case (Inl x)
  then have "db' = db" using assms(2) by (auto simp: cancel_def dest: transaction_Inl split: sum.splits)
  with assms(1) show ?thesis by simp
next
  case (Inr a)
  then obtain actor where "cancel_tx eid (host_iso h now) t actor db = (Inr a, db')"
    using assms(2) by (auto simp: cancel_def transaction_Inr split: sum.splits)
  then show ?thesis
  proof (cases rule: cancel_tx_Inr)
    case (settle row)
    have "row_signed h c env row" using assms(1) settle(2) by (simp add: rows_signed_def)
    then have "row_signed h c env a" by (rule row_signed_moved) (simp_all add: settle(4))
    then show ?thesis by (rule rows_signed_update [OF assms(1)]) (simp add: settle(5) settled_def)
  qed (use assms(1) in simp)
qed

lemma expire_rows_signed:
  "rows_signed h c env db \<Longrightarrow> expire_rows ids at rids n db = (r, db') \<Longrightarrow> rows_signed h c env db'"
proof (induction ids at rids n db rule: expire_rows.induct)
  case (2 ids at rid rids n db)
  let ?ch = "\<lambda>r. r\<lparr>dr_state := DExpired, dr_stateVersion := dr_stateVersion r + 1, dr_updatedAt := at\<rparr>"
  obtain u db1 where upd: "updateRequest rid (\<lambda>r. dr_state r = DPending) ?ch db = (u, db1)" by force
  have "row_signed h c env (?ch row)" if "map_of (da_requests db) rid = Some row" for row
    by (rule row_signed_moved [of h c env row]) (use "2.prems"(1) that in \<open>auto simp: rows_signed_def\<close>)
  then have db1: "rows_signed h c env db1"
    using "2.prems"(1) upd by (auto simp: updateRequest_def rows_signed_def map_of_update split: option.splits if_splits)
  show ?case
  proof (cases "u = Inr 1")
    case False
    with "2.prems"(2) upd db1 "2.IH"(1) [OF upd [symmetric] _ _ db1] show ?thesis by (auto split: sum.splits if_splits simp: comp_def)
  next
    case True
    obtain v db2 where ins: "insertEvent \<lparr>de_eventId = ids 0, de_requestId = rid, de_fromState = Some DPending,
        de_toState = DExpired, de_actorId = ''system'', de_signature = None, de_createdAt = at\<rparr> db1 = (v, db2)" by force
    have "rows_signed h c env db2"
      by (rule rows_signed_same [OF db1]) (use ins in \<open>auto simp: insertEvent_def split: if_splits\<close>)
    with "2.prems"(2) upd True ins "2.IH"(2) [OF upd [symmetric] True _ ins [symmetric] _ \<open>rows_signed h c env db2\<close>]
    show ?thesis by (auto split: sum.splits simp: comp_def)
  qed
qed simp

lemma expire_signed:
  "rows_signed h c env db \<Longrightarrow> expirePending h ids now db = (n, db') \<Longrightarrow> rows_signed h c env db'"
  using expire_rows_signed by (fastforce simp: expirePending_def transaction_def split: prod.splits sum.splits)

section \<open>Properties\<close>

text \<open>The three kinds of content an administrator signs.\<close>

datatype signed_content = SignRequest create_input | SignApprove transition_input | SignCancel transition_input

fun signed_message :: "string \<Rightarrow> signed_content \<Rightarrow> string" where
  "signed_message actor (SignRequest d) = buildAdminSignatureMessage RequestAction actor (request_payload d)"
| "signed_message actor (SignApprove t) = buildAdminSignatureMessage ApproveAction actor (transition_payload t)"
| "signed_message actor (SignCancel t) = buildAdminSignatureMessage CancelAction actor (transition_payload t)"

definition same_transition :: "transition_input \<Rightarrow> transition_input \<Rightarrow> bool" where
  "same_transition t t' \<longleftrightarrow>
     ti_approvalRequestId t = ti_approvalRequestId t' \<and> ti_requestId t = ti_requestId t' \<and>
     ti_expectedStateVersion t = ti_expectedStateVersion t'"

fun same_content :: "signed_content \<Rightarrow> signed_content \<Rightarrow> bool" where
  "same_content (SignRequest d) (SignRequest d') =
     (ci_action d = ci_action d' \<and> or_else (ci_ttlMs d) 300000 = or_else (ci_ttlMs d') 300000 \<and> ci_reason d = ci_reason d')"
| "same_content (SignApprove t) (SignApprove t') = same_transition t t'"
| "same_content (SignCancel t) (SignCancel t') = same_transition t t'"
| "same_content _ _ = False"

lemma same_transition_payload: "same_transition t t' \<Longrightarrow> transition_payload t = transition_payload t'"
  by (simp add: same_transition_def transition_payload_def)

lemma same_request_payload: "same_content (SignRequest d) (SignRequest d') \<Longrightarrow> request_payload d = request_payload d'"
  by (simp add: request_payload_def)

text \<open>
  The message an administrator signs determines the actor, the kind of action and every signed field of it:
  two messages are equal exactly when these are (a request without a lifetime is signed with the default).
\<close>

theorem admin_message_binds:
  "signed_message actor x = signed_message actor' x' \<longleftrightarrow> actor = actor' \<and> same_content x x'"
proof
  assume eq: "signed_message actor x = signed_message actor' x'"
  show "actor = actor' \<and> same_content x x'"
    using eq
    by (cases x; cases x')
      (auto simp: same_transition_def dest!: message_inj [OF payload_wf(1) payload_wf(1)] message_inj [OF payload_wf(2) payload_wf(2)]
         message_inj [OF payload_wf(1) payload_wf(2)] message_inj [OF payload_wf(2) payload_wf(1)]
         request_payload_inj transition_payload_inj)
next
  assume "actor = actor' \<and> same_content x x'"
  then show "signed_message actor x = signed_message actor' x'"
    by (cases x; cases x') (auto dest!: same_request_payload same_transition_payload simp del: same_content.simps(1))
qed

text \<open>
  C8: A request to the HTTP server changes the table of dual approvals only as a \<open>POST\<close> outside safe mode that
  carries the configured token, whose path, when it is literally one of the fail-closed routes, meets a fresh
  revocation cache; and the change is one administrative operation whose signature check succeeded.
\<close>

theorem http_admin_change_authorised:
  assumes "http_handle e req s = (resp, s1)" and "hs_db s1 \<noteq> hs_db s" and "posts_only (he_route e)"
  shows "hq_method req = ''POST'' \<and> \<not> in_safe_mode (he_env e) \<and> nonempty (hs_apiToken s) \<and>
    hq_authorization req = Some (''Bearer '' @ or_else (hs_apiToken s) '''') \<and>
    (normalizeRoutePath (hq_url req) \<in> set REVOCATION_FAIL_CLOSED_ROUTES \<longrightarrow>
       \<not> (rc_enabled (evaluateRevocationCacheStartup (he_env e) (he_now e)) \<and>
          rc_stale (evaluateRevocationCacheStartup (he_env e) (he_now e)))) \<and>
    admin_operation e (hs_db s) (hs_db s1)"
proof -
  have h: "hq_method req = ''POST''" "admitted_request e req s" "admin_operation e (hs_db s) (hs_db s1)"
    using handle_changes [OF assms] by simp_all
  have "isAuthRequired ''POST'' p" for p using auth_required [of "''POST''" p] by auto
  with h show ?thesis
    by (simp add: admitted_request_def Let_def isSafeModeAllowedRoute_def isRevocationFailClosedRoute_def)
qed

text \<open>
  The states the server reaches from an empty table, in one environment: any requests, served at any time with any
  fresh identifiers, and sweeps of the expired requests.
\<close>

inductive http_run :: "host \<Rightarrow> crypto_host \<Rightarrow> environment \<Rightarrow> HttpServer \<Rightarrow> bool" for h c env where
  start: "http_run h c env (newHttpServer env True empty_dual fs)"
| request: "http_run h c env s \<Longrightarrow> he_host e = h \<Longrightarrow> he_crypto e = c \<Longrightarrow> he_env e = env \<Longrightarrow> posts_only (he_route e) \<Longrightarrow>
    he_ids e 1 \<notin> de_eventId ` set (da_events (hs_db s)) \<Longrightarrow> http_handle e req s = (resp, s1) \<Longrightarrow> http_run h c env s1"
| sweep: "http_run h c env s \<Longrightarrow> expirePending h ids now (hs_db s) = (n, db) \<Longrightarrow> http_run h c env (s\<lparr>hs_db := db\<rparr>)"

lemma admin_operation_step:
  "admin_operation e db db' \<Longrightarrow> he_ids e 1 \<notin> de_eventId ` set (da_events db) \<Longrightarrow> dual_step (he_host e) db db'"
  by (cases rule: admin_operation.cases) (auto intro: dual_step.intros)

lemma admin_operation_signed:
  assumes "admin_operation e db db'" and "signatureRequired (he_env e)" and "dual_ok db"
    and "rows_signed (he_host e) (he_crypto e) (he_env e) db"
  shows "rows_signed (he_host e) (he_crypto e) (he_env e) db'"
  using assms(1)
proof (cases rule: admin_operation.cases)
  case (create d vr out)
  with verify_accepts [OF create(1) [unfolded verify_admin_def]] assms show ?thesis by (auto intro: create_signed)
next
  case (approve t vr out)
  with verify_accepts [OF approve(1) [unfolded verify_admin_def]] assms show ?thesis by (auto intro: approve_signed)
next
  case (cancel t vr out)
  with assms show ?thesis by (auto intro: cancel_signed)
qed

lemma http_run_invariant:
  "http_run h c env s \<Longrightarrow> signatureRequired env \<Longrightarrow> dual_reachable h (hs_db s) \<and> rows_signed h c env (hs_db s)"
proof (induction rule: http_run.induct)
  case (start fs)
  then show ?case by (simp add: newHttpServer_def rows_signed_def empty_dual_def dual_reachable.start [unfolded empty_dual_def])
next
  case (request s e req resp s1)
  show ?case
  proof (cases "hs_db s1 = hs_db s")
    case False
    with handle_changes [OF request.hyps(7) False request.hyps(5)]
    have op: "admin_operation e (hs_db s) (hs_db s1)" by simp
    with request show ?thesis
      using admin_operation_signed [OF op] admin_operation_step [OF op] dual_reachable_ok
      by (auto intro: dual_reachable.step)
  qed (use request in simp)
next
  case (sweep s ids now n db)
  then show ?case by (auto intro: expire_signed dual_reachable.step dual_step.expire)
qed

text \<open>
  C2: Non-repudiation of a freeze. Where signatures are required, in every state the server reaches an approved
  request carries two signatures that verify under the keys registered for two different actors: the initiator's
  over this action and reason, and the approver's over an approval of this very request.
\<close>

theorem http_approved_was_signed_twice:
  assumes "http_run h c env s" and "signatureRequired env" and "map_of (da_requests (hs_db s)) rid = Some row"
    and "dr_state row = DApproved"
  shows "\<exists>d actor t. request_signed h c env row d \<and> approval_signed h c env row actor t \<and> ti_requestId t = rid \<and>
    actor \<noteq> dr_initiatorId row"
proof -
  have inv: "dual_reachable h (hs_db s)" "rows_signed h c env (hs_db s)"
    using http_run_invariant [OF assms(1,2)] by simp_all
  have ok: "row_ok (hs_db s) rid row" using dual_reachable_ok [OF inv(1)] assms(3) by (simp add: dual_ok_def)
  from inv(2) assms(3,4) obtain d actor t where
    "request_signed h c env row d" "approval_signed h c env row actor t"
    unfolding rows_signed_def row_signed_def by blast
  with ok assms(4) show ?thesis by (fastforce simp: row_ok_def approval_signed_def)
qed

section \<open>A frozen agent\<close>

text \<open>
  Two administrators, production, and a revocation cache that was never filled. The router decodes \<open>%74\<close>, so both
  calls reach their handlers past a guard that compares the encoded path. A signature is the key itself.
\<close>

definition demo_crypto :: crypto_host where
  "demo_crypto = \<lparr>cy_createPublicKey = Inr, cy_verify = (\<lambda>m k sg. sg = k), cy_decode = (\<lambda>_ s. s), cy_parse_error = (\<lambda>_. '''')\<rparr>"

definition demo_env :: environment where
  "demo_env = map_of [(''MEMPHIS_API_TOKEN'', ''tok''), (''NODE_ENV'', ''production''),
     (''MEMPHIS_ADMIN_PUBLIC_KEYS_JSON'', JSON_stringify (JObj [(''al'', JStr ''ka''), (''bo'', JStr ''kb'')])),
     (''MEMPHIS_REVOCATION_CACHE_REQUIRED'', ''true'')]"

definition demo_route :: "string \<Rightarrow> string \<Rightarrow> HttpRoute option" where
  "demo_route m u =
     (if m \<noteq> ''POST'' then None
      else if u = ''/v1/admin/dual-approval/reques%74'' then Some DualRequest
      else if u = ''/v1/admin/dual-approval/approv%65'' then Some DualApprove else None)"

definition demo_http :: "int \<Rightarrow> string \<Rightarrow> http_env" where
  "demo_http now eid =
     \<lparr>he_env = demo_env, he_now = now, he_ids = (\<lambda>n. if n = 0 then ''r'' else eid), he_host = demo_host,
      he_crypto = demo_crypto, he_uuid = (\<lambda>s. s \<noteq> ''''), he_issues = (\<lambda>_. []), he_resolve = (\<lambda>s. s),
      he_route = demo_route, he_other = (\<lambda>_. Inr JNull), he_append = (\<lambda>_ fs. (Inl ''no chain'', fs))\<rparr>"

definition demo_post :: "string \<Rightarrow> (string \<times> json) list \<Rightarrow> HttpRequest" where
  "demo_post url body = \<lparr>hq_method = ''POST'', hq_url = url, hq_ip = ''::1'', hq_authorization = Some ''Bearer tok'',
     hq_body = Some (JObj body), hq_id = ''q''\<rparr>"

definition demo_freeze :: HttpRequest where
  "demo_freeze = demo_post ''/v1/admin/dual-approval/reques%74''
     [(''action'', JStr ''freeze''), (''initiatorId'', JStr ''al''), (''ttlMs'', JNum 9), (''signature'', JStr ''ka'')]"

definition demo_consent :: HttpRequest where
  "demo_consent = demo_post ''/v1/admin/dual-approval/approv%65''
     [(''approvalRequestId'', JStr ''k''), (''requestId'', JStr ''r''), (''approverId'', JStr ''bo''),
      (''expectedStateVersion'', JNum 0), (''signature'', JStr ''kb'')]"

definition demo_start :: HttpServer where
  "demo_start = newHttpServer demo_env True empty_dual (\<lambda>_. None)"

definition demo_asked :: HttpServer where
  "demo_asked = snd (http_handle (demo_http 5 ''e0'') demo_freeze demo_start)"

definition demo_frozen :: HttpServer where
  "demo_frozen = snd (http_handle (demo_http 6 ''e1'') demo_consent demo_asked)"

lemma demo_posts: "posts_only (he_route (demo_http now eid))"
  by (auto simp: posts_only_def demo_http_def demo_route_def split: if_splits)

lemma demo_asked_pending: "map_option dr_state (map_of (da_requests (hs_db demo_asked)) ''r'') = Some DPending"
  by code_simp

lemma demo_asked_events: "map de_eventId (da_events (hs_db demo_asked)) = [''e0'']"
  by code_simp

lemma demo_frozen_approved: "map_option dr_state (map_of (da_requests (hs_db demo_frozen)) ''r'') = Some DApproved"
  by code_simp

lemma demo_environment: "signatureRequired demo_env" "rc_stale (evaluateRevocationCacheStartup demo_env 5)"
  by code_simp+

text \<open>The revocation cache is stale, and still the encoded path changes the table.\<close>

lemma http_admin_change_authorised_witness:
  "hs_db demo_asked \<noteq> hs_db demo_start \<and> rc_stale (evaluateRevocationCacheStartup demo_env 5) \<and>
   hq_authorization demo_freeze = Some (''Bearer '' @ or_else (hs_apiToken demo_start) '''') \<and>
   admin_operation (demo_http 5 ''e0'') (hs_db demo_start) (hs_db demo_asked)"
proof -
  have run: "http_handle (demo_http 5 ''e0'') demo_freeze demo_start =
      (fst (http_handle (demo_http 5 ''e0'') demo_freeze demo_start), demo_asked)"
    by (simp add: demo_asked_def)
  have "hs_db demo_asked \<noteq> hs_db demo_start"
    using demo_asked_pending by (auto simp: demo_start_def newHttpServer_def empty_dual_def)
  with http_admin_change_authorised [OF run this demo_posts] demo_environment(2) show ?thesis by blast
qed

lemma demo_http_run: "http_run demo_host demo_crypto demo_env demo_frozen"
proof -
  have fields: "he_host (demo_http now eid) = demo_host" "he_crypto (demo_http now eid) = demo_crypto"
    "he_env (demo_http now eid) = demo_env" "he_ids (demo_http now eid) 1 = eid" for now eid
    by (simp_all add: demo_http_def)
  have run: "http_handle (demo_http 5 ''e0'') demo_freeze demo_start =
      (fst (http_handle (demo_http 5 ''e0'') demo_freeze demo_start), demo_asked)"
    "http_handle (demo_http 6 ''e1'') demo_consent demo_asked =
      (fst (http_handle (demo_http 6 ''e1'') demo_consent demo_asked), demo_frozen)"
    by (simp_all add: demo_asked_def demo_frozen_def)
  have "he_ids (demo_http 5 ''e0'') 1 \<notin> de_eventId ` set (da_events (hs_db demo_start))"
    by (simp add: demo_start_def newHttpServer_def empty_dual_def)
  moreover have "http_run demo_host demo_crypto demo_env demo_start" unfolding demo_start_def by (rule http_run.start)
  ultimately have "http_run demo_host demo_crypto demo_env demo_asked"
    using http_run.request [OF _ fields(1-3) demo_posts _ run(1)] by blast
  moreover have "he_ids (demo_http 6 ''e1'') 1 \<notin> de_eventId ` set (da_events (hs_db demo_asked))"
    unfolding set_map [symmetric] demo_asked_events fields by simp
  ultimately show ?thesis
    using http_run.request [OF _ fields(1-3) demo_posts _ run(2)] by blast
qed

lemma http_approved_was_signed_twice_witness:
  "\<exists>row d actor t. map_of (da_requests (hs_db demo_frozen)) ''r'' = Some row \<and>
     request_signed demo_host demo_crypto demo_env row d \<and> approval_signed demo_host demo_crypto demo_env row actor t \<and>
     actor \<noteq> dr_initiatorId row"
proof -
  obtain row where row: "map_of (da_requests (hs_db demo_frozen)) ''r'' = Some row" "dr_state row = DApproved"
    using demo_frozen_approved by auto
  from http_approved_was_signed_twice [OF demo_http_run demo_environment(1) row] row(1) show ?thesis by blast
qed

end
