(* ===== verification/Hnsw.thy ===== *)
theory Hnsw
  imports Prelude Errors
begin

text \<open>
  The index of embedding vectors (\<open>infra/embeddings/hnsw-index.ts\<close>): a graph of nodes with bounded neighbour
  sets, searched from an entry point with a beam of \<open>ef\<close> nodes.

  Arithmetic on floating-point numbers is a parameter: the operations of a type \<open>'s\<close> of numbers in a linear order
  (no score is NaN). A \<open>Set\<close> is the list of its elements in the order of insertion. Vectors of one index have the
  same length, which \<open>assertVector\<close> checks, so \<open>cosine\<close> never reads past the end.
\<close>

record 's float_ops =
  fo_zero :: 's
  fo_one :: 's
  fo_minus_one :: 's
  fo_add :: "'s \<Rightarrow> 's \<Rightarrow> 's"
  fo_mul :: "'s \<Rightarrow> 's \<Rightarrow> 's"
  fo_div :: "'s \<Rightarrow> 's \<Rightarrow> 's"
  fo_hypot :: "'s list \<Rightarrow> 's"

definition vec_normalize :: "'s float_ops \<Rightarrow> 's list \<Rightarrow> 's list" where
  "vec_normalize h vec =
     (let norm = (if fo_hypot h vec = fo_zero h then fo_one h else fo_hypot h vec) in map (\<lambda>v. fo_div h v norm) vec)"

definition vec_cosine :: "'s float_ops \<Rightarrow> 's list \<Rightarrow> 's list \<Rightarrow> 's" where
  "vec_cosine h a b = fold (\<lambda>(x, y) total. fo_add h total (fo_mul h x y)) (zip a b) (fo_zero h)"

record 's NodeEntry =
  hn_vector :: "'s list"
  hn_neighbors :: "string list"

record 's HnswIndex =
  hx_dimensions :: nat
  hx_maxNeighbors :: nat
  hx_efSearch :: nat
  hx_nodes :: "(string, 's NodeEntry) jsmap"
  hx_entryPointId :: "string option"

type_synonym 's scored = "string \<times> 's"

definition newHnswIndex :: "nat \<Rightarrow> nat option \<Rightarrow> nat option \<Rightarrow> 's HnswIndex" where
  "newHnswIndex dimensions maxNeighbors efSearch =
     \<lparr>hx_dimensions = dimensions, hx_maxNeighbors = max 2 (or_else maxNeighbors 16),
      hx_efSearch = max 4 (or_else efSearch 32), hx_nodes = [], hx_entryPointId = None\<rparr>"

definition set_add :: "string \<Rightarrow> string list \<Rightarrow> string list" where
  "set_add x xs = (if x \<in> set xs then xs else xs @ [x])"

section \<open>Search\<close>

function insert_index :: "('s :: linorder) scored list \<Rightarrow> 's \<Rightarrow> nat \<Rightarrow> nat \<Rightarrow> nat" where
  "insert_index items score lo hi =
     (if lo < hi then
        (let mid = (lo + hi) div 2
         in if score > snd (items ! mid) then insert_index items score lo mid else insert_index items score (mid + 1) hi)
      else lo)"
  by pat_completeness auto
termination
  by (relation "measure (\<lambda>(_, _, lo, hi). hi - lo)") auto

declare insert_index.simps [simp del]

definition findInsertIndexDesc :: "('s :: linorder) scored list \<Rightarrow> 's \<Rightarrow> nat" where
  "findInsertIndexDesc items score = insert_index items score 0 (length items)"

definition splice_in :: "('s :: linorder) scored \<Rightarrow> 's scored list \<Rightarrow> 's scored list" where
  "splice_in c items = (let idx = findInsertIndexDesc items (snd c) in take idx items @ c # drop idx items)"

definition push_best :: "nat \<Rightarrow> ('s :: linorder) scored \<Rightarrow> 's scored list \<Rightarrow> 's scored list" where
  "push_best ef c best = (let b = splice_in c best in if length b > ef then butlast b else b)"

text \<open>\<open>worstBest\<close> is \<open>None\<close> for \<open>Number.NEGATIVE_INFINITY\<close>.\<close>

definition worst_best :: "'s scored list \<Rightarrow> 's option" where
  "worst_best best = (if best = [] then None else Some (snd (last best)))"

definition above :: "('s :: linorder) \<Rightarrow> 's option \<Rightarrow> bool" where
  "above score worst = (case worst of None \<Rightarrow> True | Some w \<Rightarrow> score > w)"

definition below :: "('s :: linorder) \<Rightarrow> 's option \<Rightarrow> bool" where
  "below score worst = (case worst of None \<Rightarrow> False | Some w \<Rightarrow> score < w)"

type_synonym 's beam = "string list \<times> 's scored list \<times> 's scored list"

definition visit_neighbor ::
  "('s :: linorder) float_ops \<Rightarrow> (string, 's NodeEntry) jsmap \<Rightarrow> 's list \<Rightarrow> nat \<Rightarrow> 's option \<Rightarrow> string \<Rightarrow> 's beam \<Rightarrow> 's beam" where
  "visit_neighbor h nodes query ef worstBest neighborId =
     (\<lambda>(visited, candidates, best).
        if neighborId \<in> set visited then (visited, candidates, best)
        else (case map_of nodes neighborId of
           None \<Rightarrow> (visited @ [neighborId], candidates, best)
         | Some neighbor \<Rightarrow>
             (let score = vec_cosine h query (hn_vector neighbor)
              in if length best < ef \<or> above score worstBest then
                   (visited @ [neighborId], splice_in (neighborId, score) candidates, push_best ef (neighborId, score) best)
                 else (visited @ [neighborId], candidates, best))))"

text \<open>One iteration of the loop ends it (\<open>None\<close>) or goes on with another beam.\<close>

definition search_step ::
  "('s :: linorder) float_ops \<Rightarrow> (string, 's NodeEntry) jsmap \<Rightarrow> 's list \<Rightarrow> nat \<Rightarrow> 's beam \<Rightarrow> 's beam option" where
  "search_step h nodes query ef =
     (\<lambda>(visited, candidates, best).
        case candidates of
          [] \<Rightarrow> None
        | current # rest \<Rightarrow>
            if length visited \<ge> length nodes then None
            else if length best \<ge> ef \<and> below (snd current) (worst_best best) then None
            else (case map_of nodes (fst current) of
               None \<Rightarrow> Some (visited, rest, best)
             | Some node \<Rightarrow>
                 Some (fold (visit_neighbor h nodes query ef (worst_best best)) (hn_neighbors node) (visited, rest, best))))"

definition unvisited :: "(string, 's NodeEntry) jsmap \<Rightarrow> 's beam \<Rightarrow> nat" where
  "unvisited nodes = (\<lambda>(visited, candidates, best). card (set (keys nodes) - set visited) + length candidates)"

lemma length_splice_in [simp]: "length (splice_in c xs) = Suc (length xs)"
  by (simp add: splice_in_def Let_def)

lemma visit_unvisited: "unvisited nodes (visit_neighbor h nodes query ef w nb b) \<le> unvisited nodes b"
proof -
  obtain v c bs where b: "b = (v, c, bs)" by (metis surj_pair)
  have less: "Suc (card (set (keys nodes) - set (v @ [nb]))) = card (set (keys nodes) - set v)"
    if "nb \<notin> set v" "map_of nodes nb = Some n" for n
  proof -
    have "nb \<in> set (keys nodes) - set v" using that map_of_SomeD' by simp
    then have "Suc (card (set (keys nodes) - set v - {nb})) = card (set (keys nodes) - set v)"
      by (intro card_Suc_Diff1) auto
    moreover have "set (keys nodes) - set (v @ [nb]) = set (keys nodes) - set v - {nb}" by auto
    ultimately show ?thesis by metis
  qed
  have "card (set (keys nodes) - set (v @ [nb])) \<le> card (set (keys nodes) - set v)"
    by (intro card_mono) auto
  then show ?thesis
    using less by (auto simp: b visit_neighbor_def unvisited_def Let_def split: option.split)
qed

lemma visits_unvisited: "unvisited nodes (fold (visit_neighbor h nodes query ef w) ns b) \<le> unvisited nodes b"
proof (induction ns arbitrary: b)
  case (Cons n ns)
  show ?case
    using Cons.IH [of "visit_neighbor h nodes query ef w n b"] visit_unvisited [of nodes h query ef w n b]
    by (simp only: fold_simps)
qed simp

lemma search_step_unvisited: "search_step h nodes query ef b = Some b' \<Longrightarrow> unvisited nodes b' < unvisited nodes b"
proof -
  assume step: "search_step h nodes query ef b = Some b'"
  obtain v c bs where b: "b = (v, c, bs)" by (metis surj_pair)
  obtain current rest where c: "c = current # rest" using step by (cases c) (auto simp: search_step_def b)
  have "unvisited nodes b' \<le> unvisited nodes (v, rest, bs)"
    using step visits_unvisited [of nodes h query ef "worst_best bs" _ "(v, rest, bs)"]
    by (auto simp: search_step_def b c split: if_splits option.splits)
  then show ?thesis by (simp add: b c unvisited_def)
qed

function search_loop ::
  "('s :: linorder) float_ops \<Rightarrow> (string, 's NodeEntry) jsmap \<Rightarrow> 's list \<Rightarrow> nat \<Rightarrow> 's beam \<Rightarrow> 's beam" where
  "search_loop h nodes query ef b =
     (case search_step h nodes query ef b of None \<Rightarrow> b | Some b' \<Rightarrow> search_loop h nodes query ef b')"
  by pat_completeness auto
termination
  by (relation "measure (\<lambda>(h, nodes, query, ef, b). unvisited nodes b)") (auto intro: search_step_unvisited)

declare search_loop.simps [simp del]

text \<open>An empty identifier counts as none.\<close>

definition given_id :: "string option \<Rightarrow> string option" where
  "given_id v = (if v = Some [] then None else v)"

definition pickEntryPoint :: "'s HnswIndex \<Rightarrow> (string \<times> 's NodeEntry) option \<times> 's HnswIndex" where
  "pickEntryPoint ix =
     (case Option.bind (given_id (hx_entryPointId ix)) (\<lambda>i. map_option (Pair i) (map_of (hx_nodes ix) i)) of
        Some pinned \<Rightarrow> (Some pinned, ix)
      | None \<Rightarrow>
          (case hx_nodes ix of
             [] \<Rightarrow> (None, ix)
           | first # _ \<Rightarrow> (Some first, ix\<lparr>hx_entryPointId := Some (fst first)\<rparr>)))"

definition search_beam :: "('s :: linorder) float_ops \<Rightarrow> 's list \<Rightarrow> nat \<Rightarrow> string \<times> 's NodeEntry \<Rightarrow> 's HnswIndex \<Rightarrow> 's beam" where
  "search_beam h query k entry ix =
     (let ef = max k (hx_efSearch ix); seed = (fst entry, vec_cosine h query (hn_vector (snd entry)))
      in search_loop h (hx_nodes ix) query ef ([fst entry], splice_in seed [], push_best ef seed []))"

definition searchInternal ::
  "('s :: linorder) float_ops \<Rightarrow> 's list \<Rightarrow> nat \<Rightarrow> 's HnswIndex \<Rightarrow> 's scored list \<times> 's HnswIndex" where
  "searchInternal h query k ix =
     (if length (hx_nodes ix) = 0 then ([], ix)
      else (case pickEntryPoint ix of
         (None, ix) \<Rightarrow> ([], ix)
       | (Some entry, ix) \<Rightarrow>
           (case search_beam h query k entry ix of (visited, candidates, best) \<Rightarrow> (take k best, ix))))"

definition assertVector :: "'s float_ops \<Rightarrow> 's list \<Rightarrow> 's HnswIndex \<Rightarrow> (string, unit) result" where
  "assertVector h vector ix =
     (if length vector \<noteq> hx_dimensions ix then
        Inl (''invalid vector size: expected '' @ show_nat (hx_dimensions ix) @ '', got '' @ show_nat (length vector))
      else Inr ())"

definition hnsw_search ::
  "('s :: linorder) float_ops \<Rightarrow> 's list \<Rightarrow> nat \<Rightarrow> 's HnswIndex \<Rightarrow> (string, 's scored list) result \<times> 's HnswIndex" where
  "hnsw_search h query k ix =
     (case assertVector h query ix of
        Inl e \<Rightarrow> (Inl e, ix)
      | Inr _ \<Rightarrow> (case searchInternal h (vec_normalize h query) k ix of (out, ix) \<Rightarrow> (Inr out, ix)))"

definition hnsw_searchWithDiagnostics ::
  "('s :: linorder) float_ops \<Rightarrow> 's list \<Rightarrow> nat \<Rightarrow> 's HnswIndex \<Rightarrow>
   (string, 's scored list \<times> nat \<times> nat) result \<times> 's HnswIndex" where
  "hnsw_searchWithDiagnostics h query k ix =
     (case assertVector h query ix of
        Inl e \<Rightarrow> (Inl e, ix)
      | Inr _ \<Rightarrow>
          (let vector = vec_normalize h query;
               visited = (case pickEntryPoint ix of (None, _) \<Rightarrow> 0 | (Some entry, ix) \<Rightarrow> length (fst (search_beam h vector k entry ix)))
           in case searchInternal h vector k ix of (out, ix1) \<Rightarrow> (Inr (out, visited, length (hx_nodes ix)), ix1)))"

section \<open>Insertion\<close>

definition by_score :: "'s scored \<Rightarrow> ('s :: linorder) scored \<Rightarrow> int" where
  "by_score a b = (if snd b < snd a then - 1 else if snd a < snd b then 1 else 0)"

definition rank_neighbor :: "'s float_ops \<Rightarrow> (string, 's NodeEntry) jsmap \<Rightarrow> 's list \<Rightarrow> string \<Rightarrow> 's scored" where
  "rank_neighbor h nodes vector i =
     (i, case map_of nodes i of None \<Rightarrow> fo_minus_one h | Some target \<Rightarrow> vec_cosine h vector (hn_vector target))"

definition trimNeighbors ::
  "('s :: linorder) float_ops \<Rightarrow> nat \<Rightarrow> (string, 's NodeEntry) jsmap \<Rightarrow> 's NodeEntry \<Rightarrow> 's NodeEntry" where
  "trimNeighbors h maxNeighbors nodes node =
     (if length (hn_neighbors node) \<le> maxNeighbors then node
      else node\<lparr>hn_neighbors :=
        map fst (take maxNeighbors (js_sort by_score (map (rank_neighbor h nodes (hn_vector node)) (hn_neighbors node))))\<rparr>)"

text \<open>\<open>neighbor.neighbors.add(id)\<close> and the trim, for one neighbour of the new node.\<close>

definition link_back ::
  "('s :: linorder) float_ops \<Rightarrow> nat \<Rightarrow> string \<Rightarrow> string \<Rightarrow> (string, 's NodeEntry) jsmap \<Rightarrow> (string, 's NodeEntry) jsmap" where
  "link_back h maxNeighbors newId neighborId nodes =
     (case map_of nodes neighborId of
        None \<Rightarrow> nodes
      | Some neighbor \<Rightarrow>
          AList.update neighborId
            (trimNeighbors h maxNeighbors nodes (neighbor\<lparr>hn_neighbors := set_add newId (hn_neighbors neighbor)\<rparr>)) nodes)"

definition hnsw_insert :: "('s :: linorder) float_ops \<Rightarrow> string \<Rightarrow> 's list \<Rightarrow> 's HnswIndex \<Rightarrow> 's HnswIndex" where
  "hnsw_insert h newId vector ix =
     (case searchInternal h vector (hx_maxNeighbors ix) ix of
        (nearest, ix) \<Rightarrow>
          (let entry = \<lparr>hn_vector = vector, hn_neighbors = fold set_add (map fst nearest) []\<rparr>;
               nodes = fold (link_back h (hx_maxNeighbors ix) newId) (hn_neighbors entry)
                         (AList.update newId entry (hx_nodes ix))
           in ix\<lparr>hx_nodes := AList.update newId (trimNeighbors h (hx_maxNeighbors ix) nodes (or_else (map_of nodes newId) entry)) nodes,
                 hx_entryPointId := (if given_id (hx_entryPointId ix) = None then Some newId else hx_entryPointId ix)\<rparr>))"

definition hnsw_move :: "('s :: linorder) float_ops \<Rightarrow> string \<Rightarrow> 's NodeEntry \<Rightarrow> 's list \<Rightarrow> 's HnswIndex \<Rightarrow> 's HnswIndex" where
  "hnsw_move h nodeId existing vector ix =
     (let moved = existing\<lparr>hn_vector := vector\<rparr>
      in case searchInternal h vector (hx_maxNeighbors ix + 1) (ix\<lparr>hx_nodes := AList.update nodeId moved (hx_nodes ix)\<rparr>) of
           (found, ix) \<Rightarrow>
             ix\<lparr>hx_nodes := AList.update nodeId
                (moved\<lparr>hn_neighbors := fold set_add
                   (map fst (take (hx_maxNeighbors ix) (filter (\<lambda>c. fst c \<noteq> nodeId) found))) []\<rparr>) (hx_nodes ix)\<rparr>)"

text \<open>\<open>add\<close> and \<open>update\<close> call each other for an identifier that is there or not; both end in one of the two.\<close>

definition hnsw_add :: "('s :: linorder) float_ops \<Rightarrow> string \<Rightarrow> 's list \<Rightarrow> 's HnswIndex \<Rightarrow> (string, unit) result \<times> 's HnswIndex" where
  "hnsw_add h nodeId vector ix =
     (case assertVector h vector ix of
        Inl e \<Rightarrow> (Inl e, ix)
      | Inr _ \<Rightarrow>
          (Inr (), case map_of (hx_nodes ix) nodeId of
             Some existing \<Rightarrow> hnsw_move h nodeId existing (vec_normalize h vector) ix
           | None \<Rightarrow> hnsw_insert h nodeId (vec_normalize h vector) ix))"

definition hnsw_clear :: "'s HnswIndex \<Rightarrow> 's HnswIndex" where
  "hnsw_clear ix = ix\<lparr>hx_nodes := [], hx_entryPointId := None\<rparr>"

section \<open>The file\<close>

record 's hnsw_payload =
  hp_dimensions :: nat
  hp_entryPointId :: "string option"
  hp_nodes :: "(string \<times> 's list \<times> string list) list"

definition hnsw_save :: "'s HnswIndex \<Rightarrow> 's hnsw_payload" where
  "hnsw_save ix =
     \<lparr>hp_dimensions = hx_dimensions ix, hp_entryPointId = hx_entryPointId ix,
      hp_nodes = map (\<lambda>(i, node). (i, hn_vector node, hn_neighbors node)) (hx_nodes ix)\<rparr>"

definition hnsw_load :: "'s hnsw_payload \<Rightarrow> 's HnswIndex \<Rightarrow> (string, unit) result \<times> 's HnswIndex" where
  "hnsw_load p ix =
     (if hp_dimensions p \<noteq> hx_dimensions ix then
        (Inl (''dimension mismatch: expected '' @ show_nat (hx_dimensions ix) @ '', got '' @ show_nat (hp_dimensions p)), ix)
      else
        (let nodes = fold (\<lambda>(i, v, ns). AList.update i \<lparr>hn_vector = v, hn_neighbors = fold set_add ns []\<rparr>) (hp_nodes p) []
         in (Inr (), ix\<lparr>hx_nodes := nodes,
               hx_entryPointId := (case hp_entryPointId p of
                   Some i \<Rightarrow> Some i
                 | None \<Rightarrow> (case nodes of [] \<Rightarrow> None | (i, _) # _ \<Rightarrow> Some i))\<rparr>)))"

end
