(* ===== verification/HnswLaws.thy ===== *)
theory HnswLaws
  imports Hnsw
begin

text \<open>
  The search of the vector index: its results are distinct stored nodes with their exact scores, best first; the
  graph has bounded degree, no dangling and no self link; and as long as the index holds at most one node more than
  the neighbour bound, the graph is complete and the search equals the exhaustive one.
\<close>

section \<open>Ordered insertion\<close>

abbreviation desc :: "('s :: linorder) scored list \<Rightarrow> bool" where
  "desc \<equiv> sorted_wrt (\<lambda>a b. snd a \<ge> snd b)"

lemma insert_index_splits:
  "desc xs \<Longrightarrow> lo \<le> hi \<Longrightarrow> hi \<le> length xs \<Longrightarrow> \<forall>i < lo. snd (xs ! i) \<ge> s \<Longrightarrow>
   \<forall>i < length xs. hi \<le> i \<longrightarrow> snd (xs ! i) < s \<Longrightarrow>
   insert_index xs s lo hi \<le> length xs \<and> (\<forall>i < insert_index xs s lo hi. snd (xs ! i) \<ge> s) \<and>
   (\<forall>i < length xs. insert_index xs s lo hi \<le> i \<longrightarrow> snd (xs ! i) < s)"
proof (induction xs s lo hi rule: insert_index.induct)
  case (1 xs s lo hi)
  show ?case
  proof (cases "lo < hi")
    case True
    let ?mid = "(lo + hi) div 2"
    have mid: "lo \<le> ?mid" "?mid < hi" "?mid < length xs" using True "1.prems"(3) by auto
    have mono: "snd (xs ! j) \<le> snd (xs ! i)" if "i \<le> j" "j < length xs" for i j
      using that "1.prems"(1) by (cases "i = j") (auto simp: sorted_wrt_iff_nth_less)
    show ?thesis
    proof (cases "s > snd (xs ! ?mid)")
      case True: True
      have "snd (xs ! i) < s" if "i < length xs" "?mid \<le> i" for i
        using mono [OF that(2,1)] True by (rule le_less_trans)
      then have "\<forall>i < length xs. ?mid \<le> i \<longrightarrow> snd (xs ! i) < s" by blast
      with "1.IH"(1) [OF \<open>lo < hi\<close> refl True "1.prems"(1) mid(1) _ "1.prems"(4)] mid
      show ?thesis by (simp add: insert_index.simps [of xs s lo hi] Let_def \<open>lo < hi\<close> True)
    next
      case False
      have "snd (xs ! i) \<ge> s" if "i < ?mid + 1" for i
        using mono [of i ?mid] that mid(3) False by simp
      then have "\<forall>i < ?mid + 1. snd (xs ! i) \<ge> s" by blast
      with "1.IH"(2) [OF \<open>lo < hi\<close> refl False "1.prems"(1) _ "1.prems"(3) _ "1.prems"(5)] mid
      show ?thesis by (simp add: insert_index.simps [of xs s lo hi] Let_def \<open>lo < hi\<close> False)
    qed
  next
    case False
    then have "insert_index xs s lo hi = lo" unfolding insert_index.simps [of xs s lo hi] by simp
    moreover have "lo = hi" using False "1.prems"(2) by simp
    ultimately show ?thesis using "1.prems"(3-5) by simp
  qed
qed

lemma set_splice_in: "set (splice_in c xs) = insert c (set xs)"
proof -
  have "set xs = set (take n xs) \<union> set (drop n xs)" for n by (metis append_take_drop_id set_append)
  then show ?thesis by (auto simp: splice_in_def Let_def)
qed

lemma desc_splice_in:
  assumes "desc xs"
  shows "desc (splice_in c xs)"
proof -
  let ?n = "findInsertIndexDesc xs (snd c)"
  have n: "?n \<le> length xs" "\<forall>i < ?n. snd (xs ! i) \<ge> snd c" "\<forall>i < length xs. ?n \<le> i \<longrightarrow> snd (xs ! i) < snd c"
    using insert_index_splits [OF assms, of 0 "length xs" "snd c"] by (auto simp: findInsertIndexDesc_def)
  have "snd a \<ge> snd c" if "a \<in> set (take ?n xs)" for a
    using that n(1,2) by (auto simp: in_set_conv_nth)
  moreover have "snd c \<ge> snd b" if b: "b \<in> set (drop ?n xs)" for b
  proof -
    obtain j where j: "j < length xs - ?n" "b = xs ! (?n + j)"
      using b n(1) unfolding in_set_conv_nth by auto
    have "?n + j < length xs" using j(1) by linarith
    then have "snd (xs ! (?n + j)) < snd c" using n(3) le_add1 by blast
    with j(2) show ?thesis by simp
  qed
  moreover have "desc (take ?n xs @ drop ?n xs)" using assms by simp
  ultimately show ?thesis
    unfolding splice_in_def Let_def sorted_wrt_append by (auto intro: order_trans)
qed

lemma distinct_splice_in: "distinct (map fst (splice_in c xs)) \<longleftrightarrow> fst c \<notin> fst ` set xs \<and> distinct (map fst xs)"
proof -
  let ?n = "findInsertIndexDesc xs (snd c)"
  have "map fst (take ?n xs) @ map fst (drop ?n xs) = map fst xs" by (metis append_take_drop_id map_append)
  then have "distinct (map fst xs) \<longleftrightarrow> distinct (map fst (take ?n xs) @ map fst (drop ?n xs))" by simp
  moreover have "fst ` set xs = fst ` set (take ?n xs) \<union> fst ` set (drop ?n xs)"
    by (metis append_take_drop_id image_Un set_append)
  ultimately show ?thesis by (auto simp: splice_in_def Let_def)
qed

lemma desc_butlast: "desc xs \<Longrightarrow> desc (butlast xs)"
  by (metis append_butlast_last_id butlast.simps(1) sorted_wrt_append)

lemma push_best:
  assumes "desc b" and "distinct (map fst b)" and "fst c \<notin> fst ` set b" and "length b \<le> ef" and "ef \<ge> 1"
  shows "desc (push_best ef c b)" and "distinct (map fst (push_best ef c b))"
    and "set (push_best ef c b) \<subseteq> insert c (set b)" and "length (push_best ef c b) \<le> ef" and "push_best ef c b \<noteq> []"
    and "length b < ef \<Longrightarrow> set (push_best ef c b) = insert c (set b)"
proof -
  have s: "desc (splice_in c b)" "distinct (map fst (splice_in c b))" "set (splice_in c b) = insert c (set b)"
    using assms by (simp_all add: desc_splice_in distinct_splice_in set_splice_in)
  show "desc (push_best ef c b)" using s(1) by (simp add: push_best_def Let_def desc_butlast)
  show "distinct (map fst (push_best ef c b))" using s(2) by (simp add: push_best_def Let_def map_butlast distinct_butlast)
  show "set (push_best ef c b) \<subseteq> insert c (set b)" using s(3) by (auto simp: push_best_def Let_def dest: in_set_butlastD)
  show "length (push_best ef c b) \<le> ef" using assms(4) by (simp add: push_best_def Let_def)
  have "length (push_best ef c b) \<ge> 1" using assms(4,5) by (simp add: push_best_def Let_def)
  then show "push_best ef c b \<noteq> []" by auto
  show "length b < ef \<Longrightarrow> set (push_best ef c b) = insert c (set b)" using s(3) by (simp add: push_best_def Let_def)
qed

section \<open>The beam\<close>

definition scored_ok :: "('s :: linorder) float_ops \<Rightarrow> (string, 's NodeEntry) jsmap \<Rightarrow> 's list \<Rightarrow> 's scored \<Rightarrow> bool" where
  "scored_ok h nodes query c \<longleftrightarrow>
     (\<exists>node. map_of nodes (fst c) = Some node \<and> snd c = vec_cosine h query (hn_vector node))"

definition beam_ok :: "('s :: linorder) float_ops \<Rightarrow> (string, 's NodeEntry) jsmap \<Rightarrow> 's list \<Rightarrow> nat \<Rightarrow> 's beam \<Rightarrow> bool" where
  "beam_ok h nodes query ef =
     (\<lambda>(visited, candidates, best).
        desc best \<and> distinct (map fst best) \<and> length best \<le> ef \<and> best \<noteq> [] \<and> distinct visited \<and>
        fst ` set best \<subseteq> set visited \<and> fst ` set candidates \<subseteq> set visited \<and>
        (\<forall>c \<in> set best \<union> set candidates. scored_ok h nodes query c))"

lemma visit_ok:
  assumes "beam_ok h nodes query ef b" and "ef \<ge> 1"
  shows "beam_ok h nodes query ef (visit_neighbor h nodes query ef w nb b)"
proof -
  obtain v c bs where b: "b = (v, c, bs)" by (metis surj_pair)
  show ?thesis
  proof (cases "nb \<in> set v \<or> map_of nodes nb = None")
    case True
    with assms show ?thesis by (auto simp: b visit_neighbor_def beam_ok_def split: option.split)
  next
    case False
    then obtain node where node: "nb \<notin> set v" "map_of nodes nb = Some node" by auto
    let ?c = "(nb, vec_cosine h query (hn_vector node))"
    have new: "nb \<notin> fst ` set bs" using assms(1) node(1) by (auto simp: b beam_ok_def)
    have ok: "scored_ok h nodes query ?c" using node(2) by (simp add: scored_ok_def)
    have bs: "desc bs" "distinct (map fst bs)" "length bs \<le> ef" using assms(1) by (simp_all add: b beam_ok_def)
    note pb = push_best [of bs ?c ef, OF bs(1,2) _ bs(3) assms(2), simplified, OF new]
    have sub: "fst ` set (push_best ef ?c bs) \<subseteq> insert nb (set v)"
      using pb(3) assms(1) by (fastforce simp: b beam_ok_def)
    show ?thesis
      using assms(1) node ok pb(1,2,4,5) sub pb(3)
      by (auto simp: b visit_neighbor_def beam_ok_def Let_def set_splice_in)
  qed
qed

lemma visits_ok:
  "beam_ok h nodes query ef b \<Longrightarrow> ef \<ge> 1 \<Longrightarrow> beam_ok h nodes query ef (fold (visit_neighbor h nodes query ef w) ns b)"
  by (induction ns arbitrary: b) (simp_all only: fold_simps visit_ok)

lemma step_ok:
  assumes "beam_ok h nodes query ef b" and "ef \<ge> 1" and "search_step h nodes query ef b = Some b'"
  shows "beam_ok h nodes query ef b'"
proof -
  obtain v c bs where b: "b = (v, c, bs)" by (metis surj_pair)
  obtain current rest where c: "c = current # rest" using assms(3) by (cases c) (auto simp: search_step_def b)
  have "beam_ok h nodes query ef (v, rest, bs)" using assms(1) by (simp add: b c beam_ok_def)
  from visits_ok [OF this assms(2)] this assms(3) show ?thesis
    by (auto simp: search_step_def b c split: if_splits option.splits)
qed

lemma loop_ok: "beam_ok h nodes query ef b \<Longrightarrow> ef \<ge> 1 \<Longrightarrow> beam_ok h nodes query ef (search_loop h nodes query ef b)"
proof (induction h nodes query ef b rule: search_loop.induct)
  case (1 h nodes query ef b)
  show ?case
  proof (cases "search_step h nodes query ef b")
    case None
    with 1 show ?thesis by (simp add: search_loop.simps [of h nodes query ef b])
  next
    case (Some b')
    with "1.IH" [OF Some step_ok [OF "1.prems" Some] "1.prems"(2)] show ?thesis
      by (simp add: search_loop.simps [of h nodes query ef b])
  qed
qed

lemma loop_ends: "search_step h nodes query ef (search_loop h nodes query ef b) = None"
proof (induction h nodes query ef b rule: search_loop.induct)
  case (1 h nodes query ef b)
  then show ?case
    by (cases "search_step h nodes query ef b") (simp_all add: search_loop.simps [of h nodes query ef b])
qed

lemma seed_ok:
  "map_of nodes (fst entry) = Some (snd entry) \<Longrightarrow> ef \<ge> 1 \<Longrightarrow>
   beam_ok h nodes query ef ([fst entry], splice_in (fst entry, vec_cosine h query (hn_vector (snd entry))) [],
     push_best ef (fst entry, vec_cosine h query (hn_vector (snd entry))) [])"
  by (simp add: beam_ok_def push_best_def splice_in_def Let_def findInsertIndexDesc_def insert_index.simps scored_ok_def)

section \<open>Well-formed graphs\<close>

text \<open>Distinct nodes; the neighbours of a node are distinct other nodes, no more than the bound.\<close>

definition linked_ok :: "nat \<Rightarrow> (string, 's NodeEntry) jsmap \<Rightarrow> string \<Rightarrow> 's NodeEntry \<Rightarrow> bool" where
  "linked_ok mx nodes i node \<longleftrightarrow>
     distinct (hn_neighbors node) \<and> length (hn_neighbors node) \<le> mx \<and>
     (\<forall>j \<in> set (hn_neighbors node). j \<in> set (keys nodes) \<and> j \<noteq> i)"

definition nodes_ok :: "nat \<Rightarrow> (string, 's NodeEntry) jsmap \<Rightarrow> bool" where
  "nodes_ok mx nodes \<longleftrightarrow> wf_map nodes \<and> (\<forall>i node. map_of nodes i = Some node \<longrightarrow> linked_ok mx nodes i node)"

definition hnsw_ok :: "'s HnswIndex \<Rightarrow> bool" where
  "hnsw_ok ix \<longleftrightarrow> nodes_ok (hx_maxNeighbors ix) (hx_nodes ix) \<and> 2 \<le> hx_maxNeighbors ix \<and> 4 \<le> hx_efSearch ix"

lemma fold_set_add: "set (fold set_add xs ys) = set ys \<union> set xs" "distinct ys \<Longrightarrow> distinct (fold set_add xs ys)"
  by (induction xs arbitrary: ys) (auto simp: set_add_def)

lemma fold_set_add_distinct: "distinct (ys @ xs) \<Longrightarrow> fold set_add xs ys = ys @ xs"
  by (induction xs arbitrary: ys) (auto simp: set_add_def)

lemma nodes_ok_update:
  assumes "nodes_ok mx nodes" and "linked_ok mx (AList.update i node nodes) i node"
  shows "nodes_ok mx (AList.update i node nodes)"
proof -
  have "linked_ok mx (AList.update i node nodes) j n" if j: "map_of nodes j = Some n" for j n
    using assms(1) j unfolding nodes_ok_def linked_ok_def by (simp add: keys_update)
  moreover have "wf_map (AList.update i node nodes)" using assms(1) by (simp add: nodes_ok_def)
  ultimately show ?thesis using assms(2) by (simp add: nodes_ok_def map_of_update)
qed

lemma trimNeighbors_ok:
  assumes "distinct (hn_neighbors node)"
  shows "distinct (hn_neighbors (trimNeighbors h mx nodes node))"
    and "set (hn_neighbors (trimNeighbors h mx nodes node)) \<subseteq> set (hn_neighbors node)"
    and "length (hn_neighbors (trimNeighbors h mx nodes node)) \<le> mx"
    and "hn_vector (trimNeighbors h mx nodes node) = hn_vector node"
proof -
  let ?r = "js_sort by_score (map (rank_neighbor h nodes (hn_vector node)) (hn_neighbors node))"
  let ?f = "rank_neighbor h nodes (hn_vector node)"
  have ids: "map fst (map ?f xs) = xs" for xs by (induction xs) (simp_all add: rank_neighbor_def)
  have "mset (map fst ?r) = mset (map fst (map ?f (hn_neighbors node)))" unfolding mset_map mset_js_sort by (rule refl)
  then have m: "mset (map fst ?r) = mset (hn_neighbors node)" unfolding ids .
  have d: "distinct (map fst ?r)" using assms mset_eq_imp_distinct_iff [OF m] by blast
  have s: "set (map fst ?r) = set (hn_neighbors node)" by (rule mset_eq_setD [OF m])
  have t: "hn_neighbors (trimNeighbors h mx nodes node) =
      (if length (hn_neighbors node) \<le> mx then hn_neighbors node else take mx (map fst ?r))"
    by (simp add: trimNeighbors_def take_map)
  show "distinct (hn_neighbors (trimNeighbors h mx nodes node))"
    unfolding t using assms distinct_take [OF d, of mx] by presburger
  show "set (hn_neighbors (trimNeighbors h mx nodes node)) \<subseteq> set (hn_neighbors node)"
  proof (cases "length (hn_neighbors node) \<le> mx")
    case False
    then show ?thesis unfolding t using subset_trans [OF set_take_subset equalityD1 [OF s]] by (simp only: if_False)
  qed (simp add: t)
  show "length (hn_neighbors (trimNeighbors h mx nodes node)) \<le> mx" unfolding t by auto
  show "hn_vector (trimNeighbors h mx nodes node) = hn_vector node" by (simp add: trimNeighbors_def)
qed

lemma trim_small: "length (hn_neighbors node) \<le> mx \<Longrightarrow> trimNeighbors h mx nodes node = node"
  by (simp add: trimNeighbors_def)

lemma trimmed_linked:
  assumes "distinct (hn_neighbors node)" and "\<forall>j \<in> set (hn_neighbors node). j \<in> set (keys ns) \<and> j \<noteq> i"
  shows "linked_ok mx ns i (trimNeighbors h mx nodes node)"
  using trimNeighbors_ok(1-3) [OF assms(1), of h mx nodes] assms(2) by (auto simp: linked_ok_def)

lemma link_back_ok:
  assumes "nodes_ok mx nodes" and "newId \<in> set (keys nodes)" and "nb \<noteq> newId"
  shows "nodes_ok mx (link_back h mx newId nb nodes)" and "keys (link_back h mx newId nb nodes) = keys nodes"
proof -
  show keys: "keys (link_back h mx newId nb nodes) = keys nodes"
    by (cases "map_of nodes nb") (simp_all add: link_back_def map_simps map_of_SomeD')
  show "nodes_ok mx (link_back h mx newId nb nodes)"
  proof (cases "map_of nodes nb")
    case (Some neighbor)
    have nb: "linked_ok mx nodes nb neighbor" using assms(1) Some by (simp add: nodes_ok_def)
    let ?n = "neighbor\<lparr>hn_neighbors := set_add newId (hn_neighbors neighbor)\<rparr>"
    have "linked_ok mx (AList.update nb (trimNeighbors h mx nodes ?n) nodes) nb (trimNeighbors h mx nodes ?n)"
      using nb assms(2,3) map_of_SomeD' [OF Some] by (intro trimmed_linked) (auto simp: set_add_def linked_ok_def map_simps)
    from nodes_ok_update [OF assms(1) this] show ?thesis by (simp add: link_back_def Some)
  qed (use assms(1) in \<open>simp add: link_back_def\<close>)
qed

lemma links_back_ok:
  "nodes_ok mx nodes \<Longrightarrow> newId \<in> set (keys nodes) \<Longrightarrow> newId \<notin> set nbs \<Longrightarrow>
   nodes_ok mx (fold (link_back h mx newId) nbs nodes) \<and> keys (fold (link_back h mx newId) nbs nodes) = keys nodes"
proof (induction nbs arbitrary: nodes)
  case (Cons nb nbs)
  then have nb: "nb \<noteq> newId" by auto
  note one = link_back_ok [OF Cons.prems(1,2) nb]
  show ?case using Cons.IH [OF one(1)] Cons.prems(2,3) by (simp add: one(2))
qed simp

section \<open>Every search\<close>

lemma pick_entry:
  assumes "pickEntryPoint ix = (Some entry, ix')" and "wf_map (hx_nodes ix)"
  shows "map_of (hx_nodes ix) (fst entry) = Some (snd entry)" and "ix' = ix\<lparr>hx_entryPointId := hx_entryPointId ix'\<rparr>"
proof -
  show "map_of (hx_nodes ix) (fst entry) = Some (snd entry)"
    using assms by (auto simp: pickEntryPoint_def split: option.splits list.splits bind_splits)
  show "ix' = ix\<lparr>hx_entryPointId := hx_entryPointId ix'\<rparr>"
    using assms(1) by (auto simp: pickEntryPoint_def split: option.splits list.splits bind_splits)
qed

lemma pick_none: "pickEntryPoint ix = (None, ix') \<Longrightarrow> hx_nodes ix = [] \<and> ix' = ix"
  by (auto simp: pickEntryPoint_def split: option.splits list.splits bind_splits)

text \<open>What a search promises: distinct stored nodes, their exact scores, best first, at most \<open>k\<close>.\<close>

definition results_ok :: "('s :: linorder) float_ops \<Rightarrow> 's HnswIndex \<Rightarrow> 's list \<Rightarrow> nat \<Rightarrow> 's scored list \<Rightarrow> bool" where
  "results_ok h ix query k out \<longleftrightarrow>
     length out \<le> k \<and> distinct (map fst out) \<and> desc out \<and> (\<forall>c \<in> set out. scored_ok h (hx_nodes ix) query c)"

lemma search_beam_ok:
  assumes "map_of (hx_nodes ix) (fst entry) = Some (snd entry)" and "hx_efSearch ix \<ge> 4"
  shows "beam_ok h (hx_nodes ix) query (max k (hx_efSearch ix)) (search_beam h query k entry ix)"
  unfolding search_beam_def Let_def using assms by (intro loop_ok seed_ok) auto

lemma search_results:
  assumes "hnsw_ok ix" and "searchInternal h query k ix = (out, ix')"
  shows "results_ok h ix query k out" and "ix' = ix\<lparr>hx_entryPointId := hx_entryPointId ix'\<rparr>"
proof -
  have wf: "wf_map (hx_nodes ix)" "hx_efSearch ix \<ge> 4" using assms(1) by (auto simp: hnsw_ok_def nodes_ok_def)
  have "results_ok h ix query k out \<and> ix' = ix\<lparr>hx_entryPointId := hx_entryPointId ix'\<rparr>"
  proof (cases "fst (pickEntryPoint ix)")
    case None
    with assms(2) pick_none [of ix] show ?thesis
      by (cases "pickEntryPoint ix") (auto simp: searchInternal_def results_ok_def split: if_splits)
  next
    case (Some entry)
    then obtain ix1 where pick: "pickEntryPoint ix = (Some entry, ix1)" by (metis prod.collapse)
    note e = pick_entry [OF pick wf(1)]
    have nodes: "hx_nodes ix1 = hx_nodes ix" "hx_efSearch ix1 = hx_efSearch ix" using e(2) by (metis HnswIndex.select_convs HnswIndex.update_convs(5) HnswIndex.surjective)+
    obtain v c best where beam: "search_beam h query k entry ix1 = (v, c, best)" by (metis surj_pair)
    have "beam_ok h (hx_nodes ix1) query (max k (hx_efSearch ix1)) (v, c, best)"
      using search_beam_ok [of ix1 entry h query k] e(1) wf(2) by (simp add: nodes beam)
    then have "results_ok h ix query k (take k best)"
      by (auto simp: beam_ok_def results_ok_def nodes take_map [symmetric] sorted_wrt_take dest: in_set_takeD)
    moreover have "hx_nodes ix \<noteq> []" using e(1) by auto
    ultimately show ?thesis using assms(2) e(2) by (auto simp: searchInternal_def pick beam results_ok_def)
  qed
  then show "results_ok h ix query k out" and "ix' = ix\<lparr>hx_entryPointId := hx_entryPointId ix'\<rparr>" by auto
qed

section \<open>Every operation\<close>

lemma hnsw_ok_entry [simp]: "hnsw_ok (ix\<lparr>hx_entryPointId := e\<rparr>) = hnsw_ok ix"
  by (simp add: hnsw_ok_def)

lemma nearest_ids:
  assumes "results_ok h ix query k out"
  shows "fold set_add (map fst out) [] = map fst out" and "length (map fst out) \<le> k"
    and "distinct (map fst out)" and "set (map fst out) \<subseteq> set (keys (hx_nodes ix))"
  using assms fold_set_add_distinct [of "[]" "map fst out"]
  by (auto simp: results_ok_def scored_ok_def dest: map_of_SomeD')

lemma insert_ok:
  assumes "hnsw_ok ix" and "map_of (hx_nodes ix) newId = None"
  shows "hnsw_ok (hnsw_insert h newId vector ix)"
    and "keys (hx_nodes (hnsw_insert h newId vector ix)) = keys (hx_nodes ix) @ [newId]"
proof -
  let ?mx = "hx_maxNeighbors ix"
  obtain out ix1 where search: "searchInternal h vector ?mx ix = (out, ix1)" by (metis surj_pair)
  note r = search_results [OF assms(1) search]
  note ids = nearest_ids [OF r(1)]
  obtain e where ix1: "ix1 = ix\<lparr>hx_entryPointId := e\<rparr>" using r(2) by blast
  have new: "newId \<notin> set (keys (hx_nodes ix))" using assms(2) has_key_iff [of "hx_nodes ix" newId] by (simp add: has_key_def)
  let ?entry = "\<lparr>hn_vector = vector, hn_neighbors = map fst out\<rparr>"
  let ?n0 = "AList.update newId ?entry (hx_nodes ix)"
  have wf: "nodes_ok ?mx (hx_nodes ix)" using assms(1) by (simp add: hnsw_ok_def)
  have linked: "linked_ok ?mx ?n0 newId ?entry"
    using ids(2-4) new by (auto simp: linked_ok_def keys_update)
  have n0: "nodes_ok ?mx ?n0" by (rule nodes_ok_update [OF wf linked])
  let ?n1 = "fold (link_back h ?mx newId) (map fst out) ?n0"
  have fresh: "newId \<notin> set (map fst out)" using ids(4) new by blast
  have key0: "newId \<in> set (keys ?n0)" by (simp add: keys_update)
  have n1: "nodes_ok ?mx ?n1" "keys ?n1 = keys ?n0" using links_back_ok [OF n0 key0 fresh, of h] by auto
  obtain node where node: "map_of ?n1 newId = Some node"
    using key0 has_key_iff [of ?n1 newId] unfolding n1(2) has_key_def by blast
  have node_ok: "linked_ok ?mx ?n1 newId node" using n1(1) node by (simp add: nodes_ok_def)
  have small: "length (hn_neighbors node) \<le> ?mx" using node_ok by (simp add: linked_ok_def)
  have res: "hx_nodes (hnsw_insert h newId vector ix) = AList.update newId node ?n1"
    using trim_small [OF small, of h ?n1] by (simp add: hnsw_insert_def search ix1 ids(1) Let_def node or_else_def)
  have "keys (AList.update newId node ?n1) = keys ?n0" using key0 by (simp add: keys_update n1(2))
  then show "keys (hx_nodes (hnsw_insert h newId vector ix)) = keys (hx_nodes ix) @ [newId]"
    using new by (simp add: res keys_update)
  have "linked_ok ?mx (AList.update newId node ?n1) newId node"
    using node_ok unfolding linked_ok_def by (simp add: keys_update)
  then have "nodes_ok ?mx (AList.update newId node ?n1)" by (rule nodes_ok_update [OF n1(1)])
  moreover have "hx_maxNeighbors (hnsw_insert h newId vector ix) = ?mx"
      "hx_efSearch (hnsw_insert h newId vector ix) = hx_efSearch ix"
    by (simp_all add: hnsw_insert_def search ix1 Let_def)
  ultimately show "hnsw_ok (hnsw_insert h newId vector ix)" using assms(1) res by (simp add: hnsw_ok_def)
qed

lemma move_ok:
  assumes "hnsw_ok ix" and "map_of (hx_nodes ix) i = Some existing"
  shows "hnsw_ok (hnsw_move h i existing vector ix)"
    and "keys (hx_nodes (hnsw_move h i existing vector ix)) = keys (hx_nodes ix)"
proof -
  let ?mx = "hx_maxNeighbors ix" and ?moved = "existing\<lparr>hn_vector := vector\<rparr>"
  let ?n0 = "AList.update i ?moved (hx_nodes ix)"
  let ?ix0 = "ix\<lparr>hx_nodes := ?n0\<rparr>"
  have wf: "nodes_ok ?mx (hx_nodes ix)" using assms(1) by (simp add: hnsw_ok_def)
  have i: "i \<in> set (keys (hx_nodes ix))" using assms(2) by (rule map_of_SomeD')
  have keys: "keys ?n0 = keys (hx_nodes ix)" using i by (simp add: keys_update)
  have "linked_ok ?mx (hx_nodes ix) i existing" using wf assms(2) by (simp add: nodes_ok_def)
  then have "linked_ok ?mx ?n0 i ?moved" by (simp add: linked_ok_def keys)
  then have n0: "nodes_ok ?mx ?n0" by (rule nodes_ok_update [OF wf])
  have ok0: "hnsw_ok ?ix0" using assms(1) n0 by (simp add: hnsw_ok_def)
  obtain out ix1 where search: "searchInternal h vector (?mx + 1) ?ix0 = (out, ix1)" by (metis surj_pair)
  note r = search_results [OF ok0 search]
  note ids = nearest_ids [OF r(1)]
  obtain e where ix1: "ix1 = ?ix0\<lparr>hx_entryPointId := e\<rparr>" using r(2) by blast
  let ?ns = "map fst (take ?mx (filter (\<lambda>c. fst c \<noteq> i) out))"
  have d: "distinct ?ns" using ids(3) by (simp add: take_map [symmetric] distinct_map_filter)
  have f: "fold set_add ?ns [] = ?ns" using fold_set_add_distinct [of "[]" ?ns] d by simp
  have sub: "\<forall>j \<in> set ?ns. j \<in> set (keys ?n0) \<and> j \<noteq> i" using subsetD [OF ids(4)] by (fastforce dest!: in_set_takeD)
  let ?node = "?moved\<lparr>hn_neighbors := ?ns\<rparr>"
  have res: "hnsw_move h i existing vector ix = ix1\<lparr>hx_nodes := AList.update i ?node ?n0\<rparr>"
    unfolding hnsw_move_def Let_def search by (simp add: f ix1)
  have k: "keys (AList.update i ?node ?n0) = keys ?n0" using i keys by (simp add: keys_update)
  then show "keys (hx_nodes (hnsw_move h i existing vector ix)) = keys (hx_nodes ix)" by (simp add: res keys)
  have "length ?ns \<le> ?mx" and "hn_neighbors ?node = ?ns" by simp_all
  then have "linked_ok ?mx (AList.update i ?node ?n0) i ?node"
    using d sub unfolding linked_ok_def k by metis
  then have "nodes_ok ?mx (AList.update i ?node ?n0)" by (rule nodes_ok_update [OF n0])
  then show "hnsw_ok (hnsw_move h i existing vector ix)" using assms(1) by (simp add: res ix1 hnsw_ok_def)
qed

lemma add_ok: "hnsw_ok ix \<Longrightarrow> hnsw_ok (snd (hnsw_add h i v ix))"
  by (cases "map_of (hx_nodes ix) i")
     (auto simp: hnsw_add_def insert_ok move_ok split: sum.split)

lemma update_new: "i \<notin> fst ` set acc \<Longrightarrow> AList.update i x acc = acc @ [(i, x)]"
  by (induction acc) auto

lemma reload_nodes:
  assumes "wf_map nodes" and "\<forall>i node. map_of nodes i = Some node \<longrightarrow> distinct (hn_neighbors node)"
  shows "fold (\<lambda>(i, v, ns). AList.update i \<lparr>hn_vector = v, hn_neighbors = fold set_add ns []\<rparr>)
     (map (\<lambda>(i, node). (i, hn_vector node, hn_neighbors node)) nodes) [] = nodes"
proof -
  let ?f = "\<lambda>(i, v, ns). AList.update i \<lparr>hn_vector = v, hn_neighbors = fold set_add ns []\<rparr>"
  let ?g = "\<lambda>(i, node). (i, hn_vector node, hn_neighbors node)"
  have "fold ?f (map ?g nodes) acc = acc @ nodes"
    if "distinct (map fst (acc @ nodes))" "\<forall>(i, node) \<in> set nodes. distinct (hn_neighbors node)" for acc nodes
    using that
  proof (induction nodes arbitrary: acc)
    case (Cons p nodes)
    obtain i node where p: "p = (i, node)" by (metis surj_pair)
    have "\<lparr>hn_vector = hn_vector node, hn_neighbors = fold set_add (hn_neighbors node) []\<rparr> = node"
      using Cons.prems(2) fold_set_add_distinct [of "[]" "hn_neighbors node"] by (simp add: p)
    moreover have "i \<notin> fst ` set acc" using Cons.prems(1) by (simp add: p)
    ultimately have "?f (?g p) acc = acc @ [p]" by (simp add: p update_new)
    then show ?case using Cons.IH [of "acc @ [p]"] Cons.prems by simp
  qed simp
  from this [of "[]" nodes] show ?thesis
    using assms by (auto simp: wf_map_def keys_def)
qed

lemma reload_ok:
  assumes "hnsw_ok ix" and "hx_dimensions fresh = hx_dimensions ix"
  shows "fst (hnsw_load (hnsw_save ix) fresh) = Inr ()" and "hx_nodes (snd (hnsw_load (hnsw_save ix) fresh)) = hx_nodes ix"
proof -
  have "\<forall>i node. map_of (hx_nodes ix) i = Some node \<longrightarrow> distinct (hn_neighbors node)" and "wf_map (hx_nodes ix)"
    using assms(1) by (auto simp: hnsw_ok_def nodes_ok_def linked_ok_def)
  note r = reload_nodes [OF this(2,1)]
  show "fst (hnsw_load (hnsw_save ix) fresh) = Inr ()" and "hx_nodes (snd (hnsw_load (hnsw_save ix) fresh)) = hx_nodes ix"
    using assms(2) r by (simp_all add: hnsw_load_def hnsw_save_def Let_def)
qed

lemma search_bounds: "searchInternal h q k ix = (out, ix') \<Longrightarrow>
    hx_dimensions ix' = hx_dimensions ix \<and> hx_maxNeighbors ix' = hx_maxNeighbors ix"
  by (auto simp: searchInternal_def pickEntryPoint_def split: option.splits list.splits prod.splits if_splits)

lemma add_frame: "hx_dimensions (snd (hnsw_add h i v ix)) = hx_dimensions ix \<and>
    hx_maxNeighbors (snd (hnsw_add h i v ix)) = hx_maxNeighbors ix"
  by (auto simp: hnsw_add_def hnsw_insert_def hnsw_move_def Let_def split: sum.splits option.splits prod.splits
        dest!: search_bounds)

text \<open>The states of an index that was built empty, or loaded from a file saved by such an index with the same bounds.\<close>

inductive hnsw_reached :: "('s :: linorder) float_ops \<Rightarrow> nat \<Rightarrow> nat option \<Rightarrow> nat option \<Rightarrow> 's HnswIndex \<Rightarrow> bool"
  for h d mx ef where
  reached_new: "hnsw_reached h d mx ef (newHnswIndex d mx ef)"
| reached_add: "hnsw_reached h d mx ef ix \<Longrightarrow> hnsw_reached h d mx ef (snd (hnsw_add h i v ix))"
| reached_search: "hnsw_reached h d mx ef ix \<Longrightarrow> hnsw_reached h d mx ef (snd (hnsw_search h q k ix))"
| reached_clear: "hnsw_reached h d mx ef ix \<Longrightarrow> hnsw_reached h d mx ef (hnsw_clear ix)"
| reached_load: "hnsw_reached h d mx ef ix \<Longrightarrow> hnsw_reached h d mx ef ix' \<Longrightarrow>
    hnsw_reached h d mx ef (snd (hnsw_load (hnsw_save ix) ix'))"

lemma search_frame:
  assumes "hnsw_ok ix"
  shows "\<exists>e. snd (hnsw_search h q k ix) = ix\<lparr>hx_entryPointId := e\<rparr>"
proof (cases "assertVector h q ix")
  case (Inl a)
  then have "snd (hnsw_search h q k ix) = ix\<lparr>hx_entryPointId := hx_entryPointId ix\<rparr>" by (simp add: hnsw_search_def)
  then show ?thesis by blast
next
  case (Inr u)
  obtain out ix1 where search: "searchInternal h (vec_normalize h q) k ix = (out, ix1)" by (metis surj_pair)
  have "snd (hnsw_search h q k ix) = ix1" by (simp add: hnsw_search_def Inr search)
  with search_results(2) [OF assms search] show ?thesis by metis
qed

lemma reached_ok: "hnsw_reached h d mx ef ix \<Longrightarrow>
   hnsw_ok ix \<and> hx_dimensions ix = d \<and> hx_maxNeighbors ix = max 2 (or_else mx 16)"
proof (induction rule: hnsw_reached.induct)
  case reached_new
  show ?case by (simp add: newHnswIndex_def hnsw_ok_def nodes_ok_def)
next
  case (reached_add ix i v)
  then show ?case using add_ok [of ix h i v] add_frame [of h i v ix] by simp
next
  case (reached_search ix q k)
  then show ?case using search_frame [of ix h q k] by auto
next
  case (reached_clear ix)
  then show ?case by (simp add: hnsw_clear_def hnsw_ok_def nodes_ok_def)
next
  case (reached_load ix ix')
  then have "hx_dimensions ix' = hx_dimensions ix" by simp
  note nodes = reload_ok(2) [OF conjunct1 [OF reached_load.IH(1)] this]
  have "\<exists>n e. snd (hnsw_load (hnsw_save ix) ix') = ix'\<lparr>hx_nodes := n, hx_entryPointId := e\<rparr>"
    using reached_load.IH by (simp add: hnsw_load_def hnsw_save_def Let_def) blast
  then show ?case using reached_load.IH nodes by (auto simp: hnsw_ok_def)
qed

section \<open>Few nodes: a complete graph\<close>

definition complete_graph :: "(string, 's NodeEntry) jsmap \<Rightarrow> bool" where
  "complete_graph nodes \<longleftrightarrow>
     (\<forall>i node. map_of nodes i = Some node \<longrightarrow> set (hn_neighbors node) = set (keys nodes) - {i})"

lemma visits_all:
  "distinct ns \<Longrightarrow> set ns \<subseteq> set (keys nodes) \<Longrightarrow> length bs + length ns \<le> ef \<Longrightarrow> fst ` set bs = set v \<Longrightarrow>
   fold (visit_neighbor h nodes query ef w) ns (v, c, bs) = (v', c', bs') \<Longrightarrow>
   fst ` set bs' = set v' \<and> set v' = set v \<union> set ns"
proof (induction ns arbitrary: v c bs)
  case (Cons n ns)
  show ?case
  proof (cases "n \<in> set v")
    case True
    then have "visit_neighbor h nodes query ef w n (v, c, bs) = (v, c, bs)" by (simp add: visit_neighbor_def)
    with Cons.IH [of bs v c] Cons.prems True show ?thesis by auto
  next
    case False
    obtain node where node: "map_of nodes n = Some node"
      using Cons.prems(2) has_key_iff [of nodes n] by (auto simp: has_key_def)
    let ?c = "(n, vec_cosine h query (hn_vector node))"
    have less: "length bs < ef" using Cons.prems(3) by simp
    have step: "visit_neighbor h nodes query ef w n (v, c, bs) = (v @ [n], splice_in ?c c, push_best ef ?c bs)"
      using False node less by (simp add: visit_neighbor_def Let_def)
    have push: "push_best ef ?c bs = splice_in ?c bs" using less by (simp add: push_best_def Let_def)
    show ?thesis
      using Cons.IH [of "push_best ef ?c bs" "v @ [n]" "splice_in ?c c"] Cons.prems
      by (auto simp: step push set_splice_in)
  qed
qed simp

lemma complete_beam:
  assumes ok: "nodes_ok mx nodes" and full: "complete_graph nodes" and entry: "map_of nodes (fst entry) = Some (snd entry)"
    and ef: "length nodes \<le> ef" and b0: "b0 = ([fst entry], splice_in seed [], push_best ef seed [])"
    and seed: "seed = (fst entry, vec_cosine h query (hn_vector (snd entry)))"
    and res: "search_loop h nodes query ef b0 = (v, c, bs)"
  shows "fst ` set bs = set (keys nodes)"
proof -
  let ?i = "fst entry"
  have keys: "distinct (keys nodes)" "?i \<in> set (keys nodes)" using ok entry by (auto simp: nodes_ok_def wf_map_def dest: map_of_SomeD')
  have len: "length nodes = card (set (keys nodes))" using distinct_card [OF keys(1)] by simp
  have ef1: "ef \<ge> 1" using ef entry by (cases nodes) auto
  then have b0': "b0 = ([?i], [seed], [seed])"
    by (simp add: b0 push_best_def splice_in_def Let_def findInsertIndexDesc_def insert_index.simps)
  have ok0: "beam_ok h nodes query ef b0" using seed_ok [OF entry ef1, of h query] by (simp add: b0 seed)
  show ?thesis
  proof (cases "search_step h nodes query ef b0")
    case None
    have "search_loop h nodes query ef b0 = b0" by (subst search_loop.simps) (simp add: None)
    then have "(v, c, bs) = ([?i], [seed], [seed])" using res b0' by (metis (no_types))
    then have bs: "bs = [seed]" by simp
    have "length nodes \<le> 1"
      using None entry ef by (auto simp: search_step_def b0' seed worst_best_def below_def split: if_splits)
    then have "set (keys nodes) = {?i}" 
      using card_seteq [of "set (keys nodes)" "{?i}"] keys(2) len by simp
    then show ?thesis by (simp add: bs seed)
  next
    case (Some b1)
    obtain v1 c1 bs1 where b1: "b1 = (v1, c1, bs1)" by (metis surj_pair)
    have linked: "linked_ok mx nodes ?i (snd entry)" using ok entry by (simp add: nodes_ok_def)
    have ns: "set (hn_neighbors (snd entry)) = set (keys nodes) - {?i}" using full entry by (simp add: complete_graph_def)
    have "length (hn_neighbors (snd entry)) = length nodes - 1"
      using linked distinct_card [of "hn_neighbors (snd entry)"] keys(2) by (simp add: linked_ok_def ns len)
    moreover have "length nodes \<ge> 1" using entry by (cases nodes) auto
    ultimately have fits: "length [seed] + length (hn_neighbors (snd entry)) \<le> ef" using ef by simp
    have "fold (visit_neighbor h nodes query ef (worst_best [seed])) (hn_neighbors (snd entry)) ([?i], [], [seed]) = (v1, c1, bs1)"
      using Some entry by (auto simp: search_step_def b0' seed b1 split: if_splits)
    from visits_all [OF _ _ fits _ this] linked ns
    have all: "fst ` set bs1 = set v1" "set v1 = set (keys nodes)"
      using keys(2) by (auto simp: linked_ok_def seed)
    have "beam_ok h nodes query ef b1" by (rule step_ok [OF ok0 ef1 Some])
    then have "length v1 = length nodes" using all(2) distinct_card [of v1] by (simp add: b1 beam_ok_def len)
    then have "search_step h nodes query ef b1 = None" by (simp add: search_step_def b1 split: list.split)
    then have "search_loop h nodes query ef b0 = b1"
      using search_loop.simps [of h nodes query ef b0] search_loop.simps [of h nodes query ef b1] by (simp only: Some option.case)
    then show ?thesis using res all b1 by simp
  qed
qed

lemma complete_search:
  assumes "hnsw_ok ix" and "complete_graph (hx_nodes ix)" and "length (hx_nodes ix) \<le> max k (hx_efSearch ix)"
    and "searchInternal h query k ix = (out, ix')"
  shows "length out = min k (length (hx_nodes ix))"
    and "map_of (hx_nodes ix) i = Some node \<Longrightarrow> i \<notin> fst ` set out \<Longrightarrow> c \<in> set out \<Longrightarrow>
      vec_cosine h query (hn_vector node) \<le> snd c"
proof -
  let ?nodes = "hx_nodes ix"
  have ok: "nodes_ok (hx_maxNeighbors ix) ?nodes" "wf_map ?nodes" using assms(1) by (auto simp: hnsw_ok_def nodes_ok_def)
  have "length out = min k (length ?nodes) \<and> (\<forall>i node c. map_of ?nodes i = Some node \<longrightarrow> i \<notin> fst ` set out \<longrightarrow>
      c \<in> set out \<longrightarrow> vec_cosine h query (hn_vector node) \<le> snd c)"
  proof (cases "fst (pickEntryPoint ix)")
    case None
    then have "?nodes = []" using pick_none [of ix] by (cases "pickEntryPoint ix") auto
    with assms(4) show ?thesis by (auto simp: searchInternal_def)
  next
    case (Some entry)
    then obtain ix1 where pick: "pickEntryPoint ix = (Some entry, ix1)" by (metis prod.collapse)
    note e = pick_entry [OF pick ok(2)]
    obtain p where ix1: "ix1 = ix\<lparr>hx_entryPointId := p\<rparr>" using e(2) by blast
    obtain v cs best where beam: "search_beam h query k entry ix1 = (v, cs, best)" by (metis surj_pair)
    have "beam_ok h (hx_nodes ix1) query (max k (hx_efSearch ix1)) (search_beam h query k entry ix1)"
      using e(1) assms(1) by (intro search_beam_ok) (simp_all add: ix1 hnsw_ok_def)
    then have b: "desc best" "distinct (map fst best)" "\<forall>c \<in> set best. scored_ok h ?nodes query c"
      unfolding beam by (simp_all add: beam_ok_def ix1)
    have ids: "fst ` set best = set (keys ?nodes)"
      using complete_beam [OF ok(1) assms(2) e(1) assms(3) refl refl] beam by (simp add: search_beam_def Let_def ix1)
    have "card (set (map fst best)) = length ?nodes" using ids ok(2) distinct_card [of "keys ?nodes"] by (simp add: wf_map_def)
    then have len: "length best = length ?nodes" using distinct_card [OF b(2)] by simp
    have "?nodes \<noteq> []" using e(1) by auto
    then have out: "out = take k best" using assms(4) by (simp add: searchInternal_def pick beam)
    have "vec_cosine h query (hn_vector node) \<le> snd c"
      if i: "map_of ?nodes i = Some node" "i \<notin> fst ` set out" "c \<in> set out" for i node c
    proof -
      obtain s where s: "(i, s) \<in> set best" using ids map_of_SomeD' [OF i(1)] by (metis (no_types, lifting) imageE prod.collapse)
      then have "s = vec_cosine h query (hn_vector node)" using b(3) i(1) by (auto simp: scored_ok_def)
      moreover have "(i, s) \<in> set (drop k best)"
        using s i(2) by (metis Un_iff append_take_drop_id fst_conv image_eqI out set_append)
      moreover have "desc (take k best @ drop k best)" using b(1) by simp
      ultimately show ?thesis using i(3) out unfolding sorted_wrt_append by (metis snd_conv)
    qed
    then show ?thesis using out len by simp
  qed
  then show "length out = min k (length ?nodes)"
    and "map_of ?nodes i = Some node \<Longrightarrow> i \<notin> fst ` set out \<Longrightarrow> c \<in> set out \<Longrightarrow> vec_cosine h query (hn_vector node) \<le> snd c"
    by blast+
qed

lemma complete_graphI:
  assumes "nodes_ok mx nodes" and "\<And>i node. map_of nodes i = Some node \<Longrightarrow> length (hn_neighbors node) = length nodes - 1"
  shows "complete_graph nodes"
  unfolding complete_graph_def
proof (intro allI impI)
  fix i node assume node: "map_of nodes i = Some node"
  have linked: "linked_ok mx nodes i node" using assms(1) node by (simp add: nodes_ok_def)
  have "card (set (keys nodes) - {i}) = length nodes - 1"
    using assms(1) map_of_SomeD' [OF node] distinct_card [of "keys nodes"] by (simp add: nodes_ok_def wf_map_def)
  moreover have "card (set (hn_neighbors node)) = length nodes - 1"
    using linked assms(2) [OF node] by (simp add: linked_ok_def distinct_card)
  moreover have "set (hn_neighbors node) \<subseteq> set (keys nodes) - {i}" using linked by (auto simp: linked_ok_def)
  ultimately show "set (hn_neighbors node) = set (keys nodes) - {i}" by (intro card_seteq) auto
qed

lemma complete_degree:
  assumes "nodes_ok mx nodes" and "complete_graph nodes" and "map_of nodes i = Some node"
  shows "length (hn_neighbors node) = length nodes - 1"
proof -
  have "length (hn_neighbors node) = card (set (hn_neighbors node))"
    using assms(1,3) distinct_card [of "hn_neighbors node"] by (auto simp: nodes_ok_def linked_ok_def)
  also have "\<dots> = card (set (keys nodes) - {i})" using assms(2,3) by (simp add: complete_graph_def)
  also have "\<dots> = length nodes - 1"
    using assms(1) map_of_SomeD' [OF assms(3)] distinct_card [of "keys nodes"] by (simp add: nodes_ok_def wf_map_def)
  finally show ?thesis .
qed

text \<open>Linking back over all nodes of a graph with room adds the new identifier to each.\<close>

lemma links_back_full:
  assumes "distinct nbs" and "\<forall>nb \<in> set nbs. \<exists>n. map_of nodes nb = Some n \<and> newId \<notin> set (hn_neighbors n) \<and> length (hn_neighbors n) < mx"
  shows "map_of (fold (link_back h mx newId) nbs nodes) i =
    map_option (\<lambda>n. if i \<in> set nbs then n\<lparr>hn_neighbors := hn_neighbors n @ [newId]\<rparr> else n) (map_of nodes i)"
  using assms
proof (induction nbs arbitrary: nodes)
  case Nil
  then show ?case by (simp add: option.map_ident)
next
  case (Cons nb nbs)
  obtain n where n: "map_of nodes nb = Some n" "newId \<notin> set (hn_neighbors n)" "length (hn_neighbors n) < mx"
    using Cons.prems(2) by auto
  have step: "link_back h mx newId nb nodes = AList.update nb (n\<lparr>hn_neighbors := hn_neighbors n @ [newId]\<rparr>) nodes"
    using n by (simp add: link_back_def set_add_def trimNeighbors_def)
  have nb: "nb \<notin> set nbs" using Cons.prems(1) by simp
  have "\<forall>m \<in> set nbs. \<exists>n. map_of (link_back h mx newId nb nodes) m = Some n \<and> newId \<notin> set (hn_neighbors n) \<and>
      length (hn_neighbors n) < mx"
    using Cons.prems(2) nb by (auto simp: step map_of_update)
  with Cons.IH [of "link_back h mx newId nb nodes"] Cons.prems(1) show ?case
    using n(1) nb by (auto simp: step map_of_update option.map_comp comp_def)
qed

lemma insert_complete:
  assumes "hnsw_ok ix" and "complete_graph (hx_nodes ix)" and "map_of (hx_nodes ix) newId = None"
    and "length (hx_nodes ix) \<le> hx_maxNeighbors ix"
  shows "complete_graph (hx_nodes (hnsw_insert h newId vector ix))"
proof -
  let ?mx = "hx_maxNeighbors ix" and ?nodes = "hx_nodes ix"
  let ?r = "hx_nodes (hnsw_insert h newId vector ix)"
  have wf: "nodes_ok ?mx ?nodes" using assms(1) by (simp add: hnsw_ok_def)
  obtain out ix1 where search: "searchInternal h vector ?mx ix = (out, ix1)" by (metis surj_pair)
  note r = search_results [OF assms(1) search]
  note ids = nearest_ids [OF r(1)]
  obtain e where ix1: "ix1 = ix\<lparr>hx_entryPointId := e\<rparr>" using r(2) by blast
  have "length out = length ?nodes"
    using complete_search(1) [OF assms(1,2) _ search] assms(4) by simp
  then have "card (set (map fst out)) = card (set (keys ?nodes))"
    using distinct_card [OF ids(3)] distinct_card [of "keys ?nodes"] wf by (simp add: nodes_ok_def wf_map_def)
  with ids(4) have all: "set (map fst out) = set (keys ?nodes)" by (intro card_subset_eq) simp_all
  have new: "newId \<notin> set (keys ?nodes)" using assms(3) has_key_iff [of ?nodes newId] by (simp add: has_key_def)
  let ?entry = "\<lparr>hn_vector = vector, hn_neighbors = map fst out\<rparr>"
  let ?n0 = "AList.update newId ?entry ?nodes"
  let ?n1 = "fold (link_back h ?mx newId) (map fst out) ?n0"
  have deg: "length (hn_neighbors n) = length ?nodes - 1 \<and> newId \<notin> set (hn_neighbors n)" if "map_of ?nodes i = Some n" for i n
    using complete_degree [OF wf assms(2) that] assms(2) that new by (auto simp: complete_graph_def)
  have room: "length ?nodes - 1 < ?mx" using assms(1,4) unfolding hnsw_ok_def by linarith
  have pre: "\<exists>n. map_of ?n0 nb = Some n \<and> newId \<notin> set (hn_neighbors n) \<and> length (hn_neighbors n) < ?mx"
    if nb: "nb \<in> set (map fst out)" for nb
  proof -
    have "nb \<in> set (keys ?nodes)" using nb all by blast
    then obtain n where n: "map_of ?nodes nb = Some n" using has_key_iff [of ?nodes nb] by (auto simp: has_key_def)
    moreover have "nb \<noteq> newId" using nb all new by blast
    ultimately show ?thesis using deg [OF n] room by (simp add: map_of_update)
  qed
  have n1: "map_of ?n1 i = map_option (\<lambda>n. if i \<in> set (map fst out) then n\<lparr>hn_neighbors := hn_neighbors n @ [newId]\<rparr> else n)
      (map_of ?n0 i)" for i
    using links_back_full [OF ids(3)] pre by blast
  have fresh: "newId \<notin> set (map fst out)" using all new by blast
  have self: "map_of ?n1 newId = Some ?entry" using fresh unfolding n1 by (simp add: map_of_update)
  have len: "length (hn_neighbors ?entry) \<le> ?mx" using ids(2) by simp
  have res: "?r = AList.update newId ?entry ?n1"
    using trim_small [OF len, of h ?n1] self by (simp add: hnsw_insert_def search ix1 ids(1) Let_def or_else_def)
  have count: "length ?r = Suc (length ?nodes)"
    using arg_cong [OF insert_ok(2) [OF assms(1,3), of h vector], of length] by simp
  show ?thesis
  proof (rule complete_graphI)
    show "nodes_ok (hx_maxNeighbors (hnsw_insert h newId vector ix)) ?r"
      using insert_ok(1) [OF assms(1,3), of h vector] by (simp add: hnsw_ok_def)
    fix i node assume i: "map_of ?r i = Some node"
    show "length (hn_neighbors node) = length ?r - 1"
    proof (cases "i = newId")
      case True
      then have "node = ?entry" using i by (simp add: res map_of_update)
      then show ?thesis using \<open>length out = length ?nodes\<close> count by simp
    next
      case False
      then have "map_of ?n1 i = Some node" using i by (simp add: res map_of_update)
      then obtain n where n: "map_of ?nodes i = Some n"
          "node = (if i \<in> set (map fst out) then n\<lparr>hn_neighbors := hn_neighbors n @ [newId]\<rparr> else n)"
        using False unfolding n1 by (auto simp: map_of_update)
      then have "i \<in> set (map fst out)" using map_of_SomeD' [OF n(1)] all by blast
      moreover have "length ?nodes \<ge> 1" using n(1) by (cases ?nodes) auto
      ultimately show ?thesis using n(2) deg [OF n(1)] count by simp
    qed
  qed
qed

lemma filter_one_out:
  assumes "distinct (map fst xs)" and "i \<in> fst ` set xs"
  shows "length (filter (\<lambda>c. fst c \<noteq> i) xs) = length xs - 1"
proof -
  have "map fst (filter (\<lambda>c. fst c \<noteq> i) ys) = removeAll i (map fst ys)" for ys by (induction ys) auto
  then have "length (filter (\<lambda>c. fst c \<noteq> i) xs) = length (remove1 i (map fst xs))"
    using distinct_remove1_removeAll [OF assms(1)] by (metis length_map)
  then show ?thesis using assms(2) by (simp add: length_remove1)
qed

lemma move_complete:
  assumes "hnsw_ok ix" and "complete_graph (hx_nodes ix)" and "map_of (hx_nodes ix) i = Some existing"
    and "length (hx_nodes ix) \<le> Suc (hx_maxNeighbors ix)"
  shows "complete_graph (hx_nodes (hnsw_move h i existing vector ix))"
proof -
  let ?mx = "hx_maxNeighbors ix" and ?nodes = "hx_nodes ix" and ?moved = "existing\<lparr>hn_vector := vector\<rparr>"
  let ?n0 = "AList.update i ?moved ?nodes" and ?r = "hx_nodes (hnsw_move h i existing vector ix)"
  let ?ix0 = "ix\<lparr>hx_nodes := ?n0\<rparr>"
  have wf: "nodes_ok ?mx ?nodes" using assms(1) by (simp add: hnsw_ok_def)
  have i: "i \<in> set (keys ?nodes)" using assms(3) by (rule map_of_SomeD')
  have keys: "keys ?n0 = keys ?nodes" using i by (simp add: keys_update)
  have "linked_ok ?mx ?nodes i existing" using wf assms(3) by (simp add: nodes_ok_def)
  then have "linked_ok ?mx ?n0 i ?moved" by (simp add: linked_ok_def keys)
  then have n0: "nodes_ok ?mx ?n0" by (rule nodes_ok_update [OF wf])
  have ok0: "hnsw_ok ?ix0" using assms(1) n0 by (simp add: hnsw_ok_def)
  have full0: "complete_graph ?n0"
    using assms(2,3) unfolding complete_graph_def keys by (simp add: map_of_update)
  have len0: "length ?n0 = length ?nodes" using i by (simp add: length_update)
  obtain out ix1 where search: "searchInternal h vector (?mx + 1) ?ix0 = (out, ix1)" by (metis surj_pair)
  note r = search_results [OF ok0 search]
  note ids = nearest_ids [OF r(1)]
  have count: "length out = length ?nodes"
    using complete_search(1) [OF ok0 _ _ search] full0 assms(4) by (simp add: len0)
  then have "card (set (map fst out)) = card (set (keys ?n0))"
    using distinct_card [OF ids(3)] distinct_card [of "keys ?n0"] n0 by (simp add: nodes_ok_def wf_map_def len0)
  with ids(4) have "set (map fst out) = set (keys ?n0)" by (intro card_subset_eq) simp_all
  then have mem: "i \<in> fst ` set out" using i keys by simp
  let ?ns = "map fst (take ?mx (filter (\<lambda>c. fst c \<noteq> i) out))"
  have "distinct ?ns" using ids(3) by (simp add: take_map [symmetric] distinct_map_filter)
  then have f: "fold set_add ?ns [] = ?ns" using fold_set_add_distinct [of "[]" ?ns] by simp
  obtain e where ix1: "ix1 = ?ix0\<lparr>hx_entryPointId := e\<rparr>" using r(2) by blast
  let ?node = "?moved\<lparr>hn_neighbors := ?ns\<rparr>"
  have res: "?r = AList.update i ?node ?n0" unfolding hnsw_move_def Let_def search by (simp add: f ix1)
  have lens: "length ?ns = length ?nodes - 1" "length ?r = length ?nodes"
    using filter_one_out [OF ids(3) mem] assms(4) i keys unfolding res by (simp_all add: count length_update)
  show ?thesis
  proof (rule complete_graphI)
    show "nodes_ok (hx_maxNeighbors (hnsw_move h i existing vector ix)) ?r"
      using move_ok(1) [OF assms(1,3), of h vector] by (simp add: hnsw_ok_def)
    fix j node assume j: "map_of ?r j = Some node"
    show "length (hn_neighbors node) = length ?r - 1"
    proof (cases "j = i")
      case True
      then have "node = ?node" using j by (simp add: res map_of_update)
      then show ?thesis using lens by simp
    next
      case False
      then have "map_of ?nodes j = Some node" using j by (simp add: res map_of_update)
      then show ?thesis using complete_degree [OF wf assms(2)] lens(2) by simp
    qed
  qed
qed

lemma add_complete:
  assumes "hnsw_ok ix" and "length (hx_nodes ix) \<le> Suc (hx_maxNeighbors ix) \<Longrightarrow> complete_graph (hx_nodes ix)"
    and "length (hx_nodes (snd (hnsw_add h i v ix))) \<le> Suc (hx_maxNeighbors ix)"
  shows "complete_graph (hx_nodes (snd (hnsw_add h i v ix)))"
proof (cases "assertVector h v ix")
  case (Inr u)
  show ?thesis
  proof (cases "map_of (hx_nodes ix) i")
    case None
    have "length (hx_nodes (hnsw_insert h i (vec_normalize h v) ix)) = Suc (length (hx_nodes ix))"
      using arg_cong [OF insert_ok(2) [OF assms(1) None, of h "vec_normalize h v"], of length] by simp
    then show ?thesis
      using insert_complete [OF assms(1) assms(2) None] assms(3) by (simp add: hnsw_add_def Inr None)
  next
    case (Some existing)
    have "length (hx_nodes (hnsw_move h i existing (vec_normalize h v) ix)) = length (hx_nodes ix)"
      using arg_cong [OF move_ok(2) [OF assms(1) Some, of h "vec_normalize h v"], of length] by simp
    then show ?thesis
      using move_complete [OF assms(1) assms(2) Some] assms(3) by (simp add: hnsw_add_def Inr Some)
  qed
qed (use assms in \<open>simp add: hnsw_add_def\<close>)

lemma reached_complete:
  "hnsw_reached h d mx ef ix \<Longrightarrow> length (hx_nodes ix) \<le> Suc (hx_maxNeighbors ix) \<Longrightarrow> complete_graph (hx_nodes ix)"
proof (induction rule: hnsw_reached.induct)
  case reached_new
  show ?case by (simp add: newHnswIndex_def complete_graph_def)
next
  case (reached_add ix i v)
  then show ?case using add_complete [of ix h i v] reached_ok [OF reached_add.hyps] add_frame [of h i v ix] by simp
next
  case (reached_search ix q k)
  then show ?case using search_frame [of ix h q k] reached_ok [OF reached_search.hyps] by auto
next
  case (reached_clear ix)
  then show ?case by (simp add: hnsw_clear_def complete_graph_def)
next
  case (reached_load ix ix')
  have ok: "hnsw_ok ix" "hx_dimensions ix' = hx_dimensions ix" "hx_maxNeighbors ix' = hx_maxNeighbors ix"
    using reached_ok [OF reached_load.hyps(1)] reached_ok [OF reached_load.hyps(2)] by simp_all
  note nodes = reload_ok(2) [OF ok(1,2)]
  have "hx_maxNeighbors (snd (hnsw_load (hnsw_save ix) ix')) = hx_maxNeighbors ix'"
    by (simp add: hnsw_load_def hnsw_save_def Let_def)
  with reached_load.prems reached_load.IH(1) show ?case by (simp add: nodes ok(3))
qed

section \<open>The properties\<close>

text \<open>
  C29: Whatever vectors were added, moved, searched, cleared or loaded before, a search returns at most \<open>k\<close> distinct
  stored identifiers with the exact score of their vectors, best first, and leaves the nodes as they were; the graph
  has no dangling link, no self link and no more neighbours per node than its bound.
\<close>

theorem hnsw_search_sound:
  assumes "hnsw_reached h d mx ef ix" and "hnsw_search h q k ix = (Inr out, ix')"
  shows "length out \<le> k \<and> distinct (map fst out) \<and> sorted_wrt (\<lambda>a b. snd a \<ge> snd b) out \<and>
    (\<forall>c \<in> set out. \<exists>node. map_of (hx_nodes ix) (fst c) = Some node \<and> snd c = vec_cosine h (vec_normalize h q) (hn_vector node)) \<and>
    hx_nodes ix' = hx_nodes ix \<and> nodes_ok (hx_maxNeighbors ix) (hx_nodes ix)"
proof -
  have ok: "hnsw_ok ix" using reached_ok [OF assms(1)] by simp
  obtain out1 ix1 where search: "searchInternal h (vec_normalize h q) k ix = (out1, ix1)" by (metis surj_pair)
  then have "out1 = out" "ix1 = ix'" using assms(2) by (auto simp: hnsw_search_def split: sum.splits)
  note search = search [unfolded this]
  obtain e where e: "ix' = ix\<lparr>hx_entryPointId := e\<rparr>" using search_results(2) [OF ok search] by blast
  with search_results(1) [OF ok search] ok show ?thesis by (simp add: results_ok_def scored_ok_def hnsw_ok_def)
qed

definition dot_host :: "int float_ops" where
  "dot_host = \<lparr>fo_zero = 0, fo_one = 1, fo_minus_one = - 1, fo_add = (+), fo_mul = (*), fo_div = (div), fo_hypot = (\<lambda>_. 1)\<rparr>"

definition three_nodes :: "int HnswIndex" where
  "three_nodes = snd (hnsw_add dot_host ''c'' [3, 4] (snd (hnsw_add dot_host ''b'' [0, 5]
     (snd (hnsw_add dot_host ''a'' [5, 0] (newHnswIndex 2 (Some 2) None))))))"

lemma three_reached: "hnsw_reached dot_host 2 (Some 2) None three_nodes"
  unfolding three_nodes_def by (intro reached_add reached_new)

lemma three_search: "hnsw_search dot_host [4, 3] 2 three_nodes = (Inr [(''c'', 24), (''a'', 20)], three_nodes)"
  by code_simp

theorem hnsw_search_sound_witness:
  "length [(''c'', 24 :: int), (''a'', 20)] \<le> 2 \<and> nodes_ok (hx_maxNeighbors three_nodes) (hx_nodes three_nodes)"
  using hnsw_search_sound [OF three_reached three_search] by simp

text \<open>
  C28: As long as the index holds at most one node more than the neighbour bound and no more than the beam, its answer is
  the exhaustive one: \<open>min k n\<close> results, and no stored vector left out scores higher than one returned.
\<close>

theorem hnsw_small_exact:
  assumes "hnsw_reached h d mx ef ix" and "length (hx_nodes ix) \<le> Suc (hx_maxNeighbors ix)"
    and "length (hx_nodes ix) \<le> max k (hx_efSearch ix)" and "hnsw_search h q k ix = (Inr out, ix')"
  shows "length out = min k (length (hx_nodes ix)) \<and>
    (\<forall>i node c. map_of (hx_nodes ix) i = Some node \<and> i \<notin> fst ` set out \<and> c \<in> set out \<longrightarrow>
       vec_cosine h (vec_normalize h q) (hn_vector node) \<le> snd c)"
proof -
  have ok: "hnsw_ok ix" using reached_ok [OF assms(1)] by simp
  have full: "complete_graph (hx_nodes ix)" by (rule reached_complete [OF assms(1,2)])
  obtain out1 ix1 where search: "searchInternal h (vec_normalize h q) k ix = (out1, ix1)" by (metis surj_pair)
  then have "out1 = out" "ix1 = ix'" using assms(4) by (auto simp: hnsw_search_def split: sum.splits)
  with complete_search [OF ok full assms(3) search] show ?thesis by blast
qed

lemma three_bounds: "length (hx_nodes three_nodes) = 3" "hx_maxNeighbors three_nodes = 2" "hx_efSearch three_nodes = 32"
  "map_of (hx_nodes three_nodes) ''b'' = Some \<lparr>hn_vector = [0, 5], hn_neighbors = [''a'', ''c'']\<rparr>"
  by code_simp+

theorem hnsw_small_exact_witness:
  "vec_cosine dot_host (vec_normalize dot_host [4, 3]) [0, 5] \<le> 20"
proof -
  have "map_of (hx_nodes three_nodes) ''b'' = Some \<lparr>hn_vector = [0, 5], hn_neighbors = [''a'', ''c'']\<rparr> \<and>
      ''b'' \<notin> fst ` set [(''c'', 24 :: int), (''a'', 20)] \<and> (''a'', 20) \<in> set [(''c'', 24 :: int), (''a'', 20)]"
    using three_bounds(4) by simp
  moreover have "length (hx_nodes three_nodes) \<le> Suc (hx_maxNeighbors three_nodes)"
      "length (hx_nodes three_nodes) \<le> max 2 (hx_efSearch three_nodes)"
    unfolding three_bounds by simp_all
  note hnsw_small_exact [OF three_reached this three_search]
  ultimately have "vec_cosine dot_host (vec_normalize dot_host [4, 3]) (hn_vector \<lparr>hn_vector = [0, 5], hn_neighbors = [''a'', ''c'']\<rparr>)
      \<le> snd (''a'', 20)"
    by blast
  then show ?thesis by simp
qed

end
