(* ===== verification/EncryptedBlob.thy ===== *)
theory EncryptedBlob
  imports JsonRoundtrip Errors
begin

text \<open>
  Encrypted files of the incident tools (\<open>scripts/lib/encrypted-blob.mts\<close>): a JSON object around the output of
  AES-256-GCM with a key derived by scrypt from a passphrase.

  SHA-256 (in hexadecimal), scrypt with the fixed parameters of \<open>deriveKey\<close>, the cipher and base64 are fields of
  \<open>blob_host\<close>; bytes are character lists. The random salt and nonce are arguments.
\<close>

record blob_host =
  bh_sha256 :: "string \<Rightarrow> string"
  bh_deriveKey :: "string \<Rightarrow> string \<Rightarrow> string"
  bh_seal :: "string \<Rightarrow> string \<Rightarrow> string \<Rightarrow> string \<times> string"
  bh_open :: "string \<Rightarrow> string \<Rightarrow> string \<Rightarrow> string \<Rightarrow> (string, string) result"
  bh_base64 :: "string \<Rightarrow> string"
  bh_unbase64 :: "string \<Rightarrow> string"
  bh_buffer_from :: "json option \<Rightarrow> (string, string) result"
  bh_parse_error :: "string \<Rightarrow> string"

section \<open>Checks of a parsed value\<close>

text \<open>The first check that fails gives the error that is thrown.\<close>

fun requires :: "(bool \<times> string) list \<Rightarrow> (string, unit) result" where
  "requires [] = Inr ()"
| "requires ((ok, message) # rest) = (if ok then requires rest else Inl message)"

definition is_text :: "json option \<Rightarrow> bool" where
  "is_text v = (case v of Some (JStr s) \<Rightarrow> s \<noteq> '''' | _ \<Rightarrow> False)"

definition is_count :: "json option \<Rightarrow> bool" where
  "is_count v = (case v of Some (JNum n) \<Rightarrow> n \<ge> 0 | _ \<Rightarrow> False)"

definition is_obj :: "json option \<Rightarrow> bool" where
  "is_obj v = (case v of Some (JObj _) \<Rightarrow> True | _ \<Rightarrow> False)"

definition present :: "json option \<Rightarrow> bool" where
  "present v \<longleftrightarrow> v \<noteq> None \<and> v \<noteq> Some JNull"

definition at_path :: "json \<Rightarrow> string list \<Rightarrow> json option" where
  "at_path v ks = fold (\<lambda>k r. Option.bind r (\<lambda>o'. jfield o' k)) ks (Some v)"

definition the_text :: "json option \<Rightarrow> string" where
  "the_text v = or_else (jstring v) ''''"

definition the_num :: "json option \<Rightarrow> int" where
  "the_num v = or_else (jnumber v) 0"

lemma requires_Inr: "requires cs = Inr u \<longleftrightarrow> list_all fst cs"
  by (induction cs rule: requires.induct) auto

section \<open>The blob\<close>

definition FORMAT :: string where "FORMAT = ''memphis.encrypted-blob.v1''"
definition ALGORITHM :: string where "ALGORITHM = ''aes-256-gcm''"

definition encryptBlob :: "blob_host \<Rightarrow> string \<Rightarrow> string \<Rightarrow> string \<Rightarrow> string \<Rightarrow> string \<Rightarrow> string \<Rightarrow> json" where
  "encryptBlob h salt iv plaintext passphrase purpose generatedAt =
     (case bh_seal h (bh_deriveKey h passphrase salt) iv plaintext of
        (ciphertext, authTag) \<Rightarrow>
          JObj [(''schemaVersion'', JNum 1), (''format'', JStr FORMAT), (''purpose'', JStr purpose),
                (''generatedAt'', JStr generatedAt), (''algorithm'', JStr ALGORITHM),
                (''kdf'', JObj [(''name'', JStr ''scrypt''), (''salt'', JStr (bh_base64 h salt)), (''N'', JNum 16384),
                                (''r'', JNum 8), (''p'', JNum 1), (''keyLength'', JNum 32)]),
                (''iv'', JStr (bh_base64 h iv)), (''authTag'', JStr (bh_base64 h authTag)),
                (''ciphertext'', JStr (bh_base64 h ciphertext)), (''plaintextSha256'', JStr (bh_sha256 h plaintext)),
                (''plaintextBytes'', JNum (int (length plaintext)))])"

definition assertValidEncryptedBlob :: "json \<Rightarrow> (string, unit) result" where
  "assertValidEncryptedBlob v = requires
     ([(is_object v, ''encrypted blob must be a JSON object''),
       (jfield v ''schemaVersion'' = Some (JNum 1), ''encrypted blob schemaVersion must be 1''),
       (jfield v ''format'' = Some (JStr FORMAT), ''encrypted blob format must be '' @ FORMAT),
       (jfield v ''algorithm'' = Some (JStr ALGORITHM), ''encrypted blob algorithm must be '' @ ALGORITHM),
       (is_text (jfield v ''purpose''), ''encrypted blob purpose must be a non-empty string''),
       (is_text (jfield v ''generatedAt''), ''encrypted blob generatedAt must be a non-empty string''),
       (is_obj (jfield v ''kdf''), ''encrypted blob kdf must be an object''),
       (at_path v [''kdf'', ''name''] = Some (JStr ''scrypt''), ''encrypted blob kdf.name must be scrypt'')] @
      map (\<lambda>field. (present (at_path v [''kdf'', field]), ''encrypted blob kdf.'' @ field @ '' is required''))
        [''salt'', ''N'', ''r'', ''p'', ''keyLength''] @
      [(is_text (jfield v ''iv''), ''encrypted blob iv is required''),
       (is_text (jfield v ''authTag''), ''encrypted blob authTag is required''),
       (is_text (jfield v ''ciphertext''), ''encrypted blob ciphertext is required''),
       (is_text (jfield v ''plaintextSha256''), ''encrypted blob plaintextSha256 is required''),
       (is_count (jfield v ''plaintextBytes''), ''encrypted blob plaintextBytes must be a non-negative number'')])"

definition parse_json :: "blob_host \<Rightarrow> string \<Rightarrow> (string, json) result" where
  "parse_json h raw = (case JSON_parse raw of None \<Rightarrow> Inl (bh_parse_error h raw) | Some v \<Rightarrow> Inr v)"

definition parseEncryptedBlob :: "blob_host \<Rightarrow> string \<Rightarrow> (string, json) result" where
  "parseEncryptedBlob h raw =
     rbind (parse_json h raw) (\<lambda>parsed. rbind (assertValidEncryptedBlob parsed) (\<lambda>_. Inr parsed))"

definition isEncryptedBlobJson :: "json \<Rightarrow> bool" where
  "isEncryptedBlobJson v \<longleftrightarrow>
     is_object v \<and> jfield v ''format'' = Some (JStr FORMAT) \<and> jfield v ''schemaVersion'' = Some (JNum 1)"

text \<open>\<open>Buffer.from(value, 'base64')\<close>: the salt need not be a string.\<close>

definition buffer_from :: "blob_host \<Rightarrow> json option \<Rightarrow> (string, string) result" where
  "buffer_from h v = (case v of Some (JStr s) \<Rightarrow> Inr (bh_unbase64 h s) | _ \<Rightarrow> bh_buffer_from h v)"

definition decryptBlob :: "blob_host \<Rightarrow> json \<Rightarrow> string \<Rightarrow> (string, string) result" where
  "decryptBlob h blob passphrase =
     rbind (buffer_from h (at_path blob [''kdf'', ''salt''])) (\<lambda>salt.
     rbind (buffer_from h (jfield blob ''iv'')) (\<lambda>iv.
     rbind (buffer_from h (jfield blob ''authTag'')) (\<lambda>authTag.
     rbind (buffer_from h (jfield blob ''ciphertext'')) (\<lambda>ciphertext.
     rbind (bh_open h (bh_deriveKey h passphrase salt) iv authTag ciphertext) (\<lambda>plaintext.
       if the_text (jfield blob ''plaintextSha256'') \<noteq> bh_sha256 h plaintext then Inl ''encrypted blob plaintext hash mismatch''
       else if jfield blob ''plaintextBytes'' \<noteq> Some (JNum (int (length plaintext))) then
         Inl (''encrypted blob plaintext size mismatch (expected='' @ show_int (the_num (jfield blob ''plaintextBytes'')) @
              '', actual='' @ show_nat (length plaintext) @ '')'')
       else Inr plaintext)))))"

section \<open>Encrypting and decrypting\<close>

text \<open>What is used of the cipher and of base64: decryption with the same key and nonce, and lengths.\<close>

definition cipher_laws :: "blob_host \<Rightarrow> bool" where
  "cipher_laws h \<longleftrightarrow>
     (\<forall>k iv p. bh_open h k iv (snd (bh_seal h k iv p)) (fst (bh_seal h k iv p)) = Inr p) \<and>
     (\<forall>k iv p. snd (bh_seal h k iv p) \<noteq> '''' \<and> (fst (bh_seal h k iv p) = '''' \<longleftrightarrow> p = '''')) \<and>
     (\<forall>x. bh_unbase64 h (bh_base64 h x) = x) \<and> (\<forall>x. bh_base64 h x = '''' \<longleftrightarrow> x = '''') \<and> (\<forall>x. bh_sha256 h x \<noteq> '''')"

lemmas blob_fields = encryptBlob_def at_path_def is_text_def is_count_def is_obj_def present_def

lemma encryptBlob_wf: "json_wf (encryptBlob h salt iv p pass purpose at)"
  by (simp add: encryptBlob_def split: prod.split)

lemma encryptBlob_valid:
  assumes "cipher_laws h" and "p \<noteq> ''''" and "iv \<noteq> ''''" and "purpose \<noteq> ''''" and "at \<noteq> ''''"
  shows "assertValidEncryptedBlob (encryptBlob h salt iv p pass purpose at) = Inr ()"
proof -
  obtain c t where seal: "bh_seal h (bh_deriveKey h pass salt) iv p = (c, t)" by (metis surj_pair)
  have "c \<noteq> ''''" "t \<noteq> ''''" using assms(1,2) seal unfolding cipher_laws_def by (metis fst_conv, metis snd_conv)
  then have "bh_base64 h c \<noteq> ''''" "bh_base64 h t \<noteq> ''''" "bh_base64 h iv \<noteq> ''''" "bh_sha256 h p \<noteq> ''''"
    using assms(1,3) unfolding cipher_laws_def by metis+
  then show ?thesis
    using assms(4,5) by (simp add: assertValidEncryptedBlob_def blob_fields seal)
qed

lemma decrypt_encrypt:
  assumes "cipher_laws h"
  shows "decryptBlob h (encryptBlob h salt iv p pass purpose at) pass = Inr p"
proof -
  obtain c t where seal: "bh_seal h (bh_deriveKey h pass salt) iv p = (c, t)" by (metis surj_pair)
  have "bh_open h (bh_deriveKey h pass salt) iv t c = Inr p"
    using assms seal unfolding cipher_laws_def by (metis fst_conv snd_conv)
  moreover have "bh_unbase64 h (bh_base64 h x) = x" for x using assms by (simp add: cipher_laws_def)
  ultimately show ?thesis
    by (simp add: decryptBlob_def buffer_from_def encryptBlob_def seal at_path_def the_text_def or_else_def)
qed

lemma parse_encrypted:
  assumes "cipher_laws h" and "p \<noteq> ''''" and "iv \<noteq> ''''" and "purpose \<noteq> ''''" and "at \<noteq> ''''"
  shows "parseEncryptedBlob h (JSON_stringify2 (encryptBlob h salt iv p pass purpose at)) =
    Inr (encryptBlob h salt iv p pass purpose at)"
  by (simp add: parseEncryptedBlob_def parse_json_def parse_stringify2 encryptBlob_wf encryptBlob_valid [OF assms])

lemma encrypted_is_blob: "isEncryptedBlobJson (encryptBlob h salt iv p pass purpose at)"
  by (simp add: isEncryptedBlobJson_def encryptBlob_def split: prod.split)

lemma decrypt_checked:
  "decryptBlob h blob pass = Inr p \<Longrightarrow>
   the_text (jfield blob ''plaintextSha256'') = bh_sha256 h p \<and> jfield blob ''plaintextBytes'' = Some (JNum (int (length p)))"
  by (auto simp: decryptBlob_def rbind_Inr_iff split: if_splits)

text \<open>
  A file encrypted by \<open>encryptBlob\<close> and written as JSON is recognised, parsed and decrypted to the same bytes with
  the same passphrase; whatever decrypts has the digest and the length the blob records.
\<close>

theorem blob_roundtrip:
  assumes "cipher_laws h" and "p \<noteq> ''''" and "iv \<noteq> ''''" and "purpose \<noteq> ''''" and "at \<noteq> ''''"
  shows "\<exists>blob. parseEncryptedBlob h (JSON_stringify2 (encryptBlob h salt iv p pass purpose at)) = Inr blob \<and>
      isEncryptedBlobJson blob \<and> decryptBlob h blob pass = Inr p \<and>
      (\<forall>q pass'. decryptBlob h blob pass' = Inr q \<longrightarrow> bh_sha256 h q = bh_sha256 h p \<and> length q = length p)"
proof -
  let ?blob = "encryptBlob h salt iv p pass purpose at"
  have "bh_sha256 h q = bh_sha256 h p \<and> length q = length p" if q: "decryptBlob h ?blob pass' = Inr q" for q pass'
    using decrypt_checked [OF q] decrypt_checked [OF decrypt_encrypt [OF assms(1)], of salt iv p pass purpose at] by simp
  with parse_encrypted [OF assms] encrypted_is_blob decrypt_encrypt [OF assms(1)] show ?thesis by blast
qed

definition demo_blob_host :: blob_host where
  "demo_blob_host = \<lparr>bh_sha256 = (\<lambda>s. CHR ''#'' # s), bh_deriveKey = (@), bh_seal = (\<lambda>k iv p. (p, k @ iv @ ''.'')),
     bh_open = (\<lambda>k iv t c. if t = k @ iv @ ''.'' then Inr c else Inl ''Unsupported state or unable to authenticate data''),
     bh_base64 = (\<lambda>s. s), bh_unbase64 = (\<lambda>s. s), bh_buffer_from = (\<lambda>_. Inl ''ERR_INVALID_ARG_TYPE''),
     bh_parse_error = (\<lambda>_. ''Unexpected token'')\<rparr>"

lemma demo_cipher_laws: "cipher_laws demo_blob_host"
  by (simp add: cipher_laws_def demo_blob_host_def)

theorem blob_roundtrip_witness:
  "\<exists>blob. parseEncryptedBlob demo_blob_host (JSON_stringify2 (encryptBlob demo_blob_host ''s'' ''i'' ''secret'' ''pw'' ''p'' ''t'')) = Inr blob \<and>
     decryptBlob demo_blob_host blob ''pw'' = Inr ''secret''"
  using blob_roundtrip [OF demo_cipher_laws, of "''secret''" "''i''" "''p''" "''t''" "''s''" "''pw''"] by auto

end
