(* ===== verification/IncidentManifest.thy ===== *)
theory IncidentManifest
  imports EncryptedBlob ChainAdapter Paths
begin

text \<open>
  The verifier of incident manifests (\<open>scripts/verify-incident-manifest.mts\<close>): it reads a manifest (perhaps
  encrypted), the bundle of evidence it describes, a bundle of public keys signed by a trust root, and checks digests,
  sizes, summaries and signatures; every deviation is an error, the run is accepted when there is none, and the outcome
  is appended to the system chain.

  The command line, the environment and the files are fields of \<open>script_env\<close>; Ed25519 is a pair of fields of
  \<open>verify_host\<close>. The checks and the errors that the code's functions update in place are the state \<open>verify_state\<close>.
  The errors of \<open>resolvePublicKeyPem\<close> are collected apart in the code and appended right after; here they go straight
  to the end of the list.
\<close>

record script_env =
  se_argv :: "string list"
  se_vars :: "string \<Rightarrow> string option"
  se_cwd :: string
  se_files :: "string \<Rightarrow> string option"
  se_read_error :: "string \<Rightarrow> string"

record verify_host =
  vk_blob :: blob_host
  vk_createPublicKey :: "string \<Rightarrow> (string, unit) result"
  vk_verifyDetached :: "string \<Rightarrow> string \<Rightarrow> string \<Rightarrow> (string, bool) result"

abbreviation sha256Hex :: "verify_host \<Rightarrow> string \<Rightarrow> string" where
  "sha256Hex h \<equiv> bh_sha256 (vk_blob h)"

section \<open>Arguments and policy\<close>

definition parseArg :: "script_env \<Rightarrow> string \<Rightarrow> string option" where
  "parseArg env flag =
     (case dropWhile (\<lambda>a. a \<noteq> flag) (se_argv env) of
        _ # v # _ \<Rightarrow> if v = '''' then None else Some v
      | _ \<Rightarrow> None)"

definition hasFlag :: "script_env \<Rightarrow> string \<Rightarrow> bool" where
  "hasFlag env flag \<longleftrightarrow> flag \<in> set (se_argv env)"

text \<open>\<open>arg ?? env ?? null\<close>, and a value that counts as given where it is tested for truth.\<close>

definition arg_or_env :: "script_env \<Rightarrow> string \<Rightarrow> string \<Rightarrow> string option" where
  "arg_or_env env flag var = orElse (parseArg env flag) (se_vars env var)"

definition given :: "string option \<Rightarrow> string option" where
  "given v = (if v = Some '''' then None else v)"

definition blank :: "string option \<Rightarrow> bool" where
  "blank v = (case v of None \<Rightarrow> True | Some s \<Rightarrow> trim s = '''')"

definition parse_count :: "string \<Rightarrow> int option" where
  "parse_count raw = (case parse_int raw of None \<Rightarrow> None | Some n \<Rightarrow> if n \<ge> 0 then Some n else None)"

definition parseIntArg :: "script_env \<Rightarrow> string \<Rightarrow> nat \<Rightarrow> string \<Rightarrow> nat" where
  "parseIntArg env flag fallback envName =
     (case Option.bind (parseArg env flag) parse_count of
        Some n \<Rightarrow> nat n
      | None \<Rightarrow>
          (if blank (se_vars env envName) then fallback
           else (case Option.bind (se_vars env envName) parse_count of Some n \<Rightarrow> nat n | None \<Rightarrow> fallback)))"

definition parseOptionalBool :: "string option \<Rightarrow> bool option" where
  "parseOptionalBool raw =
     (case raw of
        None \<Rightarrow> None
      | Some s \<Rightarrow> if trim s = '''' then None else Some (to_lower (trim s) = ''true''))"

datatype VerifyProfileName = TrustRootStrict | LegacyCompat

record VerifyProfileDefaults =
  pd_requireSignature :: bool
  pd_requireSignedKeyBundle :: bool
  pd_requireCognitiveSummaries :: bool
  pd_requireChainEvent :: bool
  pd_chainEventRetries :: nat
  pd_chainEventBackoffMs :: nat

definition resolveVerifyProfileName :: "script_env \<Rightarrow> (string, VerifyProfileName option) result" where
  "resolveVerifyProfileName env =
     (case given (arg_or_env env ''--profile'' ''MEMPHIS_INCIDENT_MANIFEST_VERIFY_PROFILE'') of
        None \<Rightarrow> Inr None
      | Some raw \<Rightarrow>
          if raw = ''trust-root-strict'' then Inr (Some TrustRootStrict)
          else if raw = ''legacy-compat'' then Inr (Some LegacyCompat)
          else Inl (''unsupported verify profile: '' @ raw @ ''; expected one of trust-root-strict, legacy-compat''))"

definition resolveVerifyProfileDefaults :: "VerifyProfileName option \<Rightarrow> VerifyProfileDefaults" where
  "resolveVerifyProfileDefaults profile =
     (case profile of
        Some TrustRootStrict \<Rightarrow>
          \<lparr>pd_requireSignature = True, pd_requireSignedKeyBundle = True, pd_requireCognitiveSummaries = True,
           pd_requireChainEvent = True, pd_chainEventRetries = 2, pd_chainEventBackoffMs = 50\<rparr>
      | Some LegacyCompat \<Rightarrow>
          \<lparr>pd_requireSignature = False, pd_requireSignedKeyBundle = False, pd_requireCognitiveSummaries = False,
           pd_requireChainEvent = False, pd_chainEventRetries = 0, pd_chainEventBackoffMs = 0\<rparr>
      | None \<Rightarrow>
          \<lparr>pd_requireSignature = False, pd_requireSignedKeyBundle = False, pd_requireCognitiveSummaries = False,
           pd_requireChainEvent = True, pd_chainEventRetries = 2, pd_chainEventBackoffMs = 50\<rparr>)"

definition read_file :: "script_env \<Rightarrow> string \<Rightarrow> (string, string) result" where
  "read_file env path = (case se_files env path of None \<Rightarrow> Inl (se_read_error env path) | Some s \<Rightarrow> Inr s)"

definition resolveDecryptionPassphrase :: "verify_host \<Rightarrow> script_env \<Rightarrow> (string, string option) result" where
  "resolveDecryptionPassphrase h env =
     (let argRaw = parseArg env ''--decryption-passphrase''; argBase64 = parseArg env ''--decryption-passphrase-base64'';
          argFile = parseArg env ''--decryption-passphrase-file'';
          envRaw = se_vars env ''MEMPHIS_INCIDENT_BUNDLE_DECRYPTION_PASSPHRASE'';
          envBase64 = se_vars env ''MEMPHIS_INCIDENT_BUNDLE_DECRYPTION_PASSPHRASE_BASE64'';
          envFile = se_vars env ''MEMPHIS_INCIDENT_BUNDLE_DECRYPTION_PASSPHRASE_FILE'';
          declared = filter (\<lambda>v. \<not> blank v) [argRaw, argBase64, argFile, envRaw, envBase64, envFile]
      in if declared = [] then Inr None
         else if length declared > 1 then
           Inl (''multiple decryption passphrase sources provided; use exactly one of --decryption-passphrase, '' @
                ''--decryption-passphrase-base64, --decryption-passphrase-file (or matching env vars)'')
         else if given argBase64 \<noteq> None \<or> given envBase64 \<noteq> None then
           Inr (Some (bh_unbase64 (vk_blob h) (or_else (orElse argBase64 envBase64) '''')))
         else if given argFile \<noteq> None \<or> given envFile \<noteq> None then
           rbind (read_file env (path_resolve (se_cwd env) (or_else (orElse argFile envFile) '''')))
             (\<lambda>text. Inr (Some (trim text)))
         else Inr (orElse argRaw envRaw))"

definition resolveManifestPath :: "script_env \<Rightarrow> (string, string) result" where
  "resolveManifestPath env =
     (case given (orElse (parseArg env ''--manifest-path'')
                    (arg_or_env env ''--manifest'' ''MEMPHIS_INCIDENT_BUNDLE_MANIFEST_PATH'')) of
        None \<Rightarrow> Inl ''missing required --manifest-path (or MEMPHIS_INCIDENT_BUNDLE_MANIFEST_PATH)''
      | Some provided \<Rightarrow> Inr (path_resolve (se_cwd env) provided))"

section \<open>The manifest\<close>

record BundleDescriptor =
  bd_path :: string
  bd_sha256 :: string
  bd_bytes :: int

record SignatureDescriptor =
  sg_value :: string
  sg_payloadSha256 :: string
  sg_keyFingerprint :: string
  sg_keyId :: "string option"

record CognitiveIntegrity =
  ci_included :: bool
  ci_count :: int
  ci_digestSha256 :: "string option"
  ci_schemaVersion :: "int option"
  ci_limit :: "int option"
  ci_journalPath :: "string option"

record EncryptedArtifacts =
  ea_bundle :: BundleDescriptor
  ea_manifest :: "string option"

record IncidentBundleManifest =
  im_generatedAt :: string
  im_bundle :: BundleDescriptor
  im_cognitiveReports :: "CognitiveIntegrity option"
  im_encryptedArtifacts :: "EncryptedArtifacts option"
  im_signature :: "SignatureDescriptor option"

definition is_num :: "json option \<Rightarrow> bool" where
  "is_num v = (case v of Some (JNum _) \<Rightarrow> True | _ \<Rightarrow> False)"

definition is_flag :: "json option \<Rightarrow> bool" where
  "is_flag v = (case v of Some (JBool _) \<Rightarrow> True | _ \<Rightarrow> False)"

definition absent :: "json option \<Rightarrow> bool" where
  "absent v \<longleftrightarrow> v = None \<or> v = Some JNull"

text \<open>The three fields of a bundle descriptor.\<close>

definition descriptor_checks :: "string \<Rightarrow> json \<Rightarrow> string list \<Rightarrow> (bool \<times> string) list" where
  "descriptor_checks name v at =
     [(is_text (at_path v (at @ [''path''])), ''manifest '' @ name @ ''.path must be a non-empty string''),
      (is_text (at_path v (at @ [''sha256''])), ''manifest '' @ name @ ''.sha256 must be a non-empty string''),
      (is_count (at_path v (at @ [''bytes''])), ''manifest '' @ name @ ''.bytes must be a non-negative number'')]"

definition cognitive_checks :: "json \<Rightarrow> (bool \<times> string) list" where
  "cognitive_checks v =
     (let row = (\<lambda>k. at_path v [''cognitiveReports'', k]);
          included = (row ''included'' = Some (JBool True))
      in [(is_obj (jfield v ''cognitiveReports''), ''manifest cognitiveReports must be an object when present''),
          (is_flag (row ''included''), ''manifest cognitiveReports.included must be a boolean''),
          (is_count (row ''count''), ''manifest cognitiveReports.count must be a non-negative integer''),
          (row ''digestSha256'' = Some JNull \<or> is_text (row ''digestSha256''),
           ''manifest cognitiveReports.digestSha256 must be a non-empty string or null''),
          (absent (row ''schemaVersion'') \<or> is_num (row ''schemaVersion''),
           ''manifest cognitiveReports.schemaVersion must be a finite number or null''),
          (absent (row ''limit'') \<or> is_count (row ''limit''),
           ''manifest cognitiveReports.limit must be a non-negative integer or null''),
          (absent (row ''journalPath'') \<or> is_text (row ''journalPath''),
           ''manifest cognitiveReports.journalPath must be a non-empty string or null''),
          (included \<or> row ''count'' = Some (JNum 0), ''manifest cognitiveReports.count must be 0 when included=false''),
          (included \<or> row ''digestSha256'' = Some JNull,
           ''manifest cognitiveReports.digestSha256 must be null when included=false''),
          (included \<longrightarrow> jstring (row ''digestSha256'') \<noteq> None,
           ''manifest cognitiveReports.digestSha256 must be present when included=true'')])"

definition encrypted_checks :: "json \<Rightarrow> (bool \<times> string) list" where
  "encrypted_checks v =
     (let row = (\<lambda>k. at_path v [''encryptedArtifacts'', k])
      in [(is_obj (jfield v ''encryptedArtifacts''), ''manifest encryptedArtifacts must be an object when present''),
          (row ''schemaVersion'' = Some (JNum 1), ''manifest encryptedArtifacts.schemaVersion must be 1''),
          (row ''format'' = Some (JStr FORMAT), ''manifest encryptedArtifacts.format must be memphis.encrypted-blob.v1''),
          (row ''algorithm'' = Some (JStr ALGORITHM), ''manifest encryptedArtifacts.algorithm must be aes-256-gcm''),
          (row ''kdf'' = Some (JStr ''scrypt''), ''manifest encryptedArtifacts.kdf must be scrypt''),
          (is_obj (row ''bundle''), ''manifest encryptedArtifacts.bundle must be an object'')] @
         descriptor_checks ''encryptedArtifacts.bundle'' v [''encryptedArtifacts'', ''bundle''] @
         (if row ''manifest'' = None then []
          else [(is_obj (row ''manifest''), ''manifest encryptedArtifacts.manifest must be an object when present''),
                (is_text (at_path v [''encryptedArtifacts'', ''manifest'', ''path'']),
                 ''manifest encryptedArtifacts.manifest.path must be a non-empty string'')]))"

definition signature_checks :: "json \<Rightarrow> (bool \<times> string) list" where
  "signature_checks v =
     (let row = (\<lambda>k. at_path v [''signature'', k])
      in [(is_obj (jfield v ''signature''), ''manifest signature must be an object when present''),
          (row ''algorithm'' = Some (JStr ''ed25519''), ''manifest signature.algorithm must be ed25519''),
          (is_text (row ''value''), ''manifest signature.value must be a non-empty string''),
          (is_text (row ''payloadSha256''), ''manifest signature.payloadSha256 must be a non-empty string''),
          (is_text (row ''keyFingerprint''), ''manifest signature.keyFingerprint must be a non-empty string''),
          (row ''keyId'' = None \<or> is_text (row ''keyId''), ''manifest signature.keyId must be a non-empty string when present'')])"

definition manifest_checks :: "json \<Rightarrow> (bool \<times> string) list" where
  "manifest_checks v =
     [(is_object v, ''manifest must be a JSON object''),
      (jfield v ''schemaVersion'' = Some (JNum 1), ''manifest schemaVersion must be 1''),
      (is_text (jfield v ''generatedAt''), ''manifest generatedAt must be a non-empty string''),
      (is_obj (jfield v ''bundle''), ''manifest bundle must be an object'')] @
     descriptor_checks ''bundle'' v [''bundle''] @
     (if jfield v ''cognitiveReports'' = None then [] else cognitive_checks v) @
     (if jfield v ''encryptedArtifacts'' = None then [] else encrypted_checks v) @
     (if jfield v ''signature'' = None then [] else signature_checks v)"

definition descriptor_at :: "json \<Rightarrow> string list \<Rightarrow> BundleDescriptor" where
  "descriptor_at v at =
     \<lparr>bd_path = the_text (at_path v (at @ [''path''])), bd_sha256 = the_text (at_path v (at @ [''sha256''])),
      bd_bytes = the_num (at_path v (at @ [''bytes'']))\<rparr>"

definition manifest_of :: "json \<Rightarrow> IncidentBundleManifest" where
  "manifest_of v =
     (let cog = (\<lambda>k. at_path v [''cognitiveReports'', k]); sig = (\<lambda>k. at_path v [''signature'', k])
      in \<lparr>im_generatedAt = the_text (jfield v ''generatedAt''), im_bundle = descriptor_at v [''bundle''],
          im_cognitiveReports =
            (if jfield v ''cognitiveReports'' = None then None
             else Some \<lparr>ci_included = (cog ''included'' = Some (JBool True)), ci_count = the_num (cog ''count''),
                        ci_digestSha256 = jstring (cog ''digestSha256''), ci_schemaVersion = jnumber (cog ''schemaVersion''),
                        ci_limit = jnumber (cog ''limit''), ci_journalPath = jstring (cog ''journalPath'')\<rparr>),
          im_encryptedArtifacts =
            (if jfield v ''encryptedArtifacts'' = None then None
             else Some \<lparr>ea_bundle = descriptor_at v [''encryptedArtifacts'', ''bundle''],
                        ea_manifest = jstring (at_path v [''encryptedArtifacts'', ''manifest'', ''path''])\<rparr>),
          im_signature =
            (if jfield v ''signature'' = None then None
             else Some \<lparr>sg_value = the_text (sig ''value''), sg_payloadSha256 = the_text (sig ''payloadSha256''),
                        sg_keyFingerprint = the_text (sig ''keyFingerprint''), sg_keyId = jstring (sig ''keyId'')\<rparr>)\<rparr>)"

definition parseManifestObject :: "json \<Rightarrow> (string, IncidentBundleManifest) result" where
  "parseManifestObject v = rbind (requires (manifest_checks v)) (\<lambda>_. Inr (manifest_of v))"

section \<open>State of a run\<close>

record verify_state =
  ck_schemaValid :: bool
  ck_manifestEncrypted :: bool
  ck_bundleExists :: bool
  ck_bundleEncrypted :: bool
  ck_bundleHashMatch :: bool
  ck_bundleSizeMatch :: bool
  ck_summaryMetadataPresent :: bool
  ck_summaryCountMatch :: bool
  ck_summaryDigestMatch :: bool
  ck_summaryRequirementSatisfied :: bool
  ck_signaturePresent :: bool
  ck_signatureVerified :: bool
  ck_payloadHashMatch :: bool
  ck_keyFingerprintMatch :: bool
  ck_keyIdMatch :: bool
  ck_keyBundleSignatureValid :: bool
  ck_keyBundleTrustRootMatch :: bool
  vs_errors :: "string list"

definition initial_state :: verify_state where
  "initial_state =
     \<lparr>ck_schemaValid = False, ck_manifestEncrypted = False, ck_bundleExists = False, ck_bundleEncrypted = False,
      ck_bundleHashMatch = False, ck_bundleSizeMatch = False, ck_summaryMetadataPresent = False,
      ck_summaryCountMatch = True, ck_summaryDigestMatch = True, ck_summaryRequirementSatisfied = True,
      ck_signaturePresent = False, ck_signatureVerified = False, ck_payloadHashMatch = False,
      ck_keyFingerprintMatch = False, ck_keyIdMatch = True, ck_keyBundleSignatureValid = True,
      ck_keyBundleTrustRootMatch = True, vs_errors = []\<rparr>"

definition push_error :: "string \<Rightarrow> verify_state \<Rightarrow> verify_state" where
  "push_error e s = s\<lparr>vs_errors := vs_errors s @ [e]\<rparr>"

definition push_unless :: "bool \<Rightarrow> string \<Rightarrow> verify_state \<Rightarrow> verify_state" where
  "push_unless ok e s = (if ok then s else push_error e s)"

section \<open>Reading the manifest and the bundle\<close>

definition loadManifest ::
  "verify_host \<Rightarrow> script_env \<Rightarrow> string \<Rightarrow> string option \<Rightarrow> verify_state \<Rightarrow>
   (IncidentBundleManifest \<times> json) option \<times> verify_state" where
  "loadManifest h env manifestPath passphrase s =
     (let accept = (\<lambda>s r. case r of
            Inl e \<Rightarrow> (None, push_error e s)
          | Inr (m, obj) \<Rightarrow> (Some (m, obj), s\<lparr>ck_schemaValid := True\<rparr>));
          parse_object = (\<lambda>obj. rbind (parseManifestObject obj) (\<lambda>m. Inr (m, obj)))
      in case rbind (read_file env manifestPath) (\<lambda>raw. rbind (parse_json (vk_blob h) raw) (\<lambda>v. Inr (raw, v))) of
           Inl e \<Rightarrow> (None, push_error e s)
         | Inr (raw, parsed) \<Rightarrow>
             if isEncryptedBlobJson parsed then
               (let s = s\<lparr>ck_manifestEncrypted := True\<rparr>
                in case given passphrase of
                     None \<Rightarrow> (None, push_error ''manifest is encrypted; provide --decryption-passphrase or matching env var'' s)
                   | Some p \<Rightarrow>
                       accept s (rbind (parseEncryptedBlob (vk_blob h) raw) (\<lambda>blob.
                                 rbind (decryptBlob (vk_blob h) blob p) (\<lambda>text.
                                 rbind (parse_json (vk_blob h) text) parse_object))))
             else accept s (parse_object parsed))"

definition from_manifest_dir :: "string \<Rightarrow> string \<Rightarrow> string" where
  "from_manifest_dir manifestPath path =
     (if starts_with path ''/'' then path else path_resolve (path_dirname manifestPath) path)"

definition resolveBundlePath :: "script_env \<Rightarrow> string \<Rightarrow> string \<Rightarrow> string" where
  "resolveBundlePath env bundlePath manifestPath =
     (case given (arg_or_env env ''--bundle-path'' ''MEMPHIS_INCIDENT_BUNDLE_PATH'') of
        Some override \<Rightarrow> path_resolve (se_cwd env) override
      | None \<Rightarrow> from_manifest_dir manifestPath bundlePath)"

definition bundle_candidates :: "IncidentBundleManifest \<Rightarrow> string \<Rightarrow> string \<Rightarrow> bool \<Rightarrow> string list" where
  "bundle_candidates m manifestPath plainPath preferEncrypted =
     (let encrypted =
            (case im_encryptedArtifacts m of
               None \<Rightarrow> []
             | Some ea \<Rightarrow> if bd_path (ea_bundle ea) = '''' then [] else [from_manifest_dir manifestPath (bd_path (ea_bundle ea))]) @
            [plainPath @ ''.enc'']
      in rev (remdups (rev (if preferEncrypted then encrypted @ [plainPath] else plainPath # encrypted))))"

definition resolveBundleBytes ::
  "verify_host \<Rightarrow> script_env \<Rightarrow> IncidentBundleManifest \<Rightarrow> string \<Rightarrow> string option \<Rightarrow> bool \<Rightarrow> verify_state \<Rightarrow>
   string \<times> string option \<times> verify_state" where
  "resolveBundleBytes h env m manifestPath passphrase preferEncrypted s =
     (let plainPath = resolveBundlePath env (bd_path (im_bundle m)) manifestPath
      in case find (\<lambda>c. se_files env c \<noteq> None) (bundle_candidates m manifestPath plainPath preferEncrypted) of
           None \<Rightarrow> (plainPath, None, push_error (''bundle file not found: '' @ plainPath) s)
         | Some candidate \<Rightarrow>
             (let s = s\<lparr>ck_bundleExists := True\<rparr>; bytes = or_else (se_files env candidate) ''''
              in case JSON_parse bytes of
                   None \<Rightarrow> (candidate, Some bytes, s)
                 | Some parsed \<Rightarrow>
                     if isEncryptedBlobJson parsed then
                       (let s = s\<lparr>ck_bundleEncrypted := True\<rparr>
                        in case given passphrase of
                             None \<Rightarrow> (candidate, None, push_error (''bundle file is encrypted ('' @ candidate @
                               ''); provide --decryption-passphrase or matching env var'') s)
                           | Some p \<Rightarrow>
                               (case rbind (parseEncryptedBlob (vk_blob h) bytes) (\<lambda>blob. decryptBlob (vk_blob h) blob p) of
                                  Inr plain \<Rightarrow> (candidate, Some plain, s)
                                | Inl _ \<Rightarrow> (candidate, Some bytes, s)))
                     else (candidate, Some bytes, s)))"

section \<open>Cognitive summaries\<close>

definition normalizeStringOrNull :: "json option \<Rightarrow> json" where
  "normalizeStringOrNull v = (case v of Some (JStr s) \<Rightarrow> JStr s | _ \<Rightarrow> JNull)"

definition normalizeNumberOrNull :: "json option \<Rightarrow> json" where
  "normalizeNumberOrNull v = (case v of Some (JNum n) \<Rightarrow> JNum n | _ \<Rightarrow> JNull)"

definition canonical_report :: "json \<Rightarrow> json" where
  "canonical_report row =
     (let text = (\<lambda>k. (k, normalizeStringOrNull (jfield row k))); num = (\<lambda>k. (k, normalizeNumberOrNull (jfield row k)))
      in JObj [num ''index'', text ''timestamp'', text ''hash'', text ''reportType'', text ''dataType'',
               num ''schemaVersion'', text ''source'', text ''generatedAt'', text ''input'', text ''path''])"

definition canonicalizeCognitiveReportsForDigest :: "json list \<Rightarrow> string" where
  "canonicalizeCognitiveReportsForDigest reports = JSON_stringify (JArr (map canonical_report reports))"

definition fail_summaries :: "string \<Rightarrow> verify_state \<Rightarrow> verify_state" where
  "fail_summaries e s =
     push_error e (s\<lparr>ck_summaryRequirementSatisfied := False, ck_summaryCountMatch := False, ck_summaryDigestMatch := False\<rparr>)"

definition embedded_reports :: "json \<Rightarrow> json list option" where
  "embedded_reports bundle =
     (case at_path bundle [''cognitiveReports'', ''reports''] of Some (JArr rs) \<Rightarrow> Some rs | _ \<Rightarrow> None)"

definition compare_summaries :: "verify_host \<Rightarrow> CognitiveIntegrity \<Rightarrow> json list \<Rightarrow> verify_state \<Rightarrow> verify_state" where
  "compare_summaries h cognitive reports s =
     (let actualCount = length reports; countOk = (int actualCount = ci_count cognitive);
          s = s\<lparr>ck_summaryCountMatch := countOk\<rparr>;
          s = (if countOk then s
               else push_error (''cognitive summary count mismatch (expected='' @ show_int (ci_count cognitive) @
                      '', actual='' @ show_nat actualCount @ '')'') (s\<lparr>ck_summaryRequirementSatisfied := False\<rparr>));
          actualDigest = (if ci_included cognitive \<or> reports \<noteq> []
                          then Some (sha256Hex h (canonicalizeCognitiveReportsForDigest reports)) else None);
          digestOk = (actualDigest = ci_digestSha256 cognitive);
          s = s\<lparr>ck_summaryDigestMatch := digestOk\<rparr>
      in if digestOk then s
         else push_error (''cognitive summary digest mismatch (expected='' @ or_else (ci_digestSha256 cognitive) ''null'' @
                '', actual='' @ or_else actualDigest ''null'' @ '')'') (s\<lparr>ck_summaryRequirementSatisfied := False\<rparr>))"

definition verifyCognitiveSummaryIntegrity ::
  "verify_host \<Rightarrow> IncidentBundleManifest \<Rightarrow> string \<Rightarrow> bool \<Rightarrow> verify_state \<Rightarrow> verify_state" where
  "verifyCognitiveSummaryIntegrity h m bundleBytes required s =
     (let s = s\<lparr>ck_summaryMetadataPresent := (im_cognitiveReports m \<noteq> None)\<rparr>
      in case im_cognitiveReports m of
           None \<Rightarrow>
             if required then fail_summaries ''cognitive summaries are required but manifest.cognitiveReports is missing'' s else s
         | Some cognitive \<Rightarrow>
             (let s = (if required \<and> \<not> ci_included cognitive then
                         push_error ''cognitive summaries are required but manifest.cognitiveReports.included=false''
                           (s\<lparr>ck_summaryRequirementSatisfied := False\<rparr>)
                       else s)
              in case JSON_parse bundleBytes of
                   None \<Rightarrow> fail_summaries (''failed to parse bundle JSON for cognitive summary integrity checks: '' @
                             bh_parse_error (vk_blob h) bundleBytes) s
                 | Some bundle \<Rightarrow>
                     (case embedded_reports bundle of
                        None \<Rightarrow>
                          if ci_included cognitive then
                            fail_summaries ''manifest requires embedded cognitive summaries but bundle payload is missing cognitiveReports.reports'' s
                          else if required then
                            fail_summaries ''cognitive summaries are required but bundle payload is missing cognitiveReports.reports'' s
                          else compare_summaries h cognitive [] s
                      | Some reports \<Rightarrow> compare_summaries h cognitive reports s)))"

section \<open>The bundle of public keys and its trust root\<close>

record PublicKeyBundleEntry =
  pk_keyId :: string
  pk_publicKeyPem :: string

record PublicKeyBundleProvenance =
  pv_signerRootId :: string
  pv_signerPublicKeyPem :: string
  pv_payloadSha256 :: string
  pv_signature :: string
  pv_signedAt :: "string option"

record PublicKeyBundle =
  kb_keys :: "PublicKeyBundleEntry list"
  kb_provenance :: "PublicKeyBundleProvenance option"

definition key_entry_checks :: "json \<Rightarrow> (bool \<times> string) list" where
  "key_entry_checks row =
     [(is_object row, ''public key bundle entry must be an object''),
      (is_text (jfield row ''keyId''), ''public key bundle entry keyId must be a non-empty string''),
      (is_text (jfield row ''publicKeyPem''), ''public key bundle entry publicKeyPem must be a non-empty string'')]"

definition provenance_checks :: "json \<Rightarrow> (bool \<times> string) list" where
  "provenance_checks v =
     (let row = (\<lambda>k. at_path v [''provenance'', k]); must = (\<lambda>k. (is_text (row k), ''public key bundle provenance.'' @ k @ '' must be a non-empty string''))
      in [(is_obj (jfield v ''provenance''), ''public key bundle provenance must be an object when present''),
          (row ''algorithm'' = Some (JStr ''ed25519''), ''public key bundle provenance.algorithm must be ed25519''),
          must ''signerRootId'', must ''signerPublicKeyPem'', must ''payloadSha256'', must ''signature'',
          (row ''signedAt'' = None \<or> is_text (row ''signedAt''),
           ''public key bundle provenance.signedAt must be a non-empty string when present'')])"

definition json_items :: "json option \<Rightarrow> json list option" where
  "json_items v = (case v of Some (JArr vs) \<Rightarrow> Some vs | _ \<Rightarrow> None)"

definition parsePublicKeyBundle :: "verify_host \<Rightarrow> string \<Rightarrow> (string, PublicKeyBundle) result" where
  "parsePublicKeyBundle h raw =
     rbind (parse_json (vk_blob h) raw) (\<lambda>v.
       (let rows = or_else (json_items (jfield v ''keys'')) []; row = (\<lambda>k. at_path v [''provenance'', k])
        in rbind (requires
             ([(is_object v, ''public key bundle must be a JSON object''),
               (jfield v ''schemaVersion'' = Some (JNum 1), ''public key bundle schemaVersion must be 1''),
               (json_items (jfield v ''keys'') \<noteq> None, ''public key bundle keys must be an array'')] @
              concat (map key_entry_checks rows) @
              (if jfield v ''provenance'' = None then [] else provenance_checks v)))
             (\<lambda>_. Inr \<lparr>kb_keys = map (\<lambda>r. \<lparr>pk_keyId = the_text (jfield r ''keyId''),
                                           pk_publicKeyPem = the_text (jfield r ''publicKeyPem'')\<rparr>) rows,
                      kb_provenance =
                        (if jfield v ''provenance'' = None then None
                         else Some \<lparr>pv_signerRootId = the_text (row ''signerRootId''),
                                    pv_signerPublicKeyPem = the_text (row ''signerPublicKeyPem''),
                                    pv_payloadSha256 = the_text (row ''payloadSha256''),
                                    pv_signature = the_text (row ''signature''), pv_signedAt = jstring (row ''signedAt'')\<rparr>)\<rparr>)))"

definition resolveTrustRootPath :: "script_env \<Rightarrow> string" where
  "resolveTrustRootPath env =
     path_resolve (se_cwd env)
       (or_else (arg_or_env env ''--trust-root-path'' ''MEMPHIS_TRUST_ROOT_PATH'') ''./config/trust_root.json'')"

definition parseTrustRootManifest :: "verify_host \<Rightarrow> string \<Rightarrow> (string, string list) result" where
  "parseTrustRootManifest h raw =
     rbind (parse_json (vk_blob h) raw) (\<lambda>v.
       (let ids = or_else (json_items (jfield v ''rootIds'')) []
        in rbind (requires
             [(is_object v, ''trust root manifest must be a JSON object''),
              (is_num (jfield v ''version'') \<and> the_num (jfield v ''version'') > 0,
               ''trust root manifest version must be a positive integer''),
              (ids \<noteq> [], ''trust root manifest rootIds must be a non-empty array''),
              (list_all (\<lambda>i. is_text (Some i)) ids, ''trust root manifest rootIds entries must be non-empty strings'')])
             (\<lambda>_. Inr (map (\<lambda>i. the_text (Some i)) ids))))"

definition unsigned_keys :: "PublicKeyBundle \<Rightarrow> string" where
  "unsigned_keys b =
     JSON_stringify (JObj [(''schemaVersion'', JNum 1),
       (''keys'', JArr (map (\<lambda>k. JObj [(''keyId'', JStr (pk_keyId k)), (''publicKeyPem'', JStr (pk_publicKeyPem k))]) (kb_keys b)))])"

definition key_bundle_invalid :: "string \<Rightarrow> verify_state \<Rightarrow> verify_state" where
  "key_bundle_invalid e s = push_error e (s\<lparr>ck_keyBundleSignatureValid := False\<rparr>)"

definition key_bundle_fails :: "string \<Rightarrow> verify_state \<Rightarrow> verify_state" where
  "key_bundle_fails e s =
     push_error e (s\<lparr>ck_keyBundleSignatureValid := False, ck_keyBundleTrustRootMatch := False\<rparr>)"

definition check_trust_root :: "verify_host \<Rightarrow> script_env \<Rightarrow> string \<Rightarrow> verify_state \<Rightarrow> verify_state" where
  "check_trust_root h env signerRootId s =
     (let path = resolveTrustRootPath env
      in case se_files env path of
           None \<Rightarrow> push_error (''trust root manifest not found: '' @ path) (s\<lparr>ck_keyBundleTrustRootMatch := False\<rparr>)
         | Some raw \<Rightarrow>
             (case parseTrustRootManifest h raw of
                Inl e \<Rightarrow> key_bundle_fails e s
              | Inr rootIds \<Rightarrow>
                  push_unless (signerRootId \<in> set rootIds)
                    (''public key bundle signerRootId is not trusted by current trust root manifest: '' @ signerRootId)
                    (s\<lparr>ck_keyBundleTrustRootMatch := (signerRootId \<in> set rootIds)\<rparr>)))"

definition verifyKeyBundleProvenance ::
  "verify_host \<Rightarrow> script_env \<Rightarrow> PublicKeyBundle \<Rightarrow> bool \<Rightarrow> verify_state \<Rightarrow> verify_state" where
  "verifyKeyBundleProvenance h env b requireSigned s =
     (case kb_provenance b of
        None \<Rightarrow> if requireSigned then key_bundle_fails ''public key bundle signature is required but provenance is missing'' s else s
      | Some pv \<Rightarrow>
          (let payload = unsigned_keys b; hashOk = (sha256Hex h payload = pv_payloadSha256 pv);
               s = push_unless hashOk ''public key bundle payload hash mismatch'' (s\<lparr>ck_keyBundleSignatureValid := hashOk\<rparr>);
               verified = rbind (vk_createPublicKey h (pv_signerPublicKeyPem pv))
                 (\<lambda>_. vk_verifyDetached h (pv_signerPublicKeyPem pv) payload (bh_unbase64 (vk_blob h) (pv_signature pv)))
           in case verified of
                Inl e \<Rightarrow> key_bundle_fails e s
              | Inr ok \<Rightarrow>
                  (let s = (if ok then s else key_bundle_invalid ''public key bundle signature verification failed'' s);
                       s = (if sha256Hex h (pv_signerPublicKeyPem pv) = pv_signerRootId pv then s
                            else key_bundle_invalid ''public key bundle signerRootId does not match signerPublicKeyPem fingerprint'' s)
                   in check_trust_root h env (pv_signerRootId pv) s)))"

definition expected_key_id :: "IncidentBundleManifest \<Rightarrow> string option \<Rightarrow> string option" where
  "expected_key_id m expectedKeyId = given (orElse (Option.bind (im_signature m) sg_keyId) expectedKeyId)"

definition key_from_bundle ::
  "verify_host \<Rightarrow> script_env \<Rightarrow> string \<Rightarrow> string \<Rightarrow> bool \<Rightarrow> verify_state \<Rightarrow> string option \<times> verify_state" where
  "key_from_bundle h env raw keyId requireSigned s =
     (case parsePublicKeyBundle h raw of
        Inl e \<Rightarrow> (None, push_error e s)
      | Inr b \<Rightarrow>
          (let s = verifyKeyBundleProvenance h env b requireSigned s
           in case find (\<lambda>k. pk_keyId k = keyId) (kb_keys b) of
                None \<Rightarrow> (None, push_error (''public key bundle missing keyId: '' @ keyId) s)
              | Some k \<Rightarrow> (Some (pk_publicKeyPem k), s)))"

definition resolvePublicKeyPem ::
  "verify_host \<Rightarrow> script_env \<Rightarrow> IncidentBundleManifest \<Rightarrow> string option \<Rightarrow> bool \<Rightarrow> verify_state \<Rightarrow>
   string option \<times> verify_state" where
  "resolvePublicKeyPem h env m expectedKeyId requireSigned s =
     (case given (arg_or_env env ''--public-key-path'' ''MEMPHIS_INCIDENT_BUNDLE_VERIFY_PUBLIC_KEY_PATH'') of
        Some direct \<Rightarrow>
          if requireSigned then
            (None, key_bundle_fails
               ''require-key-bundle-signature requires --public-key-bundle-path (direct key path is unsupported)'' s)
          else (case se_files env (path_resolve (se_cwd env) direct) of
                  None \<Rightarrow> (None, push_error (''public key file not found: '' @ path_resolve (se_cwd env) direct) s)
                | Some pem \<Rightarrow> (Some pem, s))
      | None \<Rightarrow>
          (case given (arg_or_env env ''--public-key-bundle-path'' ''MEMPHIS_INCIDENT_BUNDLE_PUBLIC_KEY_BUNDLE_PATH'') of
             None \<Rightarrow>
               (None, if requireSigned then
                        key_bundle_fails ''public key bundle signature is required but --public-key-bundle-path is missing'' s
                      else s)
           | Some bundlePathRaw \<Rightarrow>
               (case expected_key_id m expectedKeyId of
                  None \<Rightarrow> (None, push_error ''public key bundle lookup requires signature.keyId or --expected-key-id'' s)
                | Some keyId \<Rightarrow>
                    (let path = path_resolve (se_cwd env) bundlePathRaw
                     in case se_files env path of
                          None \<Rightarrow> (None, push_error (''public key bundle not found: '' @ path) s)
                        | Some raw \<Rightarrow> key_from_bundle h env raw keyId requireSigned s))))"

section \<open>The signature of the manifest\<close>

definition unsigned_manifest :: "json \<Rightarrow> string" where
  "unsigned_manifest obj =
     JSON_stringify (case obj of JObj kvs \<Rightarrow> JObj (AList.delete ''signature'' kvs) | v \<Rightarrow> v)"

definition check_manifest_signature ::
  "verify_host \<Rightarrow> string \<Rightarrow> string \<Rightarrow> SignatureDescriptor \<Rightarrow> verify_state \<Rightarrow> verify_state" where
  "check_manifest_signature h pem payload sig s =
     (case vk_createPublicKey h pem of
        Inl e \<Rightarrow> push_error e s
      | Inr _ \<Rightarrow>
          (let printOk = (sha256Hex h pem = sg_keyFingerprint sig);
               s = push_unless printOk ''signature key fingerprint mismatch'' (s\<lparr>ck_keyFingerprintMatch := printOk\<rparr>)
           in case vk_verifyDetached h pem payload (bh_unbase64 (vk_blob h) (sg_value sig)) of
                Inl e \<Rightarrow> push_error e s
              | Inr ok \<Rightarrow> push_unless ok ''signature verification failed'' (s\<lparr>ck_signatureVerified := ok\<rparr>)))"

definition verifySignature ::
  "verify_host \<Rightarrow> IncidentBundleManifest \<Rightarrow> json \<Rightarrow> string option \<Rightarrow> string option \<Rightarrow> bool \<Rightarrow> verify_state \<Rightarrow> verify_state" where
  "verifySignature h m obj publicKeyPem expectedKeyId requireSignature s =
     (let s = s\<lparr>ck_signaturePresent := (im_signature m \<noteq> None)\<rparr>
      in case im_signature m of
           None \<Rightarrow>
             (let s = (if given expectedKeyId = None then s
                       else push_error ''expected key id provided but manifest is unsigned'' (s\<lparr>ck_keyIdMatch := False\<rparr>))
              in if requireSignature then push_error ''signature is required but manifest is unsigned'' s else s)
         | Some sig \<Rightarrow>
             (let s = (case given expectedKeyId of
                         None \<Rightarrow> s
                       | Some e \<Rightarrow> push_unless (sg_keyId sig = Some e)
                           (''signature key id mismatch (expected='' @ e @ '', actual='' @ or_else (sg_keyId sig) ''none'' @ '')'')
                           (s\<lparr>ck_keyIdMatch := (sg_keyId sig = Some e)\<rparr>));
                  payload = unsigned_manifest obj; hashOk = (sha256Hex h payload = sg_payloadSha256 sig);
                  s = push_unless hashOk ''signature payload hash mismatch'' (s\<lparr>ck_payloadHashMatch := hashOk\<rparr>)
              in case given publicKeyPem of
                   None \<Rightarrow> push_error ''signature is present but no public key source is available'' s
                 | Some pem \<Rightarrow> check_manifest_signature h pem payload sig s))"

section \<open>The outcome on the chain\<close>

record verification_event =
  ce_attempted :: bool
  ce_written :: bool
  ce_attempts :: nat
  ce_index :: "int option"
  ce_hash :: "string option"
  ce_error :: "string option"

text \<open>What \<open>appendBlock\<close> of the chain adapter gets at each attempt, and the identifiers of the event.\<close>

record event_env =
  ev_chain :: chain_host
  ev_path :: path_host
  ev_append :: "nat \<Rightarrow> append_env"
  ev_backend :: ChainBackend
  ev_rust :: "string \<Rightarrow> json \<Rightarrow> (string, AppendBlockResult) result"
  ev_eventId :: string
  ev_now :: string

definition checks_json :: "verify_state \<Rightarrow> json" where
  "checks_json s = JObj (map (\<lambda>(k, v). (k, JBool v))
     [(''schemaValid'', ck_schemaValid s), (''manifestEncrypted'', ck_manifestEncrypted s),
      (''bundleExists'', ck_bundleExists s), (''bundleEncrypted'', ck_bundleEncrypted s),
      (''bundleHashMatch'', ck_bundleHashMatch s), (''bundleSizeMatch'', ck_bundleSizeMatch s),
      (''cognitiveSummaryMetadataPresent'', ck_summaryMetadataPresent s),
      (''cognitiveSummaryCountMatch'', ck_summaryCountMatch s), (''cognitiveSummaryDigestMatch'', ck_summaryDigestMatch s),
      (''cognitiveSummaryRequirementSatisfied'', ck_summaryRequirementSatisfied s),
      (''signaturePresent'', ck_signaturePresent s), (''signatureVerified'', ck_signatureVerified s),
      (''payloadHashMatch'', ck_payloadHashMatch s), (''keyFingerprintMatch'', ck_keyFingerprintMatch s),
      (''keyIdMatch'', ck_keyIdMatch s), (''keyBundleSignatureValid'', ck_keyBundleSignatureValid s),
      (''keyBundleTrustRootMatch'', ck_keyBundleTrustRootMatch s)])"

definition json_or_null :: "string option \<Rightarrow> json" where
  "json_or_null v = (case v of None \<Rightarrow> JNull | Some s \<Rightarrow> JStr s)"

definition event_payload ::
  "verify_host \<Rightarrow> event_env \<Rightarrow> string \<Rightarrow> string \<Rightarrow> string option \<Rightarrow> bool \<Rightarrow> verify_state \<Rightarrow> json" where
  "event_payload h ev manifestPath bundlePath expectedKeyId ok s =
     JObj [(''type'', JStr ''system_event''), (''event'', JStr ''incident_manifest.verification''),
           (''schemaVersion'', JNum 1), (''eventId'', JStr (ev_eventId ev)), (''timestamp'', JStr (ev_now ev)),
           (''correlation'', JObj
              [(''taskId'', JStr (''incident-manifest-verify:'' @ take 16 (sha256Hex h manifestPath))),
               (''runId'', JStr (ev_eventId ev)), (''agentId'', JStr ''ops.verify-incident-manifest''), (''toolCallId'', JNull)]),
           (''payload'', JObj
              [(''manifestPath'', JStr manifestPath), (''bundlePath'', JStr bundlePath),
               (''expectedKeyId'', json_or_null expectedKeyId), (''ok'', JBool ok), (''checks'', checks_json s),
               (''errors'', JArr (map JStr (vs_errors s)))])]"

fun append_attempts :: "event_env \<Rightarrow> json \<Rightarrow> nat \<Rightarrow> nat \<Rightarrow> string \<Rightarrow> chain_fs \<Rightarrow> verification_event \<times> chain_fs" where
  "append_attempts ev payload attempt 0 lastError fs =
     (\<lparr>ce_attempted = True, ce_written = False, ce_attempts = attempt - 1, ce_index = None, ce_hash = None,
       ce_error = Some lastError\<rparr>, fs)"
| "append_attempts ev payload attempt (Suc n) lastError fs =
     (case appendBlock (ev_chain ev) (ev_path ev) (ev_append ev attempt) (ev_backend ev) (ev_rust ev) ''system'' payload fs of
        (Inr r, fs) \<Rightarrow>
          (\<lparr>ce_attempted = True, ce_written = True, ce_attempts = attempt, ce_index = Some (ar_index r),
            ce_hash = Some (ar_hash r), ce_error = None\<rparr>, fs)
      | (Inl e, fs) \<Rightarrow> append_attempts ev payload (attempt + 1) n e fs)"

definition writeVerificationChainEvent ::
  "verify_host \<Rightarrow> event_env \<Rightarrow> string \<Rightarrow> string \<Rightarrow> string option \<Rightarrow> verify_state \<Rightarrow> bool \<Rightarrow> nat \<Rightarrow> chain_fs \<Rightarrow>
   verification_event \<times> chain_fs" where
  "writeVerificationChainEvent h ev manifestPath bundlePath expectedKeyId s ok retries fs =
     append_attempts ev (event_payload h ev manifestPath bundlePath expectedKeyId ok s) 1 (retries + 1) ''unknown_error'' fs"

section \<open>The run\<close>

record verify_policy =
  vp_profile :: "VerifyProfileName option"
  vp_requireSignature :: bool
  vp_requireSignedKeyBundle :: bool
  vp_requireCognitiveSummaries :: bool
  vp_skipChainEvent :: bool
  vp_requireChainEvent :: bool
  vp_chainEventRetries :: nat
  vp_chainEventBackoffMs :: nat

definition resolve_policy :: "script_env \<Rightarrow> (string, verify_policy) result" where
  "resolve_policy env =
     rbind (resolveVerifyProfileName env) (\<lambda>profile.
       (let defaults = resolveVerifyProfileDefaults profile
        in Inr \<lparr>vp_profile = profile,
            vp_requireSignature = (hasFlag env ''--require-signature'' \<or> pd_requireSignature defaults),
            vp_requireSignedKeyBundle = (hasFlag env ''--require-key-bundle-signature'' \<or> pd_requireSignedKeyBundle defaults),
            vp_requireCognitiveSummaries =
              (if hasFlag env ''--require-cognitive-summaries'' then True
               else or_else (parseOptionalBool (se_vars env ''MEMPHIS_INCIDENT_REQUIRE_COGNITIVE_SUMMARIES''))
                      (pd_requireCognitiveSummaries defaults)),
            vp_skipChainEvent = hasFlag env ''--skip-chain-event'',
            vp_requireChainEvent =
              or_else (parseOptionalBool (se_vars env ''MEMPHIS_INCIDENT_CHAIN_EVENT_REQUIRED'')) (pd_requireChainEvent defaults),
            vp_chainEventRetries = parseIntArg env ''--chain-event-retry-count'' (pd_chainEventRetries defaults)
              ''MEMPHIS_INCIDENT_CHAIN_EVENT_RETRY_COUNT'',
            vp_chainEventBackoffMs = parseIntArg env ''--chain-event-retry-backoff-ms'' (pd_chainEventBackoffMs defaults)
              ''MEMPHIS_INCIDENT_CHAIN_EVENT_RETRY_BACKOFF_MS''\<rparr>))"

definition check_bundle ::
  "verify_host \<Rightarrow> IncidentBundleManifest \<Rightarrow> string \<Rightarrow> bool \<Rightarrow> verify_state \<Rightarrow> verify_state" where
  "check_bundle h m bytes requireSummaries s =
     (let hashOk = (sha256Hex h bytes = bd_sha256 (im_bundle m)); sizeOk = (int (length bytes) = bd_bytes (im_bundle m));
          s = s\<lparr>ck_bundleHashMatch := hashOk, ck_bundleSizeMatch := sizeOk\<rparr>;
          s = push_unless hashOk ''bundle sha256 mismatch'' s;
          s = push_unless sizeOk ''bundle byte size mismatch'' s
      in verifyCognitiveSummaryIntegrity h m bytes requireSummaries s)"

definition verify_files ::
  "verify_host \<Rightarrow> script_env \<Rightarrow> verify_policy \<Rightarrow> string \<Rightarrow> string option \<Rightarrow> string option \<Rightarrow> string \<times> verify_state" where
  "verify_files h env policy manifestPath passphrase expectedKeyId =
     (case loadManifest h env manifestPath passphrase initial_state of
        (None, s) \<Rightarrow> ('''', s)
      | (Some (m, obj), s) \<Rightarrow>
          (case resolveBundleBytes h env m manifestPath passphrase (ck_manifestEncrypted s) s of
             (bundlePath, bytes, s) \<Rightarrow>
               (let s = (case bytes of None \<Rightarrow> s | Some b \<Rightarrow> check_bundle h m b (vp_requireCognitiveSummaries policy) s)
                in case resolvePublicKeyPem h env m expectedKeyId (vp_requireSignedKeyBundle policy) s of
                     (pem, s) \<Rightarrow> (bundlePath, verifySignature h m obj pem expectedKeyId (vp_requireSignature policy) s))))"

record VerifyOutput =
  vo_ok :: bool
  vo_manifestPath :: string
  vo_bundlePath :: string
  vo_policy :: verify_policy
  vo_state :: verify_state
  vo_chainEvent :: verification_event

definition no_event :: verification_event where
  "no_event = \<lparr>ce_attempted = False, ce_written = False, ce_attempts = 0, ce_index = None, ce_hash = None, ce_error = None\<rparr>"

text \<open>
  The exit status is 0 exactly when the result is \<open>Inr out\<close> with \<open>vo_ok out\<close>. The calls with \<open>--help\<close>, \<open>-h\<close> or
  \<open>--completion-hints\<close>, which print a text and end before anything else, are left out.
\<close>

definition verify_main ::
  "verify_host \<Rightarrow> script_env \<Rightarrow> event_env \<Rightarrow> chain_fs \<Rightarrow> (string, VerifyOutput) result \<times> chain_fs" where
  "verify_main h env ev fs =
     (case rbind (resolveManifestPath env) (\<lambda>path. rbind (resolve_policy env) (\<lambda>policy.
             rbind (resolveDecryptionPassphrase h env) (\<lambda>pass. Inr (path, policy, pass)))) of
        Inl e \<Rightarrow> (Inl e, fs)
      | Inr (manifestPath, policy, passphrase) \<Rightarrow>
          (let expectedKeyId = arg_or_env env ''--expected-key-id'' ''MEMPHIS_INCIDENT_BUNDLE_EXPECTED_KEY_ID''
           in case verify_files h env policy manifestPath passphrase expectedKeyId of
                (bundlePath, s) \<Rightarrow>
                  (case (if vp_skipChainEvent policy then (no_event, fs)
                         else writeVerificationChainEvent h ev manifestPath bundlePath expectedKeyId s (vs_errors s = [])
                                (vp_chainEventRetries policy) fs) of
                     (event, fs) \<Rightarrow>
                       (let s = (if \<not> vp_skipChainEvent policy \<and> \<not> ce_written event \<and> vp_requireChainEvent policy then
                                   push_error (''failed to append incident verification chain event: '' @
                                     or_else (ce_error event) ''unknown_error'') s
                                 else s)
                        in (Inr \<lparr>vo_ok = (vs_errors s = []), vo_manifestPath = manifestPath, vo_bundlePath = bundlePath,
                                 vo_policy = policy, vo_state = s, vo_chainEvent = event\<rparr>, fs)))))"

end
