(* ===== verification/IncidentExport.thy ===== *)
theory IncidentExport
  imports IncidentManifest Regex Sqlite
begin

text \<open>
  The exporter of incident bundles (\<open>scripts/export-incident-bundle.mts\<close>): it collects the status, the end of the
  audit log, a drill and summaries of cognitive reports, redacts secrets, writes the bundle, prunes old ones and writes
  a signed manifest, with encrypted companions of both.

  Files are a map from paths to content and time of modification; \<open>xf_locked\<close> tells which files cannot be unlinked.
  The answer of the status endpoint, the result of the drill, the journal listing and the random values are inputs.
  Where the greedy match of a pattern is replaced, it is the longest one from its start (so for the three patterns used).
\<close>

section \<open>Redaction\<close>

definition REDACTED :: string where "REDACTED = ''[REDACTED]''"

fun exact :: "string \<Rightarrow> re" where
  "exact [] = Eps"
| "exact (c # s) = Cat (Sym ((=) c)) (exact s)"

definition at_least :: "nat \<Rightarrow> re \<Rightarrow> re" where
  "at_least n r = seq (replicate n r @ [Star r])"

definition alnum :: re where "alnum = Sym is_alnum"

definition REDACTABLE_KEY_PATTERNS :: "re list" where
  "REDACTABLE_KEY_PATTERNS =
     [lit ''token'', lit ''secret'', lit ''password'', lit ''passphrase'', lit ''authorization'',
      seq [lit ''api'', opt_re (one_of ''-_''), lit ''key''], seq [lit ''private'', opt_re (one_of ''-_''), lit ''key''],
      lit ''cookie'', lit ''pepper'']"

definition REDACTABLE_VALUE_PATTERNS :: "re list" where
  "REDACTABLE_VALUE_PATTERNS =
     [seq [WordB, exact ''sk-'', at_least 10 alnum, WordB],
      seq [WordB, exact ''gh'', one_of ''pousr'', exact ''_'', at_least 20 alnum, WordB],
      seq [WordB, lit ''bearer'', plus_re sp, plus_re (Sym (\<lambda>c. is_alnum c \<or> c \<in> set ''-._~+/'')), Star (exact ''=''), WordB]]"

fun longest :: "pos list \<Rightarrow> pos option" where
  "longest [] = None"
| "longest (p # ps) =
     (case longest ps of None \<Rightarrow> Some p | Some q \<Rightarrow> Some (if length (snd q) < length (snd p) then q else p))"

lemma longest_mem: "longest ps = Some q \<Longrightarrow> q \<in> set ps"
  by (induction ps arbitrary: q) (auto split: option.splits if_splits)

text \<open>\<open>text.replace(pattern, replacement)\<close> under the flag \<open>g\<close>, from a position on.\<close>

function re_replace :: "re \<Rightarrow> string \<Rightarrow> pos \<Rightarrow> string" where
  "re_replace r replacement p =
     (case longest (filter (\<lambda>q. length (snd q) < length (snd p)) (ends r p)) of
        Some q \<Rightarrow> replacement @ re_replace r replacement q
      | None \<Rightarrow> (case snd p of [] \<Rightarrow> [] | c # rest \<Rightarrow> c # re_replace r replacement (c # fst p, rest)))"
  by pat_completeness auto
termination
  by (relation "measure (\<lambda>(r, replacement, p). length (snd p))") (auto dest: longest_mem)

declare re_replace.simps [simp del]

definition maybeRedactString :: "string \<Rightarrow> string" where
  "maybeRedactString input = fold (\<lambda>pattern output. re_replace pattern REDACTED ([], output)) REDACTABLE_VALUE_PATTERNS input"

definition shouldRedactKey :: "string \<Rightarrow> bool" where
  "shouldRedactKey key \<longleftrightarrow> list_ex (\<lambda>pattern. re_test pattern key) REDACTABLE_KEY_PATTERNS"

text \<open>The copy is built by assignments: a member \<open>__proto__\<close> sets the prototype of the copy and is no member of it.\<close>

fun redactJson :: "json \<Rightarrow> json" where
  "redactJson (JStr s) = JStr (maybeRedactString s)"
| "redactJson (JArr vs) = JArr (map redactJson vs)"
| "redactJson (JObj kvs) = JObj (map (\<lambda>(k, v). (k, if shouldRedactKey k then JStr REDACTED else redactJson v))
                               (filter (\<lambda>(k, v). k \<noteq> ''__proto__'') kvs))"
| "redactJson v = v"

section \<open>Arguments\<close>

definition parse_positive :: "string \<Rightarrow> int option" where
  "parse_positive raw = (case parse_int raw of None \<Rightarrow> None | Some n \<Rightarrow> if n > 0 then Some n else None)"

definition parsePositiveArg :: "script_env \<Rightarrow> string \<Rightarrow> nat \<Rightarrow> string option \<Rightarrow> nat" where
  "parsePositiveArg env flag fallback envName =
     (case Option.bind (parseArg env flag) parse_positive of
        Some n \<Rightarrow> nat n
      | None \<Rightarrow>
          (let raw = Option.bind envName (se_vars env)
           in if blank raw then fallback
              else (case Option.bind raw parse_positive of Some n \<Rightarrow> nat n | None \<Rightarrow> fallback)))"

datatype ExportProfileName = FinancialStrict | ForensicsLite | StrictHandoff

record ExportProfileDefaults =
  xp_redactSensitive :: bool
  xp_requireEncryptedArtifacts :: bool
  xp_includeCognitiveSummaries :: bool
  xp_writeManifest :: bool
  xp_auditLines :: nat
  xp_retentionCount :: nat
  xp_retentionDays :: nat

definition resolveExportProfileName :: "script_env \<Rightarrow> (string, ExportProfileName option) result" where
  "resolveExportProfileName env =
     (case given (arg_or_env env ''--profile'' ''MEMPHIS_INCIDENT_BUNDLE_EXPORT_PROFILE'') of
        None \<Rightarrow> Inr None
      | Some raw \<Rightarrow>
          if raw = ''financial-strict'' then Inr (Some FinancialStrict)
          else if raw = ''forensics-lite'' then Inr (Some ForensicsLite)
          else if raw = ''strict-handoff'' then Inr (Some StrictHandoff)
          else Inl (''unsupported export profile: '' @ raw @ ''; expected one of financial-strict, forensics-lite, strict-handoff''))"

definition resolveExportProfileDefaults :: "ExportProfileName option \<Rightarrow> ExportProfileDefaults" where
  "resolveExportProfileDefaults profile =
     (case profile of
        Some FinancialStrict \<Rightarrow>
          \<lparr>xp_redactSensitive = True, xp_requireEncryptedArtifacts = True, xp_includeCognitiveSummaries = False,
           xp_writeManifest = True, xp_auditLines = 100, xp_retentionCount = 60, xp_retentionDays = 30\<rparr>
      | Some ForensicsLite \<Rightarrow>
          \<lparr>xp_redactSensitive = True, xp_requireEncryptedArtifacts = False, xp_includeCognitiveSummaries = False,
           xp_writeManifest = True, xp_auditLines = 75, xp_retentionCount = 30, xp_retentionDays = 14\<rparr>
      | Some StrictHandoff \<Rightarrow>
          \<lparr>xp_redactSensitive = True, xp_requireEncryptedArtifacts = False, xp_includeCognitiveSummaries = True,
           xp_writeManifest = True, xp_auditLines = 100, xp_retentionCount = 45, xp_retentionDays = 21\<rparr>
      | None \<Rightarrow>
          \<lparr>xp_redactSensitive = True, xp_requireEncryptedArtifacts = False, xp_includeCognitiveSummaries = False,
           xp_writeManifest = False, xp_auditLines = 50, xp_retentionCount = 20, xp_retentionDays = 14\<rparr>)"

text \<open>\<open>createPrivateKey\<close> with the public key it gives in PEM, and the detached signature, are parameters.\<close>

record export_host =
  xk_blob :: blob_host
  xk_publicKeyPem :: "string \<Rightarrow> (string, string) result"
  xk_signDetached :: "string \<Rightarrow> string \<Rightarrow> string"

record SigningKeySpec =
  sk_source :: string
  sk_privateKeyPem :: string
  sk_keyId :: "string option"

definition resolveSigningKeySpec :: "export_host \<Rightarrow> script_env \<Rightarrow> (string, SigningKeySpec option) result" where
  "resolveSigningKeySpec h env =
     (let pathRaw = given (arg_or_env env ''--signing-key-path'' ''MEMPHIS_INCIDENT_BUNDLE_SIGNING_KEY_PATH'');
          pemRaw = given (arg_or_env env ''--signing-key-pem'' ''MEMPHIS_INCIDENT_BUNDLE_SIGNING_KEY_PEM'');
          pemBase64Raw = given (arg_or_env env ''--signing-key-pem-base64'' ''MEMPHIS_INCIDENT_BUNDLE_SIGNING_KEY_PEM_BASE64'');
          keyId = arg_or_env env ''--signing-key-id'' ''MEMPHIS_INCIDENT_BUNDLE_SIGNING_KEY_ID''
      in if length (filter (\<lambda>v. v \<noteq> None) [pathRaw, pemRaw, pemBase64Raw]) > 1 then
           Inl (''multiple signing key sources provided; use exactly one of --signing-key-path, --signing-key-pem, '' @
                ''--signing-key-pem-base64'')
         else (case pathRaw of
             Some path \<Rightarrow>
               rbind (read_file env (path_resolve (se_cwd env) path))
                 (\<lambda>pem. Inr (Some \<lparr>sk_source = ''path'', sk_privateKeyPem = pem, sk_keyId = keyId\<rparr>))
           | None \<Rightarrow>
               (case pemRaw of
                  Some pem \<Rightarrow> Inr (Some \<lparr>sk_source = ''env-pem'', sk_privateKeyPem = pem, sk_keyId = keyId\<rparr>)
                | None \<Rightarrow>
                    (case pemBase64Raw of
                       Some b \<Rightarrow> Inr (Some \<lparr>sk_source = ''env-pem-base64'', sk_privateKeyPem = bh_unbase64 (xk_blob h) b,
                                         sk_keyId = keyId\<rparr>)
                     | None \<Rightarrow> Inr None))))"

definition resolveEncryptionPassphraseSpec :: "export_host \<Rightarrow> script_env \<Rightarrow> (string, (string \<times> string) option) result" where
  "resolveEncryptionPassphraseSpec h env =
     (let declared = filter (\<lambda>(_, v). \<not> blank v)
            [(''arg'', parseArg env ''--encryption-passphrase''),
             (''arg-base64'', parseArg env ''--encryption-passphrase-base64''),
             (''arg-file'', parseArg env ''--encryption-passphrase-file''),
             (''env'', se_vars env ''MEMPHIS_INCIDENT_BUNDLE_ENCRYPTION_PASSPHRASE''),
             (''env-base64'', se_vars env ''MEMPHIS_INCIDENT_BUNDLE_ENCRYPTION_PASSPHRASE_BASE64''),
             (''env-file'', se_vars env ''MEMPHIS_INCIDENT_BUNDLE_ENCRYPTION_PASSPHRASE_FILE'')]
      in case declared of
           [] \<Rightarrow> Inr None
         | [(source, v)] \<Rightarrow>
             (let value = or_else v ''''
              in if source = ''arg-base64'' \<or> source = ''env-base64'' then Inr (Some (source, bh_unbase64 (xk_blob h) value))
                 else if source = ''arg-file'' \<or> source = ''env-file'' then
                   rbind (read_file env (path_resolve (se_cwd env) value)) (\<lambda>t. Inr (Some (source, trim t)))
                 else Inr (Some (source, value)))
         | _ \<Rightarrow>
             Inl (''multiple encryption passphrase sources provided; use exactly one of --encryption-passphrase, '' @
                  ''--encryption-passphrase-base64, --encryption-passphrase-file (or matching env vars)''))"

section \<open>Names\<close>

definition INCIDENT_BUNDLE_PREFIX :: string where "INCIDENT_BUNDLE_PREFIX = ''incident-bundle-''"
definition MANIFEST_SUFFIX :: string where "MANIFEST_SUFFIX = ''.manifest.json''"

definition manifestNameForBundle :: "string \<Rightarrow> string" where
  "manifestNameForBundle name =
     (if ends_with name ''.json'' then take (length name - 5) name @ MANIFEST_SUFFIX else name @ MANIFEST_SUFFIX)"

definition isIncidentBundleFile :: "string \<Rightarrow> bool" where
  "isIncidentBundleFile name \<longleftrightarrow>
     starts_with name INCIDENT_BUNDLE_PREFIX \<and> ends_with name ''.json'' \<and> \<not> ends_with name MANIFEST_SUFFIX"

definition encryptedCompanionPath :: "string \<Rightarrow> string" where
  "encryptedCompanionPath filePath = filePath @ ''.enc''"

definition basename :: "string \<Rightarrow> string" where
  "basename p = rev (takeWhile (\<lambda>c. c \<noteq> CHR ''/'') (rev p))"

section \<open>Files\<close>

record export_fs =
  xf_files :: "(string, string \<times> int) jsmap"
  xf_locked :: "string \<Rightarrow> bool"

definition write_text :: "int \<Rightarrow> string \<Rightarrow> string \<Rightarrow> export_fs \<Rightarrow> export_fs" where
  "write_text now path content fs = fs\<lparr>xf_files := AList.update path (content, now) (xf_files fs)\<rparr>"

definition content_of :: "export_fs \<Rightarrow> string \<Rightarrow> string option" where
  "content_of fs path = map_option fst (map_of (xf_files fs) path)"

text \<open>\<open>safeUnlink\<close>, after the test that the file exists.\<close>

definition safeUnlink :: "string \<Rightarrow> string list \<times> export_fs \<Rightarrow> string list \<times> export_fs" where
  "safeUnlink path = (\<lambda>(removed, fs).
     if map_of (xf_files fs) path = None \<or> xf_locked fs path then (removed, fs)
     else (removed @ [path], fs\<lparr>xf_files := AList.delete path (xf_files fs)\<rparr>))"

definition by_age :: "string \<times> int \<Rightarrow> string \<times> int \<Rightarrow> int" where
  "by_age a b = snd b - snd a"

definition bundle_history :: "string \<Rightarrow> export_fs \<Rightarrow> (string \<times> int) list" where
  "bundle_history outDir fs =
     js_sort by_age (map (\<lambda>(p, c, mtime). (p, mtime))
       (filter (\<lambda>(p, _). path_dirname p = outDir \<and> isIncidentBundleFile (basename p)) (xf_files fs)))"

definition expired :: "nat \<Rightarrow> nat \<Rightarrow> int \<Rightarrow> nat \<times> string \<times> int \<Rightarrow> bool" where
  "expired retentionCount retentionDays now = (\<lambda>(index, _, mtime).
     index \<ge> retentionCount \<or> now - mtime > int retentionDays * 24 * 60 * 60 * 1000)"

definition companions :: "string \<Rightarrow> string list" where
  "companions p =
     (let manifest = (if path_dirname p = ''/'' then ''/'' else path_dirname p @ ''/'') @ manifestNameForBundle (basename p)
      in [p, encryptedCompanionPath p, manifest, encryptedCompanionPath manifest])"

definition pruneIncidentBundleHistory :: "string \<Rightarrow> nat \<Rightarrow> nat \<Rightarrow> int \<Rightarrow> export_fs \<Rightarrow> string list \<times> export_fs" where
  "pruneIncidentBundleHistory outPath retentionCount retentionDays now fs =
     (let bundles = bundle_history (path_dirname outPath) fs
      in fold (\<lambda>(index, p, mtime). fold safeUnlink (companions p))
           (filter (expired retentionCount retentionDays now) (zip [0..<length bundles] bundles)) ([], fs))"

section \<open>Evidence\<close>

definition tailLines :: "string \<Rightarrow> nat \<Rightarrow> string list" where
  "tailLines input n =
     (let lines = filter (\<lambda>l. l \<noteq> '''') (map trim (split_on (CHR 0x0A) input)) in drop (length lines - n) lines)"

definition parseJsonLine :: "string \<Rightarrow> json" where
  "parseJsonLine line = (case JSON_parse line of Some v \<Rightarrow> v | None \<Rightarrow> JObj [(''raw'', JStr line)])"

definition readAuditTail :: "script_env \<Rightarrow> string \<Rightarrow> nat \<Rightarrow> bool \<Rightarrow> json list" where
  "readAuditTail env auditPath n redact =
     (case se_files env auditPath of
        None \<Rightarrow> []
      | Some raw \<Rightarrow> map (\<lambda>l. if redact then redactJson (parseJsonLine l) else parseJsonLine l) (tailLines raw n))"

text \<open>The answer to \<open>fetch\<close>: ok, status and text, or the message of the error.\<close>

definition fetchStatus :: "(string, bool \<times> int \<times> string) result \<Rightarrow> string \<Rightarrow> bool \<Rightarrow> json" where
  "fetchStatus response url redact =
     (case response of
        Inr (ok, status, body) \<Rightarrow>
          JObj [(''ok'', JBool ok), (''url'', JStr url), (''httpStatus'', JNum status),
                (''payload'', if redact then redactJson (parseJsonLine body) else parseJsonLine body)]
      | Inl e \<Rightarrow>
          JObj [(''ok'', JBool False), (''url'', JStr url), (''httpStatus'', JNull),
                (''error'', JStr (if redact then maybeRedactString e else e))])"

text \<open>The exit status of the drill with its output streams.\<close>

record drill_run =
  dr_status :: "int option"
  dr_stdout :: string
  dr_stderr :: string

definition runGuardDrillJson :: "(string \<Rightarrow> string) \<Rightarrow> drill_run \<Rightarrow> json" where
  "runGuardDrillJson parse_error out =
     (if dr_status out \<noteq> Some 0 then
        JObj [(''ok'', JBool False),
              (''error'', JStr (if trim (dr_stderr out) \<noteq> '''' then trim (dr_stderr out)
                               else if trim (dr_stdout out) \<noteq> '''' then trim (dr_stdout out)
                               else ''exit='' @ (case dr_status out of None \<Rightarrow> ''null'' | Some n \<Rightarrow> show_int n)))]
      else (case JSON_parse (dr_stdout out) of
              Some v \<Rightarrow> JObj [(''ok'', JBool True), (''result'', v)]
            | None \<Rightarrow> JObj [(''ok'', JBool False),
                           (''error'', JStr (''failed to parse drill JSON: '' @ parse_error (dr_stdout out)))]))"

definition readDrillSchemaVersion :: "json \<Rightarrow> json" where
  "readDrillSchemaVersion drill =
     (if jfield drill ''ok'' = Some (JBool True) then normalizeNumberOrNull (at_path drill [''result'', ''schemaVersion'']) else JNull)"

section \<open>Summaries of cognitive reports\<close>

text \<open>
  \<open>dataType in COGNITIVE_REPORT_TYPE_MAP\<close> also holds for the properties every object inherits; their values are functions,
  which \<open>JSON.stringify\<close> leaves out, except \<open>__proto__\<close>, an empty object. The inner option is the value that is printed.
\<close>

definition inherited_properties :: "string list" where
  "inherited_properties =
     [''constructor'', ''__defineGetter__'', ''__defineSetter__'', ''hasOwnProperty'', ''__lookupGetter__'',
      ''__lookupSetter__'', ''isPrototypeOf'', ''propertyIsEnumerable'', ''toString'', ''valueOf'', ''toLocaleString'']"

definition report_type :: "string \<Rightarrow> json option option" where
  "report_type dataType =
     (if dataType = ''insight_report'' then Some (Some (JStr ''insight''))
      else if dataType = ''categorize_report'' then Some (Some (JStr ''categorize''))
      else if dataType = ''reflection_report'' then Some (Some (JStr ''reflection''))
      else if dataType = ''__proto__'' then Some (Some (JObj []))
      else if dataType \<in> set inherited_properties then Some None
      else None)"

definition redact_text :: "bool \<Rightarrow> string option \<Rightarrow> string option" where
  "redact_text redact v = (case v of None \<Rightarrow> None | Some s \<Rightarrow> Some (if redact \<and> s \<noteq> '''' then maybeRedactString s else s))"

definition summarize_block :: "bool \<Rightarrow> string \<Rightarrow> json \<Rightarrow> json option" where
  "summarize_block redact filePath block =
     (case jstring (at_path block [''data'', ''type'']) of
        None \<Rightarrow> None
      | Some dataType \<Rightarrow>
          (if dataType = '''' then None
           else (case report_type dataType of
             None \<Rightarrow> None
           | Some kind \<Rightarrow>
               Some (JObj ([(''index'', normalizeNumberOrNull (jfield block ''index'')),
                            (''timestamp'', normalizeStringOrNull (jfield block ''timestamp'')),
                            (''hash'', normalizeStringOrNull (jfield block ''hash''))] @
                           (case kind of None \<Rightarrow> [] | Some v \<Rightarrow> [(''reportType'', v)]) @
                           [(''dataType'', JStr dataType),
                            (''schemaVersion'', normalizeNumberOrNull (at_path block [''data'', ''schemaVersion''])),
                            (''source'', json_or_null (redact_text redact (jstring (at_path block [''data'', ''source''])))),
                            (''generatedAt'', normalizeStringOrNull (at_path block [''data'', ''report'', ''generatedAt''])),
                            (''input'', json_or_null (redact_text redact (jstring (at_path block [''data'', ''report'', ''input''])))),
                            (''path'', JStr filePath)])))))"

text \<open>The journal is the listing of its directory, or none when it cannot be read.\<close>

definition readCognitiveReportSummaries ::
  "script_env \<Rightarrow> (string \<Rightarrow> string list option) \<Rightarrow> string \<Rightarrow> nat \<Rightarrow> bool \<Rightarrow> json list" where
  "readCognitiveReportSummaries env listing journalPath limit redact =
     (let names = js_sort binary_cmp (filter (\<lambda>n. ends_with n ''.json'') (or_else (listing journalPath) []));
          summaries = concat (map (\<lambda>name.
            (let filePath = path_resolve journalPath name
             in case Option.bind (Option.bind (se_files env filePath) JSON_parse) (summarize_block redact filePath) of
                  None \<Rightarrow> [] | Some r \<Rightarrow> [r])) names)
      in rev (drop (length summaries - limit) summaries))"

record CognitiveReportSnapshot =
  rs_journalPath :: string
  rs_limit :: nat
  rs_reports :: "json list"

definition snapshot_json :: "CognitiveReportSnapshot \<Rightarrow> json" where
  "snapshot_json s =
     JObj [(''schemaVersion'', JNum 1), (''journalPath'', JStr (rs_journalPath s)), (''limit'', JNum (int (rs_limit s))),
           (''count'', JNum (int (length (rs_reports s)))), (''reports'', JArr (rs_reports s))]"

text \<open>The canonical form lists the fields of a summary in the order they are stored.\<close>

definition canonicalizeReports :: "json list \<Rightarrow> string" where
  "canonicalizeReports reports = JSON_stringify (JArr reports)"

definition buildCognitiveReportManifestIntegrity :: "export_host \<Rightarrow> CognitiveReportSnapshot option \<Rightarrow> json" where
  "buildCognitiveReportManifestIntegrity h snapshot =
     (case snapshot of
        None \<Rightarrow> JObj [(''included'', JBool False), (''count'', JNum 0), (''digestSha256'', JNull), (''schemaVersion'', JNull),
                     (''limit'', JNull), (''journalPath'', JNull)]
      | Some s \<Rightarrow> JObj [(''included'', JBool True), (''count'', JNum (int (length (rs_reports s)))),
                       (''digestSha256'', JStr (bh_sha256 (xk_blob h) (canonicalizeReports (rs_reports s)))),
                       (''schemaVersion'', JNum 1), (''limit'', JNum (int (rs_limit s))), (''journalPath'', JStr (rs_journalPath s))])"

section \<open>The manifest\<close>

definition descriptor_json :: "export_host \<Rightarrow> string \<Rightarrow> string \<Rightarrow> json" where
  "descriptor_json h path bytes =
     JObj [(''path'', JStr path), (''sha256'', JStr (bh_sha256 (xk_blob h) bytes)), (''bytes'', JNum (int (length bytes)))]"

record manifest_options =
  mo_bundlePath :: string
  mo_generatedAt :: string
  mo_redactionEnabled :: bool
  mo_retentionCount :: nat
  mo_retentionDays :: nat
  mo_prunedFiles :: "string list"
  mo_drill :: json
  mo_manifestPath :: string
  mo_signingKey :: "SigningKeySpec option"
  mo_encryptedBundle :: "json option"
  mo_encryptedManifestPath :: "string option"
  mo_cognitiveReports :: json

definition manifest_fields :: "export_host \<Rightarrow> manifest_options \<Rightarrow> string \<Rightarrow> (string \<times> json) list" where
  "manifest_fields h o' bundleBytes =
     [(''schemaVersion'', JNum 1), (''generatedAt'', JStr (mo_generatedAt o')),
      (''bundle'', descriptor_json h (mo_bundlePath o') bundleBytes),
      (''redaction'', JObj [(''enabled'', JBool (mo_redactionEnabled o')), (''marker'', JStr REDACTED)]),
      (''retention'', JObj [(''count'', JNum (int (mo_retentionCount o'))), (''days'', JNum (int (mo_retentionDays o'))),
         (''prunedFiles'', JArr (map (\<lambda>p. JStr (basename p)) (mo_prunedFiles o')))]),
      (''drill'', JObj [(''ok'', JBool (jfield (mo_drill o') ''ok'' = Some (JBool True))),
         (''schemaVersion'', readDrillSchemaVersion (mo_drill o'))]),
      (''cognitiveReports'', mo_cognitiveReports o')] @
     (case mo_encryptedBundle o' of
        None \<Rightarrow> []
      | Some descriptor \<Rightarrow>
          [(''encryptedArtifacts'', JObj
             ([(''schemaVersion'', JNum 1), (''format'', JStr FORMAT), (''algorithm'', JStr ALGORITHM), (''kdf'', JStr ''scrypt''),
               (''bundle'', descriptor)] @
              (case given (mo_encryptedManifestPath o') of
                 None \<Rightarrow> [] | Some p \<Rightarrow> [(''manifest'', JObj [(''path'', JStr p)])])))])"

definition signature_json :: "export_host \<Rightarrow> SigningKeySpec \<Rightarrow> string \<Rightarrow> string \<Rightarrow> json" where
  "signature_json h key publicKeyPem payload =
     JObj ([(''algorithm'', JStr ''ed25519''),
            (''value'', JStr (bh_base64 (xk_blob h) (xk_signDetached h (sk_privateKeyPem key) payload))),
            (''payloadSha256'', JStr (bh_sha256 (xk_blob h) payload)),
            (''keyFingerprint'', JStr (bh_sha256 (xk_blob h) publicKeyPem))] @
           (case sk_keyId key of None \<Rightarrow> [] | Some i \<Rightarrow> [(''keyId'', JStr i)]))"

definition sign_manifest :: "export_host \<Rightarrow> SigningKeySpec option \<Rightarrow> (string \<times> json) list \<Rightarrow> (string, json) result" where
  "sign_manifest h signingKey members =
     (case signingKey of
        None \<Rightarrow> Inr (JObj members)
      | Some key \<Rightarrow>
          rbind (xk_publicKeyPem h (sk_privateKeyPem key))
            (\<lambda>pem. Inr (JObj (members @ [(''signature'', signature_json h key pem (JSON_stringify (JObj members)))]))))"

definition writeManifest :: "export_host \<Rightarrow> (string \<Rightarrow> string) \<Rightarrow> int \<Rightarrow> manifest_options \<Rightarrow> export_fs \<Rightarrow>
    (string, string) result \<times> export_fs" where
  "writeManifest h read_error now o' fs =
     (case content_of fs (mo_bundlePath o') of
        None \<Rightarrow> (Inl (read_error (mo_bundlePath o')), fs)
      | Some bundleBytes \<Rightarrow>
          (case sign_manifest h (mo_signingKey o') (manifest_fields h o' bundleBytes) of
             Inl e \<Rightarrow> (Inl e, fs)
           | Inr manifest \<Rightarrow>
               (Inr (mo_manifestPath o'), write_text now (mo_manifestPath o') (JSON_stringify2 manifest) fs)))"

text \<open>The salt and the nonce are the random bytes drawn.\<close>

definition writeEncryptedArtifact ::
  "export_host \<Rightarrow> int \<Rightarrow> string \<times> string \<Rightarrow> string \<Rightarrow> string \<Rightarrow> string \<Rightarrow> string \<Rightarrow> string \<Rightarrow> export_fs \<Rightarrow> json \<times> export_fs" where
  "writeEncryptedArtifact h now random plaintextPath encryptedPath purpose generatedAt passphrase fs =
     (let serialized = JSON_stringify2 (encryptBlob (xk_blob h) (fst random) (snd random)
            (or_else (content_of fs plaintextPath) '''') passphrase purpose generatedAt)
      in (descriptor_json h encryptedPath serialized, write_text now encryptedPath serialized fs))"

section \<open>The run\<close>

record export_inputs =
  xi_nowIso :: string
  xi_fileStamp :: string
  xi_nowMs :: int
  xi_response :: "(string, bool \<times> int \<times> string) result"
  xi_drill :: drill_run
  xi_listing :: "string \<Rightarrow> string list option"
  xi_journalDefault :: string
  xi_random :: "string \<times> string"
  xi_random2 :: "string \<times> string"

record export_policy =
  xq_profile :: "ExportProfileName option"
  xq_redact :: bool
  xq_outPath :: string
  xq_auditPath :: string
  xq_statusUrl :: string
  xq_auditLines :: nat
  xq_retentionCount :: nat
  xq_retentionDays :: nat
  xq_manifestOut :: "string option"
  xq_signingKey :: "SigningKeySpec option"
  xq_encryption :: "(string \<times> string) option"
  xq_includeSummaries :: bool
  xq_reportLimit :: nat
  xq_journalPath :: string
  xq_requireEncrypted :: bool
  xq_writeManifest :: bool

definition resolve_export_policy :: "export_host \<Rightarrow> script_env \<Rightarrow> export_inputs \<Rightarrow> (string, export_policy) result" where
  "resolve_export_policy h env inp =
     rbind (resolveExportProfileName env) (\<lambda>profile.
     rbind (resolveSigningKeySpec h env) (\<lambda>signingKey.
     rbind (resolveEncryptionPassphraseSpec h env) (\<lambda>encryption.
       (let d = resolveExportProfileDefaults profile; at_cwd = path_resolve (se_cwd env);
            manifestOut = parseArg env ''--manifest-out'';
            requireEncrypted = (if hasFlag env ''--require-encrypted-artifacts'' then True
              else or_else (parseOptionalBool (se_vars env ''MEMPHIS_INCIDENT_REQUIRE_ENCRYPTED_ARTIFACTS''))
                     (xp_requireEncryptedArtifacts d))
        in if requireEncrypted \<and> encryption = None then
             Inl (''encrypted artifacts are required by policy; provide --encryption-passphrase (or matching env source)'')
           else Inr
            \<lparr>xq_profile = profile,
             xq_redact = (if hasFlag env ''--no-redact'' then False else xp_redactSensitive d),
             xq_outPath = at_cwd (or_else (parseArg env ''--out'') (''data/incident-bundle-'' @ xi_fileStamp inp @ ''.json'')),
             xq_auditPath = at_cwd (or_else (arg_or_env env ''--audit-path'' ''MEMPHIS_SECURITY_AUDIT_LOG_PATH'')
               ''data/security-audit.jsonl''),
             xq_statusUrl = or_else (parseArg env ''--status-url'') ''http://127.0.0.1:8080/v1/ops/status'',
             xq_auditLines = parsePositiveArg env ''--audit-lines'' (xp_auditLines d) None,
             xq_retentionCount = parsePositiveArg env ''--retention-count'' (xp_retentionCount d)
               (Some ''MEMPHIS_INCIDENT_BUNDLE_RETENTION_COUNT''),
             xq_retentionDays = parsePositiveArg env ''--retention-days'' (xp_retentionDays d)
               (Some ''MEMPHIS_INCIDENT_BUNDLE_RETENTION_DAYS''),
             xq_manifestOut = manifestOut, xq_signingKey = signingKey, xq_encryption = encryption,
             xq_includeSummaries = (if hasFlag env ''--include-cognitive-summaries'' then True
               else or_else (parseOptionalBool (se_vars env ''MEMPHIS_INCIDENT_INCLUDE_COGNITIVE_SUMMARIES''))
                      (xp_includeCognitiveSummaries d)),
             xq_reportLimit = parsePositiveArg env ''--cognitive-report-limit'' 10 (Some ''MEMPHIS_INCIDENT_COGNITIVE_REPORT_LIMIT''),
             xq_journalPath = at_cwd (or_else (arg_or_env env ''--cognitive-journal-path'' ''MEMPHIS_INCIDENT_COGNITIVE_JOURNAL_PATH'')
               (xi_journalDefault inp)),
             xq_requireEncrypted = requireEncrypted,
             xq_writeManifest = (manifestOut \<noteq> None \<or> signingKey \<noteq> None \<or> requireEncrypted \<or> xp_writeManifest d)\<rparr>))))"

definition export_snapshot :: "script_env \<Rightarrow> export_inputs \<Rightarrow> export_policy \<Rightarrow> CognitiveReportSnapshot option" where
  "export_snapshot env inp q =
     (if xq_includeSummaries q then
        Some \<lparr>rs_journalPath = xq_journalPath q, rs_limit = xq_reportLimit q,
              rs_reports = readCognitiveReportSummaries env (xi_listing inp) (xq_journalPath q) (xq_reportLimit q) (xq_redact q)\<rparr>
      else None)"

definition bundle_json :: "export_host \<Rightarrow> script_env \<Rightarrow> export_inputs \<Rightarrow> export_policy \<Rightarrow> json" where
  "bundle_json h env inp q =
     JObj ([(''schemaVersion'', JNum 1), (''generatedAt'', JStr (xi_nowIso inp)),
            (''status'', fetchStatus (xi_response inp) (xq_statusUrl q) (xq_redact q)),
            (''securityAudit'', JObj [(''path'', JStr (xq_auditPath q)),
               (''tailLines'', JArr (readAuditTail env (xq_auditPath q) (xq_auditLines q) (xq_redact q)))]),
            (''drill'', runGuardDrillJson (bh_parse_error (xk_blob h)) (xi_drill inp))] @
           (case export_snapshot env inp q of None \<Rightarrow> [] | Some s \<Rightarrow> [(''cognitiveReports'', snapshot_json s)]))"

definition manifest_path :: "script_env \<Rightarrow> export_policy \<Rightarrow> string" where
  "manifest_path env q = path_resolve (se_cwd env) (or_else (xq_manifestOut q) (manifestNameForBundle (xq_outPath q)))"

definition companion_path :: "script_env \<Rightarrow> string \<Rightarrow> string \<Rightarrow> string" where
  "companion_path env flag path = path_resolve (se_cwd env) (or_else (parseArg env flag) (encryptedCompanionPath path))"

definition export_manifest ::
  "export_host \<Rightarrow> script_env \<Rightarrow> export_inputs \<Rightarrow> export_policy \<Rightarrow> json option \<Rightarrow> string list \<Rightarrow> export_fs \<Rightarrow>
   (string, string option) result \<times> export_fs" where
  "export_manifest h env inp q encryptedBundle prunedFiles fs =
     (if \<not> xq_writeManifest q then (Inr None, fs)
      else
       (let path = manifest_path env q;
            encryptedPath = (if xq_encryption q = None then None else Some (companion_path env ''--encrypted-manifest-out'' path))
        in case writeManifest h (se_read_error env) (xi_nowMs inp)
               \<lparr>mo_bundlePath = xq_outPath q, mo_generatedAt = xi_nowIso inp, mo_redactionEnabled = xq_redact q,
                mo_retentionCount = xq_retentionCount q, mo_retentionDays = xq_retentionDays q, mo_prunedFiles = prunedFiles,
                mo_drill = runGuardDrillJson (bh_parse_error (xk_blob h)) (xi_drill inp), mo_manifestPath = path,
                mo_signingKey = xq_signingKey q, mo_encryptedBundle = encryptedBundle,
                mo_encryptedManifestPath = encryptedPath,
                mo_cognitiveReports = buildCognitiveReportManifestIntegrity h (export_snapshot env inp q)\<rparr> fs of
             (Inl e, fs) \<Rightarrow> (Inl e, fs)
           | (Inr p, fs) \<Rightarrow>
               (Inr (Some p), case (xq_encryption q, given encryptedPath) of
                  (Some (_, passphrase), Some ep) \<Rightarrow>
                    snd (writeEncryptedArtifact h (xi_nowMs inp) (xi_random2 inp) p ep ''incident-manifest'' (xi_nowIso inp) passphrase fs)
                | _ \<Rightarrow> fs)))"

text \<open>
  The result is the path of the bundle, of the manifest and the files pruned, as the final report prints them. The calls
  with \<open>--help\<close>, \<open>-h\<close> or \<open>--completion-hints\<close>, which print a text and end before anything else, are left out.
\<close>

definition export_main ::
  "export_host \<Rightarrow> script_env \<Rightarrow> export_inputs \<Rightarrow> export_fs \<Rightarrow>
   (string, string \<times> string option \<times> string list) result \<times> export_fs" where
  "export_main h env0 inp fs =
     (let env = env0\<lparr>se_files := content_of fs\<rparr>
      in case resolve_export_policy h env inp of
           Inl e \<Rightarrow> (Inl e, fs)
         | Inr q \<Rightarrow>
             (let fs = write_text (xi_nowMs inp) (xq_outPath q) (JSON_stringify2 (bundle_json h env inp q)) fs;
                  encrypted = (case xq_encryption q of
                      None \<Rightarrow> (None, fs)
                    | Some (_, passphrase) \<Rightarrow>
                        map_prod Some id (writeEncryptedArtifact h (xi_nowMs inp) (xi_random inp) (xq_outPath q)
                          (companion_path env ''--encrypted-bundle-out'' (xq_outPath q)) ''incident-bundle'' (xi_nowIso inp)
                          passphrase fs));
                  pruned = pruneIncidentBundleHistory (xq_outPath q) (xq_retentionCount q) (xq_retentionDays q) (xi_nowMs inp)
                    (snd encrypted)
              in case export_manifest h env inp q (fst encrypted) (fst pruned) (snd pruned) of
                   (Inl e, fs) \<Rightarrow> (Inl e, fs)
                 | (Inr m, fs) \<Rightarrow> (Inr (xq_outPath q, m, map basename (fst pruned)), fs)))"

end
