(* ===== verification/RedactionLaws.thy ===== *)
theory RedactionLaws
  imports IncidentExport
begin

text \<open>
  Redaction by the exporter of incident bundles: no value is left under a sensitive name, no text is left in which one
  of the token patterns has a match, and a text without a match is left as it is.

  A token pattern is a body between two word boundaries. What lies between two replaced matches was scanned position
  by position in its original surroundings; the marker is no part of a token, and where it stands beside the text it makes
  no new boundary at which a token could begin or end.
\<close>

section \<open>Patterns without context\<close>

fun plain_re :: "re \<Rightarrow> bool" where
  "plain_re (Cat r s) \<longleftrightarrow> plain_re r \<and> plain_re s"
| "plain_re (Alt r s) \<longleftrightarrow> plain_re r \<and> plain_re s"
| "plain_re (Star r) \<longleftrightarrow> plain_re r"
| "plain_re WordB \<longleftrightarrow> False"
| "plain_re (NotAhead r) \<longleftrightarrow> False"
| "plain_re r \<longleftrightarrow> True"

fun lang :: "re \<Rightarrow> string set" where
  "lang (Sym P) = {[c] | c. P c}"
| "lang (Cat r s) = {u @ v | u v. u \<in> lang r \<and> v \<in> lang s}"
| "lang (Alt r s) = lang r \<union> lang s"
| "lang (Star r) = {concat ws | ws. set ws \<subseteq> lang r}"
| "lang r = {[]}"

definition steps_over :: "string \<Rightarrow> pos \<Rightarrow> pos \<Rightarrow> bool" where
  "steps_over w p q \<longleftrightarrow> snd p = w @ snd q \<and> fst q = rev w @ fst p"

lemma steps_over_append: "steps_over (u @ v) p q \<longleftrightarrow> (\<exists>m. steps_over u p m \<and> steps_over v m q)"
  by (auto simp: steps_over_def)

lemma steps_over_Nil [simp]: "steps_over [] p q \<longleftrightarrow> q = p"
  by (auto simp: steps_over_def prod_eq_iff)

lemma star_steps:
  assumes step: "\<And>p q. (p, q) \<in> R \<longleftrightarrow> (\<exists>w \<in> L. steps_over w p q)"
  shows "(p, q) \<in> R\<^sup>* \<longleftrightarrow> (\<exists>ws. set ws \<subseteq> L \<and> steps_over (concat ws) p q)"
proof
  assume "(p, q) \<in> R\<^sup>*"
  then show "\<exists>ws. set ws \<subseteq> L \<and> steps_over (concat ws) p q"
  proof (induction rule: converse_rtrancl_induct)
    case base
    show ?case by (intro exI [of _ "[]"]) simp
  next
    case (step p m)
    from step(1) obtain w where "w \<in> L" "steps_over w p m" unfolding assms by blast
    moreover from step(3) obtain ws where "set ws \<subseteq> L" "steps_over (concat ws) m q" by blast
    ultimately have "set (w # ws) \<subseteq> L \<and> steps_over (concat (w # ws)) p q"
      unfolding concat.simps steps_over_append set_simps by blast
    then show ?case by (rule exI)
  qed
next
  assume "\<exists>ws. set ws \<subseteq> L \<and> steps_over (concat ws) p q"
  then obtain ws where "set ws \<subseteq> L" "steps_over (concat ws) p q" by blast
  then show "(p, q) \<in> R\<^sup>*"
  proof (induction ws arbitrary: p)
    case (Cons w ws)
    then obtain m where m: "steps_over w p m" "steps_over (concat ws) m q" by (auto simp: steps_over_append)
    from m(1) Cons.prems(1) have "(p, m) \<in> R" unfolding step by auto
    moreover have "(m, q) \<in> R\<^sup>*" using Cons.IH m(2) Cons.prems(1) by simp
    ultimately show ?case by (rule converse_rtrancl_into_rtrancl)
  qed simp
qed

lemma plain_re_rel: "plain_re r \<Longrightarrow> (p, q) \<in> re_rel r \<longleftrightarrow> (\<exists>w \<in> lang r. steps_over w p q)"
proof (induction r arbitrary: p q)
  case (Sym P)
  show ?case by (cases p; cases q) (auto simp: steps_over_def)
next
  case (Cat r s)
  then have "(p, q) \<in> re_rel (Cat r s) \<longleftrightarrow> (\<exists>m. (\<exists>u \<in> lang r. steps_over u p m) \<and> (\<exists>v \<in> lang s. steps_over v m q))"
    by (simp add: relcomp_unfold)
  also have "\<dots> \<longleftrightarrow> (\<exists>u \<in> lang r. \<exists>v \<in> lang s. steps_over (u @ v) p q)"
    unfolding steps_over_append by blast
  also have "\<dots> \<longleftrightarrow> (\<exists>w \<in> lang (Cat r s). steps_over w p q)" by auto
  finally show ?case .
next
  case (Star r)
  then have "(p, q) \<in> (re_rel r)\<^sup>* \<longleftrightarrow> (\<exists>ws. set ws \<subseteq> lang r \<and> steps_over (concat ws) p q)"
    by (intro star_steps) simp
  then show ?case by auto
qed auto

text \<open>No class of the pattern has a bracket.\<close>

fun no_brackets :: "re \<Rightarrow> bool" where
  "no_brackets (Sym P) \<longleftrightarrow> \<not> P (CHR ''['') \<and> \<not> P (CHR '']'')"
| "no_brackets (Cat r s) \<longleftrightarrow> no_brackets r \<and> no_brackets s"
| "no_brackets (Alt r s) \<longleftrightarrow> no_brackets r \<and> no_brackets s"
| "no_brackets (Star r) \<longleftrightarrow> no_brackets r"
| "no_brackets r \<longleftrightarrow> True"

lemma lang_no_brackets: "no_brackets r \<Longrightarrow> w \<in> lang r \<Longrightarrow> CHR ''['' \<notin> set w \<and> CHR '']'' \<notin> set w"
  by (induction r arbitrary: w) fastforce+

section \<open>Token patterns\<close>

definition token_body :: "re \<Rightarrow> string set \<Rightarrow> bool" where
  "token_body r L \<longleftrightarrow>
     (\<forall>p q. (p, q) \<in> re_rel r \<longleftrightarrow> boundary p \<and> boundary q \<and> (\<exists>w \<in> L. steps_over w p q)) \<and>
     (\<forall>w \<in> L. w \<noteq> [] \<and> is_word (hd w) \<and> hd w \<noteq> CHR ''R'' \<and> CHR ''['' \<notin> set w \<and> CHR '']'' \<notin> set w)"

lemma token_bodyI:
  assumes "re_rel t = re_rel (Cat WordB (Cat (Cat (Sym P) r) WordB))"
    and "plain_re (Cat (Sym P) r)" and "no_brackets (Cat (Sym P) r)"
    and "\<And>c. P c \<Longrightarrow> is_word c \<and> c \<noteq> CHR ''R''"
  shows "token_body t (lang (Cat (Sym P) r))"
proof -
  have word: "(p, q) \<in> re_rel WordB \<longleftrightarrow> q = p \<and> boundary p" for p q by (cases p) auto
  have "(p, q) \<in> re_rel t \<longleftrightarrow> boundary p \<and> boundary q \<and> (p, q) \<in> re_rel (Cat (Sym P) r)" for p q
    unfolding assms(1) re_rel.simps(3) [of WordB] re_rel.simps(3) [of _ WordB] relcomp_unfold mem_Collect_eq case_prod_conv word by blast
  then show ?thesis
    unfolding token_body_def plain_re_rel [OF assms(2)]
    using lang_no_brackets [OF assms(3)] assms(4) by fastforce
qed

lemma plain_seq: "plain_re (seq rs) \<longleftrightarrow> list_all plain_re rs"
  by (induction rs rule: seq.induct) simp_all

lemma no_brackets_seq: "no_brackets (seq rs) \<longleftrightarrow> list_all no_brackets rs"
  by (induction rs rule: seq.induct) simp_all

lemmas pattern_parts = at_least_def plus_re_def alnum_def one_of_def sp_def plain_seq no_brackets_seq list_all_iff

lemma b_word: "same_letter CHR ''b'' c \<Longrightarrow> is_word c \<and> c \<noteq> CHR ''R''"
  by (cases c)
    (auto simp: same_letter_def lower_char_bits upper_bits is_word_def is_alnum_def lower_bits split: if_splits)

lemma value_patterns: "\<forall>r \<in> set REDACTABLE_VALUE_PATTERNS. \<exists>L. token_body r L"
proof -
  have 1: "token_body (seq [WordB, exact ''sk-'', at_least 10 alnum, WordB])
      (lang (Cat (Sym ((=) CHR ''s'')) (Cat (exact ''k-'') (at_least 10 alnum))))"
    by (rule token_bodyI)
      (auto simp: O_assoc pattern_parts is_word_def is_alnum_def is_lower_def is_upper_def is_digit_def code_def)
  have 2: "token_body (seq [WordB, exact ''gh'', one_of ''pousr'', exact ''_'', at_least 20 alnum, WordB])
      (lang (Cat (Sym ((=) CHR ''g'')) (Cat (exact ''h'') (Cat (one_of ''pousr'') (Cat (exact ''_'') (at_least 20 alnum))))))"
    by (rule token_bodyI)
      (auto simp: O_assoc pattern_parts is_word_def is_alnum_def is_lower_def is_upper_def is_digit_def code_def)
  have 3: "token_body (seq [WordB, lit ''bearer'', plus_re sp, plus_re (Sym (\<lambda>c. is_alnum c \<or> c \<in> set ''-._~+/'')), Star (exact ''=''), WordB])
      (lang (Cat (Sym (same_letter CHR ''b'')) (Cat (lit ''earer'') (Cat (plus_re sp)
        (Cat (plus_re (Sym (\<lambda>c. is_alnum c \<or> c \<in> set ''-._~+/''))) (Star (exact ''='')))))))"
    by (rule token_bodyI)
      (use b_word in \<open>auto simp: O_assoc pattern_parts same_letter_def lower_char_def is_space_def is_alnum_def is_lower_def is_upper_def
        is_digit_def code_def\<close>)
  show ?thesis unfolding REDACTABLE_VALUE_PATTERNS_def using 1 2 3 by auto
qed

section \<open>Replacing all matches\<close>

lemma token_ends:
  assumes "token_body r L"
  shows "longest (filter (\<lambda>q. length (snd q) < length (snd p)) (ends r p)) = None \<longleftrightarrow> ends r p = []"
    and "longest (filter (\<lambda>q. length (snd q) < length (snd p)) (ends r p)) = Some q \<Longrightarrow>
      boundary p \<and> boundary q \<and> (\<exists>w \<in> L. steps_over w p q)"
proof -
  have mem: "q \<in> set (ends r p) \<longleftrightarrow> boundary p \<and> boundary q \<and> (\<exists>w \<in> L. steps_over w p q)" for q
    using assms unfolding token_body_def set_ends by blast
  have "length (snd q) < length (snd p)" if "q \<in> set (ends r p)" for q
    using that assms unfolding mem token_body_def by (auto simp: steps_over_def)
  then have all: "filter (\<lambda>q. length (snd q) < length (snd p)) (ends r p) = ends r p"
    by (auto intro: filter_True)
  have none: "longest ps = None \<longleftrightarrow> ps = []" for ps by (cases ps) (auto split: option.split)
  show "longest (filter (\<lambda>q. length (snd q) < length (snd p)) (ends r p)) = None \<longleftrightarrow> ends r p = []"
    unfolding all none ..
  show "boundary p \<and> boundary q \<and> (\<exists>w \<in> L. steps_over w p q)"
    if "longest (filter (\<lambda>q. length (snd q) < length (snd p)) (ends r p)) = Some q"
    using longest_mem [OF that] mem by simp
qed

text \<open>One step of the scan, at a match and elsewhere.\<close>

lemma replace_cases:
  assumes "token_body r L"
  obtains x a' where "x \<in> L" "a = x @ a'" "boundary (b, a)" "boundary (rev x @ b, a')"
      "re_replace r REDACTED (b, a) = REDACTED @ re_replace r REDACTED (rev x @ b, a')"
  | "ends r (b, a) = []" "a = []" "re_replace r REDACTED (b, a) = []"
  | c a' where "ends r (b, a) = []" "a = c # a'" "re_replace r REDACTED (b, a) = c # re_replace r REDACTED (c # b, a')"
proof (cases "longest (filter (\<lambda>q. length (snd q) < length (snd (b, a))) (ends r (b, a)))")
  case None
  then have "ends r (b, a) = []" unfolding token_ends(1) [OF assms] .
  then show thesis using that(2,3) None re_replace.simps [of r REDACTED "(b, a)"] by (cases a) simp_all
next
  case (Some q)
  with token_ends(2) [OF assms Some] that(1) re_replace.simps [of r REDACTED "(b, a)"] show thesis
    by (cases q) (auto simp: steps_over_def)
qed

lemma replace_prefix:
  assumes "token_body r L" and "re_replace r REDACTED (b, a) = w @ v" and "CHR ''['' \<notin> set w"
  shows "\<exists>a'. a = w @ a' \<and> v = re_replace r REDACTED (rev w @ b, a')"
  using assms(2,3)
proof (induction w arbitrary: b a)
  case (Cons c w)
  from assms(1) show ?case
  proof (cases rule: replace_cases [of r L a b])
    case (3 d a')
    then show ?thesis using Cons.prems Cons.IH [of "c # b" a'] by auto
  qed (use Cons.prems in \<open>auto simp: REDACTED_def\<close>)
qed simp

text \<open>The end of a token before the rest of the output is the end of one before the rest of the text.\<close>

lemma boundary_before_rest:
  assumes "token_body r L" and "boundary (z, re_replace r REDACTED (b, a))" and "word_head z = word_head b"
  shows "boundary (b, a)"
  using assms(1) by (cases rule: replace_cases [of r L a b]) (use assms(2,3) in \<open>auto simp: boundary_def\<close>)

lemma marker_start:
  assumes "REDACTED = u @ m" and "m \<noteq> []" and "is_word (hd m)" and "\<not> word_head (rev u @ z)"
  shows "hd m = CHR ''R''"
proof -
  have "length u < 10" using arg_cong [OF assms(1), of length] assms(2) by (cases m) (simp_all add: REDACTED_def)
  moreover obtain n where n: "n = length u" by blast
  ultimately have "n = 0 \<or> n = 1 \<or> n = 2 \<or> n = 3 \<or> n = 4 \<or> n = 5 \<or> n = 6 \<or> n = 7 \<or> n = 8 \<or> n = 9" by arith
  moreover have "u = take n REDACTED" "m = drop n REDACTED" by (simp_all add: assms(1) n)
  ultimately show ?thesis using assms(3,4)
    by (auto simp: REDACTED_def is_word_def is_alnum_def is_lower_def is_upper_def is_digit_def code_def)
qed

lemma replace_occurrence:
  assumes body: "token_body r L" and w: "w \<noteq> []" "is_word (hd w)" "hd w \<noteq> CHR ''R''" "CHR ''['' \<notin> set w" "CHR '']'' \<notin> set w"
    and "re_replace r REDACTED (b, a) = u @ w @ v"
    and "boundary (rev u @ z, w @ v)" and "boundary (rev (u @ w) @ z, v)"
    and "word_head a \<and> word_head b \<longrightarrow> word_head z"
  shows "\<exists>u' v'. a = u' @ w @ v' \<and> boundary (rev u' @ b, w @ v') \<and> boundary (rev (u' @ w) @ b, v') \<and>
    ends r (rev u' @ b, w @ v') = []"
  using assms(7-)
proof (induction "length a" arbitrary: a b u z rule: less_induct)
  case less
  have start: ?case if "u = []" "ends r (b, a) = []"
  proof -
    from replace_prefix [OF body _ w(4), of b a v] less.prems(1) that(1) obtain v' where
      v': "a = w @ v'" "v = re_replace r REDACTED (rev w @ b, v')" by auto
    have "word_head (rev w @ z) = word_head (rev w @ b)" using w(1) by (cases w rule: rev_cases) simp_all
    then have "boundary (rev w @ b, v')"
      using boundary_before_rest [OF body, of "rev w @ z"] less.prems(3) that(1) v'(2) by simp
    moreover have "boundary (b, a)"
      using less.prems(2,4) that(1) w(1,2) v'(1) by (cases w) (auto simp: boundary_def)
    ultimately show ?thesis using v'(1) that by (intro exI [of _ "[]"] exI [of _ v']) simp
  qed
  from body show ?case
  proof (cases rule: replace_cases [of r L a b])
    case (1 x a')
    have x: "x \<noteq> []" using body 1(1) by (auto simp: token_body_def)
    show ?thesis
    proof (cases "\<exists>u2. u = REDACTED @ u2")
      case True
      then obtain u2 where u2: "u = REDACTED @ u2" by blast
      have "word_head a' \<longrightarrow> \<not> word_head (rev x @ b)" using 1(4) by (auto simp: boundary_def)
      with less.hyps [of a' "rev x @ b" u2 "rev REDACTED @ z"] obtain u' v' where
        "a' = u' @ w @ v'" "boundary (rev u' @ rev x @ b, w @ v')" "boundary (rev (u' @ w) @ rev x @ b, v')"
        "ends r (rev u' @ rev x @ b, w @ v') = []"
        using less.prems(1-3) 1(2,5) x u2 by auto
      then show ?thesis by (intro exI [of _ "x @ u'"] exI [of _ v']) (simp add: 1(2))
    next
      case False
      have "REDACTED @ re_replace r REDACTED (rev x @ b, a') = u @ w @ v" using less.prems(1) unfolding 1(5) .
      then obtain m where "REDACTED = u @ m \<and> m @ re_replace r REDACTED (rev x @ b, a') = w @ v \<or> REDACTED @ m = u"
        unfolding append_eq_append_conv2 [of REDACTED] by blast
      then have m: "REDACTED = u @ m" "m @ re_replace r REDACTED (rev x @ b, a') = w @ v" using False by metis+
      have "m \<noteq> []" using m(1) False by (metis append_Nil2)
      note m = m(1) this m(2) [symmetric]
      then have "hd w = hd m" using w(1) by (cases w; cases m) simp_all
      moreover have "\<not> word_head (rev u @ z)"
        using less.prems(2) w(1,2) by (cases w) (auto simp: boundary_def)
      ultimately have "hd w = CHR ''R''" using marker_start [OF m(1,2)] w(2) by simp
      with w(3) show ?thesis by simp
    qed
  next
    case 2
    then show ?thesis using less.prems(1) w(1) by simp
  next
    case (3 c a')
    show ?thesis
    proof (cases u)
      case Nil
      then show ?thesis using start 3(1) by blast
    next
      case (Cons d u2)
      have "d = c" "re_replace r REDACTED (c # b, a') = u2 @ w @ v" using less.prems(1) 3(3) Cons by auto
      with less.hyps [of a' "c # b" u2 "c # z"] obtain u' v' where
        "a' = u' @ w @ v'" "boundary (rev u' @ c # b, w @ v')" "boundary (rev (u' @ w) @ c # b, v')"
        "ends r (rev u' @ c # b, w @ v') = []"
        using less.prems(2,3) 3(2) Cons by auto
      then show ?thesis by (intro exI [of _ "c # u'"] exI [of _ v']) (simp add: 3(2))
    qed
  qed
qed

text \<open>A pattern that has no match in a text has none after another, or itself, was replaced.\<close>

lemma token_match:
  assumes "token_body r L"
  shows "re_test r s \<longleftrightarrow> (\<exists>u v. \<exists>w \<in> L. s = u @ w @ v \<and> boundary (rev u, w @ v) \<and> boundary (rev (u @ w), v))"
proof -
  have "re_test r s \<longleftrightarrow> (\<exists>p q. in_text s p \<and> boundary p \<and> boundary q \<and> (\<exists>w \<in> L. steps_over w p q))"
    using assms unfolding re_test_iff token_body_def by blast
  also have "\<dots> \<longleftrightarrow> (\<exists>u v. \<exists>w \<in> L. s = u @ w @ v \<and> boundary (rev u, w @ v) \<and> boundary (rev (u @ w), v))"
    by (auto simp: in_text_def steps_over_def) (metis rev_rev_ident)+
  finally show ?thesis .
qed

lemma replace_removes:
  assumes "token_body r L" and "token_body r' L'" and "r' = r \<or> \<not> re_test r' s"
  shows "\<not> re_test r' (re_replace r REDACTED ([], s))"
proof
  assume "re_test r' (re_replace r REDACTED ([], s))"
  then obtain u v w where w: "w \<in> L'" "re_replace r REDACTED ([], s) = u @ w @ v"
      "boundary (rev u @ [], w @ v)" "boundary (rev (u @ w) @ [], v)"
    unfolding token_match [OF assms(2)] by auto
  have word: "w \<noteq> []" "is_word (hd w)" "hd w \<noteq> CHR ''R''" "CHR ''['' \<notin> set w" "CHR '']'' \<notin> set w"
    using assms(2) w(1) by (auto simp: token_body_def)
  from replace_occurrence [OF assms(1) word w(2-4)] obtain u' v' where
    o: "s = u' @ w @ v'" "boundary (rev u', w @ v')" "boundary (rev (u' @ w), v')" "ends r (rev u', w @ v') = []" by auto
  have "re_test r' s" unfolding token_match [OF assms(2)] using o(1-3) w(1) by blast
  moreover have "((rev u', w @ v'), (rev (u' @ w), v')) \<in> re_rel r'"
    using assms(2) w(1) o(2,3) unfolding token_body_def by (auto simp: steps_over_def)
  ultimately show False using assms(3) o(4) unfolding ends_Nil_iff by blast
qed

lemma replace_nothing:
  assumes "token_body r L" and "\<not> re_test r (rev b @ a)"
  shows "re_replace r REDACTED (b, a) = a"
  using assms(2)
proof (induction a arbitrary: b)
  case (Cons c a)
  have "in_text (rev b @ c # a) (b, c # a)" by (simp add: in_text_def)
  then have "ends r (b, c # a) = []" using Cons.prems unfolding re_test_iff ends_Nil_iff by blast
  with Cons show ?case
    by (subst re_replace.simps) simp
next
  case Nil
  have "in_text (rev b @ []) (b, [])" by (simp add: in_text_def)
  then have "ends r (b, []) = []" using Nil.prems unfolding re_test_iff ends_Nil_iff by blast
  then show ?case by (subst re_replace.simps) simp
qed

lemma redacted_string:
  "r \<in> set REDACTABLE_VALUE_PATTERNS \<Longrightarrow> \<not> re_test r (maybeRedactString s)"
  "\<forall>r \<in> set REDACTABLE_VALUE_PATTERNS. \<not> re_test r s \<Longrightarrow> maybeRedactString s = s"
proof -
  have "\<forall>r' \<in> set earlier \<union> set rs. \<not> re_test r' (fold (\<lambda>r s. re_replace r REDACTED ([], s)) rs s)"
    if "\<forall>r \<in> set earlier. \<not> re_test r s" "set earlier \<union> set rs \<subseteq> set REDACTABLE_VALUE_PATTERNS" for rs earlier s
    using that
  proof (induction rs arbitrary: earlier s)
    case (Cons r rs)
    have "\<forall>r' \<in> set (r # earlier). \<not> re_test r' (re_replace r REDACTED ([], s))"
    proof
      fix r' assume r': "r' \<in> set (r # earlier)"
      then obtain L L' where "token_body r L" "token_body r' L'" using Cons.prems(2) value_patterns by force
      moreover have "r' = r \<or> \<not> re_test r' s" using r' Cons.prems(1) by auto
      ultimately show "\<not> re_test r' (re_replace r REDACTED ([], s))" by (rule replace_removes)
    qed
    from Cons.IH [OF this] Cons.prems(2) show ?case by auto
  qed simp
  from this [of "[]" s REDACTABLE_VALUE_PATTERNS]
  show "r \<in> set REDACTABLE_VALUE_PATTERNS \<Longrightarrow> \<not> re_test r (maybeRedactString s)"
    by (simp add: maybeRedactString_def)
  have "fold (\<lambda>r s. re_replace r REDACTED ([], s)) rs s = s"
    if "\<forall>r \<in> set rs. \<not> re_test r s" "set rs \<subseteq> set REDACTABLE_VALUE_PATTERNS" for rs
    using that value_patterns replace_nothing by (induction rs) auto
  then show "\<forall>r \<in> set REDACTABLE_VALUE_PATTERNS. \<not> re_test r s \<Longrightarrow> maybeRedactString s = s"
    by (simp add: maybeRedactString_def)
qed

section \<open>Redacted values\<close>

text \<open>Below no sensitive name, at any depth, is anything but the marker, and no other text has a token.\<close>

definition tokenless :: "string \<Rightarrow> bool" where
  "tokenless s \<longleftrightarrow> list_all (\<lambda>r. \<not> re_test r s) REDACTABLE_VALUE_PATTERNS"

fun hidden :: "json \<Rightarrow> bool" where
  "hidden (JStr s) \<longleftrightarrow> tokenless s"
| "hidden (JArr vs) \<longleftrightarrow> list_all hidden vs"
| "hidden (JObj kvs) \<longleftrightarrow> list_all (\<lambda>(k, v). if shouldRedactKey k then v = JStr REDACTED else hidden v) kvs"
| "hidden v \<longleftrightarrow> True"

text \<open>
  The second value is the first one without the members \<open>__proto__\<close>, but for the values of sensitive names and the
  texts with a token.
\<close>

fun same_shape :: "json \<Rightarrow> json \<Rightarrow> bool" where
  "same_shape (JStr s) w \<longleftrightarrow> (\<exists>t. w = JStr t \<and> (tokenless s \<longrightarrow> t = s))"
| "same_shape (JArr vs) w \<longleftrightarrow> (\<exists>ws. w = JArr ws \<and> list_all2 same_shape vs ws)"
| "same_shape (JObj kvs) w \<longleftrightarrow>
     (\<exists>ws. w = JObj ws \<and> list_all2 (\<lambda>(k, v) (l, u). k = l \<and> (shouldRedactKey k \<or> same_shape v u))
        (filter (\<lambda>(k, v). k \<noteq> ''__proto__'') kvs) ws)"
| "same_shape v w \<longleftrightarrow> w = v"

lemma redact_hidden: "hidden (redactJson v)"
proof (induction v)
  case (JStr s)
  then show ?case using redacted_string(1) by (simp add: tokenless_def list_all_iff)
next
  case (JObj kvs)
  then show ?case by (auto simp: list_all_iff split: prod.splits)
qed (auto simp: list_all_iff)

lemma redact_shape: "same_shape v (redactJson v)"
proof (induction v)
  case (JStr s)
  then show ?case using redacted_string(2) by (simp add: tokenless_def list_all_iff)
next
  case (JArr vs)
  then show ?case by (auto simp: list_all2_conv_all_nth)
next
  case (JObj kvs)
  let ?kept = "filter (\<lambda>(k, v). k \<noteq> ''__proto__'') kvs"
  have "same_shape v (redactJson v)" if "(k, v) \<in> set ?kept" for k v using JObj [of "(k, v)"] that by auto
  then have "list_all2 (\<lambda>(k, v) (l, u). k = l \<and> (shouldRedactKey k \<or> same_shape v u)) ?kept
      (map (\<lambda>(k, v). (k, if shouldRedactKey k then JStr REDACTED else redactJson v)) ?kept)"
    unfolding list_all2_map2 by (intro list_all2I) (auto simp: zip_same split: if_splits)
  then show ?case by simp
qed auto

lemma redact_wf: "json_wf v \<Longrightarrow> json_wf (redactJson v)"
proof (induction v)
  case (JObj kvs)
  let ?kept = "filter (\<lambda>(k, v). k \<noteq> ''__proto__'') kvs"
  have "map fst (map (\<lambda>(k, v). (k, if shouldRedactKey k then JStr REDACTED else redactJson v)) ?kept) = map fst ?kept"
    by (induction kvs) auto
  moreover have "distinct (map fst ?kept)" using JObj.prems by (simp add: distinct_map_filter)
  moreover have "json_wf (redactJson v)" if "(k, v) \<in> set kvs" for k v
    using JObj that by (auto simp: list_all_iff)
  ultimately show ?case by (auto simp: list_all_iff simp del: map_map)
qed (auto simp: list_all_iff)

text \<open>
  C27: In what the exporter redacts, at any depth, the value of a name that matches a sensitive pattern is the marker and
  in no other text does one of the three token patterns have a match left. Everything else is kept: the names (but
  \<open>__proto__\<close>) in their order, texts without a token, numbers and truth values.
\<close>

theorem redaction_hides_secrets:
  "hidden (redactJson v) \<and> same_shape v (redactJson v) \<and> (json_wf v \<longrightarrow> json_wf (redactJson v))"
  using redact_hidden redact_shape redact_wf by blast

theorem redaction_hides_secrets_witness:
  "hidden (redactJson (JObj [(''apiToken'', JNum 5), (''n'', JStr ''go Bearer abc=def'')])) \<and>
   redactJson (JObj [(''apiToken'', JNum 5), (''n'', JStr ''go Bearer abc=def'')]) =
     JObj [(''apiToken'', JStr ''[REDACTED]''), (''n'', JStr ''go [REDACTED]def'')] \<and>
   json_wf (redactJson (JObj [(''apiToken'', JNum 5), (''n'', JStr ''go Bearer abc=def'')]))"
proof -
  let ?v = "JObj [(''apiToken'', JNum 5), (''n'', JStr ''go Bearer abc=def'')]"
  have eq: "redactJson ?v = JObj [(''apiToken'', JStr ''[REDACTED]''), (''n'', JStr ''go [REDACTED]def'')]"
    by code_simp
  have "json_wf ?v" by simp
  with redaction_hides_secrets [of ?v] show ?thesis unfolding eq by blast
qed

end
