(* ===== verification/IncidentLaws.thy ===== *)
theory IncidentLaws
  imports IncidentManifest
begin

text \<open>
  What an accepted run of the incident verifier means: each function only appends errors, so a run without errors went
  through every check, and each check gives what it checked.
\<close>

section \<open>No error was pushed\<close>

named_theorems no_errors \<open>a step that leaves no error started without one and passed its check\<close>

lemma push_error_errors [simp]: "vs_errors (push_error e s) \<noteq> []"
  by (simp add: push_error_def)

lemma push_unless_errors [no_errors]: "vs_errors (push_unless ok e s) = [] \<longleftrightarrow> ok \<and> vs_errors s = []"
  by (simp add: push_unless_def)

lemma failing_steps [simp]: "vs_errors (fail_summaries e s) \<noteq> []" "vs_errors (key_bundle_invalid e s) \<noteq> []"
  "vs_errors (key_bundle_fails e s) \<noteq> []"
  by (simp_all add: fail_summaries_def key_bundle_invalid_def key_bundle_fails_def)

text \<open>What each check gives.\<close>

definition manifest_signed_by :: "verify_host \<Rightarrow> json \<Rightarrow> IncidentBundleManifest \<Rightarrow> string \<Rightarrow> bool" where
  "manifest_signed_by h obj m pem \<longleftrightarrow>
     (\<exists>sig. im_signature m = Some sig \<and> sha256Hex h (unsigned_manifest obj) = sg_payloadSha256 sig \<and>
        sha256Hex h pem = sg_keyFingerprint sig \<and>
        vk_verifyDetached h pem (unsigned_manifest obj) (bh_unbase64 (vk_blob h) (sg_value sig)) = Inr True)"

definition trusted_signer :: "verify_host \<Rightarrow> script_env \<Rightarrow> PublicKeyBundle \<Rightarrow> bool" where
  "trusted_signer h env b \<longleftrightarrow>
     (\<exists>pv raw rootIds. kb_provenance b = Some pv \<and> sha256Hex h (unsigned_keys b) = pv_payloadSha256 pv \<and>
        vk_verifyDetached h (pv_signerPublicKeyPem pv) (unsigned_keys b) (bh_unbase64 (vk_blob h) (pv_signature pv)) = Inr True \<and>
        se_files env (resolveTrustRootPath env) = Some raw \<and> parseTrustRootManifest h raw = Inr rootIds \<and>
        sha256Hex h (pv_signerPublicKeyPem pv) \<in> set rootIds)"

definition trusted_key :: "verify_host \<Rightarrow> script_env \<Rightarrow> string \<Rightarrow> string \<Rightarrow> bool" where
  "trusted_key h env keyId pem \<longleftrightarrow>
     (\<exists>path raw b. se_files env path = Some raw \<and> parsePublicKeyBundle h raw = Inr b \<and>
        \<lparr>pk_keyId = keyId, pk_publicKeyPem = pem\<rparr> \<in> set (kb_keys b) \<and> trusted_signer h env b)"

definition summaries_match :: "verify_host \<Rightarrow> IncidentBundleManifest \<Rightarrow> string \<Rightarrow> bool" where
  "summaries_match h m bytes \<longleftrightarrow>
     (\<exists>cog bundle reports. im_cognitiveReports m = Some cog \<and> ci_included cog \<and> JSON_parse bytes = Some bundle \<and>
        embedded_reports bundle = Some reports \<and> ci_count cog = int (length reports) \<and>
        ci_digestSha256 cog = Some (sha256Hex h (canonicalizeCognitiveReportsForDigest reports)))"

lemma check_manifest_signature_passed [no_errors]:
  "vs_errors (check_manifest_signature h pem payload sig s) = [] \<Longrightarrow>
   vs_errors s = [] \<and> sha256Hex h pem = sg_keyFingerprint sig \<and>
   vk_verifyDetached h pem payload (bh_unbase64 (vk_blob h) (sg_value sig)) = Inr True"
  by (auto simp: check_manifest_signature_def Let_def push_unless_errors split: sum.splits)

lemma verifySignature_passed:
  assumes "vs_errors (verifySignature h m obj pem expected required s) = []"
  shows "vs_errors s = []"
    and "required \<Longrightarrow> \<exists>p. pem = Some p \<and> manifest_signed_by h obj m p"
proof -
  have "vs_errors s = [] \<and> (required \<longrightarrow> (\<exists>p. pem = Some p \<and> manifest_signed_by h obj m p))"
  proof (cases "im_signature m")
    case None
    with assms show ?thesis by (auto simp: verifySignature_def Let_def split: if_splits)
  next
    case (Some sig)
    then obtain p where p: "given pem = Some p"
      using assms by (cases "given pem") (auto simp: verifySignature_def Let_def)
    then have pem: "pem = Some p" by (auto simp: given_def split: if_splits)
    define s0 where "s0 = s\<lparr>ck_signaturePresent := (Some sig \<noteq> None)\<rparr>"
    define s1 where "s1 = (case given expected of None \<Rightarrow> s0
      | Some e \<Rightarrow> push_unless (sg_keyId sig = Some e)
          (''signature key id mismatch (expected='' @ e @ '', actual='' @ or_else (sg_keyId sig) ''none'' @ '')'')
          (s0\<lparr>ck_keyIdMatch := (sg_keyId sig = Some e)\<rparr>))"
    define s2 where "s2 = push_unless (sha256Hex h (unsigned_manifest obj) = sg_payloadSha256 sig) ''signature payload hash mismatch''
      (s1\<lparr>ck_payloadHashMatch := (sha256Hex h (unsigned_manifest obj) = sg_payloadSha256 sig)\<rparr>)"
    have "verifySignature h m obj pem expected required s = check_manifest_signature h p (unsigned_manifest obj) sig s2"
      unfolding verifySignature_def Let_def Some option.case p s2_def s1_def s0_def by (rule refl)
    with assms have "vs_errors (check_manifest_signature h p (unsigned_manifest obj) sig s2) = []" by simp
    note c = check_manifest_signature_passed [OF this]
    then have "sha256Hex h (unsigned_manifest obj) = sg_payloadSha256 sig" "vs_errors s1 = []"
      by (simp_all add: s2_def push_unless_errors)
    moreover have "vs_errors s1 = [] \<Longrightarrow> vs_errors s = []"
      by (cases "given expected") (simp_all add: s1_def s0_def push_unless_errors)
    ultimately show ?thesis using c by (auto simp: pem Some manifest_signed_by_def)
  qed
  then show "vs_errors s = []" and "required \<Longrightarrow> \<exists>p. pem = Some p \<and> manifest_signed_by h obj m p" by auto
qed

lemma check_trust_root_passed:
  "vs_errors (check_trust_root h env root s) = [] \<Longrightarrow>
   vs_errors s = [] \<and> (\<exists>raw rootIds. se_files env (resolveTrustRootPath env) = Some raw \<and>
     parseTrustRootManifest h raw = Inr rootIds \<and> root \<in> set rootIds)"
  by (auto simp: check_trust_root_def Let_def push_unless_errors split: option.splits sum.splits)

lemma provenance_passed:
  assumes "vs_errors (verifyKeyBundleProvenance h env b required s) = []"
  shows "vs_errors s = []" and "required \<Longrightarrow> trusted_signer h env b"
proof -
  have "vs_errors s = [] \<and> (required \<longrightarrow> trusted_signer h env b)"
  proof (cases "kb_provenance b")
    case None
    with assms show ?thesis by (auto simp: verifyKeyBundleProvenance_def split: if_splits)
  next
    case (Some pv)
    with assms show ?thesis
      by (auto simp: verifyKeyBundleProvenance_def Let_def trusted_signer_def push_unless_errors rbind_Inr_iff
          split: sum.splits if_splits dest!: check_trust_root_passed)
  qed
  then show "vs_errors s = []" and "required \<Longrightarrow> trusted_signer h env b" by auto
qed

lemma key_from_bundle_passed:
  assumes "key_from_bundle h env raw keyId required s = (pem, s')" and "vs_errors s' = []"
  shows "vs_errors s = [] \<and> (\<exists>b p. parsePublicKeyBundle h raw = Inr b \<and> pem = Some p \<and>
    \<lparr>pk_keyId = keyId, pk_publicKeyPem = p\<rparr> \<in> set (kb_keys b) \<and> (required \<longrightarrow> trusted_signer h env b))"
proof -
  obtain b where b: "parsePublicKeyBundle h raw = Inr b"
    using assms by (cases "parsePublicKeyBundle h raw") (auto simp: key_from_bundle_def)
  let ?s = "verifyKeyBundleProvenance h env b required s"
  obtain k where k: "find (\<lambda>k. pk_keyId k = keyId) (kb_keys b) = Some k"
    using assms b by (cases "find (\<lambda>k. pk_keyId k = keyId) (kb_keys b)") (auto simp: key_from_bundle_def Let_def)
  then have mem: "k \<in> set (kb_keys b)" "pk_keyId k = keyId" by (auto simp: find_Some_iff)
  have eq: "pem = Some (pk_publicKeyPem k)" "s' = ?s" using assms(1) by (simp_all add: key_from_bundle_def b k Let_def)
  have "\<lparr>pk_keyId = keyId, pk_publicKeyPem = pk_publicKeyPem k\<rparr> = k" using mem(2) by (cases k) simp
  with mem(1) eq provenance_passed [of h env b required s] assms(2) b show ?thesis by metis
qed

lemma resolvePublicKeyPem_passed:
  assumes "resolvePublicKeyPem h env m expected required s = (pem, s')" and "vs_errors s' = []"
  shows "vs_errors s = []"
    and "required \<Longrightarrow> \<exists>keyId p. expected_key_id m expected = Some keyId \<and> pem = Some p \<and> trusted_key h env keyId p"
proof -
  have "vs_errors s = [] \<and> (required \<longrightarrow>
      (\<exists>keyId p. expected_key_id m expected = Some keyId \<and> pem = Some p \<and> trusted_key h env keyId p))"
    using assms by (fastforce simp: resolvePublicKeyPem_def Let_def trusted_key_def
        split: option.splits if_splits dest!: key_from_bundle_passed)
  then show "vs_errors s = []"
    and "required \<Longrightarrow> \<exists>keyId p. expected_key_id m expected = Some keyId \<and> pem = Some p \<and> trusted_key h env keyId p" by auto
qed

lemma compare_summaries_passed:
  "vs_errors (compare_summaries h cog reports s) = [] \<Longrightarrow>
   vs_errors s = [] \<and> ci_count cog = int (length reports) \<and>
   (ci_included cog \<longrightarrow> ci_digestSha256 cog = Some (sha256Hex h (canonicalizeCognitiveReportsForDigest reports)))"
  by (auto simp: compare_summaries_def Let_def split: if_splits)

lemma summaries_passed:
  assumes "vs_errors (verifyCognitiveSummaryIntegrity h m bytes required s) = []"
  shows "vs_errors s = []" and "required \<Longrightarrow> summaries_match h m bytes"
proof -
  have "vs_errors s = [] \<and> (required \<longrightarrow> summaries_match h m bytes)"
    using assms by (auto simp: verifyCognitiveSummaryIntegrity_def Let_def summaries_match_def
        split: option.splits if_splits dest!: compare_summaries_passed)
  then show "vs_errors s = []" and "required \<Longrightarrow> summaries_match h m bytes" by auto
qed

lemma check_bundle_passed:
  assumes "vs_errors (check_bundle h m bytes required s) = []"
  shows "vs_errors s = []" and "sha256Hex h bytes = bd_sha256 (im_bundle m)" and "int (length bytes) = bd_bytes (im_bundle m)"
    and "required \<Longrightarrow> summaries_match h m bytes"
  using summaries_passed [OF assms [unfolded check_bundle_def Let_def]] by (auto simp: push_unless_errors)

section \<open>What was read\<close>

definition manifest_read :: "verify_host \<Rightarrow> script_env \<Rightarrow> string \<Rightarrow> json \<Rightarrow> bool" where
  "manifest_read h env path obj \<longleftrightarrow>
     (\<exists>raw v. se_files env path = Some raw \<and> JSON_parse raw = Some v \<and>
        (if isEncryptedBlobJson v then
           \<exists>p blob text. parseEncryptedBlob (vk_blob h) raw = Inr blob \<and> decryptBlob (vk_blob h) blob p = Inr text \<and>
             JSON_parse text = Some obj
         else obj = v))"

definition bundle_read :: "verify_host \<Rightarrow> script_env \<Rightarrow> string \<Rightarrow> string \<Rightarrow> bool" where
  "bundle_read h env path bytes \<longleftrightarrow>
     (\<exists>raw. se_files env path = Some raw \<and>
        (bytes = raw \<or> (\<exists>p blob. parseEncryptedBlob (vk_blob h) raw = Inr blob \<and> decryptBlob (vk_blob h) blob p = Inr bytes)))"

lemma parse_json_Inr: "parse_json b raw = Inr v \<longleftrightarrow> JSON_parse raw = Some v"
  by (simp add: parse_json_def split: option.split)

lemma read_file_Inr: "read_file env p = Inr t \<longleftrightarrow> se_files env p = Some t"
  by (simp add: read_file_def split: option.split)

lemma loadManifest_passed:
  assumes "loadManifest h env path pass s = (r, s')" and "vs_errors s' = []"
  shows "vs_errors s = []" and "\<exists>m obj. r = Some (m, obj) \<and> parseManifestObject obj = Inr m \<and> manifest_read h env path obj"
proof -
  let ?b = "vk_blob h"
  obtain raw where raw: "se_files env path = Some raw"
    using assms by (cases "se_files env path") (auto simp: loadManifest_def read_file_def Let_def)
  obtain v where v: "JSON_parse raw = Some v"
    using assms by (cases "JSON_parse raw") (auto simp: loadManifest_def read_file_def raw parse_json_def Let_def)
  have "vs_errors s = [] \<and> (\<exists>m obj. r = Some (m, obj) \<and> parseManifestObject obj = Inr m \<and> manifest_read h env path obj)"
  proof (cases "isEncryptedBlobJson v")
    case False
    with assms show ?thesis
      by (cases "parseManifestObject v")
        (auto simp: loadManifest_def read_file_def raw parse_json_def v Let_def manifest_read_def)
  next
    case True
    obtain p where p: "given pass = Some p"
      using assms True by (cases "given pass") (auto simp: loadManifest_def read_file_def raw parse_json_def v Let_def)
    let ?r = "rbind (parseEncryptedBlob ?b raw) (\<lambda>blob. rbind (decryptBlob ?b blob p) (\<lambda>text.
        rbind (parse_json ?b text) (\<lambda>obj. rbind (parseManifestObject obj) (\<lambda>m. Inr (m, obj)))))"
    show ?thesis
    proof (cases ?r)
      case (Inl e)
      with assms True p show ?thesis by (auto simp: loadManifest_def read_file_def raw parse_json_def v Let_def)
    next
      case (Inr mo)
      then obtain blob t where "parseEncryptedBlob ?b raw = Inr blob" "decryptBlob ?b blob p = Inr t"
          "JSON_parse t = Some (snd mo)" "parseManifestObject (snd mo) = Inr (fst mo)"
        by (auto simp: rbind_Inr_iff parse_json_Inr)
      moreover have "r = Some mo" "vs_errors s' = vs_errors s"
        using assms(1) True p Inr by (auto simp: loadManifest_def read_file_def raw parse_json_def v Let_def)
      ultimately show ?thesis using assms(2) True raw v unfolding manifest_read_def by (metis prod.collapse)
    qed
  qed
  then show "vs_errors s = []" and "\<exists>m obj. r = Some (m, obj) \<and> parseManifestObject obj = Inr m \<and> manifest_read h env path obj"
    by auto
qed

lemma resolveBundleBytes_passed:
  assumes "resolveBundleBytes h env m manifestPath pass prefer s = (path, bytes, s')" and "vs_errors s' = []"
  shows "vs_errors s = []" and "\<exists>b. bytes = Some b \<and> bundle_read h env path b"
proof -
  let ?plain = "resolveBundlePath env (bd_path (im_bundle m)) manifestPath"
  obtain c where c: "find (\<lambda>c. se_files env c \<noteq> None) (bundle_candidates m manifestPath ?plain prefer) = Some c"
    using assms by (cases "find (\<lambda>c. se_files env c \<noteq> None) (bundle_candidates m manifestPath ?plain prefer)")
      (auto simp: resolveBundleBytes_def Let_def)
  then obtain raw where raw: "se_files env c = Some raw" by (auto simp: find_Some_iff)
  note run = assms(1) [unfolded resolveBundleBytes_def Let_def c option.case raw or_else_simps]
  have same: "vs_errors s = [] \<and> (\<exists>b. bytes = Some b \<and> bundle_read h env path b)" if "path = c" "bytes = Some raw" "vs_errors s' = vs_errors s"
    using that raw assms(2) unfolding bundle_read_def by metis
  have "vs_errors s = [] \<and> (\<exists>b. bytes = Some b \<and> bundle_read h env path b)"
  proof (cases "JSON_parse raw")
    case None
    then have "path = c" "bytes = Some raw" "vs_errors s' = vs_errors s" using run by auto
    then show ?thesis by (rule same)
  next
    case (Some parsed)
    show ?thesis
    proof (cases "isEncryptedBlobJson parsed")
      case False
      then have "path = c" "bytes = Some raw" "vs_errors s' = vs_errors s" using run Some by auto
      then show ?thesis by (rule same)
    next
      case True
      obtain p where p: "given pass = Some p"
        using run assms(2) Some True by (cases "given pass") auto
      show ?thesis
      proof (cases "rbind (parseEncryptedBlob (vk_blob h) raw) (\<lambda>blob. decryptBlob (vk_blob h) blob p)")
        case (Inl e)
        then have "path = c" "bytes = Some raw" "vs_errors s' = vs_errors s" using run Some True p by auto
        then show ?thesis by (rule same)
      next
        case (Inr t)
        then obtain blob where "parseEncryptedBlob (vk_blob h) raw = Inr blob" "decryptBlob (vk_blob h) blob p = Inr t"
          by (auto simp: rbind_Inr_iff)
        moreover have "path = c" "bytes = Some t" "vs_errors s' = vs_errors s"
          using run Some True p Inr by auto
        ultimately show ?thesis using raw assms(2) unfolding bundle_read_def by metis
      qed
    qed
  qed
  then show "vs_errors s = []" and "\<exists>b. bytes = Some b \<and> bundle_read h env path b" by auto
qed

section \<open>Acceptance\<close>

lemma verify_files_passed:
  assumes "verify_files h env policy manifestPath pass expected = (bundlePath, s)" and "vs_errors s = []"
    and "vp_requireSignature policy" and "vp_requireSignedKeyBundle policy"
  shows "\<exists>obj m bytes keyId pem. manifest_read h env manifestPath obj \<and> parseManifestObject obj = Inr m \<and>
    bundle_read h env bundlePath bytes \<and> sha256Hex h bytes = bd_sha256 (im_bundle m) \<and>
    int (length bytes) = bd_bytes (im_bundle m) \<and> expected_key_id m expected = Some keyId \<and>
    trusted_key h env keyId pem \<and> manifest_signed_by h obj m pem \<and>
    (vp_requireCognitiveSummaries policy \<longrightarrow> summaries_match h m bytes)"
proof -
  obtain r s1 where load: "loadManifest h env manifestPath pass initial_state = (r, s1)" by (metis surj_pair)
  show ?thesis
  proof (cases r)
    case None
    with load assms(1) have "vs_errors s1 = []" using assms(2) by (simp add: verify_files_def)
    with loadManifest_passed(2) [OF load] None show ?thesis by simp
  next
    case (Some mo)
    obtain m obj where r: "r = Some (m, obj)" using Some by (cases mo) auto
    obtain path bytes s2 where bun: "resolveBundleBytes h env m manifestPath pass (ck_manifestEncrypted s1) s1 = (path, bytes, s2)"
      by (metis prod_cases3)
    define s3 where "s3 = (case bytes of None \<Rightarrow> s2 | Some b \<Rightarrow> check_bundle h m b (vp_requireCognitiveSummaries policy) s2)"
    obtain pem s4 where key: "resolvePublicKeyPem h env m expected (vp_requireSignedKeyBundle policy) s3 = (pem, s4)"
      by (metis surj_pair)
    have res: "bundlePath = path" "s = verifySignature h m obj pem expected (vp_requireSignature policy) s4"
      using assms(1) by (simp_all add: verify_files_def load r bun s3_def [symmetric] key)
    note sig = verifySignature_passed [OF assms(2) [unfolded res(2)]]
    note k = resolvePublicKeyPem_passed [OF key sig(1)]
    have "vs_errors s2 = []"
    proof (cases bytes)
      case None
      with k(1) show ?thesis by (simp add: s3_def)
    next
      case (Some b)
      with k(1) have "vs_errors (check_bundle h m b (vp_requireCognitiveSummaries policy) s2) = []" by (simp add: s3_def)
      from check_bundle_passed(1) [OF this] show ?thesis .
    qed
    note b = resolveBundleBytes_passed [OF bun this]
    then obtain bs where bs: "bytes = Some bs" "bundle_read h env path bs" by auto
    from k(1) have checked: "vs_errors (check_bundle h m bs (vp_requireCognitiveSummaries policy) s2) = []" by (simp add: s3_def bs)
    note c = check_bundle_passed [OF checked]
    from loadManifest_passed [OF load b(1)] have l: "parseManifestObject obj = Inr m" "manifest_read h env manifestPath obj"
      by (auto simp: r)
    from k(2) [OF assms(4)] obtain keyId p where p: "expected_key_id m expected = Some keyId" "pem = Some p" "trusted_key h env keyId p"
      by auto
    with sig(2) [OF assms(3)] have "manifest_signed_by h obj m p" by auto
    with l bs(2) c(2-4) p(1,3) res(1) show ?thesis by blast
  qed
qed

text \<open>A run that does not write an event is decided by the files.\<close>

lemma verify_main_without_event:
  assumes "verify_main h env ev fs = (Inr out, fs')" and "vp_skipChainEvent (vo_policy out)"
  shows "\<exists>pass. (vo_ok out \<longleftrightarrow> vs_errors (snd (verify_files h env (vo_policy out) (vo_manifestPath out) pass
        (arg_or_env env ''--expected-key-id'' ''MEMPHIS_INCIDENT_BUNDLE_EXPECTED_KEY_ID''))) = []) \<and>
    vo_bundlePath out = fst (verify_files h env (vo_policy out) (vo_manifestPath out) pass
        (arg_or_env env ''--expected-key-id'' ''MEMPHIS_INCIDENT_BUNDLE_EXPECTED_KEY_ID''))"
proof -
  let ?e = "arg_or_env env ''--expected-key-id'' ''MEMPHIS_INCIDENT_BUNDLE_EXPECTED_KEY_ID''"
  obtain path policy pass where args: "resolveManifestPath env = Inr path" "resolve_policy env = Inr policy"
      "resolveDecryptionPassphrase h env = Inr pass"
    using assms(1) by (auto simp: verify_main_def rbind_Inr_iff split: sum.splits)
  obtain bundlePath s where files: "verify_files h env policy path pass ?e = (bundlePath, s)" by (metis surj_pair)
  have "vo_policy out = policy" using assms(1) by (simp add: verify_main_def args Let_def files split: prod.splits) auto
  with assms(2) have skip: "vp_skipChainEvent policy" by simp
  have "out = \<lparr>vo_ok = (vs_errors s = []), vo_manifestPath = path, vo_bundlePath = bundlePath, vo_policy = policy, vo_state = s,
      vo_chainEvent = no_event\<rparr>"
    using assms(1) by (simp add: verify_main_def args Let_def files skip)
  then show ?thesis using files by (intro exI [of _ pass]) simp
qed

lemma strict_policy:
  assumes "resolve_policy env = Inr policy" and "vp_profile policy = Some TrustRootStrict"
  shows "vp_requireSignature policy" and "vp_requireSignedKeyBundle policy"
  using assms by (auto simp: resolve_policy_def rbind_Inr_iff resolveVerifyProfileDefaults_def Let_def)

text \<open>
  C3: When the verifier accepts under the profile \<open>trust-root-strict\<close>, the bundle it read has the digest and the size
  the manifest states, the manifest carries a signature that verifies over everything else in it with the key of its
  identifier, that key is in a key bundle signed by a key whose fingerprint is in the trust root, the embedded
  summaries have the stated count and digest (when required), and the outcome is on the chain unless that is waived.
\<close>

theorem incident_accepted_is_authentic:
  assumes "verify_main h env ev fs = (Inr out, fs')" and "vo_ok out" and "vp_profile (vo_policy out) = Some TrustRootStrict"
  shows "\<exists>obj m bytes keyId pem.
    manifest_read h env (vo_manifestPath out) obj \<and> parseManifestObject obj = Inr m \<and>
    bundle_read h env (vo_bundlePath out) bytes \<and> sha256Hex h bytes = bd_sha256 (im_bundle m) \<and>
    int (length bytes) = bd_bytes (im_bundle m) \<and>
    expected_key_id m (arg_or_env env ''--expected-key-id'' ''MEMPHIS_INCIDENT_BUNDLE_EXPECTED_KEY_ID'') = Some keyId \<and>
    trusted_key h env keyId pem \<and> manifest_signed_by h obj m pem \<and>
    (vp_requireCognitiveSummaries (vo_policy out) \<longrightarrow> summaries_match h m bytes) \<and>
    (vp_skipChainEvent (vo_policy out) \<or> \<not> vp_requireChainEvent (vo_policy out) \<or> ce_written (vo_chainEvent out))"
proof -
  obtain manifestPath policy pass where args: "resolveManifestPath env = Inr manifestPath" "resolve_policy env = Inr policy"
      "resolveDecryptionPassphrase h env = Inr pass"
    using assms(1) by (auto simp: verify_main_def rbind_Inr_iff split: sum.splits)
  let ?e = "arg_or_env env ''--expected-key-id'' ''MEMPHIS_INCIDENT_BUNDLE_EXPECTED_KEY_ID''"
  obtain bundlePath s where files: "verify_files h env policy manifestPath pass ?e = (bundlePath, s)" by (metis surj_pair)
  define w where "w = (if vp_skipChainEvent policy then (no_event, fs)
    else writeVerificationChainEvent h ev manifestPath bundlePath ?e s (vs_errors s = []) (vp_chainEventRetries policy) fs)"
  obtain event fs1 where w: "w = (event, fs1)" by (metis surj_pair)
  define bad where "bad \<longleftrightarrow> \<not> vp_skipChainEvent policy \<and> \<not> ce_written event \<and> vp_requireChainEvent policy"
  have main: "out = \<lparr>vo_ok = (vs_errors (if bad then push_error (''failed to append incident verification chain event: '' @
        or_else (ce_error event) ''unknown_error'') s else s) = []), vo_manifestPath = manifestPath, vo_bundlePath = bundlePath,
      vo_policy = policy, vo_state = (if bad then push_error (''failed to append incident verification chain event: '' @
        or_else (ce_error event) ''unknown_error'') s else s), vo_chainEvent = event\<rparr>"
    using assms(1) by (simp add: verify_main_def args Let_def files w_def [symmetric] w bad_def [symmetric])
  then have ok: "\<not> bad" "vs_errors s = []" using assms(2) by (auto split: if_splits)
  have out: "vo_manifestPath out = manifestPath" "vo_bundlePath out = bundlePath" "vo_policy out = policy" "vo_chainEvent out = event"
    by (simp_all add: main)
  have strict: "vp_requireSignature policy" "vp_requireSignedKeyBundle policy"
    using strict_policy [OF args(2)] assms(3) by (simp_all add: out)
  from verify_files_passed [OF files ok(2) strict] ok(1) show ?thesis
    unfolding out bad_def by blast
qed

section \<open>A run under the strict profile\<close>

definition strict_host :: verify_host where
  "strict_host =
     \<lparr>vk_blob = demo_blob_host\<lparr>bh_sha256 := (\<lambda>s. CHR ''s'' # show_nat (length s))\<rparr>, vk_createPublicKey = (\<lambda>_. Inr ()),
      vk_verifyDetached = (\<lambda>pem x s. Inr (s = pem @ show_nat (length x)))\<rparr>"

text \<open>The files as texts: a signed manifest, the bundle, a key bundle signed by a root key and the trust root.\<close>

definition strict_files :: "string \<rightharpoonup> string" where
  \<open>strict_files = map_of
     [(''/m'', ''{"schemaVersion":1,"generatedAt":"t","bundle":{"path":"b","sha256":"s35","bytes":35},"cognitiveReports":{"included":true,"count":0,"digestSha256":"s2"},"signature":{"algorithm":"ed25519","value":"P152","payloadSha256":"s152","keyFingerprint":"s1","keyId":"k"}}''),
      (''/b'', ''{"cognitiveReports":{"reports":[]}}''),
      (''/k'', ''{"schemaVersion":1,"keys":[{"keyId":"k","publicKeyPem":"P"}],"provenance":{"algorithm":"ed25519","signerRootId":"s1","signerPublicKeyPem":"R","payloadSha256":"s61","signature":"R61"}}''),
      (''/r'', ''{"version":1,"rootIds":["s1"]}'')]\<close>

definition strict_env :: script_env where
  "strict_env =
     \<lparr>se_argv = [''--profile'', ''trust-root-strict'', ''--manifest'', ''/m'', ''--public-key-bundle-path'', ''/k'',
        ''--trust-root-path'', ''/r'', ''--skip-chain-event''],
      se_vars = (\<lambda>_. None), se_cwd = ''/d'', se_files = strict_files, se_read_error = (\<lambda>_. ''ENOENT'')\<rparr>"

lemma strict_run:
  "case fst (verify_main strict_host strict_env undefined (\<lambda>_. None)) of
     Inl _ \<Rightarrow> False
   | Inr out \<Rightarrow> vo_ok out \<and> vp_profile (vo_policy out) = Some TrustRootStrict \<and> vo_bundlePath out = ''/b''"
  by code_simp

theorem incident_accepted_is_authentic_witness:
  "\<exists>obj m bytes pem. manifest_read strict_host strict_env (vo_manifestPath (projr (fst (verify_main strict_host strict_env undefined (\<lambda>_. None))))) obj \<and>
     parseManifestObject obj = Inr m \<and> bundle_read strict_host strict_env ''/b'' bytes \<and>
     sha256Hex strict_host bytes = bd_sha256 (im_bundle m) \<and> manifest_signed_by strict_host obj m pem"
proof -
  obtain out fs where run: "verify_main strict_host strict_env undefined (\<lambda>_. None) = (Inr out, fs)" "vo_ok out"
      "vp_profile (vo_policy out) = Some TrustRootStrict" "vo_bundlePath out = ''/b''"
    using strict_run by (cases "verify_main strict_host strict_env undefined (\<lambda>_. None)") (auto split: sum.splits)
  show ?thesis
    using incident_accepted_is_authentic [OF run(1-3)] by (simp add: run(1) run(4)) blast
qed

end
