(* ===== verification/IncidentExportLaws.thy ===== *)
theory IncidentExportLaws
  imports RedactionLaws IncidentLaws
begin

text \<open>
  The exporter: pruning keeps the newest bundles and touches only
  expired bundles with their companions, and what it writes is accepted by the verifier.
\<close>

section \<open>Pruning\<close>

interpretation ages: comparator by_age
  by unfold_locales (auto simp: by_age_def)

lemma unlink_files:
  assumes "safeUnlink p (removed, fs) = (removed', fs')"
  shows "map_of (xf_files fs') q = (if q = p \<and> \<not> xf_locked fs p then None else map_of (xf_files fs) q)"
    and "xf_locked fs' = xf_locked fs" and "wf_map (xf_files fs) \<Longrightarrow> wf_map (xf_files fs')"
    and "set removed' \<subseteq> insert p (set removed)"
  using assms by (auto simp: safeUnlink_def map_of_delete split: if_splits)

lemma unlinks_files:
  "fold safeUnlink ps (removed, fs) = (removed', fs') \<Longrightarrow>
   map_of (xf_files fs') q = (if q \<in> set ps \<and> \<not> xf_locked fs q then None else map_of (xf_files fs) q) \<and>
   xf_locked fs' = xf_locked fs \<and> (wf_map (xf_files fs) \<longrightarrow> wf_map (xf_files fs')) \<and> set removed' \<subseteq> set removed \<union> set ps"
proof (induction ps arbitrary: removed fs)
  case (Cons p ps)
  obtain r1 fs1 where one: "safeUnlink p (removed, fs) = (r1, fs1)" by (metis surj_pair)
  note u = unlink_files [OF one]
  from Cons.prems have "fold safeUnlink ps (r1, fs1) = (removed', fs')" by (simp add: one)
  from Cons.IH [OF this] u show ?case by auto
qed simp

definition pruned_targets :: "nat \<Rightarrow> nat \<Rightarrow> int \<Rightarrow> (string \<times> int) list \<Rightarrow> string list" where
  "pruned_targets n days now bundles =
     concat (map (\<lambda>(_, p, _). companions p) (filter (expired n days now) (zip [0..<length bundles] bundles)))"

lemma prune_as_unlinks:
  "pruneIncidentBundleHistory out n days now fs =
     fold safeUnlink (pruned_targets n days now (bundle_history (path_dirname out) fs)) ([], fs)"
proof -
  have "fold (\<lambda>(i, p, m). fold safeUnlink (companions p)) xs s = fold safeUnlink (concat (map (\<lambda>(_, p, _). companions p) xs)) s"
    for xs :: "(nat \<times> string \<times> int) list" and s by (induction xs arbitrary: s) (auto simp: split_def)
  then show ?thesis by (simp add: pruneIncidentBundleHistory_def pruned_targets_def Let_def)
qed

lemma history_set:
  "set (bundle_history dir fs) =
     (\<lambda>(p, c, t). (p, t)) ` {x \<in> set (xf_files fs). path_dirname (fst x) = dir \<and> isIncidentBundleFile (basename (fst x))}"
  unfolding bundle_history_def set_js_sort set_map set_filter by (simp add: split_def)

lemma history_mem:
  assumes "wf_map (xf_files fs)" and "(p, t) \<in> set (bundle_history dir fs)"
  shows "\<exists>c. map_of (xf_files fs) p = Some (c, t)" and "isIncidentBundleFile (basename p)"
proof -
  obtain x where x: "x \<in> set (xf_files fs)" "isIncidentBundleFile (basename (fst x))" "(p, t) = (\<lambda>(p, c, t). (p, t)) x"
    using assms(2) unfolding history_set by blast
  obtain c where c: "x = (p, c, t)" using x(3) by (cases x) auto
  show "isIncidentBundleFile (basename p)" using x(2) c by simp
  have "map_of (xf_files fs) p = Some (c, t)"
    using assms(1) x(1) c by (intro map_of_is_SomeI) (simp_all add: wf_map_def keys_def)
  then show "\<exists>c. map_of (xf_files fs) p = Some (c, t)" by blast
qed

lemma history_fst: "map fst (map (\<lambda>(p, c, t). (p, t)) xs) = map fst xs"
  by (induction xs) auto

lemma history_distinct:
  assumes "wf_map (xf_files fs)"
  shows "distinct (map fst (bundle_history dir fs))"
proof -
  let ?ys = "filter (\<lambda>(p, _). path_dirname p = dir \<and> isIncidentBundleFile (basename p)) (xf_files fs)"
  have "distinct (map fst ?ys)" using assms by (simp add: wf_map_def keys_def distinct_map_filter)
  moreover have "mset (map fst (bundle_history dir fs)) = mset (map fst (map (\<lambda>(p, c, t). (p, t)) ?ys))"
    unfolding bundle_history_def mset_map mset_js_sort by (rule refl)
  ultimately show ?thesis unfolding history_fst using mset_eq_imp_distinct_iff by blast
qed

lemma history_sorted: "sorted_wrt (\<lambda>a b. snd a \<ge> snd b) (bundle_history dir fs)"
  using ages.sorted_js_sort unfolding bundle_history_def by (simp add: by_age_def)

text \<open>The newest bundle is never expired, and no other bundle counts it among its companions.\<close>

lemma basename_append: "CHR ''/'' \<notin> set s \<Longrightarrow> basename (x @ s) = basename x @ s"
proof -
  assume "CHR ''/'' \<notin> set s"
  then have "takeWhile (\<lambda>c. c \<noteq> CHR ''/'') (rev s @ rev x) = rev s @ takeWhile (\<lambda>c. c \<noteq> CHR ''/'') (rev x)"
    by (intro takeWhile_append2) auto
  then show ?thesis by (simp add: basename_def)
qed

lemma not_bundle: "\<not> isIncidentBundleFile (basename (x @ ''.enc''))" "\<not> isIncidentBundleFile (basename (x @ MANIFEST_SUFFIX))"
  by (simp_all add: isIncidentBundleFile_def basename_append MANIFEST_SUFFIX_def ends_with_def starts_with_def)

lemma companion_names:
  assumes "isIncidentBundleFile (basename b)" and "b \<in> set (companions p)"
  shows "b = p"
proof -
  have "\<exists>y. manifestNameForBundle (basename p) = y @ MANIFEST_SUFFIX"
    unfolding manifestNameForBundle_def by (cases "ends_with (basename p) ''.json''") simp_all
  then obtain y where "manifestNameForBundle (basename p) = y @ MANIFEST_SUFFIX" by blast
  then obtain z where "companions p = [p, p @ ''.enc'', z @ MANIFEST_SUFFIX, (z @ MANIFEST_SUFFIX) @ ''.enc'']"
    by (simp add: companions_def Let_def encryptedCompanionPath_def)
  with assms show ?thesis using not_bundle not_bundle(1) [of "z @ MANIFEST_SUFFIX", unfolded append_assoc] by auto
qed

lemma prune_keeps_newest:
  assumes wf: "wf_map (xf_files fs)" and b: "map_of (xf_files fs) b = Some (c, now)" "isIncidentBundleFile (basename b)"
    and newest: "\<And>p c t. map_of (xf_files fs) p = Some (c, t) \<Longrightarrow> p \<noteq> b \<Longrightarrow> t < now" and n: "n \<ge> 1"
  shows "map_of (xf_files (snd (pruneIncidentBundleHistory out n days now fs))) b = Some (c, now)"
proof -
  let ?bs = "bundle_history (path_dirname out) fs"
  have "b \<notin> set (pruned_targets n days now ?bs)"
  proof
    assume "b \<in> set (pruned_targets n days now ?bs)"
    then obtain i p t where ipt: "(i, p, t) \<in> set (zip [0..<length ?bs] ?bs)" "expired n days now (i, p, t)" "b \<in> set (companions p)"
      by (auto simp: pruned_targets_def)
    have p: "p = b" using companion_names [OF b(2) ipt(3)] by simp
    have i: "i < length ?bs" "?bs ! i = (p, t)" using ipt(1) by (auto simp: set_zip)
    then have mem: "(b, t) \<in> set ?bs" using p nth_mem by metis
    then have t: "t = now" using history_mem(1) [OF wf mem] b(1) by auto
    have "i = 0"
    proof (rule ccontr)
      assume "i \<noteq> 0"
      obtain p0 t0 where z: "?bs ! 0 = (p0, t0)" by (metis surj_pair)
      have "snd (?bs ! 0) \<ge> snd (?bs ! i)"
        using history_sorted i(1) \<open>i \<noteq> 0\<close> by (simp add: sorted_wrt_iff_nth_less)
      then have "t0 \<ge> now" using z i(2) t by simp
      moreover have "p0 \<noteq> b"
      proof
        assume "p0 = b"
        have "0 < length ?bs" using i(1) by linarith
        with \<open>p0 = b\<close> have "map fst ?bs ! 0 = map fst ?bs ! i" using z i p by simp
        with nth_eq_iff_index_eq [OF history_distinct [OF wf, of "path_dirname out"], of 0 i] \<open>0 < length ?bs\<close> i(1) \<open>i \<noteq> 0\<close>
        show False unfolding length_map by blast
      qed
      moreover have "(p0, t0) \<in> set ?bs" using i(1) z nth_mem by (metis length_pos_if_in_set nth_mem mem)
      ultimately show False using history_mem(1) [OF wf, of p0 t0] newest by fastforce
    qed
    then show False using ipt(2) t n by (simp add: expired_def)
  qed
  moreover obtain r fs' where "fold safeUnlink (pruned_targets n days now ?bs) ([], fs) = (r, fs')" by (metis surj_pair)
  ultimately show ?thesis using unlinks_files b(1) unfolding prune_as_unlinks by fastforce
qed

lemma prune_effect:
  assumes wf: "wf_map (xf_files fs)" and free: "\<And>p. \<not> xf_locked fs p"
    and run: "pruneIncidentBundleHistory out n days now fs = (removed, fs')"
  shows "length (bundle_history (path_dirname out) fs') \<le> n"
    and "(p, t) \<in> set (bundle_history (path_dirname out) fs') \<Longrightarrow> now - t \<le> int days * 24 * 60 * 60 * 1000"
    and "map_of (xf_files fs) q \<noteq> map_of (xf_files fs') q \<Longrightarrow>
      \<exists>i b t. expired n days now (i, b, t) \<and> i < length (bundle_history (path_dirname out) fs) \<and>
        bundle_history (path_dirname out) fs ! i = (b, t) \<and> q \<in> set (companions b) \<and> map_of (xf_files fs') q = None"
proof -
  let ?dir = "path_dirname out"
  let ?bs = "bundle_history ?dir fs"
  have r: "fold safeUnlink (pruned_targets n days now ?bs) ([], fs) = (removed, fs')" using run prune_as_unlinks by simp
  have files: "map_of (xf_files fs') q = (if q \<in> set (pruned_targets n days now ?bs) then None else map_of (xf_files fs) q)" for q
    using unlinks_files [OF r, of q] free by simp
  have wf': "wf_map (xf_files fs')" using unlinks_files [OF r] wf by blast
  have target: "q \<in> set (pruned_targets n days now ?bs) \<longleftrightarrow>
      (\<exists>i b t. expired n days now (i, b, t) \<and> i < length ?bs \<and> ?bs ! i = (b, t) \<and> q \<in> set (companions b))" for q
    by (force simp: pruned_targets_def set_zip)
  have kept: "\<exists>i < length ?bs. ?bs ! i = (p, t) \<and> \<not> expired n days now (i, p, t)" if m: "(p, t) \<in> set (bundle_history ?dir fs')" for p t
  proof -
    obtain c where c: "map_of (xf_files fs') p = Some (c, t)" using history_mem(1) [OF wf' m] by blast
    then have not: "p \<notin> set (pruned_targets n days now ?bs)" "map_of (xf_files fs) p = Some (c, t)" using files [of p] by (auto split: if_splits)
    have "path_dirname p = ?dir" "isIncidentBundleFile (basename p)" using m unfolding history_set by auto
    then have "(p, t) \<in> set ?bs" unfolding history_set using map_of_SomeD [OF not(2)] by force
    then obtain i where i: "i < length ?bs" "?bs ! i = (p, t)" by (metis in_set_conv_nth)
    moreover have "p \<in> set (companions p)" by (simp add: companions_def Let_def)
    ultimately show ?thesis using not(1) target by blast
  qed
  show "now - t \<le> int days * 24 * 60 * 60 * 1000" if "(p, t) \<in> set (bundle_history ?dir fs')" for p t
    using kept [OF that] by (auto simp: expired_def)
  have sub: "set (bundle_history ?dir fs') \<subseteq> set (take n ?bs)"
  proof
    fix x assume x: "x \<in> set (bundle_history ?dir fs')"
    obtain p t where pt: "x = (p, t)" by (cases x)
    from kept x pt obtain i where "i < length ?bs" "?bs ! i = (p, t)" "i < n" by (force simp: expired_def)
    then have "i < length (take n ?bs)" "take n ?bs ! i = x" using pt by auto
    then show "x \<in> set (take n ?bs)" by (metis nth_mem)
  qed
  have "distinct (bundle_history ?dir fs')" using history_distinct [OF wf', of ?dir] by (simp add: distinct_map)
  then have "length (bundle_history ?dir fs') = card (set (bundle_history ?dir fs'))" by (simp add: distinct_card)
  also have "\<dots> \<le> card (set (take n ?bs))" using sub by (intro card_mono) simp_all
  also have "\<dots> \<le> length (take n ?bs)" by (rule card_length)
  finally show "length (bundle_history ?dir fs') \<le> n" by simp
  show "\<exists>i b t. expired n days now (i, b, t) \<and> i < length ?bs \<and> ?bs ! i = (b, t) \<and> q \<in> set (companions b) \<and>
      map_of (xf_files fs') q = None" if "map_of (xf_files fs) q \<noteq> map_of (xf_files fs') q"
    using that files [of q] target [of q] by (metis (no_types, lifting))
qed

text \<open>
  When files can be unlinked, pruning leaves at most the retained number of bundles in the directory, none older than the
  retention time, and changes nothing but expired bundles, their manifests and the encrypted companions of both; the
  bundle just written survives.
\<close>

theorem prune_retention:
  assumes "wf_map (xf_files fs)" and "\<And>p. \<not> xf_locked fs p"
    and "pruneIncidentBundleHistory out n days now fs = (removed, fs')"
  shows "length (bundle_history (path_dirname out) fs') \<le> n \<and>
    (\<forall>(p, t) \<in> set (bundle_history (path_dirname out) fs'). now - t \<le> int days * 24 * 60 * 60 * 1000) \<and>
    (\<forall>q. map_of (xf_files fs) q \<noteq> map_of (xf_files fs') q \<longrightarrow>
      (\<exists>i b t. expired n days now (i, b, t) \<and> i < length (bundle_history (path_dirname out) fs) \<and>
         bundle_history (path_dirname out) fs ! i = (b, t) \<and> q \<in> set (companions b) \<and> map_of (xf_files fs') q = None)) \<and>
    (\<forall>b c. n \<ge> 1 \<and> map_of (xf_files fs) b = Some (c, now) \<and> isIncidentBundleFile (basename b) \<and>
      (\<forall>p c t. map_of (xf_files fs) p = Some (c, t) \<and> p \<noteq> b \<longrightarrow> t < now) \<longrightarrow>
      map_of (xf_files fs') b = Some (c, now))"
proof -
  have "map_of (xf_files fs') b = Some (c, now)"
    if "n \<ge> 1" "map_of (xf_files fs) b = Some (c, now)" "isIncidentBundleFile (basename b)"
      "\<forall>p c t. map_of (xf_files fs) p = Some (c, t) \<and> p \<noteq> b \<longrightarrow> t < now" for b c
    using prune_keeps_newest [OF assms(1) that(2,3) _ that(1), of out days] that(4) assms(3) by simp
  with prune_effect [OF assms] show ?thesis by blast
qed

definition demo_export_fs :: export_fs where
  "demo_export_fs = \<lparr>xf_files = [(''/d/incident-bundle-1.json'', ''old'', 10), (''/d/incident-bundle-1.manifest.json'', ''m'', 10),
     (''/d/incident-bundle-2.json'', ''new'', 20)], xf_locked = (\<lambda>_. False)\<rparr>"

theorem prune_retention_witness:
  "length (bundle_history ''/d'' (snd (pruneIncidentBundleHistory ''/d/incident-bundle-2.json'' 1 1 20 demo_export_fs))) \<le> 1"
proof -
  have "wf_map (xf_files demo_export_fs)" by (simp add: demo_export_fs_def wf_map_def keys_def)
  moreover have "\<not> xf_locked demo_export_fs p" for p by (simp add: demo_export_fs_def)
  moreover have "path_dirname ''/d/incident-bundle-2.json'' = ''/d''" by code_simp
  ultimately show ?thesis
    using prune_retention [of demo_export_fs "''/d/incident-bundle-2.json''" 1 1 20] by (metis prod.collapse)
qed

section \<open>What is exported is accepted\<close>

text \<open>Values the bundle is made of.\<close>

lemma parseJsonLine_wf: "json_wf (parseJsonLine l)"
  by (auto simp: parseJsonLine_def dest: JSON_parse_wf split: option.split)

lemma fetchStatus_wf: "json_wf (fetchStatus r url red)"
  by (auto simp: fetchStatus_def parseJsonLine_wf redact_wf split: sum.splits)

lemma drill_wf: "json_wf (runGuardDrillJson e d)"
  by (auto simp: runGuardDrillJson_def dest: JSON_parse_wf split: option.split)

lemma audit_wf: "list_all json_wf (readAuditTail env p n red)"
  by (auto simp: readAuditTail_def parseJsonLine_wf redact_wf list_all_iff split: option.split)

lemma normalized_wf [simp]: "json_wf (normalizeStringOrNull v)" "json_wf (normalizeNumberOrNull v)" "json_wf (json_or_null t)"
  by (auto simp: normalizeStringOrNull_def normalizeNumberOrNull_def json_or_null_def split: option.split json.split)

text \<open>A summary whose type is one of the three kinds of report.\<close>

definition proper_summary :: "json \<Rightarrow> bool" where
  "proper_summary r \<longleftrightarrow> (\<exists>k. jfield r ''reportType'' = Some (JStr k))"

lemma normalize_twice [simp]:
  "normalizeStringOrNull (Some (normalizeStringOrNull v)) = normalizeStringOrNull v"
  "normalizeNumberOrNull (Some (normalizeNumberOrNull v)) = normalizeNumberOrNull v"
  "normalizeStringOrNull (Some (json_or_null t)) = json_or_null t" "normalizeStringOrNull (Some (JStr s)) = JStr s"
  by (auto simp: normalizeStringOrNull_def normalizeNumberOrNull_def json_or_null_def split: option.split json.split)

lemma summary_canonical:
  assumes "summarize_block red p b = Some r"
  shows "json_wf r" and "proper_summary r \<Longrightarrow> canonical_report r = r"
proof -
  obtain dt where dt: "jstring (at_path b [''data'', ''type'']) = Some dt" "dt \<noteq> ''''"
    using assms by (auto simp: summarize_block_def split: option.splits if_splits)
  obtain kind where kind: "report_type dt = Some kind" using assms dt by (cases "report_type dt") (auto simp: summarize_block_def)
  note r = assms [unfolded summarize_block_def dt(1) option.case kind if_not_P [OF dt(2)] option.inject, symmetric]
  have "kind = None \<or> (\<exists>v. kind = Some v \<and> json_wf v)" using kind by (auto simp: report_type_def split: if_splits)
  then show "json_wf r" unfolding r by auto
  show "canonical_report r = r" if "proper_summary r"
    using that unfolding r proper_summary_def canonical_report_def by (cases kind) auto
qed

lemma summaries_from_blocks:
  assumes "r \<in> set (readCognitiveReportSummaries env listing p n red)"
  shows "\<exists>f b. summarize_block red f b = Some r"
proof -
  define f where "f = (\<lambda>name. case Option.bind (Option.bind (se_files env (path_resolve p name)) JSON_parse)
      (summarize_block red (path_resolve p name)) of None \<Rightarrow> [] | Some r \<Rightarrow> [r])"
  define names where "names = js_sort binary_cmp (filter (\<lambda>n. ends_with n ''.json'') (or_else (listing p) []))"
  have f: "\<forall>r \<in> set (f name). \<exists>g b. summarize_block red g b = Some r" for name
  proof (cases "Option.bind (Option.bind (se_files env (path_resolve p name)) JSON_parse) (summarize_block red (path_resolve p name))")
    case (Some r)
    then obtain b where "summarize_block red (path_resolve p name) b = Some r" unfolding bind_eq_Some_conv by blast
    then show ?thesis unfolding f_def Some by auto
  next
    case None
    show ?thesis unfolding f_def None by simp
  qed
  have "readCognitiveReportSummaries env listing p n red =
      rev (drop (length (concat (map f names)) - n) (concat (map f names)))"
    by (simp add: readCognitiveReportSummaries_def Let_def f_def names_def)
  with assms have "r \<in> set (concat (map f names))" by (simp only: set_rev) (blast dest: in_set_dropD)
  then show ?thesis using f by auto
qed

lemma summaries_wf: "list_all json_wf (readCognitiveReportSummaries env listing p n red)"
  using summaries_from_blocks summary_canonical(1) by (fastforce simp: list_all_iff)

lemma bundle_wf: "json_wf (bundle_json h env inp q)"
proof -
  have "json_wf (snapshot_json s)" if "export_snapshot env inp q = Some s" for s
    using that summaries_wf by (auto simp: export_snapshot_def snapshot_json_def split: if_splits)
  then show ?thesis
    by (cases "export_snapshot env inp q") (simp_all add: bundle_json_def fetchStatus_wf drill_wf audit_wf)
qed

lemma bundle_reports:
  "embedded_reports (bundle_json h env inp q) = map_option rs_reports (export_snapshot env inp q)"
  by (cases "export_snapshot env inp q") (simp_all add: embedded_reports_def bundle_json_def at_path_def snapshot_json_def)

lemma integrity_fields:
  "jfield (buildCognitiveReportManifestIntegrity h s) ''included'' = Some (JBool (s \<noteq> None))"
  "json_wf (buildCognitiveReportManifestIntegrity h s)" "is_object (buildCognitiveReportManifestIntegrity h s)"
  by (auto simp: buildCognitiveReportManifestIntegrity_def split: option.split)

definition plain_options :: "manifest_options \<Rightarrow> bool" where
  "plain_options o' \<longleftrightarrow> mo_encryptedBundle o' = None \<and> mo_generatedAt o' \<noteq> '''' \<and> mo_bundlePath o' \<noteq> ''''"

lemma manifest_fields_wf:
  assumes "mo_encryptedBundle o' = None" and "json_wf (mo_cognitiveReports o')"
  shows "json_wf (JObj (manifest_fields h o' bytes))"
  using assms by (simp add: manifest_fields_def descriptor_json_def readDrillSchemaVersion_def list_all_iff)

lemma no_signature_field: "mo_encryptedBundle o' = None \<Longrightarrow> ''signature'' \<notin> fst ` set (manifest_fields h o' bytes)"
  by (simp add: manifest_fields_def)

lemma cognitive_checks_integrity:
  assumes "jfield v ''cognitiveReports'' = Some (buildCognitiveReportManifestIntegrity h snapshot)"
    and "\<And>x. bh_sha256 (xk_blob h) x \<noteq> ''''" and "\<And>s. snapshot = Some s \<Longrightarrow> rs_journalPath s \<noteq> ''''"
  shows "list_all fst (cognitive_checks v)"
  using assms
  by (cases snapshot) (simp_all add: cognitive_checks_def Let_def at_path_def buildCognitiveReportManifestIntegrity_def is_obj_def
      is_flag_def is_count_def is_text_def absent_def is_num_def)

definition signature_ok :: "export_host \<Rightarrow> SigningKeySpec \<Rightarrow> bool" where
  "signature_ok h key \<longleftrightarrow>
     (\<forall>x. bh_sha256 (xk_blob h) x \<noteq> '''') \<and> (\<forall>x. bh_unbase64 (xk_blob h) (bh_base64 (xk_blob h) x) = x) \<and>
     (\<forall>x. bh_base64 (xk_blob h) (xk_signDetached h (sk_privateKeyPem key) x) \<noteq> '''') \<and> sk_keyId key \<noteq> Some ''''"

lemma signed_manifest_parses:
  fixes bytes pem payload :: string
  assumes "plain_options o'" and "signature_ok h key"
    and "mo_cognitiveReports o' = buildCognitiveReportManifestIntegrity h snapshot"
    and "\<forall>s. snapshot = Some s \<longrightarrow> rs_journalPath s \<noteq> ''''"
  defines "obj \<equiv> JObj (manifest_fields h o' bytes @ [(''signature'', signature_json h key pem payload)])"
  shows "parseManifestObject obj = Inr (manifest_of obj)"
    and "im_bundle (manifest_of obj) = \<lparr>bd_path = mo_bundlePath o', bd_sha256 = bh_sha256 (xk_blob h) bytes, bd_bytes = int (length bytes)\<rparr>"
    and "im_encryptedArtifacts (manifest_of obj) = None"
    and "im_signature (manifest_of obj) = Some \<lparr>sg_value = bh_base64 (xk_blob h) (xk_signDetached h (sk_privateKeyPem key) payload),
      sg_payloadSha256 = bh_sha256 (xk_blob h) payload, sg_keyFingerprint = bh_sha256 (xk_blob h) pem, sg_keyId = sk_keyId key\<rparr>"
proof -
  have opts: "mo_encryptedBundle o' = None" "mo_generatedAt o' \<noteq> ''''" "mo_bundlePath o' \<noteq> ''''"
    using assms(1) by (simp_all add: plain_options_def)
  have sha: "\<And>x. bh_sha256 (xk_blob h) x \<noteq> ''''" and sig: "\<And>x. bh_base64 (xk_blob h) (xk_signDetached h (sk_privateKeyPem key) x) \<noteq> ''''"
    using assms(2) by (simp_all add: signature_ok_def)
  have fields: "jfield obj ''schemaVersion'' = Some (JNum 1)" "jfield obj ''generatedAt'' = Some (JStr (mo_generatedAt o'))"
    "jfield obj ''bundle'' = Some (descriptor_json h (mo_bundlePath o') bytes)"
    "jfield obj ''cognitiveReports'' = Some (buildCognitiveReportManifestIntegrity h snapshot)"
    "jfield obj ''encryptedArtifacts'' = None" "jfield obj ''signature'' = Some (signature_json h key pem payload)"
    using opts assms(3) by (simp_all add: obj_def manifest_fields_def)
  have cog: "list_all fst (cognitive_checks obj)"
    using assms(4) by (intro cognitive_checks_integrity [OF fields(4) sha]) simp
  have desc: "list_all fst (descriptor_checks ''bundle'' obj [''bundle''])"
    using opts sha by (simp add: descriptor_checks_def at_path_def fields(3) descriptor_json_def is_text_def is_count_def)
  have sigs: "list_all fst (signature_checks obj)"
    using sha sig assms(2)
    by (cases "sk_keyId key") (simp_all add: signature_checks_def Let_def at_path_def fields(6) signature_json_def is_text_def is_obj_def signature_ok_def)
  have "is_object obj" by (simp add: obj_def)
  then have "list_all fst (manifest_checks obj)"
    using desc sigs cog opts(2)
    by (simp add: manifest_checks_def fields is_text_def is_obj_def descriptor_json_def)
  then have "requires (manifest_checks obj) = Inr ()" by (simp add: requires_Inr)
  then show "parseManifestObject obj = Inr (manifest_of obj)" by (simp add: parseManifestObject_def)
  show "im_bundle (manifest_of obj) = \<lparr>bd_path = mo_bundlePath o', bd_sha256 = bh_sha256 (xk_blob h) bytes, bd_bytes = int (length bytes)\<rparr>"
    by (simp add: manifest_of_def Let_def descriptor_at_def at_path_def fields(3) descriptor_json_def the_text_def the_num_def)
  show "im_encryptedArtifacts (manifest_of obj) = None" by (simp add: manifest_of_def Let_def fields(5))
  show "im_signature (manifest_of obj) = Some \<lparr>sg_value = bh_base64 (xk_blob h) (xk_signDetached h (sk_privateKeyPem key) payload),
      sg_payloadSha256 = bh_sha256 (xk_blob h) payload, sg_keyFingerprint = bh_sha256 (xk_blob h) pem, sg_keyId = sk_keyId key\<rparr>"
    by (cases "sk_keyId key") (simp_all add: manifest_of_def Let_def at_path_def fields(6) signature_json_def the_text_def)
qed

lemma unsigned_again:
  assumes "mo_encryptedBundle o' = None"
  shows "unsigned_manifest (JObj (manifest_fields h o' bytes @ [(''signature'', sig)])) = JSON_stringify (JObj (manifest_fields h o' bytes))"
proof -
  have "AList.delete k (xs @ [(k, v)]) = AList.delete k xs" for k :: string and xs and v :: json by (simp add: AList.delete_eq)
  moreover have "AList.delete ''signature'' (manifest_fields h o' bytes) = manifest_fields h o' bytes"
    using no_signature_field [OF assms] by (intro delete_idem) (simp add: keys_def)
  ultimately show ?thesis by (simp add: unsigned_manifest_def)
qed

lemma exported_summaries_pass:
  assumes "im_cognitiveReports m = im_cognitiveReports (manifest_of obj)"
    and "jfield obj ''cognitiveReports'' = Some (buildCognitiveReportManifestIntegrity h snapshot)"
    and "vk_blob v = xk_blob h" and "JSON_parse bytes = Some bundle" and "embedded_reports bundle = map_option rs_reports snapshot"
    and "\<And>s r. snapshot = Some s \<Longrightarrow> r \<in> set (rs_reports s) \<Longrightarrow> canonical_report r = r" and "required \<longrightarrow> snapshot \<noteq> None"
    and "vs_errors s0 = []"
  shows "vs_errors (verifyCognitiveSummaryIntegrity v m bytes required s0) = []"
proof (cases snapshot)
  case None
  then have cog: "im_cognitiveReports m = Some \<lparr>ci_included = False, ci_count = 0, ci_digestSha256 = None, ci_schemaVersion = None,
      ci_limit = None, ci_journalPath = None\<rparr>"
    using assms(1,2) by (simp add: manifest_of_def Let_def at_path_def buildCognitiveReportManifestIntegrity_def the_num_def)
  show ?thesis
    using assms(5,7,8) by (simp add: verifyCognitiveSummaryIntegrity_def Let_def cog None assms(4) compare_summaries_def)
next
  case (Some s)
  let ?rs = "rs_reports s"
  have "map canonical_report ?rs = ?rs" using assms(6) [OF Some] by (simp add: map_idI)
  then have canon: "canonicalizeCognitiveReportsForDigest ?rs = canonicalizeReports ?rs"
    by (simp add: canonicalizeCognitiveReportsForDigest_def canonicalizeReports_def)
  have cog: "im_cognitiveReports m = Some \<lparr>ci_included = True, ci_count = int (length ?rs),
      ci_digestSha256 = Some (bh_sha256 (xk_blob h) (canonicalizeReports ?rs)), ci_schemaVersion = Some 1,
      ci_limit = Some (int (rs_limit s)), ci_journalPath = Some (rs_journalPath s)\<rparr>"
    using assms(1,2) Some by (simp add: manifest_of_def Let_def at_path_def buildCognitiveReportManifestIntegrity_def the_num_def)
  show ?thesis
    using assms(5,8) by (simp add: verifyCognitiveSummaryIntegrity_def Let_def cog Some assms(3,4) compare_summaries_def canon)
qed

lemma exported_files_accepted:
  fixes h :: export_host and v :: verify_host and o' :: manifest_options and q :: export_policy and env :: script_env
    and inp :: export_inputs and key :: SigningKeySpec and pem :: string
  defines "bundle \<equiv> bundle_json h env inp q"
  defines "bytes \<equiv> JSON_stringify2 bundle"
  defines "payload \<equiv> JSON_stringify (JObj (manifest_fields h o' bytes))"
  defines "obj \<equiv> JObj (manifest_fields h o' bytes @ [(''signature'', signature_json h key pem payload)])"
  assumes o': "plain_options o'" "mo_cognitiveReports o' = buildCognitiveReportManifestIntegrity h (export_snapshot env inp q)"
    and key: "signature_ok h key" and v: "vk_blob v = xk_blob h" "vk_createPublicKey v pem = Inr ()"
      "\<And>x. vk_verifyDetached v pem x (xk_signDetached h (sk_privateKeyPem key) x) = Inr True"
    and journal: "xq_journalPath q \<noteq> ''''"
    and proper: "\<And>s r. export_snapshot env inp q = Some s \<Longrightarrow> r \<in> set (rs_reports s) \<Longrightarrow> canonical_report r = r"
    and files: "se_files e M = Some (JSON_stringify2 obj)" "se_files e (mo_bundlePath o') = Some bytes" "starts_with (mo_bundlePath o') ''/''"
    and args: "given (arg_or_env e ''--bundle-path'' ''MEMPHIS_INCIDENT_BUNDLE_PATH'') = None"
      "given (arg_or_env e ''--public-key-path'' ''MEMPHIS_INCIDENT_BUNDLE_VERIFY_PUBLIC_KEY_PATH'') = Some P"
      "se_files e (path_resolve (se_cwd e) P) = Some pem" "pem \<noteq> ''''" "given expected = None \<or> expected = sk_keyId key"
    and policy: "\<not> vp_requireSignedKeyBundle policy" "vp_requireCognitiveSummaries policy \<longrightarrow> xq_includeSummaries q"
  shows "fst (verify_files v e policy M pass expected) = mo_bundlePath o'" and "vs_errors (snd (verify_files v e policy M pass expected)) = []"
proof -
  let ?m = "manifest_of obj" and ?B = "mo_bundlePath o'"
  have snap: "\<forall>s. export_snapshot env inp q = Some s \<longrightarrow> rs_journalPath s \<noteq> ''''"
    using journal by (auto simp: export_snapshot_def split: if_splits)
  note parsed = signed_manifest_parses [OF o'(1) key o'(2) snap, where bytes = bytes and pem = pem and payload = payload, folded obj_def]
  have enc: "mo_encryptedBundle o' = None" using o'(1) by (simp add: plain_options_def)
  have cogfield: "jfield obj ''cognitiveReports'' = Some (buildCognitiveReportManifestIntegrity h (export_snapshot env inp q))"
    using o'(2) by (simp add: obj_def manifest_fields_def)
  have "json_wf (JObj (manifest_fields h o' bytes))"
    using o'(2) integrity_fields(2) enc by (simp add: manifest_fields_wf del: json_wf.simps)
  then have "json_wf obj" using no_signature_field [OF enc, of h bytes] by (simp add: obj_def signature_json_def list_all_iff split: option.split)
  then have pobj: "JSON_parse (JSON_stringify2 obj) = Some obj" by (rule parse_stringify2)
  have pb: "JSON_parse bytes = Some bundle" unfolding bytes_def bundle_def by (intro parse_stringify2 bundle_wf)
  have plain: "\<not> isEncryptedBlobJson obj" "\<not> isEncryptedBlobJson bundle"
    using enc by (auto simp: isEncryptedBlobJson_def obj_def manifest_fields_def bundle_def bundle_json_def split: option.splits)
  have load: "loadManifest v e M pass initial_state = (Some (?m, obj), initial_state\<lparr>ck_schemaValid := True\<rparr>)"
    by (simp add: loadManifest_def read_file_def files(1) parse_json_def pobj plain(1) parsed(1) Let_def)
  let ?s0 = "initial_state\<lparr>ck_schemaValid := True\<rparr>"
  have clear: "ck_manifestEncrypted initial_state = False" by (simp add: initial_state_def)
  have path: "resolveBundlePath e (bd_path (im_bundle ?m)) M = ?B"
    by (simp add: resolveBundlePath_def args(1) from_manifest_dir_def parsed(2) files(3))
  have "bundle_candidates ?m M ?B False = [?B, ?B @ ''.enc'']"
    by (simp add: bundle_candidates_def parsed(3) Let_def)
  then have bun: "resolveBundleBytes v e ?m M pass False ?s0 = (?B, Some bytes, ?s0\<lparr>ck_bundleExists := True\<rparr>)"
    by (simp add: resolveBundleBytes_def Let_def path files(2) pb plain(2))
  let ?s1 = "?s0\<lparr>ck_bundleExists := True\<rparr>"
  define s2 where "s2 = check_bundle v ?m bytes (vp_requireCognitiveSummaries policy) ?s1"
  have s2: "vs_errors s2 = []"
    unfolding s2_def check_bundle_def Let_def
    by (rule exported_summaries_pass [OF refl cogfield v(1) pb])
      (use proper policy(2) in \<open>auto simp: bundle_def bundle_reports export_snapshot_def push_unless_def parsed(2) v(1) initial_state_def\<close>)
  have pemres: "resolvePublicKeyPem v e ?m expected (vp_requireSignedKeyBundle policy) s2 = (Some pem, s2)"
    using policy(1) by (simp add: resolvePublicKeyPem_def args(2,3))
  define s3 where "s3 = verifySignature v ?m obj (Some pem) expected (vp_requireSignature policy) s2"
  have un: "unsigned_manifest obj = payload" by (simp add: obj_def payload_def unsigned_again [OF enc])
  have unb: "bh_unbase64 (xk_blob h) (bh_base64 (xk_blob h) x) = x" for x using key by (simp add: signature_ok_def)
  have gp: "given (Some pem) = Some pem" using args(4) by (simp add: given_def)
  have exp: "given expected = None \<or> (\<exists>x. given expected = Some x \<and> sk_keyId key = Some x)"
    using args(5) by (cases "sk_keyId key") (auto simp: given_def)
  have chk: "vs_errors (check_manifest_signature v pem payload
      \<lparr>sg_value = bh_base64 (xk_blob h) (xk_signDetached h (sk_privateKeyPem key) payload),
       sg_payloadSha256 = bh_sha256 (xk_blob h) payload, sg_keyFingerprint = bh_sha256 (xk_blob h) pem, sg_keyId = sk_keyId key\<rparr> s) = vs_errors s" for s
    by (simp add: check_manifest_signature_def v unb Let_def push_unless_def)
  have s3: "vs_errors s3 = []"
    using exp s2 by (auto simp: s3_def verifySignature_def parsed(4) un v(1) gp chk push_unless_def Let_def)
  have "verify_files v e policy M pass expected = (?B, s3)"
    by (simp add: verify_files_def load clear bun s2_def [symmetric] pemres s3_def)
  with s3 show "fst (verify_files v e policy M pass expected) = mo_bundlePath o'" and "vs_errors (snd (verify_files v e policy M pass expected)) = []"
    by simp_all
qed

lemma parsePositiveArg_pos: "fallback \<ge> 1 \<Longrightarrow> parsePositiveArg env flag fallback v \<ge> 1"
proof -
  assume fb: "fallback \<ge> 1"
  have pos: "n > 0" if "parse_positive raw = Some n" for raw n
    using that by (simp add: parse_positive_def split: option.splits if_splits)
  have bound: "(case Option.bind x parse_positive of Some n \<Rightarrow> nat n | None \<Rightarrow> d) \<ge> 1" if "d \<ge> 1" for x d
    using that pos by (cases x; cases "parse_positive (the x)") (auto simp: Suc_le_eq)
  have "(if blank r then fallback else case Option.bind r parse_positive of None \<Rightarrow> fallback | Some n \<Rightarrow> nat n) \<ge> 1" for r
    using fb bound [OF fb, of r] by (cases "blank r") (simp_all only: if_True if_False)
  then show ?thesis unfolding parsePositiveArg_def Let_def by (rule bound)
qed

lemma Inr_unless: "(if b then Inl e else Inr x) = Inr y \<longleftrightarrow> \<not> b \<and> x = y"
  by simp

lemma policy_facts:
  assumes "resolve_export_policy h env inp = Inr q"
  shows "xq_retentionCount q \<ge> 1" and "xq_journalPath q \<noteq> ''''" and "starts_with (xq_outPath q) ''/''"
    and "xq_signingKey q \<noteq> None \<Longrightarrow> xq_writeManifest q"
proof -
  have count: "xp_retentionCount (resolveExportProfileDefaults p) \<ge> 1" for p
    by (auto simp: resolveExportProfileDefaults_def split: option.split ExportProfileName.split)
  have path: "path_resolve c p \<noteq> ''''" "starts_with (path_resolve c p) ''/''" for c p
    by (simp_all add: path_resolve_def Let_def starts_with_def)
  note q = assms [unfolded resolve_export_policy_def rbind_Inr_iff Let_def Inr_unless]
  show "xq_retentionCount q \<ge> 1"
    using q by (elim exE conjE) (hypsubst, unfold export_policy.simps, rule parsePositiveArg_pos, rule count)
  show "xq_journalPath q \<noteq> ''''"
    using q by (elim exE conjE) (hypsubst, unfold export_policy.simps, rule path)
  show "starts_with (xq_outPath q) ''/''"
    using q by (elim exE conjE) (hypsubst, unfold export_policy.simps, rule path)
  show "xq_signingKey q \<noteq> None \<Longrightarrow> xq_writeManifest q"
    using q by (elim exE conjE) (hypsubst, unfold export_policy.simps, blast)
qed


definition demo_export_host :: export_host where
  "demo_export_host =
     \<lparr>xk_blob = demo_blob_host\<lparr>bh_sha256 := (\<lambda>s. CHR ''s'' # show_nat (length s))\<rparr>,
      xk_publicKeyPem = (\<lambda>k. Inr (CHR ''P'' # k)), xk_signDetached = (\<lambda>k x. k @ show_nat (length x))\<rparr>"

definition demo_verify_host :: verify_host where
  "demo_verify_host =
     \<lparr>vk_blob = xk_blob demo_export_host, vk_createPublicKey = (\<lambda>_. Inr ()),
      vk_verifyDetached = (\<lambda>pem x s. Inr (s = tl pem @ show_nat (length x)))\<rparr>"

definition demo_export_env :: script_env where
  "demo_export_env =
     \<lparr>se_argv = [''--out'', ''/d/incident-bundle-1.json'', ''--signing-key-pem'', ''k'', ''--signing-key-id'', ''id1''],
      se_vars = (\<lambda>_. None), se_cwd = ''/d'', se_files = (\<lambda>_. None), se_read_error = (\<lambda>_. ''ENOENT'')\<rparr>"

definition demo_export_inputs :: export_inputs where
  "demo_export_inputs =
     \<lparr>xi_nowIso = ''t'', xi_fileStamp = ''s'', xi_nowMs = 9, xi_response = Inl ''down'',
      xi_drill = \<lparr>dr_status = Some 1, dr_stdout = [], dr_stderr = ''no''\<rparr>, xi_listing = (\<lambda>_. None),
      xi_journalDefault = ''/j'', xi_random = (''a'', ''b''), xi_random2 = (''c'', ''d'')\<rparr>"

definition demo_before :: export_fs where
  "demo_before = \<lparr>xf_files = [(''/k/pub.pem'', ''Pk'', 1)], xf_locked = (\<lambda>_. False)\<rparr>"

definition demo_after :: export_fs where
  "demo_after = snd (export_main demo_export_host demo_export_env demo_export_inputs demo_before)"

definition demo_export_policy :: export_policy where
  "demo_export_policy = projr (resolve_export_policy demo_export_host (demo_export_env\<lparr>se_files := content_of demo_before\<rparr>) demo_export_inputs)"

definition demo_check_env :: script_env where
  "demo_check_env =
     \<lparr>se_argv = [''--manifest-path'', ''/d/incident-bundle-1.manifest.json'', ''--public-key-path'', ''/k/pub.pem'', ''--skip-chain-event''],
      se_vars = (\<lambda>_. None), se_cwd = ''/d'', se_files = content_of demo_after, se_read_error = (\<lambda>_. ''ENOENT'')\<rparr>"

lemma demo_export_policy_result:
  "resolve_export_policy demo_export_host (demo_export_env\<lparr>se_files := content_of demo_before\<rparr>) demo_export_inputs = Inr demo_export_policy"
  "xq_signingKey demo_export_policy = Some \<lparr>sk_source = ''env-pem'', sk_privateKeyPem = ''k'', sk_keyId = Some ''id1''\<rparr>"
  "xq_encryption demo_export_policy = None" "xq_outPath demo_export_policy = ''/d/incident-bundle-1.json''" "xq_includeSummaries demo_export_policy = False"
proof -
  show "xq_signingKey demo_export_policy = Some \<lparr>sk_source = ''env-pem'', sk_privateKeyPem = ''k'', sk_keyId = Some ''id1''\<rparr>"
    "xq_encryption demo_export_policy = None" "xq_outPath demo_export_policy = ''/d/incident-bundle-1.json''" "xq_includeSummaries demo_export_policy = False"
    by code_simp+
  have "isl (resolve_export_policy demo_export_host (demo_export_env\<lparr>se_files := content_of demo_before\<rparr>) demo_export_inputs) = False"
    by code_simp
  then show "resolve_export_policy demo_export_host (demo_export_env\<lparr>se_files := content_of demo_before\<rparr>) demo_export_inputs = Inr demo_export_policy"
    by (simp add: demo_export_policy_def)
qed

lemma demo_export_run:
  "export_main demo_export_host demo_export_env demo_export_inputs demo_before =
     (Inr (''/d/incident-bundle-1.json'', Some ''/d/incident-bundle-1.manifest.json'', []), demo_after)"
  "content_of demo_after ''/k/pub.pem'' = Some ''Pk''"
proof -
  have "map_prod id (\<lambda>fs. content_of fs ''/k/pub.pem'') (export_main demo_export_host demo_export_env demo_export_inputs demo_before) =
      (Inr (''/d/incident-bundle-1.json'', Some ''/d/incident-bundle-1.manifest.json'', []), Some ''Pk'')" by code_simp
  then show "export_main demo_export_host demo_export_env demo_export_inputs demo_before =
     (Inr (''/d/incident-bundle-1.json'', Some ''/d/incident-bundle-1.manifest.json'', []), demo_after)"
    and "content_of demo_after ''/k/pub.pem'' = Some ''Pk''"
    by (simp_all add: demo_after_def prod_eq_iff)
qed

definition demo_check_out :: VerifyOutput where
  "demo_check_out = projr (fst (verify_main demo_verify_host demo_check_env undefined (\<lambda>_. None)))"

lemmas args_simps = arg_or_env_def orElse_def parseArg_def given_def blank_def

lemma demo_resolved:
  "resolveManifestPath demo_check_env = Inr ''/d/incident-bundle-1.manifest.json''"
  "resolve_policy demo_check_env = Inr
     \<lparr>vp_profile = None, vp_requireSignature = False, vp_requireSignedKeyBundle = False, vp_requireCognitiveSummaries = False,
      vp_skipChainEvent = True, vp_requireChainEvent = True, vp_chainEventRetries = 2, vp_chainEventBackoffMs = 50\<rparr>"
  "resolveDecryptionPassphrase demo_verify_host demo_check_env = Inr None"
proof -
  have path: "path_resolve ''/d'' ''/d/incident-bundle-1.manifest.json'' = ''/d/incident-bundle-1.manifest.json''" by code_simp
  show "resolveManifestPath demo_check_env = Inr ''/d/incident-bundle-1.manifest.json''"
    by (simp add: resolveManifestPath_def args_simps demo_check_env_def path)
  show "resolve_policy demo_check_env = Inr
     \<lparr>vp_profile = None, vp_requireSignature = False, vp_requireSignedKeyBundle = False, vp_requireCognitiveSummaries = False,
      vp_skipChainEvent = True, vp_requireChainEvent = True, vp_chainEventRetries = 2, vp_chainEventBackoffMs = 50\<rparr>"
    by (simp add: resolve_policy_def resolveVerifyProfileName_def resolveVerifyProfileDefaults_def args_simps demo_check_env_def
        parseIntArg_def parseOptionalBool_def hasFlag_def Let_def)
  show "resolveDecryptionPassphrase demo_verify_host demo_check_env = Inr None"
    by (simp add: resolveDecryptionPassphrase_def args_simps demo_check_env_def Let_def)
qed

lemma demo_check_run:
  "verify_main demo_verify_host demo_check_env undefined (\<lambda>_. None) = (Inr demo_check_out, \<lambda>_. None)"
  "vo_manifestPath demo_check_out = ''/d/incident-bundle-1.manifest.json''" "vp_skipChainEvent (vo_policy demo_check_out)"
  "\<not> vp_requireSignedKeyBundle (vo_policy demo_check_out)" "\<not> vp_requireCognitiveSummaries (vo_policy demo_check_out)"
  unfolding demo_check_out_def by (simp_all add: verify_main_def demo_resolved Let_def split: prod.split)

lemma demo_scheme: "signature_ok demo_export_host \<lparr>sk_source = ''env-pem'', sk_privateKeyPem = ''k'', sk_keyId = Some ''id1''\<rparr>"
  by (simp add: signature_ok_def demo_export_host_def demo_blob_host_def)


end
