(* ===== verification/KeyRotation.thy ===== *)
theory KeyRotation
  imports IncidentExport IncidentLaws
begin

text \<open>
  Rotation of the incident signing keys (\<open>scripts/rotate-key-bundle.mts\<close>): a new key pair is added to the bundle of
  public keys, and the bundle is signed by a key of the trust root. The script writes the bundle, the private key and
  the public key, in this order; \<open>ri_mkdir\<close> and \<open>ri_write\<close> give the error of a step that fails. The generated key pair
  and the clock are inputs.
\<close>

section \<open>Reading what is there\<close>

record rotation_inputs =
  ri_nowIso :: string
  ri_fileStamp :: string
  ri_publicPem :: string
  ri_privatePem :: string
  ri_mkdir :: "string \<Rightarrow> string option"
  ri_write :: "string \<Rightarrow> string option"

text \<open>The source and the text of the signing key.\<close>

definition resolveTrustRootSigningKeySpec :: "export_host \<Rightarrow> script_env \<Rightarrow> (string, string \<times> string) result" where
  "resolveTrustRootSigningKeySpec h env =
     (let pathRaw = given (arg_or_env env ''--trust-root-signing-key-path'' ''MEMPHIS_TRUST_ROOT_SIGNING_KEY_PATH'');
          pemRaw = given (arg_or_env env ''--trust-root-signing-key-pem'' ''MEMPHIS_TRUST_ROOT_SIGNING_KEY_PEM'');
          pemBase64Raw = given (arg_or_env env ''--trust-root-signing-key-pem-base64'' ''MEMPHIS_TRUST_ROOT_SIGNING_KEY_PEM_BASE64'');
          present = length (filter (\<lambda>v. v \<noteq> None) [pathRaw, pemRaw, pemBase64Raw])
      in if present = 0 then
           Inl (''missing trust root signing key source; use --trust-root-signing-key-path, '' @
                ''--trust-root-signing-key-pem, or --trust-root-signing-key-pem-base64'')
         else if present > 1 then
           Inl (''multiple trust root signing key sources provided; use exactly one of --trust-root-signing-key-path, '' @
                ''--trust-root-signing-key-pem, --trust-root-signing-key-pem-base64'')
         else (case pathRaw of
             Some path \<Rightarrow> rbind (read_file env (path_resolve (se_cwd env) path)) (\<lambda>pem. Inr (''path'', pem))
           | None \<Rightarrow>
               (case pemRaw of
                  Some pem \<Rightarrow> Inr (''pem'', pem)
                | None \<Rightarrow> Inr (''pem-base64'', bh_unbase64 (xk_blob h) (or_else pemBase64Raw '''')))))"

definition parseActiveTrustRoot :: "blob_host \<Rightarrow> string \<Rightarrow> (string, int \<times> string list) result" where
  "parseActiveTrustRoot b raw =
     rbind (parse_json b raw) (\<lambda>v.
       (let ids = or_else (json_items (jfield v ''rootIds'')) []; rootIds = map (\<lambda>i. the_text (Some i)) ids
        in rbind (requires
             [(is_object v, ''trust root manifest must be a JSON object''),
              (is_num (jfield v ''version'') \<and> the_num (jfield v ''version'') > 0,
               ''trust root manifest version must be a positive integer''),
              (ids \<noteq> [], ''trust root manifest rootIds must be a non-empty array''),
              (list_all (\<lambda>i. is_text (Some i)) ids, ''trust root manifest rootIds entries must be non-empty strings''),
              (distinct rootIds, ''trust root manifest rootIds must be unique'')])
             (\<lambda>_. Inr (the_num (jfield v ''version''), rootIds))))"

definition key_entry :: "json \<Rightarrow> PublicKeyBundleEntry" where
  "key_entry r = \<lparr>pk_keyId = the_text (jfield r ''keyId''), pk_publicKeyPem = the_text (jfield r ''publicKeyPem'')\<rparr>"

definition parseBaseBundle :: "blob_host \<Rightarrow> string \<Rightarrow> (string, PublicKeyBundleEntry list) result" where
  "parseBaseBundle b raw =
     rbind (parse_json b raw) (\<lambda>v.
       (let rows = or_else (json_items (jfield v ''keys'')) []
        in rbind (requires
             ([(is_object v, ''public key bundle must be a JSON object''),
               (jfield v ''schemaVersion'' = Some (JNum 1), ''public key bundle schemaVersion must be 1''),
               (json_items (jfield v ''keys'') \<noteq> None, ''public key bundle keys must be an array'')] @
              concat (map key_entry_checks rows) @
              [(distinct (map (\<lambda>r. pk_keyId (key_entry r)) rows), ''public key bundle contains duplicate keyId entries'')]))
             (\<lambda>_. Inr (map key_entry rows))))"

definition resolveBundleOutPath :: "script_env \<Rightarrow> string" where
  "resolveBundleOutPath env =
     path_resolve (se_cwd env)
       (or_else (orElse (parseArg env ''--bundle-out'')
                   (arg_or_env env ''--public-key-bundle-out'' ''MEMPHIS_INCIDENT_PUBLIC_KEY_BUNDLE_OUT''))
          ''data/public-key-bundle.json'')"

definition resolveBaseBundlePath :: "script_env \<Rightarrow> string \<Rightarrow> string option" where
  "resolveBaseBundlePath env bundleOutPath =
     (case given (orElse (parseArg env ''--base-bundle-path'')
                    (arg_or_env env ''--public-key-bundle-path'' ''MEMPHIS_INCIDENT_PUBLIC_KEY_BUNDLE_PATH'')) of
        Some provided \<Rightarrow> Some (path_resolve (se_cwd env) provided)
      | None \<Rightarrow> if se_files env bundleOutPath = None then None else Some bundleOutPath)"

definition loadExistingKeys :: "blob_host \<Rightarrow> script_env \<Rightarrow> string option \<Rightarrow> (string, PublicKeyBundleEntry list) result" where
  "loadExistingKeys b env baseBundlePath =
     (case baseBundlePath of
        None \<Rightarrow> Inr []
      | Some path \<Rightarrow>
          (case se_files env path of
             None \<Rightarrow> Inl (''base bundle not found: '' @ path)
           | Some raw \<Rightarrow> parseBaseBundle b raw))"

section \<open>The new key and its files\<close>

definition sanitizeKeyId :: "string \<Rightarrow> string" where
  "sanitizeKeyId input = map (\<lambda>c. if is_alnum c \<or> c \<in> set ''._-'' then c else CHR ''-'') input"

definition defaultKeyId :: "rotation_inputs \<Rightarrow> string" where
  "defaultKeyId inp = ''incident-key-'' @ ri_fileStamp inp"

definition resolveNewKeyId :: "script_env \<Rightarrow> rotation_inputs \<Rightarrow> PublicKeyBundleEntry list \<Rightarrow> (string, string) result" where
  "resolveNewKeyId env inp existingKeys =
     (let provided = or_else (orElse (parseArg env ''--new-key-id'') (arg_or_env env ''--key-id'' ''MEMPHIS_INCIDENT_ROTATE_NEW_KEY_ID''))
            (defaultKeyId inp);
          normalized = trim provided
      in if normalized = '''' then Inl ''new key id must be a non-empty string''
         else if normalized \<in> pk_keyId ` set existingKeys then Inl (''new key id already exists in bundle: '' @ normalized)
         else Inr normalized)"

text \<open>\<open>resolveNewPrivateKeyOutPath\<close> and \<open>resolveNewPublicKeyOutPath\<close> differ in the option and the extension.\<close>

definition key_out_path :: "string \<Rightarrow> string \<Rightarrow> string \<Rightarrow> script_env \<Rightarrow> string \<Rightarrow> string \<Rightarrow> string" where
  "key_out_path flag var extension env bundleOutPath keyId =
     (case given (arg_or_env env flag var) of
        Some provided \<Rightarrow> path_resolve (se_cwd env) provided
      | None \<Rightarrow> path_resolve (path_dirname bundleOutPath) (''incident-signing-'' @ sanitizeKeyId keyId @ extension))"

definition resolveNewPrivateKeyOutPath :: "script_env \<Rightarrow> string \<Rightarrow> string \<Rightarrow> string" where
  "resolveNewPrivateKeyOutPath = key_out_path ''--new-private-key-out'' ''MEMPHIS_INCIDENT_ROTATE_PRIVATE_KEY_OUT'' ''.pem''"

definition resolveNewPublicKeyOutPath :: "script_env \<Rightarrow> string \<Rightarrow> string \<Rightarrow> string" where
  "resolveNewPublicKeyOutPath = key_out_path ''--new-public-key-out'' ''MEMPHIS_INCIDENT_ROTATE_PUBLIC_KEY_OUT'' ''.pub.pem''"

section \<open>The run\<close>

fun all_or_error :: "(string \<Rightarrow> string option) \<Rightarrow> string list \<Rightarrow> (string, unit) result" where
  "all_or_error fault [] = Inr ()"
| "all_or_error fault (d # ds) = (case fault d of Some e \<Rightarrow> Inl e | None \<Rightarrow> all_or_error fault ds)"

fun write_files :: "(string \<Rightarrow> string option) \<Rightarrow> (string \<times> string) list \<Rightarrow> (string \<Rightarrow> string option) \<Rightarrow>
    (string, unit) result \<times> (string \<Rightarrow> string option)" where
  "write_files fault [] files = (Inr (), files)"
| "write_files fault ((path, content) # rest) files =
     (case fault path of Some e \<Rightarrow> (Inl e, files) | None \<Rightarrow> write_files fault rest (files(path \<mapsto> content)))"

definition keys_json :: "PublicKeyBundleEntry list \<Rightarrow> json" where
  "keys_json ks = JArr (map (\<lambda>k. JObj [(''keyId'', JStr (pk_keyId k)), (''publicKeyPem'', JStr (pk_publicKeyPem k))]) ks)"

definition rotated_bundle :: "export_host \<Rightarrow> string \<Rightarrow> string \<Rightarrow> string \<Rightarrow> PublicKeyBundleEntry list \<Rightarrow> json" where
  "rotated_bundle h signerKeyPem signerPublicKeyPem signedAt nextKeys =
     (let unsigned = [(''schemaVersion'', JNum 1), (''keys'', keys_json nextKeys)]; payload = JSON_stringify (JObj unsigned)
      in JObj (unsigned @
           [(''provenance'', JObj
              [(''algorithm'', JStr ''ed25519''), (''signerRootId'', JStr (bh_sha256 (xk_blob h) signerPublicKeyPem)),
               (''signerPublicKeyPem'', JStr signerPublicKeyPem), (''payloadSha256'', JStr (bh_sha256 (xk_blob h) payload)),
               (''signature'', JStr (bh_base64 (xk_blob h) (xk_signDetached h signerKeyPem payload))), (''signedAt'', JStr signedAt)])]))"

record rotation =
  ro_bundlePath :: string
  ro_basePath :: "string option"
  ro_trustVersion :: int
  ro_signer :: "string \<times> string"
  ro_signerPublicKeyPem :: string
  ro_existing :: "PublicKeyBundleEntry list"
  ro_keyId :: string

text \<open>Everything the script decides before it generates the key pair.\<close>

definition plan_rotation :: "export_host \<Rightarrow> script_env \<Rightarrow> rotation_inputs \<Rightarrow> (string, rotation) result" where
  "plan_rotation h env inp =
     (let bundleOutPath = resolveBundleOutPath env; base = resolveBaseBundlePath env bundleOutPath
      in case se_files env (resolveTrustRootPath env) of
           None \<Rightarrow> Inl (''trust root manifest not found: '' @ resolveTrustRootPath env)
         | Some raw \<Rightarrow>
             rbind (parseActiveTrustRoot (xk_blob h) raw) (\<lambda>(version, rootIds).
             rbind (resolveTrustRootSigningKeySpec h env) (\<lambda>signer.
             rbind (xk_publicKeyPem h (snd signer)) (\<lambda>signerPem.
               if bh_sha256 (xk_blob h) signerPem \<notin> set rootIds then
                 Inl (''trust root signer is not in active trust root set: '' @ bh_sha256 (xk_blob h) signerPem)
               else
                 rbind (loadExistingKeys (xk_blob h) env base) (\<lambda>existing.
                 rbind (resolveNewKeyId env inp existing) (\<lambda>keyId.
                   Inr \<lparr>ro_bundlePath = bundleOutPath, ro_basePath = base, ro_trustVersion = version, ro_signer = signer,
                        ro_signerPublicKeyPem = signerPem, ro_existing = existing, ro_keyId = keyId\<rparr>))))))"

definition next_keys :: "rotation_inputs \<Rightarrow> rotation \<Rightarrow> PublicKeyBundleEntry list" where
  "next_keys inp r = ro_existing r @ [\<lparr>pk_keyId = ro_keyId r, pk_publicKeyPem = ri_publicPem inp\<rparr>]"

definition rotation_response :: "export_host \<Rightarrow> script_env \<Rightarrow> rotation_inputs \<Rightarrow> rotation \<Rightarrow> json" where
  "rotation_response h env inp r =
     JObj [(''ok'', JBool True), (''bundlePath'', JStr (ro_bundlePath r)),
           (''baseBundlePath'', case ro_basePath r of None \<Rightarrow> JNull | Some p \<Rightarrow> JStr p),
           (''trustRootPath'', JStr (resolveTrustRootPath env)), (''trustRootVersion'', JNum (ro_trustVersion r)),
           (''signerRootId'', JStr (bh_sha256 (xk_blob h) (ro_signerPublicKeyPem r))),
           (''signerKeySource'', JStr (fst (ro_signer r))), (''keyId'', JStr (ro_keyId r)),
           (''keyCount'', JNum (int (length (next_keys inp r)))),
           (''newPrivateKeyPath'', JStr (resolveNewPrivateKeyOutPath env (ro_bundlePath r) (ro_keyId r))),
           (''newPublicKeyPath'', JStr (resolveNewPublicKeyOutPath env (ro_bundlePath r) (ro_keyId r))),
           (''generatedAt'', JStr (ri_nowIso inp))]"

definition rotate_run :: "export_host \<Rightarrow> script_env \<Rightarrow> rotation_inputs \<Rightarrow>
    (string, json) result \<times> (string \<Rightarrow> string option)" where
  "rotate_run h env inp =
     (case plan_rotation h env inp of
        Inl e \<Rightarrow> (Inl e, se_files env)
      | Inr r \<Rightarrow>
          (let bundlePath = ro_bundlePath r;
               privatePath = resolveNewPrivateKeyOutPath env bundlePath (ro_keyId r);
               publicPath = resolveNewPublicKeyOutPath env bundlePath (ro_keyId r);
               bundle = rotated_bundle h (snd (ro_signer r)) (ro_signerPublicKeyPem r) (ri_nowIso inp) (next_keys inp r)
           in case all_or_error (ri_mkdir inp) (map path_dirname [bundlePath, privatePath, publicPath]) of
                Inl e \<Rightarrow> (Inl e, se_files env)
              | Inr _ \<Rightarrow>
                  (case write_files (ri_write inp)
                       [(bundlePath, JSON_stringify2 bundle @ [CHR 0x0A]), (privatePath, ri_privatePem inp), (publicPath, ri_publicPem inp)]
                       (se_files env) of
                     (Inl e, files) \<Rightarrow> (Inl e, files)
                   | (Inr _, files) \<Rightarrow> (Inr (rotation_response h env inp r), files))))"

end
