(* ===== verification/KeyRotationLaws.thy ===== *)
theory KeyRotationLaws
  imports KeyRotation IncidentExportLaws
begin

text \<open>
  A rotated bundle is one the verifier of incident manifests accepts under the trust-root policy, with every key that
  was in the bundle before and the new one.
\<close>

section \<open>What the script reads\<close>

lemma parsed_keys_proper:
  assumes "parseBaseBundle b raw = Inr ks"
  shows "distinct (map pk_keyId ks)" and "\<And>k. k \<in> set ks \<Longrightarrow> pk_keyId k \<noteq> '''' \<and> pk_publicKeyPem k \<noteq> ''''"
proof -
  obtain v where v: "ks = map key_entry (or_else (json_items (jfield v ''keys'')) [])"
      "distinct (map (\<lambda>r. pk_keyId (key_entry r)) (or_else (json_items (jfield v ''keys'')) []))"
      "list_all (\<lambda>r. list_all fst (key_entry_checks r)) (or_else (json_items (jfield v ''keys'')) [])"
    using assms unfolding parseBaseBundle_def rbind_Inr_iff Let_def requires_Inr by (auto simp: list_all_iff)
  then show "distinct (map pk_keyId ks)" by (simp add: comp_def)
  have "is_text x \<Longrightarrow> the_text x \<noteq> ''''" for x
    by (cases x rule: option.exhaust) (auto simp: is_text_def the_text_def split: json.splits)
  with v(1,3) show "pk_keyId k \<noteq> '''' \<and> pk_publicKeyPem k \<noteq> ''''" if "k \<in> set ks" for k
    using that by (auto simp: list_all_iff key_entry_checks_def key_entry_def)
qed

lemma active_root_accepted:
  assumes "parseActiveTrustRoot (xk_blob h) raw = Inr (version, ids)" and "vk_blob v = xk_blob h"
  shows "parseTrustRootManifest v raw = Inr ids"
  using assms unfolding parseActiveTrustRoot_def parseTrustRootManifest_def rbind_Inr_iff Let_def requires_Inr by auto

lemma loaded_keys_proper:
  assumes "loadExistingKeys b env base = Inr ks"
  shows "distinct (map pk_keyId ks)" and "\<And>k. k \<in> set ks \<Longrightarrow> pk_keyId k \<noteq> '''' \<and> pk_publicKeyPem k \<noteq> ''''"
  using assms parsed_keys_proper by (auto simp: loadExistingKeys_def split: option.splits)

lemma plan_rotation_facts:
  assumes "plan_rotation h env inp = Inr r"
  shows "ro_bundlePath r = resolveBundleOutPath env" and "ro_basePath r = resolveBaseBundlePath env (ro_bundlePath r)"
    and "\<exists>raw ids. se_files env (resolveTrustRootPath env) = Some raw \<and>
           parseActiveTrustRoot (xk_blob h) raw = Inr (ro_trustVersion r, ids) \<and>
           bh_sha256 (xk_blob h) (ro_signerPublicKeyPem r) \<in> set ids"
    and "resolveTrustRootSigningKeySpec h env = Inr (ro_signer r)"
    and "xk_publicKeyPem h (snd (ro_signer r)) = Inr (ro_signerPublicKeyPem r)"
    and "loadExistingKeys (xk_blob h) env (ro_basePath r) = Inr (ro_existing r)"
    and "resolveNewKeyId env inp (ro_existing r) = Inr (ro_keyId r)"
  using assms
  by (auto simp: plan_rotation_def Let_def rbind_Inr_iff split: option.splits if_splits)

lemma new_key_id: "resolveNewKeyId env inp ks = Inr k \<Longrightarrow> k \<noteq> '''' \<and> k \<notin> pk_keyId ` set ks"
  by (auto simp: resolveNewKeyId_def Let_def split: if_splits)

section \<open>What the verifier makes of the written bundle\<close>

definition rotation_scheme :: "export_host \<Rightarrow> verify_host \<Rightarrow> bool" where
  "rotation_scheme h v \<longleftrightarrow>
     vk_blob v = xk_blob h \<and> (\<forall>x. bh_sha256 (xk_blob h) x \<noteq> '''') \<and> (\<forall>x. bh_unbase64 (xk_blob h) (bh_base64 (xk_blob h) x) = x) \<and>
     (\<forall>k pem. xk_publicKeyPem h k = Inr pem \<longrightarrow> pem \<noteq> '''' \<and> vk_createPublicKey v pem = Inr () \<and>
        (\<forall>x. bh_base64 (xk_blob h) (xk_signDetached h k x) \<noteq> '''' \<and> vk_verifyDetached v pem x (xk_signDetached h k x) = Inr True))"

definition written_provenance :: "export_host \<Rightarrow> string \<Rightarrow> string \<Rightarrow> string \<Rightarrow> PublicKeyBundleEntry list \<Rightarrow> PublicKeyBundle" where
  "written_provenance h key pem signedAt ks =
     (let payload = JSON_stringify (JObj [(''schemaVersion'', JNum 1), (''keys'', keys_json ks)])
      in \<lparr>kb_keys = ks, kb_provenance = Some
           \<lparr>pv_signerRootId = bh_sha256 (xk_blob h) pem, pv_signerPublicKeyPem = pem, pv_payloadSha256 = bh_sha256 (xk_blob h) payload,
            pv_signature = bh_base64 (xk_blob h) (xk_signDetached h key payload), pv_signedAt = Some signedAt\<rparr>\<rparr>)"

definition key_row :: "PublicKeyBundleEntry \<Rightarrow> json" where
  "key_row k = JObj [(''keyId'', JStr (pk_keyId k)), (''publicKeyPem'', JStr (pk_publicKeyPem k))]"

lemma keys_json_items: "json_items (Some (keys_json ks)) = Some (map key_row ks)"
  by (simp add: json_items_def keys_json_def key_row_def)

lemma rotated_bundle_parses:
  assumes "rotation_scheme h v" and "xk_publicKeyPem h key = Inr pem" and "signedAt \<noteq> ''''"
    and "\<And>k. k \<in> set ks \<Longrightarrow> pk_keyId k \<noteq> '''' \<and> pk_publicKeyPem k \<noteq> ''''"
  shows "parsePublicKeyBundle v (JSON_stringify2 (rotated_bundle h key pem signedAt ks) @ [CHR 0x0A]) =
    Inr (written_provenance h key pem signedAt ks)"
proof -
  let ?b = "rotated_bundle h key pem signedAt ks"
  have "json_wf ?b" by (simp add: rotated_bundle_def Let_def keys_json_def list_all_iff)
  then have parsed: "parse_json (vk_blob v) (JSON_stringify2 ?b @ [CHR 0x0A]) = Inr ?b"
    by (simp add: parse_json_def parse_stringify2_line)
  have fields: "is_object ?b" "jfield ?b ''schemaVersion'' = Some (JNum 1)" "jfield ?b ''keys'' = Some (keys_json ks)"
    by (simp_all add: rotated_bundle_def Let_def)
  obtain p where p: "jfield ?b ''provenance'' = Some p" by (simp add: rotated_bundle_def Let_def)
  have entries: "list_all fst (concat (map key_entry_checks (map key_row ks)))"
    using assms(4) by (auto simp: list_all_iff key_entry_checks_def is_text_def key_row_def)
  have prov: "list_all fst (provenance_checks ?b)"
    using assms(1-3) by (auto simp: provenance_checks_def Let_def at_path_def rotated_bundle_def is_obj_def is_text_def rotation_scheme_def)
  have "map (\<lambda>r. \<lparr>pk_keyId = the_text (jfield r ''keyId''), pk_publicKeyPem = the_text (jfield r ''publicKeyPem'')\<rparr>) (map key_row ks) = ks"
    by (simp add: the_text_def comp_def key_row_def map_idI)
  moreover have "Some \<lparr>pv_signerRootId = the_text (at_path ?b [''provenance'', ''signerRootId'']),
      pv_signerPublicKeyPem = the_text (at_path ?b [''provenance'', ''signerPublicKeyPem'']),
      pv_payloadSha256 = the_text (at_path ?b [''provenance'', ''payloadSha256'']),
      pv_signature = the_text (at_path ?b [''provenance'', ''signature'']),
      pv_signedAt = jstring (at_path ?b [''provenance'', ''signedAt''])\<rparr> = kb_provenance (written_provenance h key pem signedAt ks)"
    by (simp add: at_path_def rotated_bundle_def written_provenance_def Let_def the_text_def)
  moreover have "kb_keys (written_provenance h key pem signedAt ks) = ks" by (simp add: written_provenance_def Let_def)
  ultimately have "\<lparr>kb_keys = map (\<lambda>r. \<lparr>pk_keyId = the_text (jfield r ''keyId''), pk_publicKeyPem = the_text (jfield r ''publicKeyPem'')\<rparr>) (map key_row ks),
      kb_provenance = Some \<lparr>pv_signerRootId = the_text (at_path ?b [''provenance'', ''signerRootId'']),
      pv_signerPublicKeyPem = the_text (at_path ?b [''provenance'', ''signerPublicKeyPem'']),
      pv_payloadSha256 = the_text (at_path ?b [''provenance'', ''payloadSha256'']),
      pv_signature = the_text (at_path ?b [''provenance'', ''signature'']),
      pv_signedAt = jstring (at_path ?b [''provenance'', ''signedAt''])\<rparr>\<rparr> = written_provenance h key pem signedAt ks" by simp
  moreover have "or_else (json_items (jfield ?b ''keys'')) [] = map key_row ks" by (simp add: fields(3) keys_json_items)
  ultimately show ?thesis
    using fields(1,2) entries prov
    unfolding parsePublicKeyBundle_def parsed rbind.simps Let_def rbind_Inr_iff requires_Inr
    by (simp add: fields(3) keys_json_items p)
qed

lemma trusted_root_passes:
  assumes "se_files env (resolveTrustRootPath env) = Some raw" and "parseTrustRootManifest v raw = Inr ids" and "rootId \<in> set ids"
  shows "vs_errors (check_trust_root v env rootId s) = vs_errors s"
  using assms by (simp add: check_trust_root_def Let_def push_unless_def)

lemma written_provenance_passes:
  assumes "rotation_scheme h v" and "xk_publicKeyPem h key = Inr pem"
    and "se_files e (resolveTrustRootPath e) = Some raw" and "parseTrustRootManifest v raw = Inr ids"
    and "bh_sha256 (xk_blob h) pem \<in> set ids"
  shows "vs_errors (verifyKeyBundleProvenance v e (written_provenance h key pem signedAt ks) True s) = vs_errors s"
proof -
  have payload: "unsigned_keys (written_provenance h key pem signedAt ks) = JSON_stringify (JObj [(''schemaVersion'', JNum 1), (''keys'', keys_json ks)])"
    by (simp add: unsigned_keys_def written_provenance_def keys_json_def Let_def)
  have pv: "kb_provenance (written_provenance h key pem signedAt ks) = Some
      \<lparr>pv_signerRootId = bh_sha256 (xk_blob h) pem, pv_signerPublicKeyPem = pem,
       pv_payloadSha256 = bh_sha256 (xk_blob h) (JSON_stringify (JObj [(''schemaVersion'', JNum 1), (''keys'', keys_json ks)])),
       pv_signature = bh_base64 (xk_blob h) (xk_signDetached h key (JSON_stringify (JObj [(''schemaVersion'', JNum 1), (''keys'', keys_json ks)]))),
       pv_signedAt = Some signedAt\<rparr>"
    by (simp add: written_provenance_def Let_def)
  show ?thesis
    using assms(1,2) trusted_root_passes [OF assms(3-5)]
    by (simp add: verifyKeyBundleProvenance_def pv payload Let_def rotation_scheme_def push_unless_def)
qed

lemma find_distinct_key:
  "distinct (map pk_keyId ks) \<Longrightarrow> k \<in> set ks \<Longrightarrow> find (\<lambda>x. pk_keyId x = pk_keyId k) ks = Some k"
  by (induction ks) force+

text \<open>The files after a run that ended well: nothing else than the three files has changed.\<close>

lemma rotate_run_ok:
  assumes "rotate_run h env inp = (Inr response, files)"
  obtains r where "plan_rotation h env inp = Inr r" "response = rotation_response h env inp r"
    "files = (se_files env)(ro_bundlePath r \<mapsto> JSON_stringify2 (rotated_bundle h (snd (ro_signer r)) (ro_signerPublicKeyPem r) (ri_nowIso inp) (next_keys inp r)) @ [CHR 0x0A],
       resolveNewPrivateKeyOutPath env (ro_bundlePath r) (ro_keyId r) \<mapsto> ri_privatePem inp,
       resolveNewPublicKeyOutPath env (ro_bundlePath r) (ro_keyId r) \<mapsto> ri_publicPem inp)"
  using assms by (auto simp: rotate_run_def Let_def split: sum.splits prod.splits option.splits)

text \<open>
  C11: After a rotation that ended well, the verifier run with the rotated bundle under the trust-root policy resolves the
  new key and every key that was in the bundle before, without an error; identifiers stay unique. The three output files
  and the trust root have different paths, and the signature scheme is correct.
\<close>

theorem rotated_keys_resolve:
  fixes m :: IncidentBundleManifest and s :: verify_state
  assumes run: "rotate_run h env inp = (Inr response, files)" and scheme: "rotation_scheme h v"
    and fresh: "ri_publicPem inp \<noteq> ''''" "ri_nowIso inp \<noteq> ''''"
    and paths: "distinct (map (\<lambda>k. the_text (jfield response k)) [''bundlePath'', ''newPrivateKeyPath'', ''newPublicKeyPath'', ''trustRootPath''])"
    and e: "se_files e = files" "resolveTrustRootPath e = resolveTrustRootPath env"
      "given (arg_or_env e ''--public-key-path'' ''MEMPHIS_INCIDENT_BUNDLE_VERIFY_PUBLIC_KEY_PATH'') = None"
      "given (arg_or_env e ''--public-key-bundle-path'' ''MEMPHIS_INCIDENT_BUNDLE_PUBLIC_KEY_BUNDLE_PATH'') = Some P"
      "JStr (path_resolve (se_cwd e) P) = the (jfield response ''bundlePath'')"
  shows "\<exists>old keyId. loadExistingKeys (xk_blob h) env (resolveBaseBundlePath env (resolveBundleOutPath env)) = Inr old \<and>
    jfield response ''keyId'' = Some (JStr keyId) \<and> distinct (map pk_keyId old @ [keyId]) \<and>
    (\<forall>key \<in> set (old @ [\<lparr>pk_keyId = keyId, pk_publicKeyPem = ri_publicPem inp\<rparr>]).
       expected_key_id m expected = Some (pk_keyId key) \<longrightarrow>
       (\<exists>s'. resolvePublicKeyPem v e m expected True s = (Some (pk_publicKeyPem key), s') \<and> vs_errors s' = vs_errors s))"
proof -
  obtain r where r: "plan_rotation h env inp = Inr r" "response = rotation_response h env inp r"
    and files: "files = (se_files env)(ro_bundlePath r \<mapsto> JSON_stringify2 (rotated_bundle h (snd (ro_signer r)) (ro_signerPublicKeyPem r) (ri_nowIso inp) (next_keys inp r)) @ [CHR 0x0A],
       resolveNewPrivateKeyOutPath env (ro_bundlePath r) (ro_keyId r) \<mapsto> ri_privatePem inp,
       resolveNewPublicKeyOutPath env (ro_bundlePath r) (ro_keyId r) \<mapsto> ri_publicPem inp)"
    by (rule rotate_run_ok [OF run])
  note plan = plan_rotation_facts [OF r(1)]
  let ?ks = "next_keys inp r" and ?pem = "ro_signerPublicKeyPem r" and ?key = "snd (ro_signer r)"
  have P: "path_resolve (se_cwd e) P = ro_bundlePath r" using e(5) by (simp add: r(2) rotation_response_def)
  from plan(3) obtain raw ids where root: "se_files env (resolveTrustRootPath env) = Some raw"
      "parseActiveTrustRoot (xk_blob h) raw = Inr (ro_trustVersion r, ids)" "bh_sha256 (xk_blob h) ?pem \<in> set ids" by blast
  have written: "se_files e (ro_bundlePath r) = Some (JSON_stringify2 (rotated_bundle h ?key ?pem (ri_nowIso inp) ?ks) @ [CHR 0x0A])"
    and kept: "se_files e (resolveTrustRootPath e) = Some raw"
    using paths root(1) by (auto simp: e(1,2) files r(2) rotation_response_def the_text_def)
  note old = loaded_keys_proper [OF plan(6)] and new = new_key_id [OF plan(7)]
  have proper: "pk_keyId k \<noteq> '''' \<and> pk_publicKeyPem k \<noteq> ''''" if "k \<in> set ?ks" for k
    using that old(2) new fresh(1) by (auto simp: next_keys_def)
  have unique: "distinct (map pk_keyId ?ks)" using old(1) new by (simp add: next_keys_def)
  have "vk_blob v = xk_blob h" using scheme by (simp add: rotation_scheme_def)
  note trust = active_root_accepted [OF root(2) this]
  note parses = rotated_bundle_parses [OF scheme plan(5) fresh(2), of ?ks, OF proper]
  note passes = written_provenance_passes [OF scheme plan(5) kept trust root(3), of "ri_nowIso inp" ?ks s]
  have "\<exists>s'. resolvePublicKeyPem v e m expected True s = (Some (pk_publicKeyPem key), s') \<and> vs_errors s' = vs_errors s"
    if "key \<in> set ?ks" "expected_key_id m expected = Some (pk_keyId key)" for key
    using passes find_distinct_key [OF unique that(1)]
    by (simp add: resolvePublicKeyPem_def e(3,4) that(2) P written key_from_bundle_def parses Let_def)
       (simp add: written_provenance_def Let_def)
  moreover have "jfield response ''keyId'' = Some (JStr (ro_keyId r))" by (simp add: r(2) rotation_response_def)
  ultimately show ?thesis
    using plan(6) unique unfolding plan(1,2) next_keys_def by (intro exI [of _ "ro_existing r"] exI [of _ "ro_keyId r"]) simp
qed

section \<open>A first rotation\<close>

definition first_env :: script_env where
  "first_env =
     \<lparr>se_argv = [''--trust-root-signing-key-pem'', ''R'', ''--new-key-id'', ''k1''], se_vars = (\<lambda>_. None), se_cwd = ''/d'',
      se_files = [''/d/config/trust_root.json'' \<mapsto> JSON_stringify (JObj [(''version'', JNum 1), (''rootIds'', JArr [JStr ''s2''])])],
      se_read_error = (\<lambda>_. ''ENOENT'')\<rparr>"

definition first_inputs :: rotation_inputs where
  "first_inputs =
     \<lparr>ri_nowIso = ''t'', ri_fileStamp = ''t'', ri_publicPem = ''N'', ri_privatePem = ''n'', ri_mkdir = (\<lambda>_. None), ri_write = (\<lambda>_. None)\<rparr>"

definition rotated_env :: script_env where
  "rotated_env = first_env\<lparr>se_argv := [''--public-key-bundle-path'', ''data/public-key-bundle.json''],
     se_files := snd (rotate_run demo_export_host first_env first_inputs)\<rparr>"

definition first_manifest :: IncidentBundleManifest where
  "first_manifest = \<lparr>im_generatedAt = ''t'', im_bundle = \<lparr>bd_path = ''b'', bd_sha256 = ''s'', bd_bytes = 0\<rparr>, im_cognitiveReports = None,
     im_encryptedArtifacts = None, im_signature = None\<rparr>"

lemma first_run:
  "case fst (rotate_run demo_export_host first_env first_inputs) of
     Inl _ \<Rightarrow> False
   | Inr response \<Rightarrow>
       distinct (map (\<lambda>k. the_text (jfield response k)) [''bundlePath'', ''newPrivateKeyPath'', ''newPublicKeyPath'', ''trustRootPath'']) \<and>
       jfield response ''bundlePath'' = Some (JStr (path_resolve ''/d'' ''data/public-key-bundle.json'')) \<and>
       jfield response ''keyId'' = Some (JStr ''k1'')"
  by code_simp

theorem rotated_keys_resolve_witness:
  "\<exists>s'. resolvePublicKeyPem demo_verify_host rotated_env first_manifest (Some ''k1'') True initial_state = (Some ''N'', s') \<and>
     vs_errors s' = []"
proof -
  obtain response files where run: "rotate_run demo_export_host first_env first_inputs = (Inr response, files)"
      "distinct (map (\<lambda>k. the_text (jfield response k)) [''bundlePath'', ''newPrivateKeyPath'', ''newPublicKeyPath'', ''trustRootPath''])"
      "jfield response ''bundlePath'' = Some (JStr (path_resolve ''/d'' ''data/public-key-bundle.json''))"
      "jfield response ''keyId'' = Some (JStr ''k1'')"
    using first_run by (cases "rotate_run demo_export_host first_env first_inputs") (auto split: sum.splits)
  have scheme: "rotation_scheme demo_export_host demo_verify_host"
    by (auto simp: rotation_scheme_def demo_export_host_def demo_verify_host_def demo_blob_host_def show_nat_not_Nil)
  have e: "se_files rotated_env = files" "resolveTrustRootPath rotated_env = resolveTrustRootPath first_env"
      "given (arg_or_env rotated_env ''--public-key-path'' ''MEMPHIS_INCIDENT_BUNDLE_VERIFY_PUBLIC_KEY_PATH'') = None"
      "given (arg_or_env rotated_env ''--public-key-bundle-path'' ''MEMPHIS_INCIDENT_BUNDLE_PUBLIC_KEY_BUNDLE_PATH'') = Some ''data/public-key-bundle.json''"
      "JStr (path_resolve (se_cwd rotated_env) ''data/public-key-bundle.json'') = the (jfield response ''bundlePath'')"
    by (simp add: rotated_env_def run(1), simp_all add: rotated_env_def first_env_def run(3) resolveTrustRootPath_def args_simps)
  have "ri_publicPem first_inputs \<noteq> ''''" "ri_nowIso first_inputs \<noteq> ''''" "ri_publicPem first_inputs = ''N''"
    by (simp_all add: first_inputs_def)
  moreover have "expected_key_id first_manifest (Some ''k1'') = Some ''k1''"
    by (simp add: expected_key_id_def first_manifest_def orElse_def given_def)
  moreover have "vs_errors initial_state = []" by (simp add: initial_state_def)
  ultimately show ?thesis
    using rotated_keys_resolve [OF run(1) scheme _ _ run(2) e, of first_manifest "Some ''k1''" initial_state] run(4) by auto
qed

end
