(* ===== verification/SecurityEvents.thy ===== *)
theory SecurityEvents
  imports ChainAdapter Paths AdminSignature
begin

text \<open>
  Where security events go: the emergency log with its rotation and fallback paths (\<open>infra/runtime/emergency-log.ts\<close>),
  the alert transports (\<open>infra/logging/alert-transport.ts\<close>), the emitter that suppresses repeated alerts
  (\<open>infra/logging/alert-emitter.ts\<close>, \<open>alert-runtime.ts\<close>), the writer of critical events
  (\<open>infra/runtime/security-critical.ts\<close>) and the audit line (\<open>infra/logging/security-audit.ts\<close>).

  The file system is \<open>log_fs\<close>: contents, for every path which system call on it fails, and with which message. \<open>lf_full\<close> lets a file be
  created but not grow. HTTP, syslog and the clock are inputs.
\<close>

section \<open>The emergency log\<close>

record log_fs =
  lf_files :: "string \<Rightarrow> string option"
  lf_mkdir_denied :: "string \<Rightarrow> bool"
  lf_stat_denied :: "string \<Rightarrow> bool"
  lf_rename_denied :: "string \<Rightarrow> bool"
  lf_denied :: "string \<Rightarrow> bool"
  lf_full :: "string \<Rightarrow> bool"
  lf_chmod_denied :: "string \<Rightarrow> bool"
  lf_error :: "string \<Rightarrow> string"
  lf_stderr :: "string list"

definition EMERGENCY_MAX_BYTES :: nat where "EMERGENCY_MAX_BYTES = 10 * 1024 * 1024"
definition EMERGENCY_ROTATE_KEEP :: nat where "EMERGENCY_ROTATE_KEEP = 3"

record ResolveOptions =
  eo_homeDir :: "string option"
  eo_cwdPath :: "string option"
  eo_includeCwdFallback :: "bool option"
  eo_explicitPaths :: "string list option"

definition no_options :: ResolveOptions where
  "no_options = \<lparr>eo_homeDir = None, eo_cwdPath = None, eo_includeCwdFallback = None, eo_explicitPaths = None\<rparr>"

definition resolveEmergencyLogCandidates :: "string \<Rightarrow> environment \<Rightarrow> ResolveOptions \<Rightarrow> string list" where
  "resolveEmergencyLogCandidates cwd env options =
     (if or_else (eo_explicitPaths options) [] \<noteq> [] then map (path_resolve cwd) (or_else (eo_explicitPaths options) [])
      else
        (let home = or_else (orElse (eo_homeDir options) (env ''HOME'')) '''';
             at = path_resolve cwd (or_else (eo_cwdPath options) cwd)
         in [''/var/lib/memphis/emergency.log'', ''/opt/memphis/data/emergency.log''] @
            (if trim home \<noteq> '''' then [path_resolve (path_resolve cwd home) ''.memphis/emergency.log''] else []) @
            (if or_else (eo_includeCwdFallback options) True then [path_resolve at ''emergency.log''] else [])))"

text \<open>A call that throws returns \<^const>\<open>False\<close>.\<close>

definition rename_file :: "string \<Rightarrow> string \<Rightarrow> log_fs \<Rightarrow> bool \<times> log_fs" where
  "rename_file src dst fs =
     (if lf_rename_denied fs src then (False, fs)
      else (True, fs\<lparr>lf_files := (lf_files fs)(dst := lf_files fs src, src := None)\<rparr>))"

definition append_file :: "string \<Rightarrow> string \<Rightarrow> log_fs \<Rightarrow> bool \<times> log_fs" where
  "append_file path data fs =
     (if lf_denied fs path \<or> (lf_full fs path \<and> data \<noteq> '''') then (False, fs)
      else (True, fs\<lparr>lf_files := (lf_files fs)(path \<mapsto> or_else (lf_files fs path) '''' @ data)\<rparr>))"

definition numbered_log :: "string \<Rightarrow> nat \<Rightarrow> string" where
  "numbered_log path i = path @ ''.'' @ show_nat i"

fun rotate_older :: "nat \<Rightarrow> string \<Rightarrow> log_fs \<Rightarrow> bool \<times> log_fs" where
  "rotate_older 0 path fs = (True, fs)"
| "rotate_older (Suc i) path fs =
     (if lf_files fs (numbered_log path (Suc i)) = None then rotate_older i path fs
      else (case rename_file (numbered_log path (Suc i)) (numbered_log path (Suc (Suc i))) fs of
              (False, fs) \<Rightarrow> (False, fs)
            | (True, fs) \<Rightarrow> rotate_older i path fs))"

definition rotateFile :: "string \<Rightarrow> log_fs \<Rightarrow> bool \<times> log_fs" where
  "rotateFile path fs =
     (case lf_files fs path of
        None \<Rightarrow> (True, fs)
      | Some content \<Rightarrow>
          if lf_stat_denied fs path \<or> length content \<le> EMERGENCY_MAX_BYTES then (True, fs)
          else (case rotate_older (EMERGENCY_ROTATE_KEEP - 1) path fs of
                  (False, fs) \<Rightarrow> (False, fs)
                | (True, fs) \<Rightarrow> rename_file path (numbered_log path 1) fs))"

definition canWriteEmergencyLog :: "string \<Rightarrow> log_fs \<Rightarrow> bool \<times> log_fs" where
  "canWriteEmergencyLog candidate fs =
     (if lf_mkdir_denied fs (path_dirname candidate) then (False, fs)
      else (case rotateFile candidate fs of
              (False, fs) \<Rightarrow> (False, fs)
            | (True, fs) \<Rightarrow>
                (case (if lf_files fs candidate = None then append_file candidate '''' fs else (True, fs)) of
                   (False, fs) \<Rightarrow> (False, fs)
                 | (True, fs) \<Rightarrow> (\<not> lf_chmod_denied fs candidate, fs))))"

fun first_writable :: "nat \<Rightarrow> string list \<Rightarrow> log_fs \<Rightarrow> (string \<times> bool) option \<times> log_fs" where
  "first_writable i [] fs = (None, fs)"
| "first_writable i (c # cs) fs =
     (case canWriteEmergencyLog c fs of
        (True, fs) \<Rightarrow> (Some (c, i > 0), fs)
      | (False, fs) \<Rightarrow> first_writable (Suc i) cs fs)"

definition resolveEmergencyLogPath :: "string \<Rightarrow> environment \<Rightarrow> ResolveOptions \<Rightarrow> log_fs \<Rightarrow> (string \<times> bool) option \<times> log_fs" where
  "resolveEmergencyLogPath cwd env options fs = first_writable 0 (resolveEmergencyLogCandidates cwd env options) fs"

definition emergency_line :: "string \<Rightarrow> string \<Rightarrow> string" where
  "emergency_line nowIso message = ''['' @ nowIso @ ''] '' @ message @ [CHR 0x0A]"

text \<open>\<^const>\<open>Inl\<close> when the append after the probe throws.\<close>

definition writeEmergencyLog :: "string \<Rightarrow> environment \<Rightarrow> ResolveOptions \<Rightarrow> string \<Rightarrow> string \<Rightarrow> log_fs \<Rightarrow>
    (string, (string \<times> bool) option) result \<times> log_fs" where
  "writeEmergencyLog cwd env options nowIso message fs =
     (case resolveEmergencyLogPath cwd env options fs of
        (None, fs) \<Rightarrow> (Inr None, fs)
      | (Some (path, fallback), fs) \<Rightarrow>
          (case append_file path (emergency_line nowIso message) fs of
             (False, fs) \<Rightarrow> (Inl (lf_error fs path), fs)
           | (True, fs) \<Rightarrow>
               (Inr (Some (path, fallback)),
                if fallback then fs\<lparr>lf_stderr := lf_stderr fs @
                  [''[memphis] FallbackPathUsed primary='' @ hd (resolveEmergencyLogCandidates cwd env options) @
                   '' used='' @ path @ [CHR 0x0A]]\<rparr>
                else fs)))"

definition emergencyFallbackTag :: "string \<Rightarrow> string" where
  "emergencyFallbackTag message = ''[ALERT_FALLBACK] '' @ message"

section \<open>Alert transports\<close>

datatype AlertSeverity = Critical | High | Medium | Low

record Alert =
  at_id :: "string option"
  at_severity :: AlertSeverity
  at_message :: string
  at_details :: "(string \<times> json) list option"

definition severity_text :: "AlertSeverity \<Rightarrow> string" where
  "severity_text s = (case s of Critical \<Rightarrow> ''critical'' | High \<Rightarrow> ''high'' | Medium \<Rightarrow> ''medium'' | Low \<Rightarrow> ''low'')"

definition severityToPagerDuty :: "AlertSeverity \<Rightarrow> string" where
  "severityToPagerDuty s = (case s of Critical \<Rightarrow> ''critical'' | High \<Rightarrow> ''error'' | Medium \<Rightarrow> ''warning'' | Low \<Rightarrow> ''info'')"

definition severityToOpsGenie :: "AlertSeverity \<Rightarrow> string" where
  "severityToOpsGenie s = (case s of Critical \<Rightarrow> ''P1'' | High \<Rightarrow> ''P2'' | Medium \<Rightarrow> ''P3'' | Low \<Rightarrow> ''P4'')"

text \<open>\<open>rawEnv.X?.trim() || fallback\<close>\<close>

definition trimmed_or :: "environment \<Rightarrow> string \<Rightarrow> string \<Rightarrow> string" where
  "trimmed_or env name fallback =
     (case env name of None \<Rightarrow> fallback | Some s \<Rightarrow> if trim s = '''' then fallback else trim s)"

definition alert_source :: "environment \<Rightarrow> string" where
  "alert_source env = trimmed_or env ''MEMPHIS_ALERT_SOURCE'' ''memphisos''"

definition parseTimeoutMs :: "environment \<Rightarrow> int" where
  "parseTimeoutMs env =
     (case parse_int (trimmed_or env ''MEMPHIS_ALERT_HTTP_TIMEOUT_MS'' '''') of
        None \<Rightarrow> 3000
      | Some n \<Rightarrow> if n < 100 \<or> n > 60000 then 3000 else n)"

text \<open>A POST: address, headers, body and time limit; the answer is the error of \<open>fetch\<close> or whether it is ok, and the status.\<close>

record http_post =
  hp_endpoint :: string
  hp_headers :: "(string \<times> string) list"
  hp_body :: string
  hp_timeoutMs :: int

type_synonym post = "http_post \<Rightarrow> (string, bool \<times> int) result"

definition optional_member :: "string \<Rightarrow> string option \<Rightarrow> (string \<times> json) list" where
  "optional_member k v = (case v of None \<Rightarrow> [] | Some s \<Rightarrow> [(k, JStr s)])"

definition check_answer :: "string \<Rightarrow> (string, bool \<times> int) result \<Rightarrow> (string, unit) result" where
  "check_answer name answer =
     rbind answer (\<lambda>(ok, status). if ok then Inr () else Inl (name @ '' transport failed status='' @ show_int status))"

definition pagerDutySender :: "environment \<Rightarrow> post \<Rightarrow> string \<Rightarrow> string \<Rightarrow> Alert \<Rightarrow> (string, unit) result" where
  "pagerDutySender env post routingKey endpoint a =
     check_answer ''pagerduty'' (post
       \<lparr>hp_endpoint = endpoint, hp_headers = [(''content-type'', ''application/json'')],
        hp_body = JSON_stringify (JObj ([(''routing_key'', JStr routingKey), (''event_action'', JStr ''trigger'')] @
          optional_member ''dedup_key'' (at_id a) @
          [(''payload'', JObj [(''summary'', JStr (at_message a)), (''source'', JStr (alert_source env)),
             (''severity'', JStr (severityToPagerDuty (at_severity a))),
             (''custom_details'', JObj (or_else (at_details a) []))])])),
        hp_timeoutMs = parseTimeoutMs env\<rparr>)"

definition opsGenieSender :: "environment \<Rightarrow> post \<Rightarrow> string \<Rightarrow> string \<Rightarrow> Alert \<Rightarrow> (string, unit) result" where
  "opsGenieSender env post apiKey endpoint a =
     check_answer ''opsgenie'' (post
       \<lparr>hp_endpoint = endpoint, hp_headers = [(''authorization'', ''GenieKey '' @ apiKey), (''content-type'', ''application/json'')],
        hp_body = JSON_stringify (JObj ([(''message'', JStr (at_message a)), (''source'', JStr (alert_source env))] @
          optional_member ''alias'' (at_id a) @
          [(''priority'', JStr (severityToOpsGenie (at_severity a))), (''details'', JObj (or_else (at_details a) []))])),
        hp_timeoutMs = parseTimeoutMs env\<rparr>)"

definition alert_senders :: "environment \<Rightarrow> post \<Rightarrow> (Alert \<Rightarrow> (string, unit) result) list" where
  "alert_senders env post =
     (let pagerDutyKey = trimmed_or env ''MEMPHIS_ALERT_PAGERDUTY_ROUTING_KEY'' '''';
          opsGenieKey = trimmed_or env ''MEMPHIS_ALERT_OPSGENIE_API_KEY'' ''''
      in (if pagerDutyKey = '''' then [] else
            [pagerDutySender env post pagerDutyKey
               (trimmed_or env ''MEMPHIS_ALERT_PAGERDUTY_ENDPOINT'' ''https://events.pagerduty.com/v2/enqueue'')]) @
         (if opsGenieKey = '''' then [] else
            [opsGenieSender env post opsGenieKey
               (trimmed_or env ''MEMPHIS_ALERT_OPSGENIE_ENDPOINT'' ''https://api.opsgenie.com/v2/alerts'')]))"

fun try_senders :: "(Alert \<Rightarrow> (string, unit) result) list \<Rightarrow> Alert \<Rightarrow> string list \<Rightarrow> (string, unit) result" where
  "try_senders [] a errors = Inl (''all alert transports failed: '' @ join ''; '' errors)"
| "try_senders (s # ss) a errors =
     (case s a of Inr _ \<Rightarrow> Inr () | Inl e \<Rightarrow> try_senders ss a (errors @ [e]))"

definition createConfiguredAlertSender :: "environment \<Rightarrow> post \<Rightarrow> Alert \<Rightarrow> (string, unit) result" where
  "createConfiguredAlertSender env post a =
     (if alert_senders env post = [] then Inr () else try_senders (alert_senders env post) a [])"

section \<open>The emitter\<close>

record DedupState =
  ds_firstSeenAt :: int
  ds_lastSentAt :: int
  ds_suppressedCount :: nat

record AlertDelivery =
  ad_ok :: bool
  ad_deduped :: bool
  ad_suppressedCount :: "nat option"

text \<open>\<open>am_sent\<close> lists the calls of \<open>sendFn\<close>, with their keys.\<close>

record AlertEmitter =
  am_dedupeWindowMs :: int
  am_state :: "(string, DedupState) jsmap"
  am_sent :: "(int \<times> string \<times> Alert) list"
  am_log :: log_fs

record alert_env =
  al_sha256 :: "string \<Rightarrow> string"
  al_env :: environment
  al_post :: "int \<Rightarrow> post"
  al_cwd :: string
  al_iso :: "int \<Rightarrow> string"

definition alertKey :: "(string \<Rightarrow> string) \<Rightarrow> Alert \<Rightarrow> string" where
  "alertKey sha a =
     (case at_id a of
        Some i \<Rightarrow> if trim i \<noteq> '''' then trim i
          else sha (severity_text (at_severity a) @ ''|'' @ at_message a @ ''|'' @ JSON_stringify (JObj (or_else (at_details a) [])))
      | None \<Rightarrow> sha (severity_text (at_severity a) @ ''|'' @ at_message a @ ''|'' @ JSON_stringify (JObj (or_else (at_details a) []))))"

text \<open>The default \<open>fallbackLogFn\<close>: it tags its message again.\<close>

definition fallbackLogFn :: "alert_env \<Rightarrow> int \<Rightarrow> string \<Rightarrow> AlertEmitter \<Rightarrow> (string, unit) result \<times> AlertEmitter" where
  "fallbackLogFn e nowMs message m =
     (case writeEmergencyLog (al_cwd e) (al_env e) no_options (al_iso e nowMs) (emergencyFallbackTag message) (am_log m) of
        (r, fs) \<Rightarrow> (rbind r (\<lambda>_. Inr ()), m\<lparr>am_log := fs\<rparr>))"

definition emit_alert :: "alert_env \<Rightarrow> Alert \<Rightarrow> int \<Rightarrow> AlertEmitter \<Rightarrow> (string, AlertDelivery) result \<times> AlertEmitter" where
  "emit_alert e a nowMs m =
     (let key = alertKey (al_sha256 e) a; current = map_of (am_state m) key
      in if current \<noteq> None \<and> nowMs - ds_lastSentAt (the current) < am_dedupeWindowMs m then
           (let current' = the current\<lparr>ds_suppressedCount := ds_suppressedCount (the current) + 1\<rparr>
            in (Inr \<lparr>ad_ok = True, ad_deduped = True, ad_suppressedCount = Some (ds_suppressedCount current')\<rparr>,
                m\<lparr>am_state := AList.update key current' (am_state m)\<rparr>))
         else
           (let next = (case current of
                  None \<Rightarrow> \<lparr>ds_firstSeenAt = nowMs, ds_lastSentAt = nowMs, ds_suppressedCount = 0\<rparr>
                | Some c \<Rightarrow> c\<lparr>ds_lastSentAt := nowMs\<rparr>);
                m = m\<lparr>am_state := AList.update key next (am_state m), am_sent := am_sent m @ [(nowMs, key, a)]\<rparr>
            in case createConfiguredAlertSender (al_env e) (al_post e nowMs) a of
                 Inr _ \<Rightarrow> (Inr \<lparr>ad_ok = True, ad_deduped = False, ad_suppressedCount = None\<rparr>, m)
               | Inl error \<Rightarrow>
                   (case fallbackLogFn e nowMs (emergencyFallbackTag
                        (''alert delivery failed id='' @ key @ '' message='' @ at_message a @ '' error='' @ error)) m of
                      (Inl x, m) \<Rightarrow> (Inl x, m)
                    | (Inr _, m) \<Rightarrow> (Inr \<lparr>ad_ok = False, ad_deduped = False, ad_suppressedCount = None\<rparr>, m))))"

definition suppressed_summary :: "string \<Rightarrow> nat \<Rightarrow> Alert" where
  "suppressed_summary key n =
     \<lparr>at_id = Some (''AlertSuppressed:'' @ key), at_severity = High, at_message = ''AlertSuppressed'',
      at_details = Some [(''alertId'', JStr key), (''count'', JNum (int n))]\<rparr>"

fun flush_keys :: "alert_env \<Rightarrow> int \<Rightarrow> string list \<Rightarrow> AlertEmitter \<Rightarrow> (string, unit) result \<times> AlertEmitter" where
  "flush_keys e nowMs [] m = (Inr (), m)"
| "flush_keys e nowMs (key # rest) m =
     (case map_of (am_state m) key of
        None \<Rightarrow> flush_keys e nowMs rest m
      | Some d \<Rightarrow>
          if ds_suppressedCount d = 0 \<or> nowMs - ds_lastSentAt d < am_dedupeWindowMs m then flush_keys e nowMs rest m
          else (case emit_alert e (suppressed_summary key (ds_suppressedCount d)) nowMs
                     (m\<lparr>am_state := AList.update key (d\<lparr>ds_suppressedCount := 0, ds_lastSentAt := nowMs\<rparr>) (am_state m)\<rparr>) of
                  (Inl x, m) \<Rightarrow> (Inl x, m)
                | (Inr _, m) \<Rightarrow> flush_keys e nowMs rest m))"

text \<open>
  The summaries are sent one after the other. The source awaits each of them, and other calls of the emitter may run at
  that moment; here the flush is one step, so no alert is emitted while it waits.
\<close>

definition flushSuppressed :: "alert_env \<Rightarrow> int \<Rightarrow> AlertEmitter \<Rightarrow> (string, unit) result \<times> AlertEmitter" where
  "flushSuppressed e nowMs m = flush_keys e nowMs (keys (am_state m)) m"

definition parsePositiveInt :: "string option \<Rightarrow> int \<Rightarrow> int" where
  "parsePositiveInt raw fallback =
     (case Option.bind raw (\<lambda>s. parse_int (trim s)) of None \<Rightarrow> fallback | Some n \<Rightarrow> if n \<le> 0 then fallback else n)"

text \<open>\<open>getRuntimeAlertEmitter\<close>, on its first call.\<close>

definition newRuntimeEmitter :: "environment \<Rightarrow> log_fs \<Rightarrow> AlertEmitter" where
  "newRuntimeEmitter env fs =
     \<lparr>am_dedupeWindowMs = parsePositiveInt (env ''MEMPHIS_ALERT_DEDUPE_WINDOW_MS'') (5 * 60 * 1000), am_state = [], am_sent = [],
      am_log = fs\<rparr>"

section \<open>Critical events\<close>

record SecurityCriticalEvent =
  se_event :: string
  se_reason :: string
  se_severity :: "AlertSeverity option"
  se_details :: "(string \<times> json) list option"

record SecurityCriticalWriteResult =
  sw_wroteChain :: bool
  sw_wroteSyslog :: bool
  sw_wroteEmergency :: bool

record critical_env =
  cr_chain :: chain_host
  cr_path :: path_host
  cr_append :: append_env
  cr_backend :: ChainBackend
  cr_rust :: "string \<Rightarrow> json \<Rightarrow> (string, AppendBlockResult) result"
  cr_syslog :: bool
  cr_nowMs :: int
  cr_env :: environment
  cr_alerts :: alert_env

record critical_state =
  cs_chains :: chain_fs
  cs_syslog :: "string list"
  cs_emitter :: AlertEmitter

definition critical_block :: "SecurityCriticalEvent \<Rightarrow> json" where
  "critical_block ev =
     JObj [(''type'', JStr ''system''), (''content'', JStr (se_event ev @ '': '' @ se_reason ev)),
       (''tags'', JArr [JStr ''security'', JStr ''critical'', JStr (severity_text (or_else (se_severity ev) Critical))]),
       (''event'', JStr (se_event ev)), (''reason'', JStr (se_reason ev)), (''details'', JObj (or_else (se_details ev) []))]"

definition syslog_message :: "SecurityCriticalEvent \<Rightarrow> string" where
  "syslog_message ev = ''[memphis-security] '' @ se_event ev @ '': '' @ se_reason ev"

definition emergency_message :: "SecurityCriticalEvent \<Rightarrow> string" where
  "emergency_message ev =
     emergencyFallbackTag (se_event ev @ '': '' @ se_reason ev @ '' details='' @ JSON_stringify (JObj (or_else (se_details ev) [])))"

definition critical_alert :: "SecurityCriticalEvent \<Rightarrow> Alert" where
  "critical_alert ev =
     \<lparr>at_id = Some (se_event ev), at_severity = or_else (se_severity ev) Critical, at_message = se_reason ev,
      at_details = Some (fold (\<lambda>(k, v). AList.update k v) (or_else (se_details ev) []) [(''event'', JStr (se_event ev))])\<rparr>"

text \<open>The three sinks, each tried when the ones before it failed.\<close>

definition record_critical :: "critical_env \<Rightarrow> SecurityCriticalEvent \<Rightarrow> critical_state \<Rightarrow>
    (string, SecurityCriticalWriteResult) result \<times> critical_state" where
  "record_critical c ev s =
     (case appendBlock (cr_chain c) (cr_path c) (cr_append c) (cr_backend c) (cr_rust c) ''system'' (critical_block ev) (cs_chains s) of
        (appended, fs) \<Rightarrow>
          (let s = s\<lparr>cs_chains := fs\<rparr>; wroteChain = is_ok appended; wroteSyslog = (\<not> wroteChain \<and> cr_syslog c);
               s = (if wroteSyslog then s\<lparr>cs_syslog := cs_syslog s @ [syslog_message ev]\<rparr> else s)
           in if wroteChain \<or> wroteSyslog then
                (Inr \<lparr>sw_wroteChain = wroteChain, sw_wroteSyslog = wroteSyslog, sw_wroteEmergency = False\<rparr>, s)
              else
                (case writeEmergencyLog (al_cwd (cr_alerts c)) (cr_env c) no_options (al_iso (cr_alerts c) (cr_nowMs c))
                     (emergency_message ev) (am_log (cs_emitter s)) of
                   (r, fs) \<Rightarrow>
                     (rbind r (\<lambda>w. Inr \<lparr>sw_wroteChain = False, sw_wroteSyslog = False, sw_wroteEmergency = (w \<noteq> None)\<rparr>),
                      s\<lparr>cs_emitter := (cs_emitter s)\<lparr>am_log := fs\<rparr>\<rparr>))))"

definition writeSecurityCriticalEvent :: "critical_env \<Rightarrow> SecurityCriticalEvent \<Rightarrow> critical_state \<Rightarrow>
    (string, SecurityCriticalWriteResult) result \<times> critical_state" where
  "writeSecurityCriticalEvent c ev s =
     (case record_critical c ev s of
        (Inl e, s) \<Rightarrow> (Inl e, s)
      | (Inr w, s) \<Rightarrow>
          (case emit_alert (cr_alerts c) (critical_alert ev) (cr_nowMs c) (cs_emitter s) of
             (r, m) \<Rightarrow> (rbind r (\<lambda>_. Inr w), s\<lparr>cs_emitter := m\<rparr>)))"

section \<open>The audit line\<close>

definition auditLogPath :: "string \<Rightarrow> environment \<Rightarrow> string" where
  "auditLogPath cwd env = path_resolve cwd (or_else (env ''MEMPHIS_SECURITY_AUDIT_LOG_PATH'') ''data/security-audit.jsonl'')"

text \<open>The members of the event come after \<open>ts\<close>; a failure goes to standard error.\<close>

definition writeSecurityAudit :: "string \<Rightarrow> environment \<Rightarrow> string \<Rightarrow> (string \<times> json) list \<Rightarrow> log_fs \<Rightarrow> log_fs" where
  "writeSecurityAudit cwd env nowIso event fs =
     (let path = auditLogPath cwd env; line = JSON_stringify (JObj (fold (\<lambda>(k, v). AList.update k v) event [(''ts'', JStr nowIso)]))
      in case (if lf_mkdir_denied fs (path_dirname path) then (False, fs) else append_file path (line @ [CHR 0x0A]) fs) of
           (True, fs) \<Rightarrow> fs
         | (False, fs) \<Rightarrow> fs\<lparr>lf_stderr := lf_stderr fs @
             [''[security-audit] failed to write event '' @ the (jstring (map_of event ''action'')) @ '': '' @ lf_error fs path @ [CHR 0x0A]]\<rparr>)"

end
