(* ===== verification/SecurityEventsLaws.thy ===== *)
theory SecurityEventsLaws
  imports SecurityEvents
begin

text \<open>
  A critical event is recorded in the first sink that works, and the same alert is sent at most once in a window,
  whatever the interleaving of alerts and summaries and whatever the clock does.
\<close>

section \<open>Repeated alerts\<close>

definition spaced :: "int \<Rightarrow> (int \<times> string \<times> Alert) list \<Rightarrow> bool" where
  "spaced W sent \<longleftrightarrow> sorted_wrt (\<lambda>(t, k, _) (t', k', _). k = k' \<longrightarrow> t' - t \<ge> W) sent"

text \<open>The time kept for a key is not before any call for it.\<close>

definition emitter_ok :: "AlertEmitter \<Rightarrow> bool" where
  "emitter_ok m \<longleftrightarrow> am_dedupeWindowMs m \<ge> 0 \<and> spaced (am_dedupeWindowMs m) (am_sent m) \<and>
     (\<forall>(t, k, a) \<in> set (am_sent m). \<exists>d. map_of (am_state m) k = Some d \<and> t \<le> ds_lastSentAt d)"

lemma emitter_ok_log [simp]: "emitter_ok (m\<lparr>am_log := fs\<rparr>) = emitter_ok m"
  by (simp add: emitter_ok_def)

lemma emitter_ok_update:
  assumes "emitter_ok m" and "\<And>c. map_of (am_state m) k = Some c \<Longrightarrow> ds_lastSentAt c \<le> ds_lastSentAt d"
  shows "emitter_ok (m\<lparr>am_state := AList.update k d (am_state m)\<rparr>)"
  using assms by (fastforce simp: emitter_ok_def map_of_update)

lemma emitter_ok_sent:
  assumes "emitter_ok m" and "map_of (am_state m) k = Some d" and "ds_lastSentAt d = nowMs"
    and "\<And>t a. (t, k, a) \<in> set (am_sent m) \<Longrightarrow> nowMs - t \<ge> am_dedupeWindowMs m"
  shows "emitter_ok (m\<lparr>am_sent := am_sent m @ [(nowMs, k, a)]\<rparr>)"
  using assms by (auto simp: emitter_ok_def spaced_def sorted_wrt_append)

lemma fallback_keeps: "emitter_ok (snd (fallbackLogFn e now msg m)) = emitter_ok m"
  by (simp add: fallbackLogFn_def split: prod.split)

lemma fallback_window: "am_dedupeWindowMs (snd (fallbackLogFn e now msg m)) = am_dedupeWindowMs m"
  by (simp add: fallbackLogFn_def split: prod.split)

text \<open>The two ways of \<^const>\<open>emit_alert\<close>.\<close>

abbreviation recent_alert :: "alert_env \<Rightarrow> Alert \<Rightarrow> int \<Rightarrow> AlertEmitter \<Rightarrow> DedupState \<Rightarrow> bool" where
  "recent_alert e a now m c \<equiv> map_of (am_state m) (alertKey (al_sha256 e) a) = Some c \<and> now - ds_lastSentAt c < am_dedupeWindowMs m"

lemma emit_suppressed:
  "recent_alert e a now m c \<Longrightarrow> emit_alert e a now m =
     (Inr \<lparr>ad_ok = True, ad_deduped = True, ad_suppressedCount = Some (ds_suppressedCount c + 1)\<rparr>,
      m\<lparr>am_state := AList.update (alertKey (al_sha256 e) a) (c\<lparr>ds_suppressedCount := ds_suppressedCount c + 1\<rparr>) (am_state m)\<rparr>)"
  by (simp add: emit_alert_def Let_def)

lemma emit_sent:
  fixes m :: AlertEmitter
  assumes "\<nexists>c. recent_alert e a now m c"
  obtains d m1 r m2 where "ds_lastSentAt d = now"
    "m1 = m\<lparr>am_state := AList.update (alertKey (al_sha256 e) a) d (am_state m), am_sent := am_sent m @ [(now, alertKey (al_sha256 e) a, a)]\<rparr>"
    "emit_alert e a now m = (r, m2)"
    "m2 = m1 \<and> is_ok r \<or> (\<exists>msg x. fallbackLogFn e now msg m1 = (x, m2) \<and> (is_ok x \<longrightarrow> is_ok r))"
proof -
  let ?key = "alertKey (al_sha256 e) a"
  define d where "d = (case map_of (am_state m) ?key of
      None \<Rightarrow> \<lparr>ds_firstSeenAt = now, ds_lastSentAt = now, ds_suppressedCount = 0\<rparr> | Some c \<Rightarrow> c\<lparr>ds_lastSentAt := now\<rparr>)"
  define m1 where "m1 = m\<lparr>am_state := AList.update ?key d (am_state m), am_sent := am_sent m @ [(now, ?key, a)]\<rparr>"
  define msg where "msg err = emergencyFallbackTag (''alert delivery failed id='' @ ?key @ '' message='' @ at_message a @ '' error='' @ err)" for err
  have em: "emit_alert e a now m = (case createConfiguredAlertSender (al_env e) (al_post e now) a of
       Inr _ \<Rightarrow> (Inr \<lparr>ad_ok = True, ad_deduped = False, ad_suppressedCount = None\<rparr>, m1)
     | Inl error \<Rightarrow>
         (case fallbackLogFn e now (msg error) m1 of
            (Inl x, m) \<Rightarrow> (Inl x, m)
          | (Inr _, m) \<Rightarrow> (Inr \<lparr>ad_ok = False, ad_deduped = False, ad_suppressedCount = None\<rparr>, m)))"
    using assms unfolding emit_alert_def Let_def m1_def d_def msg_def by (subst if_not_P) auto
  obtain r m2 where r: "emit_alert e a now m = (r, m2)" by (metis surj_pair)
  have "m2 = m1 \<and> is_ok r \<or> (\<exists>msg x. fallbackLogFn e now msg m1 = (x, m2) \<and> (is_ok x \<longrightarrow> is_ok r))"
    using em r by (fastforce split: sum.splits prod.splits)
  moreover have "ds_lastSentAt d = now" by (simp add: d_def split: option.split)
  ultimately show thesis using that r m1_def by blast
qed

lemma emit_keeps:
  assumes "emitter_ok m"
  shows "emitter_ok (snd (emit_alert e a now m))" and "am_dedupeWindowMs (snd (emit_alert e a now m)) = am_dedupeWindowMs m"
proof -
  let ?key = "alertKey (al_sha256 e) a"
  have "emitter_ok (snd (emit_alert e a now m)) \<and> am_dedupeWindowMs (snd (emit_alert e a now m)) = am_dedupeWindowMs m"
  proof (cases "\<exists>c. recent_alert e a now m c")
    case True
    then obtain c where c: "recent_alert e a now m c" by blast
    then have "emitter_ok (m\<lparr>am_state := AList.update ?key (c\<lparr>ds_suppressedCount := ds_suppressedCount c + 1\<rparr>) (am_state m)\<rparr>)"
      using assms by (intro emitter_ok_update) auto
    then show ?thesis by (simp add: emit_suppressed [OF c])
  next
    case False
    obtain d m1 r m2 where d: "ds_lastSentAt d = now"
      and m1: "m1 = m\<lparr>am_state := AList.update ?key d (am_state m), am_sent := am_sent m @ [(now, ?key, a)]\<rparr>"
      and em: "emit_alert e a now m = (r, m2)"
      and m2: "m2 = m1 \<and> is_ok r \<or> (\<exists>msg x. fallbackLogFn e now msg m1 = (x, m2) \<and> (is_ok x \<longrightarrow> is_ok r))"
      by (rule emit_sent [OF False])
    have last: "ds_lastSentAt c + am_dedupeWindowMs m \<le> now" if "map_of (am_state m) ?key = Some c" for c
      using False that by (auto simp: not_less)
    have W: "am_dedupeWindowMs m \<ge> 0" using assms by (simp add: emitter_ok_def)
    have "emitter_ok (m\<lparr>am_state := AList.update ?key d (am_state m)\<rparr>)"
      using assms d last W by (intro emitter_ok_update) force+
    then have "emitter_ok (m\<lparr>am_state := AList.update ?key d (am_state m)\<rparr>\<lparr>am_sent := am_sent m @ [(now, ?key, a)]\<rparr>)"
      using assms d last by (intro emitter_ok_sent [where m = "m\<lparr>am_state := AList.update ?key d (am_state m)\<rparr>", simplified])
        (fastforce simp: map_of_update emitter_ok_def)+
    then have "emitter_ok m1" "am_dedupeWindowMs m1 = am_dedupeWindowMs m" by (simp_all add: m1)
    then have "emitter_ok m2 \<and> am_dedupeWindowMs m2 = am_dedupeWindowMs m"
      using m2 fallback_keeps [of e now _ m1] fallback_window [of e now _ m1] by (metis snd_conv)
    then show ?thesis by (simp add: em)
  qed
  then show "emitter_ok (snd (emit_alert e a now m))" and "am_dedupeWindowMs (snd (emit_alert e a now m)) = am_dedupeWindowMs m" by simp_all
qed

lemma flush_keys_keeps:
  "emitter_ok m \<Longrightarrow> emitter_ok (snd (flush_keys e now ks m)) \<and> am_dedupeWindowMs (snd (flush_keys e now ks m)) = am_dedupeWindowMs m"
proof (induction ks arbitrary: m)
  case Nil
  then show ?case by simp
next
  case (Cons k ks)
  show ?case
  proof (cases "\<exists>d. map_of (am_state m) k = Some d \<and> ds_suppressedCount d > 0 \<and> now - ds_lastSentAt d \<ge> am_dedupeWindowMs m")
    case False
    then have "flush_keys e now (k # ks) m = flush_keys e now ks m" by (force split: option.split)
    with Cons show ?thesis by simp
  next
    case True
    then obtain d where d: "map_of (am_state m) k = Some d" "ds_suppressedCount d > 0" "now - ds_lastSentAt d \<ge> am_dedupeWindowMs m"
      by blast
    let ?m = "m\<lparr>am_state := AList.update k (d\<lparr>ds_suppressedCount := 0, ds_lastSentAt := now\<rparr>) (am_state m)\<rparr>"
    have "am_dedupeWindowMs m \<ge> 0" using Cons.prems by (simp add: emitter_ok_def)
    then have "emitter_ok ?m" using Cons.prems d by (intro emitter_ok_update) auto
    note kept = emit_keeps [OF this, of e "suppressed_summary k (ds_suppressedCount d)" now]
    obtain r m1 where em: "emit_alert e (suppressed_summary k (ds_suppressedCount d)) now ?m = (r, m1)" by (metis surj_pair)
    with kept have m1: "emitter_ok m1" "am_dedupeWindowMs m1 = am_dedupeWindowMs m" by simp_all
    have "flush_keys e now (k # ks) m = (case r of Inl x \<Rightarrow> (Inl x, m1) | Inr _ \<Rightarrow> flush_keys e now ks m1)"
      using d em by (simp split: sum.split)
    then show ?thesis using Cons.IH [OF m1(1)] m1 by (simp split: sum.split)
  qed
qed

inductive alert_run :: "alert_env \<Rightarrow> environment \<Rightarrow> log_fs \<Rightarrow> AlertEmitter \<Rightarrow> bool" for e env fs where
  start: "alert_run e env fs (newRuntimeEmitter env fs)"
| alert: "alert_run e env fs m \<Longrightarrow> alert_run e env fs (snd (emit_alert e a now m))"
| summary: "alert_run e env fs m \<Longrightarrow> alert_run e env fs (snd (flushSuppressed e now m))"

lemma parsePositiveInt_pos: "d > 0 \<Longrightarrow> parsePositiveInt raw d > 0"
  by (auto simp: parsePositiveInt_def split: option.split)

lemma alert_run_ok: "alert_run e env fs m \<Longrightarrow> emitter_ok m \<and> am_dedupeWindowMs m = am_dedupeWindowMs (newRuntimeEmitter env fs)"
proof (induction rule: alert_run.induct)
  case start
  have "parsePositiveInt (env ''MEMPHIS_ALERT_DEDUPE_WINDOW_MS'') (5 * 60 * 1000) > 0" by (rule parsePositiveInt_pos) simp
  then show ?case by (simp add: newRuntimeEmitter_def emitter_ok_def spaced_def)
next
  case (alert m a now)
  then show ?case using emit_keeps by auto
next
  case (summary m now)
  then show ?case using flush_keys_keeps by (auto simp: flushSuppressed_def)
qed

text \<open>
  C30: Over any sequence of alerts and summary flushes, with any clock, two calls of the alert transport for the same key
  are at least one suppression window apart, and the window is positive.
\<close>

theorem alert_storm_bounded:
  assumes "alert_run e env fs m" and "i < j" and "j < length (am_sent m)"
    and "am_sent m ! i = (t, k, a)" and "am_sent m ! j = (t', k, a')"
  shows "t' - t \<ge> am_dedupeWindowMs m \<and> am_dedupeWindowMs m > 0"
proof -
  have m: "emitter_ok m" "am_dedupeWindowMs m = parsePositiveInt (env ''MEMPHIS_ALERT_DEDUPE_WINDOW_MS'') (5 * 60 * 1000)"
    using alert_run_ok [OF assms(1)] by (simp_all add: newRuntimeEmitter_def)
  then have "t' - t \<ge> am_dedupeWindowMs m"
    using assms(2-5) by (fastforce simp: emitter_ok_def spaced_def sorted_wrt_iff_nth_less)
  with m(2) show ?thesis by (simp add: parsePositiveInt_pos)
qed

section \<open>A critical event is recorded\<close>

text \<open>The faults of the file system are those of the start; what passes the probe can be appended to.\<close>

definition same_faults :: "log_fs \<Rightarrow> log_fs \<Rightarrow> bool" where
  "same_faults fs fs' \<longleftrightarrow>
     lf_mkdir_denied fs' = lf_mkdir_denied fs \<and> lf_rename_denied fs' = lf_rename_denied fs \<and> lf_denied fs' = lf_denied fs \<and>
     lf_full fs' = lf_full fs \<and> lf_chmod_denied fs' = lf_chmod_denied fs"

definition appendable :: "log_fs \<Rightarrow> bool" where
  "appendable fs \<longleftrightarrow> (\<forall>p. \<not> lf_full fs p \<and> (\<not> lf_chmod_denied fs p \<longrightarrow> \<not> lf_denied fs p))"

definition usable :: "log_fs \<Rightarrow> string \<Rightarrow> bool" where
  "usable fs c \<longleftrightarrow> \<not> lf_mkdir_denied fs (path_dirname c) \<and> \<not> lf_denied fs c \<and> \<not> lf_chmod_denied fs c \<and>
     \<not> lf_rename_denied fs c \<and> (\<forall>i. \<not> lf_rename_denied fs (numbered_log c i))"

lemma same_faults_refl [simp]: "same_faults fs fs"
  by (simp add: same_faults_def)

lemma same_faults_trans: "same_faults fs fs' \<Longrightarrow> same_faults fs' fs'' \<Longrightarrow> same_faults fs fs''"
  by (simp add: same_faults_def)

lemma same_faults_transfer:
  "same_faults fs fs' \<Longrightarrow> appendable fs' = appendable fs" "same_faults fs fs' \<Longrightarrow> usable fs' c = usable fs c"
  by (simp_all add: same_faults_def appendable_def usable_def)

lemma rename_file_faults: "rename_file a b fs = (r, fs') \<Longrightarrow> same_faults fs fs'"
  by (auto simp: rename_file_def same_faults_def split: if_splits)

lemma append_file_faults: "append_file p d fs = (r, fs') \<Longrightarrow> same_faults fs fs'"
  by (auto simp: append_file_def same_faults_def split: if_splits)

lemma rotate_older_faults: "rotate_older i path fs = (r, fs') \<Longrightarrow> same_faults fs fs'"
proof (induction i path fs rule: rotate_older.induct)
  case (1 path fs)
  then show ?case by simp
next
  case (2 i path fs)
  then show ?case
    by (fastforce split: if_splits prod.splits bool.splits dest: rename_file_faults intro: same_faults_trans)
qed

lemma rotate_older_runs:
  assumes "\<And>j. \<not> lf_rename_denied fs (numbered_log path j)"
  shows "fst (rotate_older i path fs)"
  using assms
proof (induction i path fs rule: rotate_older.induct)
  case (1 path fs)
  then show ?case by simp
next
  case (2 i path fs)
  show ?case
  proof (cases "lf_files fs (numbered_log path (Suc i)) = None")
    case True
    then show ?thesis using 2 by simp
  next
    case False
    obtain r fs1 where mv: "rename_file (numbered_log path (Suc i)) (numbered_log path (Suc (Suc i))) fs = (r, fs1)" by (metis surj_pair)
    then have r: "r" using "2.prems" by (auto simp: rename_file_def split: if_splits)
    have "\<not> lf_rename_denied fs1 (numbered_log path j)" for j
      using rename_file_faults [OF mv] "2.prems" by (simp add: same_faults_def)
    then have "fst (rotate_older i path fs1)" using "2.IH"(2) [OF False mv [symmetric]] r by simp
    then show ?thesis using False mv r by auto
  qed
qed

lemma rotateFile_faults: "rotateFile path fs = (r, fs') \<Longrightarrow> same_faults fs fs'"
  by (fastforce simp: rotateFile_def split: option.splits if_splits prod.splits bool.splits
      dest: rename_file_faults rotate_older_faults intro: same_faults_trans)

lemma rotateFile_runs:
  assumes "usable fs path"
  shows "fst (rotateFile path fs)"
proof -
  obtain r fs1 where ro: "rotate_older (EMERGENCY_ROTATE_KEEP - 1) path fs = (r, fs1)" by (metis surj_pair)
  have "r" using rotate_older_runs [of fs path "EMERGENCY_ROTATE_KEEP - 1"] assms ro by (simp add: usable_def)
  moreover have "\<not> lf_rename_denied fs1 path"
    using rotate_older_faults [OF ro] assms by (simp add: same_faults_def usable_def)
  ultimately show ?thesis using ro by (auto simp: rotateFile_def rename_file_def split: option.split)
qed

lemma canWrite_faults: "canWriteEmergencyLog c fs = (r, fs') \<Longrightarrow> same_faults fs fs'"
  by (fastforce simp: canWriteEmergencyLog_def split: if_splits prod.splits bool.splits
      dest: rotateFile_faults append_file_faults intro: same_faults_trans)

lemma canWrite_usable:
  assumes "usable fs c"
  shows "fst (canWriteEmergencyLog c fs)"
proof -
  obtain r fs1 where rot: "rotateFile c fs = (r, fs1)" by (metis surj_pair)
  have r: "r" using rotateFile_runs [OF assms] rot by simp
  have u: "usable fs1 c" using same_faults_transfer(2) [OF rotateFile_faults [OF rot]] assms by simp
  obtain q fs2 where app: "(if lf_files fs1 c = None then append_file c '''' fs1 else (True, fs1)) = (q, fs2)" by (metis surj_pair)
  have "same_faults fs1 fs2" using app append_file_faults by (metis same_faults_refl prod.inject)
  then have "\<not> lf_chmod_denied fs2 c" using u by (simp add: same_faults_def usable_def)
  moreover have "q" using app u by (auto simp: append_file_def usable_def split: if_splits)
  ultimately show ?thesis using assms rot r app by (simp add: canWriteEmergencyLog_def usable_def)
qed

lemma canWrite_granted: "canWriteEmergencyLog c fs = (True, fs') \<Longrightarrow> \<not> lf_chmod_denied fs' c"
  by (auto simp: canWriteEmergencyLog_def split: if_splits prod.splits bool.splits)

lemma first_writable_faults: "first_writable i cs fs = (r, fs') \<Longrightarrow> same_faults fs fs'"
proof (induction i cs fs rule: first_writable.induct)
  case (1 i fs)
  then show ?case by simp
next
  case (2 i c cs fs)
  obtain b fs1 where can: "canWriteEmergencyLog c fs = (b, fs1)" by (metis surj_pair)
  show ?case
    using "2.prems" "2.IH" [OF can [symmetric]] canWrite_faults [OF can] can same_faults_trans by (cases b) auto
qed

lemma first_writable_found:
  "c \<in> set cs \<Longrightarrow> usable fs c \<Longrightarrow> fst (first_writable i cs fs) \<noteq> None"
proof (induction i cs fs rule: first_writable.induct)
  case (1 i fs)
  then show ?case by simp
next
  case (2 i d cs fs)
  obtain b fs1 where can: "canWriteEmergencyLog d fs = (b, fs1)" by (metis surj_pair)
  show ?case
  proof (cases b)
    case True
    then show ?thesis using can by simp
  next
    case False
    then have "d \<noteq> c" using canWrite_usable [OF "2.prems"(2)] can by auto
    then have "c \<in> set cs" using "2.prems"(1) by simp
    moreover have "usable fs1 c" using same_faults_transfer(2) [OF canWrite_faults [OF can]] "2.prems"(2) by simp
    ultimately show ?thesis using "2.IH" [OF can [symmetric]] False can by simp
  qed
qed

lemma first_writable_granted:
  "first_writable i cs fs = (Some (c, f), fs') \<Longrightarrow> c \<in> set cs \<and> \<not> lf_chmod_denied fs' c"
proof (induction i cs fs rule: first_writable.induct)
  case (1 i fs)
  then show ?case by simp
next
  case (2 i d cs fs)
  obtain b fs1 where can: "canWriteEmergencyLog d fs = (b, fs1)" by (metis surj_pair)
  show ?case using "2.prems" "2.IH" [OF can [symmetric]] canWrite_granted [of d fs fs1] can by (cases b) auto
qed

text \<open>On a disk that can be appended to, the emergency log never throws, and it finds a usable path if there is one.\<close>

lemma writeEmergencyLog_never_throws:
  assumes "appendable fs" and "writeEmergencyLog cwd env options nowIso msg fs = (r, fs')"
  obtains w where "r = Inr w" "same_faults fs fs'"
    "(\<exists>c \<in> set (resolveEmergencyLogCandidates cwd env options). usable fs c) \<Longrightarrow> w \<noteq> None"
    "\<And>c f. w = Some (c, f) \<Longrightarrow> c \<in> set (resolveEmergencyLogCandidates cwd env options) \<and>
       (\<exists>before. lf_files fs' c = Some (before @ emergency_line nowIso msg))"
proof -
  let ?cs = "resolveEmergencyLogCandidates cwd env options"
  obtain p fs1 where res: "first_writable 0 ?cs fs = (p, fs1)" by (metis surj_pair)
  note same = first_writable_faults [OF res]
  show thesis
  proof (cases p)
    case None
    then have none: "\<not> (\<exists>c \<in> set ?cs. usable fs c)" using first_writable_found [of _ ?cs fs 0] res by auto
    have "r = Inr None" "fs' = fs1" using assms(2) res None by (simp_all add: writeEmergencyLog_def resolveEmergencyLogPath_def)
    with that [of None] none same show thesis by auto
  next
    case (Some cf)
    obtain c f where cf: "cf = (c, f)" by (cases cf)
    note granted = first_writable_granted [OF res [unfolded Some cf]]
    have "appendable fs1" using same_faults_transfer(1) [OF same] assms(1) by simp
    then have "\<not> lf_denied fs1 c" "\<not> lf_full fs1 c" using granted by (auto simp: appendable_def)
    then have app: "append_file c (emergency_line nowIso msg) fs1 =
        (True, fs1\<lparr>lf_files := (lf_files fs1)(c \<mapsto> or_else (lf_files fs1 c) '''' @ emergency_line nowIso msg)\<rparr>)"
      by (simp add: append_file_def)
    note same2 = same_faults_trans [OF same append_file_faults [OF app]]
    have r: "r = Inr (Some (c, f))" and fs': "same_faults fs fs'"
        "lf_files fs' c = Some (or_else (lf_files fs1 c) '''' @ emergency_line nowIso msg)"
      using assms(2) same2 by (auto simp: writeEmergencyLog_def resolveEmergencyLogPath_def res Some cf app same_faults_def)
    show thesis
    proof (rule that [OF r fs'(1)])
      show "d \<in> set ?cs \<and> (\<exists>before. lf_files fs' d = Some (before @ emergency_line nowIso msg))" if "Some (c, f) = Some (d, g)" for d g
        using that granted fs'(2) by auto
    qed simp
  qed
qed

lemma emit_never_throws:
  assumes "appendable (am_log m)"
  shows "is_ok (fst (emit_alert e a now m))"
proof (cases "\<exists>c. recent_alert e a now m c")
  case True
  then show ?thesis using emit_suppressed by fastforce
next
  case False
  obtain d m1 r m2 where "ds_lastSentAt d = now"
    and "m1 = m\<lparr>am_state := AList.update (alertKey (al_sha256 e) a) d (am_state m), am_sent := am_sent m @ [(now, alertKey (al_sha256 e) a, a)]\<rparr>"
    and em: "emit_alert e a now m = (r, m2)"
    and m2: "m2 = m1 \<and> is_ok r \<or> (\<exists>msg x. fallbackLogFn e now msg m1 = (x, m2) \<and> (is_ok x \<longrightarrow> is_ok r))"
    by (rule emit_sent [OF False])
  then have m1: "am_log m1 = am_log m" by simp
  have "is_ok x" if "fallbackLogFn e now msg m1 = (x, m2)" for msg x
  proof -
    obtain q fs where w: "writeEmergencyLog (al_cwd e) (al_env e) no_options (al_iso e now) (emergencyFallbackTag msg) (am_log m1) = (q, fs)"
      by (metis surj_pair)
    from writeEmergencyLog_never_throws [OF _ w] assms m1 obtain y where "q = Inr y" by metis
    then show ?thesis using that by (auto simp: fallbackLogFn_def w)
  qed
  with m2 show ?thesis by (auto simp: em)
qed

text \<open>
  C19: As long as the disk can be appended to and some emergency path is usable, writing a critical event returns and the
  event is recorded, whether or not the chain and syslog work: in the chain, else in syslog, else in a line at the end
  of an emergency log, before the alert goes out.
\<close>

theorem critical_event_recorded:
  assumes "appendable (am_log (cs_emitter s))"
    and "\<exists>p \<in> set (resolveEmergencyLogCandidates (al_cwd (cr_alerts c)) (cr_env c) no_options). usable (am_log (cs_emitter s)) p"
  shows "\<exists>w s1 s2. record_critical c ev s = (Inr w, s1) \<and> writeSecurityCriticalEvent c ev s = (Inr w, s2) \<and>
    (sw_wroteChain w \<or> sw_wroteSyslog w \<or> sw_wroteEmergency w) \<and>
    (sw_wroteChain w \<longrightarrow> (\<exists>r. appendBlock (cr_chain c) (cr_path c) (cr_append c) (cr_backend c) (cr_rust c) ''system''
       (critical_block ev) (cs_chains s) = (Inr r, cs_chains s1))) \<and>
    (sw_wroteSyslog w \<longrightarrow> cs_syslog s1 = cs_syslog s @ [syslog_message ev]) \<and>
    (sw_wroteEmergency w \<longrightarrow> (\<exists>p before. lf_files (am_log (cs_emitter s1)) p =
       Some (before @ emergency_line (al_iso (cr_alerts c) (cr_nowMs c)) (emergency_message ev))))"
proof -
  obtain appended chain_files where app: "appendBlock (cr_chain c) (cr_path c) (cr_append c) (cr_backend c) (cr_rust c) ''system''
      (critical_block ev) (cs_chains s) = (appended, chain_files)" by (metis surj_pair)
  obtain r fs where log: "writeEmergencyLog (al_cwd (cr_alerts c)) (cr_env c) no_options (al_iso (cr_alerts c) (cr_nowMs c))
      (emergency_message ev) (am_log (cs_emitter s)) = (r, fs)" by (metis surj_pair)
  obtain w where w: "r = Inr w" "same_faults (am_log (cs_emitter s)) fs" "w \<noteq> None"
      "\<And>p f. w = Some (p, f) \<Longrightarrow> \<exists>before. lf_files fs p = Some (before @ emergency_line (al_iso (cr_alerts c) (cr_nowMs c)) (emergency_message ev))"
    using writeEmergencyLog_never_throws [OF assms(1) log] assms(2) by metis
  then obtain p f where p: "w = Some (p, f)" by auto
  have sink: "\<exists>v s1. record_critical c ev s = (Inr v, s1) \<and> same_faults (am_log (cs_emitter s)) (am_log (cs_emitter s1)) \<and>
    (sw_wroteChain v \<or> sw_wroteSyslog v \<or> sw_wroteEmergency v) \<and>
    (sw_wroteChain v \<longrightarrow> (\<exists>r. appended = Inr r \<and> cs_chains s1 = chain_files)) \<and>
    (sw_wroteSyslog v \<longrightarrow> cs_syslog s1 = cs_syslog s @ [syslog_message ev]) \<and>
    (sw_wroteEmergency v \<longrightarrow> (\<exists>p before. lf_files (am_log (cs_emitter s1)) p =
       Some (before @ emergency_line (al_iso (cr_alerts c) (cr_nowMs c)) (emergency_message ev))))"
  proof (cases "is_ok appended \<or> cr_syslog c")
    case True
    then show ?thesis by (cases appended) (auto simp: record_critical_def app Let_def)
  next
    case False
    then show ?thesis using w p by (cases appended) (auto simp: record_critical_def app Let_def log)
  qed
  then obtain v s1 where v: "record_critical c ev s = (Inr v, s1)" "same_faults (am_log (cs_emitter s)) (am_log (cs_emitter s1))" by blast
  have "is_ok (fst (emit_alert (cr_alerts c) (critical_alert ev) (cr_nowMs c) (cs_emitter s1)))"
    using emit_never_throws same_faults_transfer(1) [OF v(2)] assms(1) by simp
  then have "\<exists>s2. writeSecurityCriticalEvent c ev s = (Inr v, s2)"
    by (cases "emit_alert (cr_alerts c) (critical_alert ev) (cr_nowMs c) (cs_emitter s1)"; cases "fst (emit_alert (cr_alerts c) (critical_alert ev) (cr_nowMs c) (cs_emitter s1))")
       (auto simp: writeSecurityCriticalEvent_def v(1))
  with sink v(1) show ?thesis unfolding app by force
qed

section \<open>A read-only chain, no syslog, two alerts in a row\<close>

definition open_fs :: log_fs where
  "open_fs = \<lparr>lf_files = (\<lambda>_. None), lf_mkdir_denied = (\<lambda>p. p = ''/var/lib/memphis''), lf_stat_denied = (\<lambda>_. False),
     lf_rename_denied = (\<lambda>_. False), lf_denied = (\<lambda>_. False), lf_full = (\<lambda>_. False), lf_chmod_denied = (\<lambda>_. False),
     lf_error = (\<lambda>_. ''EACCES''), lf_stderr = []\<rparr>"

definition quiet_alerts :: alert_env where
  "quiet_alerts = \<lparr>al_sha256 = id, al_env = (\<lambda>_. None), al_post = (\<lambda>_ _. Inl ''down''), al_cwd = ''/d'', al_iso = show_int\<rparr>"

definition outage :: critical_env where
  "outage = \<lparr>cr_chain = undefined, cr_path = undefined, cr_append = undefined, cr_backend = RustNapi, cr_rust = (\<lambda>_ _. Inl ''down''),
     cr_syslog = False, cr_nowMs = 7, cr_env = (\<lambda>_. None), cr_alerts = quiet_alerts\<rparr>"

definition outage_state :: critical_state where
  "outage_state = \<lparr>cs_chains = (\<lambda>_. None), cs_syslog = [], cs_emitter = newRuntimeEmitter (\<lambda>_. None) open_fs\<rparr>"

definition breach :: SecurityCriticalEvent where
  "breach = \<lparr>se_event = ''trust_root.mismatch'', se_reason = ''r'', se_severity = None, se_details = None\<rparr>"

theorem critical_event_recorded_witness:
  "\<exists>w s1. record_critical outage breach outage_state = (Inr w, s1) \<and>
     (sw_wroteSyslog w \<or> (\<exists>p before. lf_files (am_log (cs_emitter s1)) p = Some (before @ emergency_line ''7'' (emergency_message breach))))"
proof -
  have "appendable (am_log (cs_emitter outage_state))"
    by (simp add: outage_state_def newRuntimeEmitter_def open_fs_def appendable_def)
  moreover have "usable open_fs ''/opt/memphis/data/emergency.log''"
  proof -
    have "path_dirname ''/opt/memphis/data/emergency.log'' \<noteq> ''/var/lib/memphis''" by code_simp
    then show ?thesis by (simp add: usable_def open_fs_def)
  qed
  moreover have "''/opt/memphis/data/emergency.log'' \<in> set (resolveEmergencyLogCandidates ''/d'' (\<lambda>_. None) no_options)"
    by (simp add: resolveEmergencyLogCandidates_def no_options_def Let_def)
  moreover have "al_iso (cr_alerts outage) (cr_nowMs outage) = ''7''" unfolding outage_def quiet_alerts_def by code_simp
  ultimately show ?thesis
    using critical_event_recorded [of outage_state outage breach]
    by (auto simp: outage_state_def newRuntimeEmitter_def outage_def quiet_alerts_def appendBlock_def)
qed

definition login_alert :: Alert where
  "login_alert = \<lparr>at_id = Some ''login'', at_severity = High, at_message = ''m'', at_details = None\<rparr>"

definition three_alerts :: AlertEmitter where
  "three_alerts = snd (emit_alert quiet_alerts login_alert 300000 (snd (emit_alert quiet_alerts login_alert 60000
     (snd (emit_alert quiet_alerts login_alert 0 (newRuntimeEmitter (\<lambda>_. None) open_fs))))))"

lemma three_alerts_sent: "map (\<lambda>(t, k, _). (t, k)) (am_sent three_alerts) = [(0, ''login''), (300000, ''login'')]"
  by code_simp

theorem alert_storm_bounded_witness:
  "length (am_sent three_alerts) = 2 \<and> fst (am_sent three_alerts ! 1) - fst (am_sent three_alerts ! 0) \<ge> am_dedupeWindowMs three_alerts"
proof -
  obtain a a' where sent: "am_sent three_alerts = [(0, ''login'', a), (300000, ''login'', a')]"
    using three_alerts_sent by (auto simp: map_eq_Cons_conv)
  have run: "alert_run quiet_alerts (\<lambda>_. None) open_fs three_alerts"
    unfolding three_alerts_def by (intro alert_run.alert alert_run.start)
  show ?thesis using alert_storm_bounded [OF run, of 0 1 0 "''login''" a 300000 a'] by (simp add: sent)
qed

end
