(* ===== verification/Rollback.thy ===== *)
theory Rollback
  imports EncryptedBlob Paths
begin

text \<open>
  Snapshots of the chains and the configuration, and going back to one (\<open>backup/rollback.ts\<close>).

  Files are a map from paths; SHA-256, base64, the clock and the failing paths are fields of \<open>rollback_host\<close>. A restore
  that fails calls \<open>rollback\<close> on the snapshot it took just before, and this call can fail in the same way, so the
  recursion has fuel: \<^const>\<open>None\<close> is a call that has not returned within it. A chain called \<open>__proto__\<close> is lost
  because the assignment sets the prototype of the object. Timestamps are compared as numbers.
\<close>

record rollback_host =
  rh_blob :: blob_host
  rh_now :: "nat \<Rightarrow> int"
  rh_iso :: "json option \<Rightarrow> (string, string) result"
  rh_to_string :: "json option \<Rightarrow> string"
  rh_read_fails :: "string \<Rightarrow> string option"
  rh_write_fails :: "string \<Rightarrow> string option"
  rh_missing :: "string \<Rightarrow> string"

record rollback_state =
  rb_files :: "(string, string) jsmap"
  rb_clock :: nat

definition rb_read :: "rollback_host \<Rightarrow> string \<Rightarrow> rollback_state \<Rightarrow> (string, string) result" where
  "rb_read h path s =
     (case rh_read_fails h path of
        Some e \<Rightarrow> Inl e
      | None \<Rightarrow> (case map_of (rb_files s) path of None \<Rightarrow> Inl (rh_missing h path) | Some c \<Rightarrow> Inr c))"

definition rb_write :: "rollback_host \<Rightarrow> string \<Rightarrow> string \<Rightarrow> rollback_state \<Rightarrow> (string, unit) result \<times> rollback_state" where
  "rb_write h path content s =
     (case rh_write_fails h path of
        Some e \<Rightarrow> (Inl e, s)
      | None \<Rightarrow> (Inr (), s\<lparr>rb_files := AList.update path content (rb_files s)\<rparr>))"

definition rb_readdir :: "rollback_host \<Rightarrow> string \<Rightarrow> rollback_state \<Rightarrow> (string, string list) result" where
  "rb_readdir h dir s =
     (case rh_read_fails h dir of
        Some e \<Rightarrow> Inl e
      | None \<Rightarrow> Inr (filter (\<lambda>n. n \<noteq> '''' \<and> CHR ''/'' \<notin> set n)
                 (map (drop (length dir + 1)) (filter (\<lambda>p. starts_with p (dir @ ''/'')) (keys (rb_files s))))))"

definition tick :: "rollback_host \<Rightarrow> rollback_state \<Rightarrow> int \<times> rollback_state" where
  "tick h s = (rh_now h (rb_clock s), s\<lparr>rb_clock := rb_clock s + 1\<rparr>)"

definition snapshotDir :: "string \<Rightarrow> string" where
  "snapshotDir dataDir = path_join [dataDir, ''snapshots'']"

definition chainPath :: "string \<Rightarrow> string" where
  "chainPath dataDir = path_join [dataDir, ''chains'']"

definition snapshot_file :: "string \<Rightarrow> string \<Rightarrow> string" where
  "snapshot_file dataDir snapshotId = path_join [snapshotDir dataDir, snapshotId @ ''.json'']"

definition chain_file :: "string \<Rightarrow> string \<Rightarrow> string" where
  "chain_file dataDir chainName = path_join [chainPath dataDir, chainName @ ''.db'']"

section \<open>Taking a snapshot\<close>

fun remove_first :: "string \<Rightarrow> string \<Rightarrow> string" where
  "remove_first sub [] = []"
| "remove_first sub (c # s) = (if starts_with (c # s) sub then drop (length sub) (c # s) else c # remove_first sub s)"

definition assign_member :: "string \<Rightarrow> json \<Rightarrow> (string \<times> json) list \<Rightarrow> (string \<times> json) list" where
  "assign_member k v members = (if k = ''__proto__'' then members else AList.update k v members)"

definition chain_backup :: "rollback_host \<Rightarrow> string \<Rightarrow> json" where
  "chain_backup h data = JObj [(''data'', JStr (bh_base64 (rh_blob h) data)), (''checksum'', JStr (bh_sha256 (rh_blob h) data))]"

text \<open>A file that cannot be read ends the loop: the \<open>catch\<close> is around it.\<close>

fun backup_files :: "rollback_host \<Rightarrow> string \<Rightarrow> rollback_state \<Rightarrow> string list \<Rightarrow> (string \<times> json) list \<Rightarrow> (string \<times> json) list" where
  "backup_files h dataDir s [] members = members"
| "backup_files h dataDir s (file # rest) members =
     (if \<not> ends_with file ''.db'' then backup_files h dataDir s rest members
      else (case rb_read h (path_join [chainPath dataDir, file]) s of
              Inl _ \<Rightarrow> members
            | Inr data \<Rightarrow>
                backup_files h dataDir s rest (assign_member (remove_first ''.db'' file) (chain_backup h data) members)))"

definition backupChains :: "rollback_host \<Rightarrow> string \<Rightarrow> rollback_state \<Rightarrow> json" where
  "backupChains h dataDir s =
     (case rb_readdir h (chainPath dataDir) s of Inl _ \<Rightarrow> JObj [] | Inr names \<Rightarrow> JObj (backup_files h dataDir s names []))"

definition backupConfig :: "rollback_host \<Rightarrow> rollback_state \<Rightarrow> json" where
  "backupConfig h s =
     (case rb_read h ''./config.json'' s of
        Inl _ \<Rightarrow> JNull
      | Inr data \<Rightarrow> JObj [(''data'', JStr data), (''checksum'', JStr (bh_sha256 (rh_blob h) data))])"

definition getCurrentVersion :: "rollback_host \<Rightarrow> rollback_state \<Rightarrow> json" where
  "getCurrentVersion h s =
     (case rbind (rb_read h ''./package.json'' s) (parse_json (rh_blob h)) of
        Inl _ \<Rightarrow> JStr ''0.0.0''
      | Inr pkg \<Rightarrow> if js_truthy (jfield pkg ''version'') then the (jfield pkg ''version'') else JStr ''0.0.0'')"

text \<open>A member that is \<open>undefined\<close> is left out by \<open>JSON.stringify\<close>.\<close>

definition computeChecksum :: "rollback_host \<Rightarrow> json \<Rightarrow> string" where
  "computeChecksum h snapshot =
     bh_sha256 (rh_blob h) (JSON_stringify (JObj
       (List.map_filter (\<lambda>k. map_option (Pair k) (jfield snapshot k)) [''chains'', ''config'', ''version'', ''timestamp''])))"

definition snapshot_value :: "rollback_host \<Rightarrow> string \<Rightarrow> string option \<Rightarrow> int \<Rightarrow> rollback_state \<Rightarrow> json" where
  "snapshot_value h dataDir description timestamp s =
     (let body = [(''id'', JStr (''snapshot-'' @ show_int timestamp)), (''timestamp'', JNum timestamp),
            (''description'', JStr (if or_else description '''' = '''' then ''Manual snapshot'' else the description)),
            (''chains'', backupChains h dataDir s), (''config'', backupConfig h s), (''version'', getCurrentVersion h s)]
      in JObj (body @ [(''checksum'', JStr (computeChecksum h (JObj body)))]))"

definition createSnapshot :: "rollback_host \<Rightarrow> string \<Rightarrow> string option \<Rightarrow> rollback_state \<Rightarrow> (string, string) result \<times> rollback_state" where
  "createSnapshot h dataDir description s =
     (case tick h s of
        (timestamp, s) \<Rightarrow>
          (let snapshotId = ''snapshot-'' @ show_int timestamp
           in case rb_write h (snapshot_file dataDir snapshotId) (JSON_stringify2 (snapshot_value h dataDir description timestamp s)) s of
                (Inl e, s) \<Rightarrow> (Inl e, s)
              | (Inr _, s) \<Rightarrow> (Inr snapshotId, s)))"

section \<open>Going back to one\<close>

text \<open>\<open>Object.entries\<close>; \<^const>\<open>None\<close> where it throws.\<close>

definition entries :: "json option \<Rightarrow> (string \<times> json) list option" where
  "entries v = (case v of
     None \<Rightarrow> None
   | Some JNull \<Rightarrow> None
   | Some (JObj kvs) \<Rightarrow> Some kvs
   | Some (JArr vs) \<Rightarrow> Some (zip (map show_nat [0..<length vs]) vs)
   | Some (JStr s) \<Rightarrow> Some (zip (map show_nat [0..<length s]) (map (\<lambda>c. JStr [c]) s))
   | Some _ \<Rightarrow> Some [])"

fun restore_chains :: "rollback_host \<Rightarrow> string \<Rightarrow> (string \<times> json) list \<Rightarrow> rollback_state \<Rightarrow> (string, unit) result \<times> rollback_state" where
  "restore_chains h dataDir [] s = (Inr (), s)"
| "restore_chains h dataDir ((chainName, backup) # rest) s =
     (case buffer_from (rh_blob h) (jfield backup ''data'') of
        Inl e \<Rightarrow> (Inl e, s)
      | Inr data \<Rightarrow>
          if jfield backup ''checksum'' \<noteq> Some (JStr (bh_sha256 (rh_blob h) data)) then
            (Inl (''Chain '' @ chainName @ '' checksum mismatch''), s)
          else (case rb_write h (chain_file dataDir chainName) data s of
                  (Inl e, s) \<Rightarrow> (Inl e, s)
                | (Inr _, s) \<Rightarrow> restore_chains h dataDir rest s))"

definition restore_config :: "rollback_host \<Rightarrow> json option \<Rightarrow> rollback_state \<Rightarrow> (string, unit) result \<times> rollback_state" where
  "restore_config h config s =
     (if \<not> js_truthy config then (Inr (), s)
      else (case jfield (the config) ''data'' of
              Some (JStr data) \<Rightarrow>
                if jfield (the config) ''checksum'' \<noteq> Some (JStr (bh_sha256 (rh_blob h) data)) then (Inl ''Config checksum mismatch'', s)
                else rb_write h ''./config.json'' data s
            | v \<Rightarrow>
                (case bh_buffer_from (rh_blob h) v of
                   Inl e \<Rightarrow> (Inl e, s)
                 | Inr data \<Rightarrow>
                     if jfield (the config) ''checksum'' \<noteq> Some (JStr (bh_sha256 (rh_blob h) data)) then (Inl ''Config checksum mismatch'', s)
                     else rb_write h ''./config.json'' data s)))"

definition restore_all :: "rollback_host \<Rightarrow> string \<Rightarrow> json \<Rightarrow> rollback_state \<Rightarrow> (string, unit) result \<times> rollback_state" where
  "restore_all h dataDir snapshot s =
     (case entries (jfield snapshot ''chains'') of
        None \<Rightarrow> (Inl ''Cannot convert undefined or null to object'', s)
      | Some es \<Rightarrow>
          (case restore_chains h dataDir es s of
             (Inl e, s) \<Rightarrow> (Inl e, s)
           | (Inr _, s) \<Rightarrow> restore_config h (jfield snapshot ''config'') s))"

definition load_snapshot :: "rollback_host \<Rightarrow> string \<Rightarrow> string \<Rightarrow> rollback_state \<Rightarrow> (string, json) result" where
  "load_snapshot h dataDir snapshotId s =
     rbind (rb_read h (snapshot_file dataDir snapshotId) s) (\<lambda>raw.
     rbind (parse_json (rh_blob h) raw) (\<lambda>snapshot.
       if snapshot = JNull then Inl ''Cannot read properties of null''
       else if jfield snapshot ''checksum'' \<noteq> Some (JStr (computeChecksum h snapshot)) then
         Inl ''Snapshot checksum mismatch - possible corruption''
       else Inr snapshot))"

record RollbackResult =
  rr_success :: bool
  rr_snapshotId :: "string option"
  rr_timestamp :: "string option"
  rr_error :: "string option"

definition rollback_failed :: "string \<Rightarrow> RollbackResult" where
  "rollback_failed e = \<lparr>rr_success = False, rr_snapshotId = None, rr_timestamp = None, rr_error = Some e\<rparr>"

definition rolled_back :: "rollback_host \<Rightarrow> string \<Rightarrow> json \<Rightarrow> RollbackResult" where
  "rolled_back h snapshotId snapshot =
     (case rh_iso h (jfield snapshot ''timestamp'') of
        Inl e \<Rightarrow> rollback_failed e
      | Inr ts \<Rightarrow> \<lparr>rr_success = True, rr_snapshotId = Some snapshotId, rr_timestamp = Some ts, rr_error = None\<rparr>)"

text \<open>The two methods call each other; the fuel counts the calls of \<open>rollback\<close>.\<close>

function rollback :: "rollback_host \<Rightarrow> string \<Rightarrow> nat \<Rightarrow> string \<Rightarrow> rollback_state \<Rightarrow> (RollbackResult \<times> rollback_state) option"
  and atomicRestore :: "rollback_host \<Rightarrow> string \<Rightarrow> nat \<Rightarrow> json \<Rightarrow> rollback_state \<Rightarrow> ((string, unit) result \<times> rollback_state) option" where
  "rollback h dataDir 0 snapshotId s = None"
| "rollback h dataDir (Suc fuel) snapshotId s =
     (case load_snapshot h dataDir snapshotId s of
        Inl e \<Rightarrow> Some (rollback_failed e, s)
      | Inr snapshot \<Rightarrow>
          (case atomicRestore h dataDir fuel snapshot s of
             None \<Rightarrow> None
           | Some (Inl e, s) \<Rightarrow> Some (rollback_failed e, s)
           | Some (Inr _, s) \<Rightarrow> Some (rolled_back h snapshotId snapshot, s)))"
| "atomicRestore h dataDir fuel snapshot s =
     (case createSnapshot h dataDir (Some ''Pre-rollback backup'') s of
        (Inl e, s) \<Rightarrow> Some (Inl e, s)
      | (Inr tempBackup, s) \<Rightarrow>
          (case restore_all h dataDir snapshot s of
             (Inr _, s) \<Rightarrow> Some (Inr (), s)
           | (Inl e, s) \<Rightarrow>
               (case rollback h dataDir fuel tempBackup s of
                  None \<Rightarrow> None
                | Some (_, s) \<Rightarrow> Some (Inl e, s))))"
  by pat_completeness auto
termination
  by (relation "measure (\<lambda>x. case x of Inl (_, _, fuel, _, _) \<Rightarrow> 2 * fuel | Inr (_, _, fuel, _, _) \<Rightarrow> 2 * fuel + 1)") auto

section \<open>Choosing one\<close>

record SnapshotMetadata =
  sm_id :: "json option"
  sm_timestamp :: "json option"
  sm_description :: "json option"
  sm_version :: "json option"

fun read_snapshots :: "rollback_host \<Rightarrow> string \<Rightarrow> rollback_state \<Rightarrow> string list \<Rightarrow> (string, SnapshotMetadata list) result" where
  "read_snapshots h dataDir s [] = Inr []"
| "read_snapshots h dataDir s (file # rest) =
     (if \<not> ends_with file ''.json'' then read_snapshots h dataDir s rest
      else
        rbind (rb_read h (path_join [snapshotDir dataDir, file]) s) (\<lambda>raw.
        rbind (parse_json (rh_blob h) raw) (\<lambda>v.
          if v = JNull then Inl ''Cannot read properties of null''
          else rbind (read_snapshots h dataDir s rest) (\<lambda>ms.
            Inr (\<lparr>sm_id = jfield v ''id'', sm_timestamp = jfield v ''timestamp'', sm_description = jfield v ''description'',
                  sm_version = jfield v ''version''\<rparr> # ms)))))"

definition by_newest :: "SnapshotMetadata \<Rightarrow> SnapshotMetadata \<Rightarrow> int" where
  "by_newest a b = (case (jnumber (sm_timestamp a), jnumber (sm_timestamp b)) of (Some x, Some y) \<Rightarrow> y - x | _ \<Rightarrow> 0)"

definition listSnapshots :: "rollback_host \<Rightarrow> string \<Rightarrow> rollback_state \<Rightarrow> (string, SnapshotMetadata list) result" where
  "listSnapshots h dataDir s =
     rbind (rb_readdir h (snapshotDir dataDir) s) (\<lambda>files.
     rbind (read_snapshots h dataDir s files) (\<lambda>ms. Inr (js_sort by_newest ms)))"

fun find_recent :: "rollback_host \<Rightarrow> int \<Rightarrow> SnapshotMetadata list \<Rightarrow> rollback_state \<Rightarrow> SnapshotMetadata option \<times> rollback_state" where
  "find_recent h maxAge [] s = (None, s)"
| "find_recent h maxAge (m # ms) s =
     (case tick h s of
        (now, s) \<Rightarrow>
          (case jnumber (sm_timestamp m) of
             None \<Rightarrow> find_recent h maxAge ms s
           | Some t \<Rightarrow> if now - t < maxAge then (Some m, s) else find_recent h maxAge ms s))"

text \<open>The result of \<open>rollback\<close> is not looked at.\<close>

definition autoRollback :: "rollback_host \<Rightarrow> string \<Rightarrow> nat \<Rightarrow> int \<Rightarrow> rollback_state \<Rightarrow> ((string, bool) result \<times> rollback_state) option" where
  "autoRollback h dataDir fuel maxAge s =
     (case listSnapshots h dataDir s of
        Inl e \<Rightarrow> Some (Inl e, s)
      | Inr ms \<Rightarrow>
          (case find_recent h maxAge ms s of
             (None, s) \<Rightarrow> Some (Inr False, s)
           | (Some m, s) \<Rightarrow>
               (case rollback h dataDir fuel (rh_to_string h (sm_id m)) s of
                  None \<Rightarrow> None
                | Some (_, s) \<Rightarrow> Some (Inr True, s))))"

end
