(* ===== verification/RollbackLaws.thy ===== *)
theory RollbackLaws
  imports Rollback JsonRoundtrip
begin

text \<open>
  A snapshot brings back every chain file and the configuration it was taken of, and touches nothing else but the backup
  it takes first; but when one chain file cannot be written, going back never returns.
\<close>

section \<open>Paths in a plain directory\<close>

definition plain_dir :: "string \<Rightarrow> bool" where
  "plain_dir p \<longleftrightarrow> (\<exists>segs. p = join ''/'' segs \<and> segs \<noteq> [] \<and> list_all plain_seg segs)"

lemma plain_join_starts: "list_all plain_seg segs \<Longrightarrow> segs \<noteq> [] \<Longrightarrow> \<not> starts_with (join ''/'' segs) ''/''"
  by (cases segs; cases "hd segs"; cases "tl segs") (auto simp: plain_seg_def starts_with_def)

lemma path_join_plain: "plain_dir p \<Longrightarrow> plain_seg n \<Longrightarrow> path_join [p, n] = p @ ''/'' @ n"
proof -
  assume "plain_dir p" and n: "plain_seg n"
  then obtain segs where segs: "p = join ''/'' segs" "segs \<noteq> []" "list_all plain_seg segs" by (auto simp: plain_dir_def)
  have all: "list_all plain_seg (segs @ [n])" using segs(3) n by simp
  have j: "p @ ''/'' @ n = join ''/'' (segs @ [n])" using segs(1,2) by (simp add: join_snoc)
  have ne: "p \<noteq> ''''" "n \<noteq> ''''" using plain_join_ends [OF segs(3,2)] segs(1) n by (auto simp: plain_seg_def)
  have joined: "join ''/'' (filter (\<lambda>p. p \<noteq> '''') [p, n]) = join ''/'' (segs @ [n])" using ne j by simp
  have "path_join [p, n] = join ''/'' (segs @ [n])"
    using plain_join_ends [OF all] plain_join_starts [OF all] norm_segs_plain [OF all] split_on_join_plain [OF all]
    unfolding path_join_def Let_def joined by simp
  with j show ?thesis by simp
qed

lemma plain_not_dotted: "plain_dir p \<Longrightarrow> plain_seg n \<Longrightarrow> p @ ''/'' @ n \<noteq> ''./config.json''"
proof
  assume p: "plain_dir p" and n: "plain_seg n" and eq: "p @ ''/'' @ n = ''./config.json''"
  then obtain segs where segs: "p = join ''/'' segs" "segs \<noteq> []" "list_all plain_seg segs" by (auto simp: plain_dir_def)
  have "list_all plain_seg (segs @ [n])" using segs(3) n by simp
  from split_on_join_plain [OF this] have "split_on (CHR ''/'') ''./config.json'' = segs @ [n]"
    using segs(1,2) by (simp add: join_snoc eq [symmetric])
  then have "''.'' \<in> set (segs @ [n])" by auto
  then show False using segs(3) n by (auto simp: list_all_iff plain_seg_def)
qed

lemma plain_db: "CHR ''/'' \<notin> set n \<Longrightarrow> plain_seg (n @ ''.db'')"
  by (cases n; cases "tl n") (auto simp: plain_seg_def)

lemma plain_json: "CHR ''/'' \<notin> set n \<Longrightarrow> plain_seg (n @ ''.json'')"
  by (cases n; cases "tl n") (auto simp: plain_seg_def)

lemma chain_file_plain: "plain_dir (chainPath d) \<Longrightarrow> CHR ''/'' \<notin> set n \<Longrightarrow> chain_file d n = chainPath d @ ''/'' @ n @ ''.db''"
  by (simp add: chain_file_def path_join_plain plain_db)

lemma snapshot_file_plain: "plain_dir (snapshotDir d) \<Longrightarrow> CHR ''/'' \<notin> set n \<Longrightarrow> snapshot_file d n = snapshotDir d @ ''/'' @ n @ ''.json''"
  by (simp add: snapshot_file_def path_join_plain plain_json)

lemma chain_not_snapshot:
  assumes "plain_dir (chainPath d)" and "plain_dir (snapshotDir d)" and "CHR ''/'' \<notin> set n" and "CHR ''/'' \<notin> set m"
  shows "chain_file d n \<noteq> snapshot_file d m"
proof -
  have "last (chain_file d n) = CHR ''b''" "last (snapshot_file d m) = CHR ''n''"
    by (simp_all add: chain_file_plain snapshot_file_plain assms)
  then show ?thesis by auto
qed

lemma snapshot_id_plain: "CHR ''/'' \<notin> set (''snapshot-'' @ show_int t)"
proof -
  have "\<not> is_digit (CHR ''/'')" by (simp add: is_digit_def code_def)
  then have "CHR ''/'' \<notin> set (show_nat n)" for n using show_nat_digits [of n] by blast
  then show ?thesis by (simp add: show_int_def)
qed

section \<open>What a snapshot holds\<close>

definition chain_names :: "rollback_host \<Rightarrow> string \<Rightarrow> rollback_state \<Rightarrow> string list" where
  "chain_names h d s = filter (\<lambda>f. ends_with f ''.db'') (projr (rb_readdir h (chainPath d) s))"

lemma set_remove_first: "set (remove_first sub s) \<subseteq> set s"
  by (induction sub s rule: remove_first.induct) (auto dest: in_set_dropD)

text \<open>The members are backups of files that were there, and every file that can be listed is among them.\<close>

definition backups :: "rollback_host \<Rightarrow> (string \<times> json) list \<Rightarrow> bool" where
  "backups h members \<longleftrightarrow> distinct (map fst members) \<and> list_all (\<lambda>kv. \<exists>y. snd kv = chain_backup h y) members"

lemma assign_member_backups: "backups h members \<Longrightarrow> backups h (assign_member k (chain_backup h y) members)"
proof -
  have "list_all (\<lambda>kv. \<exists>y. snd kv = chain_backup h y) (AList.update k (chain_backup h y) al)"
    if "list_all (\<lambda>kv. \<exists>y. snd kv = chain_backup h y) al" for al
    using that by (induction al) auto
  then show "backups h members \<Longrightarrow> backups h (assign_member k (chain_backup h y) members)"
    by (simp add: backups_def assign_member_def distinct_update)
qed

lemma backup_files_backups: "backups h members \<Longrightarrow> backups h (backup_files h d s names members)"
  by (induction h d s names members rule: backup_files.induct) (auto simp: assign_member_backups split: sum.splits)

lemma backup_files_names:
  assumes "\<And>p. rh_read_fails h p = None" and "\<And>f. f \<in> set names \<Longrightarrow> ends_with f ''.db'' \<Longrightarrow> map_of (rb_files s) (path_join [chainPath d, f]) \<noteq> None"
  shows "fst ` set (backup_files h d s names acc) =
    fst ` set acc \<union> (remove_first ''.db'' ` {f \<in> set names. ends_with f ''.db''} - {''__proto__''})"
  using assms
proof (induction h d s names acc rule: backup_files.induct)
  case (1 h d s acc)
  then show ?case by simp
next
  case (2 h d s f rest acc)
  show ?case
  proof (cases "ends_with f ''.db''")
    case False
    have rest: "\<And>f. f \<in> set rest \<Longrightarrow> ends_with f ''.db'' \<Longrightarrow> map_of (rb_files s) (path_join [chainPath d, f]) \<noteq> None"
      using "2.prems"(2) by simp
    have "{g \<in> set (f # rest). ends_with g ''.db''} = {g \<in> set rest. ends_with g ''.db''}" using False by auto
    then show ?thesis using "2.IH"(1) [OF False "2.prems"(1) rest] False by simp
  next
    case True
    obtain data where "map_of (rb_files s) (path_join [chainPath d, f]) = Some data" using "2.prems"(2) [of f] True by auto
    then have data: "rb_read h (path_join [chainPath d, f]) s = Inr data" by (simp add: rb_read_def "2.prems"(1))
    have nn: "\<not> \<not> ends_with f ''.db''" using True by simp
    have rest: "\<And>f. f \<in> set rest \<Longrightarrow> ends_with f ''.db'' \<Longrightarrow> map_of (rb_files s) (path_join [chainPath d, f]) \<noteq> None"
      using "2.prems"(2) by simp
    have "{g \<in> set (f # rest). ends_with g ''.db''} = insert f {g \<in> set rest. ends_with g ''.db''}" using True by auto
    then show ?thesis
      using "2.IH"(2) [OF nn data "2.prems"(1) rest] True data by (auto simp: assign_member_def dom_update)
  qed
qed

lemma backup_files_values:
  assumes "\<And>p. rh_read_fails h p = None" and "\<And>f. f \<in> set names \<Longrightarrow> ends_with f ''.db'' \<Longrightarrow> map_of (rb_files s) (path_join [chainPath d, f]) \<noteq> None"
    and "inj_on (remove_first ''.db'') {f \<in> set names. ends_with f ''.db''}" and "distinct names"
    and "''__proto__'' \<notin> remove_first ''.db'' ` {f \<in> set names. ends_with f ''.db''}"
  shows "(f \<in> set names \<and> ends_with f ''.db'' \<longrightarrow> map_of (backup_files h d s names acc) (remove_first ''.db'' f) =
       Some (chain_backup h (the (map_of (rb_files s) (path_join [chainPath d, f]))))) \<and>
    (k \<notin> remove_first ''.db'' ` {f \<in> set names. ends_with f ''.db''} \<longrightarrow> map_of (backup_files h d s names acc) k = map_of acc k)"
  using assms
proof (induction h d s names acc arbitrary: f k rule: backup_files.induct)
  case (1 h d s acc)
  then show ?case by simp
next
  case (2 h d s g rest acc)
  have sub: "{f \<in> set rest. ends_with f ''.db''} \<subseteq> {f \<in> set (g # rest). ends_with f ''.db''}" by auto
  have prems: "inj_on (remove_first ''.db'') {f \<in> set rest. ends_with f ''.db''}" "distinct rest"
      "''__proto__'' \<notin> remove_first ''.db'' ` {f \<in> set rest. ends_with f ''.db''}"
      "\<And>f. f \<in> set rest \<Longrightarrow> ends_with f ''.db'' \<Longrightarrow> map_of (rb_files s) (path_join [chainPath d, f]) \<noteq> None"
    using "2.prems" inj_on_subset [OF "2.prems"(3) sub] by auto
  show ?case
  proof (cases "ends_with g ''.db''")
    case False
    then show ?thesis using "2.IH"(1) [OF False "2.prems"(1) prems(4,1,2,3)] by auto
  next
    case True
    obtain c where c: "map_of (rb_files s) (path_join [chainPath d, g]) = Some c" using "2.prems"(2) True by auto
    then have read: "rb_read h (path_join [chainPath d, g]) s = Inr c" using "2.prems"(1) by (simp add: rb_read_def)
    have np: "remove_first ''.db'' g \<noteq> ''__proto__''"
    proof
      assume eq: "remove_first ''.db'' g = ''__proto__''"
      have "remove_first ''.db'' g \<in> remove_first ''.db'' ` {f \<in> set (g # rest). ends_with f ''.db''}"
        using True by (intro imageI) simp
      then show False unfolding eq using "2.prems"(5) by blast
    qed
    have fresh: "remove_first ''.db'' g \<notin> remove_first ''.db'' ` {f \<in> set rest. ends_with f ''.db''}"
      using "2.prems"(3,4) True by (auto simp: inj_on_def)
    let ?acc = "assign_member (remove_first ''.db'' g) (chain_backup h c) acc"
    have step: "backup_files h d s (g # rest) acc = backup_files h d s rest ?acc" using True read by simp
    have nn: "\<not> \<not> ends_with g ''.db''" using True by simp
    have IH: "f \<in> set rest \<and> ends_with f ''.db'' \<longrightarrow> map_of (backup_files h d s rest ?acc) (remove_first ''.db'' f) =
        Some (chain_backup h (the (map_of (rb_files s) (path_join [chainPath d, f]))))"
      "k \<notin> remove_first ''.db'' ` {f \<in> set rest. ends_with f ''.db''} \<longrightarrow> map_of (backup_files h d s rest ?acc) k = map_of ?acc k" for f k
      using "2.IH"(2) [OF nn read "2.prems"(1) prems(4,1,2,3)] by simp_all
    have acc: "map_of ?acc k = (if k = remove_first ''.db'' g then Some (chain_backup h c) else map_of acc k)" for k
      using np by (simp add: assign_member_def map_of_update)
    show ?thesis
    proof (intro conjI impI)
      assume f: "f \<in> set (g # rest) \<and> ends_with f ''.db''"
      show "map_of (backup_files h d s (g # rest) acc) (remove_first ''.db'' f) =
          Some (chain_backup h (the (map_of (rb_files s) (path_join [chainPath d, f]))))"
      proof (cases "f = g")
        case True
        then show ?thesis unfolding step using IH(2) [of "remove_first ''.db'' g"] fresh acc c by simp
      next
        case False
        then show ?thesis unfolding step using IH(1) [of f] f by simp
      qed
    next
      assume k: "k \<notin> remove_first ''.db'' ` {f \<in> set (g # rest). ends_with f ''.db''}"
      then have "k \<notin> remove_first ''.db'' ` {f \<in> set rest. ends_with f ''.db''}" "k \<noteq> remove_first ''.db'' g" using True by auto
      then show "map_of (backup_files h d s (g # rest) acc) k = map_of acc k" unfolding step using IH(2) [of k] acc by simp
    qed
  qed
qed

lemma snapshot_wf:
  assumes "\<And>p. rh_read_fails h p = None"
  shows "json_wf (snapshot_value h d desc t s)"
proof -
  have chain: "json_wf (backupChains h d s)"
  proof (cases "rb_readdir h (chainPath d) s")
    case (Inl e)
    then show ?thesis by (simp add: backupChains_def)
  next
    case (Inr names)
    have "backups h (backup_files h d s names [])" by (rule backup_files_backups) (simp add: backups_def)
    then show ?thesis by (auto simp: backupChains_def Inr backups_def list_all_iff chain_backup_def)
  qed
  have "json_wf (getCurrentVersion h s)"
  proof -
    have field: "json_wf v \<Longrightarrow> jfield v k = Some w \<Longrightarrow> json_wf w" for v k w
      by (cases v) (auto simp: list_all_iff dest: map_of_SomeD)
    have parsed: "parse_json b raw = Inr v \<Longrightarrow> json_wf v" for b raw v
      by (auto simp: parse_json_def dest: JSON_parse_wf split: option.splits)
    show ?thesis
      by (auto simp: getCurrentVersion_def js_truthy_def rbind_Inr_iff split: sum.split option.splits dest: parsed field)
  qed
  with chain show ?thesis
    by (simp add: snapshot_value_def Let_def backupConfig_def list_all_iff split: sum.split)
qed

text \<open>What was written is loaded again as long as its file is there.\<close>

lemma snapshot_loads:
  assumes "\<And>p. rh_read_fails h p = None"
    and "map_of (rb_files s2) (snapshot_file d i) = Some (JSON_stringify2 (snapshot_value h d desc t s))"
  shows "load_snapshot h d i s2 = Inr (snapshot_value h d desc t s)"
proof -
  let ?v = "snapshot_value h d desc t s"
  have "parse_json (rh_blob h) (JSON_stringify2 ?v) = Inr ?v"
    by (simp add: parse_json_def parse_stringify2 snapshot_wf [OF assms(1)])
  moreover have "?v \<noteq> JNull" "jfield ?v ''checksum'' = Some (JStr (computeChecksum h ?v))"
    by (simp_all add: snapshot_value_def Let_def computeChecksum_def)
  ultimately show ?thesis using assms by (simp add: load_snapshot_def rb_read_def)
qed

lemma snapshot_members:
  "jfield (snapshot_value h d desc t s) ''chains'' = Some (backupChains h d s)"
  "jfield (snapshot_value h d desc t s) ''config'' = Some (backupConfig h s)"
  "jfield (snapshot_value h d desc t s) ''timestamp'' = Some (JNum t)"
  by (simp_all add: snapshot_value_def Let_def)

section \<open>Listing and writing back\<close>

lemma readdir_names:
  assumes "\<And>p. rh_read_fails h p = None"
  shows "\<exists>names. rb_readdir h dir s = Inr names \<and> (wf_map (rb_files s) \<longrightarrow> distinct names) \<and>
    (\<forall>f. f \<in> set names \<longleftrightarrow> f \<noteq> '''' \<and> CHR ''/'' \<notin> set f \<and> map_of (rb_files s) (dir @ ''/'' @ f) \<noteq> None)"
proof -
  let ?ps = "filter (\<lambda>p. starts_with p (dir @ ''/'')) (keys (rb_files s))"
  let ?names = "filter (\<lambda>n. n \<noteq> '''' \<and> CHR ''/'' \<notin> set n) (map (drop (length dir + 1)) ?ps)"
  have form: "p = dir @ ''/'' @ drop (length dir + 1) p" if "p \<in> set ?ps" for p
    using that append_take_drop_id [of "length dir + 1" p] by (auto simp: starts_with_def)
  have "inj_on (drop (length dir + 1)) (set ?ps)" by (rule inj_onI) (metis form)
  then have "distinct (map (drop (length dir + 1)) ?ps)" if "wf_map (rb_files s)"
    using that by (simp add: distinct_map wf_map_def)
  then have "wf_map (rb_files s) \<longrightarrow> distinct ?names" by simp
  moreover have "f \<in> set ?names \<longleftrightarrow> f \<noteq> '''' \<and> CHR ''/'' \<notin> set f \<and> map_of (rb_files s) (dir @ ''/'' @ f) \<noteq> None" for f
  proof -
    have "f \<in> drop (length dir + 1) ` set ?ps \<longleftrightarrow> dir @ ''/'' @ f \<in> set (keys (rb_files s))"
    proof
      assume "f \<in> drop (length dir + 1) ` set ?ps"
      then obtain p where "p \<in> set ?ps" "f = drop (length dir + 1) p" by blast
      with form [of p] show "dir @ ''/'' @ f \<in> set (keys (rb_files s))" by simp
    next
      assume "dir @ ''/'' @ f \<in> set (keys (rb_files s))"
      then have "dir @ ''/'' @ f \<in> set ?ps" by (simp add: starts_with_def)
      moreover have "drop (length dir + 1) (dir @ ''/'' @ f) = f" by simp
      ultimately show "f \<in> drop (length dir + 1) ` set ?ps" by (metis imageI)
    qed
    then show ?thesis by (auto simp: keys_def map_of_eq_None_iff)
  qed
  ultimately show ?thesis using assms by (simp add: rb_readdir_def del: filter_map)
qed

lemma restore_chains_ok:
  assumes "\<And>p. rh_write_fails h p = None" and "\<And>x. bh_unbase64 (rh_blob h) (bh_base64 (rh_blob h) x) = x"
    and "distinct (map (chain_file d \<circ> fst) ns)"
  shows "\<exists>s'. restore_chains h d (map (\<lambda>(n, c). (n, chain_backup h c)) ns) s = (Inr (), s') \<and>
    (\<forall>p. map_of (rb_files s') p = (case map_of (map (\<lambda>(n, c). (chain_file d n, c)) ns) p of Some c \<Rightarrow> Some c | None \<Rightarrow> map_of (rb_files s) p))"
  using assms(3)
proof (induction ns arbitrary: s)
  case Nil
  then show ?case by simp
next
  case (Cons nc ns)
  obtain n c where nc: "nc = (n, c)" by (cases nc)
  let ?s = "s\<lparr>rb_files := AList.update (chain_file d n) c (rb_files s)\<rparr>"
  have tail: "distinct (map (chain_file d \<circ> fst) ns)" using Cons.prems by (simp add: comp_def)
  obtain s' where s': "restore_chains h d (map (\<lambda>(n, c). (n, chain_backup h c)) ns) ?s = (Inr (), s')"
      "\<forall>p. map_of (rb_files s') p = (case map_of (map (\<lambda>(n, c). (chain_file d n, c)) ns) p of Some c \<Rightarrow> Some c | None \<Rightarrow> map_of (rb_files ?s) p)"
    using Cons.IH [OF tail, of ?s] by blast
  have "chain_file d n \<notin> fst ` set (map (\<lambda>(n, c). (chain_file d n, c)) ns)" using Cons.prems nc by (force simp: image_iff)
  then have "map_of (map (\<lambda>(n, c). (chain_file d n, c)) ns) (chain_file d n) = None" by (simp add: map_of_eq_None_iff)
  then have "map_of (rb_files s') p = (case map_of (map (\<lambda>(n, c). (chain_file d n, c)) (nc # ns)) p of Some c \<Rightarrow> Some c | None \<Rightarrow> map_of (rb_files s) p)" for p
    using s'(2) by (cases "p = chain_file d n") (simp_all add: nc map_of_update split: option.split)
  moreover have "restore_chains h d (map (\<lambda>(n, c). (n, chain_backup h c)) (nc # ns)) s = (Inr (), s')"
    using s'(1) assms(1,2) by (simp add: nc chain_backup_def buffer_from_def rb_write_def)
  ultimately show ?case by blast
qed

lemma restore_chains_stuck:
  assumes "\<And>x. bh_unbase64 (rh_blob h) (bh_base64 (rh_blob h) x) = x"
    and "(n, chain_backup h y) \<in> set es" and "rh_write_fails h (chain_file d n) = Some e"
  shows "\<exists>e' s'. restore_chains h d es s = (Inl e', s') \<and> (\<forall>p. p \<notin> chain_file d ` fst ` set es \<longrightarrow> map_of (rb_files s') p = map_of (rb_files s) p) \<and>
    (\<forall>p. map_of (rb_files s) p \<noteq> None \<longrightarrow> map_of (rb_files s') p \<noteq> None)"
  using assms(2)
proof (induction es arbitrary: s)
  case Nil
  then show ?case by simp
next
  case (Cons mb es)
  obtain m b where mb: "mb = (m, b)" by (cases mb)
  show ?case
  proof (cases "buffer_from (rh_blob h) (jfield b ''data'')")
    case (Inl e1)
    then show ?thesis by (auto simp: mb)
  next
    case (Inr data)
    show ?thesis
    proof (cases "jfield b ''checksum'' \<noteq> Some (JStr (bh_sha256 (rh_blob h) data)) \<or> rh_write_fails h (chain_file d m) \<noteq> None")
      case True
      then show ?thesis by (auto simp: mb Inr rb_write_def)
    next
      case False
      let ?s = "s\<lparr>rb_files := AList.update (chain_file d m) data (rb_files s)\<rparr>"
      have rec: "restore_chains h d (mb # es) s = restore_chains h d es ?s" using False by (simp add: mb Inr rb_write_def)
      have "m \<noteq> n" using False assms(3) by auto
      then have "(n, chain_backup h y) \<in> set es" using Cons.prems mb by auto
      from Cons.IH [OF this, of ?s] show ?thesis unfolding rec by (auto simp: mb map_of_update)
    qed
  qed
qed

section \<open>Going back\<close>

definition working_host :: "rollback_host \<Rightarrow> string \<Rightarrow> bool" where
  "working_host h d \<longleftrightarrow> plain_dir (chainPath d) \<and> plain_dir (snapshotDir d) \<and> (\<forall>p. rh_read_fails h p = None) \<and>
     (\<forall>x. bh_unbase64 (rh_blob h) (bh_base64 (rh_blob h) x) = x)"

lemma chain_names_iff:
  assumes "working_host h d"
  shows "f \<in> set (chain_names h d s) \<longleftrightarrow> ends_with f ''.db'' \<and> CHR ''/'' \<notin> set f \<and> map_of (rb_files s) (chainPath d @ ''/'' @ f) \<noteq> None"
proof -
  obtain names where "rb_readdir h (chainPath d) s = Inr names"
      "\<forall>f. f \<in> set names \<longleftrightarrow> f \<noteq> '''' \<and> CHR ''/'' \<notin> set f \<and> map_of (rb_files s) (chainPath d @ ''/'' @ f) \<noteq> None"
    using readdir_names [of h "chainPath d" s] assms by (auto simp: working_host_def)
  moreover have "\<not> ends_with '''' ''.db''" by (simp add: ends_with_def starts_with_def)
  ultimately show ?thesis by (auto simp: chain_names_def)
qed

lemma ends_with_split: "ends_with f p \<Longrightarrow> \<exists>g. f = g @ p"
proof -
  assume "ends_with f p"
  then have "rev f = rev p @ drop (length p) (rev f)"
    by (metis append_take_drop_id ends_with_def length_rev starts_with_def)
  then have "f = rev (drop (length p) (rev f)) @ p" by (metis rev_append rev_rev_ident)
  then show ?thesis by blast
qed

lemma chain_name_plain:
  assumes "working_host h d" and "f \<in> set (chain_names h d s)"
  shows "path_join [chainPath d, f] = chainPath d @ ''/'' @ f" and "plain_seg f"
proof -
  have f: "ends_with f ''.db''" "CHR ''/'' \<notin> set f" using assms chain_names_iff by blast+
  obtain g where "f = g @ ''.db''" using ends_with_split [OF f(1)] by blast
  then show "plain_seg f" using plain_db [of g] f(2) by simp
  then show "path_join [chainPath d, f] = chainPath d @ ''/'' @ f" using assms(1) by (simp add: path_join_plain working_host_def)
qed

lemma chain_backup_inj: "working_host h d \<Longrightarrow> chain_backup h x = chain_backup h y \<Longrightarrow> x = y"
  unfolding working_host_def chain_backup_def by (metis json.inject(3) json.inject(5) list.inject prod.inject)

lemma snapshot_entries:
  assumes "working_host h d"
  shows "\<exists>ns. backupChains h d s = JObj (map (\<lambda>(n, c). (n, chain_backup h c)) ns) \<and> distinct (map fst ns) \<and>
    fst ` set ns = remove_first ''.db'' ` set (chain_names h d s) - {''__proto__''}"
proof -
  obtain names where names: "rb_readdir h (chainPath d) s = Inr names"
    using readdir_names [of h "chainPath d" s] assms by (auto simp: working_host_def)
  let ?es = "backup_files h d s names []"
  have cn: "set (chain_names h d s) = {f \<in> set names. ends_with f ''.db''}" by (auto simp: chain_names_def names)
  have "backups h ?es" by (rule backup_files_backups) (simp add: backups_def)
  then have es: "distinct (map fst ?es)" "\<forall>kv \<in> set ?es. \<exists>y. snd kv = chain_backup h y" by (auto simp: backups_def list_all_iff)
  have "map_of (rb_files s) (path_join [chainPath d, f]) \<noteq> None" if "f \<in> set names" "ends_with f ''.db''" for f
    using that cn chain_name_plain(1) [OF assms, of f s] chain_names_iff [OF assms, of f s] by simp
  then have keys: "fst ` set ?es = remove_first ''.db'' ` set (chain_names h d s) - {''__proto__''}"
    using backup_files_names [of h names s d "[]"] assms by (simp add: working_host_def cn)
  obtain c where c: "\<And>kv. kv \<in> set ?es \<Longrightarrow> snd kv = chain_backup h (c kv)" using es(2) by metis
  let ?ns = "map (\<lambda>kv. (fst kv, c kv)) ?es"
  have "map (\<lambda>(n, c). (n, chain_backup h c)) ?ns = ?es" using c by (auto simp: comp_def intro!: map_idI)
  moreover have "distinct (map fst ?ns)" "fst ` set ?ns = fst ` set ?es" using es(1) by (simp_all add: comp_def image_image)
  ultimately show ?thesis using keys by (metis (no_types, lifting) backupChains_def names sum.simps(6))
qed

lemma entry_no_slash: "working_host h d \<Longrightarrow> n \<in> remove_first ''.db'' ` set (chain_names h d s) \<Longrightarrow> CHR ''/'' \<notin> set n"
  by (auto simp: chain_names_iff dest!: subsetD [OF set_remove_first])

lemma chain_file_inj: "working_host h d \<Longrightarrow> CHR ''/'' \<notin> set m \<Longrightarrow> CHR ''/'' \<notin> set n \<Longrightarrow> chain_file d m = chain_file d n \<longleftrightarrow> m = n"
  by (simp add: chain_file_plain working_host_def)

text \<open>Names from which \<open>.db\<close> is removed at the end, and that are no prototype.\<close>

definition proper_chain :: "string \<Rightarrow> bool" where
  "proper_chain f \<longleftrightarrow> remove_first ''.db'' f @ ''.db'' = f \<and> remove_first ''.db'' f \<noteq> ''__proto__''"

lemma snapshot_contents:
  assumes "working_host h d" and "wf_map (rb_files s)" and "\<forall>f \<in> set (chain_names h d s). proper_chain f"
    and "backupChains h d s = JObj (map (\<lambda>(n, c). (n, chain_backup h c)) ns)" and "f \<in> set (chain_names h d s)"
  shows "(remove_first ''.db'' f, the (map_of (rb_files s) (path_join [chainPath d, f]))) \<in> set ns"
proof -
  obtain names where names: "rb_readdir h (chainPath d) s = Inr names" "distinct names"
    using readdir_names [of h "chainPath d" s] assms(1,2) by (auto simp: working_host_def)
  have cn: "set (chain_names h d s) = {f \<in> set names. ends_with f ''.db''}" by (auto simp: chain_names_def names(1))
  have inj: "inj_on (remove_first ''.db'') {f \<in> set names. ends_with f ''.db''}"
    using assms(3) unfolding cn [symmetric] proper_chain_def by (intro inj_onI) metis
  have np: "''__proto__'' \<notin> remove_first ''.db'' ` {f \<in> set names. ends_with f ''.db''}"
    using assms(3) unfolding cn [symmetric] proper_chain_def by auto
  have there: "map_of (rb_files s) (path_join [chainPath d, f]) \<noteq> None" if "f \<in> set names" "ends_with f ''.db''" for f
    using that cn chain_name_plain(1) [OF assms(1), of f s] chain_names_iff [OF assms(1), of f s] by simp
  have "map_of (backup_files h d s names []) (remove_first ''.db'' f) =
      Some (chain_backup h (the (map_of (rb_files s) (path_join [chainPath d, f]))))"
    using backup_files_values [where h = h and d = d and s = s and names = names and f = f and acc = "[]", OF _ there inj names(2) np] assms(1,5)
    by (simp add: working_host_def cn)
  then have "(remove_first ''.db'' f, chain_backup h (the (map_of (rb_files s) (path_join [chainPath d, f])))) \<in> set (backup_files h d s names [])"
    by (rule map_of_SomeD)
  moreover have "backup_files h d s names [] = map (\<lambda>(n, c). (n, chain_backup h c)) ns" using assms(4) by (simp add: backupChains_def names(1))
  ultimately show ?thesis using chain_backup_inj [OF assms(1)] by auto
qed

lemma same_files:
  fixes s s' :: rollback_state and h :: rollback_host
  assumes "rb_files s' = rb_files s"
  shows "chain_names h d s' = chain_names h d s" and "backupChains h d s' = backupChains h d s" and "backupConfig h s' = backupConfig h s"
proof -
  have read: "rb_read h p s' = rb_read h p s" for p unfolding rb_read_def assms ..
  have dir: "rb_readdir h p s' = rb_readdir h p s" for p unfolding rb_readdir_def assms ..
  have "backup_files h d s' names acc = backup_files h d s names acc" for names acc
    by (induction names arbitrary: acc) (simp_all add: read split: sum.split)
  note files = this
  show "chain_names h d s' = chain_names h d s" "backupChains h d s' = backupChains h d s" "backupConfig h s' = backupConfig h s"
    unfolding chain_names_def backupChains_def backupConfig_def read dir files by simp_all
qed

definition snapshot_id :: "rollback_host \<Rightarrow> rollback_state \<Rightarrow> string" where
  "snapshot_id h s = ''snapshot-'' @ show_int (rh_now h (rb_clock s))"

lemma createSnapshot_ok:
  assumes "rh_write_fails h (snapshot_file d (snapshot_id h s)) = None"
  shows "\<exists>s1. createSnapshot h d desc s = (Inr (snapshot_id h s), s1) \<and> rb_files s1 =
      AList.update (snapshot_file d (snapshot_id h s)) (JSON_stringify2 (snapshot_value h d desc (rh_now h (rb_clock s)) (snd (tick h s)))) (rb_files s)"
  using assms by (simp add: createSnapshot_def tick_def Let_def rb_write_def snapshot_id_def)

definition chain_paths :: "rollback_host \<Rightarrow> string \<Rightarrow> rollback_state \<Rightarrow> string set" where
  "chain_paths h d s = (\<lambda>f. chainPath d @ ''/'' @ f) ` set (chain_names h d s)"

lemma chain_lookup:
  assumes "working_host h d" and "wf_map (rb_files s)" and "\<forall>f \<in> set (chain_names h d s). proper_chain f"
    and "backupChains h d s = JObj (map (\<lambda>(n, c). (n, chain_backup h c)) ns)" and "distinct (map (chain_file d \<circ> fst) ns)"
    and "fst ` set ns = remove_first ''.db'' ` set (chain_names h d s) - {''__proto__''}"
  shows "map_of (map (\<lambda>(n, c). (chain_file d n, c)) ns) p = (if p \<in> chain_paths h d s then map_of (rb_files s) p else None)"
proof -
  have path: "chain_file d (remove_first ''.db'' f) = chainPath d @ ''/'' @ f" if "f \<in> set (chain_names h d s)" for f
    using assms(3) that chain_name_plain(1) [OF assms(1) that] by (auto simp: chain_file_def proper_chain_def)
  have dist: "distinct (map fst (map (\<lambda>(n, c). (chain_file d n, c)) ns))" using assms(5) by (simp add: comp_def case_prod_beta)
  show ?thesis
  proof (cases "p \<in> chain_paths h d s")
    case True
    then obtain f where f: "f \<in> set (chain_names h d s)" "p = chainPath d @ ''/'' @ f" by (auto simp: chain_paths_def)
    have "(chain_file d (remove_first ''.db'' f), the (map_of (rb_files s) p)) \<in> set (map (\<lambda>(n, c). (chain_file d n, c)) ns)"
      using snapshot_contents [OF assms(1-4) f(1)] chain_name_plain(1) [OF assms(1) f(1)] f(2) by force
    then have "map_of (map (\<lambda>(n, c). (chain_file d n, c)) ns) p = Some (the (map_of (rb_files s) p))"
      using dist path [OF f(1)] f(2) by (metis map_of_is_SomeI)
    then show ?thesis using True f chain_names_iff [OF assms(1), of f s] by auto
  next
    case False
    have "p \<notin> fst ` set (map (\<lambda>(n, c). (chain_file d n, c)) ns)"
    proof
      assume "p \<in> fst ` set (map (\<lambda>(n, c). (chain_file d n, c)) ns)"
      then obtain n where "n \<in> fst ` set ns" "p = chain_file d n" by force
      then show False using assms(6) path False by (auto simp: chain_paths_def)
    qed
    then show ?thesis using False by (simp add: map_of_eq_None_iff del: set_map)
  qed
qed

lemma restore_snapshot:
  fixes s :: rollback_state
  assumes "working_host h d" and "\<And>p. rh_write_fails h p = None" and "wf_map (rb_files s0)"
    and "\<forall>f \<in> set (chain_names h d s0). proper_chain f"
  shows "\<exists>s'. restore_all h d (snapshot_value h d desc t s0) s = (Inr (), s') \<and>
    (\<forall>p. map_of (rb_files s') p =
      (if p \<in> chain_paths h d s0 \<or> p = ''./config.json'' \<and> map_of (rb_files s0) p \<noteq> None then map_of (rb_files s0) p else map_of (rb_files s) p))"
proof -
  obtain ns where ns: "backupChains h d s0 = JObj (map (\<lambda>(n, c). (n, chain_backup h c)) ns)" "distinct (map fst ns)"
      "fst ` set ns = remove_first ''.db'' ` set (chain_names h d s0) - {''__proto__''}"
    using snapshot_entries [OF assms(1)] by blast
  have "CHR ''/'' \<notin> set n" if "n \<in> fst ` set ns" for n using that ns(3) entry_no_slash [OF assms(1)] by blast
  then have "inj_on (chain_file d) (fst ` set ns)" by (intro inj_onI) (simp add: chain_file_inj [OF assms(1)])
  then have dist: "distinct (map (chain_file d \<circ> fst) ns)" using ns(2) by (simp add: distinct_map comp_inj_on inj_on_imageI)
  have b64: "\<And>x. bh_unbase64 (rh_blob h) (bh_base64 (rh_blob h) x) = x" using assms(1) by (simp add: working_host_def)
  obtain s1 where s1: "restore_chains h d (map (\<lambda>(n, c). (n, chain_backup h c)) ns) s = (Inr (), s1)"
      "\<forall>p. map_of (rb_files s1) p = (if p \<in> chain_paths h d s0 then map_of (rb_files s0) p else map_of (rb_files s) p)"
  proof -
    have present: "map_of (rb_files s0) p \<noteq> None" if "p \<in> chain_paths h d s0" for p
      using that chain_names_iff [OF assms(1)] by (auto simp: chain_paths_def)
    obtain s1 where s1: "restore_chains h d (map (\<lambda>(n, c). (n, chain_backup h c)) ns) s = (Inr (), s1)"
        "\<And>p. map_of (rb_files s1) p = (case if p \<in> chain_paths h d s0 then map_of (rb_files s0) p else None of
           Some c \<Rightarrow> Some c | None \<Rightarrow> map_of (rb_files s) p)"
      using restore_chains_ok [OF assms(2) b64 dist, of s] unfolding chain_lookup [OF assms(1,3,4) ns(1) dist ns(3)] by blast
    have eq: "map_of (rb_files s1) p = (if p \<in> chain_paths h d s0 then map_of (rb_files s0) p else map_of (rb_files s) p)" for p
      using s1(2) [of p] present [of p] by (cases "p \<in> chain_paths h d s0") (auto split: option.splits)
    show ?thesis by (rule that [OF s1(1)]) (rule allI, rule eq)
  qed
  have noc: "''./config.json'' \<notin> chain_paths h d s0"
    using assms(1) chain_name_plain(2) [OF assms(1)] plain_not_dotted by (auto simp: chain_paths_def working_host_def) metis
  have all: "restore_all h d (snapshot_value h d desc t s0) s = restore_config h (Some (backupConfig h s0)) s1"
    by (simp add: restore_all_def snapshot_members entries_def ns(1) s1(1))
  show ?thesis
  proof (cases "map_of (rb_files s0) ''./config.json''")
    case None
    then have "backupConfig h s0 = JNull" using assms(1) by (simp add: backupConfig_def rb_read_def working_host_def)
    then show ?thesis using all s1(2) None by (auto simp: restore_config_def js_truthy_def)
  next
    case (Some c)
    then have "backupConfig h s0 = JObj [(''data'', JStr c), (''checksum'', JStr (bh_sha256 (rh_blob h) c))]"
      using assms(1) by (simp add: backupConfig_def rb_read_def working_host_def)
    then show ?thesis using all s1(2) Some assms(2) noc by (auto simp: restore_config_def js_truthy_def rb_write_def map_of_update)
  qed
qed

lemma tick_files: "rb_files (snd (tick h s)) = rb_files s"
  by (simp add: tick_def)

text \<open>
  C12: going back to a snapshot that was taken while every chain file could be read succeeds when the writes do: every
  chain file and the configuration have the contents they had then, whatever was done to them since, and every other file
  except the backup taken first is left as it is: a chain created since is not removed.
\<close>

theorem snapshot_rollback_restores:
  assumes "working_host h d" and "\<And>p. rh_write_fails h p = None" and "wf_map (rb_files s0)"
    and "\<forall>f \<in> set (chain_names h d s0). proper_chain f" and "createSnapshot h d desc s0 = (Inr i, s1)"
    and "map_of (rb_files s2) (snapshot_file d i) = map_of (rb_files s1) (snapshot_file d i)"
    and "rh_iso h (Some (JNum (rh_now h (rb_clock s0)))) = Inr ts"
  shows "\<exists>r s3. rollback h d (Suc fuel) i s2 = Some (r, s3) \<and> rr_success r \<and>
    (\<forall>p. p \<in> chain_paths h d s0 \<or> p = ''./config.json'' \<and> map_of (rb_files s0) p \<noteq> None \<longrightarrow> map_of (rb_files s3) p = map_of (rb_files s0) p) \<and>
    (\<forall>p. p \<notin> chain_paths h d s0 \<and> (p = ''./config.json'' \<longrightarrow> map_of (rb_files s0) p = None) \<and>
       p \<noteq> snapshot_file d (snapshot_id h s2) \<longrightarrow> map_of (rb_files s3) p = map_of (rb_files s2) p)"
proof -
  let ?t0 = "snd (tick h s0)"
  let ?v = "snapshot_value h d desc (rh_now h (rb_clock s0)) ?t0"
  have i: "i = snapshot_id h s0" and "map_of (rb_files s1) (snapshot_file d i) = Some (JSON_stringify2 ?v)"
    using createSnapshot_ok [OF assms(2), of d desc s0] assms(5) by (auto simp: map_of_update)
  then have load: "load_snapshot h d i s2 = Inr ?v"
    using assms(1,6) by (intro snapshot_loads) (simp_all add: working_host_def)
  obtain s2' where s2': "createSnapshot h d (Some ''Pre-rollback backup'') s2 = (Inr (snapshot_id h s2), s2')"
      "\<And>p. p \<noteq> snapshot_file d (snapshot_id h s2) \<Longrightarrow> map_of (rb_files s2') p = map_of (rb_files s2) p"
    using createSnapshot_ok [OF assms(2), of d "Some ''Pre-rollback backup''" s2] by (auto simp: map_of_update)
  note same = same_files [OF tick_files [of h s0]]
  have paths: "chain_paths h d ?t0 = chain_paths h d s0" by (simp add: chain_paths_def same)
  obtain s3 where s3: "restore_all h d ?v s2' = (Inr (), s3)"
      "\<And>p. map_of (rb_files s3) p = (if p \<in> chain_paths h d s0 \<or> p = ''./config.json'' \<and> map_of (rb_files s0) p \<noteq> None
        then map_of (rb_files s0) p else map_of (rb_files s2') p)"
    using restore_snapshot [OF assms(1,2), of ?t0 desc "rh_now h (rb_clock s0)" s2'] assms(3,4)
    unfolding tick_files same paths by blast
  have "rollback h d (Suc fuel) i s2 = Some (rolled_back h i ?v, s3)" "rr_success (rolled_back h i ?v)"
    using assms(7) by (simp_all add: load s2'(1) s3(1) rolled_back_def snapshot_members)
  then show ?thesis using s3(2) s2'(2) by auto
qed

lemma no_chain_file:
  assumes "working_host h d"
  shows "snapshot_file d (snapshot_id h s) \<notin> chain_file d ` (remove_first ''.db'' ` set (chain_names h d s') - X)"
proof
  assume "snapshot_file d (snapshot_id h s) \<in> chain_file d ` (remove_first ''.db'' ` set (chain_names h d s') - X)"
  then obtain n where n: "snapshot_file d (snapshot_id h s) = chain_file d n" "n \<in> remove_first ''.db'' ` set (chain_names h d s')"
    by (elim imageE) simp
  have "chain_file d n \<noteq> snapshot_file d (snapshot_id h s)"
    unfolding snapshot_id_def using assms
    by (intro chain_not_snapshot entry_no_slash [OF assms n(2)] snapshot_id_plain) (simp_all add: working_host_def)
  then show False using n(1) by simp
qed

lemma rollback_stuck:
  assumes "working_host h d" and "\<And>t. rh_write_fails h (snapshot_file d (''snapshot-'' @ show_int t)) = None"
    and "proper_chain f" and "rh_write_fails h (chainPath d @ ''/'' @ f) = Some e"
    and "load_snapshot h d i s = Inr (snapshot_value h d desc t s')" and "f \<in> set (chain_names h d s')" and "f \<in> set (chain_names h d s)"
  shows "rollback h d fuel i s = None"
  using assms(5-7)
proof (induction fuel arbitrary: i s desc t s')
  case 0
  then show ?case by simp
next
  case (Suc fuel)
  let ?n = "remove_first ''.db'' f"
  let ?s = "snd (tick h s)"
  let ?t = "rh_now h (rb_clock s)"
  have writable: "rh_write_fails h (snapshot_file d (snapshot_id h s)) = None" unfolding snapshot_id_def by (rule assms(2))
  obtain s1 where s1: "createSnapshot h d (Some ''Pre-rollback backup'') s = (Inr (snapshot_id h s), s1)"
      "rb_files s1 = AList.update (snapshot_file d (snapshot_id h s)) (JSON_stringify2 (snapshot_value h d (Some ''Pre-rollback backup'') ?t ?s)) (rb_files s)"
    using createSnapshot_ok [OF writable, of "Some ''Pre-rollback backup''"] by blast
  obtain ns where ns: "backupChains h d s' = JObj (map (\<lambda>(n, c). (n, chain_backup h c)) ns)"
      "fst ` set ns = remove_first ''.db'' ` set (chain_names h d s') - {''__proto__''}"
    using snapshot_entries [OF assms(1)] by blast
  have b64: "\<And>x. bh_unbase64 (rh_blob h) (bh_base64 (rh_blob h) x) = x" using assms(1) by (simp add: working_host_def)
  have "chain_file d ?n = chainPath d @ ''/'' @ f"
    using assms(3) chain_name_plain(1) [OF assms(1) Suc.prems(2)] by (simp add: chain_file_def proper_chain_def)
  then have fails: "rh_write_fails h (chain_file d ?n) = Some e" using assms(4) by simp
  have "?n \<in> fst ` set ns" using ns(2) Suc.prems(2) assms(3) by (auto simp: proper_chain_def)
  then obtain y where mem: "(?n, chain_backup h y) \<in> set (map (\<lambda>(n, c). (n, chain_backup h c)) ns)" by force
  obtain e' s2 where s2: "restore_chains h d (map (\<lambda>(n, c). (n, chain_backup h c)) ns) s1 = (Inl e', s2)"
      "\<forall>p. p \<notin> chain_file d ` fst ` set (map (\<lambda>(n, c). (n, chain_backup h c)) ns) \<longrightarrow> map_of (rb_files s2) p = map_of (rb_files s1) p"
      "\<forall>p. map_of (rb_files s1) p \<noteq> None \<longrightarrow> map_of (rb_files s2) p \<noteq> None"
    using restore_chains_stuck [OF b64 mem fails, of s1] by blast
  have "fst ` set (map (\<lambda>(n, c). (n, chain_backup h c)) ns) = fst ` set ns" by force
  then have "map_of (rb_files s2) (snapshot_file d (snapshot_id h s)) = map_of (rb_files s1) (snapshot_file d (snapshot_id h s))"
    using s2(2) no_chain_file [OF assms(1)] ns(2) by metis
  then have "load_snapshot h d (snapshot_id h s) s2 = Inr (snapshot_value h d (Some ''Pre-rollback backup'') ?t ?s)"
    using assms(1) s1(2) by (intro snapshot_loads) (simp_all add: working_host_def map_of_update)
  moreover have "f \<in> set (chain_names h d ?s)" using Suc.prems(3) by (simp add: same_files(1) [OF tick_files])
  moreover have "map_of (rb_files s2) (chainPath d @ ''/'' @ f) \<noteq> None" 
    using Suc.prems(3) s1(2) s2(3) chain_names_iff [OF assms(1), of f s] by (auto simp: map_of_update)
  then have "f \<in> set (chain_names h d s2)" using Suc.prems(3) by (simp add: chain_names_iff [OF assms(1)])
  ultimately have "rollback h d fuel (snapshot_id h s) s2 = None" by (rule Suc.IH)
  then show ?case using Suc.prems(1) s1(1) s2(1) by (simp add: restore_all_def snapshot_members entries_def ns(1))
qed

text \<open>
  C24: when one chain file of a snapshot is there and cannot be written, while snapshots can, going back to the snapshot
  does not return, however often it is left to call itself: every failed restore goes back to the backup it took itself,
  which holds the same chain.
\<close>

theorem rollback_never_returns:
  assumes "working_host h d" and "\<And>t. rh_write_fails h (snapshot_file d (''snapshot-'' @ show_int t)) = None"
    and "proper_chain f" and "rh_write_fails h (chainPath d @ ''/'' @ f) = Some e"
    and "createSnapshot h d desc s0 = (Inr i, s1)" and "f \<in> set (chain_names h d s0)"
    and "map_of (rb_files s2) (snapshot_file d i) = map_of (rb_files s1) (snapshot_file d i)" and "f \<in> set (chain_names h d s2)"
  shows "rollback h d fuel i s2 = None"
proof -
  have writable: "rh_write_fails h (snapshot_file d (snapshot_id h s0)) = None" unfolding snapshot_id_def by (rule assms(2))
  have "map_of (rb_files s1) (snapshot_file d i) =
      Some (JSON_stringify2 (snapshot_value h d desc (rh_now h (rb_clock s0)) (snd (tick h s0))))"
    using createSnapshot_ok [OF writable, of desc] assms(5) by (auto simp: map_of_update)
  then have load: "load_snapshot h d i s2 = Inr (snapshot_value h d desc (rh_now h (rb_clock s0)) (snd (tick h s0)))"
    using assms(1,7) by (intro snapshot_loads) (simp_all add: working_host_def)
  show ?thesis by (rule rollback_stuck [OF assms(1-4) load _ assms(8)]) (simp add: assms(6) same_files(1) [OF tick_files])
qed

section \<open>A host and a directory with one chain\<close>

definition plain_rollback :: rollback_host where
  "plain_rollback = \<lparr>rh_blob = demo_blob_host, rh_now = int, rh_iso = (\<lambda>_. Inr ''then''), rh_to_string = (\<lambda>_. ''id''),
    rh_read_fails = (\<lambda>_. None), rh_write_fails = (\<lambda>_. None), rh_missing = (\<lambda>_. ''ENOENT'')\<rparr>"

definition locked_rollback :: rollback_host where
  "locked_rollback = plain_rollback\<lparr>rh_write_fails := (\<lambda>p. if p = ''data/chains/main.db'' then Some ''EACCES'' else None)\<rparr>"

definition one_chain :: rollback_state where
  "one_chain = \<lparr>rb_files = [(''data/chains/main.db'', ''old''), (''./config.json'', ''on'')], rb_clock = 0\<rparr>"

definition with_snapshot :: "rollback_host \<Rightarrow> rollback_state" where
  "with_snapshot h = snd (createSnapshot h ''data'' None one_chain)"

definition written_over :: "rollback_state \<Rightarrow> rollback_state" where
  "written_over s = s\<lparr>rb_files := AList.update ''data/chains/main.db'' ''new'' (rb_files s)\<rparr>"

lemma data_paths: "chainPath ''data'' = ''data/chains''" "snapshotDir ''data'' = ''data/snapshots''"
  "snapshot_file ''data'' ''snapshot-0'' = ''data/snapshots/snapshot-0.json''"
  by code_simp+

lemma data_plain: "plain_dir (chainPath ''data'')" "plain_dir (snapshotDir ''data'')"
proof -
  have "chainPath ''data'' = join ''/'' [''data'', ''chains'']" "snapshotDir ''data'' = join ''/'' [''data'', ''snapshots'']"
    by code_simp+
  moreover have "list_all plain_seg [''data'', ''chains'']" "list_all plain_seg [''data'', ''snapshots'']" by code_simp+
  ultimately show "plain_dir (chainPath ''data'')" "plain_dir (snapshotDir ''data'')" unfolding plain_dir_def by blast+
qed

lemma data_hosts: "working_host plain_rollback ''data''" "working_host locked_rollback ''data''"
  by (simp_all add: working_host_def data_plain plain_rollback_def locked_rollback_def demo_blob_host_def)

lemma one_chain_names: "chain_names plain_rollback ''data'' one_chain = [''main.db'']" "chain_names locked_rollback ''data'' one_chain = [''main.db'']"
  by code_simp+

lemma main_proper: "proper_chain ''main.db''"
  by code_simp

lemma one_chain_id: "snapshot_id plain_rollback one_chain = ''snapshot-0''" "snapshot_id locked_rollback one_chain = ''snapshot-0''"
  by code_simp+

lemma locked_snapshots: "rh_write_fails locked_rollback (snapshot_file ''data'' (''snapshot-'' @ show_int t)) = None"
proof -
  have "snapshot_file ''data'' (''snapshot-'' @ show_int t) = ''data/snapshots/'' @ ''snapshot-'' @ show_int t @ ''.json''"
    using snapshot_file_plain [OF data_plain(2) snapshot_id_plain, of t] by (simp add: data_paths)
  then show ?thesis by (simp add: locked_rollback_def)
qed

lemma written_over_snapshot: "map_of (rb_files (written_over s)) (snapshot_file ''data'' ''snapshot-0'') = map_of (rb_files s) (snapshot_file ''data'' ''snapshot-0'')"
  by (simp add: written_over_def map_of_update data_paths)

lemma with_snapshot_created:
  "createSnapshot plain_rollback ''data'' None one_chain = (Inr ''snapshot-0'', with_snapshot plain_rollback)"
  "createSnapshot locked_rollback ''data'' None one_chain = (Inr ''snapshot-0'', with_snapshot locked_rollback)"
proof -
  have w: "rh_write_fails plain_rollback p = None" for p by (simp add: plain_rollback_def)
  have l: "rh_write_fails locked_rollback (snapshot_file ''data'' ''snapshot-0'') = None" by (simp add: locked_rollback_def data_paths)
  show "createSnapshot plain_rollback ''data'' None one_chain = (Inr ''snapshot-0'', with_snapshot plain_rollback)"
    using createSnapshot_ok [of plain_rollback "''data''" one_chain None] by (auto simp: one_chain_id with_snapshot_def w)
  show "createSnapshot locked_rollback ''data'' None one_chain = (Inr ''snapshot-0'', with_snapshot locked_rollback)"
    using createSnapshot_ok [of locked_rollback "''data''" one_chain None] by (auto simp: one_chain_id with_snapshot_def l)
qed

lemma locked_names: "''main.db'' \<in> set (chain_names locked_rollback ''data'' (written_over (with_snapshot locked_rollback)))"
  by (simp add: chain_names_iff [OF data_hosts(2)] written_over_def map_of_update data_paths) code_simp

theorem snapshot_rollback_restores_witness:
  "\<exists>r s3. rollback plain_rollback ''data'' 1 ''snapshot-0'' (written_over (with_snapshot plain_rollback)) = Some (r, s3) \<and> rr_success r \<and>
     map_of (rb_files s3) ''data/chains/main.db'' = Some ''old'' \<and> map_of (rb_files s3) ''./config.json'' = Some ''on''"
proof -
  have facts: "wf_map (rb_files one_chain)" "\<And>p. rh_write_fails plain_rollback p = None"
      "rh_iso plain_rollback (Some (JNum (rh_now plain_rollback (rb_clock one_chain)))) = Inr ''then''"
      "map_of (rb_files one_chain) ''data/chains/main.db'' = Some ''old''" "map_of (rb_files one_chain) ''./config.json'' = Some ''on''"
    by (simp_all add: plain_rollback_def one_chain_def wf_map_def keys_def)
  have proper: "\<forall>f \<in> set (chain_names plain_rollback ''data'' one_chain). proper_chain f" by (simp add: one_chain_names main_proper)
  have path: "''data/chains/main.db'' \<in> chain_paths plain_rollback ''data'' one_chain"
    by (simp add: chain_paths_def one_chain_names data_paths)
  obtain r s3 where r: "rollback plain_rollback ''data'' (Suc 0) ''snapshot-0'' (written_over (with_snapshot plain_rollback)) = Some (r, s3)" "rr_success r"
      "\<forall>p. p \<in> chain_paths plain_rollback ''data'' one_chain \<or> p = ''./config.json'' \<and> map_of (rb_files one_chain) p \<noteq> None \<longrightarrow>
        map_of (rb_files s3) p = map_of (rb_files one_chain) p"
    using snapshot_rollback_restores [OF data_hosts(1) facts(2,1) proper with_snapshot_created(1) written_over_snapshot facts(3)] by blast
  have "map_of (rb_files s3) ''data/chains/main.db'' = Some ''old''" using r(3) path facts(4) by metis
  moreover have "map_of (rb_files s3) ''./config.json'' = Some ''on''"
    using spec [OF r(3), of "''./config.json''"] unfolding facts(5) by blast
  ultimately show ?thesis using r(1,2) by (metis One_nat_def)
qed

theorem rollback_never_returns_witness:
  "rollback locked_rollback ''data'' 5 ''snapshot-0'' (written_over (with_snapshot locked_rollback)) = None"
proof (rule rollback_never_returns [OF data_hosts(2) locked_snapshots main_proper _ with_snapshot_created(2) _ written_over_snapshot locked_names])
  show "rh_write_fails locked_rollback (chainPath ''data'' @ ''/'' @ ''main.db'') = Some ''EACCES''"
    by (simp add: data_paths locked_rollback_def)
  show "''main.db'' \<in> set (chain_names locked_rollback ''data'' one_chain)" by (simp add: one_chain_names)
qed

end
