(* ===== verification/ImportJson.thy ===== *)
theory ImportJson
  imports JsonRoundtrip Paths
begin

text \<open>
  Import of a chain from a JSON file (\<open>infra/cli/import-json.ts\<close>, called by \<open>handleChainImport\<close> of
  \<open>infra/cli/handlers/storage.handler.ts\<close>): the blocks are read under several key names, duplicates are dropped by
  hash, indices and links are rewritten, and the result replaces the target file by a rename.

  \<open>Number\<close> of a string of digits is infinite from \<open>2^1024 - 2^970\<close> on; below, rounding above \<open>2^53\<close> is not modelled (no
  block has such a position). A field that is read is a string or absent, so a link of another type does not
  occur. The progress callback only prints and is left out. A failing call on the file system
  is a field of \<open>import_fs\<close> with its message; a failing write or copy may leave the file torn.
\<close>

datatype js_number = Finite int | Infinite

record block_data =
  bd_type :: "string option"
  bd_content :: "string option"
  bd_tags :: "string list option"

record NormalizedChainBlock =
  nb_index :: js_number
  nb_prev_hash :: string
  nb_hash :: string
  nb_timestamp :: "string option"
  nb_chain :: "string option"
  nb_data :: "block_data option"

datatype issue_reason =
    NotAnObject | MissingHash | InvalidHashType | DuplicateHash | InvalidIndex | MissingGenesisPrevHash
  | PrevHashMismatch | InvalidPrevHashType

record ImportIssue =
  is_blockRef :: string
  is_reason :: issue_reason
  is_detail :: "string option"

datatype payload_shape = ShapeArray | ShapeBlocks | ShapeChain

definition IMPORT_GENESIS_PREV_HASH :: string where
  "IMPORT_GENESIS_PREV_HASH = replicate 64 (CHR ''0'')"

definition SAFETY_SWITCH :: string where
  "SAFETY_SWITCH = ''--confirm-write''"

section \<open>Reading one block\<close>

fun asRecord :: "json option \<Rightarrow> (string \<times> json) list option" where
  "asRecord (Some (JObj kvs)) = Some kvs"
| "asRecord v = None"

fun pickString :: "(string \<times> json) list \<Rightarrow> string list \<Rightarrow> string option" where
  "pickString source [] = None"
| "pickString source (k # ks) =
     (case map_of source k of Some (JStr s) \<Rightarrow> if s \<noteq> '''' then Some s else pickString source ks | _ \<Rightarrow> pickString source ks)"

definition number_of_digits :: "string \<Rightarrow> js_number" where
  "number_of_digits s = (if digits_val s \<ge> 2 ^ 1024 - 2 ^ 970 then Infinite else Finite (int (digits_val s)))"

fun pickNumber :: "(string \<times> json) list \<Rightarrow> string list \<Rightarrow> js_number option" where
  "pickNumber source [] = None"
| "pickNumber source (k # ks) =
     (case map_of source k of
        Some (JNum n) \<Rightarrow> Some (Finite n)
      | Some (JStr s) \<Rightarrow> if s \<noteq> '''' \<and> list_all is_digit s then Some (number_of_digits s) else pickNumber source ks
      | _ \<Rightarrow> pickNumber source ks)"

fun is_string :: "json \<Rightarrow> bool" where
  "is_string (JStr s) = True"
| "is_string v = False"

fun the_string :: "json \<Rightarrow> string" where
  "the_string (JStr s) = s"
| "the_string v = ''''"

fun pickStringArray :: "(string \<times> json) list \<Rightarrow> string list \<Rightarrow> string list option" where
  "pickStringArray source [] = None"
| "pickStringArray source (k # ks) =
     (case map_of source k of
        Some (JArr vs) \<Rightarrow> if list_all is_string vs then Some (map the_string vs) else pickStringArray source ks
      | _ \<Rightarrow> pickStringArray source ks)"

definition resolvePayloadShape :: "json \<Rightarrow> (string, payload_shape \<times> json list) result" where
  "resolvePayloadShape payload =
     (case payload of
        JArr vs \<Rightarrow> Inr (ShapeArray, vs)
      | JObj root \<Rightarrow>
          (case map_of root ''blocks'' of
             Some (JArr vs) \<Rightarrow> Inr (ShapeBlocks, vs)
           | _ \<Rightarrow> (case map_of root ''chain'' of
                     Some (JArr vs) \<Rightarrow> Inr (ShapeChain, vs)
                   | _ \<Rightarrow> Inl ''import_json expects JSON array or object with blocks/chain arrays''))
      | _ \<Rightarrow> Inl ''import_json expects JSON array or object with blocks/chain arrays'')"

definition or_pick :: "'a option \<Rightarrow> 'a option \<Rightarrow> 'a option" where
  "or_pick a b = (case a of Some x \<Rightarrow> Some x | None \<Rightarrow> b)"

definition in_data :: "(string \<times> json) list \<Rightarrow> ((string \<times> json) list \<Rightarrow> 'a option) \<Rightarrow> 'a option" where
  "in_data obj pick = (case asRecord (map_of obj ''data'') of Some d \<Rightarrow> pick d | None \<Rightarrow> None)"

definition candidate_ref :: "nat \<Rightarrow> string" where
  "candidate_ref indexHint = ''candidate['' @ show_nat indexHint @ '']''"

definition normalizeCandidate :: "json \<Rightarrow> nat \<Rightarrow> (ImportIssue, NormalizedChainBlock) result" where
  "normalizeCandidate raw indexHint =
     (case asRecord (Some raw) of
        None \<Rightarrow> Inl \<lparr>is_blockRef = candidate_ref indexHint, is_reason = NotAnObject, is_detail = None\<rparr>
      | Some obj \<Rightarrow>
          (case pickString obj [''hash'', ''block_hash''] of
             None \<Rightarrow> Inl \<lparr>is_blockRef = candidate_ref indexHint, is_reason = MissingHash,
                          is_detail = Some ''required key: hash | block_hash''\<rparr>
           | Some h \<Rightarrow>
               (let content = or_pick (pickString obj [''content'']) (in_data obj (\<lambda>d. pickString d [''content'', ''text'']));
                    tags = or_pick (pickStringArray obj [''tags'']) (in_data obj (\<lambda>d. pickStringArray d [''tags'']));
                    dataType = or_pick (pickString obj [''type'', ''block_type'']) (in_data obj (\<lambda>d. pickString d [''type'', ''block_type'']))
                in Inr \<lparr>nb_index = (case pickNumber obj [''index'', ''idx'', ''height''] of Some n \<Rightarrow> n | None \<Rightarrow> Finite (int indexHint)),
                        nb_prev_hash = (case pickString obj [''prev_hash'', ''prevHash'', ''previous_hash'', ''previousHash''] of
                                          Some p \<Rightarrow> p | None \<Rightarrow> IMPORT_GENESIS_PREV_HASH),
                        nb_hash = h,
                        nb_timestamp = pickString obj [''timestamp'', ''ts'', ''created_at''],
                        nb_chain = pickString obj [''chain'', ''chain_name''],
                        nb_data = (if content \<noteq> None \<or> tags \<noteq> None \<or> dataType \<noteq> None
                                   then Some \<lparr>bd_type = dataType, bd_content = content, bd_tags = tags\<rparr> else None)\<rparr>)))"

section \<open>Dropping duplicates and rewriting\<close>

definition hash_issue :: "string \<Rightarrow> issue_reason \<Rightarrow> string option \<Rightarrow> ImportIssue" where
  "hash_issue h reason detail = \<lparr>is_blockRef = ''hash:'' @ h, is_reason = reason, is_detail = detail\<rparr>"

fun dedupe :: "json list \<Rightarrow> nat \<Rightarrow> string list \<Rightarrow> ImportIssue list \<times> NormalizedChainBlock list" where
  "dedupe [] i seenHash = ([], [])"
| "dedupe (c # cs) i seenHash =
     (case normalizeCandidate c i of
        Inl issue \<Rightarrow> apfst ((#) issue) (dedupe cs (i + 1) seenHash)
      | Inr block \<Rightarrow>
          if nb_hash block \<in> set seenHash then
            apfst ((#) (hash_issue (nb_hash block) DuplicateHash (Some ''duplicate dropped''))) (dedupe cs (i + 1) seenHash)
          else apsnd ((#) block) (dedupe cs (i + 1) (nb_hash block # seenHash)))"

record reconcile_state =
  rs_reconciled :: "NormalizedChainBlock list"
  rs_index :: nat
  rs_prev :: nat
  rs_issues :: "ImportIssue list"

text \<open>The previous block is read at its position, which is past the end when a block was left out before.\<close>

definition expected_prev :: "nat \<Rightarrow> NormalizedChainBlock list \<Rightarrow> (string, string) result" where
  "expected_prev i reconciled =
     (if i = 0 then Inr IMPORT_GENESIS_PREV_HASH
      else if i - 1 < length reconciled then Inr (nb_hash (reconciled ! (i - 1)))
      else Inl ''Cannot read properties of undefined (reading hash)'')"

definition reconcile_block :: "nat \<Rightarrow> NormalizedChainBlock \<Rightarrow> string \<Rightarrow> reconcile_state \<Rightarrow> reconcile_state" where
  "reconcile_block i source expectedPrevHash s =
     (if nb_index source = Infinite then s\<lparr>rs_issues := rs_issues s @ [hash_issue (nb_hash source) InvalidIndex None]\<rparr>
      else
        (let s = (if nb_index source \<noteq> Finite (int i) then s\<lparr>rs_index := rs_index s + 1\<rparr> else s);
             s = (if nb_prev_hash source \<noteq> expectedPrevHash then
                    s\<lparr>rs_issues := rs_issues s @ [hash_issue (nb_hash source)
                        (if i = 0 \<and> nb_prev_hash source = '''' then MissingGenesisPrevHash else PrevHashMismatch) None],
                      rs_prev := rs_prev s + 1\<rparr>
                  else s)
         in s\<lparr>rs_reconciled := rs_reconciled s @ [source\<lparr>nb_index := Finite (int i), nb_prev_hash := expectedPrevHash\<rparr>]\<rparr>))"

fun reconcile :: "nat \<Rightarrow> NormalizedChainBlock list \<Rightarrow> reconcile_state \<Rightarrow> (string, reconcile_state) result" where
  "reconcile i [] s = Inr s"
| "reconcile i (source # rest) s =
     rbind (expected_prev i (rs_reconciled s)) (\<lambda>p. reconcile (i + 1) rest (reconcile_block i source p s))"

fun reason_text :: "issue_reason \<Rightarrow> string" where
  "reason_text NotAnObject = ''not_an_object''"
| "reason_text MissingHash = ''missing_hash''"
| "reason_text InvalidHashType = ''invalid_hash_type''"
| "reason_text DuplicateHash = ''duplicate_hash''"
| "reason_text InvalidIndex = ''invalid_index''"
| "reason_text MissingGenesisPrevHash = ''missing_genesis_prev_hash''"
| "reason_text PrevHashMismatch = ''prev_hash_mismatch''"
| "reason_text InvalidPrevHashType = ''invalid_prev_hash_type''"

definition issue_line :: "ImportIssue \<Rightarrow> string" where
  "issue_line issue =
     is_blockRef issue @ '': '' @ reason_text (is_reason issue) @
     (case is_detail issue of Some d \<Rightarrow> if d \<noteq> '''' then '' ('' @ d @ '')'' else '''' | None \<Rightarrow> '''')"

record ImportJsonResult =
  ir_imported :: nat
  ir_valid :: bool
  ir_skipped :: int
  ir_shape :: payload_shape
  ir_totalCandidates :: nat
  ir_normalized :: nat
  ir_reconciled :: nat
  ir_indexRewritten :: nat
  ir_prevHashRewritten :: nat
  ir_duplicatesSkipped :: nat
  ir_errors :: "string list"
  ir_issues :: "ImportIssue list"
  ir_blocks :: "NormalizedChainBlock list"

definition import_result :: "payload_shape \<Rightarrow> json list \<Rightarrow> NormalizedChainBlock list \<Rightarrow> reconcile_state \<Rightarrow> ImportJsonResult" where
  "import_result shape candidates deduped s =
     \<lparr>ir_imported = length (rs_reconciled s),
      ir_valid = list_all (\<lambda>issue. is_reason issue = DuplicateHash) (rs_issues s),
      ir_skipped = int (length candidates) - int (length (rs_reconciled s)),
      ir_shape = shape, ir_totalCandidates = length candidates,
      ir_normalized = length candidates, ir_reconciled = length deduped,
      ir_indexRewritten = rs_index s, ir_prevHashRewritten = rs_prev s,
      ir_duplicatesSkipped = length (filter (\<lambda>issue. is_reason issue = DuplicateHash) (rs_issues s)),
      ir_errors = map issue_line (rs_issues s), ir_issues = rs_issues s, ir_blocks = rs_reconciled s\<rparr>"

definition runImportJsonPayload :: "json \<Rightarrow> (string, ImportJsonResult) result" where
  "runImportJsonPayload payload =
     rbind (resolvePayloadShape payload) (\<lambda>(shape, candidates).
       let (issues, deduped) = dedupe candidates 0 []
       in rbind (reconcile 0 deduped \<lparr>rs_reconciled = [], rs_index = 0, rs_prev = 0, rs_issues = issues\<rparr>) (\<lambda>s.
          Inr (import_result shape candidates deduped s)))"

section \<open>Files\<close>

record import_fs =
  if_cwd :: string
  if_files :: "(string, string) jsmap"
  if_mkdir_fails :: "string option"
  if_write_fails :: "string option"
  if_copy_fails :: "string option"
  if_rename_fails :: "string option"
  if_rm_fails :: "string option"
  if_restore_fails :: "string option"
  if_torn :: "string \<Rightarrow> string"

definition guardWriteMode :: "string \<Rightarrow> bool \<Rightarrow> bool \<Rightarrow> string \<Rightarrow> string \<Rightarrow> (string, unit) result" where
  "guardWriteMode cwd writeEnabled confirmationProvided sourcePath destinationPath =
     (if \<not> writeEnabled then Inr ()
      else if \<not> confirmationProvided then Inl (''Write mode blocked: pass --write '' @ SAFETY_SWITCH @ '' to enable mutation'')
      else if path_resolve cwd sourcePath = path_resolve cwd destinationPath then
        Inl ''Write mode blocked: source and destination paths must differ''
      else Inr ())"

definition opt_member :: "string \<Rightarrow> json option \<Rightarrow> (string \<times> json) list" where
  "opt_member k v = (case v of Some v \<Rightarrow> [(k, v)] | None \<Rightarrow> [])"

definition data_json :: "block_data \<Rightarrow> json" where
  "data_json d = JObj (opt_member ''type'' (map_option JStr (bd_type d)) @ opt_member ''content'' (map_option JStr (bd_content d)) @
     opt_member ''tags'' (map_option (\<lambda>ts. JArr (map JStr ts)) (bd_tags d)))"

text \<open>\<open>JSON.stringify\<close> prints an infinite number as \<open>null\<close>.\<close>

definition import_block_json :: "NormalizedChainBlock \<Rightarrow> json" where
  "import_block_json b = JObj ([(''index'', case nb_index b of Finite n \<Rightarrow> JNum n | Infinite \<Rightarrow> JNull), (''hash'', JStr (nb_hash b)),
     (''prev_hash'', JStr (nb_prev_hash b))] @ opt_member ''timestamp'' (map_option JStr (nb_timestamp b)) @
     opt_member ''chain'' (map_option JStr (nb_chain b)) @ opt_member ''data'' (map_option data_json (nb_data b)))"

definition blocks_text :: "NormalizedChainBlock list \<Rightarrow> string" where
  "blocks_text blocks = JSON_stringify2 (JObj [(''blocks'', JArr (map import_block_json blocks))]) @ [CHR 0x0A]"

definition put_file :: "string \<Rightarrow> string \<Rightarrow> import_fs \<Rightarrow> import_fs" where
  "put_file p c fs = fs\<lparr>if_files := AList.update p c (if_files fs)\<rparr>"

definition drop_file :: "string \<Rightarrow> import_fs \<Rightarrow> import_fs" where
  "drop_file p fs = fs\<lparr>if_files := AList.delete p (if_files fs)\<rparr>"

text \<open>The copy of the target, when there is one.\<close>

definition back_up :: "string \<Rightarrow> import_fs \<Rightarrow> (string, unit) result \<times> import_fs" where
  "back_up target fs =
     (case map_of (if_files fs) target of
        None \<Rightarrow> (Inr (), fs)
      | Some old \<Rightarrow>
          (case if_copy_fails fs of
             Some e \<Rightarrow> (Inl e, put_file (target @ ''.bak'') (if_torn fs old) fs)
           | None \<Rightarrow> (Inr (), put_file (target @ ''.bak'') old fs)))"

text \<open>What is done after the rename failed with \<open>e\<close>.\<close>

definition rename_failed :: "string \<Rightarrow> string \<Rightarrow> import_fs \<Rightarrow> string \<times> import_fs" where
  "rename_failed e target fs =
     (case if_rm_fails fs of
        Some e' \<Rightarrow> (e', fs)
      | None \<Rightarrow>
          (let fs = drop_file (target @ ''.tmp'') fs
           in case (map_of (if_files fs) (target @ ''.bak''), map_of (if_files fs) target) of
                (Some b, None) \<Rightarrow>
                  (case if_restore_fails fs of
                     Some e' \<Rightarrow> (e', put_file target (if_torn fs b) fs)
                   | None \<Rightarrow> (e, put_file target b fs))
              | _ \<Rightarrow> (e, fs)))"

definition transactionalWriteBlocks :: "string \<Rightarrow> NormalizedChainBlock list \<Rightarrow> import_fs \<Rightarrow> (string, string option) result \<times> import_fs" where
  "transactionalWriteBlocks targetPath blocks fs =
     (let target = path_resolve (if_cwd fs) targetPath
      in case if_mkdir_fails fs of
           Some e \<Rightarrow> (Inl e, fs)
         | None \<Rightarrow>
             (case if_write_fails fs of
                Some e \<Rightarrow> (Inl e, put_file (target @ ''.tmp'') (if_torn fs (blocks_text blocks)) fs)
              | None \<Rightarrow>
                  (case back_up target (put_file (target @ ''.tmp'') (blocks_text blocks) fs) of
                     (Inl e, fs) \<Rightarrow> (Inl e, fs)
                   | (Inr _, fs) \<Rightarrow>
                       (case if_rename_fails fs of
                          Some e \<Rightarrow> apfst Inl (rename_failed e target fs)
                        | None \<Rightarrow>
                            (let fs = put_file target (blocks_text blocks) (drop_file (target @ ''.tmp'') fs)
                             in (Inr (map_option (\<lambda>_. target @ ''.bak'') (map_of (if_files fs) (target @ ''.bak''))), fs))))))"

definition runImportJsonFromFile :: "(string \<Rightarrow> string) \<Rightarrow> (string \<Rightarrow> string) \<Rightarrow> string \<Rightarrow> import_fs \<Rightarrow> (string, ImportJsonResult) result" where
  "runImportJsonFromFile missing syntax_error file_path fs =
     (case map_of (if_files fs) (path_resolve (if_cwd fs) file_path) of
        None \<Rightarrow> Inl (''import_json cannot read file: '' @ file_path @ '' ('' @ missing file_path @ '')'')
      | Some raw \<Rightarrow>
          (case JSON_parse raw of
             None \<Rightarrow> Inl (''import_json invalid JSON in '' @ file_path @ '': '' @ syntax_error raw)
           | Some payload \<Rightarrow> runImportJsonPayload payload))"

section \<open>The command\<close>

record ImportWriteResult =
  iw_write :: bool
  iw_targetPath :: string
  iw_backupPath :: "string option"
  iw_writtenBlocks :: "nat option"

definition handleChainImport :: "(string \<Rightarrow> string) \<Rightarrow> (string \<Rightarrow> string) \<Rightarrow> string option \<Rightarrow> string option \<Rightarrow> bool \<Rightarrow> bool \<Rightarrow> import_fs \<Rightarrow>
    (string, ImportJsonResult \<times> ImportWriteResult) result \<times> import_fs" where
  "handleChainImport missing syntax_error file_path out writeEnabled confirmWrite fs =
     (case file_path of
        None \<Rightarrow> (Inl ''Missing required --file for chain import_json'', fs)
      | Some f \<Rightarrow>
          if f = '''' then (Inl ''Missing required --file for chain import_json'', fs)
          else
            (case runImportJsonFromFile missing syntax_error f fs of
               Inl e \<Rightarrow> (Inl e, fs)
             | Inr report \<Rightarrow>
                 (let outputPath = path_resolve (if_cwd fs) (case out of Some p \<Rightarrow> p | None \<Rightarrow> ''./data/imported-chain.json'')
                  in case guardWriteMode (if_cwd fs) writeEnabled confirmWrite f outputPath of
                       Inl e \<Rightarrow> (Inl e, fs)
                     | Inr _ \<Rightarrow>
                         if \<not> writeEnabled then
                           (Inr (report, \<lparr>iw_write = False, iw_targetPath = outputPath, iw_backupPath = None, iw_writtenBlocks = None\<rparr>), fs)
                         else
                           (case transactionalWriteBlocks outputPath (ir_blocks report) fs of
                              (Inl e, fs) \<Rightarrow> (Inl e, fs)
                            | (Inr backupPath, fs) \<Rightarrow>
                                (Inr (report, \<lparr>iw_write = True, iw_targetPath = outputPath, iw_backupPath = backupPath,
                                               iw_writtenBlocks = Some (length (ir_blocks report))\<rparr>), fs)))))"

definition show_bool :: "bool \<Rightarrow> string" where
  "show_bool b = (if b then ''true'' else ''false'')"

fun shape_text :: "payload_shape \<Rightarrow> string" where
  "shape_text ShapeArray = ''array''"
| "shape_text ShapeBlocks = ''object.blocks''"
| "shape_text ShapeChain = ''legacy.chain''"

definition formatImportReport :: "ImportJsonResult \<Rightarrow> ImportWriteResult \<Rightarrow> string" where
  "formatImportReport r w =
     join [CHR 0x0A]
       ([''import_json migration report'',
         ''- imported: '' @ show_nat (ir_imported r),
         ''- skipped: '' @ show_int (ir_skipped r),
         ''- valid: '' @ show_bool (ir_valid r),
         ''- source: '' @ shape_text (ir_shape r) @ '' ('' @ show_nat (ir_totalCandidates r) @ '' candidates)'',
         ''- progress: normalized='' @ show_nat (ir_normalized r) @ '', reconciled='' @ show_nat (ir_reconciled r),
         ''- reconciliation: index='' @ show_nat (ir_indexRewritten r) @ '', prev_hash='' @ show_nat (ir_prevHashRewritten r) @
           '', duplicates='' @ show_nat (ir_duplicatesSkipped r),
         ''- idempotency: hash (skip-by-hash)'',
         ''- mode: '' @ (if iw_write w then ''write'' else ''dry-run'')] @
        (if iw_targetPath w \<noteq> '''' then [''- target: '' @ iw_targetPath w] else []) @
        (case iw_backupPath w of Some b \<Rightarrow> if b \<noteq> '''' then [''- backup: '' @ b] else [] | None \<Rightarrow> []) @
        (if ir_errors r \<noteq> [] then ''- issues:'' # map ((@) ''  - '') (ir_errors r) else []))"

end
