(* ===== verification/ImportJsonLaws.thy ===== *)
theory ImportJsonLaws
  imports ImportJson
begin

text \<open>
  An import that returns gives a chain with dense indices and closed links, and importing what was written gives the same
  chain again; the target file is the old or the new one, whatever fails. A number that is infinite ends the
  import with an exception unless it belongs to the last block.
\<close>

section \<open>The chain that comes out\<close>

fun linked :: "nat \<Rightarrow> string \<Rightarrow> NormalizedChainBlock list \<Rightarrow> bool" where
  "linked i p [] = True"
| "linked i p (b # bs) = (nb_index b = Finite (int i) \<and> nb_prev_hash b = p \<and> linked (i + 1) (nb_hash b) bs)"

fun relink :: "nat \<Rightarrow> string \<Rightarrow> NormalizedChainBlock list \<Rightarrow> NormalizedChainBlock list" where
  "relink i p [] = []"
| "relink i p (b # bs) = b\<lparr>nb_index := Finite (int i), nb_prev_hash := p\<rparr> # relink (i + 1) (nb_hash b) bs"

text \<open>What is reported of the blocks, and the positions that are rewritten.\<close>

fun link_issues :: "nat \<Rightarrow> string \<Rightarrow> NormalizedChainBlock list \<Rightarrow> ImportIssue list" where
  "link_issues i p [] = []"
| "link_issues i p (b # bs) =
     (if nb_index b = Infinite then [hash_issue (nb_hash b) InvalidIndex None]
      else if nb_prev_hash b \<noteq> p then
        [hash_issue (nb_hash b) (if i = 0 \<and> nb_prev_hash b = '''' then MissingGenesisPrevHash else PrevHashMismatch) None]
      else []) @ link_issues (i + 1) (nb_hash b) bs"

fun moved :: "nat \<Rightarrow> NormalizedChainBlock list \<Rightarrow> nat" where
  "moved i [] = 0"
| "moved i (b # bs) = (if nb_index b \<noteq> Infinite \<and> nb_index b \<noteq> Finite (int i) then 1 else 0) + moved (i + 1) bs"

abbreviation finite_index :: "NormalizedChainBlock \<Rightarrow> bool" where
  "finite_index b \<equiv> nb_index b \<noteq> Infinite"

definition type_error :: string where
  "type_error = ''Cannot read properties of undefined (reading hash)''"

lemma linked_relink: "linked i p (relink i p bs)"
  by (induction i p bs rule: relink.induct) auto

lemma relink_linked: "linked i p bs \<Longrightarrow> relink i p bs = bs"
  by (induction i p bs rule: relink.induct) auto

lemma linked_no_issues: "linked i p bs \<Longrightarrow> link_issues i p bs = [] \<and> moved i bs = 0 \<and> list_all finite_index bs"
  by (induction i p bs rule: link_issues.induct) auto

lemma relink_hashes [simp]: "map nb_hash (relink i p bs) = map nb_hash bs"
  by (induction i p bs rule: relink.induct) auto

lemma reconcile_step:
  assumes "length (rs_reconciled s) = i"
  shows "finite_index b \<Longrightarrow> length (rs_reconciled (reconcile_block i b p s)) = i + 1"
    and "finite_index b \<Longrightarrow> expected_prev (i + 1) (rs_reconciled (reconcile_block i b p s)) = Inr (nb_hash b)"
    and "\<not> finite_index b \<Longrightarrow> expected_prev (i + 1) (rs_reconciled (reconcile_block i b p s)) = Inl type_error"
  using assms by (auto simp: reconcile_block_def Let_def expected_prev_def nth_append type_error_def)

lemma reconcile_ok:
  assumes "length (rs_reconciled s) = i" and "expected_prev i (rs_reconciled s) = Inr p" and "list_all finite_index (butlast bs)"
  shows "reconcile i bs s = Inr \<lparr>rs_reconciled = rs_reconciled s @ relink i p (takeWhile finite_index bs), rs_index = rs_index s + moved i bs,
        rs_prev = rs_prev s + length (filter (\<lambda>x. is_reason x \<noteq> InvalidIndex) (link_issues i p bs)),
        rs_issues = rs_issues s @ link_issues i p bs\<rparr>"
  using assms
proof (induction bs arbitrary: i p s)
  case Nil
  then show ?case by simp
next
  case (Cons b bs)
  show ?case
  proof (cases "finite_index b")
    case True
    have "list_all finite_index (butlast bs)" using Cons.prems(3) by (cases bs) auto
    from Cons.IH [OF reconcile_step(1,2) [OF Cons.prems(1) True] this]
    show ?thesis using True Cons.prems(2) by simp (simp add: reconcile_block_def Let_def hash_issue_def)
  next
    case False
    then have "bs = []" using Cons.prems(3) by (cases bs) auto
    then show ?thesis using False Cons.prems by (simp add: reconcile_block_def hash_issue_def)
  qed
qed

lemma reconcile_throws:
  assumes "length (rs_reconciled s) = i" and "expected_prev i (rs_reconciled s) = Inr p" and "\<not> list_all finite_index (butlast bs)"
  shows "reconcile i bs s = Inl type_error"
  using assms
proof (induction bs arbitrary: i p s)
  case Nil
  then show ?case by simp
next
  case (Cons b bs)
  show ?case
  proof (cases "finite_index b")
    case True
    have "\<not> list_all finite_index (butlast bs)" using Cons.prems(3) True by (cases bs) auto
    from Cons.IH [OF reconcile_step(1,2) [OF Cons.prems(1) True] this] show ?thesis using Cons.prems(2) by simp
  next
    case False
    obtain c cs where "bs = c # cs" using Cons.prems(3) by (cases bs) auto
    then show ?thesis using reconcile_step(3) [OF Cons.prems(1) False] Cons.prems(2) by simp
  qed
qed

section \<open>Candidates\<close>

definition candidate_hash :: "json \<Rightarrow> string option" where
  "candidate_hash c = (case asRecord (Some c) of None \<Rightarrow> None | Some obj \<Rightarrow> pickString obj [''hash'', ''block_hash''])"

text \<open>What a block has after it was read: no field is empty text, and data is there only with a field.\<close>

definition block_ok :: "NormalizedChainBlock \<Rightarrow> bool" where
  "block_ok b \<longleftrightarrow> nb_hash b \<noteq> '''' \<and> nb_prev_hash b \<noteq> '''' \<and> nb_timestamp b \<noteq> Some '''' \<and> nb_chain b \<noteq> Some '''' \<and>
     (\<forall>d. nb_data b = Some d \<longrightarrow> bd_type d \<noteq> Some '''' \<and> bd_content d \<noteq> Some '''' \<and>
        (bd_type d \<noteq> None \<or> bd_content d \<noteq> None \<or> bd_tags d \<noteq> None))"

lemma pickString_nonempty: "pickString obj ks \<noteq> Some ''''"
  by (induction obj ks rule: pickString.induct) (auto split: option.splits json.splits)

lemma or_pick_nonempty: "or_pick (pickString obj ks) (in_data obj' (\<lambda>d. pickString d ks')) \<noteq> Some ''''"
  using pickString_nonempty by (auto simp: or_pick_def in_data_def split: option.splits)

lemma genesis_nonempty: "IMPORT_GENESIS_PREV_HASH \<noteq> ''''"
  by (simp add: IMPORT_GENESIS_PREV_HASH_def)

lemma normalize_Inr:
  assumes "normalizeCandidate c i = Inr b"
  shows "candidate_hash c = Some (nb_hash b) \<and> block_ok b"
proof -
  obtain obj h where obj: "asRecord (Some c) = Some obj" "pickString obj [''hash'', ''block_hash''] = Some h"
    using assms by (auto simp: normalizeCandidate_def split: option.splits)
  have h: "h \<noteq> ''''" using obj(2) pickString_nonempty by metis
  have prev: "(case pickString obj ks of Some p \<Rightarrow> p | None \<Rightarrow> IMPORT_GENESIS_PREV_HASH) \<noteq> ''''" for ks
    using pickString_nonempty [of obj ks] genesis_nonempty by (auto split: option.split)
  have b: "nb_hash b = h" "nb_prev_hash b \<noteq> ''''" "nb_timestamp b \<noteq> Some ''''" "nb_chain b \<noteq> Some ''''"
      "nb_data b = Some d \<Longrightarrow> bd_type d \<noteq> Some '''' \<and> bd_content d \<noteq> Some '''' \<and> (bd_type d \<noteq> None \<or> bd_content d \<noteq> None \<or> bd_tags d \<noteq> None)" for d
    using assms unfolding normalizeCandidate_def obj option.case Let_def sum.inject
    by (auto simp: prev pickString_nonempty or_pick_nonempty simp del: pickString.simps pickStringArray.simps pickNumber.simps split: if_splits)
  then show ?thesis using h obj(2) by (auto simp: candidate_hash_def obj(1) block_ok_def simp del: pickString.simps)
qed

lemma normalize_Inl: "normalizeCandidate c i = Inl x \<Longrightarrow> candidate_hash c = None \<and> is_reason x \<in> {NotAnObject, MissingHash}"
  by (auto simp: normalizeCandidate_def candidate_hash_def Let_def split: option.splits)

lemma dedupe_spec:
  assumes "dedupe cs i seen = (xs, bs)"
  shows "distinct (map nb_hash bs) \<and> nb_hash ` set bs \<inter> set seen = {} \<and>
    nb_hash ` set bs \<union> set seen = {h. \<exists>c \<in> set cs. candidate_hash c = Some h} \<union> set seen \<and> list_all block_ok bs \<and>
    list_all (\<lambda>x. is_reason x \<in> {NotAnObject, MissingHash, DuplicateHash}) xs"
  using assms
proof (induction cs i seen arbitrary: xs bs rule: dedupe.induct)
  case (1 i seen)
  then show ?case by simp
next
  case (2 c cs i seen)
  show ?case
  proof (cases "normalizeCandidate c i")
    case (Inl x)
    obtain ys where ys: "dedupe cs (i + 1) seen = (ys, bs)" "xs = x # ys"
      using "2.prems" Inl by (cases "dedupe cs (i + 1) seen") auto
    then show ?thesis using "2.IH"(1) [OF Inl ys(1)] normalize_Inl [OF Inl] by auto
  next
    case (Inr b)
    note facts = normalize_Inr [OF Inr]
    show ?thesis
    proof (cases "nb_hash b \<in> set seen")
      case True
      obtain ys where ys: "dedupe cs (i + 1) seen = (ys, bs)" "xs = hash_issue (nb_hash b) DuplicateHash (Some ''duplicate dropped'') # ys"
        using "2.prems" Inr True by (cases "dedupe cs (i + 1) seen") auto
      then show ?thesis using "2.IH"(2) [OF Inr True ys(1)] facts True by (auto simp: hash_issue_def)
    next
      case False
      obtain cs' where cs': "dedupe cs (i + 1) (nb_hash b # seen) = (xs, cs')" "bs = b # cs'"
        using "2.prems" Inr False by (cases "dedupe cs (i + 1) (nb_hash b # seen)") auto
      then show ?thesis using "2.IH"(3) [OF Inr False cs'(1)] facts False by auto
    qed
  qed
qed

lemma issues_finite: "list_all (\<lambda>x. is_reason x \<noteq> InvalidIndex) (link_issues i p bs) \<Longrightarrow> list_all finite_index bs"
  by (induction i p bs rule: link_issues.induct) (auto simp: hash_issue_def split: if_splits)

section \<open>What an import gives\<close>

lemma import_cases:
  assumes "resolvePayloadShape payload = Inr (shape, cs)" and "dedupe cs 0 [] = (xs, bs)"
  shows "list_all finite_index (butlast bs) \<Longrightarrow> \<exists>r. runImportJsonPayload payload = Inr r \<and>
      ir_blocks r = relink 0 IMPORT_GENESIS_PREV_HASH (takeWhile finite_index bs) \<and> ir_issues r = xs @ link_issues 0 IMPORT_GENESIS_PREV_HASH bs \<and>
      ir_imported r = length (ir_blocks r) \<and> ir_skipped r = int (length cs) - int (length (ir_blocks r)) \<and>
      ir_valid r = list_all (\<lambda>x. is_reason x = DuplicateHash) (ir_issues r) \<and> ir_indexRewritten r = moved 0 bs \<and>
      ir_prevHashRewritten r = length (filter (\<lambda>x. is_reason x \<noteq> InvalidIndex) (link_issues 0 IMPORT_GENESIS_PREV_HASH bs))"
    and "\<not> list_all finite_index (butlast bs) \<Longrightarrow> runImportJsonPayload payload = Inl type_error"
  using assms reconcile_ok [of "\<lparr>rs_reconciled = [], rs_index = 0, rs_prev = 0, rs_issues = xs\<rparr>" 0 IMPORT_GENESIS_PREV_HASH bs]
    reconcile_throws [of "\<lparr>rs_reconciled = [], rs_index = 0, rs_prev = 0, rs_issues = xs\<rparr>" 0 IMPORT_GENESIS_PREV_HASH bs]
  by (simp_all add: runImportJsonPayload_def expected_prev_def import_result_def)

lemma import_returned:
  assumes "runImportJsonPayload payload = Inr r"
  obtains shape cs xs bs where "resolvePayloadShape payload = Inr (shape, cs)" and "dedupe cs 0 [] = (xs, bs)"
    and "list_all finite_index (butlast bs)"
proof (cases "resolvePayloadShape payload")
  case (Inl e)
  then show ?thesis using assms by (simp add: runImportJsonPayload_def)
next
  case (Inr sc)
  obtain shape cs where sc: "sc = (shape, cs)" by (cases sc)
  obtain xs bs where ded: "dedupe cs 0 [] = (xs, bs)" by (cases "dedupe cs 0 []")
  show ?thesis using import_cases(2) [OF Inr [unfolded sc] ded] assms that [OF Inr [unfolded sc] ded] by fastforce
qed

lemma link_issue_reasons: "list_all (\<lambda>x. is_reason x \<in> {InvalidIndex, MissingGenesisPrevHash, PrevHashMismatch}) (link_issues i p bs)"
  by (induction i p bs rule: link_issues.induct) (auto simp: hash_issue_def)

text \<open>
  C13: an import that returns gives a canonical chain: the indices are \<open>0, 1, 2, ...\<close>, every block is linked to the one
  before it and the first to the genesis value, no hash occurs twice, and every hash comes from a candidate; unless
  an index is reported, every hash of a candidate is there. Imported and skipped blocks make up the candidates, and in
  a valid import no link was rewritten.
\<close>

theorem import_makes_linked_chain:
  assumes "runImportJsonPayload payload = Inr r"
  shows "\<exists>shape cs. resolvePayloadShape payload = Inr (shape, cs) \<and> linked 0 IMPORT_GENESIS_PREV_HASH (ir_blocks r) \<and>
    distinct (map nb_hash (ir_blocks r)) \<and> nb_hash ` set (ir_blocks r) \<subseteq> {h. \<exists>c \<in> set cs. candidate_hash c = Some h} \<and>
    (list_all (\<lambda>x. is_reason x \<noteq> InvalidIndex) (ir_issues r) \<longrightarrow>
       nb_hash ` set (ir_blocks r) = {h. \<exists>c \<in> set cs. candidate_hash c = Some h}) \<and>
    int (ir_imported r) + ir_skipped r = int (length cs) \<and> (ir_valid r \<longrightarrow> ir_prevHashRewritten r = 0)"
proof -
  obtain shape cs xs bs where shape: "resolvePayloadShape payload = Inr (shape, cs)" and ded: "dedupe cs 0 [] = (xs, bs)"
    and fin: "list_all finite_index (butlast bs)"
    using import_returned [OF assms] .
  note r = import_cases(1) [OF shape ded fin]
  note spec = dedupe_spec [OF ded]
  let ?kept = "takeWhile finite_index bs"
  have blocks: "ir_blocks r = relink 0 IMPORT_GENESIS_PREV_HASH ?kept" "ir_issues r = xs @ link_issues 0 IMPORT_GENESIS_PREV_HASH bs"
    using r assms by auto
  have hashes: "map nb_hash (ir_blocks r) = map nb_hash ?kept" by (simp add: blocks)
  then have sets: "nb_hash ` set (ir_blocks r) = nb_hash ` set ?kept" by (metis set_map)
  have kept_subset: "set ?kept \<subseteq> set bs" by (auto dest: set_takeWhileD)
  have kept: "?kept = bs" if "list_all (\<lambda>x. is_reason x \<noteq> InvalidIndex) (ir_issues r)"
    using that issues_finite [of 0 IMPORT_GENESIS_PREV_HASH bs] by (auto simp: blocks list_all_iff)
  show ?thesis
  proof (intro exI conjI)
    show "resolvePayloadShape payload = Inr (shape, cs)" by (rule shape)
    show "linked 0 IMPORT_GENESIS_PREV_HASH (ir_blocks r)" by (simp add: blocks linked_relink)
    show "distinct (map nb_hash (ir_blocks r))"
      unfolding hashes using spec by (metis distinct_append map_append takeWhile_dropWhile_id)
    show "nb_hash ` set (ir_blocks r) \<subseteq> {h. \<exists>c \<in> set cs. candidate_hash c = Some h}"
      unfolding sets using spec image_mono [OF kept_subset, of nb_hash] by simp
    show "list_all (\<lambda>x. is_reason x \<noteq> InvalidIndex) (ir_issues r) \<longrightarrow>
        nb_hash ` set (ir_blocks r) = {h. \<exists>c \<in> set cs. candidate_hash c = Some h}"
    proof
      assume no_index: "list_all (\<lambda>x. is_reason x \<noteq> InvalidIndex) (ir_issues r)"
      show "nb_hash ` set (ir_blocks r) = {h. \<exists>c \<in> set cs. candidate_hash c = Some h}"
        unfolding sets kept [OF no_index] using spec by simp
    qed
    show "int (ir_imported r) + ir_skipped r = int (length cs)" using r assms by auto
    show "ir_valid r \<longrightarrow> ir_prevHashRewritten r = 0"
      using r assms link_issue_reasons [of 0 IMPORT_GENESIS_PREV_HASH bs] by (auto simp: list_all_iff filter_empty_conv)
  qed
qed

text \<open>
  C32: an import throws exactly when the payload has no list of blocks or when a block that is not the last one to be kept
  has an infinite index.
\<close>

theorem import_throws_iff:
  "runImportJsonPayload payload = Inl e \<longleftrightarrow>
     (case resolvePayloadShape payload of
        Inl e' \<Rightarrow> e = e'
      | Inr (shape, cs) \<Rightarrow> e = type_error \<and> list_ex (\<lambda>b. nb_index b = Infinite) (butlast (snd (dedupe cs 0 []))))"
proof (cases "resolvePayloadShape payload")
  case (Inl e')
  then show ?thesis by (auto simp: runImportJsonPayload_def)
next
  case (Inr sc)
  obtain shape cs where sc: "sc = (shape, cs)" by (cases sc)
  obtain xs bs where ded: "dedupe cs 0 [] = (xs, bs)" by (cases "dedupe cs 0 []")
  have "list_ex (\<lambda>b. nb_index b = Infinite) (butlast bs) \<longleftrightarrow> \<not> list_all finite_index (butlast bs)"
    by (auto simp: list_all_iff list_ex_iff)
  then show ?thesis
    using import_cases [OF Inr [unfolded sc] ded] by (cases "list_all finite_index (butlast bs)") (auto simp: Inr sc ded)
qed

section \<open>Writing it and reading it back\<close>

lemma import_block_json_wf: "json_wf (import_block_json b)"
  by (cases "nb_index b"; cases "nb_timestamp b"; cases "nb_chain b"; cases "nb_data b")
    (auto simp: import_block_json_def data_json_def opt_member_def list_all_iff split: option.split)

lemma strings_back: "list_all is_string (map JStr ts) \<and> map (the_string \<circ> JStr) ts = ts"
  by (induction ts) auto

lemma normalize_import_block_json:
  assumes "block_ok b" and "nb_index b = Finite n"
  shows "normalizeCandidate (import_block_json b) i = Inr b"
  using assms
  by (cases b; cases "nb_timestamp b"; cases "nb_chain b"; cases "nb_data b")
    (auto simp: normalizeCandidate_def import_block_json_def opt_member_def or_pick_def block_ok_def in_data_def data_json_def
        strings_back Let_def split: option.splits)

lemma dedupe_again:
  assumes "linked i p bs" and "list_all block_ok bs" and "distinct (map nb_hash bs)" and "nb_hash ` set bs \<inter> set seen = {}"
  shows "dedupe (map import_block_json bs) i seen = ([], bs)"
  using assms
proof (induction bs arbitrary: i p seen)
  case Nil
  then show ?case by simp
next
  case (Cons b bs)
  have "normalizeCandidate (import_block_json b) i = Inr b" using Cons.prems(1,2) by (intro normalize_import_block_json) auto
  moreover have "dedupe (map import_block_json bs) (i + 1) (nb_hash b # seen) = ([], bs)"
    using Cons.prems by (intro Cons.IH [of "i + 1" "nb_hash b"]) auto
  ultimately show ?case using Cons.prems(4) by auto
qed

lemma relink_ok: "list_all block_ok bs \<Longrightarrow> p \<noteq> '''' \<Longrightarrow> list_all block_ok (relink i p bs)"
  by (induction i p bs rule: relink.induct) (auto simp: block_ok_def)

lemma imported_blocks:
  assumes "runImportJsonPayload payload = Inr r"
  shows "linked 0 IMPORT_GENESIS_PREV_HASH (ir_blocks r) \<and> distinct (map nb_hash (ir_blocks r)) \<and> list_all block_ok (ir_blocks r)"
proof -
  obtain shape cs xs bs where shape: "resolvePayloadShape payload = Inr (shape, cs)" and ded: "dedupe cs 0 [] = (xs, bs)"
    and fin: "list_all finite_index (butlast bs)"
    using import_returned [OF assms] .
  have blocks: "ir_blocks r = relink 0 IMPORT_GENESIS_PREV_HASH (takeWhile finite_index bs)" using import_cases(1) [OF shape ded fin] assms by auto
  note spec = dedupe_spec [OF ded]
  have "list_all block_ok (takeWhile finite_index bs)" using spec by (auto simp: list_all_iff dest: set_takeWhileD)
  moreover have "distinct (map nb_hash (takeWhile finite_index bs))" using spec by (metis distinct_append map_append takeWhile_dropWhile_id)
  ultimately show ?thesis by (simp add: blocks linked_relink relink_ok genesis_nonempty)
qed

lemma import_again:
  assumes "linked 0 IMPORT_GENESIS_PREV_HASH bs" and "distinct (map nb_hash bs)" and "list_all block_ok bs"
  shows "\<exists>r. runImportJsonPayload (JObj [(''blocks'', JArr (map import_block_json bs))]) = Inr r \<and> ir_blocks r = bs \<and> ir_issues r = [] \<and>
    ir_valid r \<and> ir_indexRewritten r = 0 \<and> ir_prevHashRewritten r = 0"
proof -
  have shape: "resolvePayloadShape (JObj [(''blocks'', JArr (map import_block_json bs))]) = Inr (ShapeBlocks, map import_block_json bs)"
    by (simp add: resolvePayloadShape_def)
  have ded: "dedupe (map import_block_json bs) 0 [] = ([], bs)" using assms by (intro dedupe_again) auto
  note none = linked_no_issues [OF assms(1)]
  have "list_all finite_index (butlast bs)" using none by (auto simp: list_all_iff dest: in_set_butlastD)
  moreover have "takeWhile finite_index bs = bs" using none by (simp add: list_all_iff)
  then have "relink 0 IMPORT_GENESIS_PREV_HASH (takeWhile finite_index bs) = bs" by (simp only: relink_linked [OF assms(1)])
  ultimately show ?thesis using import_cases(1) [OF shape ded] none relink_linked [OF assms(1)] by auto
qed

lemma write_ok_text:
  assumes "transactionalWriteBlocks target blocks fs = (Inr b, fs')"
  shows "map_of (if_files fs') (path_resolve (if_cwd fs) target) = Some (blocks_text blocks) \<and> if_cwd fs' = if_cwd fs"
  using assms by (auto simp: transactionalWriteBlocks_def Let_def back_up_def put_file_def drop_file_def map_of_update rename_failed_def
      split: option.splits)

text \<open>
  C14: importing is idempotent through the file: what a write has put into the target, imported again, is the same list of
  blocks, without an issue and with nothing rewritten.
\<close>

theorem import_written_reimports:
  assumes "runImportJsonPayload payload = Inr r" and "transactionalWriteBlocks target (ir_blocks r) fs = (Inr b, fs')"
  shows "\<exists>r'. runImportJsonFromFile missing syntax_error target fs' = Inr r' \<and> ir_blocks r' = ir_blocks r \<and> ir_valid r' \<and>
    ir_issues r' = [] \<and> ir_indexRewritten r' = 0 \<and> ir_prevHashRewritten r' = 0"
proof -
  note written = write_ok_text [OF assms(2)]
  have "json_wf (JObj [(''blocks'', JArr (map import_block_json (ir_blocks r)))])" by (simp add: list_all_iff import_block_json_wf)
  then have "JSON_parse (blocks_text (ir_blocks r)) = Some (JObj [(''blocks'', JArr (map import_block_json (ir_blocks r)))])"
    unfolding blocks_text_def by (rule parse_stringify2_line)
  moreover obtain r' where "runImportJsonPayload (JObj [(''blocks'', JArr (map import_block_json (ir_blocks r)))]) = Inr r'"
      "ir_blocks r' = ir_blocks r" "ir_issues r' = []" "ir_valid r'" "ir_indexRewritten r' = 0" "ir_prevHashRewritten r' = 0"
    using import_again imported_blocks [OF assms(1)] by blast
  ultimately show ?thesis using written by (auto simp: runImportJsonFromFile_def)
qed

text \<open>
  C31: the target of a write is never torn: when the write returns it holds the new blocks, when it throws it holds what
  it held before; but where it was not there and a backup of an earlier write is, a failing rename may put that backup in its
  place. No other file is touched but the temporary file and the backup.
\<close>

theorem import_write_atomic:
  assumes "transactionalWriteBlocks target blocks fs = (res, fs')" and "t = path_resolve (if_cwd fs) target"
  shows "(case res of Inr _ \<Rightarrow> map_of (if_files fs') t = Some (blocks_text blocks)
      | Inl _ \<Rightarrow> map_of (if_files fs') t = map_of (if_files fs) t \<or>
          map_of (if_files fs) t = None \<and> if_rename_fails fs \<noteq> None \<and> map_of (if_files fs) (t @ ''.bak'') \<noteq> None) \<and>
    (\<forall>p. p \<notin> {t, t @ ''.tmp'', t @ ''.bak''} \<longrightarrow> map_of (if_files fs') p = map_of (if_files fs) p)"
  using assms by (auto simp: transactionalWriteBlocks_def Let_def back_up_def put_file_def drop_file_def map_of_update map_of_delete
      rename_failed_def split: option.splits if_splits)

section \<open>A payload with every defect\<close>

definition demo_payload :: json where
  "demo_payload = JObj [(''chain'', JArr
     [JObj [(''hash'', JStr ''a''), (''height'', JNum 7)], JNull,
      JObj [(''block_hash'', JStr ''b''), (''prevHash'', JStr ''zz''), (''data'', JObj [(''text'', JStr ''note'')])],
      JObj [(''hash'', JStr ''a'')]])]"

definition demo_report :: ImportJsonResult where
  "demo_report = projr (runImportJsonPayload demo_payload)"

definition demo_import_fs :: import_fs where
  "demo_import_fs = \<lparr>if_cwd = ''/w'', if_files = [(''/w/out.json'', ''old'')], if_mkdir_fails = None, if_write_fails = None,
     if_copy_fails = None, if_rename_fails = None, if_rm_fails = None, if_restore_fails = None, if_torn = (\<lambda>_. '''')\<rparr>"

lemma demo_import: "runImportJsonPayload demo_payload = Inr demo_report"
proof -
  have "is_ok (runImportJsonPayload demo_payload)" by code_simp
  then show ?thesis by (cases "runImportJsonPayload demo_payload") (auto simp: demo_report_def)
qed

lemma demo_counts: "ir_imported demo_report = 2" "ir_issues demo_report \<noteq> []"
  by code_simp+

lemma demo_write: "\<exists>fs'. transactionalWriteBlocks ''out.json'' (ir_blocks demo_report) demo_import_fs = (Inr (Some ''/w/out.json.bak''), fs')"
proof -
  have "path_resolve ''/w'' ''out.json'' = ''/w/out.json''" by code_simp
  then show ?thesis
    by (simp add: transactionalWriteBlocks_def demo_import_fs_def back_up_def put_file_def drop_file_def map_of_update map_of_delete)
qed

theorem import_makes_linked_chain_witness:
  "linked 0 IMPORT_GENESIS_PREV_HASH (ir_blocks demo_report) \<and> ir_imported demo_report = 2 \<and> ir_skipped demo_report = 2"
proof -
  have "resolvePayloadShape demo_payload = Inr (ShapeChain, cs) \<Longrightarrow> length cs = 4" for cs
    by (auto simp: resolvePayloadShape_def demo_payload_def)
  then show ?thesis
    using import_makes_linked_chain [OF demo_import] demo_counts(1)
    by (auto simp: resolvePayloadShape_def demo_payload_def)
qed

theorem import_written_reimports_witness:
  "\<exists>fs' r'. transactionalWriteBlocks ''out.json'' (ir_blocks demo_report) demo_import_fs = (Inr (Some ''/w/out.json.bak''), fs') \<and>
     runImportJsonFromFile (\<lambda>_. '''') (\<lambda>_. '''') ''out.json'' fs' = Inr r' \<and> ir_blocks r' = ir_blocks demo_report \<and> ir_issues r' = []"
  using demo_write import_written_reimports [OF demo_import] by metis

theorem import_write_atomic_witness:
  "\<exists>fs'. transactionalWriteBlocks ''out.json'' [] (demo_import_fs\<lparr>if_rename_fails := Some ''EPERM''\<rparr>) = (Inl ''EPERM'', fs') \<and>
     map_of (if_files fs') ''/w/out.json'' = Some ''old''"
proof -
  have p: "path_resolve ''/w'' ''out.json'' = ''/w/out.json''" by code_simp
  then have "\<exists>fs'. transactionalWriteBlocks ''out.json'' [] (demo_import_fs\<lparr>if_rename_fails := Some ''EPERM''\<rparr>) = (Inl ''EPERM'', fs')"
    by (simp add: transactionalWriteBlocks_def demo_import_fs_def back_up_def put_file_def drop_file_def map_of_update map_of_delete
        rename_failed_def)
  then obtain fs' where fs': "transactionalWriteBlocks ''out.json'' [] (demo_import_fs\<lparr>if_rename_fails := Some ''EPERM''\<rparr>) = (Inl ''EPERM'', fs')"
    by blast
  from import_write_atomic [OF this refl] have "map_of (if_files fs') ''/w/out.json'' = Some ''old''"
    by (simp add: demo_import_fs_def p)
  with fs' show ?thesis by blast
qed

end
