(* ===== verification/JsonLines.thy ===== *)
theory JsonLines
  imports JsonRoundtrip Paths
begin

text \<open>
  Files of one JSON object per line, as \<open>core/ask-session-store.ts\<close>, \<open>core/decision-audit-log.ts\<close> and
  \<open>core/decision-history-store.ts\<close> keep them: a reader throws on the first line that is no JSON. The calls of the file
  system that fail are fields of \<open>line_fs\<close>; an append that fails may have written the beginning of its line.
\<close>

record line_fs =
  ln_cwd :: string
  ln_files :: "(string, string) jsmap"
  ln_mkdir_fails :: "string \<Rightarrow> string option"
  ln_append_fails :: "string \<Rightarrow> (string \<times> nat) option"
  ln_syntax :: "string \<Rightarrow> string"

fun parse_lines :: "(string \<Rightarrow> string) \<Rightarrow> string list \<Rightarrow> (string, json list) result" where
  "parse_lines syntax_error [] = Inr []"
| "parse_lines syntax_error (l # ls) =
     (case JSON_parse l of
        None \<Rightarrow> Inl (syntax_error l)
      | Some v \<Rightarrow> rbind (parse_lines syntax_error ls) (\<lambda>vs. Inr (v # vs)))"

definition text_lines :: "string \<Rightarrow> string list" where
  "text_lines raw = filter (\<lambda>l. l \<noteq> '''') (map trim (split_on (CHR 0x0A) raw))"

definition read_json_lines :: "line_fs \<Rightarrow> string \<Rightarrow> (string, json list) result" where
  "read_json_lines fs target =
     (case map_of (ln_files fs) target of None \<Rightarrow> Inr [] | Some raw \<Rightarrow> parse_lines (ln_syntax fs) (text_lines raw))"

definition set_file :: "string \<Rightarrow> string \<Rightarrow> line_fs \<Rightarrow> line_fs" where
  "set_file p c fs = fs\<lparr>ln_files := AList.update p c (ln_files fs)\<rparr>"

definition old_text :: "line_fs \<Rightarrow> string \<Rightarrow> string" where
  "old_text fs p = (case map_of (ln_files fs) p of Some c \<Rightarrow> c | None \<Rightarrow> '''')"

definition append_json_line :: "string \<Rightarrow> json \<Rightarrow> line_fs \<Rightarrow> (string, unit) result \<times> line_fs" where
  "append_json_line target v fs =
     (let line = JSON_stringify v @ [CHR 0x0A]
      in case ln_mkdir_fails fs (path_dirname target) of
           Some e \<Rightarrow> (Inl e, fs)
         | None \<Rightarrow>
             (case ln_append_fails fs target of
                Some (e, n) \<Rightarrow> (Inl e, set_file target (old_text fs target @ take n line) fs)
              | None \<Rightarrow> (Inr (), set_file target (old_text fs target @ line) fs)))"

section \<open>One line per value\<close>

lemma newline_not_digit: "CHR 0x0A \<notin> set (show_int n)"
proof -
  have "\<not> is_digit (CHR 0x0A)" by (simp add: is_digit_def code_def)
  then have "CHR 0x0A \<notin> set (show_nat m)" for m using show_nat_digits [of m] by blast
  then show ?thesis by (simp add: show_int_def)
qed

lemma newline_not_hex: "d < 16 \<Longrightarrow> hex_digit d \<noteq> CHR 0x0A"
proof -
  have "list_all (\<lambda>d. hex_digit d \<noteq> CHR 0x0A) [0..<16]" by code_simp
  then show "d < 16 \<Longrightarrow> hex_digit d \<noteq> CHR 0x0A" by (simp only: list_all_iff set_upt atLeastLessThan_iff) simp
qed

lemma newline_escaped: "CHR 0x0A \<notin> set (escape_char c)"
proof -
  have "code c < 32 \<Longrightarrow> code c div 16 < 16" by simp
  then show ?thesis by (auto simp: escape_char_def newline_not_hex [symmetric] code_def)
qed

lemma token_one_line: "CHR 0x0A \<notin> set (token_text t)"
  using newline_escaped by (cases t) (auto simp: newline_not_digit)

lemma compact_pieces:
  "set (layout False l v) \<subseteq> range Tok" "set (layout_items False l vs) \<subseteq> range Tok" "set (layout_members False l kvs) \<subseteq> range Tok"
  by (induction False l v and False l vs and False l kvs rule: layout_layout_items_layout_members.induct)
    (auto simp: newline_def colon_def)

lemma stringify_one_line: "CHR 0x0A \<notin> set (JSON_stringify v)"
proof
  assume "CHR 0x0A \<in> set (JSON_stringify v)"
  then obtain p where "p \<in> set (layout False 0 v)" "CHR 0x0A \<in> set (piece_text p)"
    by (auto simp: JSON_stringify_def text_of_def)
  then show False using compact_pieces(1) [of 0 v] token_one_line by (cases p) auto
qed

lemma stringify_object: "\<exists>s. JSON_stringify (JObj kvs) = CHR ''{'' # s @ [CHR ''}'']"
  by (cases kvs) (auto simp: JSON_stringify_def text_of_def newline_def)

lemma trim_object: "trim (JSON_stringify (JObj kvs)) = JSON_stringify (JObj kvs) \<and> JSON_stringify (JObj kvs) \<noteq> ''''"
proof -
  obtain s where s: "JSON_stringify (JObj kvs) = CHR ''{'' # s @ [CHR ''}'']" using stringify_object by blast
  have "trim (CHR ''{'' # s @ [CHR ''}'']) = CHR ''{'' # s @ [CHR ''}'']" by (rule trim_id) (auto simp: is_space_def code_def)
  then show ?thesis by (simp add: s)
qed

lemma split_line: "CHR 0x0A \<notin> set l \<Longrightarrow> split_on (CHR 0x0A) (l @ CHR 0x0A # r) = l # split_on (CHR 0x0A) r"
  by (induction l) auto

lemma split_lines_append: "split_on c (a @ c # r) = split_on c a @ split_on c r"
proof (induction a)
  case (Cons x a)
  then show ?case by (cases "split_on c a") auto
qed simp

lemma split_single: "CHR 0x0A \<notin> set l \<Longrightarrow> split_on (CHR 0x0A) l = [l]"
  by (induction l) auto

text \<open>The texts a file of complete lines has.\<close>

definition line_text :: "json list \<Rightarrow> string" where
  "line_text vs = concat (map (\<lambda>v. JSON_stringify v @ [CHR 0x0A]) vs)"

lemma text_lines_of: "list_all is_object vs \<Longrightarrow> text_lines (line_text vs) = map JSON_stringify vs"
proof (induction vs)
  case Nil
  then show ?case by (simp add: text_lines_def line_text_def)
next
  case (Cons v vs)
  obtain kvs where v: "v = JObj kvs" using Cons.prems by (cases v) auto
  have "text_lines (line_text (v # vs)) = trim (JSON_stringify v) # text_lines (line_text vs)"
    using trim_object [of kvs] by (simp add: text_lines_def line_text_def split_line [OF stringify_one_line] v)
  then show ?case using Cons trim_object [of kvs] v by simp
qed

lemma parse_printed_lines: "list_all json_wf vs \<Longrightarrow> parse_lines e (map JSON_stringify vs) = Inr vs"
  by (induction vs) (simp_all add: parse_stringify)

definition holds_lines :: "line_fs \<Rightarrow> string \<Rightarrow> json list \<Rightarrow> bool" where
  "holds_lines fs target vs \<longleftrightarrow> old_text fs target = line_text vs \<and> list_all is_object vs \<and> list_all json_wf vs"

lemma holds_read: "holds_lines fs target vs \<Longrightarrow> read_json_lines fs target = Inr vs"
proof -
  assume h: "holds_lines fs target vs"
  show ?thesis
  proof (cases "map_of (ln_files fs) target")
    case None
    then have "line_text vs = ''''" using h by (simp add: holds_lines_def old_text_def)
    then have "vs = []" by (cases vs) (auto simp: line_text_def)
    then show ?thesis by (simp add: read_json_lines_def None)
  next
    case (Some raw)
    then have "raw = line_text vs" using h by (simp add: holds_lines_def old_text_def)
    then show ?thesis using h by (simp add: read_json_lines_def Some text_lines_of parse_printed_lines holds_lines_def)
  qed
qed

lemma holds_inj: "holds_lines fs target vs \<Longrightarrow> holds_lines fs target ws \<Longrightarrow> vs = ws"
  using holds_read by (metis sum.inject(2))

lemma append_holds:
  assumes "holds_lines fs target vs" and "is_object v" and "json_wf v" and "append_json_line target v fs = (Inr (), fs')"
  shows "holds_lines fs' target (vs @ [v])"
  using assms by (auto simp: append_json_line_def Let_def holds_lines_def old_text_def set_file_def map_of_update line_text_def
      split: option.splits)

text \<open>A file of JSON lines is a log: what is appended is read back at the end.\<close>

definition line_append :: "string \<Rightarrow> json \<Rightarrow> line_fs \<Rightarrow> line_fs option" where
  "line_append target v fs =
     (if is_object v \<and> json_wf v then (case append_json_line target v fs of (Inr _, fs') \<Rightarrow> Some fs' | (Inl _, _) \<Rightarrow> None) else None)"

definition line_contents :: "string \<Rightarrow> line_fs \<Rightarrow> json list" where
  "line_contents target fs = projr (read_json_lines fs target)"

definition line_healthy :: "string \<Rightarrow> line_fs \<Rightarrow> bool" where
  "line_healthy target fs \<longleftrightarrow> (\<exists>vs. holds_lines fs target vs)"

interpretation json_lines: durable_log "line_append target" "line_contents target" "line_healthy target" for target
proof
  fix fs fs' v
  assume h: "line_healthy target fs" and a: "line_append target v fs = Some fs'"
  obtain vs where vs: "holds_lines fs target vs" using h by (auto simp: line_healthy_def)
  have "is_object v \<and> json_wf v \<and> append_json_line target v fs = (Inr (), fs')"
    using a by (auto simp: line_append_def split: if_splits prod.splits sum.splits)
  then have next_lines: "holds_lines fs' target (vs @ [v])" using append_holds [OF vs] by blast
  show "line_contents target fs' = line_contents target fs @ [v]"
    by (simp add: line_contents_def holds_read [OF vs] holds_read [OF next_lines])
  show "line_healthy target fs'" using next_lines by (auto simp: line_healthy_def)
qed

end
