(* ===== verification/AskSession.thy ===== *)
theory AskSession
  imports JsonLines
begin

text \<open>
  Sessions of questions and answers (\<open>core/ask-session-store.ts\<close>) and one turn of a session in the command line
  (\<open>infra/cli/utils/ask-session.ts\<close>): a file of JSON lines per session, the last turns that fit into the context, the prompt.

  A turn is whatever JSON value its line holds, so that its members may be missing or of any type: a sum of token counts
  can become \<open>NaN\<close> or a text, and what the runtime throws on a turn without members or a role that is no text is the error
  of the operation. The truncation of \<open>Number(text)\<close>, where it is finite and positive, is the argument \<open>positive\<close>; the sign of
  the difference between \<open>Number(text)\<close> and a limit, \<^const>\<open>None\<close> for \<open>NaN\<close>, is \<open>versus\<close>; \<open>limit * 0.8\<close> is rounded down
  exactly. The provider is the argument \<open>generate\<close>. What is printed is not modelled.
\<close>

definition estimateTokens :: "string \<Rightarrow> int" where
  "estimateTokens content = max 1 ((int (utf16_length content) + 3) div 4)"

definition askSessionsDir :: "(string \<Rightarrow> string option) \<Rightarrow> line_fs \<Rightarrow> string" where
  "askSessionsDir env fs = path_resolve (ln_cwd fs) (case env ''ASK_SESSIONS_DIR'' of Some d \<Rightarrow> d | None \<Rightarrow> ''data/sessions'')"

definition askSessionPath :: "string \<Rightarrow> (string \<Rightarrow> string option) \<Rightarrow> line_fs \<Rightarrow> string" where
  "askSessionPath name env fs = path_resolve (askSessionsDir env fs) (name @ ''.jsonl'')"

definition readAskSession :: "string \<Rightarrow> (string \<Rightarrow> string option) \<Rightarrow> line_fs \<Rightarrow> (string, json list) result" where
  "readAskSession name env fs = read_json_lines fs (askSessionPath name env fs)"

definition ask_turn :: "string \<Rightarrow> string \<Rightarrow> string \<Rightarrow> int \<Rightarrow> json" where
  "ask_turn timestamp role content tokens =
     JObj [(''timestamp'', JStr timestamp), (''role'', JStr role), (''content'', JStr content), (''tokens'', JNum tokens)]"

definition appendAskSessionTurn :: "string \<Rightarrow> json \<Rightarrow> (string \<Rightarrow> string option) \<Rightarrow> line_fs \<Rightarrow> (string, string) result \<times> line_fs" where
  "appendAskSessionTurn name turn env fs =
     (case append_json_line (askSessionPath name env fs) turn fs of
        (Inl e, fs') \<Rightarrow> (Inl e, fs')
      | (Inr _, fs') \<Rightarrow> (Inr (askSessionPath name env fs), fs'))"

definition clearAskSession :: "string \<Rightarrow> (string \<Rightarrow> string option) \<Rightarrow> line_fs \<Rightarrow> (string, string) result \<times> line_fs" where
  "clearAskSession name env fs =
     (let target = askSessionPath name env fs
      in case ln_mkdir_fails fs (path_dirname target) of
           Some e \<Rightarrow> (Inl e, fs)
         | None \<Rightarrow>
             (case ln_append_fails fs target of
                Some (e, _) \<Rightarrow> (Inl e, fs)
              | None \<Rightarrow> (Inr target, set_file target '''' fs)))"

definition env_positive :: "(string \<Rightarrow> int option) \<Rightarrow> (string \<Rightarrow> string option) \<Rightarrow> string \<Rightarrow> int \<Rightarrow> int" where
  "env_positive positive env k dflt = (case env k of None \<Rightarrow> dflt | Some raw \<Rightarrow> (case positive raw of Some n \<Rightarrow> n | None \<Rightarrow> dflt))"

definition askSessionContextTurns :: "(string \<Rightarrow> int option) \<Rightarrow> (string \<Rightarrow> string option) \<Rightarrow> int" where
  "askSessionContextTurns positive env = env_positive positive env ''ASK_CONTEXT_TURNS'' 10"

definition askSessionContextWindowTokens :: "(string \<Rightarrow> int option) \<Rightarrow> (string \<Rightarrow> string option) \<Rightarrow> int" where
  "askSessionContextWindowTokens positive env = env_positive positive env ''ASK_CONTEXT_WINDOW_TOKENS'' 4000"

section \<open>Members of a turn\<close>

definition cannot_read :: "string \<Rightarrow> string \<Rightarrow> string" where
  "cannot_read what k = ''Cannot read properties of '' @ what @ '' (reading '' @ [CHR 0x27] @ k @ [CHR 0x27] @ '')''"

definition turn_member :: "json \<Rightarrow> string \<Rightarrow> (string, json option) result" where
  "turn_member turn k = (if turn = JNull then Inl (cannot_read ''null'' k) else Inr (jfield turn k))"

definition no_primitive :: string where
  "no_primitive = ''Cannot convert object to primitive value''"

fun js_texts :: "(string, string) result list \<Rightarrow> (string, string list) result" where
  "js_texts [] = Inr []"
| "js_texts (r # rs) = rbind r (\<lambda>t. rbind (js_texts rs) (\<lambda>ts. Inr (t # ts)))"

text \<open>\<open>${v}\<close>. An object that has a member \<open>toString\<close> of its own hides the inherited function.\<close>

fun js_text :: "json \<Rightarrow> (string, string) result" where
  "js_text JNull = Inr ''null''"
| "js_text (JBool b) = Inr (if b then ''true'' else ''false'')"
| "js_text (JNum n) = Inr (show_int n)"
| "js_text (JStr t) = Inr t"
| "js_text (JArr vs) = rbind (js_texts (map (\<lambda>v. if v = JNull then Inr '''' else js_text v) vs)) (\<lambda>ts. Inr (join '','' ts))"
| "js_text (JObj kvs) = (if map_of kvs ''toString'' = None then Inr ''[object Object]'' else Inl no_primitive)"

definition member_text :: "json option \<Rightarrow> (string, string) result" where
  "member_text v = (case v of None \<Rightarrow> Inr ''undefined'' | Some w \<Rightarrow> js_text w)"

section \<open>The turns that fit\<close>

text \<open>What \<open>sum + turn.tokens\<close> can be.\<close>

datatype token_sum = Count int | NotANumber | TokenText string

fun sum_text :: "token_sum \<Rightarrow> string" where
  "sum_text (Count n) = show_int n"
| "sum_text NotANumber = ''NaN''"
| "sum_text (TokenText t) = t"

fun add_number :: "token_sum \<Rightarrow> int \<Rightarrow> token_sum" where
  "add_number (Count x) n = Count (x + n)"
| "add_number (TokenText t) n = TokenText (t @ show_int n)"
| "add_number NotANumber n = NotANumber"

fun is_token_text :: "token_sum \<Rightarrow> bool" where
  "is_token_text (TokenText t) = True"
| "is_token_text other = False"

definition add_tokens :: "token_sum \<Rightarrow> json option \<Rightarrow> (string, token_sum) result" where
  "add_tokens tokens v =
     (if is_token_text tokens then rbind (member_text v) (\<lambda>t. Inr (TokenText (sum_text tokens @ t)))
      else
        (case v of
           None \<Rightarrow> Inr NotANumber
         | Some JNull \<Rightarrow> Inr tokens
         | Some (JBool b) \<Rightarrow> Inr (add_number tokens (if b then 1 else 0))
         | Some (JNum n) \<Rightarrow> Inr (add_number tokens n)
         | Some w \<Rightarrow> rbind (js_text w) (\<lambda>t. Inr (TokenText (sum_text tokens @ t)))))"

definition turn_tokens :: "json \<Rightarrow> (string, json option) result" where
  "turn_tokens turn = turn_member turn ''tokens''"

type_synonym comparison = "string \<Rightarrow> int \<Rightarrow> int option"

fun versus_limit :: "comparison \<Rightarrow> token_sum \<Rightarrow> int \<Rightarrow> int option" where
  "versus_limit versus (Count x) limit = Some (x - limit)"
| "versus_limit versus NotANumber limit = None"
| "versus_limit versus (TokenText t) limit = versus t limit"

definition exceeds :: "comparison \<Rightarrow> token_sum \<Rightarrow> int \<Rightarrow> bool" where
  "exceeds versus a limit = (case versus_limit versus a limit of Some d \<Rightarrow> d > 0 | None \<Rightarrow> False)"

definition reaches :: "comparison \<Rightarrow> token_sum \<Rightarrow> int \<Rightarrow> bool" where
  "reaches versus a limit = (case versus_limit versus a limit of Some d \<Rightarrow> d \<ge> 0 | None \<Rightarrow> False)"

text \<open>From the last turn backwards; \<open>picked\<close> is in the order of the session.\<close>

fun pick_turns :: "comparison \<Rightarrow> int \<Rightarrow> token_sum \<Rightarrow> json list \<Rightarrow> json list \<Rightarrow> (string, json list) result" where
  "pick_turns versus maxTokens tokens picked [] = Inr picked"
| "pick_turns versus maxTokens tokens picked (turn # earlier) =
     rbind (rbind (turn_tokens turn) (add_tokens tokens)) (\<lambda>more_tokens.
       if picked \<noteq> [] \<and> exceeds versus more_tokens maxTokens then Inr picked
       else pick_turns versus maxTokens more_tokens (turn # picked) earlier)"

definition selectContextTurns :: "comparison \<Rightarrow> json list \<Rightarrow> int \<Rightarrow> int \<Rightarrow> (string, json list) result" where
  "selectContextTurns versus turns maxTurns maxTokens =
     (let byTurns = drop (length turns - nat (max 1 maxTurns)) turns
      in pick_turns versus maxTokens (Count 0) [] (rev byTurns))"

fun sum_tokens :: "token_sum \<Rightarrow> json list \<Rightarrow> (string, token_sum) result" where
  "sum_tokens tokens [] = Inr tokens"
| "sum_tokens tokens (turn # turns) = rbind (rbind (turn_tokens turn) (add_tokens tokens)) (\<lambda>more_tokens. sum_tokens more_tokens turns)"

record ask_stats =
  st_turns :: nat
  st_tokens :: token_sum
  st_contextTurns :: nat
  st_contextTokens :: token_sum
  st_contextTokenLimit :: int
  st_warning :: bool

definition askSessionStats :: "(string \<Rightarrow> int option) \<Rightarrow> comparison \<Rightarrow> (string \<Rightarrow> string option) \<Rightarrow> json list \<Rightarrow> (string, ask_stats) result" where
  "askSessionStats positive versus env turns =
     (let contextTokenLimit = askSessionContextWindowTokens positive env
      in rbind (selectContextTurns versus turns (askSessionContextTurns positive env) contextTokenLimit) (\<lambda>ctx.
         rbind (sum_tokens (Count 0) turns) (\<lambda>tokens.
         rbind (sum_tokens (Count 0) ctx) (\<lambda>contextTokens.
           Inr \<lparr>st_turns = length turns, st_tokens = tokens, st_contextTurns = length ctx,
             st_contextTokens = contextTokens, st_contextTokenLimit = contextTokenLimit,
             st_warning = reaches versus contextTokens ((4 * contextTokenLimit) div 5)\<rparr>))))"

section \<open>The prompt\<close>

definition upper_char :: "char \<Rightarrow> char" where
  "upper_char c = (if is_lower c then char_of (code c - 32) else c)"

text \<open>\<open>turn.role.toUpperCase()\<close>\<close>

definition upper_role :: "json option \<Rightarrow> (string, string) result" where
  "upper_role v =
     (case v of
        Some (JStr s) \<Rightarrow> Inr (map upper_char s)
      | None \<Rightarrow> Inl (cannot_read ''undefined'' ''toUpperCase'')
      | Some JNull \<Rightarrow> Inl (cannot_read ''null'' ''toUpperCase'')
      | Some w \<Rightarrow> Inl ''turn.role.toUpperCase is not a function'')"

definition transcript_line :: "json \<Rightarrow> (string, string) result" where
  "transcript_line turn =
     rbind (rbind (turn_member turn ''role'') upper_role) (\<lambda>role.
     rbind (rbind (turn_member turn ''content'') member_text) (\<lambda>content. Inr (role @ '': '' @ content)))"

definition buildAskSessionPrompt :: "json list \<Rightarrow> string \<Rightarrow> (string, string) result" where
  "buildAskSessionPrompt contextTurns currentInput =
     (if contextTurns = [] then Inr currentInput
      else rbind (js_texts (map transcript_line contextTurns)) (\<lambda>transcript. Inr (join [CHR 0x0A]
        [''Use the conversation context below when answering the latest user input.'', '''',
         join [CHR 0x0A] transcript, '''', ''USER: '' @ currentInput, ''ASSISTANT:''])))"

section \<open>One turn\<close>

record ask_host =
  ah_env :: "string \<Rightarrow> string option"
  ah_positive :: "string \<Rightarrow> int option"
  ah_versus :: comparison
  ah_asked_at :: string
  ah_answered_at :: string

record generated =
  gen_output :: string
  gen_outputTokens :: "int option"

datatype ask_outcome =
    AskExit
  | AskContext ask_stats
  | AskCleared string
  | AskSaved nat
  | AskAnswered string generated ask_stats

text \<open>\<^const>\<open>None\<close>: the input is no command.\<close>

definition handleAskSessionMetaCommand :: "ask_host \<Rightarrow> string \<Rightarrow> string \<Rightarrow> line_fs \<Rightarrow> ((string, ask_outcome) result \<times> line_fs) option" where
  "handleAskSessionMetaCommand h trimmed session fs =
     (if trimmed = ''/exit'' then Some (Inr AskExit, fs)
      else if trimmed = ''/context'' then
        Some (rbind (readAskSession session (ah_env h) fs) (\<lambda>turns.
                rbind (askSessionStats (ah_positive h) (ah_versus h) (ah_env h) turns) (\<lambda>stats. Inr (AskContext stats))), fs)
      else if trimmed = ''/clear'' then
        Some (case clearAskSession session (ah_env h) fs of (Inl e, fs) \<Rightarrow> (Inl e, fs) | (Inr p, fs) \<Rightarrow> (Inr (AskCleared p), fs))
      else if trimmed = ''/save'' then
        Some (rbind (readAskSession session (ah_env h) fs) (\<lambda>turns. Inr (AskSaved (length turns))), fs)
      else None)"

definition session_prompt :: "ask_host \<Rightarrow> json list \<Rightarrow> string \<Rightarrow> (string, string) result" where
  "session_prompt h turns rawInput =
     rbind (askSessionStats (ah_positive h) (ah_versus h) (ah_env h) turns) (\<lambda>stats.
     rbind (selectContextTurns (ah_versus h) turns (int (st_contextTurns stats)) (st_contextTokenLimit stats)) (\<lambda>ctx.
       buildAskSessionPrompt ctx rawInput))"

definition runAskSessionTurn :: "ask_host \<Rightarrow> (string \<Rightarrow> (string, generated) result) \<Rightarrow> string \<Rightarrow> string \<Rightarrow> line_fs \<Rightarrow>
    (string, ask_outcome) result \<times> line_fs" where
  "runAskSessionTurn h generate session rawInput fs =
     (case handleAskSessionMetaCommand h (trim rawInput) session fs of
        Some r \<Rightarrow> r
      | None \<Rightarrow>
          (case appendAskSessionTurn session (ask_turn (ah_asked_at h) ''user'' rawInput (estimateTokens rawInput)) (ah_env h) fs of
             (Inl e, fs) \<Rightarrow> (Inl e, fs)
           | (Inr _, fs) \<Rightarrow>
               (case rbind (readAskSession session (ah_env h) fs) (\<lambda>turns.
                     rbind (session_prompt h turns rawInput) (\<lambda>prompt.
                     rbind (generate prompt) (\<lambda>answer. Inr (prompt, answer)))) of
                  Inl e \<Rightarrow> (Inl e, fs)
                | Inr (prompt, answer) \<Rightarrow>
                    (let tokens = (case gen_outputTokens answer of Some n \<Rightarrow> n | None \<Rightarrow> estimateTokens (gen_output answer))
                     in case appendAskSessionTurn session (ask_turn (ah_answered_at h) ''assistant'' (gen_output answer) tokens) (ah_env h) fs of
                          (Inl e, fs) \<Rightarrow> (Inl e, fs)
                        | (Inr _, fs) \<Rightarrow>
                            (rbind (readAskSession session (ah_env h) fs) (\<lambda>turns.
                             rbind (askSessionStats (ah_positive h) (ah_versus h) (ah_env h) turns) (\<lambda>stats.
                               Inr (AskAnswered prompt answer stats))), fs)))))"

end
