(* ===== verification/AskSessionLaws.thy ===== *)
theory AskSessionLaws
  imports AskSession
begin

text \<open>
  What a session promises: a turn of a session adds the question and the answer to its file, the context of the prompt is
  the longest end of the session that fits, and it always ends with the question itself, which so is there twice.
\<close>

section \<open>The context is the longest that fits\<close>

definition tokens_of_turn :: "json \<Rightarrow> int" where
  "tokens_of_turn turn = (case turn_tokens turn of Inr (Some (JNum n)) \<Rightarrow> n | other \<Rightarrow> 0)"

definition counted :: "json \<Rightarrow> bool" where
  "counted turn \<longleftrightarrow> (\<exists>n \<ge> 0. turn_tokens turn = Inr (Some (JNum n)))"

definition token_total :: "json list \<Rightarrow> int" where
  "token_total turns = sum_list (map tokens_of_turn turns)"

lemma token_total_simps [simp]: "token_total [] = 0" "token_total (t # ts) = tokens_of_turn t + token_total ts" "token_total (xs @ ys) = token_total xs + token_total ys"
  by (simp_all add: token_total_def)

lemma token_total_nonneg: "list_all counted ts \<Longrightarrow> token_total ts \<ge> 0"
  by (induction ts) (auto simp: counted_def tokens_of_turn_def)

lemma pick_turns_spec:
  assumes "list_all counted earlier" and "tokens = Count (token_total picked)"
  shows "\<exists>k \<le> length earlier. pick_turns versus maxTokens tokens picked earlier = Inr (rev (take k earlier) @ picked) \<and>
    (picked = [] \<and> earlier \<noteq> [] \<longrightarrow> k > 0) \<and>
    (k > 0 \<longrightarrow> token_total (rev (take k earlier) @ picked) \<le> maxTokens \<or> k = 1 \<and> picked = []) \<and>
    (k < length earlier \<longrightarrow> token_total (rev (take (Suc k) earlier) @ picked) > maxTokens)"
  using assms
proof (induction earlier arbitrary: tokens picked)
  case Nil
  then show ?case by simp
next
  case (Cons t earlier)
  obtain n where n: "turn_tokens t = Inr (Some (JNum n))" "tokens_of_turn t = n" using Cons.prems(1) by (auto simp: counted_def tokens_of_turn_def)
  let ?sum = "token_total picked + n"
  show ?case
  proof (cases "picked \<noteq> [] \<and> ?sum > maxTokens")
    case True
    then show ?thesis using Cons.prems(2) n by (intro exI [of _ 0]) (auto simp: add_tokens_def exceeds_def)
  next
    case False
    have step: "pick_turns versus maxTokens tokens picked (t # earlier) = pick_turns versus maxTokens (Count ?sum) (t # picked) earlier"
      using False Cons.prems(2) n by (auto simp: add_tokens_def exceeds_def)
    have "list_all counted earlier" "Count ?sum = Count (token_total (t # picked))" using Cons.prems n by (auto simp: add.commute)
    from Cons.IH [OF this] obtain k where k: "k \<le> length earlier"
        "pick_turns versus maxTokens (Count ?sum) (t # picked) earlier = Inr (rev (take k earlier) @ t # picked)"
        "k > 0 \<longrightarrow> token_total (rev (take k earlier) @ t # picked) \<le> maxTokens"
        "k < length earlier \<longrightarrow> token_total (rev (take (Suc k) earlier) @ t # picked) > maxTokens"
      by auto
    show ?thesis
    proof (intro exI [of _ "Suc k"] conjI)
      show "Suc k > 0 \<longrightarrow> token_total (rev (take (Suc k) (t # earlier)) @ picked) \<le> maxTokens \<or> Suc k = 1 \<and> picked = []"
        using k(3) False n by (cases k) auto
      show "pick_turns versus maxTokens tokens picked (t # earlier) = Inr (rev (take (Suc k) (t # earlier)) @ picked)"
        unfolding step using k(2) by simp
    qed (use k in simp_all)
  qed
qed

text \<open>
  C34: where every turn carries a token count that is a number and not negative, the context of a prompt is the end of the
  session, of at least one turn and at most the configured number of turns; its tokens stay within the limit unless it is
  the last turn alone, and it is the longest such end of the session. Choosing it throws nothing.
\<close>

theorem ask_context_longest:
  assumes "list_all counted turns"
  shows "\<exists>ctx. selectContextTurns versus turns maxTurns maxTokens = Inr ctx \<and>
    (\<exists>earlier. turns = earlier @ ctx) \<and> int (length ctx) \<le> max 1 maxTurns \<and> (turns \<noteq> [] \<longrightarrow> ctx \<noteq> []) \<and>
    (token_total ctx \<le> maxTokens \<or> length ctx = 1 \<or> ctx = []) \<and>
    (\<forall>earlier end_of. turns = earlier @ end_of \<and> int (length end_of) \<le> max 1 maxTurns \<and> token_total end_of \<le> maxTokens \<longrightarrow>
       length end_of \<le> length ctx)"
proof -
  let ?n = "nat (max 1 maxTurns)"
  let ?by = "drop (length turns - ?n) turns"
  have counted: "list_all counted (rev ?by)" using assms(1) by (auto simp: list_all_iff dest: in_set_dropD)
  obtain k where k: "k \<le> length ?by" "?by \<noteq> [] \<longrightarrow> k > 0"
      "k > 0 \<longrightarrow> token_total (rev (take k (rev ?by))) \<le> maxTokens \<or> k = 1"
      "k < length ?by \<longrightarrow> token_total (rev (take (Suc k) (rev ?by))) > maxTokens"
      and select: "selectContextTurns versus turns maxTurns maxTokens = Inr (rev (take k (rev ?by)))"
    using pick_turns_spec [OF counted, of "Count 0" "[]" versus maxTokens] by (auto simp: selectContextTurns_def Let_def)
  have suffix: "rev (take j (rev ?by)) = drop (length turns - j) turns" if "j \<le> length ?by" for j
    using that by (simp add: rev_take drop_drop add.commute)
  define ctx where "ctx = rev (take k (rev ?by))"
  have ctx: "ctx = drop (length turns - k) turns" "length ctx = k" using k(1) suffix [OF k(1)] by (simp_all add: ctx_def)
  have longest: "length end_of \<le> length ctx" if e: "turns = earlier @ end_of" "int (length end_of) \<le> max 1 maxTurns" "token_total end_of \<le> maxTokens" for earlier end_of
  proof (rule ccontr)
    assume "\<not> length end_of \<le> length ctx"
    then have less: "Suc k \<le> length end_of" using ctx(2) by simp
    have len: "length end_of \<le> length ?by" using e(1,2) by auto
    have over: "token_total (drop (length turns - Suc k) turns) > maxTokens" using k(4) suffix [of "Suc k"] less len by simp
    have "end_of = take (length end_of - Suc k) end_of @ drop (length turns - Suc k) turns" using e(1) less by simp
    then have "token_total end_of = token_total (take (length end_of - Suc k) end_of) + token_total (drop (length turns - Suc k) turns)"
      by (metis token_total_simps(3))
    moreover have "token_total (take (length end_of - Suc k) end_of) \<ge> 0"
      using assms(1) e(1) by (intro token_total_nonneg) (auto simp: list_all_iff dest: in_set_takeD)
    ultimately show False using over e(3) by simp
  qed
  have "\<exists>earlier. turns = earlier @ ctx" unfolding ctx(1) by (metis append_take_drop_id)
  moreover have "int (length ctx) \<le> max 1 maxTurns" using k(1) ctx(2) by simp
  moreover have "turns \<noteq> [] \<longrightarrow> ctx \<noteq> []"
  proof
    assume "turns \<noteq> []"
    then have "0 < length turns" "0 < ?n" by simp_all
    then have "length turns - ?n < length turns" by (rule diff_less [rotated])
    then have "?by \<noteq> []" by simp
    then show "ctx \<noteq> []" using k(2) ctx(2) by auto
  qed
  moreover have "token_total ctx \<le> maxTokens \<or> length ctx = 1 \<or> ctx = []"
    using k(3) ctx(2) unfolding ctx_def [symmetric] by auto
  moreover have "selectContextTurns versus turns maxTurns maxTokens = Inr ctx" using select unfolding ctx_def .
  moreover have "\<forall>earlier end_of. turns = earlier @ end_of \<and> int (length end_of) \<le> max 1 maxTurns \<and> token_total end_of \<le> maxTokens \<longrightarrow>
      length end_of \<le> length ctx"
    using longest by (intro allI impI) (elim conjE)
  ultimately show ?thesis by - (rule exI [of _ ctx], intro conjI, assumption+)
qed

section \<open>One turn\<close>

text \<open>What can be added and printed: anything but an object that hides its \<open>toString\<close>.\<close>

definition countable :: "json \<Rightarrow> bool" where
  "countable turn \<longleftrightarrow> turn \<noteq> JNull \<and> is_ok (member_text (jfield turn ''tokens''))"

lemma is_ok_iff: "is_ok r \<longleftrightarrow> (\<exists>a. r = Inr a)"
  by (cases r) simp_all

lemma is_ok_rbind: "is_ok (rbind r f) \<longleftrightarrow> (\<exists>a. r = Inr a \<and> is_ok (f a))"
  by (cases r) simp_all

lemma add_tokens_ok: "is_ok (add_tokens tokens v) \<longleftrightarrow> is_ok (member_text v)"
  by (auto simp: add_tokens_def member_text_def is_ok_rbind split: option.split json.split)
    (auto simp: is_ok_iff rbind_Inr_iff)

lemma turn_step_ok: "is_ok (rbind (turn_tokens turn) (add_tokens tokens)) \<longleftrightarrow> countable turn"
  by (simp add: turn_tokens_def turn_member_def countable_def add_tokens_ok)

lemma turn_step: "countable turn \<Longrightarrow> \<exists>tokens'. rbind (turn_tokens turn) (add_tokens tokens) = Inr tokens'"
  using turn_step_ok [of turn tokens] by (auto simp: is_ok_iff split: sum.splits)

lemma sum_tokens_ok: "is_ok (sum_tokens tokens ts) \<longleftrightarrow> list_all countable ts"
proof (induction ts arbitrary: tokens)
  case (Cons t ts)
  show ?case
  proof (cases "countable t")
    case True
    with turn_step obtain tokens' where "rbind (turn_tokens t) (add_tokens tokens) = Inr tokens'" by blast
    then show ?thesis using Cons True by simp
  next
    case False
    then have "\<not> is_ok (rbind (turn_tokens t) (add_tokens tokens))" unfolding turn_step_ok .
    then obtain e where "rbind (turn_tokens t) (add_tokens tokens) = Inl e" by (metis is_ok.elims(3))
    then show ?thesis using False by (simp add: is_ok_iff)
  qed
qed (simp add: is_ok_iff)

lemma pick_turns_ends: "pick_turns versus m tokens picked ts = Inr out \<Longrightarrow> \<exists>k. out = rev (take k ts) @ picked"
proof (induction ts arbitrary: tokens picked)
  case Nil
  then show ?case by simp
next
  case (Cons t ts)
  from Cons.prems obtain tokens' where
    "out = picked \<or> pick_turns versus m tokens' (t # picked) ts = Inr out"
    by (auto simp: rbind_Inr_iff split: if_splits)
  then show ?case
  proof
    assume "out = picked"
    then show ?thesis by (intro exI [of _ 0]) simp
  next
    assume "pick_turns versus m tokens' (t # picked) ts = Inr out"
    from Cons.IH [OF this] obtain k where "out = rev (take k ts) @ t # picked" by blast
    then show ?thesis by (intro exI [of _ "Suc k"]) simp
  qed
qed

lemma pick_turns_ok: "list_all countable ts \<Longrightarrow> \<exists>out. pick_turns versus m tokens picked ts = Inr out"
proof (induction ts arbitrary: tokens picked)
  case (Cons t ts)
  then obtain tokens' where "rbind (turn_tokens t) (add_tokens tokens) = Inr tokens'" using turn_step [of t tokens] by auto
  with Cons show ?case by simp
qed simp

lemma select_mem: "selectContextTurns versus turns n m = Inr ctx \<Longrightarrow> set ctx \<subseteq> set turns"
  by (auto simp: selectContextTurns_def Let_def dest!: pick_turns_ends in_set_takeD in_set_dropD simp del: rev_take rev_drop)

lemma select_ok: "list_all countable turns \<Longrightarrow> \<exists>ctx. selectContextTurns versus turns n m = Inr ctx"
  unfolding selectContextTurns_def Let_def by (intro pick_turns_ok) (auto simp: list_all_iff dest: in_set_dropD)

lemma stats_ok: "is_ok (askSessionStats positive versus env turns) \<longleftrightarrow> list_all countable turns"
proof
  assume "is_ok (askSessionStats positive versus env turns)"
  then show "list_all countable turns"
    using sum_tokens_ok [of "Count 0" turns] by (auto simp: askSessionStats_def Let_def is_ok_rbind)
next
  assume turns: "list_all countable turns"
  then obtain ctx where ctx:
    "selectContextTurns versus turns (askSessionContextTurns positive env) (askSessionContextWindowTokens positive env) = Inr ctx"
    using select_ok by blast
  then have "list_all countable ctx" using turns select_mem by (force simp: list_all_iff)
  then obtain m n where "sum_tokens (Count 0) ctx = Inr m" "sum_tokens (Count 0) turns = Inr n"
    using turns sum_tokens_ok unfolding is_ok_iff by blast
  then show "is_ok (askSessionStats positive versus env turns)"
    by (simp add: askSessionStats_def Let_def ctx)
qed

lemma select_ends:
  assumes "turns \<noteq> []" and "selectContextTurns versus turns n m = Inr ctx"
  shows "\<exists>earlier. ctx = earlier @ [last turns]"
proof -
  let ?by = "drop (length turns - nat (max 1 n)) turns"
  have "0 < length turns" "0 < nat (max 1 n)" using assms(1) by simp_all
  then have "length turns - nat (max 1 n) < length turns" by (rule diff_less [rotated])
  then have "?by \<noteq> []" "last ?by = last turns" by simp_all
  then obtain ys where ys: "rev ?by = last turns # ys" by (metis hd_Cons_tl hd_rev rev_is_Nil_conv)
  obtain tokens' where "pick_turns versus m tokens' [last turns] ys = Inr ctx"
    using assms(2) unfolding selectContextTurns_def Let_def ys by (auto simp: rbind_Inr_iff)
  from pick_turns_ends [OF this] show ?thesis by auto
qed

lemma rbind_assoc: "rbind (rbind r f) g = rbind r (\<lambda>a. rbind (f a) g)"
  by (cases r) simp_all

lemma js_texts_snoc:
  "js_texts (rs @ [r]) = rbind (js_texts rs) (\<lambda>ts. rbind r (\<lambda>t. Inr (ts @ [t])))"
  by (induction rs) (auto simp: rbind_assoc)

lemma js_texts_ok: "is_ok (js_texts rs) \<longleftrightarrow> list_all is_ok rs"
  by (induction rs) (auto simp: is_ok_rbind is_ok_iff rbind_Inr_iff)

lemma prompt_ends:
  assumes "turns \<noteq> []" and "transcript_line (last turns) = Inr (''USER: '' @ rawInput)" and "session_prompt h turns rawInput = Inr prompt"
  shows "\<exists>before. prompt = before @ ''USER: '' @ rawInput @ [CHR 0x0A, CHR 0x0A] @ ''USER: '' @ rawInput @ [CHR 0x0A] @ ''ASSISTANT:''"
proof -
  from assms(3) obtain stats :: ask_stats and ctx where ctx: "selectContextTurns (ah_versus h) turns (int (st_contextTurns stats)) (st_contextTokenLimit stats) = Inr ctx"
      and prompt: "buildAskSessionPrompt ctx rawInput = Inr prompt"
    unfolding session_prompt_def rbind_Inr_iff by blast
  obtain earlier where "ctx = earlier @ [last turns]" using select_ends [OF assms(1) ctx] by blast
  with prompt assms(2) obtain lines where lines: "js_texts (map transcript_line earlier) = Inr lines"
      and prompt: "prompt = join [CHR 0x0A]
        [''Use the conversation context below when answering the latest user input.'', '''',
         join [CHR 0x0A] (lines @ [''USER: '' @ rawInput]), '''', ''USER: '' @ rawInput, ''ASSISTANT:'']"
    by (auto simp: buildAskSessionPrompt_def js_texts_snoc rbind_Inr_iff)
  have "\<exists>b. join [CHR 0x0A] (lines @ [''USER: '' @ rawInput]) = b @ ''USER: '' @ rawInput"
  proof (cases "lines = []")
    case False
    then have "join [CHR 0x0A] (lines @ [''USER: '' @ rawInput]) = join [CHR 0x0A] lines @ [CHR 0x0A] @ ''USER: '' @ rawInput"
      by (intro join_snoc) simp
    then show ?thesis by simp
  qed simp
  then obtain b where b: "join [CHR 0x0A] (lines @ [''USER: '' @ rawInput]) = b @ ''USER: '' @ rawInput" by blast
  have "prompt = (''Use the conversation context below when answering the latest user input.'' @ [CHR 0x0A, CHR 0x0A] @ b) @
      ''USER: '' @ rawInput @ [CHR 0x0A, CHR 0x0A] @ ''USER: '' @ rawInput @ [CHR 0x0A] @ ''ASSISTANT:''"
    unfolding prompt b by simp
  then show ?thesis by blast
qed

text \<open>A turn as the store writes it, and a few more: the role is a text, the other members can be printed.\<close>

definition proper_turn :: "json \<Rightarrow> bool" where
  "proper_turn turn \<longleftrightarrow> (\<exists>role. jfield turn ''role'' = Some (JStr role)) \<and>
     is_ok (member_text (jfield turn ''content'')) \<and> is_ok (member_text (jfield turn ''tokens''))"

lemma proper_turn_parts: "proper_turn turn \<Longrightarrow> countable turn \<and> is_ok (transcript_line turn)"
  by (cases turn) (auto simp: proper_turn_def countable_def transcript_line_def turn_member_def upper_role_def is_ok_rbind is_ok_iff
      split: sum.splits)

lemma prompt_built:
  assumes "list_all proper_turn turns"
  shows "\<exists>prompt. session_prompt h turns rawInput = Inr prompt"
proof -
  have countable: "list_all countable turns" using assms proper_turn_parts by (auto simp: list_all_iff)
  then obtain stats where stats: "askSessionStats (ah_positive h) (ah_versus h) (ah_env h) turns = Inr stats"
    using stats_ok unfolding is_ok_iff by metis
  obtain ctx where ctx: "selectContextTurns (ah_versus h) turns (int (st_contextTurns stats)) (st_contextTokenLimit stats) = Inr ctx"
    using select_ok [OF countable] by blast
  have "list_all is_ok (map transcript_line ctx)"
    using assms proper_turn_parts select_mem [OF ctx] by (auto simp: list_all_iff)
  then have "is_ok (buildAskSessionPrompt ctx rawInput)"
    using js_texts_ok [of "map transcript_line ctx"] by (auto simp: buildAskSessionPrompt_def is_ok_rbind is_ok_iff split: sum.splits)
  then show ?thesis by (auto simp: session_prompt_def stats ctx is_ok_iff split: sum.splits)
qed

definition meta_command :: "string \<Rightarrow> bool" where
  "meta_command rawInput \<longleftrightarrow> trim rawInput \<in> {''/exit'', ''/context'', ''/clear'', ''/save''}"

lemma append_turn_ok:
  assumes "holds_lines fs (askSessionPath session env fs) vs" and "ln_mkdir_fails fs = (\<lambda>_. None)" and "ln_append_fails fs = (\<lambda>_. None)"
  shows "\<exists>fs'. appendAskSessionTurn session (ask_turn t role content n) env fs = (Inr (askSessionPath session env fs), fs') \<and>
    holds_lines fs' (askSessionPath session env fs) (vs @ [ask_turn t role content n]) \<and> ln_cwd fs' = ln_cwd fs \<and>
    ln_mkdir_fails fs' = (\<lambda>_. None) \<and> ln_append_fails fs' = (\<lambda>_. None) \<and>
    (\<forall>p. p \<noteq> askSessionPath session env fs \<longrightarrow> map_of (ln_files fs') p = map_of (ln_files fs) p)"
proof -
  let ?v = "ask_turn t role content n" and ?p = "askSessionPath session env fs"
  have v: "is_object ?v" "json_wf ?v" by (simp_all add: ask_turn_def)
  obtain fs' where fs': "append_json_line ?p ?v fs = (Inr (), fs')" "fs' = set_file ?p (old_text fs ?p @ JSON_stringify ?v @ [CHR 0x0A]) fs"
    using assms(2,3) by (simp add: append_json_line_def Let_def)
  from append_holds [OF assms(1) v fs'(1)] show ?thesis
    using assms(2,3) by (auto simp: appendAskSessionTurn_def fs' set_file_def map_of_update)
qed

lemma same_session: "ln_cwd fs' = ln_cwd fs \<Longrightarrow> askSessionPath session env fs' = askSessionPath session env fs"
  by (simp add: askSessionPath_def askSessionsDir_def)

text \<open>
  C35: where the files can be written, a turn that is no command first adds the question to the session. If the prompt cannot
  be built or the provider fails, the turn throws that error and the question stays without an answer; otherwise it adds the
  answer as well. No other file is touched. The prompt is the one built of the session with the question, and it ends with
  the question twice: once as the last turn of the context and once more after it. It can be built where all earlier turns
  carry a text as their role and a content and a token count that can be printed.
\<close>

theorem ask_turn_recorded:
  assumes "holds_lines fs p turns" and "p = askSessionPath session (ah_env h) fs" and "\<not> meta_command rawInput"
    and "ln_mkdir_fails fs = (\<lambda>_. None)" and "ln_append_fails fs = (\<lambda>_. None)"
    and "asked = turns @ [ask_turn (ah_asked_at h) ''user'' rawInput (estimateTokens rawInput)]"
  shows "\<exists>fs' result. runAskSessionTurn h generate session rawInput fs = (result, fs') \<and>
    (\<forall>q. q \<noteq> p \<longrightarrow> map_of (ln_files fs') q = map_of (ln_files fs) q) \<and>
    (case rbind (session_prompt h asked rawInput) (\<lambda>prompt. rbind (generate prompt) (\<lambda>answer. Inr (prompt, answer))) of
       Inl e \<Rightarrow> result = Inl e \<and> readAskSession session (ah_env h) fs' = Inr asked
     | Inr (prompt, answer) \<Rightarrow> \<exists>stats n before. result = Inr (AskAnswered prompt answer stats) \<and>
         readAskSession session (ah_env h) fs' = Inr (asked @ [ask_turn (ah_answered_at h) ''assistant'' (gen_output answer) n]) \<and>
         prompt = before @ ''USER: '' @ rawInput @ [CHR 0x0A, CHR 0x0A] @ ''USER: '' @ rawInput @ [CHR 0x0A] @ ''ASSISTANT:'') \<and>
    (list_all proper_turn turns \<longrightarrow> (\<exists>prompt. session_prompt h asked rawInput = Inr prompt))"
proof -
  let ?env = "ah_env h" and ?ask = "rbind (session_prompt h asked rawInput) (\<lambda>prompt. rbind (generate prompt) (\<lambda>answer. Inr (prompt, answer)))"
  have no_meta: "handleAskSessionMetaCommand h (trim rawInput) session fs = None"
    using assms(3) by (simp add: handleAskSessionMetaCommand_def meta_command_def)
  obtain fs1 where fs1: "appendAskSessionTurn session (ask_turn (ah_asked_at h) ''user'' rawInput (estimateTokens rawInput)) ?env fs = (Inr p, fs1)"
      "holds_lines fs1 p asked" "ln_cwd fs1 = ln_cwd fs" "ln_mkdir_fails fs1 = (\<lambda>_. None)" "ln_append_fails fs1 = (\<lambda>_. None)"
      "\<forall>q. q \<noteq> p \<longrightarrow> map_of (ln_files fs1) q = map_of (ln_files fs) q"
    using append_turn_ok [OF assms(1) [unfolded assms(2)] assms(4,5)] unfolding assms(2,6) by blast
  have p1: "askSessionPath session ?env fs1 = p" using same_session [OF fs1(3)] assms(2) by simp
  have read1: "readAskSession session ?env fs1 = Inr asked" by (simp add: readAskSession_def p1 holds_read [OF fs1(2)])
  have asked: "proper_turn (ask_turn t r c n)" "countable (ask_turn t r c n)" for t r c n
    by (simp_all add: proper_turn_def countable_def member_text_def ask_turn_def)
  have built: "list_all proper_turn turns \<longrightarrow> (\<exists>prompt. session_prompt h asked rawInput = Inr prompt)"
    using prompt_built [of asked h rawInput] asked(1) by (simp add: assms(6))
  show ?thesis
  proof (cases ?ask)
    case (Inl e)
    then have "runAskSessionTurn h generate session rawInput fs = (Inl e, fs1)"
      by (simp add: runAskSessionTurn_def no_meta fs1(1) read1)
    then show ?thesis using fs1(6) read1 built unfolding Inl by simp
  next
    case (Inr pair)
    then obtain prompt answer where pair: "pair = (prompt, answer)" and prompt: "session_prompt h asked rawInput = Inr prompt"
      by (auto simp: rbind_Inr_iff)
    let ?n = "case gen_outputTokens answer of Some n \<Rightarrow> n | None \<Rightarrow> estimateTokens (gen_output answer)"
    let ?answer = "ask_turn (ah_answered_at h) ''assistant'' (gen_output answer) ?n"
    obtain fs2 where fs2: "appendAskSessionTurn session ?answer ?env fs1 = (Inr p, fs2)"
        "holds_lines fs2 p (asked @ [?answer])" "ln_cwd fs2 = ln_cwd fs1"
        "\<forall>q. q \<noteq> p \<longrightarrow> map_of (ln_files fs2) q = map_of (ln_files fs1) q"
      using append_turn_ok [of fs1 session ?env asked] fs1(2,4,5) unfolding p1 by blast
    have read2: "readAskSession session ?env fs2 = Inr (asked @ [?answer])"
      using same_session [OF fs2(3)] p1 by (simp add: readAskSession_def holds_read [OF fs2(2)])
    have "is_ok (askSessionStats (ah_positive h) (ah_versus h) ?env asked)"
      using prompt by (auto simp: session_prompt_def rbind_Inr_iff)
    then have "is_ok (askSessionStats (ah_positive h) (ah_versus h) ?env (asked @ [?answer]))"
      using asked(2) unfolding stats_ok by simp
    then obtain stats where stats: "askSessionStats (ah_positive h) (ah_versus h) ?env (asked @ [?answer]) = Inr stats"
      unfolding is_ok_iff by blast
    have "runAskSessionTurn h generate session rawInput fs = (Inr (AskAnswered prompt answer stats), fs2)"
      by (simp add: runAskSessionTurn_def no_meta fs1(1) read1 Inr pair Let_def fs2(1) read2 stats)
    moreover have "map upper_char ''user'' = ''USER''" by code_simp
    then have "transcript_line (last asked) = Inr (''USER: '' @ rawInput)"
      unfolding assms(6) by (simp add: transcript_line_def turn_member_def upper_role_def member_text_def ask_turn_def)
    from prompt_ends [OF _ this prompt]
    have "\<exists>before. prompt = before @ ''USER: '' @ rawInput @ [CHR 0x0A, CHR 0x0A] @ ''USER: '' @ rawInput @ [CHR 0x0A] @ ''ASSISTANT:''"
      by (simp add: assms(6))
    ultimately show ?thesis using read2 fs1(6) fs2(4) built unfolding Inr pair sum.case prod.case by simp blast
  qed
qed

section \<open>A session\<close>

definition empty_lines :: line_fs where
  "empty_lines = \<lparr>ln_cwd = ''/w'', ln_files = [], ln_mkdir_fails = (\<lambda>_. None), ln_append_fails = (\<lambda>_. None), ln_syntax = (\<lambda>_. ''syntax'')\<rparr>"

definition plain_ask :: ask_host where
  "plain_ask = \<lparr>ah_env = (\<lambda>_. None), ah_positive = (\<lambda>_. None), ah_versus = (\<lambda>_ _. None), ah_asked_at = ''t0'', ah_answered_at = ''t1''\<rparr>"

theorem ask_context_longest_witness:
  "selectContextTurns (\<lambda>_ _. None) [ask_turn ''t'' ''user'' ''a'' 5, ask_turn ''t'' ''user'' ''b'' 3, ask_turn ''t'' ''user'' ''c'' 4] 2 10 =
     Inr [ask_turn ''t'' ''user'' ''b'' 3, ask_turn ''t'' ''user'' ''c'' 4] \<and>
   token_total [ask_turn ''t'' ''user'' ''b'' 3, ask_turn ''t'' ''user'' ''c'' 4] \<le> 10"
proof -
  let ?turns = "[ask_turn ''t'' ''user'' ''a'' 5, ask_turn ''t'' ''user'' ''b'' 3, ask_turn ''t'' ''user'' ''c'' 4]"
  have c: "list_all counted ?turns" by (simp add: counted_def turn_tokens_def turn_member_def ask_turn_def)
  have s: "selectContextTurns (\<lambda>_ _. None) ?turns 2 10 = Inr (drop 1 ?turns)"
    by (simp add: selectContextTurns_def Let_def add_tokens_def exceeds_def turn_tokens_def turn_member_def ask_turn_def)
  from ask_context_longest [OF c, of "\<lambda>_ _. None" 2 10] s show ?thesis by auto
qed

text \<open>Without earlier turns the answer is stored; after a line without a role the prompt throws and only the question is.\<close>

definition no_role_lines :: line_fs where
  "no_role_lines = empty_lines\<lparr>ln_files := [(''/w/data/sessions/math.jsonl'', ''{}'' @ [CHR 0x0A])]\<rparr>"

theorem ask_turn_recorded_witness:
  "(\<exists>fs' out n. runAskSessionTurn plain_ask (\<lambda>_. Inr \<lparr>gen_output = ''four'', gen_outputTokens = None\<rparr>) ''math'' ''2+2?'' empty_lines = (Inr out, fs') \<and>
     readAskSession ''math'' (\<lambda>_. None) fs' =
       Inr [ask_turn ''t0'' ''user'' ''2+2?'' (estimateTokens ''2+2?''), ask_turn ''t1'' ''assistant'' ''four'' n]) \<and>
   (\<exists>fs' e. runAskSessionTurn plain_ask (\<lambda>_. Inr \<lparr>gen_output = ''four'', gen_outputTokens = None\<rparr>) ''math'' ''2+2?'' no_role_lines = (Inl e, fs') \<and>
     readAskSession ''math'' (\<lambda>_. None) fs' = Inr [JObj [], ask_turn ''t0'' ''user'' ''2+2?'' (estimateTokens ''2+2?'')])"
proof -
  let ?gen = "\<lambda>_. Inr \<lparr>gen_output = ''four'', gen_outputTokens = None\<rparr> :: (string, generated) result"
  have h: "holds_lines empty_lines p []" for p
    by (simp add: holds_lines_def old_text_def empty_lines_def line_text_def)
  have m: "\<not> meta_command ''2+2?''" by code_simp
  have f: "ln_mkdir_fails empty_lines = (\<lambda>_. None)" "ln_append_fails empty_lines = (\<lambda>_. None)" by (simp_all add: empty_lines_def)
  have env: "ah_env plain_ask = (\<lambda>_. None)" "ah_asked_at plain_ask = ''t0''" "ah_answered_at plain_ask = ''t1''" by (simp_all add: plain_ask_def)
  obtain prompt where prompt: "session_prompt plain_ask [ask_turn ''t0'' ''user'' ''2+2?'' (estimateTokens ''2+2?'')] ''2+2?'' = Inr prompt"
    using prompt_built [of "[ask_turn ''t0'' ''user'' ''2+2?'' (estimateTokens ''2+2?'')]"]
    by (auto simp: proper_turn_def member_text_def ask_turn_def)
  have 1: "\<exists>fs' out n. runAskSessionTurn plain_ask ?gen ''math'' ''2+2?'' empty_lines = (Inr out, fs') \<and>
     readAskSession ''math'' (\<lambda>_. None) fs' =
       Inr [ask_turn ''t0'' ''user'' ''2+2?'' (estimateTokens ''2+2?''), ask_turn ''t1'' ''assistant'' ''four'' n]"
    using ask_turn_recorded [OF h refl m f refl, where h = plain_ask and session = "''math''" and generate = ?gen]
    unfolding env append_Nil prompt by fastforce
  have p: "''/w/data/sessions/math.jsonl'' = askSessionPath ''math'' (ah_env plain_ask) no_role_lines" by code_simp
  have h2: "holds_lines no_role_lines ''/w/data/sessions/math.jsonl'' [JObj []]"
    by (simp add: holds_lines_def old_text_def no_role_lines_def empty_lines_def line_text_def JSON_stringify_def)
  have f2: "ln_mkdir_fails no_role_lines = (\<lambda>_. None)" "ln_append_fails no_role_lines = (\<lambda>_. None)" by (simp_all add: no_role_lines_def empty_lines_def)
  have "\<not> is_ok (session_prompt plain_ask ([JObj []] @ [ask_turn ''t0'' ''user'' ''2+2?'' (estimateTokens ''2+2?'')]) ''2+2?'')"
    by code_simp
  then have throws: "\<exists>e. session_prompt plain_ask ([JObj []] @ [ask_turn ''t0'' ''user'' ''2+2?'' (estimateTokens ''2+2?'')]) ''2+2?'' = Inl e"
    by (metis is_ok.elims(3))
  have 2: "\<exists>fs' e. runAskSessionTurn plain_ask ?gen ''math'' ''2+2?'' no_role_lines = (Inl e, fs') \<and>
     readAskSession ''math'' (\<lambda>_. None) fs' = Inr [JObj [], ask_turn ''t0'' ''user'' ''2+2?'' (estimateTokens ''2+2?'')]"
    using ask_turn_recorded [OF h2 p m f2 refl, where generate = ?gen] throws
    unfolding env by fastforce
  show ?thesis using 1 2 by blast
qed

end
