(* ===== verification/Integrity.thy ===== *)
theory Integrity
  imports JsonRoundtrip
begin

text \<open>
  The integrity manager of chains in memory (\<open>security/integrity.ts\<close>): verification of hashes, links and signatures, and
  the repair that cuts a chain. SHA-256 in hexadecimal and the verification of a signature over a text (false where it
  throws) are fields of \<open>integrity_host\<close>. A block whose \<open>data\<close> is \<open>undefined\<close> is not modelled.
\<close>

record IntegrityBlock =
  ib_index :: int
  ib_timestamp :: string
  ib_data :: json
  ib_hash :: string
  ib_previousHash :: string
  ib_signature :: "string option"
  ib_publicKey :: "string option"

datatype integrity_type = HashMismatch | ChainBroken | InvalidSignature

datatype severity = Low | Medium | High | Critical

record IntegrityError =
  ie_type :: integrity_type
  ie_blockIndex :: nat
  ie_severity :: severity
  ie_expected :: "string option"
  ie_actual :: "string option"

record integrity_host =
  ih_sha256 :: "string \<Rightarrow> string"
  ih_verify :: "string \<Rightarrow> string \<Rightarrow> string \<Rightarrow> bool"
  ih_now :: string

definition computeHash :: "integrity_host \<Rightarrow> IntegrityBlock \<Rightarrow> string" where
  "computeHash h block = ih_sha256 h (JSON_stringify (JObj
     [(''index'', JNum (ib_index block)), (''timestamp'', JStr (ib_timestamp block)), (''data'', ib_data block),
      (''previousHash'', JStr (ib_previousHash block))]))"

definition nonempty_text :: "string option \<Rightarrow> bool" where
  "nonempty_text s = (case s of None \<Rightarrow> False | Some t \<Rightarrow> t \<noteq> '''')"

definition verifyBlockSignature :: "integrity_host \<Rightarrow> IntegrityBlock \<Rightarrow> bool" where
  "verifyBlockSignature h block =
     (if \<not> nonempty_text (ib_signature block) \<or> \<not> nonempty_text (ib_publicKey block) then False
      else ih_verify h (the (ib_publicKey block)) (JSON_stringify (ib_data block)) (the (ib_signature block)))"

definition block_errors :: "integrity_host \<Rightarrow> nat \<Rightarrow> IntegrityBlock option \<Rightarrow> IntegrityBlock \<Rightarrow> IntegrityError list" where
  "block_errors h i prevBlock block =
     (if computeHash h block \<noteq> ib_hash block then
        [\<lparr>ie_type = HashMismatch, ie_blockIndex = i, ie_severity = Critical, ie_expected = Some (ib_hash block),
          ie_actual = Some (computeHash h block)\<rparr>]
      else []) @
     (case prevBlock of
        Some prev \<Rightarrow> if ib_previousHash block \<noteq> ib_hash prev then
          [\<lparr>ie_type = ChainBroken, ie_blockIndex = i, ie_severity = Critical, ie_expected = Some (ib_hash prev),
            ie_actual = Some (ib_previousHash block)\<rparr>] else []
      | None \<Rightarrow> []) @
     (if nonempty_text (ib_signature block) \<and> \<not> verifyBlockSignature h block then
        [\<lparr>ie_type = InvalidSignature, ie_blockIndex = i, ie_severity = High, ie_expected = None, ie_actual = None\<rparr>]
      else [])"

fun chain_errors :: "integrity_host \<Rightarrow> nat \<Rightarrow> IntegrityBlock option \<Rightarrow> IntegrityBlock list \<Rightarrow> IntegrityError list" where
  "chain_errors h i prevBlock [] = []"
| "chain_errors h i prevBlock (block # rest) = block_errors h i prevBlock block @ chain_errors h (i + 1) (Some block) rest"

record IntegrityResult =
  in_isValid :: bool
  in_errors :: "IntegrityError list"
  in_blockCount :: nat
  in_timestamp :: string

definition verifyIntegrity :: "integrity_host \<Rightarrow> IntegrityBlock list \<Rightarrow> IntegrityResult" where
  "verifyIntegrity h blocks =
     (let errors = chain_errors h 0 None blocks
      in \<lparr>in_isValid = (errors = []), in_errors = errors, in_blockCount = length blocks, in_timestamp = ih_now h\<rparr>)"

text \<open>The index of the last block before the loop breaks, from the position \<open>i\<close> on.\<close>

fun last_valid :: "integrity_host \<Rightarrow> nat \<Rightarrow> IntegrityBlock option \<Rightarrow> IntegrityBlock list \<Rightarrow> int \<Rightarrow> int" where
  "last_valid h i prevBlock [] lastValidIndex = lastValidIndex"
| "last_valid h i prevBlock (block # rest) lastValidIndex =
     (if computeHash h block \<noteq> ib_hash block then lastValidIndex
      else if (case prevBlock of Some prev \<Rightarrow> ib_previousHash block \<noteq> ib_hash prev | None \<Rightarrow> False) then lastValidIndex
      else last_valid h (i + 1) (Some block) rest (int i))"

record RepairResult =
  rp_repaired :: bool
  rp_removedBlocks :: "int option"
  rp_remainingBlocks :: "nat option"
  rp_message :: string

definition repairChain :: "integrity_host \<Rightarrow> IntegrityBlock list \<Rightarrow> RepairResult \<times> IntegrityBlock list" where
  "repairChain h blocks =
     (if in_isValid (verifyIntegrity h blocks) then
        (\<lparr>rp_repaired = False, rp_removedBlocks = None, rp_remainingBlocks = None, rp_message = ''Chain is valid, no repair needed''\<rparr>, blocks)
      else
        (let lastValidIndex = last_valid h 0 None blocks (-1);
             removedCount = int (length blocks) - (lastValidIndex + 1);
             kept = take (nat (lastValidIndex + 1)) blocks
         in (\<lparr>rp_repaired = True, rp_removedBlocks = Some removedCount, rp_remainingBlocks = Some (length kept),
              rp_message = ''Removed '' @ show_int removedCount @ '' corrupted blocks''\<rparr>, kept)))"

section \<open>What a repair keeps\<close>

definition fits :: "integrity_host \<Rightarrow> IntegrityBlock option \<Rightarrow> IntegrityBlock \<Rightarrow> bool" where
  "fits h prevBlock block \<longleftrightarrow> computeHash h block = ib_hash block \<and>
     (case prevBlock of Some prev \<Rightarrow> ib_previousHash block = ib_hash prev | None \<Rightarrow> True)"

fun sound_from :: "integrity_host \<Rightarrow> IntegrityBlock option \<Rightarrow> IntegrityBlock list \<Rightarrow> bool" where
  "sound_from h prevBlock [] = True"
| "sound_from h prevBlock (block # rest) = (fits h prevBlock block \<and> sound_from h (Some block) rest)"

abbreviation sound_chain :: "integrity_host \<Rightarrow> IntegrityBlock list \<Rightarrow> bool" where
  "sound_chain h blocks \<equiv> sound_from h None blocks"

lemma last_valid_prefix:
  "\<exists>k \<le> length blocks. last_valid h i prev blocks (int i - 1) = int i + int k - 1 \<and> sound_from h prev (take k blocks) \<and>
     (\<forall>j \<le> length blocks. sound_from h prev (take j blocks) \<longrightarrow> j \<le> k)"
proof (induction blocks arbitrary: i prev)
  case Nil
  then show ?case by simp
next
  case (Cons b rest)
  show ?case
  proof (cases "fits h prev b")
    case True
    have step: "last_valid h i prev (b # rest) (int i - 1) = last_valid h (Suc i) (Some b) rest (int (Suc i) - 1)"
      using True by (auto simp: fits_def split: option.splits)
    obtain k where k: "k \<le> length rest" "last_valid h (Suc i) (Some b) rest (int (Suc i) - 1) = int (Suc i) + int k - 1"
        "sound_from h (Some b) (take k rest)" "\<forall>j \<le> length rest. sound_from h (Some b) (take j rest) \<longrightarrow> j \<le> k"
      using Cons.IH [of "Suc i" "Some b"] by blast
    have "j \<le> Suc k" if "j \<le> length (b # rest)" "sound_from h prev (take j (b # rest))" for j
      using that k(4) by (cases j) auto
    then show ?thesis unfolding step using k(1-3) True by (intro exI [of _ "Suc k"]) simp
  next
    case False
    have "j \<le> 0" if "sound_from h prev (take j (b # rest))" for j using that False by (cases j) auto
    moreover have "last_valid h i prev (b # rest) (int i - 1) = int i - 1" using False by (auto simp: fits_def split: option.splits)
    ultimately show ?thesis by (intro exI [of _ 0]) auto
  qed
qed

lemma fits_errors: "fits h prev b \<Longrightarrow> e \<in> set (block_errors h i prev b) \<Longrightarrow> ie_type e = InvalidSignature"
  by (auto simp: block_errors_def fits_def split: option.splits if_splits)

lemma sound_errors: "sound_from h prev blocks \<Longrightarrow> e \<in> set (chain_errors h i prev blocks) \<Longrightarrow> ie_type e = InvalidSignature"
proof (induction blocks arbitrary: i prev)
  case (Cons b rest)
  then show ?case using fits_errors by auto
qed simp

lemma valid_sound: "chain_errors h i prev blocks = [] \<Longrightarrow> sound_from h prev blocks"
  by (induction blocks arbitrary: i prev) (auto simp: block_errors_def fits_def split: option.splits if_splits)

lemma sound_take_le: "sound_from h prev (take k blocks) \<Longrightarrow> j \<le> k \<Longrightarrow> sound_from h prev (take j blocks)"
proof (induction blocks arbitrary: j k prev)
  case (Cons b rest)
  then show ?case by (cases j; cases k) auto
qed simp

text \<open>
  C33: a repair keeps exactly the longest prefix of the chain whose hashes and links are right, and what it keeps has no
  error but invalid signatures; a valid chain is left as it is. Signatures are not repaired: a chain whose hashes and links
  are right and that has an invalid signature is reported as repaired although nothing was removed and it is as invalid as before.
\<close>

theorem repair_keeps_longest_sound_prefix:
  assumes "repairChain h blocks = (report, kept)"
  shows "kept = take (length kept) blocks \<and> sound_chain h kept \<and>
    (\<forall>j \<le> length blocks. sound_chain h (take j blocks) \<longrightarrow> j \<le> length kept) \<and>
    list_all (\<lambda>e. ie_type e = InvalidSignature) (in_errors (verifyIntegrity h kept)) \<and>
    rp_repaired report = (\<not> in_isValid (verifyIntegrity h blocks)) \<and>
    (rp_repaired report \<longrightarrow> rp_removedBlocks report = Some (int (length blocks) - int (length kept))) \<and>
    (sound_chain h blocks \<longrightarrow> kept = blocks)"
proof -
  obtain k where k: "k \<le> length blocks" "last_valid h 0 None blocks (-1) = int k - 1" "sound_from h None (take k blocks)"
      "\<forall>j \<le> length blocks. sound_from h None (take j blocks) \<longrightarrow> j \<le> k"
    using last_valid_prefix [of blocks h 0 None] by auto
  have kept: "kept = take k blocks \<and> length kept = k"
  proof (cases "in_isValid (verifyIntegrity h blocks)")
    case True
    then have "sound_from h None (take (length blocks) blocks)" by (simp add: verifyIntegrity_def Let_def valid_sound)
    then have "k = length blocks" using k(1,4) by (meson le_antisym order_refl)
    then show ?thesis using True assms by (simp add: repairChain_def)
  next
    case False
    then show ?thesis using k(1,2) assms by (auto simp: repairChain_def Let_def)
  qed
  have "list_all (\<lambda>e. ie_type e = InvalidSignature) (in_errors (verifyIntegrity h kept))"
    using sound_errors [OF k(3)] kept by (auto simp: list_all_iff verifyIntegrity_def Let_def)
  moreover have "rp_repaired report = (\<not> in_isValid (verifyIntegrity h blocks))"
    using assms by (auto simp: repairChain_def Let_def)
  moreover have "rp_repaired report \<longrightarrow> rp_removedBlocks report = Some (int (length blocks) - int (length kept))"
    using k(2) kept assms by (auto simp: repairChain_def Let_def split: if_splits)
  moreover have "sound_chain h blocks \<longrightarrow> kept = blocks"
    using k(4) kept k(1) by (metis le_antisym order_refl take_all)
  ultimately show ?thesis using k(3,4) kept by metis
qed

text \<open>A chain with sound hashes and links and a bad signature.\<close>

definition any_host :: integrity_host where
  "any_host = \<lparr>ih_sha256 = (\<lambda>s. CHR ''#'' # s), ih_verify = (\<lambda>_ _ _. False), ih_now = ''t''\<rparr>"

definition unsigned_block :: IntegrityBlock where
  "unsigned_block = \<lparr>ib_index = 0, ib_timestamp = ''t'', ib_data = JNull, ib_hash = '''', ib_previousHash = ''0'',
     ib_signature = Some ''ff'', ib_publicKey = Some ''key''\<rparr>"

definition badly_signed :: IntegrityBlock where
  "badly_signed = unsigned_block\<lparr>ib_hash := computeHash any_host unsigned_block\<rparr>"

lemma repaired_but_invalid:
  "rp_repaired (fst (repairChain any_host [badly_signed])) \<and> rp_removedBlocks (fst (repairChain any_host [badly_signed])) = Some 0 \<and>
   \<not> in_isValid (verifyIntegrity any_host (snd (repairChain any_host [badly_signed])))"
  by code_simp

theorem repair_keeps_longest_sound_prefix_witness:
  "\<exists>report. repairChain any_host [badly_signed, badly_signed] = (report, [badly_signed]) \<and> rp_repaired report \<and> sound_chain any_host [badly_signed]"
proof -
  obtain report where r: "repairChain any_host [badly_signed, badly_signed] = (report, [badly_signed])" "rp_repaired report"
  proof -
    have "snd (repairChain any_host [badly_signed, badly_signed]) = [badly_signed] \<and>
        rp_repaired (fst (repairChain any_host [badly_signed, badly_signed]))" by code_simp
    then show ?thesis by (intro that [of "fst (repairChain any_host [badly_signed, badly_signed])"]) (simp_all add: prod_eq_iff)
  qed
  from repair_keeps_longest_sound_prefix [OF r(1)] r show ?thesis by blast
qed

end
