(* ===== verification/Spec2Isabelle.thy ===== *)
theory Spec2Isabelle
  imports TaskQueueLaws DualApprovalLaws ToolApprovalLaws ChainLaws GatewayLaws Orchestration TaskLoopLaws AppRegistry
    SyncLaws FileCacheLaws BufferPoolLaws HttpLaws HnswLaws IncidentExportLaws KeyRotationLaws SecurityEventsLaws RollbackLaws
    ImportJsonLaws AskSessionLaws Integrity
begin

text \<open>
  Verification of Memphis, a local runtime for language-model agents, written in TypeScript. File names below are
  relative to \<open>src/src/\<close>, those that start with \<open>scripts/\<close> or \<open>crates/\<close> to \<open>src/\<close>.

  \<^bold>\<open>The program.\<close> An agent reaches the runtime through the HTTP server, the command gateway, the MCP server or the
  command line. What it does is kept in memory chains (directories of hash-linked JSON blocks), in SQLite tables
  (approvals, permissions) and in a write-ahead log (tasks). Calls of language models go through the orchestration
  (policy, retries, fallback) and the bounded loop of the task executor; commands and apps go through policies and
  checks; a freeze of the agent, a change of its policy or a tool call may need the approval of a second person or of an
  operator. Chains are exchanged with other agents. Operators export signed evidence of incidents, verify it and rotate
  the keys; critical events and alerts are recorded with fallbacks; snapshots can be restored.

  \<^bold>\<open>How it is modelled.\<close> A JavaScript function is a HOL function of the same name (a suffix or a prefix where HOL or
  another component has that name); a class is a record of its fields and a method a function that returns the next
  record; what throws returns \<open>Inl\<close> of the error, in the type \<open>result\<close>. A \<open>Map\<close>, a table and a JSON object are maps in
  order of insertion (\<open>jsmap\<close>, an association list with distinct keys), a file system is a map from paths. What the code
  does not define itself is an argument or a field of an environment record: SHA-256, ciphers and signatures, the clock,
  random identifiers, \<open>localeCompare\<close>, texts of system errors, outcomes of system calls, answers of services. Strings
  are lists of bytes of their UTF-8 form; case mapping and white space are those of ASCII; the numbers of JSON are
  integers. The members of an object are in order of insertion: that JavaScript lists keys that look like array indices
  first is not modelled. Code with \<open>await\<close> is one step where nothing else can touch its state between two awaits; where
  something can, the interleaving is an explicit sequence of operations or the state seen at each await is an argument.

  \<^bold>\<open>Foundation.\<close>
    \<^item> \<open>Prelude\<close>: results, insertion-ordered maps (\<open>map_simps\<close>), the stable sort, and three interfaces. The locale
      \<open>comparator\<close> (a total comparison: \<open>js_sort\<close> sorts, permutes and is stable) is interpreted for the orders of chain
      indices, versions, events, permissions, bundle ages, buckets, names and merged blocks. \<open>lifecycle\<close> (a status that moves
      along a table and up in a rank: moves end, final states stay) is interpreted for dual approvals (\<open>dual_life\<close>) and tool calls
      (\<open>tool_life\<close>). \<open>durable_log\<close> (appending adds one record or none and keeps the log healthy: a run of appends reads back
      as what was accepted) is interpreted for the write-ahead log (\<open>wal_log\<close>), the chain directory (\<open>chain_log\<close>) and
      the files of JSON lines (\<open>json_lines\<close>).
    \<^item> \<open>JsString\<close>, \<open>Json\<close>, \<open>JsonRoundtrip\<close>, \<open>Regex\<close>, \<open>Paths\<close>, \<open>Sqlite\<close>: the standard library as far as it is used.
      Printing and parsing JSON is a round trip; the backtracking matcher decides the matching relation; a resolved path
      below a base stays below it. \<open>Paths\<close> also has \<open>config/paths.ts\<close>.
    \<^item> \<open>Errors\<close>: \<open>core/errors.ts\<close>; every conversion of a thrown value keeps its message and has one of six codes.

  \<^bold>\<open>Tasks and chains.\<close>
    \<^item> \<open>Crc32c\<close>, \<open>Wal\<close>, \<open>WalLaws\<close>: \<open>infra/storage/task-queue-wal.ts\<close> on bytes and 32-bit words: torn writes, corruption,
      rotation, synced bytes, the lock file; in financial mode what was acknowledged is read again after a crash, as long as the
      log is not rotated. \<open>TaskQueue\<close>, \<open>TaskQueueLaws\<close>: \<open>infra/storage/task-queue-service.ts\<close> over it:
      the abstract table of pending tasks is refined by the log, so recovery after a crash finds it.
    \<^item> \<open>ChainAdapter\<close>, \<open>ChainLaws\<close>: \<open>infra/storage/chain-adapter.ts\<close>: a directory refines the list of accepted blocks, and
      its head commits to the history unless two of the hashed texts collide.
    \<^item> \<open>Sync\<close>, \<open>SyncLaws\<close>: the exchange of chains in \<open>sync/\<close>. \<open>VaultStore\<close>: \<open>infra/storage/vault-entry-store.ts\<close>.
    \<^item> \<open>Rollback\<close>, \<open>RollbackLaws\<close>: \<open>backup/rollback.ts\<close>.
    \<^item> \<open>ImportJson\<close>, \<open>ImportJsonLaws\<close>: \<open>infra/cli/import-json.ts\<close>, the import of a chain from a file: what comes out is linked,
      what was written imports again unchanged, and the target is the old or the new file.
    \<^item> \<open>Integrity\<close>: \<open>security/integrity.ts\<close>; a repair keeps the longest prefix with right hashes and links.
    \<^item> \<open>JsonLines\<close>, \<open>AskSession\<close>, \<open>AskSessionLaws\<close>: files of one JSON object per line, and the sessions of \<open>core/ask-session-store.ts\<close>
      and \<open>infra/cli/utils/ask-session.ts\<close> over them. A turn may be any JSON value, so sums of token counts and the
      prompt have the conversions and the exceptions of the language.

  \<^bold>\<open>Approvals and access.\<close>
    \<^item> \<open>DualApproval\<close>, \<open>DualApprovalLaws\<close>: the repository of dual approvals; its event log replays to its rows.
    \<^item> \<open>ToolApproval\<close>, \<open>ToolApprovalLaws\<close>: permissions, approvals of single tool calls and the gate of \<open>mcp/server.ts\<close>.
    \<^item> \<open>AdminSignature\<close>, \<open>HttpServer\<close>, \<open>HttpLaws\<close>: signed administrator actions, start-up guards, the trust root; the hook
      and the dual-approval routes of \<open>infra/http/server.ts\<close>, composed with the repository.
    \<^item> \<open>Gateway\<close>, \<open>GatewayLaws\<close>: \<open>gateway/server.ts\<close>, \<open>gateway/exec-policy.ts\<close> and \<open>infra/http/rate-limit.ts\<close>;
      what the policy accepts has no character that is special to a shell.

  \<^bold>\<open>Model calls and apps.\<close>
    \<^item> \<open>Orchestration\<close>: \<open>modules/orchestration/service.ts\<close> and \<open>provider-policy.ts\<close>. \<open>TaskLoop\<close>, \<open>TaskLoopLaws\<close>:
      \<open>task-executor.ts\<close>, the mirror in \<open>mcp/tools/loop-step.ts\<close> and, on machine words, \<open>crates/memphis-core/src/loop_engine.rs\<close>.
    \<^item> \<open>AppSteps\<close>, \<open>ManagedApps\<close>, \<open>ManagedAppsLaws\<close>, \<open>AppRegistry\<close>: \<open>modules/apps/\<close>.

  \<^bold>\<open>Data structures.\<close>
    \<^item> \<open>Caches\<close>, \<open>CachesLaws\<close>, \<open>FileCacheLaws\<close>, \<open>BufferPoolLaws\<close>: the block, query and file caches and the buffer pool. The
      locale \<open>evicting_cache\<close> (evicting a key removes that key only) is interpreted for the block cache (\<open>chain_blocks\<close>) and the
      file cache (\<open>files\<close>).
    \<^item> \<open>Hnsw\<close>, \<open>HnswLaws\<close>: \<open>infra/embeddings/hnsw-index.ts\<close> over any linearly ordered scores.

  \<^bold>\<open>Incidents.\<close>
    \<^item> \<open>EncryptedBlob\<close>, \<open>IncidentExport\<close>, \<open>IncidentExportLaws\<close>, \<open>IncidentManifest\<close>, \<open>IncidentLaws\<close>: the exporter, the verifier
      and their encrypted files; what the one writes without encryption the other accepts with the public key, and what the strict
      profile accepts is signed by a trusted key. \<open>RedactionLaws\<close>: redaction leaves no match of a token pattern and no value under
      a sensitive name. The calls of the scripts that only print a help text are left out.
      A step of the verifier only adds errors, so a run without errors passed every check (\<open>no_errors\<close>).
    \<^item> \<open>KeyRotation\<close>, \<open>KeyRotationLaws\<close>: \<open>scripts/rotate-key-bundle.mts\<close>, composed with the verifier.
    \<^item> \<open>SecurityEvents\<close>, \<open>SecurityEventsLaws\<close>: emergency log, alerts and audit lines.

  \<^bold>\<open>Bounds and fuel.\<close> Most loops are structural. The parser of the log, the lexer, the matcher, the templates of apps, the
  binary searches and the search of the vector index end by a measure; the eviction loop of the file cache is a
  \<open>while_option\<close> that is proved to end. The wait for the log's lock, the retries of a generation and the loop of an agent run are
  bounded by the code's own limits. Two recursions have fuel: the parser of JSON gets the number of tokens, which is
  enough for every printed value (\<open>parse_stringify\<close>), and \<open>rollback\<close> has an explicit one because it need not return
  (\<open>rollback_never_returns\<close>); one unit is enough where no write fails (\<open>snapshot_rollback_restores\<close>). The bytes of the
  log, its checksum and the Rust loop are machine words; integers of JavaScript below \<open>2^53\<close> are integers.

  \<^bold>\<open>Not modelled.\<close> Of the command line only the import of chains and the turns of a session are modelled; the rest, the terminal interface,
  the dashboard and the onboarding are prompts, rendering and
  calls of the operations above. The cognitive models are heuristics over text with floating-point weights and no contract
  to state. Provider clients, MCP transports, IPFS and the messages of \<open>sync/protocol.ts\<close> are network calls: they are the
  parameters of the components that use them. The adapters of the Rust libraries call native code loaded at run time; the
  Rust crates other than the loop engine are not in the language covered. Of \<open>infra/http/server.ts\<close> and
  \<open>gateway/server.ts\<close> the routes that only collect data of other components are parameters, and so are the tool bodies of
  \<open>mcp/server.ts\<close>. Of \<open>core/\<close> the records of decisions are left
  out (their confidence is a fraction, JSON here has integers) and the rebuild of chain indices; the archives of
  \<open>infra/cli/commands/backup.ts\<close> are made by \<open>tar\<close>. Logging, metrics, configuration schemas, start-up wiring and operator scripts that only run other
  programs have no state of their own. Timing (constant-time comparison), memory and encodings other than UTF-8 are outside
  the model.
\<close>

end
